(* ===== verification/Prelude.thy ===== *)
theory Prelude
  imports Main "HOL-Library.AList"
begin

text \<open>
  The shared base of the development: the values of the language the code is written in
  (strings, optional values, insertion-ordered maps, numbers that may not be finite), the
  effect type in which every asynchronous operation is modelled, and the rules by which the
  component theories reason about it.

  Strings are lists of characters; a character stands for one UTF-16 code unit below 256, so
  \<open>trim\<close> removes exactly the white space of that range. An absent value (\<open>undefined\<close>, or
  \<open>null\<close> where the code does not tell the two apart) is \<open>None\<close>. A JavaScript \<open>Map\<close> whose
  order is observable is an association list under \<open>AList.update\<close>, which overwrites in place
  and appends a new key at the end, exactly as \<open>Map.set\<close> does; a \<open>Map\<close> that is only looked
  up is a HOL map.
\<close>

section \<open>Collections of facts\<close>

named_theorems io_defs \<open>definitions of the effect combinators\<close>
named_theorems runs \<open>inversion of a run that ends normally\<close>
named_theorems wp_simps \<open>weakest preconditions of the effect combinators\<close>

section \<open>Strings and optional values\<close>

definition js_space :: "char \<Rightarrow> bool" where
  "js_space c \<longleftrightarrow> (let n = (of_char c :: nat) in (9 \<le> n \<and> n \<le> 13) \<or> n = 32 \<or> n = 160)"

definition trim :: "string \<Rightarrow> string" where
  "trim s = rev (dropWhile js_space (rev (dropWhile js_space s)))"

text \<open>The truth value of an optional string: \<open>undefined\<close>, \<open>null\<close> and the empty string are
  false.\<close>

definition truthy :: "string option \<Rightarrow> bool" where
  "truthy v \<longleftrightarrow> (case v of None \<Rightarrow> False | Some s \<Rightarrow> s \<noteq> [])"

text \<open>The operator \<open>a ?? b\<close>, for a right operand that is present and for one that may be
  absent.\<close>

definition nullish :: "'a option \<Rightarrow> 'a \<Rightarrow> 'a" where
  "nullish a b = (case a of None \<Rightarrow> b | Some x \<Rightarrow> x)"

definition nullish_opt :: "'a option \<Rightarrow> 'a option \<Rightarrow> 'a option" where
  "nullish_opt a b = (case a of None \<Rightarrow> b | Some x \<Rightarrow> Some x)"

lemma truthy_simps [simp]:
  "truthy None = False" "truthy (Some s) = (s \<noteq> [])"
  by (simp_all add: truthy_def)

lemma nullish_simps [simp]:
  "nullish None b = b" "nullish (Some x) b = x"
  "nullish_opt None c = c" "nullish_opt (Some x) c = Some x"
  by (simp_all add: nullish_def nullish_opt_def)

lemma trim_Nil [simp]: "trim [] = []"
  by (simp add: trim_def)

lemma trim_eq_Nil_iff: "trim s = [] \<longleftrightarrow> (\<forall>c \<in> set s. js_space c)"
proof -
  have "trim s = [] \<longleftrightarrow> dropWhile js_space (rev (dropWhile js_space s)) = []"
    by (simp add: trim_def)
  also have "\<dots> \<longleftrightarrow> (\<forall>c \<in> set (dropWhile js_space s). js_space c)"
    by (simp add: dropWhile_eq_Nil_conv)
  also have "\<dots> \<longleftrightarrow> (\<forall>c \<in> set s. js_space c)"
  proof
    assume all: "\<forall>c \<in> set (dropWhile js_space s). js_space c"
    show "\<forall>c \<in> set s. js_space c"
    proof
      fix c assume "c \<in> set s"
      then have "c \<in> set (takeWhile js_space s) \<or> c \<in> set (dropWhile js_space s)"
        by (metis Un_iff set_append takeWhile_dropWhile_id)
      with all show "js_space c" by (auto dest: set_takeWhileD)
    qed
  next
    assume "\<forall>c \<in> set s. js_space c"
    then show "\<forall>c \<in> set (dropWhile js_space s). js_space c"
      by (auto dest: set_dropWhileD)
  qed
  finally show ?thesis .
qed

subsection \<open>Character classes and pieces of strings\<close>

definition code_of :: "char \<Rightarrow> nat" where
  "code_of c = of_char c"

lemma code_of_char_of [simp]: "n < 256 \<Longrightarrow> code_of (char_of n) = n"
  by (simp add: code_of_def)

lemma char_of_code_of [simp]: "char_of (code_of c) = c"
  by (simp add: code_of_def)

lemma code_of_less [simp]: "code_of c < 256"
  by (simp add: code_of_def)

lemma code_of_inj: "code_of c = code_of d \<longleftrightarrow> c = d"
  by (metis char_of_code_of)

definition is_letter :: "char \<Rightarrow> bool" where
  "is_letter c \<longleftrightarrow> (65 \<le> code_of c \<and> code_of c \<le> 90) \<or> (97 \<le> code_of c \<and> code_of c \<le> 122)"

definition is_digit :: "char \<Rightarrow> bool" where
  "is_digit c \<longleftrightarrow> 48 \<le> code_of c \<and> code_of c \<le> 57"

definition is_alnum :: "char \<Rightarrow> bool" where
  "is_alnum c \<longleftrightarrow> is_letter c \<or> is_digit c"

definition to_lower :: "char \<Rightarrow> char" where
  "to_lower c = (if 65 \<le> code_of c \<and> code_of c \<le> 90 then char_of (code_of c + 32) else c)"

fun split_on :: "char \<Rightarrow> string \<Rightarrow> string list" where
  "split_on c [] = [[]]"
| "split_on c (x # xs) =
     (if x = c then [] # split_on c xs
      else (case split_on c xs of [] \<Rightarrow> [[x]] | y # ys \<Rightarrow> (x # y) # ys))"

definition ends_with :: "string \<Rightarrow> string \<Rightarrow> bool" where
  "ends_with s t \<longleftrightarrow> length t \<le> length s \<and> drop (length s - length t) s = t"

section \<open>Numbers\<close>

text \<open>The decimal form of a natural number, as a template literal prints it.\<close>

definition digit_char :: "nat \<Rightarrow> char" where
  "digit_char d = char_of (48 + d)"

fun decimal :: "nat \<Rightarrow> string" where
  "decimal n = (if n < 10 then [digit_char n] else decimal (n div 10) @ [digit_char (n mod 10)])"

declare decimal.simps [simp del]

lemma digit_char_inj: "a < 10 \<Longrightarrow> b < 10 \<Longrightarrow> digit_char a = digit_char b \<longleftrightarrow> a = b"
  by (auto simp: digit_char_def dest!: arg_cong [where f = of_char])

lemma decimal_digits: "c \<in> set (decimal n) \<Longrightarrow> \<exists>d < 10. c = digit_char d"
proof (induction n rule: decimal.induct)
  case (1 n)
  have "n mod 10 < 10" by simp
  with 1 show ?case by (subst (asm) (2) decimal.simps) (auto split: if_splits intro: exI [of _ "n mod 10"])
qed

lemma decimal_Nil [simp]: "decimal n \<noteq> []"
  by (subst decimal.simps) simp

lemma decimal_inj: "decimal m = decimal n \<Longrightarrow> m = n"
proof (induction m arbitrary: n rule: decimal.induct)
  case (1 m)
  show ?case
  proof (cases "m < 10")
    case True
    with 1(2) have "n < 10 \<and> digit_char m = digit_char n"
      by (subst (asm) (1 2) decimal.simps) (auto split: if_splits simp: append_eq_Cons_conv Cons_eq_append_conv)
    with True digit_char_inj [of m n] show ?thesis by blast
  next
    case False
    with 1(2) have "\<not> n < 10 \<and> decimal (m div 10) = decimal (n div 10) \<and> digit_char (m mod 10) = digit_char (n mod 10)"
      by (subst (asm) (1 2) decimal.simps) (auto split: if_splits simp: append_eq_Cons_conv Cons_eq_append_conv)
    with 1(1) False have "m div 10 = n div 10" "m mod 10 = n mod 10" by (auto simp: digit_char_inj)
    then show ?thesis by (metis div_mult_mod_eq)
  qed
qed

text \<open>A string is split at its last separator in one way.\<close>

lemma last_separator:
  assumes "xs @ c # ys = xs' @ c # ys'" "c \<notin> set ys" "c \<notin> set ys'"
  shows "xs = xs' \<and> ys = ys'"
proof -
  from assms(1) have "rev (xs @ c # ys) = rev (xs' @ c # ys')" by simp
  then have eq: "rev ys @ c # rev xs = rev ys' @ c # rev xs'" by simp
  have tw: "takeWhile (\<lambda>d. d \<noteq> c) (us @ c # vs) = us" if "c \<notin> set us" for us vs
    using that by (induction us) auto
  have "rev ys = rev ys'" using tw [of "rev ys" "rev xs"] tw [of "rev ys'" "rev xs'"] eq assms(2,3) by simp
  with eq show ?thesis by simp
qed

text \<open>
  Clock values, lifetimes and counters are integral. A number read from a caller may also be
  \<open>NaN\<close> or infinite; the code only ever asks \<open>Number.isFinite\<close> of such a value, so these are
  one value of the model. A sum is finite when it stays below the point at which IEEE
  rounding gives infinity. Safe integers are those of \<open>Number.isSafeInteger\<close>.
\<close>

datatype js_number = Finite int | NotFinite

definition float_limit :: int where
  "float_limit = 2 ^ 1024 - 2 ^ 970"

definition finite_sum :: "int \<Rightarrow> int \<Rightarrow> bool" where
  "finite_sum a b \<longleftrightarrow> \<bar>a + b\<bar> < float_limit"

definition safe_integer :: "js_number \<Rightarrow> bool" where
  "safe_integer n = (case n of Finite i \<Rightarrow> \<bar>i\<bar> \<le> 2 ^ 53 - 1 | NotFinite \<Rightarrow> False)"

section \<open>Removing duplicates\<close>

text \<open>\<open>[...new Set(xs)]\<close>: the first occurrence of every element, in order.\<close>

fun unique :: "'a list \<Rightarrow> 'a list" where
  "unique [] = []"
| "unique (x # xs) = x # filter (\<lambda>y. y \<noteq> x) (unique xs)"

lemma set_unique [simp]: "set (unique xs) = set xs"
  by (induction xs) auto

lemma distinct_unique [simp]: "distinct (unique xs)"
  by (induction xs) auto

section \<open>Effects\<close>

text \<open>
  An operation that may read and change the world and may throw maps a world to its outcome,
  \<open>Inl\<close> an exception or \<open>Inr\<close> a value, and the world it leaves. Everything an operation of
  the host does while it runs, including what other workers do between two awaits, is part of
  that step from world to world.
\<close>

type_synonym ('w, 'e, 'a) io = "'w \<Rightarrow> ('e + 'a) \<times> 'w"

definition ret :: "'a \<Rightarrow> ('w, 'e, 'a) io" where
  [io_defs]: "ret x w = (Inr x, w)"

definition throw :: "'e \<Rightarrow> ('w, 'e, 'a) io" where
  [io_defs]: "throw e w = (Inl e, w)"

definition andThen :: "('w, 'e, 'a) io \<Rightarrow> ('a \<Rightarrow> ('w, 'e, 'b) io) \<Rightarrow> ('w, 'e, 'b) io" where
  [io_defs]: "andThen m f w = (case m w of (Inl e, w') \<Rightarrow> (Inl e, w') | (Inr x, w') \<Rightarrow> f x w')"

definition tryCatch :: "('w, 'e, 'a) io \<Rightarrow> ('e \<Rightarrow> ('w, 'e, 'a) io) \<Rightarrow> ('w, 'e, 'a) io" where
  [io_defs]: "tryCatch m h w = (case m w of (Inl e, w') \<Rightarrow> h e w' | (Inr x, w') \<Rightarrow> (Inr x, w'))"

text \<open>\<open>Promise.allSettled\<close> on one promise: the outcome as a value.\<close>

definition settled :: "('w, 'e, 'a) io \<Rightarrow> ('w, 'e, 'e + 'a) io" where
  [io_defs]: "settled m w = (case m w of (r, w') \<Rightarrow> (Inr r, w'))"

definition reads :: "('w \<Rightarrow> 'a) \<Rightarrow> ('w, 'e, 'a) io" where
  [io_defs]: "reads f w = (Inr (f w), w)"

definition updates :: "('w \<Rightarrow> 'w) \<Rightarrow> ('w, 'e, unit) io" where
  [io_defs]: "updates f w = (Inr (), f w)"

text \<open>A pure computation that may throw.\<close>

definition liftE :: "'e + 'a \<Rightarrow> ('w, 'e, 'a) io" where
  [io_defs]: "liftE r w = (r, w)"

text \<open>\<open>for (const x of xs) await f(x)\<close>.\<close>

fun forEach :: "('a \<Rightarrow> ('w, 'e, unit) io) \<Rightarrow> 'a list \<Rightarrow> ('w, 'e, unit) io" where
  "forEach f [] = ret ()"
| "forEach f (x # xs) = andThen (f x) (\<lambda>_. forEach f xs)"

subsection \<open>Laws of sequencing\<close>

lemma andThen_assoc: "andThen (andThen m f) g = andThen m (\<lambda>x. andThen (f x) g)"
  and andThen_ret [simp]: "andThen (ret x) f = f x"
  and andThen_throw [simp]: "andThen (throw e) f = throw e"
  by (rule ext, simp add: io_defs split: sum.splits prod.splits)+

lemma andThen_if: "andThen (if b then m else m') f = (if b then andThen m f else andThen m' f)"
  by simp

lemma andThen_option: "andThen (case v of None \<Rightarrow> m | Some x \<Rightarrow> h x) f = (case v of None \<Rightarrow> andThen m f | Some x \<Rightarrow> andThen (h x) f)"
  by (cases v) simp_all

text \<open>What a normal outcome of a sequence presupposes.\<close>

lemma andThen_Inr [runs]: "andThen m f w = (Inr y, w') \<longleftrightarrow> (\<exists>x v. m w = (Inr x, v) \<and> f x v = (Inr y, w'))"
  by (auto simp: andThen_def split: prod.splits sum.splits)

lemma pure_Inr [runs]:
  "ret x w = (Inr y, w') \<longleftrightarrow> x = y \<and> w' = w" "throw e w = (Inr y, w') \<longleftrightarrow> False"
  "liftE r w = (Inr y, w') \<longleftrightarrow> r = Inr y \<and> w' = w"
  by (auto simp: io_defs)

lemma require_Inr [runs]:
  "(case v of None \<Rightarrow> throw e | Some x \<Rightarrow> f x) w = (Inr y, w') \<longleftrightarrow> (\<exists>x. v = Some x \<and> f x w = (Inr y, w'))"
  by (auto simp: io_defs split: option.splits)

subsection \<open>Weakest preconditions\<close>

definition wp :: "('w, 'e, 'a) io \<Rightarrow> ('e + 'a \<Rightarrow> 'w \<Rightarrow> bool) \<Rightarrow> 'w \<Rightarrow> bool" where
  "wp m Q w \<longleftrightarrow> Q (fst (m w)) (snd (m w))"

lemma wp_ret [wp_simps]: "wp (ret x) Q w = Q (Inr x) w"
  and wp_throw [wp_simps]: "wp (throw e) Q w = Q (Inl e) w"
  and wp_reads [wp_simps]: "wp (reads f) Q w = Q (Inr (f w)) w"
  and wp_updates [wp_simps]: "wp (updates g) Q w = Q (Inr ()) (g w)"
  and wp_liftE [wp_simps]: "wp (liftE r) Q w = Q r w"
  by (simp_all add: wp_def io_defs)

lemma wp_andThen [wp_simps]:
  "wp (andThen m f) Q w =
     wp m (\<lambda>r w'. case r of Inl e \<Rightarrow> Q (Inl e) w' | Inr x \<Rightarrow> wp (f x) Q w') w"
  by (simp add: wp_def andThen_def split: prod.splits sum.splits)

lemma wp_tryCatch [wp_simps]:
  "wp (tryCatch m h) Q w =
     wp m (\<lambda>r w'. case r of Inl e \<Rightarrow> wp (h e) Q w' | Inr x \<Rightarrow> Q (Inr x) w') w"
  by (simp add: wp_def tryCatch_def split: prod.splits sum.splits)

lemma wp_settled [wp_simps]: "wp (settled m) Q w = wp m (\<lambda>r w'. Q (Inr r) w') w"
  by (simp add: wp_def settled_def split: prod.splits)

lemma wp_mono: "wp m Q w \<Longrightarrow> (\<And>r w'. Q r w' \<Longrightarrow> Q' r w') \<Longrightarrow> wp m Q' w"
  by (simp add: wp_def)

lemma wp_conj: "wp m Q w \<Longrightarrow> wp m R w \<Longrightarrow> wp m (\<lambda>r w'. Q r w' \<and> R r w') w"
  by (simp add: wp_def)

lemma wpI: "(\<And>r w'. m w = (r, w') \<Longrightarrow> Q r w') \<Longrightarrow> wp m Q w"
  by (cases "m w") (simp add: wp_def)

lemma wpD: "wp m Q w \<Longrightarrow> m w = (r, w') \<Longrightarrow> Q r w'"
  by (simp add: wp_def)

subsection \<open>Operations that only move the world along a relation\<close>

text \<open>
  \<open>moves R m\<close>: whatever the outcome, the world after \<open>m\<close> is related to the world before. For a
  reflexive and transitive \<open>R\<close> the combinators preserve it, so a whole handler satisfies it
  as soon as its primitive calls do.
\<close>

definition moves :: "('w \<Rightarrow> 'w \<Rightarrow> bool) \<Rightarrow> ('w, 'e, 'a) io \<Rightarrow> bool" where
  "moves R m \<longleftrightarrow> (\<forall>w. R w (snd (m w)))"

lemma movesI: "(\<And>w. R w (snd (m w))) \<Longrightarrow> moves R m"
  by (simp add: moves_def)

lemma movesD: "moves R m \<Longrightarrow> m w = (r, w') \<Longrightarrow> R w w'"
  by (metis moves_def snd_conv)

lemma moves_pure:
  assumes "reflp R"
  shows "moves R (ret x)" "moves R (throw e)" "moves R (reads f)" "moves R (liftE r)"
  using assms by (simp_all add: moves_def io_defs reflpD)

lemma moves_andThen:
  assumes "transp R" "moves R m" "\<And>x. moves R (f x)"
  shows "moves R (andThen m f)"
proof (rule movesI)
  fix w
  obtain r w' where m: "m w = (r, w')" by fastforce
  have step: "R w w'" using assms(2) m by (rule movesD)
  show "R w (snd (andThen m f w))"
  proof (cases r)
    case (Inl e)
    with m step show ?thesis by (simp add: andThen_def)
  next
    case (Inr x)
    have "R w' (snd (f x w'))" using assms(3) by (simp add: moves_def)
    with assms(1) step have "R w (snd (f x w'))" by (blast dest: transpD)
    with m Inr show ?thesis by (simp add: andThen_def)
  qed
qed

lemma moves_tryCatch:
  assumes "transp R" "moves R m" "\<And>e. moves R (h e)"
  shows "moves R (tryCatch m h)"
proof (rule movesI)
  fix w
  obtain r w' where m: "m w = (r, w')" by fastforce
  have step: "R w w'" using assms(2) m by (rule movesD)
  show "R w (snd (tryCatch m h w))"
  proof (cases r)
    case (Inl e)
    have "R w' (snd (h e w'))" using assms(3) by (simp add: moves_def)
    with assms(1) step have "R w (snd (h e w'))" by (blast dest: transpD)
    with m Inl show ?thesis by (simp add: tryCatch_def)
  next
    case (Inr x)
    with m step show ?thesis by (simp add: tryCatch_def)
  qed
qed

lemma moves_settled: "moves R m \<Longrightarrow> moves R (settled m)"
  by (auto simp: moves_def settled_def split: prod.splits) (metis snd_conv)

lemma moves_forEach:
  assumes "reflp R" "transp R" "\<And>x. moves R (f x)"
  shows "moves R (forEach f xs)"
  by (induction xs) (simp_all add: moves_pure moves_andThen assms)

end
