(* ===== verification/Errors.thy ===== *)
theory Errors
  imports Prelude
begin

text \<open>
  The error values the components throw: the code sets of \<open>core-error.ts\<close>, \<open>errors.ts\<close> and
  \<open>stripe/errors.ts\<close>, the record of a \<open>BillingError\<close>, the mapping of billing codes to runtime
  codes, HTTP statuses and suggested user actions, and the one exception type every effectful
  operation of the development throws.
\<close>

section \<open>Codes of the hub's errors\<close>

datatype IntegrationErrorRuntimeCode =
  provider_not_found | connector_not_found | connection_not_found | connection_not_active
| auth_not_supported | capability_invalid | capability_expired | scope_denied | action_denied
| action_not_found | trigger_not_found | approval_required | policy_denied | config_missing
| provider_failure | credential_invalid | credential_scope_invalid | credential_rate_limited
| credential_probe_unsupported | credential_persistence_failure | connection_metadata_invalid
| connection_parameters_missing | connection_parameters_invalid

text \<open>Codes of the structured runtime error, with the \<open>status\<close> each gets by default.\<close>

datatype IntegrationErrorCode =
  MissingConnection | MissingGrant | ApprovalRequired | ApprovalDenied | ConnectionRevoked
| ConnectionExpired | ScopeMissing | ActionDenied | ActionNotFound | TriggerNotFound
| ProviderRateLimited | ProviderAuthFailed | ProviderUnavailable | ProviderError
| CapabilityExpired | CapabilityInvalid | ManifestInvalid | PassthroughDisabled | InputInvalid
| UnknownError

definition statusForCode :: "IntegrationErrorCode \<Rightarrow> nat" where
  "statusForCode code =
     (if code = MissingConnection \<or> code = MissingGrant then 409
      else if code = ApprovalRequired then 202
      else if code = ApprovalDenied then 403
      else if code = ConnectionRevoked \<or> code = ConnectionExpired \<or> code = ProviderAuthFailed then 401
      else if code = ScopeMissing \<or> code = ActionDenied \<or> code = PassthroughDisabled then 403
      else if code = ActionNotFound \<or> code = TriggerNotFound \<or> code = ManifestInvalid
              \<or> code = InputInvalid then 400
      else if code = ProviderRateLimited then 429
      else if code = ProviderUnavailable then 503
      else if code = CapabilityExpired \<or> code = CapabilityInvalid then 401
      else 500)"

section \<open>Billing errors\<close>

text \<open>The eight values of Stripe's \<open>Subscription.status\<close>.\<close>

datatype SubscriptionState =
  Incomplete | IncompleteExpired | Trialing | Active | PastDue | Canceled | Unpaid | Paused

datatype BillingErrorCode =
  subscription_required | subscription_inactive | subscription_past_due | trial_expired
| free_tier_exhausted | platform_evidence_required | platform_evidence_expired
| platform_evidence_replayed | platform_evidence_subject_mismatch | email_verification_required
| real_email_required | paid_evidence_required | product_free_credits_disabled
| tenant_not_configured | webhook_secret_missing | webhook_event_unknown | webhook_replay

record BillingErrorContext =
  ctx_workspaceId :: "string option"
  ctx_productId :: "string option"
  ctx_subscriptionId :: "string option"
  ctx_subscriptionState :: "SubscriptionState option"
  ctx_planId :: "string option"
  ctx_eventId :: "string option"

definition no_context :: BillingErrorContext where
  "no_context = \<lparr>ctx_workspaceId = None, ctx_productId = None, ctx_subscriptionId = None,
     ctx_subscriptionState = None, ctx_planId = None, ctx_eventId = None\<rparr>"

datatype user_action_type =
  ua_connect | ua_reconnect | ua_approve | ua_retry | ua_contact_support | ua_change_request

record IntegrationUserAction =
  action_type :: user_action_type
  action_label :: string

fun mapToIntegrationCode :: "BillingErrorCode \<Rightarrow> IntegrationErrorCode" where
  "mapToIntegrationCode tenant_not_configured = ProviderError"
| "mapToIntegrationCode webhook_secret_missing = ProviderAuthFailed"
| "mapToIntegrationCode webhook_event_unknown = InputInvalid"
| "mapToIntegrationCode webhook_replay = InputInvalid"
| "mapToIntegrationCode _ = ActionDenied"

fun statusForBillingCode :: "BillingErrorCode \<Rightarrow> nat" where
  "statusForBillingCode tenant_not_configured = 500"
| "statusForBillingCode webhook_secret_missing = 401"
| "statusForBillingCode webhook_event_unknown = 400"
| "statusForBillingCode webhook_replay = 400"
| "statusForBillingCode _ = 403"

definition change_request :: "string \<Rightarrow> IntegrationUserAction option" where
  "change_request l = Some \<lparr>action_type = ua_change_request, action_label = l\<rparr>"

fun defaultUserAction :: "BillingErrorCode \<Rightarrow> IntegrationUserAction option" where
  "defaultUserAction subscription_required = change_request ''Subscribe to continue''"
| "defaultUserAction subscription_inactive = change_request ''Update billing''"
| "defaultUserAction subscription_past_due = change_request ''Update billing''"
| "defaultUserAction trial_expired = change_request ''Choose a plan''"
| "defaultUserAction free_tier_exhausted = change_request ''Upgrade for more usage''"
| "defaultUserAction tenant_not_configured =
     Some \<lparr>action_type = ua_contact_support, action_label = ''Contact support''\<rparr>"
| "defaultUserAction webhook_secret_missing =
     Some \<lparr>action_type = ua_contact_support, action_label = ''Contact support''\<rparr>"
| "defaultUserAction webhook_event_unknown = None"
| "defaultUserAction webhook_replay = None"
| "defaultUserAction _ = change_request ''Verify access to continue''"

record BillingErrorValue =
  billingCode :: BillingErrorCode
  billingMessage :: string
  billingContext :: BillingErrorContext

definition billing_error_status :: "BillingErrorValue \<Rightarrow> nat" where
  "billing_error_status e = statusForBillingCode (billingCode e)"

lemma billing_status_agrees:
  "statusForBillingCode c = statusForCode (mapToIntegrationCode c)"
  by (cases c) (simp_all add: statusForCode_def)

section \<open>Exceptions\<close>

text \<open>
  A plain \<open>Error\<close>, an \<open>IntegrationError\<close>, a \<open>BillingError\<close>, an \<open>AggregateError\<close> (its parts and
  its message), or anything else a host function throws.
\<close>

datatype exn =
  Error string
| IntegrationError string IntegrationErrorRuntimeCode
| BillingError BillingErrorValue
| AggregateError "exn list" string
| Thrown string

definition billing_error :: "BillingErrorCode \<Rightarrow> string \<Rightarrow> BillingErrorContext \<Rightarrow> exn" where
  "billing_error c m ctx =
     BillingError \<lparr>billingCode = c, billingMessage = m, billingContext = ctx\<rparr>"

text \<open>\<open>err instanceof Error ? err.message : String(err)\<close>.\<close>

fun errMessage :: "exn \<Rightarrow> string" where
  "errMessage (Error m) = m"
| "errMessage (IntegrationError m _) = m"
| "errMessage (BillingError b) = billingMessage b"
| "errMessage (AggregateError _ m) = m"
| "errMessage (Thrown s) = s"

end
