(* ===== verification/Idempotency.thy ===== *)
theory Idempotency
  imports Errors
begin

text \<open>
  The atomic claim store of \<open>idempotency.ts\<close>: its result type, the checks on a claim's key and
  lifetime, the process-local store, and the choice of a store for a runtime. The contract its
  clients rely on is the locale \<open>atomic_store\<close>, interpreted here on the process-local store.
  The durable store is the subject of the theory \<open>Journal\<close>.
\<close>

section \<open>The host: clock and random tokens\<close>

text \<open>
  \<open>Date.now()\<close> returns the next reading of a clock, \<open>randomUUID()\<close> the next of a sequence of
  tokens. Both sequences belong to the world, so a run is determined by them and no law on the
  readings is built in.
\<close>

record host =
  clock :: "nat \<Rightarrow> int"
  clock_reads :: nat
  uuids :: "nat \<Rightarrow> string"
  uuids_drawn :: nat

definition date_now :: "('a host_scheme, exn, int) io" where
  [io_defs]: "date_now w = (Inr (clock w (clock_reads w)), w\<lparr>clock_reads := Suc (clock_reads w)\<rparr>)"

definition randomUUID :: "('a host_scheme, exn, string) io" where
  [io_defs]: "randomUUID w = (Inr (uuids w (uuids_drawn w)), w\<lparr>uuids_drawn := Suc (uuids_drawn w)\<rparr>)"

section \<open>Claim input\<close>

datatype AtomicClaimStatus = acquired | in_progress | completed

definition assertKey :: "string \<Rightarrow> ('w, exn, unit) io" where
  [io_defs]: "assertKey key =
     (if trim key = [] then throw (Error ''Idempotency key must be a non-empty string'') else ret ())"

definition assertClaimInput :: "string \<Rightarrow> js_number \<Rightarrow> ('a host_scheme, exn, int) io" where
  [io_defs]: "assertClaimInput key ttlMs =
     andThen (assertKey key) (\<lambda>_.
     case ttlMs of
       NotFinite \<Rightarrow> throw (Error ''Idempotency TTL must be a positive finite number'')
     | Finite ttl \<Rightarrow>
         if ttl \<le> 0 then throw (Error ''Idempotency TTL must be a positive finite number'')
         else andThen date_now (\<lambda>now.
           if \<not> finite_sum now ttl then throw (Error ''Idempotency TTL exceeds the supported clock range'')
           else ret ttl))"

section \<open>The process-local store\<close>

datatype claim_status = processing | done_claim

record InMemoryClaim =
  expiresAt :: int
  token :: string
  status :: claim_status

record InMemoryAtomicIdempotencyStore = host +
  entries :: "string \<Rightarrow> InMemoryClaim option"
  owners :: "string \<Rightarrow> string option"

type_synonym ('a, 'r) mem_op = "('a InMemoryAtomicIdempotencyStore_scheme, exn, 'r) io"

definition mem_claimStatus :: "string \<Rightarrow> js_number \<Rightarrow> ('a, AtomicClaimStatus) mem_op" where
  "mem_claimStatus key ttlMs =
     andThen (assertClaimInput key ttlMs) (\<lambda>ttl.
     andThen (reads owners) (\<lambda>own.
     if own key \<noteq> None then ret in_progress
     else andThen date_now (\<lambda>now.
       andThen (reads entries) (\<lambda>ents.
       case (case ents key of Some e \<Rightarrow> if expiresAt e > now then Some e else None | None \<Rightarrow> None) of
         Some existing \<Rightarrow> ret (if status existing = done_claim then completed else in_progress)
       | None \<Rightarrow>
           andThen randomUUID (\<lambda>t.
           andThen (updates (\<lambda>w. w\<lparr>entries := (entries w)(key \<mapsto>
                      \<lparr>expiresAt = now + ttl, token = t, status = processing\<rparr>),
                    owners := (owners w)(key \<mapsto> t)\<rparr>)) (\<lambda>_.
           ret acquired))))))"

definition mem_claim :: "string \<Rightarrow> js_number \<Rightarrow> ('a, bool) mem_op" where
  "mem_claim key ttlMs = andThen (mem_claimStatus key ttlMs) (\<lambda>s. ret (s = acquired))"

definition mem_release :: "string \<Rightarrow> ('a, unit) mem_op" where
  "mem_release key =
     andThen (assertKey key) (\<lambda>_.
     andThen (reads owners) (\<lambda>own.
     if \<not> truthy (own key) then ret ()
     else andThen (reads entries) (\<lambda>ents.
       andThen
         (case ents key of
            None \<Rightarrow> ret ()
          | Some current \<Rightarrow>
              if Some (token current) = own key \<and> status current = processing
              then updates (\<lambda>w. w\<lparr>entries := (entries w)(key := None)\<rparr>) else ret ())
         (\<lambda>_. updates (\<lambda>w. if owners w key = own key then w\<lparr>owners := (owners w)(key := None)\<rparr> else w)))))"

definition mem_complete :: "string \<Rightarrow> ('a, unit) mem_op" where
  "mem_complete key =
     andThen (assertKey key) (\<lambda>_.
     andThen (reads owners) (\<lambda>own.
     if \<not> truthy (own key) then ret ()
     else andThen (reads entries) (\<lambda>ents.
       andThen
         (case ents key of
            None \<Rightarrow> ret ()
          | Some current \<Rightarrow>
              if Some (token current) = own key
              then updates (\<lambda>w. w\<lparr>entries := (entries w)(key \<mapsto> current\<lparr>status := done_claim\<rparr>)\<rparr>)
              else ret ())
         (\<lambda>_. updates (\<lambda>w. if owners w key = own key then w\<lparr>owners := (owners w)(key := None)\<rparr> else w)))))"

section \<open>Sequences of store operations\<close>

datatype store_op = Claim string js_number | Release string | Complete string

datatype store_reply = Claimed "exn + AtomicClaimStatus" | Acked "exn + unit"

text \<open>Runs of a store given by its three operations, with the reply to each.\<close>

fun store_step where
  "store_step cs rel com (Claim k t) w = (case cs k t w of (r, w') \<Rightarrow> (Claimed r, w'))"
| "store_step cs rel com (Release k) w = (case rel k w of (r, w') \<Rightarrow> (Acked r, w'))"
| "store_step cs rel com (Complete k) w = (case com k w of (r, w') \<Rightarrow> (Acked r, w'))"

fun store_run where
  "store_run cs rel com [] w = ([], w)"
| "store_run cs rel com (x # xs) w =
     (case store_step cs rel com x w of (r, w1) \<Rightarrow>
      case store_run cs rel com xs w1 of (rs, w2) \<Rightarrow> (r # rs, w2))"

section \<open>The contract of a claim store\<close>

text \<open>
  What the clients of a store rely on, over two predicates of the world: \<open>finished w k\<close>, a
  completed claim of \<open>k\<close> is recorded, and \<open>held w k\<close>, this process owns an unfinished claim
  of \<open>k\<close>.
\<close>

locale atomic_store =
  fixes claimStatus :: "string \<Rightarrow> js_number \<Rightarrow> ('w, exn, AtomicClaimStatus) io"
    and release :: "string \<Rightarrow> ('w, exn, unit) io"
    and complete :: "string \<Rightarrow> ('w, exn, unit) io"
    and inv :: "'w \<Rightarrow> bool"
    and finished :: "'w \<Rightarrow> string \<Rightarrow> bool"
    and held :: "'w \<Rightarrow> string \<Rightarrow> bool"
  assumes claim_inv: "claimStatus k t w = (r, w') \<Longrightarrow> inv w \<Longrightarrow> inv w'"
    and release_inv: "release k w = (r', w') \<Longrightarrow> inv w \<Longrightarrow> inv w'"
    and complete_inv: "complete k w = (r', w') \<Longrightarrow> inv w \<Longrightarrow> inv w'"
    and claim_acquired: "claimStatus k t w = (Inr acquired, w') \<Longrightarrow> inv w \<Longrightarrow> held w' k \<and> \<not> held w k"
    and claim_completed: "claimStatus k t w = (Inr completed, w') \<Longrightarrow> inv w \<Longrightarrow> finished w' k"
    and claim_held: "claimStatus k t w = (Inr s, w') \<Longrightarrow> inv w \<Longrightarrow> held w k \<Longrightarrow> s = in_progress"
    and claim_keeps_held: "claimStatus k t w = (r, w') \<Longrightarrow> inv w \<Longrightarrow> held w k' \<Longrightarrow> held w' k'"
    and claim_keeps_finished:
      "claimStatus k t w = (r, w') \<Longrightarrow> inv w \<Longrightarrow> finished w k' \<Longrightarrow> k' \<noteq> k \<or> r \<noteq> Inr acquired \<Longrightarrow> finished w' k'"
    and complete_finished: "complete k w = (Inr (), w') \<Longrightarrow> inv w \<Longrightarrow> held w k \<Longrightarrow> finished w' k"
    and complete_keeps_finished: "complete k w = (r', w') \<Longrightarrow> inv w \<Longrightarrow> finished w k' \<Longrightarrow> finished w' k'"
    and complete_keeps_held: "complete k w = (r', w') \<Longrightarrow> inv w \<Longrightarrow> held w k' \<Longrightarrow> k' \<noteq> k \<Longrightarrow> held w' k'"
    and release_keeps_finished: "release k w = (r', w') \<Longrightarrow> inv w \<Longrightarrow> finished w k' \<Longrightarrow> finished w' k'"
    and release_keeps_held: "release k w = (r', w') \<Longrightarrow> inv w \<Longrightarrow> held w k' \<Longrightarrow> k' \<noteq> k \<Longrightarrow> held w' k'"
begin

lemma step_inv: "store_step claimStatus release complete x w = (r, w') \<Longrightarrow> inv w \<Longrightarrow> inv w'"
  by (cases x) (auto split: prod.splits dest: claim_inv release_inv complete_inv)

lemma step_keeps_held:
  assumes "store_step claimStatus release complete x w = (r, w')" "inv w" "held w k"
    and "x \<noteq> Release k" "x \<noteq> Complete k"
  shows "held w' k"
  using assms
  by (cases x) (auto split: prod.splits dest: claim_keeps_held release_keeps_held complete_keeps_held)

lemma step_acquired:
  assumes "store_step claimStatus release complete (Claim k t) w = (Claimed (Inr acquired), w')" "inv w"
  shows "held w' k \<and> \<not> held w k"
  using assms by (auto split: prod.splits dest: claim_acquired)

text \<open>While a claim is held and neither released nor completed, no other claim of its key is
  granted.\<close>

lemma held_blocks_claims:
  assumes "store_run claimStatus release complete xs w = (rs, w')" "inv w" "held w k"
    and "\<forall>m < n. xs ! m \<noteq> Release k \<and> xs ! m \<noteq> Complete k" "n < length xs" "xs ! n = Claim k t"
  shows "rs ! n \<noteq> Claimed (Inr acquired)"
  using assms
proof (induction xs arbitrary: w w' rs n)
  case Nil
  then show ?case by simp
next
  case (Cons x xs)
  obtain r w1 where x: "store_step claimStatus release complete x w = (r, w1)" by fastforce
  obtain rs1 w2 where xs: "store_run claimStatus release complete xs w1 = (rs1, w2)" by fastforce
  from Cons.prems(1) x xs have rs: "rs = r # rs1" by simp
  show ?case
  proof (cases n)
    case 0
    show ?thesis
    proof
      assume "rs ! n = Claimed (Inr acquired)"
      with 0 rs x Cons.prems(6) have "store_step claimStatus release complete (Claim k t) w = (Claimed (Inr acquired), w1)"
        by simp
      with Cons.prems(2,3) show False by (blast dest: step_acquired)
    qed
  next
    case (Suc m)
    with Cons.prems(4) have "x \<noteq> Release k" "x \<noteq> Complete k" by auto
    with x Cons.prems(2,3) have "held w1 k" by (blast intro: step_keeps_held)
    moreover have "\<forall>j < m. xs ! j \<noteq> Release k \<and> xs ! j \<noteq> Complete k"
      using Cons.prems(4) Suc by (metis Suc_mono nth_Cons_Suc)
    ultimately have "rs1 ! m \<noteq> Claimed (Inr acquired)"
      using Cons.IH [OF xs] Cons.prems(2,5,6) x Suc by (auto dest: step_inv)
    with rs Suc show ?thesis by simp
  qed
qed

lemma no_double_acquire:
  assumes "store_run claimStatus release complete xs w = (rs, w')" "inv w"
    and "i < j" "j < length xs" "xs ! i = Claim k t" "rs ! i = Claimed (Inr acquired)"
    and "xs ! j = Claim k t'" "rs ! j = Claimed (Inr acquired)"
  shows "\<exists>m. i < m \<and> m < j \<and> (xs ! m = Release k \<or> xs ! m = Complete k)"
  using assms
proof (induction xs arbitrary: w w' rs i j)
  case Nil
  then show ?case by simp
next
  case (Cons x xs)
  obtain r w1 where x: "store_step claimStatus release complete x w = (r, w1)" by fastforce
  obtain rs1 w2 where xs: "store_run claimStatus release complete xs w1 = (rs1, w2)" by fastforce
  from Cons.prems(1) x xs have rs: "rs = r # rs1" by simp
  from Cons.prems(3) obtain j' where j: "j = Suc j'" by (cases j) auto
  have inv1: "inv w1" using x Cons.prems(2) by (rule step_inv)
  show ?case
  proof (cases i)
    case 0
    with rs x Cons.prems(5,6) have "store_step claimStatus release complete (Claim k t) w = (Claimed (Inr acquired), w1)"
      by simp
    with Cons.prems(2) have "held w1 k" by (blast dest: step_acquired)
    then have "\<not> (\<forall>m < j'. xs ! m \<noteq> Release k \<and> xs ! m \<noteq> Complete k)"
      using held_blocks_claims [OF xs inv1, of k j' t'] Cons.prems(4,7,8) j rs by auto
    then obtain m where "m < j'" "xs ! m = Release k \<or> xs ! m = Complete k" by blast
    with 0 j show ?thesis by (intro exI [of _ "Suc m"]) auto
  next
    case (Suc i')
    with Cons.prems j rs have "\<exists>m. i' < m \<and> m < j' \<and> (xs ! m = Release k \<or> xs ! m = Complete k)"
      by (intro Cons.IH [OF xs inv1]) auto
    then obtain m where "i' < m" "m < j'" "xs ! m = Release k \<or> xs ! m = Complete k" by blast
    with Suc j show ?thesis by (intro exI [of _ "Suc m"]) auto
  qed
qed

end

section \<open>The process-local store meets the contract\<close>

definition mem_inv :: "'a InMemoryAtomicIdempotencyStore_scheme \<Rightarrow> bool" where
  "mem_inv w \<longleftrightarrow> (\<forall>n. uuids w n \<noteq> []) \<and>
     (\<forall>k t. owners w k = Some t \<longrightarrow>
        t \<noteq> [] \<and> (\<exists>c. entries w k = Some c \<and> token c = t \<and> status c = processing))"

definition mem_finished :: "'a InMemoryAtomicIdempotencyStore_scheme \<Rightarrow> string \<Rightarrow> bool" where
  "mem_finished w k \<longleftrightarrow> (case entries w k of None \<Rightarrow> False | Some c \<Rightarrow> status c = done_claim)"

definition mem_held :: "'a InMemoryAtomicIdempotencyStore_scheme \<Rightarrow> string \<Rightarrow> bool" where
  "mem_held w k \<longleftrightarrow> owners w k \<noteq> None"

lemmas mem_defs = mem_claimStatus_def mem_claim_def mem_release_def mem_complete_def
lemmas mem_views = mem_inv_def mem_finished_def mem_held_def

lemma mem_inv_owner:
  assumes "mem_inv w" "owners w k = Some t"
  obtains c where "t \<noteq> []" "entries w k = Some c" "token c = t" "status c = processing"
  using assms by (fastforce simp: mem_inv_def)

lemma mem_inv_held_not_finished: "mem_inv w \<Longrightarrow> mem_held w k \<Longrightarrow> \<not> mem_finished w k"
  by (auto simp: mem_held_def mem_finished_def elim: mem_inv_owner)

text \<open>Each operation, as the cases of its outcome.\<close>

lemma assertClaimInput_cases:
  assumes "assertClaimInput key ttlMs w = (a, w1)"
  obtains e where "a = Inl e" "w1 = w \<or> w1 = w\<lparr>clock_reads := Suc (clock_reads w)\<rparr>"
  | ttl where "a = Inr ttl" "ttlMs = Finite ttl" "0 < ttl" "w1 = w\<lparr>clock_reads := Suc (clock_reads w)\<rparr>"
  using assms
  by (cases ttlMs) (auto simp: assertClaimInput_def assertKey_def date_now_def io_defs split: if_splits)

lemma mem_claimStatus_cases:
  assumes "mem_claimStatus key ttlMs w = (r, w')"
  obtains (rejected) e where "r = Inl e" "entries w' = entries w" "owners w' = owners w" "uuids w' = uuids w"
      "clock w' = clock w" "clock_reads w \<le> clock_reads w'"
  | (owned) t where "r = Inr in_progress" "owners w key = Some t" "entries w' = entries w"
      "owners w' = owners w" "uuids w' = uuids w" "clock w' = clock w" "clock_reads w' = Suc (clock_reads w)"
  | (live) c where "owners w key = None" "entries w key = Some c"
      "clock w (Suc (clock_reads w)) < expiresAt c"
      "r = Inr (if status c = done_claim then completed else in_progress)" "entries w' = entries w"
      "owners w' = owners w" "uuids w' = uuids w" "clock w' = clock w"
      "clock_reads w' = Suc (Suc (clock_reads w))"
  | (fresh) ttl t where "ttlMs = Finite ttl" "0 < ttl" "r = Inr acquired" "owners w key = None"
      "t = uuids w (uuids_drawn w)"
      "\<And>c. entries w key = Some c \<Longrightarrow> expiresAt c \<le> clock w (Suc (clock_reads w))"
      "entries w' = (entries w)(key \<mapsto> \<lparr>expiresAt = clock w (Suc (clock_reads w)) + ttl, token = t,
         status = processing\<rparr>)"
      "owners w' = (owners w)(key \<mapsto> t)" "uuids w' = uuids w" "clock w' = clock w"
      "clock_reads w' = Suc (Suc (clock_reads w))"
proof -
  note defs = mem_claimStatus_def io_defs
  show thesis
  proof (cases "assertClaimInput key ttlMs w")
    case (Pair a w1)
    then consider e where "a = Inl e" "w1 = w \<or> w1 = w\<lparr>clock_reads := Suc (clock_reads w)\<rparr>"
      | ttl where "a = Inr ttl" "ttlMs = Finite ttl" "0 < ttl" "w1 = w\<lparr>clock_reads := Suc (clock_reads w)\<rparr>"
      by (rule assertClaimInput_cases)
    then show thesis
    proof cases
      case 1
      with assms Pair have "r = Inl e" "w' = w1" by (simp_all add: defs)
      with 1 show thesis by (intro rejected [of e]) auto
    next
      case (2 ttl)
      let ?now = "clock w (Suc (clock_reads w))"
      show thesis
      proof (cases "owners w key")
        case (Some t)
        with 2 assms Pair show thesis by (intro owned [of t]) (auto simp: defs)
      next
        case None
        show thesis
        proof (cases "\<exists>c. entries w key = Some c \<and> ?now < expiresAt c")
          case True
          then obtain c where "entries w key = Some c" "?now < expiresAt c" by blast
          with 2 None assms Pair show thesis by (intro live [of c]) (auto simp: defs)
        next
          case False
          then have "(case entries w key of Some e \<Rightarrow> if expiresAt e > ?now then Some e else None | None \<Rightarrow> None) = None"
            by (auto split: option.splits)
          with False 2 None assms Pair show thesis
            by (intro fresh [of ttl "uuids w (uuids_drawn w)"]) (auto simp: defs)
        qed
      qed
    qed
  qed
qed

lemma mem_release_cases:
  assumes "mem_release key w = (r, w')" and "mem_inv w"
  obtains (noop) "w' = w"
  | (freed) t where "owners w key = Some t" "r = Inr ()" "w' = w\<lparr>entries := (entries w)(key := None),
       owners := (owners w)(key := None)\<rparr>"
proof (cases "trim key = [] \<or> owners w key = None")
  case True
  with assms(1) show thesis by (intro noop) (auto simp: mem_release_def io_defs split: if_splits)
next
  case False
  then obtain t where t: "owners w key = Some t" by blast
  with assms(2) obtain c where "t \<noteq> []" "entries w key = Some c" "token c = t" "status c = processing"
    by (rule mem_inv_owner)
  with assms(1) t False show thesis
    by (intro freed [of t]) (auto simp: mem_release_def io_defs)
qed

lemma mem_complete_cases:
  assumes "mem_complete key w = (r, w')" and "mem_inv w"
  obtains (noop) "w' = w" "owners w key = None \<or> (\<exists>e. r = Inl e)"
  | (recorded) t c where "owners w key = Some t" "entries w key = Some c" "r = Inr ()"
      "w' = w\<lparr>entries := (entries w)(key \<mapsto> c\<lparr>status := done_claim\<rparr>), owners := (owners w)(key := None)\<rparr>"
proof (cases "trim key = [] \<or> owners w key = None")
  case True
  with assms(1) show thesis by (intro noop) (auto simp: mem_complete_def io_defs split: if_splits)
next
  case False
  then obtain t where t: "owners w key = Some t" by blast
  with assms(2) obtain c where "t \<noteq> []" "entries w key = Some c" "token c = t" "status c = processing"
    by (rule mem_inv_owner)
  with assms(1) t False show thesis
    by (intro recorded [of t c]) (auto simp: mem_complete_def io_defs)
qed

interpretation mem: atomic_store mem_claimStatus mem_release mem_complete mem_inv mem_finished mem_held
proof unfold_locales
  fix k k' :: string and t r w w'
  assume op: "mem_claimStatus k t w = (r, w')" and inv: "mem_inv w"
  show "mem_inv w'"
    using op inv by (cases rule: mem_claimStatus_cases) (auto simp: mem_inv_def)
  show "mem_held w k' \<Longrightarrow> mem_held w' k'"
    using op by (cases rule: mem_claimStatus_cases) (auto simp: mem_held_def)
  show "mem_finished w k' \<Longrightarrow> k' \<noteq> k \<or> r \<noteq> Inr acquired \<Longrightarrow> mem_finished w' k'"
    using op by (cases rule: mem_claimStatus_cases) (auto simp: mem_finished_def)
next
  fix k t w w' assume op: "mem_claimStatus k t w = (Inr acquired, w')"
  then show "mem_held w' k \<and> \<not> mem_held w k"
    by (cases rule: mem_claimStatus_cases) (auto simp: mem_held_def split: if_splits)
next
  fix k t w w' assume op: "mem_claimStatus k t w = (Inr completed, w')"
  then show "mem_finished w' k"
    by (cases rule: mem_claimStatus_cases) (auto simp: mem_finished_def split: if_splits)
next
  fix k t s w w' assume op: "mem_claimStatus k t w = (Inr s, w')" and "mem_held w k"
  then show "s = in_progress"
    by (cases rule: mem_claimStatus_cases) (auto simp: mem_held_def)
next
  fix k k' r w w' assume op: "mem_release k w = (r, w')" and inv: "mem_inv w"
  show "mem_inv w'" using op inv
    by (cases rule: mem_release_cases) (use inv in \<open>auto simp: mem_inv_def\<close>)
  show "mem_finished w k' \<Longrightarrow> mem_finished w' k'" using op inv
    by (cases rule: mem_release_cases)
      (use mem_inv_held_not_finished [OF inv, of k] in \<open>auto simp: mem_held_def mem_finished_def\<close>)
  show "mem_held w k' \<Longrightarrow> k' \<noteq> k \<Longrightarrow> mem_held w' k'" using op inv
    by (cases rule: mem_release_cases) (auto simp: mem_held_def)
next
  fix k k' r w w' assume op: "mem_complete k w = (r, w')" and inv: "mem_inv w"
  show "mem_inv w'" using op inv
    by (cases rule: mem_complete_cases) (use inv in \<open>auto simp: mem_inv_def\<close>)
  show "mem_finished w k' \<Longrightarrow> mem_finished w' k'" using op inv
    by (cases rule: mem_complete_cases) (auto simp: mem_finished_def)
  show "mem_held w k' \<Longrightarrow> k' \<noteq> k \<Longrightarrow> mem_held w' k'" using op inv
    by (cases rule: mem_complete_cases) (auto simp: mem_held_def)
next
  fix k w w' assume op: "mem_complete k w = (Inr (), w')" and inv: "mem_inv w" and "mem_held w k"
  then show "mem_finished w' k"
    by (cases rule: mem_complete_cases) (auto simp: mem_finished_def mem_held_def)
qed

section \<open>A completed claim replays until it expires\<close>

abbreviation mem_step where "mem_step \<equiv> store_step mem_claimStatus mem_release mem_complete"
abbreviation mem_run where "mem_run \<equiv> store_run mem_claimStatus mem_release mem_complete"

lemma mem_step_clock:
  assumes "mem_step x w = (r, w')" "mem_inv w"
  shows "clock w' = clock w \<and> clock_reads w \<le> clock_reads w'"
proof (cases x)
  case (Claim k t)
  with assms(1) obtain a where "mem_claimStatus k t w = (a, w')" by (auto split: prod.splits)
  then show ?thesis by (cases rule: mem_claimStatus_cases) auto
next
  case (Release k)
  with assms(1) obtain a where "mem_release k w = (a, w')" by (auto split: prod.splits)
  then show ?thesis using assms(2) by (cases rule: mem_release_cases) auto
next
  case (Complete k)
  with assms(1) obtain a where "mem_complete k w = (a, w')" by (auto split: prod.splits)
  then show ?thesis using assms(2) by (cases rule: mem_complete_cases) auto
qed

lemma mem_run_clock:
  "mem_run xs w = (rs, w') \<Longrightarrow> mem_inv w \<Longrightarrow> clock w' = clock w \<and> clock_reads w \<le> clock_reads w'"
proof (induction xs arbitrary: w rs)
  case Nil
  then show ?case by simp
next
  case (Cons x xs)
  obtain r w1 where x: "mem_step x w = (r, w1)" by fastforce
  obtain rs1 w2 where xs: "mem_run xs w1 = (rs1, w2)" by fastforce
  with x Cons.prems(1) have w2: "w2 = w'" by simp
  have "clock w' = clock w1 \<and> clock_reads w1 \<le> clock_reads w'"
    using Cons.IH xs w2 mem.step_inv [OF x Cons.prems(2)] by blast
  with mem_step_clock [OF x Cons.prems(2)] show ?case by simp
qed

lemma mem_step_finished:
  assumes "mem_step x w = (r, w')" "mem_inv w"
    and "owners w k = None" "entries w k = Some c"
    and "\<And>m. clock_reads w \<le> m \<Longrightarrow> m < clock_reads w' \<Longrightarrow> clock w m < expiresAt c"
  shows "owners w' k = None \<and> entries w' k = Some c \<and> (x = Claim k t \<longrightarrow> r \<noteq> Claimed (Inr acquired))"
proof (cases x)
  case (Claim k' t')
  with assms(1) obtain a where a: "mem_claimStatus k' t' w = (a, w')" and r: "r = Claimed a"
    by (auto split: prod.splits)
  from a show ?thesis
  proof (cases rule: mem_claimStatus_cases)
    case (fresh ttl u)
    have "k' \<noteq> k"
    proof
      assume "k' = k"
      with fresh(6) assms(4) have "expiresAt c \<le> clock w (Suc (clock_reads w))" by simp
      moreover have "clock w (Suc (clock_reads w)) < expiresAt c"
        by (rule assms(5)) (simp_all add: fresh(11))
      ultimately show False by simp
    qed
    with fresh assms(3,4) Claim show ?thesis by simp
  qed (use assms(3,4) Claim r in \<open>auto split: if_splits\<close>)
next
  case (Release k')
  with assms(1) obtain a where "mem_release k' w = (a, w')" by (auto split: prod.splits)
  then show ?thesis using assms(2) Release assms(3,4) by (cases rule: mem_release_cases) auto
next
  case (Complete k')
  with assms(1) obtain a where "mem_complete k' w = (a, w')" by (auto split: prod.splits)
  then show ?thesis using assms(2) Complete assms(3,4) by (cases rule: mem_complete_cases) auto
qed

section \<open>Choosing a store for a runtime\<close>

datatype IdempotencyRuntime = production | development | test

datatype store_scope = scope_process | scope_shared

text \<open>The parts of \<open>process.env\<close> the choice reads; \<open>process_defined\<close> is
  \<open>typeof process !== 'undefined'\<close>.\<close>

record process_env =
  process_defined :: bool
  VITEST :: "string option"
  NODE_ENV :: "string option"

definition currentRuntime :: "process_env \<Rightarrow> IdempotencyRuntime" where
  "currentRuntime env =
     (if process_defined env \<and> truthy (VITEST env) then test
      else let nodeEnv = (if process_defined env then NODE_ENV env else None) in
        if nodeEnv = Some ''test'' then test
        else if nodeEnv = Some ''development'' then development
        else production)"

definition isProductionEnvironment :: "process_env \<Rightarrow> bool" where
  "isProductionEnvironment env \<longleftrightarrow> process_defined env \<and> NODE_ENV env = Some ''production''"

datatype 's store_choice = Injected 's | NewInMemoryStore

text \<open>An injected store is any value with an optional declared scope.\<close>

definition resolveAtomicIdempotencyStore ::
  "process_env \<Rightarrow> string \<Rightarrow> ('s \<Rightarrow> store_scope option) \<Rightarrow> 's option \<Rightarrow> IdempotencyRuntime option \<Rightarrow>
   exn + 's store_choice" where
  "resolveAtomicIdempotencyStore env component scope store rt =
     (let runtime = nullish rt (currentRuntime env) in
      if isProductionEnvironment env \<and> runtime \<noteq> production
      then Inl (Error (component @ '': production environment cannot use a non-production idempotency runtime''))
      else case store of
        Some st \<Rightarrow>
          if runtime = production \<and> scope st \<noteq> Some scope_shared
          then Inl (Error (component @ '': production requires a shared atomic idempotency store''))
          else Inr (Injected st)
      | None \<Rightarrow>
          if runtime = production
          then Inl (Error (component @ '': shared atomic idempotency store is required in production''))
          else Inr NewInMemoryStore)"

text \<open>The runtime in force: the caller's, else the one of the environment.\<close>

definition effective_runtime :: "process_env \<Rightarrow> IdempotencyRuntime option \<Rightarrow> IdempotencyRuntime" where
  "effective_runtime env rt =
     (if isProductionEnvironment env then production else nullish rt (currentRuntime env))"

lemma resolve_cases:
  "resolveAtomicIdempotencyStore env component scope store rt = Inr c \<Longrightarrow>
     (c = NewInMemoryStore \<and> store = None \<and> effective_runtime env rt \<noteq> production) \<or>
     (\<exists>s. c = Injected s \<and> store = Some s \<and>
        (effective_runtime env rt = production \<longrightarrow> scope s = Some scope_shared))"
  by (auto simp: resolveAtomicIdempotencyStore_def effective_runtime_def Let_def
      split: if_splits option.splits)

section \<open>Properties\<close>

text \<open>C1. Exclusive claims: in any sequence of operations on the process-local store, two grants
  of the same key are separated by a release or a completion of that key. The statement covers
  every interleaving of the calls of one process, since each call runs without awaiting.\<close>

theorem in_memory_claims_are_exclusive:
  assumes "store_run mem_claimStatus mem_release mem_complete xs w = (rs, w')" "mem_inv w"
    and "i < j" "j < length xs" "xs ! i = Claim k t" "rs ! i = Claimed (Inr acquired)"
    and "xs ! j = Claim k t'" "rs ! j = Claimed (Inr acquired)"
  shows "\<exists>m. i < m \<and> m < j \<and> (xs ! m = Release k \<or> xs ! m = Complete k)"
  using assms by (rule mem.no_double_acquire)

text \<open>A recorded completion answers every later claim of its key until its lifetime is over:
  while all readings of the clock stay before the expiry, no operation sequence is granted the
  key again, whatever else is claimed, released or completed meanwhile.\<close>

theorem completed_claim_is_not_granted_again:
  assumes "mem_run xs w = (rs, w')" "mem_inv w"
    and "mem_finished w k" "\<not> mem_held w k" "entries w k = Some c"
    and "\<And>m. clock_reads w \<le> m \<Longrightarrow> m < clock_reads w' \<Longrightarrow> clock w m < expiresAt c"
    and "n < length xs" "xs ! n = Claim k t"
  shows "rs ! n \<noteq> Claimed (Inr acquired)"
proof -
  have "owners w k = None" using assms(4) by (simp add: mem_held_def)
  with assms(1,2,5,6,7,8) show ?thesis
  proof (induction xs arbitrary: w rs n)
    case Nil
    then show ?case by simp
  next
    case (Cons x xs)
    obtain r w1 where x: "mem_step x w = (r, w1)" by fastforce
    obtain rs1 w2 where xs: "mem_run xs w1 = (rs1, w2)" by fastforce
    with x Cons.prems(1) have w2: "w2 = w'" and rs: "rs = r # rs1" by simp_all
    have inv1: "mem_inv w1" using x Cons.prems(2) by (rule mem.step_inv)
    note ck1 = mem_step_clock [OF x Cons.prems(2)]
    note ck2 = mem_run_clock [OF xs [unfolded w2] inv1]
    have step: "owners w1 k = None \<and> entries w1 k = Some c \<and> (x = Claim k t \<longrightarrow> r \<noteq> Claimed (Inr acquired))"
      by (rule mem_step_finished [OF x Cons.prems(2,7,3)]) (use Cons.prems(4) ck2 in auto)
    show ?case
    proof (cases n)
      case 0
      with Cons.prems(6) rs step show ?thesis by simp
    next
      case (Suc m)
      have "rs1 ! m \<noteq> Claimed (Inr acquired)"
        by (rule Cons.IH [OF xs [unfolded w2] inv1]) (use step Cons.prems(4,5,6) Suc ck1 in auto)
      with Suc rs show ?thesis by simp
    qed
  qed
qed

text \<open>A production deployment never runs on process-local claims: whenever the effective
  runtime is production, the resolution either throws or returns the caller's store, and that
  store declares shared scope.\<close>

theorem production_store_is_shared:
  assumes "resolveAtomicIdempotencyStore env component scope store rt = Inr c"
    and "effective_runtime env rt = production"
  shows "\<exists>s. c = Injected s \<and> store = Some s \<and> scope s = Some scope_shared"
  using resolve_cases [OF assms(1)] assms(2) by auto

section \<open>The properties at a concrete store\<close>

definition mx_store :: InMemoryAtomicIdempotencyStore where
  "mx_store = \<lparr>clock = (\<lambda>n. int n), clock_reads = 0, uuids = (\<lambda>n. replicate (Suc n) (CHR ''t'')), uuids_drawn = 0,
     entries = (\<lambda>_. None), owners = (\<lambda>_. None)\<rparr>"

definition mx_done :: InMemoryAtomicIdempotencyStore where
  "mx_done = mx_store\<lparr>entries := [''k'' \<mapsto> \<lparr>expiresAt = 100, token = ''t'', status = done_claim\<rparr>]\<rparr>"

lemma mx_inv: "mem_inv mx_store" "mem_inv mx_done"
  by (simp_all add: mem_inv_def mx_store_def mx_done_def)

lemma mx_trim: "trim ''k'' = ''k''"
  by (simp add: trim_def js_space_def)

lemmas mx_eval = mem_defs assertClaimInput_def assertKey_def mx_trim io_defs finite_sum_def float_limit_def

theorem in_memory_claims_are_exclusive_witness:
  "\<exists>m. 0 < m \<and> m < (2::nat) \<and>
     ([Claim ''k'' (Finite 9), Release ''k'', Claim ''k'' (Finite 9)] ! m = Release ''k'' \<or>
      [Claim ''k'' (Finite 9), Release ''k'', Claim ''k'' (Finite 9)] ! m = Complete ''k'')"
proof (rule in_memory_claims_are_exclusive)
  show "mem_run [Claim ''k'' (Finite 9), Release ''k'', Claim ''k'' (Finite 9)] mx_store =
      ([Claimed (Inr acquired), Acked (Inr ()), Claimed (Inr acquired)],
       snd (mem_run [Claim ''k'' (Finite 9), Release ''k'', Claim ''k'' (Finite 9)] mx_store))"
    by (simp add: mx_eval mx_store_def)
qed (simp_all add: mx_inv)

theorem completed_claim_is_not_granted_again_witness:
  "fst (mem_run [Claim ''k'' (Finite 9)] mx_done) ! 0 \<noteq> Claimed (Inr acquired)"
proof (rule completed_claim_is_not_granted_again)
  show "mem_run [Claim ''k'' (Finite 9)] mx_done =
      (fst (mem_run [Claim ''k'' (Finite 9)] mx_done), snd (mem_run [Claim ''k'' (Finite 9)] mx_done))" by simp
  show "entries mx_done ''k'' = Some \<lparr>expiresAt = 100, token = ''t'', status = done_claim\<rparr>"
    by (simp add: mx_done_def)
  have "clock_reads (snd (mem_run [Claim ''k'' (Finite 9)] mx_done)) = 2"
    by (simp add: mx_eval mx_store_def mx_done_def)
  then show "clock mx_done m < expiresAt \<lparr>expiresAt = 100, token = ''t'', status = done_claim\<rparr>"
    if "clock_reads mx_done \<le> m" "m < clock_reads (snd (mem_run [Claim ''k'' (Finite 9)] mx_done))" for m
    using that by (simp add: mx_done_def mx_store_def)
  show "mem_inv mx_done" by (rule mx_inv)
qed (simp_all add: mem_finished_def mem_held_def mx_done_def mx_store_def)

theorem production_store_is_shared_witness:
  "\<exists>s. Injected True = Injected s \<and> Some True = Some s \<and> (if s then Some scope_shared else None) = Some scope_shared"
  by (rule production_store_is_shared [where env = "\<lparr>process_defined = True, VITEST = None, NODE_ENV = Some ''production''\<rparr>"
        and component = "''router''" and rt = "Some production"])
     (simp_all add: resolveAtomicIdempotencyStore_def effective_runtime_def isProductionEnvironment_def)

end
