(* ===== verification/Json.thy ===== *)
theory Json
  imports Errors
begin

text \<open>
  Values of unknown type: what \<open>JSON.parse\<close> returns and what the code inspects with \<open>typeof\<close>.
  An object is the list of its own properties; reading a missing property gives \<open>undefined\<close>,
  here \<open>None\<close>.
\<close>

datatype json =
  JNull
| JBool bool
| JNum js_number
| JStr string
| JArr "json list"
| JObj "(string \<times> json) list"

text \<open>\<open>typeof value === 'object' && value !== null\<close>, arrays included.\<close>

fun is_object :: "json \<Rightarrow> bool" where
  "is_object (JArr _) = True"
| "is_object (JObj _) = True"
| "is_object _ = False"

text \<open>\<open>isRecord\<close>: an object that is not an array.\<close>

fun is_record :: "json \<Rightarrow> bool" where
  "is_record (JObj _) = True"
| "is_record _ = False"

text \<open>Property access. The named properties the code reads are not array indices, so an array
  has none of them.\<close>

fun field :: "json \<Rightarrow> string \<Rightarrow> json option" where
  "field (JObj kvs) k = map_of kvs k"
| "field _ k = None"

definition opt_field :: "json option \<Rightarrow> string \<Rightarrow> json option" where
  "opt_field v k = (case v of None \<Rightarrow> None | Some j \<Rightarrow> field j k)"

fun as_string :: "json option \<Rightarrow> string option" where
  "as_string (Some (JStr s)) = Some s"
| "as_string _ = None"

fun as_finite :: "json option \<Rightarrow> int option" where
  "as_finite (Some (JNum (Finite n))) = Some n"
| "as_finite _ = None"

definition opt_json :: "string option \<Rightarrow> json" where
  "opt_json v = (case v of None \<Rightarrow> JNull | Some s \<Rightarrow> JStr s)"

end
