(* ===== verification/Journal.thy ===== *)
theory Journal
  imports Idempotency Json "HOL-Library.Sublist"
begin

text \<open>
  The durable claim store of \<open>idempotency.ts\<close> (class \<open>FileSystemAtomicIdempotencyStore\<close>): the
  records of the append-only claim journal and their JSON form, the reading of its head, the
  decisions of \<open>claimStatus\<close>, \<open>transitionOwned\<close> and \<open>renewOwnership\<close>, and the system of many
  processes that race on the files of one key. The specification is a legal journal, a list of
  decisions in which each follows from the one before it; the files of every reachable state
  represent one.
\<close>

section \<open>Journal records\<close>

record LegacyClaimRecord =
  l_keyHash :: string
  l_token :: string
  l_expiresAt :: int

datatype node_kind = claim_node | completed_node | available_node

record ClaimJournalNode =
  n_kind :: node_kind
  n_keyHash :: string
  n_token :: string
  n_predecessorToken :: "string option"
  n_ownerToken :: "string option"
  n_expiresAt :: int

datatype StoredClaimRecord = Version1 LegacyClaimRecord | Version3 ClaimJournalNode

fun rec_keyHash :: "StoredClaimRecord \<Rightarrow> string" where
  "rec_keyHash (Version1 r) = l_keyHash r"
| "rec_keyHash (Version3 n) = n_keyHash n"

fun rec_token :: "StoredClaimRecord \<Rightarrow> string" where
  "rec_token (Version1 r) = l_token r"
| "rec_token (Version3 n) = n_token n"

subsection \<open>The JSON form of a record\<close>

definition hex_digit :: "char \<Rightarrow> bool" where
  "hex_digit c \<longleftrightarrow> c \<in> set ''abcdef0123456789''"

text \<open>\<open>/^[a-f0-9]{64}$/\<close>.\<close>

definition hex64 :: "string \<Rightarrow> bool" where
  "hex64 s \<longleftrightarrow> length s = 64 \<and> list_all hex_digit s"

definition nonempty_string :: "json option \<Rightarrow> bool" where
  "nonempty_string v \<longleftrightarrow> (case as_string v of None \<Rightarrow> False | Some s \<Rightarrow> s \<noteq> [])"

definition isClaimRecord :: "json \<Rightarrow> bool" where
  "isClaimRecord value =
     (if \<not> is_object value then False
      else let common = (case as_string (field value ''keyHash'') of None \<Rightarrow> False | Some h \<Rightarrow> hex64 h)
                 \<and> nonempty_string (field value ''token'')
                 \<and> as_finite (field value ''expiresAt'') \<noteq> None
      in if \<not> common then False
      else if field value ''version'' = Some (JNum (Finite 1)) then True
      else if field value ''version'' \<noteq> Some (JNum (Finite 3)) then False
      else if field value ''kind'' \<noteq> Some (JStr ''claim'') \<and> field value ''kind'' \<noteq> Some (JStr ''completed'')
              \<and> field value ''kind'' \<noteq> Some (JStr ''available'') then False
      else if field value ''predecessorToken'' \<noteq> Some JNull
              \<and> \<not> nonempty_string (field value ''predecessorToken'') then False
      else if field value ''kind'' = Some (JStr ''claim'') \<or> field value ''kind'' = Some (JStr ''completed'')
      then nonempty_string (field value ''ownerToken'')
      else field value ''ownerToken'' = Some JNull \<or> nonempty_string (field value ''ownerToken''))"

fun kindName :: "node_kind \<Rightarrow> string" where
  "kindName claim_node = ''claim''"
| "kindName completed_node = ''completed''"
| "kindName available_node = ''available''"

text \<open>The object literal of a node as \<open>JSON.stringify\<close> writes it.\<close>

definition nodeJson :: "ClaimJournalNode \<Rightarrow> json" where
  "nodeJson n = JObj [(''version'', JNum (Finite 3)), (''kind'', JStr (kindName (n_kind n))),
     (''keyHash'', JStr (n_keyHash n)), (''token'', JStr (n_token n)),
     (''predecessorToken'', opt_json (n_predecessorToken n)),
     (''ownerToken'', opt_json (n_ownerToken n)), (''expiresAt'', JNum (Finite (n_expiresAt n)))]"

text \<open>The fields of a value that passed \<open>isClaimRecord\<close>, read as a record.\<close>

definition storedClaim :: "json \<Rightarrow> StoredClaimRecord" where
  "storedClaim v =
     (let h = nullish (as_string (field v ''keyHash'')) []; t = nullish (as_string (field v ''token'')) [];
          e = nullish (as_finite (field v ''expiresAt'')) 0
      in if field v ''version'' = Some (JNum (Finite 1))
         then Version1 \<lparr>l_keyHash = h, l_token = t, l_expiresAt = e\<rparr>
         else Version3 \<lparr>n_kind = (if field v ''kind'' = Some (JStr ''claim'') then claim_node
                                  else if field v ''kind'' = Some (JStr ''completed'') then completed_node
                                  else available_node),
                n_keyHash = h, n_token = t, n_predecessorToken = as_string (field v ''predecessorToken''),
                n_ownerToken = as_string (field v ''ownerToken''), n_expiresAt = e\<rparr>)"

definition wf_node :: "ClaimJournalNode \<Rightarrow> bool" where
  "wf_node n \<longleftrightarrow> hex64 (n_keyHash n) \<and> n_token n \<noteq> [] \<and> n_predecessorToken n \<noteq> Some []
     \<and> n_ownerToken n \<noteq> None \<and> n_ownerToken n \<noteq> Some []"

lemma isClaimRecord_nodeJson: "wf_node n \<Longrightarrow> isClaimRecord (nodeJson n)"
  by (cases "n_kind n"; cases "n_predecessorToken n"; cases "n_ownerToken n")
     (auto simp: wf_node_def isClaimRecord_def nodeJson_def opt_json_def nonempty_string_def)

lemma storedClaim_nodeJson: "storedClaim (nodeJson n) = Version3 n"
  by (cases "n_kind n"; cases "n_predecessorToken n"; cases "n_ownerToken n"; cases n)
     (auto simp: storedClaim_def nodeJson_def opt_json_def)

section \<open>Files\<close>

text \<open>A file holds JSON text or something \<open>JSON.parse\<close> rejects.\<close>

datatype file_content = NotJson | JsonFile json

type_synonym files = "string \<Rightarrow> file_content option"

record FileStore =
  rootDir :: string
  filePrefix :: string
  processingLeaseMs :: int
  heartbeatIntervalMs :: int

text \<open>\<open>path.join(rootDir, name)\<close> for a normalised root directory and a plain file name.\<close>

definition path_join :: "string \<Rightarrow> string \<Rightarrow> string" where
  "path_join dir name = dir @ ''/'' @ name"

definition rootPath :: "FileStore \<Rightarrow> string \<Rightarrow> string" where
  "rootPath st keyHash = path_join (rootDir st) (filePrefix st @ keyHash @ ''.json'')"

text \<open>\<open>hash\<close> stands for the hexadecimal SHA-256 digest of Node's crypto module.\<close>

definition successorPath :: "FileStore \<Rightarrow> (string \<Rightarrow> string) \<Rightarrow> string \<Rightarrow> string \<Rightarrow> string" where
  "successorPath st hash keyHash predecessorToken =
     path_join (rootDir st) (filePrefix st @ keyHash @ ''.next-'' @ hash predecessorToken @ ''.json'')"

definition readJson :: "files \<Rightarrow> string \<Rightarrow> exn + json option" where
  "readJson fs file = (case fs file of
       None \<Rightarrow> Inr None
     | Some NotJson \<Rightarrow> Inl (Error (''Invalid idempotency JSON at '' @ file))
     | Some (JsonFile j) \<Rightarrow> Inr (if j = JNull then None else Some j))"

definition readClaim :: "files \<Rightarrow> string \<Rightarrow> string \<Rightarrow> exn + StoredClaimRecord option" where
  "readClaim fs file expectedKeyHash = (case readJson fs file of
       Inl e \<Rightarrow> Inl e
     | Inr None \<Rightarrow> Inr None
     | Inr (Some parsed) \<Rightarrow>
         if \<not> isClaimRecord parsed \<or> rec_keyHash (storedClaim parsed) \<noteq> expectedKeyHash
         then Inl (Error (''Invalid idempotency state for '' @ expectedKeyHash))
         else Inr (Some (storedClaim parsed)))"

definition MAX_CLAIM_CHAIN_DEPTH :: nat where
  "MAX_CLAIM_CHAIN_DEPTH = 100000"

text \<open>The loop of \<open>readHead\<close>, with the number of iterations left.\<close>

fun readChain :: "FileStore \<Rightarrow> (string \<Rightarrow> string) \<Rightarrow> files \<Rightarrow> string \<Rightarrow> nat \<Rightarrow> StoredClaimRecord \<Rightarrow>
    exn + StoredClaimRecord" where
  "readChain st hash fs keyHash 0 current =
     Inl (Error (''Idempotency claim chain exceeds 100000 records for '' @ keyHash))"
| "readChain st hash fs keyHash (Suc depth) current =
     (case readClaim fs (successorPath st hash keyHash (rec_token current)) keyHash of
        Inl e \<Rightarrow> Inl e
      | Inr None \<Rightarrow> Inr current
      | Inr (Some (Version1 _)) \<Rightarrow> Inl (Error (''Invalid idempotency successor for '' @ keyHash))
      | Inr (Some (Version3 next)) \<Rightarrow>
          if n_predecessorToken next \<noteq> Some (rec_token current)
          then Inl (Error (''Invalid idempotency successor for '' @ keyHash))
          else readChain st hash fs keyHash depth (Version3 next))"

definition readHead :: "FileStore \<Rightarrow> (string \<Rightarrow> string) \<Rightarrow> files \<Rightarrow> string \<Rightarrow> exn + StoredClaimRecord option" where
  "readHead st hash fs keyHash = (case readClaim fs (rootPath st keyHash) keyHash of
       Inl e \<Rightarrow> Inl e
     | Inr None \<Rightarrow> Inr None
     | Inr (Some current) \<Rightarrow>
         (case readChain st hash fs keyHash MAX_CLAIM_CHAIN_DEPTH current of
            Inl e \<Rightarrow> Inl e | Inr head \<Rightarrow> Inr (Some head)))"

text \<open>\<open>writeExclusive\<close> links a complete temporary file to its final name, which fails when the
  name exists.\<close>

definition writeExclusive :: "files \<Rightarrow> string \<Rightarrow> ClaimJournalNode \<Rightarrow> bool \<times> files" where
  "writeExclusive fs file node =
     (if fs file = None then (True, fs(file \<mapsto> JsonFile (nodeJson node))) else (False, fs))"

section \<open>Construction\<close>

record FileStoreOptions =
  opt_namespace :: "string option"
  opt_processingLeaseMs :: "js_number option"
  opt_heartbeatIntervalMs :: "js_number option"
  opt_lockLeaseMs :: "js_number option"
  opt_lockWaitMs :: "js_number option"

definition positiveOption :: "js_number \<Rightarrow> string \<Rightarrow> exn + int" where
  "positiveOption value name = (case value of
       Finite n \<Rightarrow> if n \<le> 0 then Inl (Error (name @ '' must be a positive finite number'')) else Inr n
     | NotFinite \<Rightarrow> Inl (Error (name @ '' must be a positive finite number'')))"

definition path_safe :: "char \<Rightarrow> bool" where
  "path_safe c \<longleftrightarrow> (let n = (of_char c :: nat) in
     (65 \<le> n \<and> n \<le> 90) \<or> (97 \<le> n \<and> n \<le> 122) \<or> (48 \<le> n \<and> n \<le> 57) \<or> c \<in> set ''_.-'')"

definition newFileStore :: "string \<Rightarrow> FileStoreOptions \<Rightarrow> exn + FileStore" where
  "newFileStore root opts =
     (if trim root = [] then Inl (Error ''FileSystemAtomicIdempotencyStore requires a root directory'')
      else if (case opt_namespace opts of None \<Rightarrow> False | Some ns \<Rightarrow> ns = [] \<or> \<not> list_all path_safe ns)
      then Inl (Error ''Idempotency namespace must contain only path-safe characters'')
      else case (case opt_lockWaitMs opts of None \<Rightarrow> Inr 0 | Some v \<Rightarrow> positiveOption v ''lockWaitMs'') of
        Inl e \<Rightarrow> Inl e
      | Inr _ \<Rightarrow>
      (case positiveOption (nullish (nullish_opt (opt_processingLeaseMs opts) (opt_lockLeaseMs opts)) (Finite 60000))
              ''processingLeaseMs'' of
        Inl e \<Rightarrow> Inl e
      | Inr lease \<Rightarrow>
      (case positiveOption (nullish (opt_heartbeatIntervalMs opts) (Finite (max 1 (lease div 3))))
              ''heartbeatIntervalMs'' of
        Inl e \<Rightarrow> Inl e
      | Inr beat \<Rightarrow>
        if beat \<ge> lease then Inl (Error ''heartbeatIntervalMs must be shorter than processingLeaseMs'')
        else Inr \<lparr>rootDir = root,
                  filePrefix = (case opt_namespace opts of None \<Rightarrow> [] | Some ns \<Rightarrow> ns @ ''-''),
                  processingLeaseMs = lease, heartbeatIntervalMs = beat\<rparr>)))"

lemma newFileStore_lease:
  "newFileStore root opts = Inr st \<Longrightarrow>
     0 < heartbeatIntervalMs st \<and> heartbeatIntervalMs st < processingLeaseMs st"
  by (auto simp: newFileStore_def positiveOption_def split: if_splits sum.splits js_number.splits)

section \<open>Decisions\<close>

text \<open>The branches of \<open>claimStatus\<close> on the head it read: a reply, or \<open>None\<close> to append a claim.\<close>

fun claimReply :: "StoredClaimRecord option \<Rightarrow> int \<Rightarrow> AtomicClaimStatus option" where
  "claimReply None now = None"
| "claimReply (Some (Version1 r)) now = (if l_expiresAt r > now then Some in_progress else None)"
| "claimReply (Some (Version3 n)) now =
     (if n_kind n = completed_node \<and> n_expiresAt n > now then Some completed
      else if n_kind n = claim_node \<and> n_expiresAt n > now then Some in_progress
      else None)"

definition claimNode :: "FileStore \<Rightarrow> string \<Rightarrow> string option \<Rightarrow> string \<Rightarrow> string \<Rightarrow> int \<Rightarrow> ClaimJournalNode" where
  "claimNode st keyHash predecessorToken ownerToken tok now =
     \<lparr>n_kind = claim_node, n_keyHash = keyHash, n_token = tok, n_predecessorToken = predecessorToken,
      n_ownerToken = Some ownerToken, n_expiresAt = now + processingLeaseMs st\<rparr>"

text \<open>The path \<open>claimStatus\<close> links its node to: the root of an empty journal, else the path
  derived from the head's token.\<close>

fun claimPath :: "FileStore \<Rightarrow> (string \<Rightarrow> string) \<Rightarrow> string \<Rightarrow> StoredClaimRecord option \<Rightarrow> string" where
  "claimPath st hash keyHash None = rootPath st keyHash"
| "claimPath st hash keyHash (Some head) = successorPath st hash keyHash (rec_token head)"

text \<open>The test of \<open>transitionOwned\<close> and \<open>renewOwnership\<close>: the head is a claim of this owner.\<close>

fun ownedHead :: "StoredClaimRecord option \<Rightarrow> string \<Rightarrow> bool" where
  "ownedHead None owner = False"
| "ownedHead (Some (Version1 _)) owner = False"
| "ownedHead (Some (Version3 n)) owner = (n_kind n = claim_node \<and> n_ownerToken n = Some owner)"

text \<open>The node \<open>transitionOwned\<close> appends.\<close>

definition closingNode :: "string \<Rightarrow> node_kind \<Rightarrow> string \<Rightarrow> string \<Rightarrow> string \<Rightarrow> int \<Rightarrow> ClaimJournalNode" where
  "closingNode keyHash kind headToken ownerToken tok expires =
     \<lparr>n_kind = kind, n_keyHash = keyHash, n_token = tok, n_predecessorToken = Some headToken,
      n_ownerToken = Some ownerToken, n_expiresAt = expires\<rparr>"

section \<open>Processes racing on the files of one key\<close>

text \<open>The entry of \<open>owners\<close> for the key: \<open>timer\<close> says whether a heartbeat is scheduled. The
  identity of the mutable owner object is its token, drawn once per object.\<close>

record LocalClaimOwner =
  ownerToken :: string
  ttlMs :: int
  timer :: bool
  renewing :: bool
  closing :: bool

datatype outcome =
  Granted string              \<comment> \<open>\<open>claimStatus\<close> returned \<open>acquired\<close>, with this owner token\<close>
| Replied AtomicClaimStatus   \<comment> \<open>another status\<close>
| Resolved node_kind          \<comment> \<open>the promise of \<open>complete\<close> or \<open>release\<close> resolved, with no value\<close>
| Renewed                     \<comment> \<open>a heartbeat ended\<close>
| Failed exn

text \<open>Where an asynchronous call stands: the awaits are the points between its constructors.\<close>

datatype pc =
  Idle
| Claiming int                                              \<comment> \<open>ttl; about to read the head\<close>
| ClaimWrite int "StoredClaimRecord option" int             \<comment> \<open>head and time read; about to link\<close>
| Closing node_kind string int                              \<comment> \<open>kind, owner, ttl; about to read\<close>
| CloseWrite node_kind string int string int                \<comment> \<open>head token and expiry; about to link\<close>
| Renewing string
| RenewWrite string string int                              \<comment> \<open>owner, head token, time read\<close>
| Returned outcome

record journal_sys =
  disk :: files
  time :: int
  owner :: "nat \<Rightarrow> LocalClaimOwner option"   \<comment> \<open>per process\<close>
  pcs :: "nat \<Rightarrow> pc"                          \<comment> \<open>per call\<close>
  drawn :: "string set"

text \<open>\<open>proc\<close> gives the process of a call. A token is fresh when neither it nor its digest
  has been seen: random UUIDs do not repeat and SHA-256 does not collide on them.\<close>

definition fresh_token :: "(string \<Rightarrow> string) \<Rightarrow> journal_sys \<Rightarrow> string \<Rightarrow> bool" where
  "fresh_token hash s t \<longleftrightarrow> t \<noteq> [] \<and> t \<notin> drawn s \<and> hash t \<notin> hash ` drawn s"

definition set_pc :: "nat \<Rightarrow> pc \<Rightarrow> journal_sys \<Rightarrow> journal_sys" where
  "set_pc i c s = s\<lparr>pcs := (pcs s)(i := c)\<rparr>"

definition set_owner :: "nat \<Rightarrow> LocalClaimOwner option \<Rightarrow> journal_sys \<Rightarrow> journal_sys" where
  "set_owner p ow s = s\<lparr>owner := (owner s)(p := ow)\<rparr>"

definition draw :: "string list \<Rightarrow> journal_sys \<Rightarrow> journal_sys" where
  "draw ts s = s\<lparr>drawn := set ts \<union> drawn s\<rparr>"

definition link_file :: "string \<Rightarrow> ClaimJournalNode \<Rightarrow> journal_sys \<Rightarrow> journal_sys" where
  "link_file path n s = s\<lparr>disk := snd (writeExclusive (disk s) path n)\<rparr>"

definition link_ok :: "string \<Rightarrow> ClaimJournalNode \<Rightarrow> journal_sys \<Rightarrow> bool" where
  "link_ok path n s = fst (writeExclusive (disk s) path n)"

lemmas sys_defs = set_pc_def set_owner_def draw_def link_file_def link_ok_def writeExclusive_def

text \<open>What \<open>startOwnership\<close> puts into \<open>owners\<close>; it schedules the heartbeat.\<close>

definition newOwner :: "string \<Rightarrow> int \<Rightarrow> LocalClaimOwner" where
  "newOwner tok ttl = \<lparr>ownerToken = tok, ttlMs = ttl, timer = True, renewing = False, closing = False\<rparr>"

text \<open>The error path of \<open>transitionOwned\<close>, when the owner object is still the registered one.\<close>

definition closeFailed :: "node_kind \<Rightarrow> string \<Rightarrow> LocalClaimOwner option \<Rightarrow> LocalClaimOwner option" where
  "closeFailed kind tok ow = (case ow of
       None \<Rightarrow> None
     | Some w \<Rightarrow> if ownerToken w \<noteq> tok then Some w
                 else if kind = available_node then None
                 else Some (w\<lparr>closing := False, timer := True\<rparr>))"

text \<open>The end of \<open>renewOwnership\<close>: the \<open>finally\<close> clause, and before it \<open>stopHeartbeat\<close> when the
  claim was lost.\<close>

definition renewEnded :: "bool \<Rightarrow> string \<Rightarrow> LocalClaimOwner option \<Rightarrow> LocalClaimOwner option" where
  "renewEnded lost tok ow = (case ow of
       None \<Rightarrow> None
     | Some w \<Rightarrow> if ownerToken w \<noteq> tok then Some w
                 else Some (w\<lparr>renewing := False, timer := (if lost then False else timer w)\<rparr>))"

text \<open>The guard of the renewal loop.\<close>

definition renewable :: "string \<Rightarrow> LocalClaimOwner option \<Rightarrow> bool" where
  "renewable tok ow \<longleftrightarrow> (case ow of None \<Rightarrow> False | Some w \<Rightarrow> ownerToken w = tok \<and> \<not> closing w)"

inductive jstep :: "FileStore \<Rightarrow> (string \<Rightarrow> string) \<Rightarrow> string \<Rightarrow> (nat \<Rightarrow> nat) \<Rightarrow> journal_sys \<Rightarrow> journal_sys \<Rightarrow> bool"
  for st :: FileStore and hash :: "string \<Rightarrow> string" and kh :: string and proc :: "nat \<Rightarrow> nat"
where
  tick: "time s \<le> t \<Longrightarrow> jstep st hash kh proc s (s\<lparr>time := t\<rparr>)"
\<comment> \<open>\<open>claimStatus\<close>\<close>
| claim_owned: "pcs s i = Idle \<Longrightarrow> owner s (proc i) \<noteq> None \<Longrightarrow>
    jstep st hash kh proc s (set_pc i (Returned (Replied in_progress)) s)"
| claim_start: "pcs s i = Idle \<Longrightarrow> owner s (proc i) = None \<Longrightarrow> 0 < ttl \<Longrightarrow>
    jstep st hash kh proc s (set_pc i (Claiming ttl) s)"
| claim_reply: "pcs s i = Claiming ttl \<Longrightarrow> readHead st hash (disk s) kh = Inr head \<Longrightarrow>
    claimReply head (time s) = Some reply \<Longrightarrow>
    jstep st hash kh proc s (set_pc i (Returned (Replied reply)) s)"
| claim_read: "pcs s i = Claiming ttl \<Longrightarrow> readHead st hash (disk s) kh = Inr head \<Longrightarrow>
    claimReply head (time s) = None \<Longrightarrow>
    jstep st hash kh proc s (set_pc i (ClaimWrite ttl head (time s)) s)"
| claim_read_fails: "pcs s i = Claiming ttl \<Longrightarrow> readHead st hash (disk s) kh = Inl e \<Longrightarrow>
    jstep st hash kh proc s (set_pc i (Returned (Failed e)) s)"
| claim_link: "pcs s i = ClaimWrite ttl head now \<Longrightarrow> fresh_token hash s ow \<Longrightarrow>
    fresh_token hash (draw [ow] s) tok \<Longrightarrow>
    node = claimNode st kh (map_option rec_token head) ow tok now \<Longrightarrow>
    link_ok (claimPath st hash kh head) node s \<Longrightarrow>
    jstep st hash kh proc s (set_pc i (Returned (Granted ow)) (set_owner (proc i) (Some (newOwner ow ttl))
      (draw [ow, tok] (link_file (claimPath st hash kh head) node s))))"
| claim_retry: "pcs s i = ClaimWrite ttl head now \<Longrightarrow>
    \<not> link_ok (claimPath st hash kh head) node s \<Longrightarrow>
    jstep st hash kh proc s (set_pc i (Claiming ttl) s)"
| claim_io_error: "pcs s i = ClaimWrite ttl head now \<Longrightarrow> fresh_token hash s ow \<Longrightarrow>
    fresh_token hash (draw [ow] s) tok \<Longrightarrow>
    node = claimNode st kh (map_option rec_token head) ow tok now \<Longrightarrow>
    s' = s \<or> s' = link_file (claimPath st hash kh head) node s \<Longrightarrow>
    jstep st hash kh proc s (set_pc i (Returned (Failed e)) (draw [ow, tok] s'))"
\<comment> \<open>\<open>complete\<close> and \<open>release\<close>\<close>
| close_unowned: "pcs s i = Idle \<Longrightarrow> owner s (proc i) = None \<Longrightarrow> kind \<noteq> claim_node \<Longrightarrow>
    jstep st hash kh proc s (set_pc i (Returned (Resolved kind)) s)"
| close_start: "pcs s i = Idle \<Longrightarrow> owner s (proc i) = Some w \<Longrightarrow> kind \<noteq> claim_node \<Longrightarrow>
    jstep st hash kh proc s (set_pc i (Closing kind (ownerToken w) (ttlMs w))
      (set_owner (proc i) (Some (w\<lparr>closing := True, timer := False\<rparr>)) s))"
| close_lost: "pcs s i = Closing kind ow ttl \<Longrightarrow> readHead st hash (disk s) kh = Inr head \<Longrightarrow>
    \<not> ownedHead head ow \<Longrightarrow>
    jstep st hash kh proc s (set_pc i (Returned (if kind = completed_node
        then Failed (Error ''Idempotency ownership was lost before completion'') else Resolved kind))
      (set_owner (proc i) None s))"
| close_read: "pcs s i = Closing kind ow ttl \<Longrightarrow> readHead st hash (disk s) kh = Inr (Some head) \<Longrightarrow>
    ownedHead (Some head) ow \<Longrightarrow>
    jstep st hash kh proc s (set_pc i (CloseWrite kind ow ttl (rec_token head)
      (if kind = completed_node then time s + ttl else 0)) s)"
| close_read_fails: "pcs s i = Closing kind ow ttl \<Longrightarrow> readHead st hash (disk s) kh = Inl e \<Longrightarrow>
    jstep st hash kh proc s (set_pc i (Returned (Failed e))
      (set_owner (proc i) (closeFailed kind ow (owner s (proc i))) s))"
| close_link: "pcs s i = CloseWrite kind ow ttl ht expires \<Longrightarrow> fresh_token hash s tok \<Longrightarrow>
    node = closingNode kh kind ht ow tok expires \<Longrightarrow>
    link_ok (successorPath st hash kh ht) node s \<Longrightarrow>
    jstep st hash kh proc s (set_pc i (Returned (Resolved kind)) (set_owner (proc i) None
      (draw [tok] (link_file (successorPath st hash kh ht) node s))))"
| close_retry: "pcs s i = CloseWrite kind ow ttl ht expires \<Longrightarrow>
    \<not> link_ok (successorPath st hash kh ht) node s \<Longrightarrow>
    jstep st hash kh proc s (set_pc i (Closing kind ow ttl) s)"
| close_io_error: "pcs s i = CloseWrite kind ow ttl ht expires \<Longrightarrow> fresh_token hash s tok \<Longrightarrow>
    node = closingNode kh kind ht ow tok expires \<Longrightarrow>
    s' = s \<or> s' = link_file (successorPath st hash kh ht) node s \<Longrightarrow>
    jstep st hash kh proc s (set_pc i (Returned (Failed e))
      (set_owner (proc i) (closeFailed kind ow (owner s (proc i))) (draw [tok] s')))"
\<comment> \<open>the heartbeat, \<open>renewOwnership\<close>\<close>
| renew_start: "pcs s i = Idle \<Longrightarrow> owner s (proc i) = Some w \<Longrightarrow> timer w \<Longrightarrow> \<not> renewing w \<Longrightarrow> \<not> closing w \<Longrightarrow>
    jstep st hash kh proc s (set_pc i (Renewing (ownerToken w))
      (set_owner (proc i) (Some (w\<lparr>renewing := True\<rparr>)) s))"
| renew_stop: "pcs s i = Renewing ow \<Longrightarrow> \<not> renewable ow (owner s (proc i)) \<Longrightarrow>
    jstep st hash kh proc s (set_pc i (Returned Renewed)
      (set_owner (proc i) (renewEnded False ow (owner s (proc i))) s))"
| renew_lost: "pcs s i = Renewing ow \<Longrightarrow> renewable ow (owner s (proc i)) \<Longrightarrow>
    readHead st hash (disk s) kh = Inr head \<Longrightarrow> \<not> ownedHead head ow \<Longrightarrow>
    jstep st hash kh proc s (set_pc i (Returned Renewed)
      (set_owner (proc i) (renewEnded True ow (owner s (proc i))) s))"
| renew_read: "pcs s i = Renewing ow \<Longrightarrow> renewable ow (owner s (proc i)) \<Longrightarrow>
    readHead st hash (disk s) kh = Inr (Some head) \<Longrightarrow> ownedHead (Some head) ow \<Longrightarrow>
    jstep st hash kh proc s (set_pc i (RenewWrite ow (rec_token head) (time s)) s)"
| renew_read_fails: "pcs s i = Renewing ow \<Longrightarrow> readHead st hash (disk s) kh = Inl e \<Longrightarrow>
    jstep st hash kh proc s (set_pc i (Returned Renewed)
      (set_owner (proc i) (renewEnded False ow (owner s (proc i))) s))"
| renew_link: "pcs s i = RenewWrite ow ht now \<Longrightarrow> fresh_token hash s tok \<Longrightarrow>
    node = claimNode st kh (Some ht) ow tok now \<Longrightarrow>
    link_ok (successorPath st hash kh ht) node s \<Longrightarrow>
    jstep st hash kh proc s (set_pc i (Returned Renewed)
      (set_owner (proc i) (renewEnded False ow (owner s (proc i)))
      (draw [tok] (link_file (successorPath st hash kh ht) node s))))"
| renew_retry: "pcs s i = RenewWrite ow ht now \<Longrightarrow>
    \<not> link_ok (successorPath st hash kh ht) node s \<Longrightarrow>
    jstep st hash kh proc s (set_pc i (Renewing ow) s)"
| renew_io_error: "pcs s i = RenewWrite ow ht now \<Longrightarrow> fresh_token hash s tok \<Longrightarrow>
    node = claimNode st kh (Some ht) ow tok now \<Longrightarrow>
    s' = s \<or> s' = link_file (successorPath st hash kh ht) node s \<Longrightarrow>
    jstep st hash kh proc s (set_pc i (Returned Renewed)
      (set_owner (proc i) (renewEnded False ow (owner s (proc i))) (draw [tok] s')))"

text \<open>The start: no file of the key, or one version-1 record left by an older release.\<close>

definition jinit :: "FileStore \<Rightarrow> string \<Rightarrow> journal_sys \<Rightarrow> bool" where
  "jinit st kh s \<longleftrightarrow> owner s = (\<lambda>_. None) \<and> pcs s = (\<lambda>_. Idle) \<and>
     ((drawn s = {} \<and> disk s = (\<lambda>_. None)) \<or>
      (\<exists>j r. isClaimRecord j \<and> j \<noteq> JNull \<and> storedClaim j = Version1 r \<and> l_keyHash r = kh \<and>
         drawn s = {l_token r} \<and> disk s = [rootPath st kh \<mapsto> JsonFile j]))"

inductive jreachable :: "FileStore \<Rightarrow> (string \<Rightarrow> string) \<Rightarrow> string \<Rightarrow> (nat \<Rightarrow> nat) \<Rightarrow> journal_sys \<Rightarrow> bool"
  for st :: FileStore and hash :: "string \<Rightarrow> string" and kh :: string and proc :: "nat \<Rightarrow> nat"
where
  start: "jinit st kh s \<Longrightarrow> jreachable st hash kh proc s"
| step: "jreachable st hash kh proc s \<Longrightarrow> jstep st hash kh proc s s' \<Longrightarrow> jreachable st hash kh proc s'"

section \<open>The journal as the files represent it\<close>

text \<open>\<open>chain_at fs p c\<close>: starting from the file \<open>p\<close>, the records \<open>c\<close> are found one after the
  other, each at the path derived from its predecessor's token, and there is nothing after the
  last.\<close>

fun chain_at :: "FileStore \<Rightarrow> (string \<Rightarrow> string) \<Rightarrow> string \<Rightarrow> files \<Rightarrow> string \<Rightarrow> StoredClaimRecord list \<Rightarrow> bool" where
  "chain_at st hash kh fs p [] = (fs p = None)"
| "chain_at st hash kh fs p (r # rs) =
     (readClaim fs p kh = Inr (Some r) \<and> chain_at st hash kh fs (successorPath st hash kh (rec_token r)) rs)"

abbreviation represents where
  "represents st hash kh fs c \<equiv> chain_at st hash kh fs (rootPath st kh) c"

definition last_record :: "StoredClaimRecord list \<Rightarrow> StoredClaimRecord option" where
  "last_record c = (if c = [] then None else Some (last c))"

definition end_path :: "FileStore \<Rightarrow> (string \<Rightarrow> string) \<Rightarrow> string \<Rightarrow> string \<Rightarrow> StoredClaimRecord list \<Rightarrow> string" where
  "end_path st hash kh p c = (if c = [] then p else successorPath st hash kh (rec_token (last c)))"

fun rec_owner :: "StoredClaimRecord \<Rightarrow> string option" where
  "rec_owner (Version1 r) = None"
| "rec_owner (Version3 n) = n_ownerToken n"

text \<open>Each record after the first names its predecessor.\<close>

fun linked :: "StoredClaimRecord list \<Rightarrow> bool" where
  "linked (r # Version3 n # rs) = (n_predecessorToken n = Some (rec_token r) \<and> linked (Version3 n # rs))"
| "linked (r # Version1 _ # rs) = False"
| "linked _ = True"

lemma last_record_simps [simp]:
  "last_record [] = None" "last_record (c @ [r]) = Some r" "c \<noteq> [] \<Longrightarrow> last_record c = Some (last c)"
  by (simp_all add: last_record_def)

lemma chain_at_end: "chain_at st hash kh fs p c \<Longrightarrow> fs (end_path st hash kh p c) = None"
  by (induction c arbitrary: p) (auto simp: end_path_def split: if_splits)

lemma claimPath_end: "claimPath st hash kh (last_record c) = end_path st hash kh (rootPath st kh) c"
  by (simp add: last_record_def end_path_def)

lemma readClaim_present: "readClaim fs p kh = Inr (Some r) \<Longrightarrow> fs p \<noteq> None"
  by (auto simp: readClaim_def readJson_def split: option.splits)

lemma readClaim_absent: "fs p = None \<Longrightarrow> readClaim fs p kh = Inr None"
  by (simp add: readClaim_def readJson_def)

lemma readClaim_same: "fs p = fs' p \<Longrightarrow> readClaim fs p kh = readClaim fs' p kh"
  by (simp add: readClaim_def readJson_def)

lemma readClaim_node:
  "fs p = Some (JsonFile (nodeJson n)) \<Longrightarrow> wf_node n \<Longrightarrow> n_keyHash n = kh \<Longrightarrow>
     readClaim fs p kh = Inr (Some (Version3 n))"
  by (auto simp: readClaim_def readJson_def isClaimRecord_nodeJson storedClaim_nodeJson)
     (simp add: nodeJson_def)

lemma chain_at_free:
  assumes "chain_at st hash kh fs p c" "i < length c"
    and "fs (successorPath st hash kh (rec_token (c ! i))) = None"
  shows "Suc i = length c"
  using assms
proof (induction c arbitrary: p i)
  case (Cons r rs)
  show ?case
  proof (cases i)
    case 0
    with Cons.prems show ?thesis by (cases rs) (auto dest: readClaim_present)
  next
    case (Suc j)
    with Cons show ?thesis by auto
  qed
qed simp

lemma chain_at_link:
  assumes "chain_at st hash kh fs p c" "wf_node n" "n_keyHash n = kh"
    and "fs (successorPath st hash kh (n_token n)) = None"
    and "successorPath st hash kh (n_token n) \<noteq> e" "e = end_path st hash kh p c"
  shows "chain_at st hash kh (fs(e \<mapsto> JsonFile (nodeJson n))) p (c @ [Version3 n])"
  using assms
proof (induction c arbitrary: p)
  case Nil
  then show ?case by (simp add: end_path_def readClaim_node)
next
  case (Cons r rs)
  let ?q = "successorPath st hash kh (rec_token r)"
  have e: "e = end_path st hash kh ?q rs" using Cons.prems(6) by (auto simp: end_path_def)
  have tail: "chain_at st hash kh fs ?q rs" and head: "readClaim fs p kh = Inr (Some r)"
    using Cons.prems(1) by simp_all
  have "fs e = None" unfolding e using tail by (rule chain_at_end)
  with head have "p \<noteq> e" by (auto dest: readClaim_present)
  then have "readClaim (fs(e \<mapsto> JsonFile (nodeJson n))) p kh = Inr (Some r)"
    using head readClaim_same [of fs p "fs(e \<mapsto> JsonFile (nodeJson n))" kh] by simp
  moreover have "chain_at st hash kh (fs(e \<mapsto> JsonFile (nodeJson n))) ?q (rs @ [Version3 n])"
    by (rule Cons.IH [OF tail Cons.prems(2-5) e])
  ultimately show ?case by (simp only: append_Cons chain_at.simps simp_thms)
qed

lemma chain_at_unique:
  "chain_at st hash kh fs p c \<Longrightarrow> chain_at st hash kh fs p d \<Longrightarrow> c = d"
proof (induction c arbitrary: p d)
  case Nil
  then show ?case by (cases d) (auto dest: readClaim_present)
next
  case (Cons r rs)
  then show ?case by (cases d) (auto dest: readClaim_present)
qed

lemma root_not_successor: "rootPath st kh \<noteq> successorPath st hash kh t"
  by (simp add: rootPath_def successorPath_def path_join_def)

lemma successor_inj: "successorPath st hash kh t = successorPath st hash kh u \<longleftrightarrow> hash t = hash u"
  by (simp add: successorPath_def path_join_def)

subsection \<open>Reading the head\<close>

lemma readChain_last:
  "chain_at st hash kh fs (successorPath st hash kh (rec_token r)) rs \<Longrightarrow>
     readChain st hash fs kh d r = Inr h \<Longrightarrow> h = last (r # rs)"
proof (induction rs arbitrary: r d)
  case Nil
  then show ?case by (cases d) (auto simp: readClaim_absent)
next
  case (Cons x xs)
  from Cons.prems obtain d' n where "x = Version3 n" "readChain st hash fs kh d' (Version3 n) = Inr h"
    by (cases d; cases x) (auto split: if_splits)
  with Cons.IH [of x d'] Cons.prems(1) show ?case by simp
qed

lemma readHead_last:
  "represents st hash kh fs c \<Longrightarrow> readHead st hash fs kh = Inr h \<Longrightarrow> h = last_record c"
proof (cases c)
  case Nil
  then show "represents st hash kh fs c \<Longrightarrow> readHead st hash fs kh = Inr h \<Longrightarrow> h = last_record c"
    by (simp add: readHead_def readClaim_absent)
next
  case (Cons r rs)
  then show "represents st hash kh fs c \<Longrightarrow> readHead st hash fs kh = Inr h \<Longrightarrow> h = last_record c"
    by (auto simp: readHead_def last_record_def split: sum.splits dest: readChain_last)
qed

lemma readChain_total:
  "chain_at st hash kh fs (successorPath st hash kh (rec_token r)) rs \<Longrightarrow> linked (r # rs) \<Longrightarrow>
     readChain st hash fs kh d r =
       (if length rs < d then Inr (last (r # rs))
        else Inl (Error (''Idempotency claim chain exceeds 100000 records for '' @ kh)))"
proof (induction rs arbitrary: r d)
  case Nil
  then show ?case by (cases d) (auto simp: readClaim_absent)
next
  case (Cons x xs)
  then show ?case by (cases d; cases x) (auto simp del: last.simps simp: last_ConsR)
qed

lemma readHead_total:
  assumes "represents st hash kh fs c" "linked c"
  shows "readHead st hash fs kh =
     (if length c \<le> MAX_CLAIM_CHAIN_DEPTH then Inr (last_record c)
      else Inl (Error (''Idempotency claim chain exceeds 100000 records for '' @ kh)))"
proof (cases c)
  case Nil
  with assms show ?thesis by (simp add: readHead_def readClaim_absent)
next
  case (Cons r rs)
  with assms show ?thesis
    by (simp add: readHead_def readChain_total [of st hash kh fs r rs] Suc_le_eq last_record_def)
qed

section \<open>Specification: the legal journals\<close>

text \<open>
  What may be appended to a journal \<open>c\<close>. A claim continues the ownership of the last record, or
  starts a new one, under an owner token never seen before, on a last record that a claimant may
  take over at the decision time \<open>expiresAt - lease\<close>. A completion or release closes the
  ownership of the last record.
\<close>

definition may_append :: "FileStore \<Rightarrow> string \<Rightarrow> StoredClaimRecord list \<Rightarrow> ClaimJournalNode \<Rightarrow> bool" where
  "may_append st kh c n \<longleftrightarrow>
     n_keyHash n = kh \<and> n_predecessorToken n = map_option rec_token (last_record c) \<and>
     (case n_ownerToken n of
        None \<Rightarrow> False
      | Some ow \<Rightarrow>
          ownedHead (last_record c) ow \<or>
          (n_kind n = claim_node \<and> claimReply (last_record c) (n_expiresAt n - processingLeaseMs st) = None
           \<and> Some ow \<notin> rec_owner ` set c))"

inductive legal :: "FileStore \<Rightarrow> string \<Rightarrow> StoredClaimRecord list \<Rightarrow> bool"
  for st :: FileStore and kh :: string
where
  legal_empty: "legal st kh []"
| legal_legacy: "legal st kh [Version1 r]"
| legal_append: "legal st kh c \<Longrightarrow> may_append st kh c n \<Longrightarrow> legal st kh (c @ [Version3 n])"

lemma linked_snoc:
  "linked c \<Longrightarrow> (c \<noteq> [] \<Longrightarrow> n_predecessorToken n = Some (rec_token (last c))) \<Longrightarrow> linked (c @ [Version3 n])"
  by (induction c rule: linked.induct) auto

lemma legal_linked: "legal st kh c \<Longrightarrow> linked c"
proof (induction rule: legal.induct)
  case (legal_append c n)
  then show ?case by (intro linked_snoc) (auto simp: may_append_def)
qed simp_all

section \<open>The files refine the specification\<close>

definition files_inv :: "FileStore \<Rightarrow> (string \<Rightarrow> string) \<Rightarrow> string \<Rightarrow> files \<Rightarrow> string set \<Rightarrow> StoredClaimRecord list \<Rightarrow> bool" where
  "files_inv st hash kh fs dr c \<longleftrightarrow>
     represents st hash kh fs c \<and> legal st kh c \<and> [] \<notin> dr \<and>
     (\<forall>r \<in> set c. rec_token r \<in> dr) \<and> (\<forall>r \<in> set c. \<forall>ow. rec_owner r = Some ow \<longrightarrow> ow \<in> dr) \<and>
     (\<forall>t. fs (successorPath st hash kh t) \<noteq> None \<longrightarrow> hash t \<in> hash ` dr)"

definition owned_in :: "StoredClaimRecord list \<Rightarrow> string \<Rightarrow> string \<Rightarrow> bool" where
  "owned_in c tok ow \<longleftrightarrow> (\<exists>r \<in> set c. rec_token r = tok \<and> ownedHead (Some r) ow)"

fun pc_ok :: "StoredClaimRecord list \<Rightarrow> pc \<Rightarrow> bool" where
  "pc_ok c (ClaimWrite ttl head now) = (claimReply head now = None \<and> (case head of None \<Rightarrow> True | Some r \<Rightarrow> r \<in> set c))"
| "pc_ok c (Closing kind ow ttl) = (kind \<noteq> claim_node)"
| "pc_ok c (CloseWrite kind ow ttl ht expires) = (kind \<noteq> claim_node \<and> owned_in c ht ow)"
| "pc_ok c (RenewWrite ow ht now) = owned_in c ht ow"
| "pc_ok c (Returned (Granted ow)) = (\<exists>n. Version3 n \<in> set c \<and> n_kind n = claim_node \<and> n_ownerToken n = Some ow)"
| "pc_ok c _ = True"

definition sys_inv :: "FileStore \<Rightarrow> (string \<Rightarrow> string) \<Rightarrow> string \<Rightarrow> journal_sys \<Rightarrow> StoredClaimRecord list \<Rightarrow> bool" where
  "sys_inv st hash kh s c \<longleftrightarrow> files_inv st hash kh (disk s) (drawn s) c \<and> (\<forall>i. pc_ok c (pcs s i))"

lemma pc_ok_mono: "pc_ok c x \<Longrightarrow> set c \<subseteq> set d \<Longrightarrow> pc_ok d x"
  by (induction c x rule: pc_ok.induct) (auto simp: owned_in_def split: option.splits)

lemma files_inv_draw:
  "files_inv st hash kh fs dr c \<Longrightarrow> dr \<subseteq> dr' \<Longrightarrow> [] \<notin> dr' \<Longrightarrow> files_inv st hash kh fs dr' c"
  unfolding files_inv_def by blast

text \<open>A link succeeds exactly when the remembered head is still the last record.\<close>

lemma link_iff_last:
  assumes "represents st hash kh fs c" "case head of None \<Rightarrow> True | Some r \<Rightarrow> r \<in> set c"
  shows "fs (claimPath st hash kh head) = None \<longleftrightarrow> head = last_record c"
proof
  assume free: "fs (claimPath st hash kh head) = None"
  show "head = last_record c"
  proof (cases head)
    case None
    with free assms(1) show ?thesis by (cases c) (auto dest: readClaim_present)
  next
    case (Some r)
    with assms(2) obtain i where i: "i < length c" "c ! i = r" by (auto simp: in_set_conv_nth)
    with free Some have "Suc i = length c" by (intro chain_at_free [OF assms(1)]) auto
    with i have "r = last c" by (metis diff_Suc_1 last_conv_nth length_greater_0_conv zero_less_Suc)
    with Some i show ?thesis by (auto simp: last_record_def)
  qed
next
  assume "head = last_record c"
  then show "fs (claimPath st hash kh head) = None"
    using chain_at_end [OF assms(1)] claimPath_end [of st hash kh c] by auto
qed

lemma files_inv_link:
  assumes inv: "files_inv st hash kh fs dr c" and kh: "hex64 kh"
    and app: "may_append st kh c n"
    and fresh: "n_token n \<noteq> []" "hash (n_token n) \<notin> hash ` dr"
    and dr: "insert (n_token n) dr \<subseteq> dr'" "[] \<notin> dr'" "\<And>ow. n_ownerToken n = Some ow \<Longrightarrow> ow \<in> dr'"
  shows "files_inv st hash kh (fs(claimPath st hash kh (last_record c) \<mapsto> JsonFile (nodeJson n))) dr'
     (c @ [Version3 n])"
proof -
  let ?e = "end_path st hash kh (rootPath st kh) c" and ?t = "successorPath st hash kh (n_token n)"
  from inv have rep: "represents st hash kh fs c" and leg: "legal st kh c"
    and toks: "\<And>r. r \<in> set c \<Longrightarrow> rec_token r \<in> dr"
    and frame: "\<And>t. fs (successorPath st hash kh t) \<noteq> None \<Longrightarrow> hash t \<in> hash ` dr"
    and owns: "\<And>r ow. r \<in> set c \<Longrightarrow> rec_owner r = Some ow \<Longrightarrow> ow \<in> dr"
    by (auto simp: files_inv_def)
  have free: "fs ?t = None" using frame fresh(2) by blast
  have path: "?t \<noteq> ?e"
    using toks [of "last c"] fresh(2) root_not_successor [of st kh hash "n_token n"]
    by (auto simp: end_path_def successor_inj)
  have wf: "wf_node n"
  proof -
    have "n_predecessorToken n \<noteq> Some []"
      using app toks [of "last c"] dr(1,2) by (auto simp: may_append_def last_record_def)
    moreover have "n_ownerToken n \<noteq> None" using app by (auto simp: may_append_def split: option.splits)
    ultimately show ?thesis using app kh fresh(1) dr(2,3) by (auto simp: wf_node_def may_append_def)
  qed
  have kh_n: "n_keyHash n = kh" using app by (simp add: may_append_def)
  have rep': "represents st hash kh (fs(?e \<mapsto> JsonFile (nodeJson n))) (c @ [Version3 n])"
    by (rule chain_at_link [OF rep wf kh_n free path refl])
  have frame': "hash t \<in> hash ` dr'" if "(fs(?e \<mapsto> JsonFile (nodeJson n))) (successorPath st hash kh t) \<noteq> None" for t
  proof (cases "successorPath st hash kh t = ?e")
    case True
    then have "c \<noteq> []" "hash t = hash (rec_token (last c))"
      using root_not_successor [of st kh hash t] by (auto simp: end_path_def successor_inj split: if_splits)
    with toks [of "last c"] dr(1) show ?thesis by auto
  next
    case False
    with that frame [of t] dr(1) show ?thesis by auto
  qed
  have "\<forall>r \<in> set (c @ [Version3 n]). rec_token r \<in> dr'" using toks dr(1) by auto
  moreover have "\<forall>r \<in> set (c @ [Version3 n]). \<forall>ow. rec_owner r = Some ow \<longrightarrow> ow \<in> dr'"
    using owns dr(1,3) by auto
  moreover have "legal st kh (c @ [Version3 n])" using leg app by (rule legal_append)
  ultimately show ?thesis
    unfolding files_inv_def claimPath_end using rep' frame' dr(2) by blast
qed

text \<open>The two shapes of a step: one that leaves the files, and one that links the next record.\<close>

definition simulates :: "FileStore \<Rightarrow> (string \<Rightarrow> string) \<Rightarrow> string \<Rightarrow> StoredClaimRecord list \<Rightarrow> journal_sys \<Rightarrow> bool" where
  "simulates st hash kh c s' \<longleftrightarrow>
     sys_inv st hash kh s' c \<or> (\<exists>n. may_append st kh c n \<and> sys_inv st hash kh s' (c @ [Version3 n]))"

lemma quiet_step:
  assumes "sys_inv st hash kh s c" "disk s' = disk s" "drawn s \<subseteq> drawn s'" "[] \<notin> drawn s'"
    and "\<And>j. pcs s' j = pcs s j \<or> pc_ok c (pcs s' j)"
  shows "simulates st hash kh c s'"
  using assms files_inv_draw unfolding simulates_def sys_inv_def by metis

lemma link_step:
  assumes inv: "sys_inv st hash kh s c" and kh: "hex64 kh"
    and head: "case head of None \<Rightarrow> True | Some r \<Rightarrow> r \<in> set c"
    and ok: "disk s (claimPath st hash kh head) = None"
    and app: "head = last_record c \<Longrightarrow> may_append st kh c n"
    and fresh: "n_token n \<noteq> []" "hash (n_token n) \<notin> hash ` drawn s"
    and disk: "disk s' = (disk s)(claimPath st hash kh head \<mapsto> JsonFile (nodeJson n))"
    and dr: "insert (n_token n) (drawn s) \<subseteq> drawn s'" "[] \<notin> drawn s'"
      "\<And>ow. n_ownerToken n = Some ow \<Longrightarrow> ow \<in> drawn s'"
    and pcs: "\<And>j. pcs s' j = pcs s j \<or> pc_ok (c @ [Version3 n]) (pcs s' j)"
  shows "simulates st hash kh c s'"
proof -
  from inv have files: "files_inv st hash kh (disk s) (drawn s) c" and old: "\<And>j. pc_ok c (pcs s j)"
    by (simp_all add: sys_inv_def)
  from files have "represents st hash kh (disk s) c" by (simp add: files_inv_def)
  from link_iff_last [OF this head] ok have h: "head = last_record c" by simp
  with app have app: "may_append st kh c n" by simp
  have "files_inv st hash kh (disk s') (drawn s') (c @ [Version3 n])"
    unfolding disk h by (rule files_inv_link [OF files kh app fresh dr])
  moreover have "pc_ok (c @ [Version3 n]) (pcs s' j)" for j
    using pcs [of j] pc_ok_mono [OF old [of j], of "c @ [Version3 n]"] by (auto simp: subset_insertI)
  ultimately show ?thesis using app by (auto simp: simulates_def sys_inv_def)
qed

lemma may_append_claim:
  "claimReply (last_record c) now = None \<Longrightarrow> Some ow \<notin> rec_owner ` set c \<Longrightarrow>
     may_append st kh c (claimNode st kh (map_option rec_token (last_record c)) ow tok now)"
  by (simp add: may_append_def claimNode_def)

lemma owned_path:
  assumes "represents st hash kh fs c" "owned_in c ht ow"
  obtains r where "r \<in> set c" "rec_token r = ht" "ownedHead (Some r) ow"
    "successorPath st hash kh ht = claimPath st hash kh (Some r)"
  using assms by (auto simp: owned_in_def)

text \<open>Linking a claim after the remembered head, and linking after a head owned by \<open>ow\<close>.\<close>

lemma claim_link_step:
  assumes inv: "sys_inv st hash kh s c" and kh: "hex64 kh" and pc: "pcs s i = ClaimWrite ttl head now"
    and fr: "fresh_token hash s ow" "fresh_token hash (draw [ow] s) tok"
    and node: "node = claimNode st kh (map_option rec_token head) ow tok now"
    and ok: "link_ok (claimPath st hash kh head) node s"
    and s': "disk s' = disk (link_file (claimPath st hash kh head) node s)" "drawn s' = {ow, tok} \<union> drawn s"
      "\<And>j. pcs s' j = (if j = i then x else pcs s j)"
    and x: "\<And>d. set d = insert (Version3 node) (set c) \<Longrightarrow> pc_ok d x"
  shows "simulates st hash kh c s'"
proof -
  from inv pc have pcok: "pc_ok c (ClaimWrite ttl head now)" unfolding sys_inv_def by metis
  then have reply: "head = last_record c \<Longrightarrow> claimReply (last_record c) now = None" by auto
  from inv have files: "files_inv st hash kh (disk s) (drawn s) c" by (simp add: sys_inv_def)
  then have new: "Some ow \<notin> rec_owner ` set c" using fr(1) unfolding files_inv_def fresh_token_def by force
  show ?thesis
  proof (rule link_step [OF inv kh, of head node])
  show "case head of None \<Rightarrow> True | Some r \<Rightarrow> r \<in> set c" using pcok by simp
  show "may_append st kh c node" if "head = last_record c"
    using may_append_claim [OF reply [OF that] new] that node by simp
  show "disk s (claimPath st hash kh head) = None" using ok by (simp add: sys_defs split: if_splits)
  then show "disk s' = (disk s)(claimPath st hash kh head \<mapsto> JsonFile (nodeJson node))"
    using s'(1) by (simp add: sys_defs)
  show "n_token node \<noteq> []" "hash (n_token node) \<notin> hash ` drawn s" "insert (n_token node) (drawn s) \<subseteq> drawn s'"
    "\<And>q. n_ownerToken node = Some q \<Longrightarrow> q \<in> drawn s'"
    using fr node s'(2) by (auto simp: fresh_token_def claimNode_def draw_def)
  show "[] \<notin> drawn s'" using fr files s'(2) by (auto simp: fresh_token_def files_inv_def draw_def)
  show "\<And>j. pcs s' j = pcs s j \<or> pc_ok (c @ [Version3 node]) (pcs s' j)"
    using s'(3) x [of "c @ [Version3 node]"] by auto
  qed
qed

lemma owned_link_step:
  assumes inv: "sys_inv st hash kh s c" and kh: "hex64 kh" and own: "owned_in c ht ow"
    and fr: "fresh_token hash s tok"
    and node: "n_keyHash node = kh" "n_token node = tok" "n_predecessorToken node = Some ht" "n_ownerToken node = Some ow"
    and ok: "link_ok (successorPath st hash kh ht) node s"
    and s': "disk s' = disk (link_file (successorPath st hash kh ht) node s)" "drawn s' = insert tok (drawn s)"
      "\<And>j. pcs s' j = (if j = i then x else pcs s j)"
    and x: "\<And>d. set d = insert (Version3 node) (set c) \<Longrightarrow> pc_ok d x"
  shows "simulates st hash kh c s'"
proof -
  from own obtain r where r: "r \<in> set c" "rec_token r = ht" "ownedHead (Some r) ow"
    by (auto simp: owned_in_def)
  from inv have files: "files_inv st hash kh (disk s) (drawn s) c" by (simp add: sys_inv_def)
  have ow: "rec_owner r = Some ow" using r(3) by (cases r) auto
  show ?thesis
  proof (rule link_step [OF inv kh, of "Some r" node])
    show "case Some r of None \<Rightarrow> True | Some r \<Rightarrow> r \<in> set c" using r(1) by simp
    show "may_append st kh c node" if "Some r = last_record c"
      using that [symmetric] r node by (simp add: may_append_def)
    show "disk s (claimPath st hash kh (Some r)) = None" using ok r(2) by (simp add: sys_defs split: if_splits)
    then show "disk s' = (disk s)(claimPath st hash kh (Some r) \<mapsto> JsonFile (nodeJson node))"
      using s'(1) r(2) by (simp add: sys_defs)
    show "n_token node \<noteq> []" "hash (n_token node) \<notin> hash ` drawn s" "insert (n_token node) (drawn s) \<subseteq> drawn s'"
      using fr node(2) s'(2) by (auto simp: fresh_token_def)
    show "\<And>q. n_ownerToken node = Some q \<Longrightarrow> q \<in> drawn s'"
      using files r(1) ow node(4) s'(2) by (auto simp: files_inv_def)
    show "[] \<notin> drawn s'" using fr files s'(2) by (auto simp: fresh_token_def files_inv_def)
    show "\<And>j. pcs s' j = pcs s j \<or> pc_ok (c @ [Version3 node]) (pcs s' j)"
      using s'(3) x [of "c @ [Version3 node]"] by auto
  qed
qed

lemma read_owned:
  assumes "sys_inv st hash kh s c" "readHead st hash (disk s) kh = Inr (Some r)" "ownedHead (Some r) ow"
  shows "owned_in c (rec_token r) ow"
proof -
  have "represents st hash kh (disk s) c" using assms(1) by (simp add: sys_inv_def files_inv_def)
  from readHead_last [OF this assms(2)] have "r \<in> set c" by (auto simp: last_record_def split: if_splits)
  with assms(3) show ?thesis by (auto simp: owned_in_def)
qed

lemma link_file_cases: "link_file p n s = s \<or> link_ok p n s"
  by (simp add: sys_defs)

lemma closingNode_simps [simp]:
  "n_keyHash (closingNode kh k ht ow tok e) = kh" "n_token (closingNode kh k ht ow tok e) = tok"
  "n_predecessorToken (closingNode kh k ht ow tok e) = Some ht"
  "n_ownerToken (closingNode kh k ht ow tok e) = Some ow" "n_kind (closingNode kh k ht ow tok e) = k"
  by (simp_all add: closingNode_def)

lemma claimNode_simps [simp]:
  "n_keyHash (claimNode st kh p ow tok now) = kh" "n_token (claimNode st kh p ow tok now) = tok"
  "n_predecessorToken (claimNode st kh p ow tok now) = p"
  "n_ownerToken (claimNode st kh p ow tok now) = Some ow" "n_kind (claimNode st kh p ow tok now) = claim_node"
  "n_expiresAt (claimNode st kh p ow tok now) = now + processingLeaseMs st"
  by (simp_all add: claimNode_def)

lemma jstep_simulates:
  assumes step: "jstep st hash kh proc s s'" and inv: "sys_inv st hash kh s c" and kh: "hex64 kh"
  shows "simulates st hash kh c s'"
proof -
  from inv have nil: "[] \<notin> drawn s" by (simp add: sys_inv_def files_inv_def)
  have ok: "pc_ok c (pcs s i)" for i using inv by (simp add: sys_inv_def)
  have quiet: "disk s' = disk s \<Longrightarrow> drawn s \<subseteq> drawn s' \<Longrightarrow> [] \<notin> drawn s' \<Longrightarrow>
      (\<And>j. pcs s' j = pcs s j \<or> pc_ok c (pcs s' j)) \<Longrightarrow> simulates st hash kh c s'"
    using inv by (rule quiet_step)
  note sim = quiet nil
  from step show ?thesis
  proof cases
    case (tick t)
    with nil show ?thesis by (intro quiet) auto
  next
    case (claim_read i ttl head)
    from inv have "represents st hash kh (disk s) c" by (simp add: sys_inv_def files_inv_def)
    from readHead_last [OF this] claim_read have "head = last_record c" by blast
    with claim_read nil show ?thesis
      by (intro quiet) (auto simp: sys_defs last_record_def)
  next
    case (claim_link i ttl head now ow tok node)
    show ?thesis
      by (rule claim_link_step [OF inv kh claim_link(2-6), where x = "Returned (Granted ow)"])
        (use claim_link in \<open>auto simp: sys_defs\<close>)
  next
    case (claim_io_error i ttl head now ow tok node s1 e)
    show ?thesis
    proof (cases "s1 = s")
      case True
      with claim_io_error nil show ?thesis by (intro quiet) (auto simp: sys_defs fresh_token_def)
    next
      case False
      with claim_io_error(6) link_file_cases [of "claimPath st hash kh head" node s]
      have "link_ok (claimPath st hash kh head) node s" "s1 = link_file (claimPath st hash kh head) node s" by auto
      then show ?thesis
        by (intro claim_link_step [OF inv kh claim_io_error(2-5), where x = "Returned (Failed e)"])
          (use claim_io_error in \<open>auto simp: sys_defs\<close>)
    qed
  next
    case (close_read i kind ow ttl head)
    with ok [of i] read_owned [OF inv close_read(3,4)] nil show ?thesis
      by (intro quiet) (auto simp: sys_defs)
  next
    case (close_link i kind ow ttl ht expires tok node)
    from ok [of i] close_link(2) have "owned_in c ht ow" "kind \<noteq> claim_node" by auto
    then show ?thesis
      by (intro owned_link_step [OF inv kh _ close_link(3), where x = "Returned (Resolved kind)"])
        (use close_link in \<open>auto simp: sys_defs\<close>)
  next
    case (close_io_error i kind ow ttl ht expires tok node s1 e)
    from ok [of i] close_io_error(2) have own: "owned_in c ht ow" "kind \<noteq> claim_node" by auto
    show ?thesis
    proof (cases "s1 = s")
      case True
      with close_io_error nil show ?thesis by (intro quiet) (auto simp: sys_defs fresh_token_def)
    next
      case False
      with close_io_error(5) link_file_cases [of "successorPath st hash kh ht" node s]
      have "link_ok (successorPath st hash kh ht) node s" "s1 = link_file (successorPath st hash kh ht) node s" by auto
      with own show ?thesis
        by (intro owned_link_step [OF inv kh _ close_io_error(3), where x = "Returned (Failed e)"])
          (use close_io_error in \<open>auto simp: sys_defs\<close>)
    qed
  next
    case (renew_read i ow head)
    with ok [of i] read_owned [OF inv renew_read(4,5)] nil show ?thesis
      by (intro quiet) (auto simp: sys_defs)
  next
    case (renew_link i ow ht now tok node)
    from ok [of i] renew_link(2) have "owned_in c ht ow" by auto
    then show ?thesis
      by (intro owned_link_step [OF inv kh _ renew_link(3), where x = "Returned Renewed"])
        (use renew_link in \<open>auto simp: sys_defs\<close>)
  next
    case (renew_io_error i ow ht now tok node s1)
    from ok [of i] renew_io_error(2) have own: "owned_in c ht ow" by auto
    show ?thesis
    proof (cases "s1 = s")
      case True
      with renew_io_error nil show ?thesis by (intro quiet) (auto simp: sys_defs fresh_token_def)
    next
      case False
      with renew_io_error(5) link_file_cases [of "successorPath st hash kh ht" node s]
      have "link_ok (successorPath st hash kh ht) node s" "s1 = link_file (successorPath st hash kh ht) node s" by auto
      with own show ?thesis
        by (intro owned_link_step [OF inv kh _ renew_io_error(3), where x = "Returned Renewed"])
          (use renew_io_error in \<open>auto simp: sys_defs\<close>)
    qed
  next
    case (close_lost i kind ow ttl head)
    with nil show ?thesis by (intro quiet) (auto simp: sys_defs)
  next
    case (close_retry i kind ow ttl ht expires node)
    with ok [of i] nil show ?thesis by (intro quiet) (auto simp: sys_defs)
  qed (use nil in \<open>(intro quiet; auto simp: sys_defs)+\<close>)
qed

lemma jinit_sys_inv: "jinit st kh s \<Longrightarrow> \<exists>c. sys_inv st hash kh s c"
  unfolding jinit_def
proof (elim conjE disjE exE)
  assume "pcs s = (\<lambda>_. Idle)" "drawn s = {}" "disk s = (\<lambda>_. None)"
  then have "sys_inv st hash kh s []" by (simp add: sys_inv_def files_inv_def legal_empty)
  then show ?thesis ..
next
  fix j r
  assume s: "pcs s = (\<lambda>_. Idle)" "drawn s = {l_token r}" "disk s = [rootPath st kh \<mapsto> JsonFile j]"
    and j: "isClaimRecord j" "j \<noteq> JNull" "storedClaim j = Version1 r" "l_keyHash r = kh"
  from j(1,3) have "l_token r \<noteq> []"
    by (auto simp: isClaimRecord_def storedClaim_def nonempty_string_def Let_def split: if_splits option.splits)
  with s j have "sys_inv st hash kh s [Version1 r]"
    using root_not_successor [of st kh hash]
    by (auto simp: sys_inv_def files_inv_def legal_legacy readClaim_def readJson_def root_not_successor [symmetric])
  then show ?thesis ..
qed

lemma jreachable_inv:
  "jreachable st hash kh proc s \<Longrightarrow> hex64 kh \<Longrightarrow> \<exists>c. sys_inv st hash kh s c"
proof (induction rule: jreachable.induct)
  case (start s)
  then show ?case by (blast intro: jinit_sys_inv)
next
  case (step s s')
  then obtain c where "sys_inv st hash kh s c" by blast
  from jstep_simulates [OF step(2) this step.prems] show ?case by (auto simp: simulates_def)
qed

lemma sys_inv_represents: "sys_inv st hash kh s c \<Longrightarrow> represents st hash kh (disk s) c"
  and sys_inv_legal: "sys_inv st hash kh s c \<Longrightarrow> legal st kh c"
  and sys_inv_pc: "sys_inv st hash kh s c \<Longrightarrow> pc_ok c (pcs s i)"
  by (simp_all add: sys_inv_def files_inv_def)

lemma reachable_journal:
  assumes "jreachable st hash kh proc s" "hex64 kh" "represents st hash kh (disk s) c"
  shows "sys_inv st hash kh s c"
  using jreachable_inv [OF assms(1,2)] chain_at_unique [OF assms(3)] sys_inv_represents by metis

section \<open>Legal journals\<close>

lemma legal_nth:
  "legal st kh c \<Longrightarrow> i < length c \<Longrightarrow> c ! i = Version3 n \<Longrightarrow> may_append st kh (take i c) n"
proof (induction arbitrary: i n rule: legal.induct)
  case (legal_append c m)
  then show ?case by (cases "i < length c") (auto simp: nth_append less_Suc_eq)
qed auto

lemma ownedHead_owner: "ownedHead (Some r) ow \<Longrightarrow> rec_owner r = Some ow"
  by (cases r) auto

lemma legal_legacy_first: "legal st kh c \<Longrightarrow> i < length c \<Longrightarrow> c ! i = Version1 r \<Longrightarrow> i = 0"
  by (induction rule: legal.induct) (auto simp: nth_append less_Suc_eq split: if_splits)

lemma linked_behind_owner:
  assumes inv: "sys_inv st hash kh s c" and kh: "hex64 kh" and own: "owned_in c ht ow" and fr: "fresh_token hash s tok"
    and node: "n_keyHash node = kh" "n_token node = tok" "n_predecessorToken node = Some ht" "n_ownerToken node = Some ow"
    and ok: "link_ok (successorPath st hash kh ht) node s"
  shows "\<exists>r. last_record c = Some r \<and> ownedHead (Some r) ow \<and> rec_token r = ht \<and>
    represents st hash kh (disk (link_file (successorPath st hash kh ht) node s)) (c @ [Version3 node])"
proof -
  from own obtain r where r: "r \<in> set c" "rec_token r = ht" "ownedHead (Some r) ow" by (auto simp: owned_in_def)
  from inv have files: "files_inv st hash kh (disk s) (drawn s) c" by (simp add: sys_inv_def)
  have free: "disk s (claimPath st hash kh (Some r)) = None" using ok r(2) by (simp add: sys_defs split: if_splits)
  with link_iff_last [OF sys_inv_represents [OF inv], of "Some r"] r(1) have l: "last_record c = Some r" by simp
  then have app: "may_append st kh c node" using r node by (simp add: may_append_def)
  have "rec_owner r = Some ow" using r(3) by (rule ownedHead_owner)
  with files r(1) have ow: "ow \<in> drawn s" by (auto simp: files_inv_def)
  have "files_inv st hash kh ((disk s)(claimPath st hash kh (last_record c) \<mapsto> JsonFile (nodeJson node)))
      (insert tok (drawn s)) (c @ [Version3 node])"
    by (rule files_inv_link [OF files kh app]) (use fr files node ow in \<open>auto simp: fresh_token_def files_inv_def\<close>)
  moreover have "disk (link_file (successorPath st hash kh ht) node s) =
      (disk s)(claimPath st hash kh (last_record c) \<mapsto> JsonFile (nodeJson node))"
    using free r(2) by (simp add: sys_defs l)
  ultimately show ?thesis using l r(2,3) by (simp add: files_inv_def)
qed

text \<open>Nothing follows the record that closes an ownership under the same owner token.\<close>

lemma closed_forever:
  assumes "legal st kh c" "i < j" "j < length c" "c ! i = Version3 n" "n_kind n \<noteq> claim_node"
  shows "rec_owner (c ! j) \<noteq> n_ownerToken n"
  using assms
proof (induction arbitrary: i j rule: legal.induct)
  case (legal_append c m)
  obtain ow where ow: "n_ownerToken n = Some ow"
    using legal_nth [OF legal_append(1), of i n] legal_append.prems
    by (auto simp: may_append_def nth_append split: option.splits if_splits)
  show ?case
  proof (cases "j < length c")
    case True
    with legal_append show ?thesis by (simp add: nth_append)
  next
    case False
    with legal_append.prems have j: "j = length c" and i: "i < length c" "c ! i = Version3 n"
      by (auto simp: nth_append)
    have ci: "Version3 n \<in> set c" using i by (metis nth_mem)
    show ?thesis
    proof
      assume "rec_owner ((c @ [Version3 m]) ! j) = n_ownerToken n"
      with j ow have "n_ownerToken m = Some ow" by simp
      with legal_append(2) consider "ownedHead (last_record c) ow" | "Some ow \<notin> rec_owner ` set c"
        by (auto simp: may_append_def)
      then show False
      proof cases
        case 1
        with i have l: "ownedHead (Some (c ! (length c - 1))) ow"
          by (auto simp: last_record_def last_conv_nth split: if_splits)
        with i legal_append.prems(4) have "i \<noteq> length c - 1" by auto
        with i have "i < length c - 1" by simp
        with i legal_append.prems(4) have "rec_owner (c ! (length c - 1)) \<noteq> n_ownerToken n"
          by (intro legal_append.IH) auto
        with ownedHead_owner [OF l] ow show False by simp
      next
        case 2
        with ci ow show False by force
      qed
    qed
  qed
qed auto

text \<open>Ownership passes to another token only by a claim that found the last record open to it.\<close>

lemma ownership_change:
  assumes "legal st kh c" "Suc i < length c" "c ! Suc i = Version3 n" "rec_owner (c ! i) \<noteq> n_ownerToken n"
  shows "n_kind n = claim_node \<and> claimReply (Some (c ! i)) (n_expiresAt n - processingLeaseMs st) = None"
proof -
  have last: "last_record (take (Suc i) c) = Some (c ! i)"
    using assms(2) by (simp add: take_Suc_conv_app_nth)
  show ?thesis
    using legal_nth [OF assms(1,2,3)] assms(4) unfolding may_append_def last
    by (auto split: option.splits dest: ownedHead_owner)
qed

lemma closing_follows_owner:
  assumes "legal st kh c" "i < length c" "c ! i = Version3 n" "n_kind n \<noteq> claim_node"
  shows "0 < i \<and> (\<exists>ow. n_ownerToken n = Some ow \<and> ownedHead (Some (c ! (i - 1))) ow)"
  using legal_nth [OF assms(1-3)] assms(2,4)
  by (cases i) (auto simp: may_append_def take_Suc_conv_app_nth split: option.splits)

section \<open>Reading while others append\<close>

text \<open>
  \<open>readHead\<close> awaits every file, so the files may grow between two reads. \<open>view k\<close> is the
  directory as the \<open>k\<close>-th read of the call sees it.
\<close>

fun readChainOver :: "FileStore \<Rightarrow> (string \<Rightarrow> string) \<Rightarrow> (nat \<Rightarrow> files) \<Rightarrow> string \<Rightarrow> nat \<Rightarrow> nat \<Rightarrow> StoredClaimRecord \<Rightarrow>
    exn + StoredClaimRecord" where
  "readChainOver st hash view keyHash k 0 current =
     Inl (Error (''Idempotency claim chain exceeds 100000 records for '' @ keyHash))"
| "readChainOver st hash view keyHash k (Suc depth) current =
     (case readClaim (view k) (successorPath st hash keyHash (rec_token current)) keyHash of
        Inl e \<Rightarrow> Inl e
      | Inr None \<Rightarrow> Inr current
      | Inr (Some (Version1 _)) \<Rightarrow> Inl (Error (''Invalid idempotency successor for '' @ keyHash))
      | Inr (Some (Version3 next)) \<Rightarrow>
          if n_predecessorToken next \<noteq> Some (rec_token current)
          then Inl (Error (''Invalid idempotency successor for '' @ keyHash))
          else readChainOver st hash view keyHash (Suc k) depth (Version3 next))"

definition readHeadOver :: "FileStore \<Rightarrow> (string \<Rightarrow> string) \<Rightarrow> (nat \<Rightarrow> files) \<Rightarrow> string \<Rightarrow> exn + StoredClaimRecord option" where
  "readHeadOver st hash view keyHash = (case readClaim (view 0) (rootPath st keyHash) keyHash of
       Inl e \<Rightarrow> Inl e
     | Inr None \<Rightarrow> Inr None
     | Inr (Some current) \<Rightarrow>
         (case readChainOver st hash view keyHash 1 MAX_CLAIM_CHAIN_DEPTH current of
            Inl e \<Rightarrow> Inl e | Inr head \<Rightarrow> Inr (Some head)))"

lemma readClaim_map_le:
  "readClaim fs p kh = Inr (Some r) \<Longrightarrow> fs \<subseteq>\<^sub>m gs \<Longrightarrow> readClaim gs p kh = Inr (Some r)"
proof -
  assume r: "readClaim fs p kh = Inr (Some r)" and le: "fs \<subseteq>\<^sub>m gs"
  from readClaim_present [OF r] le have "gs p = fs p" by (auto simp: map_le_def dom_def)
  with r readClaim_same [of gs p fs kh] show ?thesis by simp
qed

lemma views_grow:
  assumes "\<And>k. view k \<subseteq>\<^sub>m view (Suc k)" "(m::nat) \<le> n"
  shows "view m \<subseteq>\<^sub>m view n"
  using assms(2) by (induction n rule: dec_induct) (auto intro: map_le_trans assms(1))

lemma readChainOver_final:
  assumes grow: "\<And>k. view k \<subseteq>\<^sub>m view (Suc k)"
  shows "readChainOver st hash view kh k d r = Inr h \<Longrightarrow> \<exists>n \<ge> k. readChain st hash (view n) kh d r = Inr h"
proof (induction d arbitrary: k r)
  case (Suc d)
  show ?case
  proof (cases "readClaim (view k) (successorPath st hash kh (rec_token r)) kh = Inr None")
    case True
    with Suc.prems show ?thesis by (intro exI [of _ k]) simp
  next
    case False
    with Suc.prems obtain x where x: "readClaim (view k) (successorPath st hash kh (rec_token r)) kh = Inr (Some (Version3 x))"
      "n_predecessorToken x = Some (rec_token r)" "readChainOver st hash view kh (Suc k) d (Version3 x) = Inr h"
      by (auto split: sum.splits option.splits StoredClaimRecord.splits if_splits)
    from Suc.IH [OF x(3)] obtain n where n: "Suc k \<le> n" "readChain st hash (view n) kh d (Version3 x) = Inr h" by blast
    have "view k \<subseteq>\<^sub>m view n" by (rule views_grow [of view]) (use grow n(1) in auto)
    from readClaim_map_le [OF x(1) this] x(2) n show ?thesis by (intro exI [of _ n]) simp
  qed
qed simp

section \<open>An example run\<close>

text \<open>Process 0 claims a key (call 0) and completes it (call 1); after the lifetime of the
  completion process 1 claims it (call 2).\<close>

definition jx_store :: FileStore where
  "jx_store = \<lparr>rootDir = ''d'', filePrefix = [], processingLeaseMs = 60000, heartbeatIntervalMs = 20000\<rparr>"

definition jx_key :: string where
  "jx_key = replicate 64 (CHR ''a'')"

definition jx_proc :: "nat \<Rightarrow> nat" where
  "jx_proc i = (if i = 2 then 1 else 0)"

definition jx_claim :: ClaimJournalNode where
  "jx_claim = claimNode jx_store jx_key None ''o1'' ''t1'' 0"

definition jx_completion :: ClaimJournalNode where
  "jx_completion = closingNode jx_key completed_node ''t1'' ''o1'' ''t2'' 5000"

definition jx_takeover :: ClaimJournalNode where
  "jx_takeover = claimNode jx_store jx_key (Some ''t2'') ''o2'' ''t3'' 5000"

abbreviation jx_succ where "jx_succ \<equiv> successorPath jx_store id jx_key"

definition jx_start :: journal_sys where
  "jx_start = \<lparr>disk = (\<lambda>_. None), time = 0, owner = (\<lambda>_. None), pcs = (\<lambda>_. Idle), drawn = {}\<rparr>"

definition jx_reading :: journal_sys where
  "jx_reading = set_pc 0 (ClaimWrite 5000 None 0) (set_pc 0 (Claiming 5000) jx_start)"

definition jx_granted :: journal_sys where
  "jx_granted = set_pc 0 (Returned (Granted ''o1'')) (set_owner 0 (Some (newOwner ''o1'' 5000))
     (draw [''o1'', ''t1''] (link_file (rootPath jx_store jx_key) jx_claim jx_reading)))"

definition jx_closing :: journal_sys where
  "jx_closing = set_pc 1 (Closing completed_node ''o1'' 5000)
     (set_owner 0 (Some ((newOwner ''o1'' 5000)\<lparr>closing := True, timer := False\<rparr>)) jx_granted)"

definition jx_completed :: journal_sys where
  "jx_completed = set_pc 1 (Returned (Resolved completed_node)) (set_owner 0 None
     (draw [''t2''] (link_file (jx_succ ''t1'') jx_completion
       (set_pc 1 (CloseWrite completed_node ''o1'' 5000 ''t1'' 5000) jx_closing))))"

definition jx_later :: journal_sys where
  "jx_later = set_pc 2 (Claiming 5000) (jx_completed\<lparr>time := 5000\<rparr>)"

definition jx_taken :: journal_sys where
  "jx_taken = set_pc 2 (Returned (Granted ''o2'')) (set_owner 1 (Some (newOwner ''o2'' 5000))
     (draw [''o2'', ''t3''] (link_file (jx_succ ''t2'') jx_takeover
       (set_pc 2 (ClaimWrite 5000 (Some (Version3 jx_completion)) 5000) jx_later))))"

lemmas jx_states = jx_start_def jx_reading_def jx_granted_def jx_closing_def jx_completed_def jx_later_def jx_taken_def
lemmas jx_nodes = jx_claim_def jx_completion_def jx_takeover_def

lemma jx_hex [simp]: "hex64 jx_key"
  by (simp add: hex64_def jx_key_def hex_digit_def list_all_iff)

lemma jx_node_facts [simp]:
  "wf_node jx_claim" "wf_node jx_completion" "wf_node jx_takeover"
  "n_keyHash jx_claim = jx_key" "n_keyHash jx_completion = jx_key" "n_keyHash jx_takeover = jx_key"
  "n_token jx_claim = ''t1''" "n_token jx_completion = ''t2''" "n_token jx_takeover = ''t3''"
  "n_predecessorToken jx_claim = None" "n_predecessorToken jx_completion = Some ''t1''"
  "n_predecessorToken jx_takeover = Some ''t2''"
  by (simp_all add: jx_nodes wf_node_def)

lemma jx_disk:
  "disk jx_reading = (\<lambda>_. None)"
  "disk jx_granted = [rootPath jx_store jx_key \<mapsto> JsonFile (nodeJson jx_claim)]"
  "disk jx_closing = [rootPath jx_store jx_key \<mapsto> JsonFile (nodeJson jx_claim)]"
  "disk jx_completed = [rootPath jx_store jx_key \<mapsto> JsonFile (nodeJson jx_claim),
     jx_succ ''t1'' \<mapsto> JsonFile (nodeJson jx_completion)]"
  "disk jx_later = disk jx_completed"
  "disk jx_taken = [rootPath jx_store jx_key \<mapsto> JsonFile (nodeJson jx_claim),
     jx_succ ''t1'' \<mapsto> JsonFile (nodeJson jx_completion), jx_succ ''t2'' \<mapsto> JsonFile (nodeJson jx_takeover)]"
  using root_not_successor [of jx_store jx_key id]
  by (auto simp: jx_states sys_defs successor_inj root_not_successor [symmetric])

lemma jx_chains:
  "represents jx_store id jx_key (disk jx_reading) []"
  "represents jx_store id jx_key (disk jx_closing) [Version3 jx_claim]"
  "represents jx_store id jx_key (disk jx_completed) [Version3 jx_claim, Version3 jx_completion]"
  "represents jx_store id jx_key (disk jx_taken) [Version3 jx_claim, Version3 jx_completion, Version3 jx_takeover]"
  by (simp_all add: jx_disk readClaim_node successor_inj root_not_successor root_not_successor [symmetric])

lemma jx_heads:
  "readHead jx_store id (\<lambda>_. None) jx_key = Inr None"
  "readHead jx_store id (disk jx_closing) jx_key = Inr (Some (Version3 jx_claim))"
  "readHead jx_store id (disk jx_completed) jx_key = Inr (Some (Version3 jx_completion))"
  using readHead_total [OF jx_chains(1)] readHead_total [OF jx_chains(2)] readHead_total [OF jx_chains(3)]
  by (simp_all add: jx_disk(1) MAX_CLAIM_CHAIN_DEPTH_def)

lemma jx_reach_reading: "jreachable jx_store id jx_key jx_proc jx_reading"
proof -
  let ?r = "jreachable jx_store id jx_key jx_proc"
  have "?r jx_start" by (rule jreachable.start) (simp add: jinit_def jx_start_def)
  then have "?r (set_pc 0 (Claiming 5000) jx_start)"
    by (rule jreachable.step) (rule jstep.claim_start, auto simp: jx_start_def jx_proc_def)
  moreover have "jstep jx_store id jx_key jx_proc (set_pc 0 (Claiming 5000) jx_start)
      (set_pc 0 (ClaimWrite 5000 None (time (set_pc 0 (Claiming 5000) jx_start))) (set_pc 0 (Claiming 5000) jx_start))"
    by (rule jstep.claim_read) (auto simp: jx_start_def sys_defs jx_heads)
  ultimately show ?thesis unfolding jx_reading_def
    by (metis (no_types, lifting) jreachable.step jx_start_def journal_sys.select_convs(2) set_pc_def journal_sys.simps(10))
qed

lemma jx_reach_granted: "jreachable jx_store id jx_key jx_proc jx_granted"
proof (rule jreachable.step [OF jx_reach_reading])
  have "jstep jx_store id jx_key jx_proc jx_reading (set_pc 0 (Returned (Granted ''o1''))
      (set_owner (jx_proc 0) (Some (newOwner ''o1'' 5000)) (draw [''o1'', ''t1'']
        (link_file (claimPath jx_store id jx_key None) jx_claim jx_reading))))"
    by (rule jstep.claim_link [where now = 0])
       (auto simp: jx_states sys_defs fresh_token_def jx_claim_def)
  then show "jstep jx_store id jx_key jx_proc jx_reading jx_granted"
    by (simp add: jx_granted_def jx_proc_def)
qed

lemma jx_reach_closing: "jreachable jx_store id jx_key jx_proc jx_closing"
proof (rule jreachable.step [OF jx_reach_granted])
  have "jstep jx_store id jx_key jx_proc jx_granted (set_pc 1 (Closing completed_node
      (ownerToken (newOwner ''o1'' 5000)) (ttlMs (newOwner ''o1'' 5000)))
      (set_owner (jx_proc 1) (Some ((newOwner ''o1'' 5000)\<lparr>closing := True, timer := False\<rparr>)) jx_granted))"
    by (rule jstep.close_start) (auto simp: jx_states sys_defs jx_proc_def)
  then show "jstep jx_store id jx_key jx_proc jx_granted jx_closing"
    by (simp add: jx_closing_def jx_proc_def newOwner_def)
qed

definition jx_writing :: journal_sys where
  "jx_writing = set_pc 1 (CloseWrite completed_node ''o1'' 5000 ''t1'' 5000) jx_closing"

lemma jx_reach_writing: "jreachable jx_store id jx_key jx_proc jx_writing"
proof -
  have time: "time jx_closing = 0" by (simp add: jx_states sys_defs)
  have "jstep jx_store id jx_key jx_proc jx_closing (set_pc 1 (CloseWrite completed_node ''o1'' 5000
      (rec_token (Version3 jx_claim)) (if completed_node = completed_node then time jx_closing + 5000 else 0)) jx_closing)"
    using jx_heads(2)
    by (intro jstep.close_read [where head = "Version3 jx_claim"]) (auto simp: jx_closing_def set_pc_def jx_claim_def)
  then show ?thesis using jreachable.step [OF jx_reach_closing] by (simp add: time jx_writing_def)
qed

lemma jx_completing: "jstep jx_store id jx_key jx_proc jx_writing jx_completed"
proof -
  have "jstep jx_store id jx_key jx_proc jx_writing (set_pc 1 (Returned (Resolved completed_node))
      (set_owner (jx_proc 1) None (draw [''t2''] (link_file (jx_succ ''t1'') jx_completion jx_writing))))"
    using jx_disk(3) root_not_successor [of jx_store jx_key id]
    by (intro jstep.close_link [where expires = 5000])
       (auto simp: sys_defs fresh_token_def jx_completion_def jx_writing_def jx_closing_def jx_granted_def jx_reading_def
         jx_start_def root_not_successor [symmetric])
  then show ?thesis by (simp add: jx_completed_def jx_writing_def jx_proc_def)
qed

lemma jx_reach_completed: "jreachable jx_store id jx_key jx_proc jx_completed"
  by (rule jreachable.step [OF jx_reach_writing jx_completing])

lemma jx_reach_taken: "jreachable jx_store id jx_key jx_proc jx_taken"
proof -
  let ?r = "jreachable jx_store id jx_key jx_proc"
  let ?c = "jx_completed\<lparr>time := 5000\<rparr>"
  let ?s = "set_pc 2 (ClaimWrite 5000 (Some (Version3 jx_completion)) 5000) jx_later"
  have "jstep jx_store id jx_key jx_proc jx_completed ?c"
    by (rule jstep.tick) (simp add: jx_states sys_defs)
  with jx_reach_completed have "?r ?c" by (rule jreachable.step)
  moreover have "jstep jx_store id jx_key jx_proc ?c jx_later"
    unfolding jx_later_def by (rule jstep.claim_start) (auto simp: jx_states sys_defs jx_proc_def)
  ultimately have "?r jx_later" by (rule jreachable.step)
  moreover have "jstep jx_store id jx_key jx_proc jx_later
      (set_pc 2 (ClaimWrite 5000 (Some (Version3 jx_completion)) (time jx_later)) jx_later)"
    by (rule jstep.claim_read) (auto simp: jx_disk(5) jx_heads jx_completion_def closingNode_def jx_later_def set_pc_def)
  moreover have "time jx_later = 5000" by (simp add: jx_later_def set_pc_def)
  ultimately have "?r ?s" by (metis jreachable.step)
  moreover have "jstep jx_store id jx_key jx_proc ?s (set_pc 2 (Returned (Granted ''o2''))
      (set_owner (jx_proc 2) (Some (newOwner ''o2'' 5000)) (draw [''o2'', ''t3'']
        (link_file (claimPath jx_store id jx_key (Some (Version3 jx_completion))) jx_takeover ?s))))"
    by (rule jstep.claim_link [where now = 5000])
       (auto simp: sys_defs fresh_token_def jx_takeover_def jx_disk(4) jx_later_def successor_inj
         root_not_successor [symmetric] jx_completed_def jx_closing_def jx_granted_def jx_reading_def jx_start_def)
  ultimately have "?r (set_pc 2 (Returned (Granted ''o2''))
      (set_owner (jx_proc 2) (Some (newOwner ''o2'' 5000)) (draw [''o2'', ''t3'']
        (link_file (claimPath jx_store id jx_key (Some (Version3 jx_completion))) jx_takeover ?s))))"
    by (rule jreachable.step)
  then show ?thesis by (simp add: jx_taken_def jx_proc_def)
qed

section \<open>Properties\<close>

text \<open>C2. Refinement: every step of any reachable state of the racing processes, I/O failures
  included, leaves the journal its files represent as it is or appends one record the
  specification allows. So every reachable directory represents a legal journal.\<close>

theorem journal_steps_refine_legal_appends:
  assumes "jreachable st hash kh proc s" "jstep st hash kh proc s s'" "hex64 kh"
  shows "\<exists>c c'. represents st hash kh (disk s) c \<and> legal st kh c \<and> represents st hash kh (disk s') c'
     \<and> (c' = c \<or> (\<exists>n. may_append st kh c n \<and> c' = c @ [Version3 n]))"
proof -
  from jreachable_inv [OF assms(1,3)] obtain c where c: "sys_inv st hash kh s c" by blast
  from jstep_simulates [OF assms(2) c assms(3)] c show ?thesis
    unfolding simulates_def by (metis sys_inv_represents sys_inv_legal)
qed

text \<open>The link that appends a claim is a compare-and-swap: it succeeds exactly when the head
  the call read is still the last record, so a retry means that another append went through.\<close>

theorem link_is_compare_and_swap:
  assumes "jreachable st hash kh proc s" "hex64 kh" "pcs s i = ClaimWrite ttl head now"
    and "represents st hash kh (disk s) c"
  shows "link_ok (claimPath st hash kh head) node s \<longleftrightarrow> head = last_record c"
proof -
  have "sys_inv st hash kh s c" by (rule reachable_journal [OF assms(1,2,4)])
  from sys_inv_pc [OF this, of i] assms(3) have "case head of None \<Rightarrow> True | Some r \<Rightarrow> r \<in> set c" by simp
  from link_iff_last [OF assms(4) this] show ?thesis by (simp add: link_ok_def writeExclusive_def)
qed

text \<open>C3. What it means that \<open>complete\<close> or \<open>release\<close> resolves, over every reachable run: the process holds
  no claim afterwards, and one of three things was the case. The call wrote its record: it is
  the next record of the journal, directly behind a claim of the same owner, and no later state of
  the run has another record of that owner behind it. Or nothing was written, because the process
  held no claim of the key when the call was made. Or nothing was written because the call is a
  \<open>release\<close> that found the claim taken over. So a \<open>complete\<close> that began while its process held the
  claim resolves only when its completion is recorded for good.\<close>

theorem reported_close_is_recorded_once:
  assumes "jreachable st hash kh proc s" "hex64 kh" "jstep st hash kh proc s s'" "represents st hash kh (disk s) c"
    and "pcs s i \<noteq> Returned (Resolved kind)" "pcs s' i = Returned (Resolved kind)"
  shows "owner s' (proc i) = None \<and>
   ((\<exists>ow ttl ht expires n r. pcs s i = CloseWrite kind ow ttl ht expires \<and>
       represents st hash kh (disk s') (c @ [Version3 n]) \<and> n_kind n = kind \<and> n_ownerToken n = Some ow \<and>
       last_record c = Some r \<and> ownedHead (Some r) ow \<and> rec_token r = ht \<and>
       (\<forall>s'' d q. jreachable st hash kh proc s'' \<and> represents st hash kh (disk s'') (c @ Version3 n # d) \<and> q \<in> set d \<longrightarrow>
          rec_owner q \<noteq> Some ow)) \<or>
    (disk s' = disk s \<and> pcs s i = Idle \<and> owner s (proc i) = None) \<or>
    (disk s' = disk s \<and> kind = available_node \<and> (\<exists>ow ttl. pcs s i = Closing kind ow ttl \<and> \<not> ownedHead (last_record c) ow)))"
proof -
  have inv: "sys_inv st hash kh s c" by (rule reachable_journal [OF assms(1,2,4)])
  from assms(3) show ?thesis
  proof cases
    case (close_unowned j k)
    with assms(5,6) show ?thesis by (auto simp: sys_defs split: if_splits)
  next
    case (close_lost j k ow ttl head)
    from readHead_last [OF assms(4) close_lost(3)] have "head = last_record c" .
    with close_lost assms(5,6) sys_inv_pc [OF inv, of j] show ?thesis
      by (cases k) (auto simp: sys_defs split: if_splits)
  next
    case (close_link j k ow ttl ht expires tok node)
    with assms(5,6) have ji: "j = i" "k = kind" by (auto simp: sys_defs split: if_splits)
    from sys_inv_pc [OF inv, of j] close_link(2) have own: "owned_in c ht ow" "kind \<noteq> claim_node" by (auto simp: ji)
    from linked_behind_owner [OF inv assms(2) own(1) close_link(3) _ _ _ _ close_link(5)] close_link(4) obtain r where
      r: "last_record c = Some r" "ownedHead (Some r) ow" "rec_token r = ht"
      "represents st hash kh (disk (link_file (successorPath st hash kh ht) node s)) (c @ [Version3 node])" by auto
    have final: "rec_owner q \<noteq> Some ow"
      if "jreachable st hash kh proc s''" "represents st hash kh (disk s'') (c @ Version3 node # d)" "q \<in> set d" for s'' d q
    proof -
      have leg: "legal st kh (c @ Version3 node # d)" by (rule sys_inv_legal [OF reachable_journal [OF that(1) assms(2) that(2)]])
      from that(3) obtain m where m: "m < length d" "q = d ! m" by (auto simp: in_set_conv_nth)
      from closed_forever [OF leg, of "length c" "Suc (length c + m)" node] m own(2) close_link(4) show ?thesis
        by (simp add: nth_append ji)
    qed
    have "represents st hash kh (disk s') (c @ [Version3 node])" "owner s' (proc i) = None"
      using r(4) close_link(1) by (simp_all add: sys_defs ji)
    moreover have "n_kind node = kind" "n_ownerToken node = Some ow" using close_link(4) ji by simp_all
    ultimately show ?thesis using close_link(2) r(1-3) final ji by blast
  qed (use assms(5,6) in \<open>auto simp: sys_defs split: if_splits\<close>)
qed

text \<open>C4. Exclusion in time: when the record after a claim or a completion belongs to another
  owner, it is a claim that was decided no earlier than the expiry of the record it follows. A
  running lease is not taken over and a completion is not claimed again before its lifetime
  ends.\<close>

theorem takeover_only_after_expiry:
  assumes "jreachable st hash kh proc s" "hex64 kh" "represents st hash kh (disk s) c"
    and "Suc i < length c" "c ! i = Version3 p" "c ! Suc i = Version3 n" "n_ownerToken n \<noteq> n_ownerToken p"
    and "n_kind p \<noteq> available_node"
  shows "n_kind n = claim_node \<and> n_expiresAt p \<le> n_expiresAt n - processingLeaseMs st"
proof -
  have "sys_inv st hash kh s c" by (rule reachable_journal [OF assms(1-3)])
  from ownership_change [OF sys_inv_legal [OF this] assms(4,6)] assms(5,7) have
    "n_kind n = claim_node" "claimReply (Some (Version3 p)) (n_expiresAt n - processingLeaseMs st) = None"
    by auto
  with assms(8) show ?thesis by (cases "n_kind p") (auto split: if_splits)
qed

text \<open>C5. Reading the head never fails on a reachable directory and returns the last record, up to
  the cap of 100000 records; beyond the cap every read, and so every claim, fails.\<close>

theorem head_of_reachable_journal:
  assumes "jreachable st hash kh proc s" "hex64 kh" "represents st hash kh (disk s) c"
  shows "readHead st hash (disk s) kh =
     (if length c \<le> MAX_CLAIM_CHAIN_DEPTH then Inr (last_record c)
      else Inl (Error (''Idempotency claim chain exceeds 100000 records for '' @ kh)))"
  by (rule readHead_total [OF assms(3)])
     (rule legal_linked [OF sys_inv_legal [OF reachable_journal [OF assms]]])

text \<open>C6. The walk to the head, which awaits each file while other processes append, returns what
  one instantaneous walk at one of its reads would return.\<close>

theorem head_read_is_linearizable:
  assumes "\<And>k. view k \<subseteq>\<^sub>m view (Suc k)" "readHeadOver st hash view kh = Inr h"
  shows "\<exists>n. readHead st hash (view n) kh = Inr h"
proof (cases "readClaim (view 0) (rootPath st kh) kh = Inr None")
  case True
  with assms(2) show ?thesis by (intro exI [of _ 0]) (simp add: readHeadOver_def readHead_def)
next
  case False
  with assms(2) obtain r h' where r: "readClaim (view 0) (rootPath st kh) kh = Inr (Some r)"
    "readChainOver st hash view kh 1 MAX_CLAIM_CHAIN_DEPTH r = Inr h'" "h = Some h'"
    by (auto simp: readHeadOver_def split: sum.splits option.splits)
  from readChainOver_final [OF assms(1) r(2)] obtain n
    where n: "readChain st hash (view n) kh MAX_CLAIM_CHAIN_DEPTH r = Inr h'" by blast
  have "readClaim (view n) (rootPath st kh) kh = Inr (Some r)"
    using r(1) by (rule readClaim_map_le) (rule views_grow [of view], use assms(1) in auto)
  with n r(3) show ?thesis by (intro exI [of _ n]) (simp add: readHead_def)
qed

text \<open>Every node the store writes is accepted when it is read back, with the same fields.\<close>

theorem journal_node_round_trip:
  assumes "wf_node n"
  shows "isClaimRecord (nodeJson n) \<and> storedClaim (nodeJson n) = Version3 n"
  using assms by (simp add: isClaimRecord_nodeJson storedClaim_nodeJson)

section \<open>The properties at the example run\<close>

theorem journal_steps_refine_legal_appends_witness:
  "\<exists>c c'. represents jx_store id jx_key (disk jx_start) c \<and> legal jx_store jx_key c
     \<and> represents jx_store id jx_key (disk (set_pc 0 (Claiming 5000) jx_start)) c'
     \<and> (c' = c \<or> (\<exists>n. may_append jx_store jx_key c n \<and> c' = c @ [Version3 n]))"
proof (rule journal_steps_refine_legal_appends)
  show "jreachable jx_store id jx_key jx_proc jx_start"
    by (rule jreachable.start) (simp add: jinit_def jx_start_def)
  show "jstep jx_store id jx_key jx_proc jx_start (set_pc 0 (Claiming 5000) jx_start)"
    by (rule jstep.claim_start) (auto simp: jx_start_def)
  show "hex64 jx_key" by simp
qed

theorem link_is_compare_and_swap_witness:
  "link_ok (claimPath jx_store id jx_key None) jx_claim jx_reading"
  using link_is_compare_and_swap [OF jx_reach_reading jx_hex _ jx_chains(1), of 0 5000 None 0 jx_claim]
  by (simp add: jx_reading_def set_pc_def)

theorem reported_close_is_recorded_once_witness:
  "owner jx_completed 0 = None \<and> (\<exists>n. represents jx_store id jx_key (disk jx_completed) [Version3 jx_claim, Version3 n]
     \<and> n_kind n = completed_node \<and> n_ownerToken n = Some ''o1'')"
proof -
  have w: "disk jx_writing = disk jx_closing" "pcs jx_writing 1 = CloseWrite completed_node ''o1'' 5000 ''t1'' 5000"
    "pcs jx_completed 1 = Returned (Resolved completed_node)"
    by (simp_all add: jx_writing_def jx_completed_def set_pc_def)
  have pre: "pcs jx_writing 1 \<noteq> Returned (Resolved completed_node)" "jx_proc 1 = 0"
    by (simp_all only: w(2)) (simp_all add: jx_proc_def)
  from reported_close_is_recorded_once [OF jx_reach_writing jx_hex jx_completing jx_chains(2) [folded w(1)] pre(1) w(3)]
  show ?thesis unfolding pre(2) w(2) append.simps pc.simps node_kind.simps simp_thms by blast
qed

theorem takeover_only_after_expiry_witness:
  "n_kind jx_takeover = claim_node \<and> n_expiresAt jx_completion \<le> n_expiresAt jx_takeover - processingLeaseMs jx_store"
  by (rule takeover_only_after_expiry [OF jx_reach_taken jx_hex jx_chains(4), of 1])
     (simp_all add: jx_completion_def jx_takeover_def)

theorem head_of_reachable_journal_witness:
  "readHead jx_store id (disk jx_taken) jx_key = Inr (Some (Version3 jx_takeover))"
  using head_of_reachable_journal [OF jx_reach_taken jx_hex jx_chains(4)]
  by (simp add: MAX_CLAIM_CHAIN_DEPTH_def)

definition jx_views :: "nat \<Rightarrow> files" where
  "jx_views k = (if k = 0 then disk jx_closing else disk jx_completed)"

lemma jx_read_over: "readHeadOver jx_store id jx_views jx_key = Inr (Some (Version3 jx_completion))"
proof -
  have depth: "MAX_CLAIM_CHAIN_DEPTH = Suc (Suc 99998)" by (simp add: MAX_CLAIM_CHAIN_DEPTH_def)
  have "readChainOver jx_store id jx_views jx_key 1 (Suc (Suc d)) (Version3 jx_claim) = Inr (Version3 jx_completion)" for d
    by (simp add: jx_views_def jx_disk readClaim_node readClaim_absent successor_inj root_not_successor
        root_not_successor [symmetric])
  note chain = this [of 99998]
  have root: "readClaim (jx_views 0) (rootPath jx_store jx_key) jx_key = Inr (Some (Version3 jx_claim))"
    by (simp add: jx_views_def jx_disk readClaim_node)
  show ?thesis unfolding readHeadOver_def depth root sum.case option.case chain by (rule refl)
qed

theorem head_read_is_linearizable_witness:
  "\<exists>n. readHead jx_store id (jx_views n) jx_key = Inr (Some (Version3 jx_completion))"
proof (rule head_read_is_linearizable [OF _ jx_read_over])
  show "jx_views k \<subseteq>\<^sub>m jx_views (Suc k)" for k
    using root_not_successor [of jx_store jx_key id] by (auto simp: jx_views_def jx_disk map_le_def)
qed

theorem journal_node_round_trip_witness:
  "isClaimRecord (nodeJson jx_completion) \<and> storedClaim (nodeJson jx_completion) = Version3 jx_completion"
  by (rule journal_node_round_trip) simp

end
