(* ===== verification/Webhooks.thy ===== *)
theory Webhooks
  imports Idempotency Json
begin

text \<open>
  The inbound webhook router of \<open>webhooks/router.ts\<close>: provider resolution, signature check,
  parsing, the claim of every parsed event, delivery, and the HTTP answer. The provider
  plug-ins, the secret resolver, the delivery callback and the error callback are the caller's;
  they are effects of the model, as are the three operations of the claim store.
\<close>

section \<open>Requests, events and providers\<close>

datatype header_value = OneValue string | ManyValues "string list"

type_synonym WebhookHeaders = "(string \<times> header_value) list"

record WebhookEnvelope =
  provider :: string
  eventType :: string
  providerEventId :: "string option"
  receivedAt :: int
  payload :: json
  headers :: "(string \<times> string) list"

datatype SignatureVerification = Valid | Invalid string

record success_response =
  success_body :: string
  success_headers :: "(string \<times> string) list option"

text \<open>The events a provider can deliver: their prefix, their names, and whether these are all.\<close>

record TriggerEventCatalog =
  tc_namespace :: "string option"
  tc_events :: "string list"
  tc_closed :: bool

record 'w WebhookProvider =
  provider_id :: string
  verifySignature :: "string \<Rightarrow> WebhookHeaders \<Rightarrow> string \<Rightarrow> ('w, exn, SignatureVerification) io"
  parse :: "string \<Rightarrow> WebhookHeaders \<Rightarrow> int \<Rightarrow> ('w, exn, WebhookEnvelope list) io"
  successResponse :: "success_response option"
  eventCatalog :: "TriggerEventCatalog option"

record 'w claim_store =
  cs_claimStatus :: "string \<Rightarrow> js_number \<Rightarrow> ('w, exn, AtomicClaimStatus) io"
  cs_release :: "string \<Rightarrow> ('w, exn, unit) io"
  cs_complete :: "string \<Rightarrow> ('w, exn, unit) io"

text \<open>The context handed to \<open>onError\<close>: the provider and, once known, the event.\<close>

record error_context =
  ec_provider :: string
  ec_eventType :: "string option"
  ec_providerEventId :: "string option"

record 'w WebhookRouter =
  providers :: "string \<Rightarrow> 'w WebhookProvider option"
  deliver :: "WebhookEnvelope \<Rightarrow> ('w, exn, unit) io"
  resolveSecret :: "string \<Rightarrow> WebhookHeaders \<Rightarrow> ('w, exn, string option) io"
  idempotency :: "'w claim_store"
  idempotencyTtlMs :: js_number
  onError :: "exn \<Rightarrow> error_context \<Rightarrow> ('w, exn, unit) io"
  nowFn :: "('w, exn, int) io"

record WebhookRouterRequest =
  req_providerId :: string
  req_rawBody :: string
  req_headers :: WebhookHeaders

record WebhookRouterResponse =
  res_status :: nat
  res_body :: json
  res_headers :: "(string \<times> string) list option"

section \<open>Construction\<close>

text \<open>\<open>new Map(providers.map(p => [p.id, p]))\<close>: the last provider of an id wins.\<close>

definition provider_map :: "'w WebhookProvider list \<Rightarrow> string \<Rightarrow> 'w WebhookProvider option" where
  "provider_map ps = map_of (rev (map (\<lambda>p. (provider_id p, p)) ps))"

definition default_ttl :: int where
  "default_ttl = 7 * 24 * 60 * 60 * 1000"

text \<open>\<open>newStore\<close> is the process-local store the resolution creates when it chooses one.\<close>

definition newWebhookRouter ::
  "process_env \<Rightarrow> ('w claim_store \<Rightarrow> store_scope option) \<Rightarrow> 'w claim_store \<Rightarrow> 'w WebhookProvider list \<Rightarrow>
   (WebhookEnvelope \<Rightarrow> ('w, exn, unit) io) \<Rightarrow> (string \<Rightarrow> WebhookHeaders \<Rightarrow> ('w, exn, string option) io) \<Rightarrow>
   'w claim_store option \<Rightarrow> IdempotencyRuntime option \<Rightarrow> js_number option \<Rightarrow>
   (exn \<Rightarrow> error_context \<Rightarrow> ('w, exn, unit) io) \<Rightarrow> ('w, exn, int) io \<Rightarrow> exn + 'w WebhookRouter" where
  "newWebhookRouter env scope newStore ps dlv secret store rt ttl onErr now =
     (case resolveAtomicIdempotencyStore env ''WebhookRouter'' scope store rt of
        Inl e \<Rightarrow> Inl e
      | Inr choice \<Rightarrow> Inr \<lparr>providers = provider_map ps, deliver = dlv, resolveSecret = secret,
          idempotency = (case choice of Injected s \<Rightarrow> s | NewInMemoryStore \<Rightarrow> newStore),
          idempotencyTtlMs = nullish ttl (Finite default_ttl), onError = onErr, nowFn = now\<rparr>)"

section \<open>Event keys\<close>

text \<open>\<open>hash\<close> stands for the hexadecimal SHA-256 digest of Node's crypto module.\<close>

definition eventKey :: "(string \<Rightarrow> string) \<Rightarrow> string \<Rightarrow> WebhookEnvelope \<Rightarrow> nat \<Rightarrow> string \<Rightarrow> string" where
  "eventKey hash providerId event index rawBody =
     (if truthy (map_option trim (providerEventId event))
      then providerId @ '':id:'' @ trim (the (providerEventId event))
      else providerId @ '':body:'' @ eventType event @ '':'' @ decimal index @ '':'' @ hash rawBody)"

section \<open>Delivery\<close>

definition event_context :: "WebhookEnvelope \<Rightarrow> error_context" where
  "event_context ev = \<lparr>ec_provider = provider ev, ec_eventType = Some (eventType ev),
     ec_providerEventId = providerEventId ev\<rparr>"

definition provider_context :: "string \<Rightarrow> error_context" where
  "provider_context pid = \<lparr>ec_provider = pid, ec_eventType = None, ec_providerEventId = None\<rparr>"

text \<open>The two catch blocks of \<open>deliverEach\<close>: release the claim, report both errors.\<close>

definition abandonEvent :: "'w WebhookRouter \<Rightarrow> WebhookEnvelope \<Rightarrow> string \<Rightarrow> exn \<Rightarrow> ('w, exn, unit) io" where
  "abandonEvent rt ev key err =
     andThen (tryCatch (cs_release (idempotency rt) key) (\<lambda>relErr. onError rt relErr (event_context ev)))
       (\<lambda>_. onError rt err (event_context ev))"

definition deliverOne :: "'w WebhookRouter \<Rightarrow> WebhookEnvelope \<Rightarrow> string \<Rightarrow> ('w, exn, bool) io" where
  "deliverOne rt ev key =
     andThen (settled (deliver rt ev)) (\<lambda>r. case r of
       Inl err \<Rightarrow> andThen (abandonEvent rt ev key err) (\<lambda>_. ret False)
     | Inr _ \<Rightarrow> andThen (settled (cs_complete (idempotency rt) key)) (\<lambda>c. case c of
           Inr _ \<Rightarrow> ret True
         | Inl err \<Rightarrow> andThen (abandonEvent rt ev key err) (\<lambda>_. ret False)))"

fun deliverEach :: "'w WebhookRouter \<Rightarrow> (WebhookEnvelope \<times> string) list \<Rightarrow> nat \<Rightarrow> nat \<Rightarrow> ('w, exn, nat \<times> nat) io" where
  "deliverEach rt [] succeeded failed = ret (succeeded, failed)"
| "deliverEach rt ((ev, key) # rest) succeeded failed =
     andThen (deliverOne rt ev key) (\<lambda>done_ok.
       if done_ok then deliverEach rt rest (Suc succeeded) failed else deliverEach rt rest succeeded (Suc failed))"

section \<open>Claims\<close>

text \<open>The claim loop: the claims taken, the number still in progress, and the error that ended
  it, if any.\<close>

fun claimEach :: "(string \<Rightarrow> string) \<Rightarrow> 'w WebhookRouter \<Rightarrow> string \<Rightarrow> string \<Rightarrow> nat \<Rightarrow> WebhookEnvelope list \<Rightarrow>
    (WebhookEnvelope \<times> string) list \<Rightarrow> nat \<Rightarrow> ('w, exn, (WebhookEnvelope \<times> string) list \<times> nat \<times> exn option) io" where
  "claimEach hash rt pid raw index [] accepted inProgress = ret (accepted, inProgress, None)"
| "claimEach hash rt pid raw index (ev # evs) accepted inProgress =
     (let key = eventKey hash pid ev index raw in
      andThen (settled (cs_claimStatus (idempotency rt) key (idempotencyTtlMs rt))) (\<lambda>r. case r of
        Inl err \<Rightarrow> ret (accepted, inProgress, Some err)
      | Inr s \<Rightarrow> claimEach hash rt pid raw (Suc index) evs
          (if s = acquired then accepted @ [(ev, key)] else accepted)
          (if s = in_progress then Suc inProgress else inProgress)))"

definition releaseAll :: "'w WebhookRouter \<Rightarrow> (WebhookEnvelope \<times> string) list \<Rightarrow> ('w, exn, unit) io" where
  "releaseAll rt accepted =
     forEach (\<lambda>(ev, key). andThen (settled (cs_release (idempotency rt) key)) (\<lambda>_. ret ())) accepted"

section \<open>Handling a request\<close>

definition jnat :: "nat \<Rightarrow> json" where
  "jnat n = JNum (Finite (int n))"

definition respond :: "nat \<Rightarrow> (string \<times> json) list \<Rightarrow> WebhookRouterResponse" where
  "respond st body = \<lparr>res_status = st, res_body = JObj body, res_headers = None\<rparr>"

definition handleEvents :: "(string \<Rightarrow> string) \<Rightarrow> 'w WebhookRouter \<Rightarrow> 'w WebhookProvider \<Rightarrow> WebhookRouterRequest \<Rightarrow>
    WebhookEnvelope list \<Rightarrow> ('w, exn, WebhookRouterResponse) io" where
  "handleEvents hash rt p request events =
     andThen (claimEach hash rt (provider_id p) (req_rawBody request) 0 events [] 0) (\<lambda>(accepted, inProgress, err).
     case err of
       Some e \<Rightarrow> andThen (releaseAll rt accepted) (\<lambda>_. throw e)
     | None \<Rightarrow> andThen (deliverEach rt accepted 0 0) (\<lambda>(succeeded, failed).
         if failed > 0 \<or> inProgress > 0 then
           ret (respond 503
             [(''error'', JStr (if failed > 0 then ''delivery_failed'' else ''delivery_in_progress'')),
              (''received'', jnat succeeded), (''failed'', jnat failed), (''inProgress'', jnat inProgress),
              (''total'', jnat (length events))])
         else case successResponse p of
           Some s \<Rightarrow> ret \<lparr>res_status = 200, res_body = JStr (success_body s), res_headers = success_headers s\<rparr>
         | None \<Rightarrow> ret (respond 200 [(''received'', jnat (length accepted)), (''total'', jnat (length events))])))"

definition handle :: "(string \<Rightarrow> string) \<Rightarrow> 'w WebhookRouter \<Rightarrow> WebhookRouterRequest \<Rightarrow> ('w, exn, WebhookRouterResponse) io" where
  "handle hash rt request =
     (case providers rt (req_providerId request) of
        None \<Rightarrow> ret (respond 404 [(''error'', JStr ''unknown_provider''), (''provider'', JStr (req_providerId request))])
      | Some p \<Rightarrow>
          andThen (resolveSecret rt (provider_id p) (req_headers request)) (\<lambda>secret.
          if \<not> truthy secret
          then ret (respond 401 [(''error'', JStr ''missing_secret''), (''provider'', JStr (provider_id p))])
          else andThen (verifySignature p (req_rawBody request) (req_headers request) (the secret)) (\<lambda>v.
          case v of
            Invalid reason \<Rightarrow> ret (respond 401 [(''error'', JStr ''invalid_signature''), (''reason'', JStr reason)])
          | Valid \<Rightarrow>
              andThen (settled (andThen (nowFn rt) (\<lambda>now. parse p (req_rawBody request) (req_headers request) now))) (\<lambda>r.
              case r of
                Inl err \<Rightarrow> andThen (onError rt err (provider_context (provider_id p))) (\<lambda>_.
                    ret (respond 400 [(''error'', JStr ''parse_error''), (''message'', JStr (errMessage err))]))
              | Inr events \<Rightarrow> handleEvents hash rt p request events))))"

section \<open>What delivery may rely on\<close>

text \<open>A callback keeps the claims when it neither ends a claim this process holds nor loses a
  recorded completion.\<close>

definition store_frame :: "('w \<Rightarrow> bool) \<Rightarrow> ('w \<Rightarrow> string \<Rightarrow> bool) \<Rightarrow> ('w \<Rightarrow> string \<Rightarrow> bool) \<Rightarrow> 'w \<Rightarrow> 'w \<Rightarrow> bool" where
  "store_frame iv fin hld w w' \<longleftrightarrow>
     (iv w \<longrightarrow> iv w' \<and> (\<forall>k. fin w k \<longrightarrow> fin w' k) \<and> (\<forall>k. hld w k \<longrightarrow> hld w' k))"

lemma respond_status [simp]: "res_status (respond n b) = n"
  by (simp add: respond_def)

text \<open>The router runs on the given store, and its callbacks keep the claims.\<close>

definition runs_on where
  "runs_on cs rel com R rt \<longleftrightarrow> cs_claimStatus (idempotency rt) = cs \<and> cs_release (idempotency rt) = rel
     \<and> cs_complete (idempotency rt) = com
     \<and> (\<forall>ev. moves R (deliver rt ev)) \<and> (\<forall>e c. moves R (onError rt e c))"

context atomic_store begin

abbreviation frame where "frame \<equiv> store_frame inv finished held"
abbreviation uses_store where "uses_store \<equiv> runs_on claimStatus release complete (store_frame inv finished held)"
lemmas uses_store_def = runs_on_def

lemma frameD: "frame w w' \<Longrightarrow> inv w \<Longrightarrow> inv w'" "frame w w' \<Longrightarrow> inv w \<Longrightarrow> finished w k \<Longrightarrow> finished w' k"
  "frame w w' \<Longrightarrow> inv w \<Longrightarrow> held w k \<Longrightarrow> held w' k"
  by (auto simp: store_frame_def)

text \<open>After the claim loop every event is recorded as finished, held, or counted as in progress.\<close>

lemma claimEach_covers:
  assumes "claimEach hash rt pid raw i evs acc n w = (Inr (acc', n', None), w')" "uses_store rt" "inv w"
    and "\<forall>(ev, k) \<in> set acc. held w k" "distinct (map snd acc)"
  shows "inv w' \<and> (\<forall>(ev, k) \<in> set acc'. held w' k) \<and> distinct (map snd acc') \<and> set acc \<subseteq> set acc' \<and> n \<le> n' \<and>
     (\<forall>k. finished w k \<longrightarrow> k \<in> snd ` set acc' \<or> finished w' k) \<and>
     (n' = n \<longrightarrow> (\<forall>j < length evs. eventKey hash pid (evs ! j) (i + j) raw \<in> snd ` set acc'
        \<or> finished w' (eventKey hash pid (evs ! j) (i + j) raw)))"
  using assms
proof (induction evs arbitrary: i acc n w)
  case Nil
  then show ?case by (auto simp: io_defs)
next
  case (Cons ev evs)
  let ?k = "eventKey hash pid ev i raw"
  obtain r w1 where r: "claimStatus ?k (idempotencyTtlMs rt) w = (r, w1)" by fastforce
  with Cons.prems(1,2) obtain s where s: "r = Inr s"
    by (cases r) (auto simp: uses_store_def io_defs Let_def)
  let ?acc = "if s = acquired then acc @ [(ev, ?k)] else acc" and ?n = "if s = in_progress then Suc n else n"
  have rest: "claimEach hash rt pid raw (Suc i) evs ?acc ?n w1 = (Inr (acc', n', None), w')"
    using Cons.prems(1,2) r s by (simp add: uses_store_def io_defs Let_def)
  have inv1: "inv w1" using claim_inv [OF r] Cons.prems(3) .
  have keep: "held w1 k" if "held w k" for k using claim_keeps_held [OF r Cons.prems(3) that] .
  have held1: "\<forall>(e, k) \<in> set ?acc. held w1 k"
    using Cons.prems(4) keep claim_acquired [of ?k _ w w1] r s Cons.prems(3) by (auto split: if_splits)
  have dist: "distinct (map snd ?acc)"
    using Cons.prems(4,5) claim_acquired [of ?k "idempotencyTtlMs rt" w w1] r s Cons.prems(3) by force
  note IH = Cons.IH [OF rest Cons.prems(2) inv1 held1 dist]
  have fin: "finished w k \<Longrightarrow> k \<in> snd ` set acc' \<or> finished w' k" for k
  proof -
    assume f: "finished w k"
    show ?thesis
    proof (cases "k = ?k \<and> s = acquired")
      case True
      then have "(ev, k) \<in> set acc'" using IH by auto
      then show ?thesis by force
    next
      case False
      with claim_keeps_finished [OF r Cons.prems(3) f] s have "finished w1 k" by auto
      with IH show ?thesis by blast
    qed
  qed
  have first: "?k \<in> snd ` set acc' \<or> finished w' ?k" if "n' = n"
  proof -
    from that IH have "s \<noteq> in_progress" by (auto split: if_splits)
    then consider "s = acquired" | "s = completed" by (cases s) auto
    then show ?thesis
    proof cases
      case 1
      with IH have "(ev, ?k) \<in> set acc'" by auto
      then show ?thesis by force
    next
      case 2
      with r s Cons.prems(3) have "finished w1 ?k" by (auto dest: claim_completed)
      with IH show ?thesis by blast
    qed
  qed
  have tail: "\<forall>j < length (ev # evs). eventKey hash pid ((ev # evs) ! j) (i + j) raw \<in> snd ` set acc'
      \<or> finished w' (eventKey hash pid ((ev # evs) ! j) (i + j) raw)" if "n' = n"
  proof (intro allI impI)
    fix j assume j: "j < length (ev # evs)"
    from that IH have n: "n' = ?n" by (auto split: if_splits)
    show "eventKey hash pid ((ev # evs) ! j) (i + j) raw \<in> snd ` set acc'
      \<or> finished w' (eventKey hash pid ((ev # evs) ! j) (i + j) raw)"
    proof (cases j)
      case 0
      with first [OF that] show ?thesis by simp
    next
      case (Suc m)
      with IH n j show ?thesis by simp
    qed
  qed
  have "set acc \<subseteq> set acc'" "n \<le> n'" using IH by (auto split: if_splits)
  with IH fin tail show ?case by blast
qed

lemma deliverOne_done:
  assumes "deliverOne rt ev key w = (Inr True, w')" "uses_store rt" "inv w" "held w key"
  shows "inv w' \<and> finished w' key \<and> (\<forall>k. finished w k \<longrightarrow> finished w' k) \<and> (\<forall>k. k \<noteq> key \<longrightarrow> held w k \<longrightarrow> held w' k)"
proof -
  obtain r w1 where d: "deliver rt ev w = (r, w1)" by fastforce
  obtain c w2 where c: "complete key w1 = (c, w2)" by fastforce
  from assms(1,2) d c have w2: "w' = w2" and ok: "c = Inr ()"
    by (auto simp: deliverOne_def uses_store_def io_defs split: sum.splits prod.splits)
  have fr: "frame w w1" using assms(2) d by (auto simp: uses_store_def intro: movesD)
  have inv1: "inv w1" and held1: "held w1 key" using frameD [OF fr assms(3)] assms(3,4) by auto
  have "finished w' key" using complete_finished [OF _ inv1 held1] c w2 ok by simp
  moreover have "inv w'" using complete_inv [OF c inv1] w2 by simp
  moreover have "finished w' k" if "finished w k" for k
    using complete_keeps_finished [OF c inv1] frameD(2) [OF fr assms(3) that] w2 by simp
  moreover have "held w' k" if "k \<noteq> key" "held w k" for k
    using complete_keeps_held [OF c inv1] frameD(3) [OF fr assms(3) that(2)] that(1) w2 by simp
  ultimately show ?thesis by blast
qed

lemma deliverEach_failed_mono: "deliverEach rt acc s f w = (Inr (s', f'), w') \<Longrightarrow> f \<le> f'"
proof (induction rt acc s f arbitrary: w rule: deliverEach.induct)
  case (2 rt ev key rest s f)
  obtain r w1 where d: "deliverOne rt ev key w = (r, w1)" by fastforce
  with 2(3) obtain b where r: "r = Inr b" by (cases r) (simp_all add: andThen_def)
  have "(if b then f else Suc f) \<le> f'"
    using 2(1) [of b w1] 2(2) [of b w1] 2(3) d r by (cases b) (simp_all add: andThen_def)
  then show ?case by (simp split: if_splits)
qed (simp add: io_defs)

lemma deliverEach_finishes:
  assumes "deliverEach rt acc s f w = (Inr (s', f), w')" "uses_store rt" "inv w"
    and "\<forall>(ev, k) \<in> set acc. held w k" "distinct (map snd acc)"
  shows "(\<forall>k \<in> snd ` set acc. finished w' k) \<and> (\<forall>k. finished w k \<longrightarrow> finished w' k)"
  using assms
proof (induction acc arbitrary: s w)
  case (Cons a rest)
  obtain ev key where a: "a = (ev, key)" by (cases a)
  obtain r w1 where d: "deliverOne rt ev key w = (r, w1)" by fastforce
  with Cons.prems(1) a obtain b where r: "r = Inr b" by (cases r) (simp_all add: andThen_def)
  have b: "b"
  proof (rule ccontr)
    assume "\<not> b"
    with Cons.prems(1) a d r have "deliverEach rt rest s (Suc f) w1 = (Inr (s', f), w')" by (simp add: andThen_def)
    from deliverEach_failed_mono [OF this] show False by simp
  qed
  have rest: "deliverEach rt rest (Suc s) f w1 = (Inr (s', f), w')"
    using Cons.prems(1) a d r b by (simp add: andThen_def)
  have "held w key" using Cons.prems(4) a by simp
  from deliverOne_done [OF _ Cons.prems(2,3) this, of ev w1] d r b
  have st: "inv w1" "finished w1 key" "\<And>k. finished w k \<Longrightarrow> finished w1 k"
    "\<And>k. k \<noteq> key \<Longrightarrow> held w k \<Longrightarrow> held w1 k" by auto
  have "\<forall>(ev, k) \<in> set rest. held w1 k"
  proof (clarify)
    fix e k assume k: "(e, k) \<in> set rest"
    with Cons.prems(5) a have "k \<noteq> key" by force
    moreover have "held w k" using k Cons.prems(4) by auto
    ultimately show "held w1 k" by (rule st(4))
  qed
  moreover have "distinct (map snd rest)" using Cons.prems(5) by simp
  ultimately have IH: "(\<forall>k \<in> snd ` set rest. finished w' k) \<and> (\<forall>k. finished w1 k \<longrightarrow> finished w' k)"
    by (rule Cons.IH [OF rest Cons.prems(2) st(1)])
  then have "finished w' key" using st(2) by blast
  moreover have "finished w' k" if "finished w k" for k using IH st(3) [OF that] by blast
  ultimately show ?case using IH a by simp
qed (simp add: io_defs)

text \<open>A 2xx answer means that every parsed event is recorded as finished.\<close>

lemma ack_means_finished:
  assumes "handleEvents hash rt p request events w = (Inr resp, w')" "uses_store rt" "inv w"
    and "res_status resp = 200" "i < length events"
  shows "finished w' (eventKey hash (provider_id p) (events ! i) i (req_rawBody request))"
proof -
  let ?key = "\<lambda>j. eventKey hash (provider_id p) (events ! j) j (req_rawBody request)"
  obtain c w1 where c: "claimEach hash rt (provider_id p) (req_rawBody request) 0 events [] 0 w = (c, w1)" by fastforce
  with assms(1) obtain acc n where acc: "c = Inr (acc, n, None)"
    by (cases c) (auto simp: handleEvents_def io_defs split: option.splits prod.splits sum.splits)
  obtain d w2 where d: "deliverEach rt acc 0 0 w1 = (d, w2)" by fastforce
  from assms(1,4) c acc d have n: "n = 0" and w': "w' = w2" and ok: "\<exists>s. d = Inr (s, 0)"
    by (auto simp: handleEvents_def io_defs split: option.splits prod.splits sum.splits if_splits)
  from claimEach_covers [OF c [unfolded acc] assms(2,3)] n assms(5)
  have cov: "inv w1" "\<forall>(ev, k) \<in> set acc. held w1 k" "distinct (map snd acc)"
    and key: "?key i \<in> snd ` set acc \<or> finished w1 (?key i)" by auto
  from ok obtain s where "d = Inr (s, 0)" ..
  from deliverEach_finishes [OF d [unfolded this] assms(2) cov] key show ?thesis unfolding w' by blast
qed

end

section \<open>Properties\<close>

text \<open>C7. Acknowledged means durable: when a request reaches the events of its body and is
  answered 200, every event of the body is recorded as completed in the claim store, whatever
  the delivery callback did, as long as callbacks do not tamper with the claims. A provider that
  sees a success will not have to send any of the events again.\<close>

theorem acknowledged_events_are_recorded:
  assumes "handleEvents hash rt p request events w = (Inr resp, w')"
    and "runs_on mem_claimStatus mem_release mem_complete (store_frame mem_inv mem_finished mem_held) rt"
    and "mem_inv w" "res_status resp = 200" "i < length events"
  shows "mem_finished w' (eventKey hash (provider_id p) (events ! i) i (req_rawBody request))"
  using assms by (rule mem.ack_means_finished)

lemma handle_unverified:
  assumes "providers rt (req_providerId request) = Some p"
    and "resolveSecret rt (provider_id p) (req_headers request) w = (Inr secret, w1)"
    and "(secret = None \<or> secret = Some []) \<and> w2 = w1 \<or>
      verifySignature p (req_rawBody request) (req_headers request) (the secret) w1 = (Inr (Invalid reason), w2) \<and> truthy secret"
  shows "\<exists>resp. handle hash rt request w = (Inr resp, w2) \<and> res_status resp = 401"
  using assms by (cases secret) (auto simp: handle_def io_defs)

text \<open>An unauthenticated request does no work: without a provider the answer is 404, and
  without a secret or with a bad signature it is 401; nothing is parsed, claimed or delivered,
  the world is the one the lookup of the secret and the verification left.\<close>

theorem unauthenticated_requests_do_nothing:
  assumes "case providers rt (req_providerId request) of None \<Rightarrow> w2 = w | Some p \<Rightarrow>
      (\<exists>secret reason w1. resolveSecret rt (provider_id p) (req_headers request) w = (Inr secret, w1) \<and>
        ((secret = None \<or> secret = Some []) \<and> w2 = w1 \<or>
         verifySignature p (req_rawBody request) (req_headers request) (the secret) w1 = (Inr (Invalid reason), w2) \<and> truthy secret))"
  shows "\<exists>resp. handle hash rt request w = (Inr resp, w2) \<and>
     res_status resp = (if providers rt (req_providerId request) = None then 404 else 401)"
proof (cases "providers rt (req_providerId request)")
  case None
  with assms show ?thesis by (simp add: handle_def io_defs)
next
  case (Some p)
  with assms obtain secret reason w1 where
    "resolveSecret rt (provider_id p) (req_headers request) w = (Inr secret, w1)"
    "(secret = None \<or> secret = Some []) \<and> w2 = w1 \<or>
       verifySignature p (req_rawBody request) (req_headers request) (the secret) w1 = (Inr (Invalid reason), w2) \<and> truthy secret" by auto
  from handle_unverified [where request = request, OF Some this] Some show ?thesis by simp
qed

lemma decimal_no_colon: "CHR '':'' \<notin> set (decimal n)"
proof
  assume "CHR '':'' \<in> set (decimal n)"
  then obtain d where "d < 10" "CHR '':'' = digit_char d" using decimal_digits by blast
  then have "(of_char (CHR '':'') :: nat) = 48 + d" by (simp add: digit_char_def)
  with \<open>d < 10\<close> show False by simp
qed

text \<open>Keys separate events: two events of one provider share a claim key only if both carry the
  same (trimmed) provider event id, or both carry none and agree in type, position and body
  digest.\<close>

theorem event_keys_separate_events:
  assumes "eventKey hash p e i raw = eventKey hash p e' i' raw'"
    and "\<And>s. CHR '':'' \<notin> set (hash s)"
  shows "(truthy (map_option trim (providerEventId e)) \<and>
           map_option trim (providerEventId e) = map_option trim (providerEventId e')) \<or>
    (\<not> truthy (map_option trim (providerEventId e)) \<and> \<not> truthy (map_option trim (providerEventId e')) \<and>
      eventType e = eventType e' \<and> i = i' \<and> hash raw = hash raw')"
proof (cases "truthy (map_option trim (providerEventId e)) \<or> truthy (map_option trim (providerEventId e'))")
  case True
  with assms(1) show ?thesis
    by (cases "providerEventId e"; cases "providerEventId e'") (auto simp: eventKey_def split: if_splits)
next
  case False
  with assms(1) have eq: "(eventType e @ '':'' @ decimal i) @ CHR '':'' # hash raw =
      (eventType e' @ '':'' @ decimal i') @ CHR '':'' # hash raw'"
    by (simp add: eventKey_def)
  note one = last_separator [OF this assms(2) assms(2)]
  then have "eventType e @ CHR '':'' # decimal i = eventType e' @ CHR '':'' # decimal i'" by simp
  note two = last_separator [OF this decimal_no_colon decimal_no_colon]
  with one False decimal_inj [of i i'] show ?thesis by simp
qed

section \<open>The properties at a concrete router\<close>

definition wx_event :: WebhookEnvelope where
  "wx_event = \<lparr>provider = ''acme'', eventType = ''ping'', providerEventId = Some ''e1'', receivedAt = 0,
     payload = JNull, headers = []\<rparr>"

definition wx_provider :: "InMemoryAtomicIdempotencyStore WebhookProvider" where
  "wx_provider = \<lparr>provider_id = ''acme'',
     verifySignature = (\<lambda>raw hs secret. ret (if raw = ''bad'' then Invalid ''mismatch'' else Valid)),
     parse = (\<lambda>raw hs now. ret [wx_event]), successResponse = None, eventCatalog = None\<rparr>"

definition wx_router :: "InMemoryAtomicIdempotencyStore WebhookRouter" where
  "wx_router = \<lparr>providers = [''acme'' \<mapsto> wx_provider], deliver = (\<lambda>ev. ret ()),
     resolveSecret = (\<lambda>p hs. ret (Some ''s'')),
     idempotency = \<lparr>cs_claimStatus = mem_claimStatus, cs_release = mem_release, cs_complete = mem_complete\<rparr>,
     idempotencyTtlMs = Finite default_ttl, onError = (\<lambda>e c. ret ()), nowFn = ret 0\<rparr>"

definition wx_request :: "string \<Rightarrow> WebhookRouterRequest" where
  "wx_request raw = \<lparr>req_providerId = ''acme'', req_rawBody = raw, req_headers = []\<rparr>"

lemmas wx_defs = wx_event_def wx_provider_def wx_router_def wx_request_def

lemma wx_runs: "runs_on mem_claimStatus mem_release mem_complete (store_frame mem_inv mem_finished mem_held) wx_router"
  by (simp add: runs_on_def wx_router_def moves_def store_frame_def io_defs)

lemma wx_trim: "trim ''acme:id:e1'' = ''acme:id:e1''" "trim ''e1'' = ''e1''"
  by (simp_all add: trim_def js_space_def)

theorem acknowledged_events_are_recorded_witness:
  "mem_finished (snd (handleEvents id wx_router wx_provider (wx_request ''x'') [wx_event] mx_store)) ''acme:id:e1''"
proof -
  let ?run = "handleEvents id wx_router wx_provider (wx_request ''x'') [wx_event] mx_store"
  have "fst ?run = Inr (respond 200 [(''received'', jnat 1), (''total'', jnat 1)])"
    by (simp add: handleEvents_def wx_defs eventKey_def wx_trim mem_defs assertClaimInput_def assertKey_def
        io_defs finite_sum_def float_limit_def mx_store_def default_ttl_def deliverOne_def Let_def)
  then have "?run = (Inr (respond 200 [(''received'', jnat 1), (''total'', jnat 1)]), snd ?run)"
    by (metis prod.collapse)
  from acknowledged_events_are_recorded [OF this wx_runs mx_inv(1), of 0] show ?thesis
    by (simp add: eventKey_def wx_defs wx_trim)
qed

theorem unauthenticated_requests_do_nothing_witness:
  "\<exists>resp. handle id wx_router (wx_request ''bad'') mx_store = (Inr resp, mx_store) \<and> res_status resp = 401"
  using unauthenticated_requests_do_nothing [where rt = wx_router and request = "wx_request ''bad''" and w = mx_store and ?w2.0 = mx_store and hash = id]
  by (simp add: wx_defs io_defs)

theorem event_keys_separate_events_witness:
  "map_option trim (providerEventId wx_event) = map_option trim (providerEventId (wx_event\<lparr>eventType := ''pong''\<rparr>))"
  using event_keys_separate_events [of "\<lambda>s. []" "''acme''" wx_event 0 "''x''" "wx_event\<lparr>eventType := ''pong''\<rparr>" 1 "''y''"]
  by (simp add: eventKey_def wx_event_def wx_trim)

end
