(* ===== verification/Subscription.thy ===== *)
theory Subscription
  imports Errors Json
begin

text \<open>
  The subscription records of \<open>stripe/subscription-state.ts\<close>: the state table, the transition
  that builds the next record, the access decision, the two stores with their compare-and-set,
  and the specification of how the record of a workspace may evolve. The contract of a store is
  the locale \<open>cas_store\<close>, of one that also numbers its records without gaps
  \<open>versioned_store\<close>.
\<close>

section \<open>States and records\<close>

definition SUBSCRIPTION_STATES :: "SubscriptionState list" where
  "SUBSCRIPTION_STATES = [Incomplete, IncompleteExpired, Trialing, Active, PastDue, Canceled, Unpaid, Paused]"

fun stateName :: "SubscriptionState \<Rightarrow> string" where
  "stateName Incomplete = ''incomplete''"
| "stateName IncompleteExpired = ''incomplete_expired''"
| "stateName Trialing = ''trialing''"
| "stateName Active = ''active''"
| "stateName PastDue = ''past_due''"
| "stateName Canceled = ''canceled''"
| "stateName Unpaid = ''unpaid''"
| "stateName Paused = ''paused''"

record SubscriptionRecord =
  workspaceId :: string
  customerId :: string
  subscriptionId :: string
  state :: SubscriptionState
  priceId :: "string option"
  currentPeriodEnd :: "int option"
  trialEnd :: "int option"
  cancelAtPeriodEnd :: bool
  version :: int
  lastEventId :: "string option"
  lastEventCreatedAt :: "int option"
  lastEventPreviousState :: "SubscriptionState option"
  pendingEventId :: "string option"
  updatedAt :: int

fun TRANSITIONS :: "SubscriptionState \<Rightarrow> SubscriptionState list" where
  "TRANSITIONS Incomplete = [Active, Trialing, IncompleteExpired, Canceled]"
| "TRANSITIONS IncompleteExpired = []"
| "TRANSITIONS Trialing = [Active, PastDue, Canceled, Paused, Unpaid]"
| "TRANSITIONS Active = [PastDue, Canceled, Paused, Unpaid, Trialing]"
| "TRANSITIONS PastDue = [Active, Canceled, Unpaid, Paused]"
| "TRANSITIONS Canceled = []"
| "TRANSITIONS Unpaid = [Active, Canceled, PastDue]"
| "TRANSITIONS Paused = [Active, Canceled, PastDue]"

definition isValidTransition :: "SubscriptionState \<Rightarrow> SubscriptionState \<Rightarrow> bool" where
  "isValidTransition from_st to_st \<longleftrightarrow> from_st = to_st \<or> to_st \<in> set (TRANSITIONS from_st)"

section \<open>The next record\<close>

text \<open>\<open>Partial<SubscriptionRecord> & { state }\<close>: the fields a caller may overlay; \<open>None\<close> is an
  absent property. The other fields of a record (version, events and time) may be given too, but
  the transition sets them itself after the overlay, so they have no effect and no field here.\<close>

record SubscriptionPatch =
  p_state :: SubscriptionState
  p_workspaceId :: "string option"
  p_customerId :: "string option"
  p_subscriptionId :: "string option"
  p_priceId :: "string option option"
  p_currentPeriodEnd :: "int option option"
  p_trialEnd :: "int option option"
  p_cancelAtPeriodEnd :: "bool option"

definition patch_state :: "SubscriptionState \<Rightarrow> SubscriptionPatch" where
  "patch_state s = \<lparr>p_state = s, p_workspaceId = None, p_customerId = None, p_subscriptionId = None, p_priceId = None,
     p_currentPeriodEnd = None, p_trialEnd = None, p_cancelAtPeriodEnd = None\<rparr>"

text \<open>The options: \<open>o_pendingEventId\<close> is \<open>None\<close> when undefined, \<open>Some None\<close> when null.\<close>

record TransitionOptions =
  o_eventId :: "string option"
  o_eventCreatedAt :: "int option"
  o_pendingEventId :: "string option option"

definition overlay :: "SubscriptionRecord \<Rightarrow> SubscriptionPatch \<Rightarrow> SubscriptionRecord" where
  "overlay r p = r\<lparr>state := p_state p, workspaceId := nullish (p_workspaceId p) (workspaceId r),
     customerId := nullish (p_customerId p) (customerId r),
     subscriptionId := nullish (p_subscriptionId p) (subscriptionId r),
     priceId := nullish (p_priceId p) (priceId r),
     currentPeriodEnd := nullish (p_currentPeriodEnd p) (currentPeriodEnd r),
     trialEnd := nullish (p_trialEnd p) (trialEnd r),
     cancelAtPeriodEnd := nullish (p_cancelAtPeriodEnd p) (cancelAtPeriodEnd r)\<rparr>"

definition webhook_error :: "string \<Rightarrow> BillingErrorContext \<Rightarrow> exn" where
  "webhook_error msg ctx = billing_error webhook_event_unknown msg ctx"

definition applyTransition :: "('w, exn, int) io \<Rightarrow> SubscriptionRecord \<Rightarrow> SubscriptionPatch \<Rightarrow> TransitionOptions \<Rightarrow>
    ('w, exn, SubscriptionRecord) io" where
  "applyTransition now current next opts =
     (if \<not> isValidTransition (state current) (p_state next)
      then throw (webhook_error (''Illegal subscription transition '' @ stateName (state current) @ '' -> ''
             @ stateName (p_state next))
             (no_context\<lparr>ctx_workspaceId := Some (workspaceId current), ctx_subscriptionId := Some (subscriptionId current),
                ctx_subscriptionState := Some (state current), ctx_eventId := o_eventId opts\<rparr>))
      else andThen now (\<lambda>t. ret ((overlay current next)\<lparr>
             version := version current + 1,
             lastEventId := nullish_opt (o_eventId opts) (lastEventId current),
             lastEventCreatedAt := nullish_opt (o_eventCreatedAt opts) (lastEventCreatedAt current),
             lastEventPreviousState := (if truthy (o_eventId opts) then Some (state current)
                                        else lastEventPreviousState current),
             pendingEventId := nullish (o_pendingEventId opts) (pendingEventId current),
             updatedAt := t\<rparr>)))"

section \<open>Access\<close>

datatype access_warning = warn_past_due | warn_trial_ending

datatype denial_reason = no_subscription | inactive | past_due_denied | trial_expired_denied

datatype AccessDecision = Allowed "access_warning option" | Denied denial_reason

fun gateAccess :: "SubscriptionState \<Rightarrow> AccessDecision" where
  "gateAccess Active = Allowed None"
| "gateAccess Trialing = Denied trial_expired_denied"
| "gateAccess PastDue = Allowed (Some warn_past_due)"
| "gateAccess Paused = Denied past_due_denied"
| "gateAccess Canceled = Denied inactive"
| "gateAccess Unpaid = Denied inactive"
| "gateAccess Incomplete = Denied inactive"
| "gateAccess IncompleteExpired = Denied inactive"

section \<open>Construction and validation\<close>

definition makeSubscriptionRecord ::
  "string \<Rightarrow> string \<Rightarrow> string \<Rightarrow> SubscriptionState \<Rightarrow> string option \<Rightarrow> int option \<Rightarrow> int option \<Rightarrow> bool option \<Rightarrow>
   string option \<Rightarrow> int option \<Rightarrow> string option \<Rightarrow> int \<Rightarrow> SubscriptionRecord" where
  "makeSubscriptionRecord ws customer sub st price period trial cancel eventId createdAt pending now =
     \<lparr>workspaceId = ws, customerId = customer, subscriptionId = sub, state = st, priceId = price,
      currentPeriodEnd = period, trialEnd = trial, cancelAtPeriodEnd = nullish cancel False, version = 0,
      lastEventId = eventId, lastEventCreatedAt = createdAt, lastEventPreviousState = None,
      pendingEventId = pending, updatedAt = now\<rparr>"

definition safe_nat :: "int \<Rightarrow> bool" where
  "safe_nat n \<longleftrightarrow> safe_integer (Finite n) \<and> 0 \<le> n"

text \<open>The checks that the record type does not already enforce, in the code's order.\<close>

definition assertSubscriptionRecord :: "SubscriptionRecord \<Rightarrow> exn + unit" where
  "assertSubscriptionRecord r =
     (if trim (workspaceId r) = [] then Inl (Error ''Subscription workspaceId is required'')
      else if trim (customerId r) = [] then Inl (Error ''Subscription customerId is required'')
      else if trim (subscriptionId r) = [] then Inl (Error ''Subscription subscriptionId is required'')
      else if state r \<notin> set SUBSCRIPTION_STATES then Inl (Error ''Invalid subscription state'')
      else if \<not> safe_nat (version r) then Inl (Error ''Invalid subscription version'')
      else if (case lastEventCreatedAt r of None \<Rightarrow> False | Some t \<Rightarrow> \<not> safe_nat t)
      then Inl (Error ''Invalid lastEventCreatedAt'')
      else if (case pendingEventId r of None \<Rightarrow> False | Some p \<Rightarrow> trim p = [])
      then Inl (Error ''Invalid pendingEventId'')
      else Inr ())"

text \<open>\<open>sameSubscriptionRecord\<close> compares every field.\<close>

definition sameSubscriptionRecord :: "SubscriptionRecord \<Rightarrow> SubscriptionRecord \<Rightarrow> bool" where
  "sameSubscriptionRecord l r \<longleftrightarrow>
     workspaceId l = workspaceId r \<and> customerId l = customerId r \<and> subscriptionId l = subscriptionId r
     \<and> state l = state r \<and> priceId l = priceId r \<and> currentPeriodEnd l = currentPeriodEnd r
     \<and> trialEnd l = trialEnd r \<and> cancelAtPeriodEnd l = cancelAtPeriodEnd r \<and> version l = version r
     \<and> lastEventId l = lastEventId r \<and> lastEventCreatedAt l = lastEventCreatedAt r
     \<and> lastEventPreviousState l = lastEventPreviousState r \<and> pendingEventId l = pendingEventId r
     \<and> updatedAt l = updatedAt r"

lemma same_is_equal: "sameSubscriptionRecord l r \<longleftrightarrow> l = r"
  by (auto simp: sameSubscriptionRecord_def intro: SubscriptionRecord.equality)

section \<open>The process-local store\<close>

record InMemorySubscriptionStore =
  records :: "string \<Rightarrow> SubscriptionRecord option"

type_synonym ('a, 'r) sub_op = "('a InMemorySubscriptionStore_scheme, exn, 'r) io"

definition sub_load :: "string \<Rightarrow> ('a, SubscriptionRecord option) sub_op" where
  "sub_load ws = reads (\<lambda>w. records w ws)"

definition sub_save :: "SubscriptionRecord \<Rightarrow> ('a, unit) sub_op" where
  "sub_save r = updates (\<lambda>w. w\<lparr>records := (records w)(workspaceId r \<mapsto> r)\<rparr>)"

definition sub_saveIfVersion :: "SubscriptionRecord \<Rightarrow> int \<Rightarrow> ('a, bool) sub_op" where
  "sub_saveIfVersion r expected =
     andThen (reads (\<lambda>w. records w (workspaceId r))) (\<lambda>current.
     if (case current of None \<Rightarrow> False | Some c \<Rightarrow> version c \<noteq> expected) then ret False
     else if current = None \<and> expected \<noteq> 0 then ret False
     else andThen (updates (\<lambda>w. w\<lparr>records := (records w)(workspaceId r \<mapsto> r)\<rparr>)) (\<lambda>_. ret True))"

section \<open>The store on files\<close>

text \<open>
  A workspace has one directory of version files and perhaps one file of an older layout. What
  \<open>readRecord\<close> makes of a file is an error or a normalised record; the workspace it names is
  checked on every read. Directories and files are found under \<open>fileName\<close>.
\<close>

record sub_files =
  version_files :: "string \<Rightarrow> nat \<Rightarrow> (exn + SubscriptionRecord) option"
  newest_file :: "string \<Rightarrow> nat option"
  legacy_file :: "string \<Rightarrow> (exn + SubscriptionRecord) option"

definition name_char :: "char \<Rightarrow> bool" where
  "name_char c \<longleftrightarrow> (let n = (of_char c :: nat) in
     (65 \<le> n \<and> n \<le> 90) \<or> (97 \<le> n \<and> n \<le> 122) \<or> (48 \<le> n \<and> n \<le> 57) \<or> c \<in> set ''_.-'')"

definition hex_of :: "nat \<Rightarrow> char" where
  "hex_of d = (if d < 10 then char_of (48 + d) else char_of (87 + d))"

text \<open>The hexadecimal form of the bytes of a string whose characters are all below 128, where
  UTF-8 is the identity.\<close>

definition hex_bytes :: "string \<Rightarrow> string" where
  "hex_bytes s = concat (map (\<lambda>c. let n = (of_char c :: nat) in [hex_of (n div 16), hex_of (n mod 16)]) s)"

definition fileName :: "string \<Rightarrow> string" where
  "fileName ws = (if ws = [] \<or> \<not> list_all name_char ws then hex_bytes ws @ ''.json'' else ws @ ''.json'')"

definition readRecord :: "exn + SubscriptionRecord \<Rightarrow> string \<Rightarrow> exn + SubscriptionRecord" where
  "readRecord content ws = (case content of
       Inl e \<Rightarrow> Inl e
     | Inr r \<Rightarrow> (case assertSubscriptionRecord r of
         Inl e \<Rightarrow> Inl e
       | Inr _ \<Rightarrow> if workspaceId r \<noteq> ws then Inl (Error (''Subscription workspace mismatch at '' @ fileName ws))
                  else Inr r))"

text \<open>\<open>load\<close> compares the newest version file with the file of the older layout.\<close>

definition fs_load_now :: "sub_files \<Rightarrow> string \<Rightarrow> exn + SubscriptionRecord option" where
  "fs_load_now fs ws =
     (let f = fileName ws in
      case (case newest_file fs f of None \<Rightarrow> Inr None
            | Some v \<Rightarrow> (case version_files fs f v of
                  None \<Rightarrow> Inl (Error ''ENOENT'')
                | Some c \<Rightarrow> map_sum id Some (readRecord c ws))) of
        Inl e \<Rightarrow> Inl e
      | Inr newest \<Rightarrow>
      (case (case legacy_file fs f of None \<Rightarrow> Inr None | Some c \<Rightarrow> map_sum id Some (readRecord c ws)) of
        Inl e \<Rightarrow> Inl e
      | Inr legacy \<Rightarrow>
        (case (newest, legacy) of
           (None, None) \<Rightarrow> Inr None
         | (Some n, None) \<Rightarrow> Inr (Some n)
         | (None, Some l) \<Rightarrow> Inr (Some l)
         | (Some n, Some l) \<Rightarrow>
             if version n = version l \<and> \<not> sameSubscriptionRecord n l
             then Inl (Error (''Conflicting subscription version for '' @ ws))
             else Inr (Some (if version l > version n then l else n)))))"

definition fs_load :: "string \<Rightarrow> (sub_files, exn, SubscriptionRecord option) io" where
  "fs_load ws fs = (fs_load_now fs ws, fs)"

text \<open>The exclusive link of a complete version file. The version of a checked record is a
  natural number. Of what the file system can refuse only the name that is taken is modelled;
  any other failure of the disk (before the link, or of syncing the directory after it) makes the
  code throw.\<close>

definition writeVersion :: "SubscriptionRecord \<Rightarrow> (sub_files, exn, bool) io" where
  "writeVersion r fs =
     (let f = fileName (workspaceId r); v = nat (version r) in
      if version_files fs f v \<noteq> None then (Inr False, fs)
      else (Inr True, fs\<lparr>version_files := (version_files fs)(f := (version_files fs f)(v \<mapsto> Inr r)),
             newest_file := (newest_file fs)(f \<mapsto> (case newest_file fs f of None \<Rightarrow> v | Some u \<Rightarrow> max u v))\<rparr>))"

text \<open>\<open>others\<close> is what other processes do to the files between the read and the link.\<close>

definition fs_saveIfVersion :: "(sub_files \<Rightarrow> sub_files) \<Rightarrow> SubscriptionRecord \<Rightarrow> int \<Rightarrow> (sub_files, exn, bool) io" where
  "fs_saveIfVersion others r expected =
     andThen (liftE (assertSubscriptionRecord r)) (\<lambda>_.
     if \<not> safe_nat expected then ret False
     else andThen (fs_load (workspaceId r)) (\<lambda>existing.
       if (case existing of Some e \<Rightarrow> version e \<noteq> expected | None \<Rightarrow> expected \<noteq> 0) then ret False
       else if (case existing of Some e \<Rightarrow> version r \<noteq> expected + 1 | None \<Rightarrow> version r \<noteq> 0) then ret False
       else andThen (updates others) (\<lambda>_. writeVersion r)))"

definition fs_save :: "(sub_files \<Rightarrow> sub_files) \<Rightarrow> SubscriptionRecord \<Rightarrow> (sub_files, exn, unit) io" where
  "fs_save others r =
     andThen (liftE (assertSubscriptionRecord r)) (\<lambda>_.
     andThen (fs_load (workspaceId r)) (\<lambda>existing.
     (let write = andThen (updates others) (\<lambda>_. andThen (writeVersion r) (\<lambda>ok.
            if ok then ret ()
            else andThen (fs_load (workspaceId r)) (\<lambda>winner.
              if (case winner of None \<Rightarrow> False | Some x \<Rightarrow> sameSubscriptionRecord x r) then ret ()
              else throw (Error (''Subscription write contention for '' @ workspaceId r)))))
      in case existing of
           Some e \<Rightarrow>
             if version e > version r then throw (Error (''Stale subscription save for '' @ workspaceId r))
             else if version e = version r then
               (if sameSubscriptionRecord e r then ret ()
                else throw (Error (''Conflicting subscription version for '' @ workspaceId r)))
             else if version r \<noteq> version e + 1
             then throw (Error (''Subscription save must advance exactly one version for '' @ workspaceId r))
             else write
         | None \<Rightarrow>
             if version r \<noteq> 0 then throw (Error (''Initial subscription version must be 0 for '' @ workspaceId r))
             else write)))"

section \<open>How a record may evolve\<close>

definition isTerminalSubscriptionState :: "SubscriptionState \<Rightarrow> bool" where
  "isTerminalSubscriptionState s \<longleftrightarrow> s = Canceled \<or> s = IncompleteExpired"

definition newer :: "SubscriptionRecord \<Rightarrow> SubscriptionRecord \<Rightarrow> bool" where
  "newer c d \<longleftrightarrow> (case lastEventCreatedAt d of None \<Rightarrow> False
     | Some t \<Rightarrow> (case lastEventCreatedAt c of None \<Rightarrow> True | Some u \<Rightarrow> u < t))"

text \<open>One event applied to a record: it may not overtake an event whose delivery is still
  pending, it becomes the pending event, and it is a newer event of the same subscription along
  an edge of the state table, a reconciliation of two events of one second, or the customer's
  next subscription after the recorded one has ended.\<close>

definition event_applied :: "SubscriptionRecord \<Rightarrow> SubscriptionRecord \<Rightarrow> bool" where
  "event_applied c d \<longleftrightarrow>
     lastEventId d \<noteq> None \<and> pendingEventId d = lastEventId d \<and> customerId d = customerId c \<and>
     (truthy (pendingEventId c) \<longrightarrow> pendingEventId c = lastEventId d) \<and>
     (subscriptionId d = subscriptionId c \<and> newer c d \<and> isValidTransition (state c) (state d) \<or>
      subscriptionId d = subscriptionId c \<and> lastEventCreatedAt d \<noteq> None \<and> lastEventCreatedAt c = lastEventCreatedAt d \<or>
      subscriptionId d \<noteq> subscriptionId c \<and> newer c d \<and> isTerminalSubscriptionState (state c))"

definition delivery_cleared :: "SubscriptionRecord \<Rightarrow> SubscriptionRecord \<Rightarrow> bool" where
  "delivery_cleared c d \<longleftrightarrow> pendingEventId c \<noteq> None \<and>
     d = c\<lparr>pendingEventId := None, version := version c + 1, updatedAt := updatedAt d\<rparr>"

definition legal_change :: "SubscriptionRecord option \<Rightarrow> SubscriptionRecord option \<Rightarrow> bool" where
  "legal_change x y \<longleftrightarrow> (case y of None \<Rightarrow> False | Some d \<Rightarrow> (case x of
       None \<Rightarrow> version d = 0
     | Some c \<Rightarrow> workspaceId d = workspaceId c \<and> version d = version c + 1 \<and> (event_applied c d \<or> delivery_cleared c d)))"

definition evolves :: "(string \<Rightarrow> SubscriptionRecord option) \<Rightarrow> (string \<Rightarrow> SubscriptionRecord option) \<Rightarrow> bool" where
  "evolves v v' \<longleftrightarrow> (\<forall>ws. legal_change\<^sup>*\<^sup>* (v ws) (v' ws))"

lemma evolves_refl [simp]: "evolves v v"
  by (simp add: evolves_def)

lemma evolves_trans: "evolves u v \<Longrightarrow> evolves v w \<Longrightarrow> evolves u w"
  unfolding evolves_def by (meson rtranclp_trans)

lemma evolves_update: "legal_change (v ws) (Some d) \<Longrightarrow> evolves v (v(ws \<mapsto> d))"
  by (auto simp: evolves_def)

text \<open>Records are never removed, their versions only grow, and a version stands for one record.\<close>

lemma legal_changes_version:
  "legal_change\<^sup>*\<^sup>* x y \<Longrightarrow> x = Some c \<Longrightarrow>
     \<exists>d. y = Some d \<and> workspaceId d = workspaceId c \<and> version c \<le> version d \<and> (version d = version c \<longrightarrow> d = c)"
proof (induction rule: rtranclp_induct)
  case (step y z)
  then obtain d where "y = Some d" "workspaceId d = workspaceId c" "version c \<le> version d" by blast
  with step(2) show ?case by (auto simp: legal_change_def split: option.splits)
qed simp

lemma evolves_same_version:
  assumes "evolves v v'" "v ws = Some c"
  obtains d where "v' ws = Some d" "workspaceId d = workspaceId c" "version c \<le> version d"
    "version d = version c \<longrightarrow> d = c"
proof -
  have "legal_change\<^sup>*\<^sup>* (v ws) (v' ws)" using assms(1) by (simp add: evolves_def)
  from legal_changes_version [OF this assms(2)] that show thesis by blast
qed

section \<open>The contract of a subscription store\<close>

text \<open>
  \<open>view w\<close> is the table of records. Other workers may act while an operation runs, along
  \<open>evolves\<close>; a load returns the record at one moment of its run, a save that answers \<open>True\<close>
  wrote its record at one moment at which the stored version was the expected one. A save that
  fails may or may not have written.
\<close>

definition save_effect :: "(SubscriptionRecord option \<Rightarrow> bool) \<Rightarrow> SubscriptionRecord \<Rightarrow> exn + bool \<Rightarrow>
    (string \<Rightarrow> SubscriptionRecord option) \<Rightarrow> (string \<Rightarrow> SubscriptionRecord option) \<Rightarrow> bool" where
  "save_effect guard r b v0 v1 \<longleftrightarrow> (\<exists>v v'. evolves v0 v \<and> evolves v' v1 \<and>
     (v' = v \<and> b \<noteq> Inr True \<or> v' = v(workspaceId r \<mapsto> r) \<and> b \<noteq> Inr False \<and> guard (v (workspaceId r))))"

definition version_matches :: "int \<Rightarrow> SubscriptionRecord option \<Rightarrow> bool" where
  "version_matches n x \<longleftrightarrow> (case x of None \<Rightarrow> n = 0 | Some c \<Rightarrow> version c = n)"

definition numbers_next :: "SubscriptionRecord \<Rightarrow> SubscriptionRecord option \<Rightarrow> bool" where
  "numbers_next r x \<longleftrightarrow> (case x of None \<Rightarrow> version r = 0 | Some c \<Rightarrow> version r = version c + 1)"

locale cas_store =
  fixes load :: "string \<Rightarrow> ('w, exn, SubscriptionRecord option) io"
    and saveIfVersion :: "SubscriptionRecord \<Rightarrow> int \<Rightarrow> ('w, exn, bool) io"
    and inv :: "'w \<Rightarrow> bool"
    and view :: "'w \<Rightarrow> string \<Rightarrow> SubscriptionRecord option"
  assumes load_law: "load ws w = (r, w') \<Longrightarrow> inv w \<Longrightarrow> inv w' \<and> evolves (view w) (view w') \<and>
      (\<forall>x. r = Inr x \<longrightarrow> (\<exists>v. evolves (view w) v \<and> evolves v (view w') \<and> x = v ws)
        \<and> (\<forall>c. x = Some c \<longrightarrow> workspaceId c = ws))"
    and save_law: "saveIfVersion d n w = (b, w') \<Longrightarrow> inv w \<Longrightarrow>
      inv w' \<and> save_effect (version_matches n) d b (view w) (view w')"

locale versioned_store = cas_store +
  assumes save_numbers: "saveIfVersion d n w = (b, w') \<Longrightarrow> inv w \<Longrightarrow>
      save_effect (\<lambda>x. version_matches n x \<and> numbers_next d x) d b (view w) (view w')"
begin

text \<open>A save of a legal successor of a record seen earlier is a legal change, whatever happened in
  between; so is a save of a first record.\<close>

lemma save_successor_legal:
  assumes "saveIfVersion d (version c) w = (b, w')" "inv w"
    and "evolves v (view w)" "v ws = Some c" "workspaceId d = ws" "legal_change (Some c) (Some d)"
  shows "inv w' \<and> evolves (view w) (view w') \<and> (b = Inr True \<longrightarrow> (\<exists>u. evolves u (view w') \<and> u ws = Some d))"
proof -
  have i: "inv w'" using save_law [OF assms(1,2)] by blast
  from save_numbers [OF assms(1,2)] obtain u u' where u: "evolves (view w) u" "evolves u' (view w')"
    "u' = u \<and> b \<noteq> Inr True \<or>
     u' = u(ws \<mapsto> d) \<and> b \<noteq> Inr False \<and> version_matches (version c) (u ws) \<and> numbers_next d (u ws)"
    unfolding save_effect_def assms(5) by blast
  show ?thesis
  proof (cases "u' = u \<and> b \<noteq> Inr True")
    case True
    then have "evolves (view w) (view w')" using u(1,2) evolves_trans by blast
    with True i show ?thesis by simp
  next
    case False
    with u have w: "u' = u(ws \<mapsto> d)" "version_matches (version c) (u ws)" by auto
    obtain c' where "u ws = Some c'" "version c' = version c \<longrightarrow> c' = c"
      by (rule evolves_same_version [OF evolves_trans [OF assms(3) u(1)] assms(4)]) blast
    with w(2) have "u ws = Some c" by (simp add: version_matches_def)
    with assms(6) have "evolves u u'" unfolding w(1) by (intro evolves_update) simp
    then have "evolves (view w) (view w')" using u(1,2) evolves_trans by blast
    moreover have "u' ws = Some d" by (simp add: w(1))
    ultimately show ?thesis using i u(2) by blast
  qed
qed

lemma save_first_legal:
  assumes "saveIfVersion d 0 w = (b, w')" "inv w" "workspaceId d = ws" "version d = 0"
  shows "inv w' \<and> evolves (view w) (view w') \<and> (b = Inr True \<longrightarrow> (\<exists>u. evolves u (view w') \<and> u ws = Some d))"
proof -
  have i: "inv w'" using save_law [OF assms(1,2)] by blast
  from save_numbers [OF assms(1,2)] obtain u u' where u: "evolves (view w) u" "evolves u' (view w')"
    "u' = u \<and> b \<noteq> Inr True \<or>
     u' = u(ws \<mapsto> d) \<and> b \<noteq> Inr False \<and> version_matches 0 (u ws) \<and> numbers_next d (u ws)"
    unfolding save_effect_def assms(3) by blast
  show ?thesis
  proof (cases "u' = u \<and> b \<noteq> Inr True")
    case True
    then have "evolves (view w) (view w')" using u(1,2) evolves_trans by blast
    with True i show ?thesis by simp
  next
    case False
    with u have w: "u' = u(ws \<mapsto> d)" "version_matches 0 (u ws)" "numbers_next d (u ws)" by auto
    with assms(4) have "u ws = None"
      by (auto simp: version_matches_def numbers_next_def split: option.splits)
    with assms(4) have "evolves u u'" unfolding w(1) by (intro evolves_update) (simp add: legal_change_def)
    then have "evolves (view w) (view w')" using u(1,2) evolves_trans by blast
    moreover have "u' ws = Some d" by (simp add: w(1))
    ultimately show ?thesis using i u(2) by blast
  qed
qed

end

subsection \<open>The process-local store\<close>

text \<open>It compares versions, but does not tell an absent record from one of version 0; so it meets
  the first contract only.\<close>

definition sub_inv :: "'a InMemorySubscriptionStore_scheme \<Rightarrow> bool" where
  "sub_inv w \<longleftrightarrow> (\<forall>ws c. records w ws = Some c \<longrightarrow> workspaceId c = ws)"

interpretation local_store: cas_store sub_load sub_saveIfVersion sub_inv records
proof unfold_locales
  fix ws r w w'
  assume "sub_load ws w = (r, w')" and i: "sub_inv w"
  then have "w' = w" "r = Inr (records w ws)" by (auto simp: sub_load_def io_defs)
  with i show "sub_inv w' \<and> evolves (records w) (records w') \<and>
      (\<forall>x. r = Inr x \<longrightarrow> (\<exists>v. evolves (records w) v \<and> evolves v (records w') \<and> x = v ws)
        \<and> (\<forall>c. x = Some c \<longrightarrow> workspaceId c = ws))"
    by (auto simp: sub_inv_def intro: exI [of _ "records w"])
next
  fix d n b w w'
  assume save: "sub_saveIfVersion d n w = (b, w')" and "sub_inv w"
  then have "sub_inv w'" by (auto simp: sub_saveIfVersion_def io_defs sub_inv_def split: option.splits if_splits)
  moreover have "save_effect (version_matches n) d b (records w) (records w')"
  proof (cases "version_matches n (records w (workspaceId d))")
    case True
    with save have "b = Inr True" "records w' = (records w)(workspaceId d \<mapsto> d)"
      by (auto simp: sub_saveIfVersion_def version_matches_def io_defs split: option.splits)
    with True show ?thesis
      unfolding save_effect_def by (intro conjI exI [of _ "records w"] exI [of _ "records w'"]) auto
  next
    case False
    with save have "b = Inr False" "w' = w"
      by (auto simp: sub_saveIfVersion_def version_matches_def io_defs split: option.splits if_splits)
    then show ?thesis
      unfolding save_effect_def by (intro conjI exI [of _ "records w"]) auto
  qed
  ultimately show "sub_inv w' \<and> save_effect (version_matches n) d b (records w) (records w')" ..
qed

subsection \<open>The store on files\<close>

definition good_record :: "string \<Rightarrow> string \<Rightarrow> exn + SubscriptionRecord \<Rightarrow> bool" where
  "good_record f ws x \<longleftrightarrow> (case x of Inl _ \<Rightarrow> False
     | Inr r \<Rightarrow> assertSubscriptionRecord r = Inr () \<and> workspaceId r = ws \<and> fileName ws = f)"

text \<open>The files of one name: those of one workspace, with version files numbered without gaps from
  0, or from the version after the file of the older layout.\<close>

definition first_version :: "(exn + SubscriptionRecord) option \<Rightarrow> nat" where
  "first_version l = (case l of Some (Inr r) \<Rightarrow> Suc (nat (version r)) | _ \<Rightarrow> 0)"

definition dir_ok_for :: "string \<Rightarrow> string \<Rightarrow> (nat \<Rightarrow> (exn + SubscriptionRecord) option) \<Rightarrow> nat option \<Rightarrow>
    (exn + SubscriptionRecord) option \<Rightarrow> bool" where
  "dir_ok_for ws f vf tp l \<longleftrightarrow>
     (case l of None \<Rightarrow> True | Some x \<Rightarrow> good_record f ws x) \<and>
     (\<forall>v x. vf v = Some x \<longrightarrow> (\<exists>r. x = Inr r \<and> good_record f ws x \<and> version r = int v)) \<and>
     (\<forall>v. vf v \<noteq> None \<longleftrightarrow> first_version l \<le> v \<and> (\<exists>t. tp = Some t \<and> v \<le> t)) \<and>
     (\<forall>t. tp = Some t \<longrightarrow> first_version l \<le> t)"

definition dir_ok :: "string \<Rightarrow> (nat \<Rightarrow> (exn + SubscriptionRecord) option) \<Rightarrow> nat option \<Rightarrow>
    (exn + SubscriptionRecord) option \<Rightarrow> bool" where
  "dir_ok f vf tp l \<longleftrightarrow> (\<exists>ws. dir_ok_for ws f vf tp l)"

lemma dir_ok_file:
  "dir_ok_for ws f vf tp l \<Longrightarrow> vf v = Some x \<Longrightarrow>
     \<exists>r. x = Inr r \<and> assertSubscriptionRecord r = Inr () \<and> workspaceId r = ws \<and> fileName ws = f \<and> version r = int v"
  unfolding dir_ok_for_def good_record_def by fastforce

lemma dir_ok_legacy:
  "dir_ok_for ws f vf tp (Some x) \<Longrightarrow>
     \<exists>r. x = Inr r \<and> assertSubscriptionRecord r = Inr () \<and> workspaceId r = ws \<and> fileName ws = f"
  by (auto simp: dir_ok_for_def good_record_def split: sum.splits)

lemma dir_ok_range:
  "dir_ok_for ws f vf tp l \<Longrightarrow> vf v \<noteq> None \<longleftrightarrow> first_version l \<le> v \<and> (\<exists>t. tp = Some t \<and> v \<le> t)"
  "dir_ok_for ws f vf (Some t) l \<Longrightarrow> first_version l \<le> t"
  by (simp_all add: dir_ok_for_def)

definition fs_inv :: "sub_files \<Rightarrow> bool" where
  "fs_inv fs \<longleftrightarrow> (\<forall>f. dir_ok f (version_files fs f) (newest_file fs f) (legacy_file fs f))"

definition fs_view :: "sub_files \<Rightarrow> string \<Rightarrow> SubscriptionRecord option" where
  "fs_view fs ws = (case fs_load_now fs ws of Inl _ \<Rightarrow> None | Inr x \<Rightarrow> x)"

text \<open>Other processes only add version files, and their changes are legal.\<close>

definition peaceful :: "(sub_files \<Rightarrow> sub_files) \<Rightarrow> bool" where
  "peaceful others \<longleftrightarrow> (\<forall>fs. fs_inv fs \<longrightarrow> fs_inv (others fs) \<and> evolves (fs_view fs) (fs_view (others fs)) \<and>
     legacy_file (others fs) = legacy_file fs \<and>
     (\<forall>f v. version_files fs f v \<noteq> None \<longrightarrow> version_files (others fs) f v = version_files fs f v))"

lemma assert_version: "assertSubscriptionRecord r = Inr () \<Longrightarrow> 0 \<le> version r"
  by (auto simp: assertSubscriptionRecord_def safe_nat_def split: if_splits)

text \<open>What a load returns on well-formed files.\<close>

definition dir_head :: "(nat \<Rightarrow> (exn + SubscriptionRecord) option) \<Rightarrow> nat option \<Rightarrow> (exn + SubscriptionRecord) option \<Rightarrow>
    (exn + SubscriptionRecord) option" where
  "dir_head vf tp l = (case tp of Some t \<Rightarrow> vf t | None \<Rightarrow> l)"

lemma fs_load_head:
  assumes "dir_ok (fileName ws) (version_files fs (fileName ws)) (newest_file fs (fileName ws)) (legacy_file fs (fileName ws))"
  shows "fs_load_now fs ws =
     (case dir_head (version_files fs (fileName ws)) (newest_file fs (fileName ws)) (legacy_file fs (fileName ws)) of
        None \<Rightarrow> Inr None
      | Some (Inl e) \<Rightarrow> Inl e
      | Some (Inr r) \<Rightarrow> if workspaceId r = ws then Inr (Some r)
          else Inl (Error (''Subscription workspace mismatch at '' @ fileName ws)))"
proof -
  let ?vf = "version_files fs (fileName ws)" and ?t = "newest_file fs (fileName ws)" and ?l = "legacy_file fs (fileName ws)"
  from assms obtain o' where ok: "dir_ok_for o' (fileName ws) ?vf ?t ?l" unfolding dir_ok_def by blast
  show ?thesis
  proof (cases ?t)
    case None
    show ?thesis
    proof (cases ?l)
      case None
      with \<open>?t = None\<close> show ?thesis by (simp add: fs_load_now_def dir_head_def Let_def)
    next
      case (Some y)
      with ok obtain l where l: "y = Inr l" "assertSubscriptionRecord l = Inr ()" by (auto dest: dir_ok_legacy)
      with None Some show ?thesis by (simp add: fs_load_now_def dir_head_def readRecord_def Let_def)
    qed
  next
    case (Some n)
    with dir_ok_range(1) [OF ok, of n] dir_ok_range(2) [of o' "fileName ws" ?vf n ?l] ok obtain x where x: "?vf n = Some x" by auto
    from dir_ok_file [OF ok x] obtain r
      where r: "x = Inr r" "assertSubscriptionRecord r = Inr ()" "workspaceId r = o'" "version r = int n" by blast
    show ?thesis
    proof (cases ?l)
      case None
      with Some x r show ?thesis by (simp add: fs_load_now_def dir_head_def readRecord_def Let_def)
    next
      fix y assume y: "?l = Some y"
      with ok obtain l where l: "y = Inr l" "assertSubscriptionRecord l = Inr ()" "workspaceId l = o'"
        by (auto dest: dir_ok_legacy)
      from dir_ok_range(2) [of o' "fileName ws" ?vf n ?l] ok Some y l have "Suc (nat (version l)) \<le> n"
        by (simp add: first_version_def)
      with r(4) have "version l < version r" by linarith
      with Some x r y l show ?thesis by (simp add: fs_load_now_def dir_head_def readRecord_def Let_def)
    qed
  qed
qed

lemma fs_view_head:
  assumes "fs_inv fs"
  shows "fs_view fs ws =
     (case dir_head (version_files fs (fileName ws)) (newest_file fs (fileName ws)) (legacy_file fs (fileName ws)) of
        Some (Inr r) \<Rightarrow> if workspaceId r = ws then Some r else None | _ \<Rightarrow> None)"
  using fs_load_head [of ws fs] assms by (auto simp: fs_view_def fs_inv_def split: option.splits sum.splits)

text \<open>The slot of the next version is free only if the directory has not advanced.\<close>

lemma next_slot_free:
  assumes "dir_ok_for ws f vf tp l" "vf (case tp' of Some t \<Rightarrow> Suc t | None \<Rightarrow> first_version l) = None"
    and "case tp' of Some t \<Rightarrow> vf t \<noteq> None | None \<Rightarrow> True"
  shows "tp = tp'"
proof (cases tp')
  case None
  show ?thesis
  proof (cases tp)
    case (Some t)
    with assms(1) dir_ok_range(2) have "first_version l \<le> t" by blast
    with dir_ok_range(1) [OF assms(1), of "first_version l"] Some assms(2) None show ?thesis by simp
  qed (use None in simp)
next
  case (Some t)
  with assms(2,3) have "vf (Suc t) = None" "vf t \<noteq> None" by auto
  with dir_ok_range(1) [OF assms(1), of t] dir_ok_range(1) [OF assms(1), of "Suc t"] Some show ?thesis by auto
qed

lemma dir_ok_link:
  assumes ok: "dir_ok_for ws f vf tp l" and r: "assertSubscriptionRecord r = Inr ()" "workspaceId r = ws" "fileName ws = f"
    and v: "nat (version r) = (case tp of Some t \<Rightarrow> Suc t | None \<Rightarrow> first_version l)"
  shows "dir_ok_for ws f (vf(nat (version r) \<mapsto> Inr r)) (Some (case tp of None \<Rightarrow> nat (version r) | Some u \<Rightarrow> max u (nat (version r)))) l"
proof -
  have nn: "0 \<le> version r" using r(1) by (rule assert_version)
  have new: "(case tp of None \<Rightarrow> nat (version r) | Some u \<Rightarrow> max u (nat (version r))) = nat (version r)"
    using v by (cases tp) auto
  have range: "(vf(nat (version r) \<mapsto> Inr r)) u \<noteq> None \<longleftrightarrow> first_version l \<le> u \<and> u \<le> nat (version r)" for u
  proof (cases tp)
    case None
    with dir_ok_range(1) [OF ok, of u] v show ?thesis by auto
  next
    case (Some t)
    with dir_ok_range(1) [OF ok, of u] dir_ok_range(2) [OF ok [unfolded Some]] v show ?thesis by auto
  qed
  have "first_version l \<le> nat (version r)"
    using v dir_ok_range(2) [of ws f vf _ l] ok by (cases tp) force+
  moreover have "\<forall>u x. (vf(nat (version r) \<mapsto> Inr r)) u = Some x \<longrightarrow>
      (\<exists>r. x = Inr r \<and> good_record f ws x \<and> version r = int u)"
    using ok r nn by (auto simp: dir_ok_for_def good_record_def)
  ultimately show ?thesis
    using ok range unfolding dir_ok_for_def new by (auto simp del: fun_upd_apply)
qed

lemma fs_load_simp: "fs_load ws fs = (fs_load_now fs ws, fs)"
  by (simp add: fs_load_def)

text \<open>A load that finds a record, and one that finds none, in terms of the files.\<close>

lemma fs_load_cases:
  assumes "fs_inv fs" "fs_load_now fs ws = Inr x" "f = fileName ws"
  obtains (absent) "x = None" "newest_file fs f = None" "legacy_file fs f = None"
  | (found) r where "x = Some r" "workspaceId r = ws" "dir_ok_for ws f (version_files fs f) (newest_file fs f) (legacy_file fs f)"
      "dir_head (version_files fs f) (newest_file fs f) (legacy_file fs f) = Some (Inr r)"
      "nat (version r) + 1 = (case newest_file fs f of Some t \<Rightarrow> Suc t | None \<Rightarrow> first_version (legacy_file fs f))"
      "case newest_file fs f of Some t \<Rightarrow> version_files fs f t \<noteq> None | None \<Rightarrow> True"
proof -
  let ?h = "dir_head (version_files fs f) (newest_file fs f) (legacy_file fs f)"
  from assms(1) obtain o' where ok: "dir_ok_for o' f (version_files fs f) (newest_file fs f) (legacy_file fs f)"
    unfolding fs_inv_def dir_ok_def by blast
  have load: "(case ?h of None \<Rightarrow> Inr None | Some (Inl e) \<Rightarrow> Inl e
      | Some (Inr r) \<Rightarrow> if workspaceId r = ws then Inr (Some r)
          else Inl (Error (''Subscription workspace mismatch at '' @ fileName ws))) = Inr x"
    using fs_load_head [of ws fs] assms unfolding fs_inv_def by simp
  have slot: "version_files fs f t \<noteq> None" if "newest_file fs f = Some t" for t
    using dir_ok_range(1) [OF ok, of t] dir_ok_range(2) [of o' f "version_files fs f" t "legacy_file fs f"] ok that by simp
  show thesis
  proof (cases ?h)
    case None
    with load have "x = None" by simp
    moreover have "newest_file fs f = None" using None slot by (auto simp: dir_head_def split: option.splits)
    moreover have "legacy_file fs f = None" using None calculation(2) by (simp add: dir_head_def)
    ultimately show thesis by (rule absent)
  next
    case (Some y)
    from load Some obtain r where r: "y = Inr r" "workspaceId r = ws" "x = Some r"
      by (cases y) (auto split: if_splits)
    have own: "workspaceId r = o' \<and> nat (version r) + 1 =
        (case newest_file fs f of Some t \<Rightarrow> Suc t | None \<Rightarrow> first_version (legacy_file fs f))"
    proof (cases "newest_file fs f")
      case None
      with Some r ok show ?thesis by (auto simp: dir_head_def first_version_def dest: dir_ok_legacy)
    next
      fix t assume t: "newest_file fs f = Some t"
      with Some r have "version_files fs f t = Some (Inr r)" by (simp add: dir_head_def)
      from dir_ok_file [OF ok this] t show ?thesis by auto
    qed
    with r Some ok slot show thesis by (intro found [of r]) (auto split: option.splits)
  qed
qed

text \<open>One link after a load that matched, whatever peaceful neighbours did in between.\<close>

lemma fs_link_effect:
  assumes inv: "fs_inv fs" and pe: "peaceful others"
    and load: "fs_load_now fs (workspaceId r) = Inr x" and a: "assertSubscriptionRecord r = Inr ()"
    and num: "numbers_next r x" and w: "writeVersion r (others fs) = (b, fs')"
  shows "fs_inv fs' \<and> (b = Inr False \<and> fs' = others fs \<or>
     b = Inr True \<and> fs_view (others fs) (workspaceId r) = x \<and> fs_view fs' = (fs_view (others fs))(workspaceId r \<mapsto> r))"
proof -
  let ?ws = "workspaceId r" let ?f = "fileName ?ws" and ?v = "nat (version r)" and ?o = "others fs"
  from pe inv have oinv: "fs_inv ?o" and keep: "\<And>f v. version_files fs f v \<noteq> None \<Longrightarrow> version_files ?o f v = version_files fs f v"
    and leg: "legacy_file ?o = legacy_file fs" unfolding peaceful_def by blast+
  show ?thesis
  proof (cases "version_files ?o ?f ?v = None")
    case False
    with w oinv show ?thesis by (simp add: writeVersion_def Let_def)
  next
    case True
    let ?tp = "newest_file fs ?f" and ?l = "legacy_file fs ?f"
    have nn: "0 \<le> version r" using a by (rule assert_version)
    have v: "?v = (case ?tp of Some t \<Rightarrow> Suc t | None \<Rightarrow> first_version ?l) \<and>
        (case ?tp of Some t \<Rightarrow> version_files fs ?f t \<noteq> None | None \<Rightarrow> True)"
      using inv load refl
    proof (cases rule: fs_load_cases)
      case absent
      with num show ?thesis by (simp add: numbers_next_def first_version_def)
    next
      case (found c)
      have "0 \<le> version c" using found(4) dir_ok_file [OF found(3)] found(3)
        by (cases ?tp; cases ?l) (auto simp: dir_head_def dest: dir_ok_legacy assert_version)
      with found num show ?thesis by (auto simp: numbers_next_def nat_add_distrib)
    qed
    from oinv obtain o' where ok: "dir_ok_for o' ?f (version_files ?o ?f) (newest_file ?o ?f) ?l"
      unfolding fs_inv_def dir_ok_def leg by blast
    have top: "newest_file ?o ?f = ?tp"
      by (rule next_slot_free [OF ok]) (use True v keep in \<open>auto split: option.splits\<close>)
    have head: "dir_head (version_files ?o ?f) (newest_file ?o ?f) (legacy_file ?o ?f) =
        dir_head (version_files fs ?f) ?tp ?l"
      unfolding top leg using v keep by (auto simp: dir_head_def split: option.splits)
    have same: "fs_view ?o ?ws = x"
      using fs_view_head [OF oinv, of ?ws] fs_view_head [OF inv, of ?ws] load unfolding head by (simp add: fs_view_def)
    have b: "b = Inr True" and fs': "fs' = ?o\<lparr>version_files := (version_files ?o)(?f := (version_files ?o ?f)(?v \<mapsto> Inr r)),
        newest_file := (newest_file ?o)(?f \<mapsto> (case newest_file ?o ?f of None \<Rightarrow> ?v | Some u \<Rightarrow> max u ?v))\<rparr>"
      using w True by (auto simp: writeVersion_def Let_def)
    have own: "dir_ok_for ?ws ?f (version_files ?o ?f) (newest_file ?o ?f) ?l \<and>
        (\<forall>ws'. ws' \<noteq> ?ws \<longrightarrow> fileName ws' = ?f \<longrightarrow> fs_view ?o ws' = None)"
      using inv load refl
    proof (cases rule: fs_load_cases)
      case absent
      with ok top have "version_files ?o ?f u = None" for u using dir_ok_range(1) [OF ok, of u] by simp
      with absent top leg show ?thesis
        by (simp add: dir_ok_for_def fs_view_head [OF oinv] dir_head_def first_version_def)
    next
      case (found c)
      have "o' = ?ws"
      proof (cases ?tp)
        case None
        with found(4) ok top show ?thesis using found(2) by (auto simp: dir_head_def dest!: dir_ok_legacy)
      next
        case (Some t)
        with found(4) have "version_files fs ?f t = Some (Inr c)" by (simp add: dir_head_def)
        with keep [of ?f t] have "version_files ?o ?f t = Some (Inr c)" by simp
        from dir_ok_file [OF ok this] found(2) show ?thesis by auto
      qed
      with ok have "dir_ok_for ?ws ?f (version_files ?o ?f) (newest_file ?o ?f) ?l" by simp
      moreover have "fs_view ?o ws' = None" if "ws' \<noteq> ?ws" "fileName ws' = ?f" for ws'
        using fs_view_head [OF oinv, of ws'] that head found(2,4) by simp
      ultimately show ?thesis by blast
    qed
    have "dir_ok_for ?ws ?f (version_files fs' ?f) (newest_file fs' ?f) (legacy_file fs' ?f)"
      using dir_ok_link [OF conjunct1 [OF own] a refl refl] v top by (simp add: fs' leg)
    moreover have "dir_ok f (version_files fs' f) (newest_file fs' f) (legacy_file fs' f)" if "f \<noteq> ?f" for f
      using oinv that by (simp add: fs_inv_def fs')
    ultimately have inv': "fs_inv fs'" unfolding fs_inv_def dir_ok_def by metis
    have "version_files fs' ?f (case newest_file ?o ?f of None \<Rightarrow> ?v | Some u \<Rightarrow> max u ?v) = Some (Inr r)"
      using v top by (auto simp: fs' split: option.splits)
    then have new: "dir_head (version_files fs' ?f) (newest_file fs' ?f) (legacy_file fs' ?f) = Some (Inr r)"
      by (simp add: dir_head_def fs')
    have "fs_view fs' ws' = ((fs_view ?o)(?ws \<mapsto> r)) ws'" for ws'
    proof (cases "fileName ws' = ?f")
      case True
      with own new fs_view_head [OF inv', of ws'] show ?thesis by auto
    next
      case False
      with fs_view_head [OF inv', of ws'] fs_view_head [OF oinv, of ws'] show ?thesis by (auto simp: fs')
    qed
    with inv' b same show ?thesis by blast
  qed
qed

lemma file_save_effect:
  assumes pe: "peaceful others" and save: "fs_saveIfVersion others d n fs = (b, fs')" and inv: "fs_inv fs"
  shows "fs_inv fs' \<and> save_effect (\<lambda>x. version_matches n x \<and> numbers_next d x) d b (fs_view fs) (fs_view fs')"
proof -
  let ?load = "fs_load_now fs (workspaceId d)"
  have idle: "?thesis" if "fs' = fs" "b \<noteq> Inr True"
    using that inv unfolding save_effect_def by (auto intro!: exI [of _ "fs_view fs"])
  consider (refused) "fs' = fs" "b \<noteq> Inr True"
    | (linked) x where "assertSubscriptionRecord d = Inr ()" "?load = Inr x" "version_matches n x" "numbers_next d x"
        "writeVersion d (others fs) = (b, fs')"
  proof (cases "assertSubscriptionRecord d")
    case (Inl e)
    with save show thesis by (intro refused) (auto simp: fs_saveIfVersion_def io_defs)
  next
    case (Inr u)
    show thesis
    proof (cases ?load)
      case (Inl e)
      with save Inr show thesis
        by (intro refused) (auto simp: fs_saveIfVersion_def io_defs fs_load_simp split: if_splits)
    next
      fix x assume x: "?load = Inr x"
      show thesis
      proof (cases "safe_nat n \<and> version_matches n x \<and> numbers_next d x")
        case True
        with save Inr x show thesis
          by (intro linked [of x])
            (auto simp: fs_saveIfVersion_def io_defs fs_load_simp version_matches_def numbers_next_def split: option.splits if_splits)
      next
        case False
        with save Inr x show thesis
          by (intro refused)
            (auto simp: fs_saveIfVersion_def io_defs fs_load_simp version_matches_def numbers_next_def split: option.splits if_splits)
      qed
    qed
  qed
  then show ?thesis
  proof cases
    case refused
    then show ?thesis by (rule idle)
  next
    case (linked x)
    have ev: "evolves (fs_view fs) (fs_view (others fs))" using pe inv by (simp add: peaceful_def)
    from fs_link_effect [OF inv pe linked(2,1,4,5)] have i: "fs_inv fs'" and
      e: "b = Inr False \<and> fs' = others fs \<or> b = Inr True \<and> fs_view (others fs) (workspaceId d) = x \<and>
        fs_view fs' = (fs_view (others fs))(workspaceId d \<mapsto> d)" by blast+
    from e show ?thesis
    proof (elim disjE conjE)
      assume "b = Inr False" "fs' = others fs"
      with i ev show ?thesis
        unfolding save_effect_def by (intro conjI exI [of _ "fs_view (others fs)"]) auto
    next
      assume t: "b = Inr True" "fs_view (others fs) (workspaceId d) = x"
        "fs_view fs' = (fs_view (others fs))(workspaceId d \<mapsto> d)"
      show ?thesis
        unfolding save_effect_def
        by (intro conjI i exI [of _ "fs_view (others fs)"] exI [of _ "fs_view fs'"]) (use t ev linked in auto)
    qed
  qed
qed

lemma save_effect_mono:
  "save_effect g d b u v \<Longrightarrow> (\<And>x. g x \<Longrightarrow> g' x) \<Longrightarrow> save_effect g' d b u v"
  unfolding save_effect_def by blast

lemma file_store_versioned:
  assumes "peaceful others"
  shows "versioned_store fs_load (fs_saveIfVersion others) fs_inv fs_view"
proof unfold_locales
  fix ws r fs fs' assume l: "fs_load ws fs = (r, fs')" and i: "fs_inv fs"
  from l have "fs' = fs" "\<forall>x. r = Inr x \<longrightarrow> x = fs_view fs ws" by (auto simp: fs_load_simp fs_view_def)
  moreover have "\<forall>c. fs_view fs ws = Some c \<longrightarrow> workspaceId c = ws"
    using fs_view_head [OF i, of ws] by (auto split: option.splits sum.splits if_splits)
  ultimately show "fs_inv fs' \<and> evolves (fs_view fs) (fs_view fs') \<and>
      (\<forall>x. r = Inr x \<longrightarrow> (\<exists>v. evolves (fs_view fs) v \<and> evolves v (fs_view fs') \<and> x = v ws)
        \<and> (\<forall>c. x = Some c \<longrightarrow> workspaceId c = ws))"
    using i by (auto intro: exI [of _ "fs_view fs"])
next
  fix d n fs b fs' assume s: "fs_saveIfVersion others d n fs = (b, fs')" and i: "fs_inv fs"
  note eff = file_save_effect [OF assms s i]
  then show "save_effect (\<lambda>x. version_matches n x \<and> numbers_next d x) d b (fs_view fs) (fs_view fs')" by blast
  from eff show "fs_inv fs' \<and> save_effect (version_matches n) d b (fs_view fs) (fs_view fs')"
    by (auto elim: save_effect_mono)
qed

lemma peaceful_id: "peaceful id"
  by (simp add: peaceful_def)

interpretation file_store: versioned_store fs_load "fs_saveIfVersion id" fs_inv fs_view
  by (rule file_store_versioned [OF peaceful_id])

section \<open>Properties\<close>

text \<open>C10. Compare-and-set on files: while other processes only add legal versions, a save that
  answers True wrote exactly one record, at a moment at which the stored version was the expected
  one and one below the new record's (or both were the first), and one that answers False wrote
  nothing; the files stay numbered without gaps. The check-then-link of the code is atomic in
  effect.\<close>

theorem file_save_is_compare_and_set:
  assumes "peaceful others" "fs_saveIfVersion others d n fs = (b, fs')" "fs_inv fs"
  shows "fs_inv fs' \<and> (\<exists>v v'. evolves (fs_view fs) v \<and> evolves v' (fs_view fs') \<and>
     (v' = v \<and> b \<noteq> Inr True \<or> v' = v(workspaceId d \<mapsto> d) \<and> b \<noteq> Inr False \<and>
       (case v (workspaceId d) of None \<Rightarrow> n = 0 \<and> version d = 0
        | Some c \<Rightarrow> version c = n \<and> version d = version c + 1)))"
proof -
  from file_save_effect [OF assms] obtain v v' where "fs_inv fs'" "evolves (fs_view fs) v" "evolves v' (fs_view fs')"
    "v' = v \<and> b \<noteq> Inr True \<or> v' = v(workspaceId d \<mapsto> d) \<and> b \<noteq> Inr False \<and>
       version_matches n (v (workspaceId d)) \<and> numbers_next d (v (workspaceId d))"
    unfolding save_effect_def by blast
  then show ?thesis
    by (intro conjI exI [of _ v] exI [of _ v']) (auto simp: version_matches_def numbers_next_def split: option.splits)
qed

text \<open>The process-local store cannot tell an absent record from the first one: two creations
  that both found no record are both told they won, and the second replaces the first under the
  same version number.\<close>

theorem local_store_first_writes_collide:
  assumes "records w ws = None" "workspaceId a = ws" "workspaceId b = ws" "version a = 0" "version b = 0"
  shows "\<exists>w1 w2. sub_saveIfVersion a 0 w = (Inr True, w1) \<and> sub_saveIfVersion b 0 w1 = (Inr True, w2)
     \<and> records w1 ws = Some a \<and> records w2 ws = Some b"
  using assms by (simp add: sub_saveIfVersion_def io_defs)

text \<open>File names do not keep workspaces apart, since the hexadecimal form of an unsafe id can
  be the plain name of another: once one of two such workspaces has a record, every load of the
  other one throws.\<close>

theorem colliding_ids_lock_out:
  assumes "fs_inv fs" "fileName a = fileName b" "a \<noteq> b" "fs_view fs a = Some r"
  shows "\<exists>e. fs_load_now fs b = Inl e"
proof -
  let ?h = "dir_head (version_files fs (fileName b)) (newest_file fs (fileName b)) (legacy_file fs (fileName b))"
  from assms(4) have "?h = Some (Inr r) \<and> workspaceId r = a"
    using fs_view_head [OF assms(1), of a] assms(2) by (auto split: option.splits sum.splits if_splits)
  with assms(3) fs_load_head [of b fs] assms(1) show ?thesis by (simp add: fs_inv_def)
qed

text \<open>A history of a record: one transition after the other, the clock read for each.\<close>

fun transitions :: "('w, exn, int) io \<Rightarrow> SubscriptionRecord \<Rightarrow> (SubscriptionPatch \<times> TransitionOptions) list \<Rightarrow>
    ('w, exn, SubscriptionRecord) io" where
  "transitions now c [] = ret c"
| "transitions now c ((p, opts) # ps) = andThen (applyTransition now c p opts) (\<lambda>d. transitions now d ps)"

text \<open>The life of a subscription: it is not begun, in use or over.\<close>

fun phase :: "SubscriptionState \<Rightarrow> nat" where
  "phase Incomplete = 0"
| "phase Canceled = 2"
| "phase IncompleteExpired = 2"
| "phase _ = 1"

definition follows_table :: "SubscriptionState list \<Rightarrow> bool" where
  "follows_table ss \<longleftrightarrow> successively (\<lambda>s t. s = t \<or> t \<in> set (TRANSITIONS s)) ss"

lemma valid_transition_phase:
  assumes "isValidTransition s t"
  shows "phase s \<le> phase t" "phase s = 2 \<Longrightarrow> t = s" "t = IncompleteExpired \<Longrightarrow> s = Incomplete \<or> s = t" "t = Incomplete \<Longrightarrow> s = t"
  using assms by (cases s; cases t; simp add: isValidTransition_def)+

lemma transition_fields:
  assumes "applyTransition now c p opts w = (Inr d, w')"
  shows "isValidTransition (state c) (p_state p)" "state d = p_state p" "version d = version c + 1"
    "workspaceId d = nullish (p_workspaceId p) (workspaceId c)" "customerId d = nullish (p_customerId p) (customerId c)"
    "subscriptionId d = nullish (p_subscriptionId p) (subscriptionId c)"
    "lastEventId d = nullish_opt (o_eventId opts) (lastEventId c)"
  using assms by (auto simp: applyTransition_def io_defs overlay_def split: if_splits sum.splits prod.splits)

lemma last_given: "last (x # (case y of None \<Rightarrow> ys | Some z \<Rightarrow> z # ys)) = last (nullish y x # ys)"
  by (cases y) simp_all

text \<open>C11. Any history of transitions keeps to the state table. When it succeeds, its states form a path of the
  table (with self-loops) from the state of the record to the state of the result, every step has added
  one to the version, and the workspace, customer and subscription are the last ones the steps gave.
  Along the way a subscription only moves forward: one that is over stays in the state it ended in, none
  goes back to incomplete, and only one that never began can expire. When the history fails, the steps
  before some step form such a path, and that step leaves the table or the clock failed in it.\<close>

theorem transitions_keep_to_the_table:
  "case transitions now c ps w of
     (Inr d, w') \<Rightarrow> follows_table (state c # map (p_state \<circ> fst) ps) \<and> state d = last (state c # map (p_state \<circ> fst) ps)
       \<and> version d = version c + int (length ps)
       \<and> workspaceId d = last (workspaceId c # List.map_filter (p_workspaceId \<circ> fst) ps)
       \<and> customerId d = last (customerId c # List.map_filter (p_customerId \<circ> fst) ps)
       \<and> subscriptionId d = last (subscriptionId c # List.map_filter (p_subscriptionId \<circ> fst) ps)
       \<and> phase (state c) \<le> phase (state d) \<and> (phase (state c) = 2 \<longrightarrow> state d = state c)
       \<and> (state d = Incomplete \<longrightarrow> state c = Incomplete)
       \<and> (state d = IncompleteExpired \<longrightarrow> state c = Incomplete \<or> state c = IncompleteExpired)
   | (Inl e, w') \<Rightarrow> \<exists>k < length ps. follows_table (state c # map (p_state \<circ> fst) (take k ps))
       \<and> (\<not> follows_table (state c # map (p_state \<circ> fst) (take (Suc k) ps)) \<or> (\<exists>v. now v = (Inl e, w')))"
proof (induction ps arbitrary: c w)
  case Nil
  show ?case by (simp add: ret_def follows_table_def map_filter_simps)
next
  case (Cons x ps)
  obtain p opts where x: "x = (p, opts)" by (cases x)
  obtain r w1 where a: "applyTransition now c p opts w = (r, w1)" by fastforce
  show ?case
  proof (cases r)
    case (Inr d)
    note f = transition_fields [OF a [unfolded Inr]]
    note ph = valid_transition_phase [OF f(1) [folded f(2)]]
    have step: "transitions now c (x # ps) w = transitions now d ps w1" by (simp add: x andThen_def a Inr)
    have path: "follows_table (state c # map (p_state \<circ> fst) (x # qs)) \<longleftrightarrow> follows_table (state d # map (p_state \<circ> fst) qs)" for qs
      using f(1,2) by (auto simp: x follows_table_def isValidTransition_def)
    show ?thesis
    proof (cases "transitions now d ps w1")
      case (Pair s w2)
      show ?thesis
      proof (cases s)
        case (Inl e)
        with Cons.IH [of d w1] Pair obtain k where "k < length ps" "follows_table (state d # map (p_state \<circ> fst) (take k ps))"
          "\<not> follows_table (state d # map (p_state \<circ> fst) (take (Suc k) ps)) \<or> (\<exists>v. now v = (Inl e, w2))" by auto
        then show ?thesis unfolding step Pair Inl prod.case sum.case
          by (intro exI [of _ "Suc k"]) (simp only: length_Cons Suc_less_eq take_Suc_Cons path simp_thms)
      next
        case (Inr d')
        with Cons.IH [of d w1] Pair have ih: "follows_table (state d # map (p_state \<circ> fst) ps)"
          "state d' = last (state d # map (p_state \<circ> fst) ps)" "version d' = version d + int (length ps)"
          "workspaceId d' = last (workspaceId d # List.map_filter (p_workspaceId \<circ> fst) ps)"
          "customerId d' = last (customerId d # List.map_filter (p_customerId \<circ> fst) ps)"
          "subscriptionId d' = last (subscriptionId d # List.map_filter (p_subscriptionId \<circ> fst) ps)"
          "phase (state d) \<le> phase (state d')" "phase (state d) = 2 \<Longrightarrow> state d' = state d"
          "state d' = Incomplete \<Longrightarrow> state d = Incomplete"
          "state d' = IncompleteExpired \<Longrightarrow> state d = Incomplete \<or> state d = IncompleteExpired" by auto
        have last_state: "state d' = last (state c # map (p_state \<circ> fst) (x # ps))" using ih(2) f(2) by (simp add: x)
        have over: "state d' = state c" if "phase (state c) = 2"
          using ph(2) [OF that] ih(8) that by simp
        have count: "version d' = version c + int (length (x # ps))" using ih(3) f(3) by simp
        have given: "workspaceId d' = last (workspaceId c # List.map_filter (p_workspaceId \<circ> fst) (x # ps))"
          "customerId d' = last (customerId c # List.map_filter (p_customerId \<circ> fst) (x # ps))"
          "subscriptionId d' = last (subscriptionId c # List.map_filter (p_subscriptionId \<circ> fst) (x # ps))"
          unfolding ih(4-6) f(4-6) by (simp_all add: x map_filter_simps last_given del: last.simps)
        have forward: "phase (state c) \<le> phase (state d')" using ph(1) ih(7) by (rule order_trans)
        have begun: "state d' = Incomplete \<longrightarrow> state c = Incomplete" using ph(4) ih(9) by metis
        have expired: "state d' = IncompleteExpired \<longrightarrow> state c = Incomplete \<or> state c = IncompleteExpired"
          using ph(3,4) ih(10) by metis
        show ?thesis unfolding step Pair Inr prod.case sum.case path
          by (intro conjI impI ih(1) last_state count given forward over begun [rule_format] expired [rule_format])
      qed
    qed
  next
    case (Inl e)
    have step: "transitions now c (x # ps) w = (Inl e, w1)" by (simp add: x andThen_def a Inl)
    have "\<not> isValidTransition (state c) (p_state p) \<or> now w = (Inl e, w1)"
      using a Inl by (auto simp: applyTransition_def io_defs split: if_splits sum.splits prod.splits)
    then show ?thesis unfolding step prod.case sum.case
      by (intro exI [of _ 0]) (auto simp: x follows_table_def isValidTransition_def)
  qed
qed

section \<open>The properties at concrete stores\<close>

definition sx_record :: SubscriptionRecord where
  "sx_record = makeSubscriptionRecord ''a/b'' ''cus'' ''sub'' Active None None None None (Some ''e1'') (Some 5) (Some ''e1'') 9"

definition sx_empty :: sub_files where
  "sx_empty = \<lparr>version_files = (\<lambda>_ _. None), newest_file = (\<lambda>_. None), legacy_file = (\<lambda>_. None)\<rparr>"

lemma sx_empty_inv: "fs_inv sx_empty"
  by (simp add: fs_inv_def dir_ok_def dir_ok_for_def sx_empty_def)

lemma sx_record_ok: "assertSubscriptionRecord sx_record = Inr ()"
  by (simp add: assertSubscriptionRecord_def sx_record_def makeSubscriptionRecord_def safe_nat_def safe_integer_def
      SUBSCRIPTION_STATES_def trim_def js_space_def)

lemma sx_save: "fst (fs_saveIfVersion id sx_record 0 sx_empty) = Inr True"
  by (simp add: fs_saveIfVersion_def io_defs sx_record_ok fs_load_simp fs_load_now_def sx_empty_def safe_nat_def
      safe_integer_def writeVersion_def Let_def) (simp add: sx_record_def makeSubscriptionRecord_def)

definition sx_files :: sub_files where
  "sx_files = snd (fs_saveIfVersion id sx_record 0 sx_empty)"

lemma sx_run: "fs_saveIfVersion id sx_record 0 sx_empty = (Inr True, sx_files)"
  using sx_save by (metis prod.collapse sx_files_def)

lemma sx_view: "fs_inv sx_files \<and> fs_view sx_files ''a/b'' = Some sx_record"
proof -
  have ws: "workspaceId sx_record = ''a/b''" "numbers_next sx_record None"
    by (simp_all add: sx_record_def makeSubscriptionRecord_def numbers_next_def)
  have l: "fs_load_now sx_empty (workspaceId sx_record) = Inr None"
    by (simp add: fs_load_now_def sx_empty_def Let_def)
  have "writeVersion sx_record (id sx_empty) = (Inr True, sx_files)"
    using sx_run by (simp add: fs_saveIfVersion_def io_defs sx_record_ok fs_load_simp l safe_nat_def safe_integer_def split: if_splits)
  from fs_link_effect [OF sx_empty_inv peaceful_id l sx_record_ok ws(2) this] ws(1) show ?thesis by auto
qed

theorem file_save_is_compare_and_set_witness:
  "fs_inv sx_files \<and> (\<exists>v v'. evolves (fs_view sx_empty) v \<and> evolves v' (fs_view sx_files) \<and>
     (v' = v \<and> Inr True \<noteq> (Inr True :: exn + bool) \<or> v' = v(workspaceId sx_record \<mapsto> sx_record) \<and>
       Inr True \<noteq> (Inr False :: exn + bool) \<and>
       (case v (workspaceId sx_record) of None \<Rightarrow> (0::int) = 0 \<and> version sx_record = 0
        | Some c \<Rightarrow> version c = 0 \<and> version sx_record = version c + 1)))"
  by (rule file_save_is_compare_and_set [OF peaceful_id sx_run sx_empty_inv])

theorem local_store_first_writes_collide_witness:
  "\<exists>w1 w2. sub_saveIfVersion sx_record 0 \<lparr>records = (\<lambda>_. None)\<rparr> = (Inr True, w1)
     \<and> sub_saveIfVersion (sx_record\<lparr>subscriptionId := ''other''\<rparr>) 0 w1 = (Inr True, w2)
     \<and> records w1 ''a/b'' = Some sx_record \<and> records w2 ''a/b'' = Some (sx_record\<lparr>subscriptionId := ''other''\<rparr>)"
  by (rule local_store_first_writes_collide) (simp_all add: sx_record_def makeSubscriptionRecord_def)

theorem colliding_ids_lock_out_witness:
  "\<exists>e. fs_load_now sx_files ''612f62'' = Inl e"
proof (rule colliding_ids_lock_out)
  show "fs_inv sx_files" and "fs_view sx_files ''a/b'' = Some sx_record" using sx_view by simp_all
  show "fileName ''a/b'' = fileName ''612f62''" by code_simp
qed simp

definition sx_to :: "SubscriptionState \<Rightarrow> SubscriptionPatch \<times> TransitionOptions" where
  "sx_to s = (patch_state s, \<lparr>o_eventId = None, o_eventCreatedAt = None, o_pendingEventId = None\<rparr>)"

theorem transitions_keep_to_the_table_witness:
  "\<exists>d. transitions (ret 7) sx_record [sx_to PastDue, sx_to Canceled] () = (Inr d, ()) \<and> version d = 2 \<and> phase (state d) = 2
     \<and> workspaceId d = ''a/b'' \<and> fst (transitions (ret 7) sx_record [sx_to PastDue, sx_to Canceled, sx_to Active] ()) \<noteq> Inr d"
proof -
  obtain r w where r: "transitions (ret 7) sx_record [sx_to PastDue, sx_to Canceled] () = (Inr r, w)"
    by (auto simp: sx_to_def sx_record_def makeSubscriptionRecord_def patch_state_def applyTransition_def isValidTransition_def
        overlay_def io_defs)
  have "state d \<noteq> Active" if "fst (transitions (ret 7) sx_record [sx_to PastDue, sx_to Canceled, sx_to Active] ()) = Inr d" for d
    using that by (simp add: sx_to_def sx_record_def makeSubscriptionRecord_def patch_state_def applyTransition_def
        isValidTransition_def overlay_def io_defs)
  moreover have "version r = 2 \<and> state r = Canceled \<and> workspaceId r = ''a/b''"
    using transitions_keep_to_the_table [where now = "ret 7" and c = sx_record and ps = "[sx_to PastDue, sx_to Canceled]" and w = "()"]
    unfolding r prod.case sum.case
    by (simp add: sx_to_def sx_record_def makeSubscriptionRecord_def patch_state_def map_filter_simps)
  moreover have "fst (transitions (ret 7) sx_record [sx_to PastDue, sx_to Canceled, sx_to Active] ()) \<noteq> Inr r"
    by (simp add: sx_to_def sx_record_def makeSubscriptionRecord_def patch_state_def applyTransition_def
        isValidTransition_def overlay_def io_defs)
  ultimately show ?thesis using r by auto
qed

end
