(* ===== verification/StripeDispatcher.thy ===== *)
theory StripeDispatcher
  imports Webhooks Subscription
begin

text \<open>
  The billing dispatcher of \<open>stripe/webhooks.ts\<close>: the claim of an event, its routing by type, the
  eight handlers, the compare-and-set loop, the delivery to the listener and the clearing of the
  pending event. The subscription store, the workspace lookup, the Stripe client, the listener
  and the clock are effects of the model; while any of them runs other workers may act.
\<close>

section \<open>Events\<close>

record StripeEvent =
  evt_id :: string
  evt_type :: string
  evt_created :: "json option"
  evt_data :: "json option"

record StripeSubscriptionIdentity =
  id_customerId :: string
  id_subscriptionId :: string

datatype StripeBillingEvent =
  SubscriptionCreated string SubscriptionRecord
| TrialIgnored string SubscriptionRecord
| SubscriptionUpdated string SubscriptionState SubscriptionRecord
| SubscriptionDeleted string SubscriptionRecord
| TrialWillEnd string SubscriptionRecord int
| SubscriptionPaused string SubscriptionRecord
| SubscriptionResumed string SubscriptionRecord
| InvoicePaid string "SubscriptionRecord option" string int
| ZeroDollarIgnored string string int
| PaymentFailed string "SubscriptionRecord option" string int
| EventUnhandled string string
| EventReplay string string
| DroppedOutOfOrder string string string

fun eventId :: "StripeBillingEvent \<Rightarrow> string" where
  "eventId (SubscriptionCreated i _) = i"
| "eventId (TrialIgnored i _) = i"
| "eventId (SubscriptionUpdated i _ _) = i"
| "eventId (SubscriptionDeleted i _) = i"
| "eventId (TrialWillEnd i _ _) = i"
| "eventId (SubscriptionPaused i _) = i"
| "eventId (SubscriptionResumed i _) = i"
| "eventId (InvoicePaid i _ _ _) = i"
| "eventId (ZeroDollarIgnored i _ _) = i"
| "eventId (PaymentFailed i _ _ _) = i"
| "eventId (EventUnhandled i _) = i"
| "eventId (EventReplay i _) = i"
| "eventId (DroppedOutOfOrder i _ _) = i"

section \<open>Reading payloads\<close>

text \<open>A value is read at the type the code declares for it; one of another type counts as
  absent.\<close>

fun as_bool :: "json option \<Rightarrow> bool option" where
  "as_bool (Some (JBool b)) = Some b"
| "as_bool _ = None"

definition nonblank :: "string option \<Rightarrow> string option" where
  "nonblank v = (case v of None \<Rightarrow> None | Some s \<Rightarrow> if trim s = [] then None else Some s)"

definition readExpandableId :: "json option \<Rightarrow> string option" where
  "readExpandableId v = (case nonblank (as_string v) of
       Some s \<Rightarrow> Some s
     | None \<Rightarrow> nonblank (as_string (opt_field v ''id'')))"

definition subscriptionIdentity :: "json option \<Rightarrow> StripeSubscriptionIdentity option" where
  "subscriptionIdentity v = (case readExpandableId (opt_field v ''customer'') of
       None \<Rightarrow> None
     | Some c \<Rightarrow> (case nonblank (as_string (opt_field v ''id'')) of
         None \<Rightarrow> None
       | Some i \<Rightarrow> Some \<lparr>id_customerId = c, id_subscriptionId = i\<rparr>))"

definition invoiceIdentity :: "json option \<Rightarrow> (string \<times> string) option" where
  "invoiceIdentity v = (case nonblank (as_string (opt_field v ''customer'')) of
       None \<Rightarrow> None
     | Some c \<Rightarrow> (case nonblank (as_string (opt_field v ''id'')) of None \<Rightarrow> None | Some i \<Rightarrow> Some (c, i)))"

text \<open>The subscription an invoice belongs to, and its metadata.\<close>

definition present :: "json option \<Rightarrow> json option" where
  "present v = (if v = Some JNull then None else v)"

definition invoiceSubscription :: "json option \<Rightarrow> (string \<times> json option) option" where
  "invoiceSubscription invoice =
     (let parent = opt_field invoice ''parent'' in
      if parent \<noteq> None \<and> parent \<noteq> Some JNull then
        (if opt_field parent ''type'' \<noteq> Some (JStr ''subscription_details'') then None
         else let details = opt_field parent ''subscription_details'' in
           (case readExpandableId (opt_field details ''subscription'') of
              None \<Rightarrow> None
            | Some s \<Rightarrow> Some (s, present (opt_field details ''metadata''))))
      else (case readExpandableId (opt_field invoice ''subscription'') of None \<Rightarrow> None | Some s \<Rightarrow> Some (s, None)))"

definition extractPriceId :: "json option \<Rightarrow> string option" where
  "extractPriceId sub =
     (case opt_field (opt_field sub ''items'') ''data'' of
        Some (JArr (item # _)) \<Rightarrow> as_string (opt_field (field item ''price'') ''id'')
      | _ \<Rightarrow> None)"

definition current_period_end where "current_period_end sub = as_finite (opt_field sub ''current_period_end'')"
definition trial_end where "trial_end sub = as_finite (opt_field sub ''trial_end'')"
definition cancel_at_period_end where "cancel_at_period_end sub = as_bool (opt_field sub ''cancel_at_period_end'')"

definition stripe_error :: "string \<Rightarrow> string \<Rightarrow> exn" where
  "stripe_error msg ev = webhook_error msg (no_context\<lparr>ctx_eventId := Some ev\<rparr>)"

definition stateOfName :: "string \<Rightarrow> SubscriptionState option" where
  "stateOfName s = map_of (map (\<lambda>x. (stateName x, x)) SUBSCRIPTION_STATES) s"

definition parseState :: "json option \<Rightarrow> string \<Rightarrow> exn + SubscriptionState" where
  "parseState v ev = (case as_string v of
       None \<Rightarrow> Inl (stripe_error ''Unknown Stripe subscription status'' ev)
     | Some s \<Rightarrow> (case stateOfName s of
         None \<Rightarrow> Inl (stripe_error (''Unknown Stripe subscription status '' @ s) ev)
       | Some x \<Rightarrow> Inr x))"

definition requireEventCreatedAt :: "StripeEvent \<Rightarrow> exn + int" where
  "requireEventCreatedAt evt = (case as_finite (evt_created evt) of
       None \<Rightarrow> Inl (stripe_error ''Stripe subscription event is missing a valid event.created timestamp'' (evt_id evt))
     | Some n \<Rightarrow> if safe_nat n then Inr n
         else Inl (stripe_error ''Stripe subscription event is missing a valid event.created timestamp'' (evt_id evt)))"

text \<open>\<open>evt.data.object\<close>, which throws a \<open>TypeError\<close> when there is no \<open>data\<close>.\<close>

definition eventObject :: "StripeEvent \<Rightarrow> exn + json option" where
  "eventObject evt =
     (if evt_data evt = None \<or> evt_data evt = Some JNull
      then Inl (Error ''Cannot read properties of undefined (reading object)'')
      else Inr (opt_field (evt_data evt) ''object''))"

definition readEvent :: "json \<Rightarrow> StripeEvent option" where
  "readEvent p = (case (as_string (field p ''id''), as_string (field p ''type'')) of
       (Some i, Some t) \<Rightarrow> Some \<lparr>evt_id = i, evt_type = t, evt_created = field p ''created'', evt_data = field p ''data''\<rparr>
     | _ \<Rightarrow> None)"

definition defaultResolveWorkspaceId :: "json option \<Rightarrow> json option \<Rightarrow> string option" where
  "defaultResolveWorkspaceId subscriptionMetadata invoiceMetadata =
     (let s = as_string (opt_field subscriptionMetadata ''workspaceId'') in
      if truthy s then s else as_string (opt_field invoiceMetadata ''workspaceId''))"

section \<open>Comparisons\<close>

definition matchesSubscription :: "SubscriptionRecord \<Rightarrow> StripeSubscriptionIdentity \<Rightarrow> bool" where
  "matchesSubscription r i \<longleftrightarrow> customerId r = id_customerId i \<and> subscriptionId r = id_subscriptionId i"

definition isOlderEvent :: "SubscriptionRecord \<Rightarrow> int \<Rightarrow> bool" where
  "isOlderEvent r t \<longleftrightarrow> (case lastEventCreatedAt r of None \<Rightarrow> False | Some u \<Rightarrow> t < u)"

definition isEqualTimestampEvent :: "SubscriptionRecord \<Rightarrow> int \<Rightarrow> bool" where
  "isEqualTimestampEvent r t \<longleftrightarrow> lastEventCreatedAt r = Some t"

definition canApplyFreshCreate :: "SubscriptionState \<Rightarrow> bool" where
  "canApplyFreshCreate s \<longleftrightarrow> s = Incomplete \<or> isTerminalSubscriptionState s"

definition canonicalBillingEvent :: "StripeEvent \<Rightarrow> SubscriptionRecord \<Rightarrow> SubscriptionRecord \<Rightarrow> StripeBillingEvent" where
  "canonicalBillingEvent evt previous current =
     (if state current = Canceled then SubscriptionDeleted (evt_id evt) current
      else if state current = Trialing then TrialIgnored (evt_id evt) current
      else SubscriptionUpdated (evt_id evt) (state previous) current)"

text \<open>\<open>assertNoPendingSubscriptionEvent\<close>\<close>

definition assertNoPending :: "SubscriptionRecord option \<Rightarrow> StripeEvent \<Rightarrow> exn + unit" where
  "assertNoPending r evt = (case r of None \<Rightarrow> Inr ()
     | Some c \<Rightarrow> if \<not> truthy (pendingEventId c) \<or> pendingEventId c = Some (evt_id evt) then Inr ()
         else Inl (webhook_error (''Subscription event '' @ the (pendingEventId c) @ '' still needs durable delivery'')
                (no_context\<lparr>ctx_workspaceId := Some (workspaceId c), ctx_eventId := Some (evt_id evt)\<rparr>)))"

section \<open>The dispatcher\<close>

record 'w StripeBillingDispatcher =
  sd_load :: "string \<Rightarrow> ('w, exn, SubscriptionRecord option) io"
  sd_saveIfVersion :: "SubscriptionRecord \<Rightarrow> int \<Rightarrow> ('w, exn, bool) io"
  sd_resolveWorkspaceId :: "string \<Rightarrow> json option \<Rightarrow> json option \<Rightarrow> ('w, exn, string option) io"
  sd_retrieveSubscription :: "(string \<Rightarrow> ('w, exn, json) io) option"
  sd_listener :: "(StripeBillingEvent \<Rightarrow> ('w, exn, unit) io) option"
  sd_onError :: "exn \<Rightarrow> string \<Rightarrow> string \<Rightarrow> ('w, exn, unit) io"
  sd_now :: "('w, exn, int) io"
  sd_maxCasRetries :: nat
  sd_idempotency :: "'w claim_store"
  sd_idempotencyTtlMs :: js_number

definition isProductionRuntime :: "process_env \<Rightarrow> IdempotencyRuntime option \<Rightarrow> bool" where
  "isProductionRuntime env rt = (case rt of
       Some r \<Rightarrow> r = production
     | None \<Rightarrow>
         if process_defined env \<and> truthy (VITEST env) then False
         else let nodeEnv = (if process_defined env then NODE_ENV env else None) in
           nodeEnv \<noteq> Some ''test'' \<and> nodeEnv \<noteq> Some ''development'')"

text \<open>The constructor's checks, given the dispatcher the options describe; \<open>newStore\<close> is the
  process-local claim store it may create.\<close>

definition newDispatcher :: "process_env \<Rightarrow> ('w claim_store \<Rightarrow> store_scope option) \<Rightarrow> 'w claim_store \<Rightarrow>
    'w claim_store option \<Rightarrow> IdempotencyRuntime option \<Rightarrow> nat option \<Rightarrow> js_number option \<Rightarrow>
    'w StripeBillingDispatcher \<Rightarrow> exn + 'w StripeBillingDispatcher" where
  "newDispatcher env scope newStore store rt retries ttl d =
     (case resolveAtomicIdempotencyStore env ''StripeBillingDispatcher'' scope store rt of
        Inl e \<Rightarrow> Inl e
      | Inr choice \<Rightarrow>
          if isProductionRuntime env rt \<and> sd_listener d = None
          then Inl (Error ''StripeBillingDispatcher: production requires a durable billing listener'')
          else Inr (d\<lparr>sd_maxCasRetries := nullish retries 3,
                 sd_idempotency := (case choice of Injected s \<Rightarrow> s | NewInMemoryStore \<Rightarrow> newStore),
                 sd_idempotencyTtlMs := nullish ttl (Finite default_ttl)\<rparr>))"

definition emit :: "'w StripeBillingDispatcher \<Rightarrow> StripeBillingEvent \<Rightarrow> ('w, exn, unit) io" where
  "emit d e = (case sd_listener d of None \<Rightarrow> ret () | Some l \<Rightarrow> l e)"

text \<open>\<open>combineListeners\<close> runs the listeners in order.\<close>

definition combineListeners :: "(StripeBillingEvent \<Rightarrow> ('w, exn, unit) io) list \<Rightarrow> StripeBillingEvent \<Rightarrow> ('w, exn, unit) io" where
  "combineListeners ls e = forEach (\<lambda>l. l e) ls"

definition emitUnbound :: "'w StripeBillingDispatcher \<Rightarrow> StripeEvent \<Rightarrow> string \<Rightarrow> ('w, exn, unit) io" where
  "emitUnbound d evt reason = emit d (DroppedOutOfOrder (evt_id evt) (evt_type evt) reason)"

definition emitNoWorkspace :: "'w StripeBillingDispatcher \<Rightarrow> StripeEvent \<Rightarrow> ('w, exn, unit) io" where
  "emitNoWorkspace d evt = emitUnbound d evt ''workspaceId could not be resolved from event payload''"

definition showInt :: "int option \<Rightarrow> string" where
  "showInt n = (case n of None \<Rightarrow> ''null'' | Some i \<Rightarrow> if i < 0 then ''-'' @ decimal (nat (- i)) else decimal (nat i))"

definition emitOlderEvent :: "'w StripeBillingDispatcher \<Rightarrow> StripeEvent \<Rightarrow> SubscriptionRecord \<Rightarrow> ('w, exn, unit) io" where
  "emitOlderEvent d evt current = emitUnbound d evt
     (''event.created='' @ showInt (as_finite (evt_created evt)) @ '' is older than stored='' @ showInt (lastEventCreatedAt current))"

text \<open>\<open>clearPendingSubscriptionEvent\<close>, with the attempts left.\<close>

fun clearPending :: "'w StripeBillingDispatcher \<Rightarrow> string \<Rightarrow> string \<Rightarrow> nat \<Rightarrow> ('w, exn, unit) io" where
  "clearPending d ws ev 0 = throw (webhook_error ''Pending event clear exhausted''
     (no_context\<lparr>ctx_workspaceId := Some ws, ctx_eventId := Some ev\<rparr>))"
| "clearPending d ws ev (Suc n) =
     andThen (sd_load d ws) (\<lambda>current. case current of
       None \<Rightarrow> throw (Error (''Subscription record '' @ ws @ '' disappeared after delivery''))
     | Some c \<Rightarrow> (case pendingEventId c of
         None \<Rightarrow> ret ()
       | Some p \<Rightarrow>
           if p \<noteq> ev then throw (Error (''Subscription pending event changed from '' @ ev @ '' to '' @ p))
           else andThen (sd_now d) (\<lambda>t.
             andThen (sd_saveIfVersion d (c\<lparr>pendingEventId := None, version := version c + 1, updatedAt := t\<rparr>) (version c))
               (\<lambda>ok. if ok then ret () else clearPending d ws ev n))))"

definition emitPersisted :: "'w StripeBillingDispatcher \<Rightarrow> StripeBillingEvent \<Rightarrow> string \<Rightarrow> ('w, exn, unit) io" where
  "emitPersisted d e ws = andThen (emit d e) (\<lambda>_. clearPending d ws (eventId e) (sd_maxCasRetries d))"

definition reconciled :: "SubscriptionRecord \<Rightarrow> json \<Rightarrow> SubscriptionState \<Rightarrow> StripeEvent \<Rightarrow> int \<Rightarrow> int \<Rightarrow> SubscriptionRecord" where
  "reconciled current snapshot s evt created t = current\<lparr>
     state := s, priceId := (if s = Canceled then None else extractPriceId (Some snapshot)),
     currentPeriodEnd := current_period_end (Some snapshot), trialEnd := trial_end (Some snapshot),
     cancelAtPeriodEnd := nullish (cancel_at_period_end (Some snapshot)) False,
     version := version current + 1, lastEventId := Some (evt_id evt), lastEventCreatedAt := Some created,
     lastEventPreviousState := Some (state current), pendingEventId := Some (evt_id evt), updatedAt := t\<rparr>"

text \<open>The loop of \<open>reconcileEqualTimestamp\<close>, and the function.\<close>

fun reconcileLoop :: "'w StripeBillingDispatcher \<Rightarrow> StripeEvent \<Rightarrow> string \<Rightarrow> StripeSubscriptionIdentity \<Rightarrow> json \<Rightarrow>
    SubscriptionState \<Rightarrow> int \<Rightarrow> nat \<Rightarrow> ('w, exn, unit) io" where
  "reconcileLoop d evt ws ident snapshot s created 0 =
     throw (webhook_error ''Stripe reconciliation contention exhausted''
       (no_context\<lparr>ctx_workspaceId := Some ws, ctx_eventId := Some (evt_id evt)\<rparr>))"
| "reconcileLoop d evt ws ident snapshot s created (Suc n) =
     andThen (sd_load d ws) (\<lambda>current. case current of
       None \<Rightarrow> throw (stripe_error ''subscription state is not available yet'' (evt_id evt))
     | Some c \<Rightarrow>
         if \<not> matchesSubscription c ident
         then emitUnbound d evt ''subscription identity does not match the workspace record''
         else andThen (liftE (assertNoPending (Some c) evt)) (\<lambda>_.
           if lastEventId c = Some (evt_id evt) then emitPersisted d (canonicalBillingEvent evt c c) ws
           else if isOlderEvent c created then emitOlderEvent d evt c
           else if \<not> isEqualTimestampEvent c created
           then throw (stripe_error ''subscription state changed during Stripe reconciliation'' (evt_id evt))
           else andThen (sd_now d) (\<lambda>t.
             let next = reconciled c snapshot s evt created t in
             andThen (sd_saveIfVersion d next (version c)) (\<lambda>ok.
               if ok then emitPersisted d (canonicalBillingEvent evt c next) ws
               else reconcileLoop d evt ws ident snapshot s created n))))"

definition reconcileEqualTimestamp :: "'w StripeBillingDispatcher \<Rightarrow> StripeEvent \<Rightarrow> string \<Rightarrow> StripeSubscriptionIdentity \<Rightarrow>
    ('w, exn, unit) io" where
  "reconcileEqualTimestamp d evt ws ident = (case sd_retrieveSubscription d of
       None \<Rightarrow> throw (stripe_error ''equal event.created timestamps require Stripe reconciliation'' (evt_id evt))
     | Some retrieve \<Rightarrow>
         andThen (retrieve (id_subscriptionId ident)) (\<lambda>snapshot.
         if subscriptionIdentity (Some snapshot) \<noteq> Some ident
         then throw (stripe_error ''Stripe reconciliation returned a mismatched subscription'' (evt_id evt))
         else andThen (liftE (parseState (field snapshot ''status'') (evt_id evt))) (\<lambda>s.
           andThen (liftE (requireEventCreatedAt evt)) (\<lambda>created.
             reconcileLoop d evt ws ident snapshot s created (sd_maxCasRetries d)))))"

datatype transformed = Next SubscriptionRecord StripeBillingEvent | EmitOnly StripeBillingEvent | Replay | OutOfOrder

fun advance :: "'w StripeBillingDispatcher \<Rightarrow> StripeEvent \<Rightarrow> string \<Rightarrow> (SubscriptionRecord \<Rightarrow> ('w, exn, transformed) io) \<Rightarrow>
    StripeSubscriptionIdentity \<Rightarrow> nat \<Rightarrow> ('w, exn, unit) io" where
  "advance d evt ws transform ident 0 =
     throw (webhook_error ''CAS contention exhausted'' (no_context\<lparr>ctx_workspaceId := Some ws, ctx_eventId := Some (evt_id evt)\<rparr>))"
| "advance d evt ws transform ident (Suc n) =
     andThen (sd_load d ws) (\<lambda>current. case current of
       None \<Rightarrow> throw (stripe_error ''subscription state is not available yet'' (evt_id evt))
     | Some c \<Rightarrow>
         if \<not> matchesSubscription c ident
         then emitUnbound d evt ''subscription identity does not match the workspace record''
         else andThen (liftE (assertNoPending (Some c) evt)) (\<lambda>_.
           andThen (liftE (requireEventCreatedAt evt)) (\<lambda>created.
           if lastEventId c \<noteq> Some (evt_id evt) \<and> isOlderEvent c created then emitOlderEvent d evt c
           else if lastEventId c \<noteq> Some (evt_id evt) \<and> isEqualTimestampEvent c created
           then reconcileEqualTimestamp d evt ws ident
           else andThen (transform c) (\<lambda>result. case result of
               Replay \<Rightarrow> emit d (EventReplay (evt_id evt) (evt_type evt))
             | OutOfOrder \<Rightarrow> emit d (DroppedOutOfOrder (evt_id evt) (evt_type evt) (''current='' @ stateName (state c)))
             | EmitOnly e \<Rightarrow> emitPersisted d e ws
             | Next next e \<Rightarrow> andThen (sd_saveIfVersion d next (version c)) (\<lambda>ok.
                 if ok then emitPersisted d e ws else advance d evt ws transform ident n)))))"

section \<open>Subscription handlers\<close>

text \<open>The common start of the subscription handlers: creation time, object, identity, workspace.\<close>

definition withSubscription :: "'w StripeBillingDispatcher \<Rightarrow> StripeEvent \<Rightarrow>
    (int \<Rightarrow> json option \<Rightarrow> StripeSubscriptionIdentity \<Rightarrow> string \<Rightarrow> ('w, exn, unit) io) \<Rightarrow> ('w, exn, unit) io" where
  "withSubscription d evt k =
     andThen (liftE (requireEventCreatedAt evt)) (\<lambda>created.
     andThen (liftE (eventObject evt)) (\<lambda>sub.
     case subscriptionIdentity sub of
       None \<Rightarrow> emitUnbound d evt ''subscription event is missing customer or subscription id''
     | Some ident \<Rightarrow>
         andThen (sd_resolveWorkspaceId d (id_customerId ident) (opt_field sub ''metadata'') None) (\<lambda>ws.
         if \<not> truthy ws then emitNoWorkspace d evt else k created sub ident (the ws))))"

definition event_options :: "StripeEvent \<Rightarrow> int \<Rightarrow> TransitionOptions" where
  "event_options evt created = \<lparr>o_eventId = Some (evt_id evt), o_eventCreatedAt = Some created,
     o_pendingEventId = Some (Some (evt_id evt))\<rparr>"

definition created_event :: "StripeEvent \<Rightarrow> SubscriptionRecord \<Rightarrow> StripeBillingEvent" where
  "created_event evt r = (if state r = Trialing then TrialIgnored (evt_id evt) r else SubscriptionCreated (evt_id evt) r)"

text \<open>The write of \<open>handleSubCreated\<close>, after its checks.\<close>

definition writeCreated :: "'w StripeBillingDispatcher \<Rightarrow> StripeEvent \<Rightarrow> int \<Rightarrow> json option \<Rightarrow> StripeSubscriptionIdentity \<Rightarrow>
    string \<Rightarrow> SubscriptionRecord option \<Rightarrow> bool \<Rightarrow> ('w, exn, unit) io" where
  "writeCreated d evt created sub ident ws existing rebinds =
     andThen (liftE (parseState (opt_field sub ''status'') (evt_id evt))) (\<lambda>nextState.
     andThen (sd_now d) (\<lambda>t.
     let fresh = makeSubscriptionRecord ws (id_customerId ident) (id_subscriptionId ident) nextState (extractPriceId sub)
           (current_period_end sub) (trial_end sub) (cancel_at_period_end sub) (Some (evt_id evt)) (Some created)
           (Some (evt_id evt)) t in
     andThen (case existing of
         None \<Rightarrow> ret fresh
       | Some c \<Rightarrow> if rebinds then ret (fresh\<lparr>version := version c + 1\<rparr>)
           else applyTransition (sd_now d) c ((patch_state nextState)\<lparr>p_priceId := Some (extractPriceId sub),
               p_currentPeriodEnd := Some (current_period_end sub), p_trialEnd := Some (trial_end sub),
               p_cancelAtPeriodEnd := Some (nullish (cancel_at_period_end sub) False)\<rparr>) (event_options evt created))
       (\<lambda>r.
     andThen (sd_saveIfVersion d r (case existing of None \<Rightarrow> 0 | Some c \<Rightarrow> version c)) (\<lambda>ok.
     if \<not> ok then emitUnbound d evt ''subscription create lost a concurrent compare-and-set''
     else emitPersisted d (created_event evt r) ws))))"

definition handleSubCreated :: "'w StripeBillingDispatcher \<Rightarrow> StripeEvent \<Rightarrow> ('w, exn, unit) io" where
  "handleSubCreated d evt = withSubscription d evt (\<lambda>created sub ident ws.
     andThen (sd_load d ws) (\<lambda>existing.
     let rebinds = (case existing of None \<Rightarrow> False | Some c \<Rightarrow>
           \<not> matchesSubscription c ident \<and> customerId c = id_customerId ident \<and> isTerminalSubscriptionState (state c)) in
     if (case existing of None \<Rightarrow> False | Some c \<Rightarrow> \<not> matchesSubscription c ident \<and> \<not> rebinds)
     then emitUnbound d evt ''subscription identity does not match the workspace record''
     else andThen (liftE (assertNoPending existing evt)) (\<lambda>_.
     case existing of
       None \<Rightarrow> writeCreated d evt created sub ident ws None False
     | Some c \<Rightarrow>
         if lastEventId c = Some (evt_id evt) then emitPersisted d (created_event evt c) ws
         else if isOlderEvent c created then emitOlderEvent d evt c
         else if isEqualTimestampEvent c created then reconcileEqualTimestamp d evt ws ident
         else if \<not> canApplyFreshCreate (state c)
         then emitUnbound d evt (''existing state '' @ stateName (state c) @ '' cannot accept a fresh created'')
         else writeCreated d evt created sub ident ws (Some c) rebinds)))"

definition updated_event :: "StripeEvent \<Rightarrow> SubscriptionState \<Rightarrow> SubscriptionState \<Rightarrow> SubscriptionRecord \<Rightarrow> StripeBillingEvent" where
  "updated_event evt nextState previous r =
     (if nextState = Trialing then TrialIgnored (evt_id evt) r else SubscriptionUpdated (evt_id evt) previous r)"

definition updateTransform :: "'w StripeBillingDispatcher \<Rightarrow> StripeEvent \<Rightarrow> int \<Rightarrow> json option \<Rightarrow> SubscriptionState \<Rightarrow>
    SubscriptionRecord \<Rightarrow> ('w, exn, transformed) io" where
  "updateTransform d evt created sub nextState current =
     (if lastEventId current = Some (evt_id evt)
      then ret (EmitOnly (updated_event evt nextState (nullish (lastEventPreviousState current) (state current)) current))
      else if \<not> isValidTransition (state current) nextState then ret OutOfOrder
      else andThen (applyTransition (sd_now d) current ((patch_state nextState)\<lparr>
             p_priceId := Some (nullish_opt (extractPriceId sub) (priceId current)),
             p_currentPeriodEnd := Some (nullish_opt (current_period_end sub) (currentPeriodEnd current)),
             p_trialEnd := Some (nullish_opt (trial_end sub) (trialEnd current)),
             p_cancelAtPeriodEnd := Some (nullish (cancel_at_period_end sub) (cancelAtPeriodEnd current))\<rparr>)
             (event_options evt created))
        (\<lambda>next. ret (Next next (updated_event evt nextState (state current) next))))"

definition handleSubUpdated :: "'w StripeBillingDispatcher \<Rightarrow> StripeEvent \<Rightarrow> ('w, exn, unit) io" where
  "handleSubUpdated d evt = withSubscription d evt (\<lambda>created sub ident ws.
     andThen (liftE (parseState (opt_field sub ''status'') (evt_id evt))) (\<lambda>nextState.
     advance d evt ws (updateTransform d evt created sub nextState) ident (sd_maxCasRetries d)))"

definition deleteTransform :: "'w StripeBillingDispatcher \<Rightarrow> StripeEvent \<Rightarrow> int \<Rightarrow> json option \<Rightarrow>
    SubscriptionRecord \<Rightarrow> ('w, exn, transformed) io" where
  "deleteTransform d evt created sub current =
     (if lastEventId current = Some (evt_id evt) then ret (EmitOnly (SubscriptionDeleted (evt_id evt) current))
      else if state current = Canceled then ret Replay
      else andThen (applyTransition (sd_now d) current ((patch_state Canceled)\<lparr>p_priceId := Some None,
             p_currentPeriodEnd := Some (nullish_opt (current_period_end sub) (currentPeriodEnd current))\<rparr>)
             (event_options evt created))
        (\<lambda>next. ret (Next next (SubscriptionDeleted (evt_id evt) next))))"

definition handleSubDeleted :: "'w StripeBillingDispatcher \<Rightarrow> StripeEvent \<Rightarrow> ('w, exn, unit) io" where
  "handleSubDeleted d evt = withSubscription d evt (\<lambda>created sub ident ws.
     advance d evt ws (deleteTransform d evt created sub) ident (sd_maxCasRetries d))"

definition handleTrialWillEnd :: "'w StripeBillingDispatcher \<Rightarrow> StripeEvent \<Rightarrow> ('w, exn, unit) io" where
  "handleTrialWillEnd d evt = withSubscription d evt (\<lambda>created sub ident ws.
     andThen (sd_load d ws) (\<lambda>loaded. case loaded of
       None \<Rightarrow> throw (stripe_error ''subscription state is not available yet'' (evt_id evt))
     | Some c \<Rightarrow>
         if \<not> matchesSubscription c ident
         then emitUnbound d evt ''subscription identity does not match the workspace record''
         else andThen (liftE (assertNoPending (Some c) evt)) (\<lambda>_.
           if lastEventId c = Some (evt_id evt)
           then emitPersisted d (TrialWillEnd (evt_id evt) c (nullish (trialEnd c) 0)) ws
           else if isOlderEvent c created then emitOlderEvent d evt c
           else if isEqualTimestampEvent c created then reconcileEqualTimestamp d evt ws ident
           else andThen (sd_now d) (\<lambda>t.
             let next = c\<lparr>lastEventId := Some (evt_id evt), lastEventCreatedAt := Some created,
                   lastEventPreviousState := Some (state c), pendingEventId := Some (evt_id evt),
                   trialEnd := nullish_opt (trial_end sub) (trialEnd c), version := version c + 1, updatedAt := t\<rparr> in
             andThen (sd_saveIfVersion d next (version c)) (\<lambda>ok.
               if \<not> ok then emitUnbound d evt ''trial update lost a concurrent compare-and-set''
               else emitPersisted d (TrialWillEnd (evt_id evt) next
                   (nullish (nullish_opt (trial_end sub) (trialEnd next)) 0)) ws)))))"

definition lifecycle_event :: "StripeEvent \<Rightarrow> SubscriptionState \<Rightarrow> SubscriptionRecord \<Rightarrow> StripeBillingEvent" where
  "lifecycle_event evt target r =
     (if target = Paused then SubscriptionPaused (evt_id evt) r else SubscriptionResumed (evt_id evt) r)"

definition lifecycleTransform :: "'w StripeBillingDispatcher \<Rightarrow> StripeEvent \<Rightarrow> int \<Rightarrow> SubscriptionState \<Rightarrow>
    SubscriptionRecord \<Rightarrow> ('w, exn, transformed) io" where
  "lifecycleTransform d evt created target current =
     (if lastEventId current = Some (evt_id evt) then ret (EmitOnly (lifecycle_event evt target current))
      else if \<not> isValidTransition (state current) target then ret OutOfOrder
      else andThen (applyTransition (sd_now d) current (patch_state target) (event_options evt created))
        (\<lambda>next. ret (Next next (lifecycle_event evt target next))))"

definition handleSubLifecycle :: "'w StripeBillingDispatcher \<Rightarrow> StripeEvent \<Rightarrow> SubscriptionState \<Rightarrow> ('w, exn, unit) io" where
  "handleSubLifecycle d evt target = withSubscription d evt (\<lambda>created sub ident ws.
     advance d evt ws (lifecycleTransform d evt created target) ident (sd_maxCasRetries d))"

section \<open>Invoice handlers\<close>

text \<open>What both invoice handlers read: the invoice id, the customer, the subscription and the
  metadata of the workspace lookup. \<open>what\<close> is the word that begins their messages.\<close>

definition invoiceReason :: "string \<Rightarrow> string \<Rightarrow> string" where
  "invoiceReason what rest = what @ '' invoice '' @ rest"

definition handleInvoicePaid :: "'w StripeBillingDispatcher \<Rightarrow> StripeEvent \<Rightarrow> ('w, exn, unit) io" where
  "handleInvoicePaid d evt =
     andThen (liftE (eventObject evt)) (\<lambda>invoice.
     case invoiceIdentity invoice of
       None \<Rightarrow> emitUnbound d evt (invoiceReason ''paid'' ''is missing customer or invoice id'')
     | Some (customer, invoiceId) \<Rightarrow>
     (case invoiceSubscription invoice of
       None \<Rightarrow> emitUnbound d evt (invoiceReason ''paid'' ''is missing a subscription id'')
     | Some (subId, meta) \<Rightarrow>
       andThen (sd_resolveWorkspaceId d customer None (nullish_opt meta (present (opt_field invoice ''metadata'')))) (\<lambda>ws.
       let amountPaid = nullish (as_finite (opt_field invoice ''amount_paid'')) 0 in
       if amountPaid \<le> 0 then emit d (ZeroDollarIgnored (evt_id evt) invoiceId amountPaid)
       else if \<not> truthy ws then emitNoWorkspace d evt
       else andThen (sd_load d (the ws)) (\<lambda>loaded. case loaded of
         None \<Rightarrow> throw (stripe_error (invoiceReason ''paid'' ''subscription state is not available yet'') (evt_id evt))
       | Some c \<Rightarrow>
           if customerId c \<noteq> customer \<or> subscriptionId c \<noteq> subId
           then emitUnbound d evt (invoiceReason ''paid'' ''identity does not match the workspace record'')
           else emit d (InvoicePaid (evt_id evt) (Some c) invoiceId amountPaid)))))"

definition handleInvoicePaymentFailed :: "'w StripeBillingDispatcher \<Rightarrow> StripeEvent \<Rightarrow> ('w, exn, unit) io" where
  "handleInvoicePaymentFailed d evt =
     andThen (liftE (eventObject evt)) (\<lambda>invoice.
     case invoiceIdentity invoice of
       None \<Rightarrow> emitUnbound d evt (invoiceReason ''failed'' ''is missing customer or invoice id'')
     | Some (customer, invoiceId) \<Rightarrow>
     (case invoiceSubscription invoice of
       None \<Rightarrow> emitUnbound d evt (invoiceReason ''failed'' ''is missing a subscription id'')
     | Some (subId, meta) \<Rightarrow>
       andThen (sd_resolveWorkspaceId d customer None (nullish_opt meta (present (opt_field invoice ''metadata'')))) (\<lambda>ws.
       if \<not> truthy ws then emitNoWorkspace d evt
       else andThen (sd_load d (the ws)) (\<lambda>loaded. case loaded of
         None \<Rightarrow> throw (stripe_error (invoiceReason ''failed'' ''subscription state is not available yet'') (evt_id evt))
       | Some c \<Rightarrow>
           if customerId c \<noteq> customer \<or> subscriptionId c \<noteq> subId
           then emitUnbound d evt (invoiceReason ''failed'' ''identity does not match the workspace record'')
           else emit d (PaymentFailed (evt_id evt) (Some c) invoiceId (nullish (as_finite (opt_field invoice ''amount_due'')) 0))))))"

section \<open>Dispatch\<close>

definition handleEvent :: "'w StripeBillingDispatcher \<Rightarrow> StripeEvent \<Rightarrow> ('w, exn, unit) io" where
  "handleEvent d evt =
     (let t = evt_type evt in
      if t = ''customer.subscription.created'' then handleSubCreated d evt
      else if t = ''customer.subscription.updated'' then handleSubUpdated d evt
      else if t = ''customer.subscription.deleted'' then handleSubDeleted d evt
      else if t = ''customer.subscription.trial_will_end'' then handleTrialWillEnd d evt
      else if t = ''customer.subscription.paused'' then handleSubLifecycle d evt Paused
      else if t = ''customer.subscription.resumed'' then handleSubLifecycle d evt Active
      else if t = ''invoice.paid'' then handleInvoicePaid d evt
      else if t = ''invoice.payment_failed'' then handleInvoicePaymentFailed d evt
      else emit d (EventUnhandled (evt_id evt) t))"

definition dispatch :: "'w StripeBillingDispatcher \<Rightarrow> WebhookEnvelope \<Rightarrow> ('w, exn, unit) io" where
  "dispatch d envelope = (case readEvent (payload envelope) of
       None \<Rightarrow> (let e = Error ''Stripe envelope missing id or type'' in
           andThen (sd_onError d e ''unknown'' ''unknown'') (\<lambda>_. throw e))
     | Some evt \<Rightarrow>
         andThen (cs_claimStatus (sd_idempotency d) (evt_id evt) (sd_idempotencyTtlMs d)) (\<lambda>s.
         if s = completed then emit d (EventReplay (evt_id evt) (evt_type evt))
         else if s = in_progress
         then throw (stripe_error (''Stripe event '' @ evt_id evt @ '' is already in progress'') (evt_id evt))
         else tryCatch
           (andThen (handleEvent d evt) (\<lambda>_. cs_complete (sd_idempotency d) (evt_id evt)))
           (\<lambda>err.
             andThen (tryCatch (cs_release (sd_idempotency d) (evt_id evt))
                        (\<lambda>relErr. sd_onError d relErr (evt_id evt) (evt_type evt)))
             (\<lambda>_. andThen (sd_onError d err (evt_id evt) (evt_type evt)) (\<lambda>_. throw err)))))"

section \<open>Every write is a legal change\<close>

text \<open>
  \<open>store_moves\<close> is the relation that an operation may move the world along: it keeps the store's
  invariant and lets records evolve. A dispatcher is \<open>well_hosted\<close> when it runs on the given
  store and its callbacks, which include whatever other workers do meanwhile, move along that
  relation. \<open>seen\<close> remembers a record that was current at some moment.
\<close>

definition store_moves :: "('w \<Rightarrow> bool) \<Rightarrow> ('w \<Rightarrow> string \<Rightarrow> SubscriptionRecord option) \<Rightarrow> 'w \<Rightarrow> 'w \<Rightarrow> bool" where
  "store_moves iv vw w w' \<longleftrightarrow> (iv w \<longrightarrow> iv w' \<and> evolves (vw w) (vw w'))"

definition well_hosted where
  "well_hosted R ld sv d \<longleftrightarrow> sd_load d = ld \<and> sd_saveIfVersion d = sv \<and>
     (\<forall>c m i. moves R (sd_resolveWorkspaceId d c m i)) \<and>
     (\<forall>f i. sd_retrieveSubscription d = Some f \<longrightarrow> moves R (f i)) \<and>
     (\<forall>l e. sd_listener d = Some l \<longrightarrow> moves R (l e)) \<and>
     (\<forall>e i t. moves R (sd_onError d e i t)) \<and> moves R (sd_now d) \<and>
     (\<forall>k t. moves R (cs_claimStatus (sd_idempotency d) k t)) \<and>
     (\<forall>k. moves R (cs_release (sd_idempotency d) k)) \<and> (\<forall>k. moves R (cs_complete (sd_idempotency d) k))"

definition seen :: "('w \<Rightarrow> string \<Rightarrow> SubscriptionRecord option) \<Rightarrow> string \<Rightarrow> SubscriptionRecord \<Rightarrow> 'w \<Rightarrow> bool" where
  "seen vw ws c w \<longleftrightarrow> workspaceId c = ws \<and> (\<exists>v. evolves v (vw w) \<and> v ws = Some c)"

definition moves_from :: "('w \<Rightarrow> bool) \<Rightarrow> ('w \<Rightarrow> string \<Rightarrow> SubscriptionRecord option) \<Rightarrow> ('w \<Rightarrow> bool) \<Rightarrow> ('w, exn, 'a) io \<Rightarrow> bool" where
  "moves_from iv vw P m \<longleftrightarrow> (\<forall>w. iv w \<longrightarrow> P w \<longrightarrow> store_moves iv vw w (snd (m w)))"

lemma store_moves_refl: "reflp (store_moves iv vw)"
  by (simp add: reflp_def store_moves_def)

lemma store_moves_trans: "transp (store_moves iv vw)"
  by (auto simp: transp_def store_moves_def intro: evolves_trans)

lemmas calm = moves_pure [OF store_moves_refl] moves_andThen [OF store_moves_trans] moves_tryCatch [OF store_moves_trans]

lemma moves_from_weaken: "moves (store_moves iv vw) m \<Longrightarrow> moves_from iv vw P m"
  by (simp add: moves_from_def moves_def)

lemma moves_from_andThen:
  assumes "moves (store_moves iv vw) m" "\<And>x. moves_from iv vw (seen vw ws c) (f x)"
  shows "moves_from iv vw (seen vw ws c) (andThen m f)"
  unfolding moves_from_def
proof (intro allI impI)
  fix w assume i: "iv w" and s: "seen vw ws c w"
  obtain r w1 where m: "m w = (r, w1)" by fastforce
  have one: "store_moves iv vw w w1" using assms(1) m by (rule movesD)
  show "store_moves iv vw w (snd (andThen m f w))"
  proof (cases r)
    case (Inl e)
    with m one show ?thesis by (simp add: andThen_def)
  next
    case (Inr x)
    from one i have i1: "iv w1" and "evolves (vw w) (vw w1)" by (auto simp: store_moves_def)
    with s have "seen vw ws c w1" by (auto simp: seen_def intro: evolves_trans)
    with assms(2) i1 have "store_moves iv vw w1 (snd (f x w1))" by (auto simp: moves_from_def)
    with one m Inr show ?thesis by (auto simp: andThen_def dest: transpD [OF store_moves_trans])
  qed
qed

text \<open>A transform is sound when, from a record an event may be applied to, it proposes only legal
  successors.\<close>

definition ready_for :: "StripeEvent \<Rightarrow> int \<Rightarrow> StripeSubscriptionIdentity \<Rightarrow> SubscriptionRecord \<Rightarrow> bool" where
  "ready_for evt created ident c \<longleftrightarrow> matchesSubscription c ident \<and>
     (truthy (pendingEventId c) \<longrightarrow> pendingEventId c = Some (evt_id evt)) \<and>
     (lastEventId c \<noteq> Some (evt_id evt) \<longrightarrow> \<not> isOlderEvent c created \<and> \<not> isEqualTimestampEvent c created)"

definition sound_transform where
  "sound_transform R evt created ident tr \<longleftrightarrow> (\<forall>c. moves R (tr c)) \<and>
     (\<forall>c w next e w'. ready_for evt created ident c \<longrightarrow> tr c w = (Inr (Next next e), w') \<longrightarrow>
        legal_change (Some c) (Some next))"

context versioned_store begin

abbreviation R where "R \<equiv> store_moves inv view"
abbreviation after where "after ws c \<equiv> moves_from inv view (seen view ws c)"
abbreviation hosted where "hosted \<equiv> \<lambda>d :: 'a StripeBillingDispatcher. well_hosted (store_moves inv view) load saveIfVersion d"

lemma moves_load_case:
  assumes "moves R (f None)" "\<And>c. workspaceId c = ws \<Longrightarrow> after ws c (f (Some c))"
  shows "moves R (andThen (load ws) f)"
proof (rule movesI)
  fix w
  obtain r w1 where l: "load ws w = (r, w1)" by fastforce
  show "R w (snd (andThen (load ws) f w))"
  proof (cases "inv w")
    case False
    then show ?thesis by (simp add: store_moves_def)
  next
    case True
    from load_law [OF l True] have i1: "inv w1" and e: "evolves (view w) (view w1)" by blast+
    then have one: "R w w1" by (simp add: store_moves_def)
    show ?thesis
    proof (cases r)
      case (Inl e)
      with l one show ?thesis by (simp add: andThen_def)
    next
      case (Inr x)
      have "R w1 (snd (f x w1))"
      proof (cases x)
        case None
        with assms(1) show ?thesis by (simp add: moves_def)
      next
        case (Some c)
        with load_law [OF l True] Inr have "seen view ws c w1" by (auto simp: seen_def)
        with assms(2) [of c] i1 Some show ?thesis by (auto simp: moves_from_def seen_def)
      qed
      with l one Inr show ?thesis by (auto simp: andThen_def dest: transpD [OF store_moves_trans])
    qed
  qed
qed

lemma after_save:
  assumes "legal_change (Some c) (Some d)" "\<And>ok. moves R (f ok)"
  shows "after ws c (andThen (saveIfVersion d (version c)) f)"
  unfolding moves_from_def
proof (intro allI impI)
  fix w assume i: "inv w" and s: "seen view ws c w"
  obtain b w1 where sv: "saveIfVersion d (version c) w = (b, w1)" by fastforce
  from s obtain v where v: "evolves v (view w)" "v ws = Some c" "workspaceId c = ws" by (auto simp: seen_def)
  from assms(1) v(3) have "workspaceId d = ws" by (simp add: legal_change_def)
  from save_successor_legal [OF sv i v(1,2) this assms(1)] have one: "R w w1" by (simp add: store_moves_def)
  show "R w (snd (andThen (saveIfVersion d (version c)) f w))"
  proof (cases b)
    case (Inl e)
    with sv one show ?thesis by (simp add: andThen_def)
  next
    case (Inr ok)
    have "R w1 (snd (f ok w1))" using assms(2) by (simp add: moves_def)
    with sv one Inr show ?thesis by (auto simp: andThen_def dest: transpD [OF store_moves_trans])
  qed
qed

lemma moves_save_first:
  assumes "version d = 0" "\<And>ok. moves R (f ok)"
  shows "moves R (andThen (saveIfVersion d 0) f)"
proof (rule moves_andThen [OF store_moves_trans _ assms(2)], rule movesI)
  fix w
  obtain b w1 where sv: "saveIfVersion d 0 w = (b, w1)" by fastforce
  show "R w (snd (saveIfVersion d 0 w))"
    using save_first_legal [OF sv _ refl assms(1)] sv by (simp add: store_moves_def)
qed

lemma hosted_ops:
  assumes "hosted d"
  shows "sd_load d = load" "sd_saveIfVersion d = saveIfVersion" "moves R (sd_now d)"
    "moves R (sd_resolveWorkspaceId d c m i)" "moves R (sd_onError d e x t)"
    "moves R (cs_claimStatus (sd_idempotency d) k ttl)" "moves R (cs_release (sd_idempotency d) k)"
    "moves R (cs_complete (sd_idempotency d) k)" "sd_retrieveSubscription d = Some f \<Longrightarrow> moves R (f x)"
    "moves R (emit d ev)"
  using assms by (auto simp: well_hosted_def emit_def calm split: option.splits)

lemma after_now:
  fixes d :: "'a StripeBillingDispatcher"
  shows "hosted d \<Longrightarrow> (\<And>t. after ws c (f t)) \<Longrightarrow> after ws c (andThen (sd_now d) f)"
  by (rule moves_from_andThen [OF hosted_ops(3)])

lemma after_check:
  "(\<And>x. r = Inr x \<Longrightarrow> after ws c (f x)) \<Longrightarrow> after ws c (andThen (liftE r) f)"
  by (cases r) (simp_all add: moves_from_def io_defs store_moves_def)

lemma moves_check: "(\<And>x. r = Inr x \<Longrightarrow> moves R (f x)) \<Longrightarrow> moves R (andThen (liftE r) f)"
  by (cases r) (simp_all add: moves_def io_defs store_moves_def)

lemmas after_calm = moves_from_weaken [of inv view]

lemma calm_emits: "hosted d \<Longrightarrow> moves R (emitUnbound d evt x)" "hosted d \<Longrightarrow> moves R (emitNoWorkspace d evt)"
  "hosted d \<Longrightarrow> moves R (emitOlderEvent d evt c)"
  by (simp_all add: emitUnbound_def emitNoWorkspace_def emitOlderEvent_def hosted_ops)

lemma cleared_legal:
  "pendingEventId c \<noteq> None \<Longrightarrow>
     legal_change (Some c) (Some (c\<lparr>pendingEventId := None, version := version c + 1, updatedAt := t\<rparr>))"
  by (simp add: legal_change_def delivery_cleared_def)

lemma calm_clearPending: "hosted d \<Longrightarrow> moves R (clearPending d ws ev n)"
proof (induction n)
  case (Suc n)
  show ?case
    unfolding clearPending.simps hosted_ops [OF Suc.prems]
  proof (rule moves_load_case, goal_cases)
    case 1
    then show ?case by (simp add: calm)
  next
    case (2 c)
    show ?case
      using Suc
      by (cases "pendingEventId c")
         (auto intro!: after_now after_save cleared_legal calm(1,2) intro: after_calm calm)
  qed
qed (simp add: calm)

lemma calm_emitPersisted: "hosted d \<Longrightarrow> moves R (emitPersisted d e ws)"
  unfolding emitPersisted_def by (intro calm hosted_ops calm_clearPending)

lemma no_pending: "assertNoPending (Some c) evt = Inr u \<Longrightarrow>
    truthy (pendingEventId c) \<longrightarrow> pendingEventId c = Some (evt_id evt)"
  by (auto simp: assertNoPending_def split: if_splits)

lemma reconciled_legal:
  assumes "assertNoPending (Some c) evt = Inr u" "isEqualTimestampEvent c created"
  shows "legal_change (Some c) (Some (reconciled c snap s evt created t))"
  using no_pending [OF assms(1)] assms(2)
  by (auto simp: legal_change_def event_applied_def reconciled_def isEqualTimestampEvent_def)

lemma calm_reconcileLoop: "hosted d \<Longrightarrow> moves R (reconcileLoop d evt ws ident snap s created n)"
proof (induction n)
  case (Suc n)
  note h = Suc.prems
  show ?case
    unfolding reconcileLoop.simps hosted_ops(1,2) [OF h] Let_def
  proof (rule moves_load_case, goal_cases)
    case 1
    then show ?case by (simp add: calm)
  next
    case (2 c)
    have "after ws c (andThen (sd_now d) (\<lambda>t.
        andThen (saveIfVersion (reconciled c snap s evt created t) (version c)) (\<lambda>ok.
          if ok then emitPersisted d (canonicalBillingEvent evt c (reconciled c snap s evt created t)) ws
          else reconcileLoop d evt ws ident snap s created n)))"
      if "assertNoPending (Some c) evt = Inr u" "isEqualTimestampEvent c created" for u
      using Suc that
      by (auto intro!: after_now after_save reconciled_legal [OF that] calm_emitPersisted)
    with h show ?case
      by (auto intro!: after_check intro: after_calm calm_emits calm_emitPersisted calm(2))
  qed
qed (simp add: calm)

lemma calm_reconcile: "hosted d \<Longrightarrow> moves R (reconcileEqualTimestamp d evt ws ident)"
  unfolding reconcileEqualTimestamp_def
  by (auto intro!: calm(2,5) moves_check hosted_ops calm_reconcileLoop split: option.splits)

lemma after_transform:
  assumes "sound_transform R evt created ident tr" "ready_for evt created ident c"
    and "\<And>e. moves R (f Replay)" "moves R (f OutOfOrder)" "\<And>e. moves R (f (EmitOnly e))"
    and "\<And>next e. legal_change (Some c) (Some next) \<Longrightarrow> after ws c (f (Next next e))"
  shows "after ws c (andThen (tr c) f)"
  unfolding moves_from_def
proof (intro allI impI)
  fix w assume i: "inv w" and s: "seen view ws c w"
  obtain r w1 where t: "tr c w = (r, w1)" by fastforce
  have one: "R w w1" using assms(1) t by (auto simp: sound_transform_def intro: movesD)
  show "R w (snd (andThen (tr c) f w))"
  proof (cases r)
    case (Inl e)
    with t one show ?thesis by (simp add: andThen_def)
  next
    case (Inr x)
    from one i have i1: "inv w1" and "evolves (view w) (view w1)" by (auto simp: store_moves_def)
    with s have s1: "seen view ws c w1" by (auto simp: seen_def intro: evolves_trans)
    have "R w1 (snd (f x w1))"
    proof (cases x)
      case (Next nx e)
      with t Inr have "tr c w = (Inr (Next nx e), w1)" by simp
      with assms(1,2) have "legal_change (Some c) (Some nx)" unfolding sound_transform_def by blast
      with assms(6) i1 s1 Next show ?thesis by (auto simp: moves_from_def)
    qed (use assms(3-5) in \<open>auto simp: moves_def\<close>)
    with t one Inr show ?thesis by (auto simp: andThen_def dest: transpD [OF store_moves_trans])
  qed
qed

lemma calm_advance:
  assumes h: "hosted d" and tr: "\<And>created. requireEventCreatedAt evt = Inr created \<Longrightarrow> sound_transform R evt created ident tr"
  shows "moves R (advance d evt ws tr ident n)"
proof (induction n)
  case (Suc n)
  show ?case
    unfolding advance.simps hosted_ops(1,2) [OF h]
  proof (rule moves_load_case, goal_cases)
    case 1
    then show ?case by (simp add: calm)
  next
    case (2 c)
    have "after ws c (andThen (tr c) (\<lambda>result. case result of
               Replay \<Rightarrow> emit d (EventReplay (evt_id evt) (evt_type evt))
             | OutOfOrder \<Rightarrow> emit d (DroppedOutOfOrder (evt_id evt) (evt_type evt) (''current='' @ stateName (state c)))
             | EmitOnly e \<Rightarrow> emitPersisted d e ws
             | Next next e \<Rightarrow> andThen (saveIfVersion next (version c)) (\<lambda>ok.
                 if ok then emitPersisted d e ws else advance d evt ws tr ident n)))"
      if "requireEventCreatedAt evt = Inr created" "ready_for evt created ident c" for created
      by (rule after_transform [OF tr [OF that(1)] that(2)])
         (auto intro!: hosted_ops [OF h] calm_emitPersisted [OF h] after_save Suc.IH)
    then show ?case
      by (auto intro!: after_check after_calm [OF calm_emits(1) [OF h]] after_calm [OF calm_emits(3) [OF h]]
          after_calm [OF calm_reconcile [OF h]] simp: ready_for_def no_pending)
  qed
qed (simp add: calm)

lemma after_bind:
  assumes "moves R m" "\<And>w x w'. m w = (Inr x, w') \<Longrightarrow> after ws c (f x)"
  shows "after ws c (andThen m f)"
  unfolding moves_from_def
proof (intro allI impI)
  fix w assume i: "inv w" and s: "seen view ws c w"
  obtain r w1 where m: "m w = (r, w1)" by fastforce
  have one: "R w w1" using assms(1) m by (rule movesD)
  show "R w (snd (andThen m f w))"
  proof (cases r)
    case (Inl e)
    with m one show ?thesis by (simp add: andThen_def)
  next
    case (Inr x)
    from one i have i1: "inv w1" and "evolves (view w) (view w1)" by (auto simp: store_moves_def)
    with s have "seen view ws c w1" by (auto simp: seen_def intro: evolves_trans)
    with assms(2) m Inr i1 have "R w1 (snd (f x w1))" by (auto simp: moves_from_def)
    with one m Inr show ?thesis by (auto simp: andThen_def dest: transpD [OF store_moves_trans])
  qed
qed

lemma calm_applyTransition:
  fixes d :: "'a StripeBillingDispatcher"
  shows "hosted d \<Longrightarrow> moves R (applyTransition (sd_now d) c p opts)"
  by (auto simp: applyTransition_def intro!: calm hosted_ops)

lemma transition_legal:
  assumes "applyTransition now c p (event_options evt created) w = (Inr r, w')"
    and "ready_for evt created ident c" "lastEventId c \<noteq> Some (evt_id evt)" "p_workspaceId p = None" "p_customerId p = None" "p_subscriptionId p = None"
  shows "legal_change (Some c) (Some r)"
proof -
  from assms(1) obtain t where v: "isValidTransition (state c) (p_state p)" and r: "r = (overlay c p)\<lparr>
      version := version c + 1, lastEventId := Some (evt_id evt), lastEventCreatedAt := Some created,
      lastEventPreviousState := (if truthy (Some (evt_id evt)) then Some (state c) else lastEventPreviousState c),
      pendingEventId := Some (evt_id evt), updatedAt := t\<rparr>"
    by (auto simp: applyTransition_def io_defs event_options_def split: if_splits sum.splits prod.splits)
  have "newer c r"
    using assms(2,3) by (auto simp: r newer_def ready_for_def isOlderEvent_def isEqualTimestampEvent_def split: option.splits)
  then show ?thesis
    using assms(2,4-6) v by (auto simp: legal_change_def event_applied_def r overlay_def ready_for_def)
qed

lemma sound_update:
  assumes "hosted d" shows "sound_transform R evt created ident (updateTransform d evt created sub ns)"
  unfolding sound_transform_def updateTransform_def
proof (intro conjI allI impI)
  show "moves R (if lastEventId c = Some (evt_id evt)
      then ret (EmitOnly (updated_event evt ns (nullish (lastEventPreviousState c) (state c)) c))
      else if \<not> isValidTransition (state c) ns then ret OutOfOrder
      else andThen (applyTransition (sd_now d) c ((patch_state ns)\<lparr>
             p_priceId := Some (nullish_opt (extractPriceId sub) (priceId c)),
             p_currentPeriodEnd := Some (nullish_opt (current_period_end sub) (currentPeriodEnd c)),
             p_trialEnd := Some (nullish_opt (trial_end sub) (trialEnd c)),
             p_cancelAtPeriodEnd := Some (nullish (cancel_at_period_end sub) (cancelAtPeriodEnd c))\<rparr>)
             (event_options evt created))
        (\<lambda>next. ret (Next next (updated_event evt ns (state c) next))))" for c
    using assms by (auto intro!: calm calm_applyTransition)
qed (auto simp: io_defs patch_state_def split: if_splits sum.splits prod.splits intro: transition_legal)

lemma sound_delete:
  assumes "hosted d" shows "sound_transform R evt created ident (deleteTransform d evt created sub)"
  unfolding sound_transform_def
proof (intro conjI allI impI)
  show "moves R (deleteTransform d evt created sub c)" for c
    using assms by (auto simp: deleteTransform_def intro!: calm calm_applyTransition)
qed (auto simp: deleteTransform_def io_defs patch_state_def split: if_splits sum.splits prod.splits intro: transition_legal)

lemma sound_lifecycle:
  assumes "hosted d" shows "sound_transform R evt created ident (lifecycleTransform d evt created target)"
  unfolding sound_transform_def
proof (intro conjI allI impI)
  show "moves R (lifecycleTransform d evt created target c)" for c
    using assms by (auto simp: lifecycleTransform_def intro!: calm calm_applyTransition)
qed (auto simp: lifecycleTransform_def io_defs patch_state_def split: if_splits sum.splits prod.splits intro: transition_legal)

lemma calm_withSubscription:
  assumes "hosted d"
    and "\<And>created sub ident ws. requireEventCreatedAt evt = Inr created \<Longrightarrow> moves R (k created sub ident ws)"
  shows "moves R (withSubscription d evt k)"
  unfolding withSubscription_def
  by (auto intro!: moves_check calm_emits hosted_ops calm(5) assms split: option.splits)

lemma calm_writeCreated_first:
  assumes "hosted d"
  shows "moves R (writeCreated d evt created sub ident ws None False)"
  unfolding writeCreated_def Let_def hosted_ops(1,2) [OF assms]
proof (intro moves_check, rule calm(5), rule hosted_ops(3) [OF assms])
  fix s t
  let ?r = "makeSubscriptionRecord ws (id_customerId ident) (id_subscriptionId ident) s (extractPriceId sub)
           (current_period_end sub) (trial_end sub) (cancel_at_period_end sub) (Some (evt_id evt)) (Some created)
           (Some (evt_id evt)) t"
  have "moves R (andThen (saveIfVersion ?r 0) (\<lambda>ok.
      if \<not> ok then emitUnbound d evt ''subscription create lost a concurrent compare-and-set''
      else emitPersisted d (created_event evt ?r) ws))"
    by (rule moves_save_first) (auto simp: makeSubscriptionRecord_def intro: calm_emits calm_emitPersisted assms)
  then show "moves R (andThen (case None of None \<Rightarrow> ret ?r
       | Some c \<Rightarrow> if False then ret (?r\<lparr>version := version c + 1\<rparr>)
           else applyTransition (sd_now d) c ((patch_state s)\<lparr>p_priceId := Some (extractPriceId sub),
               p_currentPeriodEnd := Some (current_period_end sub), p_trialEnd := Some (trial_end sub),
               p_cancelAtPeriodEnd := Some (nullish (cancel_at_period_end sub) False)\<rparr>) (event_options evt created))
       (\<lambda>r. andThen (saveIfVersion r (case None of None \<Rightarrow> 0 | Some c \<Rightarrow> version c)) (\<lambda>ok.
     if \<not> ok then emitUnbound d evt ''subscription create lost a concurrent compare-and-set''
     else emitPersisted d (created_event evt r) ws)))"
    by (simp add: moves_def io_defs)
qed

lemma rebind_legal:
  assumes "lastEventId c \<noteq> Some (evt_id evt)" "\<not> isOlderEvent c created" "\<not> isEqualTimestampEvent c created"
    and "assertNoPending (Some c) evt = Inr u" "workspaceId c = ws"
    and "\<not> matchesSubscription c ident" "customerId c = id_customerId ident" "isTerminalSubscriptionState (state c)"
    and "r = (makeSubscriptionRecord ws (id_customerId ident) (id_subscriptionId ident) s price period trial cancel
       (Some (evt_id evt)) (Some created) (Some (evt_id evt)) t)\<lparr>version := version c + 1\<rparr>"
  shows "legal_change (Some c) (Some r)"
proof -
  have "newer c r" using assms(2,3)
    by (auto simp: assms(9) newer_def makeSubscriptionRecord_def isOlderEvent_def isEqualTimestampEvent_def split: option.splits)
  then show ?thesis
    using assms no_pending [OF assms(4)]
    by (auto simp: legal_change_def event_applied_def makeSubscriptionRecord_def matchesSubscription_def)
qed

lemma after_writeCreated:
  assumes h: "hosted d" and cr: "lastEventId c \<noteq> Some (evt_id evt)" "\<not> isOlderEvent c created" "\<not> isEqualTimestampEvent c created"
    and pe: "assertNoPending (Some c) evt = Inr u" and ws: "workspaceId c = ws"
    and re: "rebinds \<longleftrightarrow> \<not> matchesSubscription c ident \<and> customerId c = id_customerId ident \<and> isTerminalSubscriptionState (state c)"
    and ok: "matchesSubscription c ident \<or> rebinds"
  shows "after ws c (writeCreated d evt created sub ident ws (Some c) rebinds)"
proof -
  have save: "after ws c (andThen (saveIfVersion r (version c)) (\<lambda>ok.
      if \<not> ok then emitUnbound d evt ''subscription create lost a concurrent compare-and-set''
      else emitPersisted d (created_event evt r) ws))" if "legal_change (Some c) (Some r)" for r
    using that by (auto intro!: after_save calm_emits calm_emitPersisted h)
  show ?thesis
    unfolding writeCreated_def Let_def hosted_ops(1,2) [OF h] option.case
  proof (intro after_check after_now [OF h])
    fix s t
    let ?f = "makeSubscriptionRecord ws (id_customerId ident) (id_subscriptionId ident) s (extractPriceId sub)
           (current_period_end sub) (trial_end sub) (cancel_at_period_end sub) (Some (evt_id evt)) (Some created)
           (Some (evt_id evt)) t"
    let ?p = "(patch_state s)\<lparr>p_priceId := Some (extractPriceId sub),
               p_currentPeriodEnd := Some (current_period_end sub), p_trialEnd := Some (trial_end sub),
               p_cancelAtPeriodEnd := Some (nullish (cancel_at_period_end sub) False)\<rparr>"
    let ?m = "if rebinds then ret (?f\<lparr>version := version c + 1\<rparr>)
           else applyTransition (sd_now d) c ?p (event_options evt created)"
    show "after ws c (andThen ?m (\<lambda>r. andThen (saveIfVersion r (version c)) (\<lambda>ok.
      if \<not> ok then emitUnbound d evt ''subscription create lost a concurrent compare-and-set''
      else emitPersisted d (created_event evt r) ws)))"
    proof (rule after_bind)
      show "moves R ?m" by (simp add: calm calm_applyTransition h)
      fix w r w' assume m: "?m w = (Inr r, w')"
      have "legal_change (Some c) (Some r)"
      proof (cases rebinds)
        case True
        with m have "r = ?f\<lparr>version := version c + 1\<rparr>" by (simp add: io_defs)
        with True re show ?thesis by (intro rebind_legal [OF cr pe ws]) auto
      next
        case False
        with m have "applyTransition (sd_now d) c ?p (event_options evt created) w = (Inr r, w')" by simp
        then show ?thesis
          by (rule transition_legal [of _ c _ evt created _ _ _ ident])
             (use False ok cr no_pending [OF pe] in \<open>auto simp: ready_for_def patch_state_def\<close>)
      qed
      then show "after ws c (andThen (saveIfVersion r (version c)) (\<lambda>ok.
      if \<not> ok then emitUnbound d evt ''subscription create lost a concurrent compare-and-set''
      else emitPersisted d (created_event evt r) ws))" by (rule save)
    qed
  qed
qed

lemma calm_created: "hosted d \<Longrightarrow> moves R (handleSubCreated d evt)"
  unfolding handleSubCreated_def
proof (rule calm_withSubscription, assumption)
  fix created sub ident ws
  assume h: "hosted d"
  show "moves R (andThen (sd_load d ws) (\<lambda>existing.
     let rebinds = (case existing of None \<Rightarrow> False | Some c \<Rightarrow>
           \<not> matchesSubscription c ident \<and> customerId c = id_customerId ident \<and> isTerminalSubscriptionState (state c)) in
     if (case existing of None \<Rightarrow> False | Some c \<Rightarrow> \<not> matchesSubscription c ident \<and> \<not> rebinds)
     then emitUnbound d evt ''subscription identity does not match the workspace record''
     else andThen (liftE (assertNoPending existing evt)) (\<lambda>_.
     case existing of
       None \<Rightarrow> writeCreated d evt created sub ident ws None False
     | Some c \<Rightarrow>
         if lastEventId c = Some (evt_id evt) then emitPersisted d (created_event evt c) ws
         else if isOlderEvent c created then emitOlderEvent d evt c
         else if isEqualTimestampEvent c created then reconcileEqualTimestamp d evt ws ident
         else if \<not> canApplyFreshCreate (state c)
         then emitUnbound d evt (''existing state '' @ stateName (state c) @ '' cannot accept a fresh created'')
         else writeCreated d evt created sub ident ws (Some c) rebinds)))"
    unfolding hosted_ops(1) [OF h]
  proof (rule moves_load_case, goal_cases)
    case 1
    show ?case by (auto simp: assertNoPending_def intro!: moves_check calm_writeCreated_first [OF h])
  next
    case (2 c)
    then show ?case
      unfolding Let_def option.case
      by (auto intro!: after_check after_writeCreated [OF h] after_calm [OF calm_emits(1) [OF h]]
          after_calm [OF calm_emits(3) [OF h]] after_calm [OF calm_reconcile [OF h]] after_calm [OF calm_emitPersisted [OF h]])
  qed
qed

lemma calm_trial: "hosted d \<Longrightarrow> moves R (handleTrialWillEnd d evt)"
  unfolding handleTrialWillEnd_def
proof (rule calm_withSubscription, assumption)
  fix created sub ident ws
  assume h: "hosted d"
  show "moves R (andThen (sd_load d ws) (\<lambda>loaded. case loaded of
       None \<Rightarrow> throw (stripe_error ''subscription state is not available yet'' (evt_id evt))
     | Some c \<Rightarrow>
         if \<not> matchesSubscription c ident
         then emitUnbound d evt ''subscription identity does not match the workspace record''
         else andThen (liftE (assertNoPending (Some c) evt)) (\<lambda>_.
           if lastEventId c = Some (evt_id evt)
           then emitPersisted d (TrialWillEnd (evt_id evt) c (nullish (trialEnd c) 0)) ws
           else if isOlderEvent c created then emitOlderEvent d evt c
           else if isEqualTimestampEvent c created then reconcileEqualTimestamp d evt ws ident
           else andThen (sd_now d) (\<lambda>t.
             let next = c\<lparr>lastEventId := Some (evt_id evt), lastEventCreatedAt := Some created,
                   lastEventPreviousState := Some (state c), pendingEventId := Some (evt_id evt),
                   trialEnd := nullish_opt (trial_end sub) (trialEnd c), version := version c + 1, updatedAt := t\<rparr> in
             andThen (sd_saveIfVersion d next (version c)) (\<lambda>ok.
               if \<not> ok then emitUnbound d evt ''trial update lost a concurrent compare-and-set''
               else emitPersisted d (TrialWillEnd (evt_id evt) next
                   (nullish (nullish_opt (trial_end sub) (trialEnd next)) 0)) ws)))))"
    unfolding hosted_ops(1,2) [OF h]
  proof (rule moves_load_case, goal_cases)
    case 1
    show ?case by (simp add: calm)
  next
    case (2 c)
    have legal: "legal_change (Some c) (Some (c\<lparr>lastEventId := Some (evt_id evt), lastEventCreatedAt := Some created,
                   lastEventPreviousState := Some (state c), pendingEventId := Some (evt_id evt),
                   trialEnd := x, version := version c + 1, updatedAt := t\<rparr>))"
      if "assertNoPending (Some c) evt = Inr u" "\<not> isOlderEvent c created" "\<not> isEqualTimestampEvent c created" for u x t
      using that no_pending [OF that(1)]
      by (auto simp: legal_change_def event_applied_def newer_def isOlderEvent_def isEqualTimestampEvent_def
          isValidTransition_def split: option.splits)
    show ?case
      unfolding Let_def option.case
      by (auto intro!: after_check after_now [OF h] after_save legal calm_emits calm_emitPersisted h after_calm [OF calm_emits(1) [OF h]]
          after_calm [OF calm_emits(3) [OF h]] after_calm [OF calm_reconcile [OF h]] after_calm [OF calm_emitPersisted [OF h]])
  qed
qed

lemma calm_loaded:
  assumes "moves R (f None)" "\<And>c. moves R (f (Some c))"
  shows "moves R (andThen (load ws) f)"
  using assms by (intro moves_load_case after_calm)

lemma calm_invoices:
  assumes h: "hosted d"
  shows "moves R (handleInvoicePaid d evt)" "moves R (handleInvoicePaymentFailed d evt)"
  unfolding handleInvoicePaid_def handleInvoicePaymentFailed_def Let_def hosted_ops(1) [OF h]
  by (auto intro!: moves_check calm(5) [OF hosted_ops(4) [OF h]] calm_loaded calm(2) calm_emits [OF h] hosted_ops(10) [OF h]
      split: option.splits prod.splits)

lemma calm_handleEvent: "hosted d \<Longrightarrow> moves R (handleEvent d evt)"
  unfolding handleEvent_def Let_def handleSubUpdated_def handleSubDeleted_def handleSubLifecycle_def
  by (auto intro!: calm_created calm_trial calm_invoices hosted_ops calm_withSubscription moves_check calm_advance
      sound_update sound_delete sound_lifecycle)

lemma calm_dispatch: "hosted d \<Longrightarrow> moves R (dispatch d env)"
  unfolding dispatch_def Let_def
  by (auto intro!: calm hosted_ops calm_handleEvent split: option.splits)

end

section \<open>Consequences for a record\<close>

lemma transition_marks:
  assumes "applyTransition now c p (event_options evt created) w = (Inr r, w')" "evt_id evt \<noteq> []"
  shows "lastEventId r = Some (evt_id evt) \<and> lastEventPreviousState r = Some (state c)"
  using assms by (auto simp: applyTransition_def io_defs event_options_def split: if_splits sum.splits prod.splits)

lemma andThen_Next:
  assumes "andThen m (\<lambda>r. ret (Next r (f r))) w = (Inr (Next nx e), w')"
  shows "m w = (Inr nx, w') \<and> e = f nx"
  using assms by (auto simp: andThen_def ret_def split: prod.splits sum.splits)

lemma update_retry:
  assumes "updateTransform d evt created sub ns c w = (Inr (Next nx e), w')" "evt_id evt \<noteq> []"
  shows "updateTransform d evt created sub ns nx v = (Inr (EmitOnly e), v)"
proof -
  from assms(1) obtain p where t: "applyTransition (sd_now d) c p (event_options evt created) w = (Inr nx, w')"
    and e: "e = updated_event evt ns (state c) nx"
    unfolding updateTransform_def by (auto simp: ret_def split: if_splits dest!: andThen_Next)
  from transition_marks [OF t assms(2)] e show ?thesis by (simp add: updateTransform_def ret_def)
qed

lemma delete_retry:
  assumes "deleteTransform d evt created sub c w = (Inr (Next nx e), w')" "evt_id evt \<noteq> []"
  shows "deleteTransform d evt created sub nx v = (Inr (EmitOnly e), v)"
proof -
  from assms(1) obtain p where t: "applyTransition (sd_now d) c p (event_options evt created) w = (Inr nx, w')"
    and e: "e = SubscriptionDeleted (evt_id evt) nx"
    unfolding deleteTransform_def by (auto simp: ret_def split: if_splits dest!: andThen_Next)
  from transition_marks [OF t assms(2)] e show ?thesis by (simp add: deleteTransform_def ret_def)
qed

lemma lifecycle_retry:
  assumes "lifecycleTransform d evt created target c w = (Inr (Next nx e), w')" "evt_id evt \<noteq> []"
  shows "lifecycleTransform d evt created target nx v = (Inr (EmitOnly e), v)"
proof -
  from assms(1) obtain p where t: "applyTransition (sd_now d) c p (event_options evt created) w = (Inr nx, w')"
    and e: "e = lifecycle_event evt target nx"
    unfolding lifecycleTransform_def by (auto simp: ret_def split: if_splits dest!: andThen_Next)
  from transition_marks [OF t assms(2)] e show ?thesis by (simp add: lifecycleTransform_def ret_def)
qed

lemma legal_changes_time:
  "legal_change\<^sup>*\<^sup>* x y \<Longrightarrow> x = Some c \<Longrightarrow> lastEventCreatedAt c = Some t \<Longrightarrow>
     \<exists>d u. y = Some d \<and> lastEventCreatedAt d = Some u \<and> t \<le> u"
proof (induction rule: rtranclp_induct)
  case (step y z)
  then obtain d u where d: "y = Some d" "lastEventCreatedAt d = Some u" "t \<le> u" by blast
  with step(2) obtain e where e: "z = Some e" "event_applied d e \<or> delivery_cleared d e"
    by (auto simp: legal_change_def split: option.splits)
  from e(2) have "\<exists>u'. lastEventCreatedAt e = Some u' \<and> u \<le> u'"
  proof
    assume "event_applied d e"
    with d(2) show ?thesis by (auto simp: event_applied_def newer_def split: option.splits)
  next
    assume "delivery_cleared d e"
    then have "lastEventCreatedAt e =
        lastEventCreatedAt (d\<lparr>pendingEventId := None, version := version d + 1, updatedAt := updatedAt e\<rparr>)"
      by (simp only: delivery_cleared_def)
    with d(2) show ?thesis by simp
  qed
  with d(3) e(1) show ?case by fastforce
qed simp

section \<open>Properties\<close>

text \<open>C12. Whatever event arrives, however the host and other workers act meanwhile, and whether or
  not the dispatch throws, the records of the file store only evolve by legal changes: one
  version at a time, an event only over a delivered predecessor, only a newer event of the bound
  subscription along the state table, except for a reconciliation within one second, and
  rebinding only from a subscription that has ended.\<close>

theorem dispatch_changes_are_legal:
  assumes "peaceful others" "well_hosted (store_moves fs_inv fs_view) fs_load (fs_saveIfVersion others) d" "fs_inv w"
  shows "fs_inv (snd (dispatch d env w)) \<and> evolves (fs_view w) (fs_view (snd (dispatch d env w)))"
proof -
  have "moves (store_moves fs_inv fs_view) (dispatch d env)"
    using versioned_store.calm_dispatch [OF file_store_versioned [OF assms(1)]] assms(2) by blast
  with assms(3) show ?thesis by (simp add: moves_def store_moves_def)
qed

text \<open>No dispatch takes a record back: it stays, its version does not fall, an unchanged version
  means an unchanged record, and the creation time of its newest event does not go back.\<close>

theorem dispatch_never_goes_back:
  assumes "peaceful others" "well_hosted (store_moves fs_inv fs_view) fs_load (fs_saveIfVersion others) d" "fs_inv w"
    and "fs_view w ws = Some c"
  shows "\<exists>r. fs_view (snd (dispatch d env w)) ws = Some r \<and> version c \<le> version r \<and> (version r = version c \<longrightarrow> r = c)
     \<and> (\<forall>t. lastEventCreatedAt c = Some t \<longrightarrow> (\<exists>u \<ge> t. lastEventCreatedAt r = Some u))"
proof -
  have "moves (store_moves fs_inv fs_view) (dispatch d env)"
    using versioned_store.calm_dispatch [OF file_store_versioned [OF assms(1)]] assms(2) by blast
  with assms(3) have "evolves (fs_view w) (fs_view (snd (dispatch d env w)))" by (simp add: moves_def store_moves_def)
  then have ch: "legal_change\<^sup>*\<^sup>* (fs_view w ws) (fs_view (snd (dispatch d env w)) ws)" by (simp add: evolves_def)
  from legal_changes_version [OF this assms(4)] obtain r where r: "fs_view (snd (dispatch d env w)) ws = Some r"
    "version c \<le> version r" "version r = version c \<longrightarrow> r = c" by blast
  moreover have "\<exists>u \<ge> t. lastEventCreatedAt r = Some u" if "lastEventCreatedAt c = Some t" for t
    using legal_changes_time [OF ch assms(4) that] r(1) by auto
  ultimately show ?thesis by blast
qed

text \<open>A retry after a failed delivery repeats the event: when a handler proposed a record and an
  event, a second run of the handler on that record proposes to emit the very same event, with
  the same previous state and the same record, and writes nothing.\<close>

theorem retry_repeats_the_event:
  assumes "evt_id evt \<noteq> []"
  shows "(updateTransform d evt created sub ns c w = (Inr (Next nx e), w') \<longrightarrow>
            updateTransform d evt created sub ns nx v = (Inr (EmitOnly e), v)) \<and>
         (deleteTransform d evt created sub c w = (Inr (Next nx e), w') \<longrightarrow>
            deleteTransform d evt created sub nx v = (Inr (EmitOnly e), v)) \<and>
         (lifecycleTransform d evt created target c w = (Inr (Next nx e), w') \<longrightarrow>
            lifecycleTransform d evt created target nx v = (Inr (EmitOnly e), v))"
  using assms by (blast intro: update_retry delete_retry lifecycle_retry)

text \<open>After a reconciliation the retry does not repeat the event: a pause event whose
  reconciliation found the subscription active is announced as an update, but when that delivery
  fails the retry announces a pause, with a record that says active.\<close>

theorem reconciled_event_is_retried_as_another:
  shows "canonicalBillingEvent evt c (reconciled c snap Active evt created t) =
           SubscriptionUpdated (evt_id evt) (state c) (reconciled c snap Active evt created t) \<and>
         lifecycleTransform d evt created Paused (reconciled c snap Active evt created t) w =
           (Inr (EmitOnly (SubscriptionPaused (evt_id evt) (reconciled c snap Active evt created t))), w) \<and>
         state (reconciled c snap Active evt created t) = Active"
  by (simp add: canonicalBillingEvent_def reconciled_def lifecycleTransform_def lifecycle_event_def io_defs)

text \<open>A customer who resubscribes in the second in which the old subscription ended is dropped:
  the created event of the new subscription is reconciled against the record of the old one, does
  not match it, and is acknowledged as out of order with nothing written.\<close>

theorem resubscription_in_the_same_second_is_dropped:
  assumes "requireEventCreatedAt evt = Inr created" "eventObject evt = Inr sub" "subscriptionIdentity sub = Some ident"
    and "sd_resolveWorkspaceId d (id_customerId ident) (opt_field sub ''metadata'') None w = (Inr (Some ws), w)" "ws \<noteq> []"
    and "sd_load d ws w = (Inr (Some c), w)"
    and "customerId c = id_customerId ident" "subscriptionId c \<noteq> id_subscriptionId ident"
    and "isTerminalSubscriptionState (state c)" "pendingEventId c = None"
    and "lastEventId c \<noteq> Some (evt_id evt)" "lastEventCreatedAt c = Some created"
    and "sd_retrieveSubscription d = Some retrieve" "retrieve (id_subscriptionId ident) w = (Inr snap, w)"
    and "subscriptionIdentity (Some snap) = Some ident" "parseState (field snap ''status'') (evt_id evt) = Inr Active"
    and "sd_maxCasRetries d = Suc n"
  shows "handleSubCreated d evt w = emit d (DroppedOutOfOrder (evt_id evt) (evt_type evt)
     ''subscription identity does not match the workspace record'') w"
  using assms
  by (simp add: handleSubCreated_def withSubscription_def io_defs matchesSubscription_def assertNoPending_def
      isOlderEvent_def isEqualTimestampEvent_def reconcileEqualTimestamp_def emitUnbound_def Let_def)

section \<open>The properties at a concrete dispatcher\<close>

definition dx_object :: "string \<Rightarrow> string \<Rightarrow> json" where
  "dx_object sub_id st = JObj [(''id'', JStr sub_id), (''customer'', JStr ''cus''), (''status'', JStr st),
     (''metadata'', JObj [(''workspaceId'', JStr ''a/b'')])]"

definition dx_event :: "string \<Rightarrow> int \<Rightarrow> json \<Rightarrow> StripeEvent" where
  "dx_event kind created obj = \<lparr>evt_id = ''e2'', evt_type = kind, evt_created = Some (JNum (Finite created)),
     evt_data = Some (JObj [(''object'', obj)])\<rparr>"

definition dx_envelope :: WebhookEnvelope where
  "dx_envelope = \<lparr>provider = ''stripe'', eventType = ''customer.subscription.updated'', providerEventId = Some ''e2'',
     receivedAt = 0, payload = JObj [(''id'', JStr ''e2''), (''type'', JStr ''customer.subscription.updated''),
       (''created'', JNum (Finite 7)), (''data'', JObj [(''object'', dx_object ''sub'' ''past_due'')])], headers = []\<rparr>"

definition dx_dispatcher :: "sub_files StripeBillingDispatcher" where
  "dx_dispatcher = \<lparr>sd_load = fs_load, sd_saveIfVersion = fs_saveIfVersion id,
     sd_resolveWorkspaceId = (\<lambda>c m i. ret (defaultResolveWorkspaceId m i)),
     sd_retrieveSubscription = Some (\<lambda>i. ret (dx_object i ''active'')), sd_listener = Some (\<lambda>e. ret ()),
     sd_onError = (\<lambda>e i t. ret ()), sd_now = ret 9, sd_maxCasRetries = 3,
     sd_idempotency = \<lparr>cs_claimStatus = (\<lambda>k t. ret acquired), cs_release = (\<lambda>k. ret ()), cs_complete = (\<lambda>k. ret ())\<rparr>,
     sd_idempotencyTtlMs = Finite 100\<rparr>"

lemma dx_hosted: "well_hosted (store_moves fs_inv fs_view) fs_load (fs_saveIfVersion id) dx_dispatcher"
  by (simp add: well_hosted_def dx_dispatcher_def calm)

theorem dispatch_changes_are_legal_witness:
  "fs_inv (snd (dispatch dx_dispatcher dx_envelope sx_files)) \<and>
   evolves (fs_view sx_files) (fs_view (snd (dispatch dx_dispatcher dx_envelope sx_files)))"
  by (rule dispatch_changes_are_legal [OF peaceful_id dx_hosted conjunct1 [OF sx_view]])

theorem dispatch_never_goes_back_witness:
  "\<exists>r. fs_view (snd (dispatch dx_dispatcher dx_envelope sx_files)) ''a/b'' = Some r \<and> version sx_record \<le> version r
     \<and> (\<exists>u \<ge> 5. lastEventCreatedAt r = Some u)"
  using dispatch_never_goes_back [OF peaceful_id dx_hosted conjunct1 [OF sx_view] conjunct2 [OF sx_view], of dx_envelope]
  by (auto simp: sx_record_def makeSubscriptionRecord_def)

theorem retry_repeats_the_event_witness:
  "\<exists>nx. updateTransform dx_dispatcher (dx_event ''customer.subscription.updated'' 7 (dx_object ''sub'' ''past_due'')) 7
       (Some (dx_object ''sub'' ''past_due'')) PastDue nx sx_files =
     (Inr (EmitOnly (SubscriptionUpdated ''e2'' Active nx)), sx_files)"
proof -
  let ?e = "dx_event ''customer.subscription.updated'' 7 (dx_object ''sub'' ''past_due'')"
  have ne: "evt_id ?e \<noteq> []" by (simp add: dx_event_def)
  obtain nx where u: "updateTransform dx_dispatcher ?e 7 (Some (dx_object ''sub'' ''past_due'')) PastDue sx_record sx_files =
      (Inr (Next nx (SubscriptionUpdated ''e2'' Active nx)), sx_files)"
    by (simp add: updateTransform_def applyTransition_def io_defs sx_record_def makeSubscriptionRecord_def
        dx_event_def dx_dispatcher_def isValidTransition_def patch_state_def updated_event_def)
  from mp [OF conjunct1 [OF retry_repeats_the_event [OF ne]] u] show ?thesis by blast
qed

definition dx_old :: SubscriptionRecord where
  "dx_old = sx_record\<lparr>state := Canceled, pendingEventId := None\<rparr>"

definition dx_still :: "sub_files StripeBillingDispatcher" where
  "dx_still = dx_dispatcher\<lparr>sd_load := (\<lambda>ws. ret (Some dx_old))\<rparr>"

theorem resubscription_in_the_same_second_is_dropped_witness:
  "handleSubCreated dx_still (dx_event ''customer.subscription.created'' 5 (dx_object ''sub2'' ''active'')) sx_files =
     (Inr (), sx_files)"
proof -
  let ?e = "dx_event ''customer.subscription.created'' 5 (dx_object ''sub2'' ''active'')"
  have t: "trim ''cus'' = ''cus''" "trim ''sub2'' = ''sub2''" by (simp_all add: trim_def js_space_def)
  have "handleSubCreated dx_still ?e sx_files = emit dx_still (DroppedOutOfOrder (evt_id ?e) (evt_type ?e)
     ''subscription identity does not match the workspace record'') sx_files"
    by (rule resubscription_in_the_same_second_is_dropped [where created = 5 and ws = "''a/b''" and c = dx_old and n = 2
          and sub = "Some (dx_object ''sub2'' ''active'')" and snap = "dx_object ''sub2'' ''active''"
          and ident = "\<lparr>id_customerId = ''cus'', id_subscriptionId = ''sub2''\<rparr>"
          and retrieve = "\<lambda>i. ret (dx_object i ''active'')"])
       (simp_all add: dx_event_def dx_object_def dx_still_def dx_dispatcher_def dx_old_def sx_record_def makeSubscriptionRecord_def
          requireEventCreatedAt_def safe_nat_def safe_integer_def eventObject_def opt_field_def subscriptionIdentity_def
          readExpandableId_def nonblank_def t ret_def defaultResolveWorkspaceId_def isTerminalSubscriptionState_def
          parseState_def stateOfName_def SUBSCRIPTION_STATES_def)
  then show ?thesis by (simp add: emit_def dx_still_def dx_dispatcher_def io_defs)
qed

end
