(* ===== verification/BillingAccess.thy ===== *)
theory BillingAccess
  imports Subscription Idempotency
begin

text \<open>
  The identity and funding policy of \<open>billing-access-policy.ts\<close> and the subscription gate of
  \<open>stripe/middleware.ts\<close>: verification of a signed access proof, the one-time claim of its
  funding record, the object-identity sets of trusted and consumed proofs, and the access
  decision. The signature check is the \<open>jose\<close> package's \<open>jwtVerify\<close>, a parameter, and so is
  \<open>Date.parse\<close> on foreign strings. A time that the code formats with \<open>toISOString\<close> and parses
  back is represented by its instant in milliseconds.
\<close>

section \<open>Evidence\<close>

datatype TrustedFundingEvidence =
  PaidPurchase string int string
| PaidSubscription string string string int "string option"
| Byok string string string
| NamedService string string string
| AdminFunding string string

fun funding_evidenceId :: "TrustedFundingEvidence \<Rightarrow> string" where
  "funding_evidenceId (PaidPurchase i _ _) = i"
| "funding_evidenceId (PaidSubscription i _ _ _ _) = i"
| "funding_evidenceId (Byok i _ _) = i"
| "funding_evidenceId (NamedService i _ _) = i"
| "funding_evidenceId (AdminFunding i _) = i"

datatype funding_kind = paid_purchase | paid_subscription | byok | named_service | admin_funding

fun funding_kind_of :: "TrustedFundingEvidence \<Rightarrow> funding_kind" where
  "funding_kind_of (PaidPurchase _ _ _) = paid_purchase"
| "funding_kind_of (PaidSubscription _ _ _ _ _) = paid_subscription"
| "funding_kind_of (Byok _ _ _) = byok"
| "funding_kind_of (NamedService _ _ _) = named_service"
| "funding_kind_of (AdminFunding _ _) = admin_funding"

text \<open>The user id, and for a human the e-mail and whether it is verified.\<close>

datatype TrustedPlatformPrincipal =
  Human string string bool
| ServicePrincipal string string string
| Admin string string

fun principal_userId :: "TrustedPlatformPrincipal \<Rightarrow> string" where
  "principal_userId (Human u _ _) = u"
| "principal_userId (ServicePrincipal u _ _) = u"
| "principal_userId (Admin u _) = u"

record TrustedPlatformEvidence =
  ev_evidenceId :: string
  ev_tokenId :: string
  ev_principal :: TrustedPlatformPrincipal
  ev_funding :: TrustedFundingEvidence
  ev_audience :: string
  ev_issuedAt :: int
  ev_expiresAt :: int

text \<open>An evidence object: its identity, on which the weak sets work, and its value. Objects
  returned by the verification are frozen, so an identity has one value.\<close>

type_synonym evidence_object = "nat \<times> TrustedPlatformEvidence"

record access_world = InMemoryAtomicIdempotencyStore +
  trustedEvidenceObjects :: "evidence_object set"
  consumedPurchaseEvidenceObjects :: "evidence_object set"
  objects_made :: nat

definition PLATFORM_FUNDING_REPLAY_RETENTION_MS :: int where
  "PLATFORM_FUNDING_REPLAY_RETENTION_MS = 100 * 365 * 24 * 60 * 60 * 1000"

section \<open>Reading claims\<close>

definition readNonEmptyString :: "json option \<Rightarrow> string option" where
  "readNonEmptyString v = (case as_string v of None \<Rightarrow> None | Some s \<Rightarrow> if trim s = [] then None else Some (trim s))"

definition readPositiveNumber :: "json option \<Rightarrow> int option" where
  "readPositiveNumber v = (case as_finite v of None \<Rightarrow> None | Some n \<Rightarrow> if n > 0 then Some n else None)"

subsection \<open>E-mail addresses\<close>

fun has_double_dot :: "string \<Rightarrow> bool" where
  "has_double_dot (x # y # zs) = (x = CHR ''.'' \<and> y = CHR ''.'' \<or> has_double_dot (y # zs))"
| "has_double_dot _ = False"

definition domain_label :: "string \<Rightarrow> bool" where
  "domain_label s \<longleftrightarrow> s \<noteq> [] \<and> is_alnum (hd s) \<and> list_all (\<lambda>c. is_alnum c \<or> c = CHR ''-'') s"

text \<open>The address pattern: the sets of the local part and of the domain exclude the separators, so
  a match splits at the one \<open>@\<close> and at every dot of the domain.\<close>

definition email_pattern :: "string \<Rightarrow> bool" where
  "email_pattern s \<longleftrightarrow> (case split_on (CHR ''@'') s of
       [local_part, domain] \<Rightarrow>
         local_part \<noteq> [] \<and> hd s \<noteq> CHR ''.'' \<and> \<not> has_double_dot s \<and>
         list_all (\<lambda>c. is_alnum c \<or> c \<in> {CHR ''_'', CHR 0x27, CHR ''+'', CHR ''-'', CHR ''.''}) (butlast local_part) \<and>
         (is_alnum (last local_part) \<or> last local_part \<in> {CHR ''_'', CHR ''+'', CHR ''-''}) \<and>
         (let labels = split_on (CHR ''.'') domain in
            length labels \<ge> 2 \<and> list_all domain_label (butlast labels) \<and>
            length (last labels) \<ge> 2 \<and> list_all is_letter (last labels))
     | _ \<Rightarrow> False)"

definition placeholder_pattern :: "string \<Rightarrow> bool" where
  "placeholder_pattern s \<longleftrightarrow> (let l = map to_lower s in
     ends_with l ''@users.noreply.tangle.tools'' \<or>
     (length l = 55 \<and> take 2 l = ''0x'' \<and> list_all (\<lambda>c. is_digit c \<or> c \<in> set ''abcdef'') (take 40 (drop 2 l))
      \<and> drop 42 l = ''@tangle.tools''))"

definition isRealNonPlaceholderEmail :: "string \<Rightarrow> bool" where
  "isRealNonPlaceholderEmail v \<longleftrightarrow> (let email = trim v in
     3 \<le> length email \<and> length email \<le> 320 \<and> email_pattern email \<and> \<not> placeholder_pattern email)"

subsection \<open>Principal and funding\<close>

definition parsePrincipal :: "json \<Rightarrow> json \<Rightarrow> json \<Rightarrow> string \<Rightarrow> TrustedPlatformPrincipal option" where
  "parsePrincipal payload user prin userId =
     (let kind = readNonEmptyString (field prin ''kind'');
          pid = readNonEmptyString (field prin ''id'') in
      if kind = Some ''human'' then
        (case readNonEmptyString (field user ''email'') of
           None \<Rightarrow> None
         | Some email \<Rightarrow> if field payload ''emailVerified'' = Some (JBool True) \<and> isRealNonPlaceholderEmail email
             then Some (Human userId email True) else None)
      else if kind = Some ''service_principal'' then
        (case (pid, readNonEmptyString (field prin ''name'')) of
           (Some i, Some n) \<Rightarrow> Some (ServicePrincipal userId i n) | _ \<Rightarrow> None)
      else if kind = Some ''admin'' then map_option (Admin userId) pid
      else None)"

definition parseFunding :: "(string \<Rightarrow> int option) \<Rightarrow> json \<Rightarrow> TrustedFundingEvidence option" where
  "parseFunding dateParse v =
     (let kind = readNonEmptyString (field v ''kind'') in
      case readNonEmptyString (field v ''id'') of
        None \<Rightarrow> None
      | Some i \<Rightarrow>
        if kind = Some ''paid_purchase'' then
          (case (readPositiveNumber (field v ''amountUsd''), readNonEmptyString (field v ''paidAt'')) of
             (Some a, Some p) \<Rightarrow> if dateParse p \<noteq> None then Some (PaidPurchase i a p) else None
           | _ \<Rightarrow> None)
        else if kind = Some ''paid_subscription'' then
          (case (readNonEmptyString (field v ''subscriptionId''), as_string (field v ''status''),
                 readPositiveNumber (field v ''amountUsd'')) of
             (Some s, Some st, Some a) \<Rightarrow>
               if st \<noteq> ''active'' \<and> st \<noteq> ''past_due'' then None
               else if field v ''currentPeriodEnd'' \<noteq> None \<and> field v ''currentPeriodEnd'' \<noteq> Some JNull \<and>
                  (case as_string (field v ''currentPeriodEnd'') of None \<Rightarrow> True | Some e \<Rightarrow> dateParse e = None) then None
               else Some (PaidSubscription i s st a (as_string (field v ''currentPeriodEnd'')))
           | _ \<Rightarrow> None)
        else if kind = Some ''byok'' then
          (case (readNonEmptyString (field v ''provider''), readNonEmptyString (field v ''keyId'')) of
             (Some p, Some k) \<Rightarrow> Some (Byok i p k) | _ \<Rightarrow> None)
        else if kind = Some ''named_service'' then
          (case (readNonEmptyString (field v ''serviceId''), readNonEmptyString (field v ''serviceName'')) of
             (Some s, Some n) \<Rightarrow> Some (NamedService i s n) | _ \<Rightarrow> None)
        else if kind = Some ''admin'' then map_option (AdminFunding i) (readNonEmptyString (field v ''adminId''))
        else None)"

fun principalMatchesFunding :: "TrustedPlatformPrincipal \<Rightarrow> TrustedFundingEvidence \<Rightarrow> bool" where
  "principalMatchesFunding (Human _ _ _) f = (funding_kind_of f \<in> {paid_purchase, paid_subscription, byok})"
| "principalMatchesFunding (ServicePrincipal _ s n) f =
     (case f of NamedService _ s' n' \<Rightarrow> s' = s \<and> n' = n | _ \<Rightarrow> False)"
| "principalMatchesFunding (Admin _ a) f = (case f of AdminFunding _ a' \<Rightarrow> a' = a | _ \<Rightarrow> False)"

section \<open>Verification of a signed proof\<close>

record replay_store =
  rs_claim :: "string \<Rightarrow> js_number \<Rightarrow> (access_world, exn, bool) io"
  rs_release :: "string \<Rightarrow> (access_world, exn, unit) io"
  rs_complete :: "string \<Rightarrow> (access_world, exn, unit) io"
  rs_scope :: "store_scope option"

record verify_options =
  vo_audience :: string
  vo_expectedUserId :: string
  vo_replayStore :: replay_store
  vo_runtime :: "IdempotencyRuntime option"
  vo_now :: "(access_world, exn, js_number) io"
  vo_clockToleranceSeconds :: "js_number option"
  vo_maxTokenAgeSeconds :: "js_number option"

text \<open>The signature check: token, audience, subject, current time, tolerance and maximal age to a
  payload. It throws when the token does not pass.\<close>

type_synonym jwt_check = "string \<Rightarrow> string \<Rightarrow> string \<Rightarrow> int \<Rightarrow> int \<Rightarrow> int \<Rightarrow> (access_world, exn, json) io"

text \<open>What the code accepts of a verified payload: the standard claims, checked again, and the
  principal and funding with their agreement.\<close>

record accepted_claims =
  ac_iat :: int
  ac_exp :: int
  ac_jti :: string
  ac_principal :: TrustedPlatformPrincipal
  ac_funding :: TrustedFundingEvidence

definition acceptPayload :: "(string \<Rightarrow> int option) \<Rightarrow> string \<Rightarrow> string \<Rightarrow> int \<Rightarrow> json \<Rightarrow> accepted_claims option" where
  "acceptPayload dateParse audience expectedUserId nowSeconds payload =
     (case (as_finite (field payload ''iat''), as_finite (field payload ''nbf''), as_finite (field payload ''exp''),
            as_string (field payload ''jti'')) of
        (Some iat, Some nbf, Some expiry, Some jti) \<Rightarrow>
          if field payload ''aud'' \<noteq> Some (JStr audience) \<or> field payload ''sub'' \<noteq> Some (JStr expectedUserId)
             \<or> trim jti = [] \<or> iat > nowSeconds \<or> nbf > nowSeconds \<or> expiry \<le> nowSeconds then None
          else if \<not> is_record payload then None
          else if field payload ''policyVersion'' \<noteq> Some (JNum (Finite 1)) then None
          else (case (field payload ''user'', field payload ''principal'', field payload ''funding'') of
             (Some user, Some prin, Some fund) \<Rightarrow>
               if \<not> is_record user \<or> \<not> is_record prin \<or> \<not> is_record fund then None
               else (case readNonEmptyString (field user ''id'') of
                   None \<Rightarrow> None
                 | Some userId \<Rightarrow>
                     if userId \<noteq> expectedUserId then None
                     else (case (parsePrincipal payload user prin userId, parseFunding dateParse fund) of
                         (Some p, Some f) \<Rightarrow>
                           if principalMatchesFunding p f
                           then Some \<lparr>ac_iat = iat, ac_exp = expiry, ac_jti = jti, ac_principal = p, ac_funding = f\<rparr>
                           else None
                       | _ \<Rightarrow> None))
           | _ \<Rightarrow> None)
      | _ \<Rightarrow> None)"

definition replayKey :: "accepted_claims \<Rightarrow> string" where
  "replayKey a = ''platform-access:id.tangle.tools:1:'' @
     (if funding_kind_of (ac_funding a) = paid_purchase
      then ''funding:'' @ funding_evidenceId (ac_funding a) else ''presentation:'' @ ac_jti a)"

definition replayTtlMs :: "accepted_claims \<Rightarrow> int \<Rightarrow> int \<Rightarrow> int" where
  "replayTtlMs a nowSeconds tolerance =
     (let tokenTtlMs = max 1 ((ac_exp a - nowSeconds + tolerance) * 1000) in
      if funding_kind_of (ac_funding a) = paid_purchase then max PLATFORM_FUNDING_REPLAY_RETENTION_MS tokenTtlMs
      else tokenTtlMs)"

text \<open>\<open>new Date(ms).toISOString()\<close> throws outside the range of time values.\<close>

definition toISOString :: "int \<Rightarrow> exn + int" where
  "toISOString ms = (if \<bar>ms\<bar> \<le> 8640000000000000 then Inr ms else Inl (Error ''Invalid time value''))"

text \<open>\<open>Object.freeze({...})\<close>: a fresh object.\<close>

definition makeEvidence :: "TrustedPlatformEvidence \<Rightarrow> (access_world, exn, evidence_object) io" where
  "makeEvidence e w = (Inr (objects_made w, e), w\<lparr>objects_made := Suc (objects_made w)\<rparr>)"

definition settleClaim :: "replay_store \<Rightarrow> string \<Rightarrow> (access_world, exn, unit) io" where
  "settleClaim rs key =
     tryCatch (rs_complete rs key) (\<lambda>completeError.
       andThen (tryCatch (rs_release rs key) (\<lambda>releaseError.
           throw (AggregateError [completeError, releaseError] ''Platform evidence claim could not complete or release'')))
       (\<lambda>_. throw completeError))"

definition consumeProof :: "process_env \<Rightarrow> verify_options \<Rightarrow> accepted_claims \<Rightarrow> int \<Rightarrow> int \<Rightarrow>
    (access_world, exn, evidence_object option) io" where
  "consumeProof env opts a nowSeconds tolerance =
     andThen (liftE (resolveAtomicIdempotencyStore env ''verifyTrustedPlatformEvidence'' rs_scope
                       (Some (vo_replayStore opts)) (vo_runtime opts))) (\<lambda>_.
     let rs = vo_replayStore opts; key = replayKey a in
     andThen (rs_claim rs key (Finite (replayTtlMs a nowSeconds tolerance))) (\<lambda>claimed.
     if \<not> claimed then ret None
     else andThen (liftE (toISOString (ac_iat a * 1000))) (\<lambda>issued.
          andThen (liftE (toISOString (ac_exp a * 1000))) (\<lambda>expires.
          andThen (makeEvidence \<lparr>ev_evidenceId = funding_evidenceId (ac_funding a), ev_tokenId = ac_jti a,
              ev_principal = ac_principal a, ev_funding = ac_funding a, ev_audience = vo_audience opts,
              ev_issuedAt = issued, ev_expiresAt = expires\<rparr>) (\<lambda>result.
          andThen (settleClaim rs key) (\<lambda>_.
          andThen (updates (\<lambda>w. w\<lparr>trustedEvidenceObjects := insert result (trustedEvidenceObjects w)\<rparr>)) (\<lambda>_.
          ret (Some result))))))))"

definition verifyTrustedPlatformEvidence :: "process_env \<Rightarrow> (string \<Rightarrow> int option) \<Rightarrow> jwt_check \<Rightarrow> string \<Rightarrow> verify_options \<Rightarrow>
    (access_world, exn, evidence_object option) io" where
  "verifyTrustedPlatformEvidence env dateParse jwtVerify signedEvidence opts =
     (if trim signedEvidence = [] then ret None
      else if trim (vo_audience opts) = [] \<or> trim (vo_expectedUserId opts) = [] then ret None
      else andThen (vo_now opts) (\<lambda>now.
      case (now, nullish (vo_clockToleranceSeconds opts) (Finite 5), nullish (vo_maxTokenAgeSeconds opts) (Finite 300)) of
        (Finite nowMs, Finite tolerance, Finite maxAge) \<Rightarrow>
          if tolerance < 0 \<or> maxAge \<le> 0 then ret None
          else andThen (settled (jwtVerify signedEvidence (vo_audience opts) (vo_expectedUserId opts) nowMs tolerance maxAge))
            (\<lambda>verified. case verified of
               Inl _ \<Rightarrow> ret None
             | Inr payload \<Rightarrow>
                 (case acceptPayload dateParse (vo_audience opts) (vo_expectedUserId opts) (nowMs div 1000) payload of
                    None \<Rightarrow> ret None
                  | Some a \<Rightarrow> consumeProof env opts a (nowMs div 1000) tolerance))
      | _ \<Rightarrow> ret None))"

section \<open>The access decision\<close>

datatype BillingAccessDecision =
  AccessAllowed funding_kind TrustedPlatformPrincipal
| AccessDenied BillingErrorCode string

definition isTrustedPlatformEvidence :: "evidence_object \<Rightarrow> access_world \<Rightarrow> bool" where
  "isTrustedPlatformEvidence e w \<longleftrightarrow> e \<in> trustedEvidenceObjects w"

definition decideBillingAccess :: "evidence_object option \<Rightarrow> string option \<Rightarrow> (access_world, exn, BillingAccessDecision) io" where
  "decideBillingAccess evidence expectedUserId =
     andThen (reads (\<lambda>w. case evidence of None \<Rightarrow> False | Some e \<Rightarrow> isTrustedPlatformEvidence e w)) (\<lambda>trusted.
     if \<not> trusted then ret (AccessDenied platform_evidence_required ''Platform must attest the identity and funding source'')
     else let e = the evidence; v = snd e in
     andThen date_now (\<lambda>now.
     if ev_expiresAt v \<le> now then ret (AccessDenied platform_evidence_expired ''Platform evidence has expired'')
     else if truthy expectedUserId \<and> Some (principal_userId (ev_principal v)) \<noteq> expectedUserId
     then ret (AccessDenied platform_evidence_subject_mismatch ''Platform evidence belongs to a different owner'')
     else (case (case ev_principal v of
           Human _ email verified \<Rightarrow>
             if \<not> verified then Some (AccessDenied email_verification_required ''Human access requires a verified email'')
             else if \<not> isRealNonPlaceholderEmail email
             then Some (AccessDenied real_email_required ''Human access requires a real non-placeholder email'')
             else None
         | _ \<Rightarrow> None) of
         Some denial \<Rightarrow> ret denial
       | None \<Rightarrow>
           if funding_kind_of (ev_funding v) = paid_purchase then
             andThen (reads (\<lambda>w. e \<in> consumedPurchaseEvidenceObjects w)) (\<lambda>used.
             if used then ret (AccessDenied platform_evidence_replayed ''Paid purchase evidence was already consumed'')
             else andThen (updates (\<lambda>w. w\<lparr>consumedPurchaseEvidenceObjects := insert e (consumedPurchaseEvidenceObjects w)\<rparr>))
               (\<lambda>_. ret (AccessAllowed paid_purchase (ev_principal v))))
           else ret (AccessAllowed (funding_kind_of (ev_funding v)) (ev_principal v)))))"

definition assertNoProductFreeTrial :: "js_number option \<Rightarrow> exn + unit" where
  "assertNoProductFreeTrial trialDays = (case trialDays of
       None \<Rightarrow> Inr ()
     | Some (Finite n) \<Rightarrow>
         if n = 0 then Inr ()
         else if n < 0 then Inl (Error ''billing: trialDays must be a non-negative integer'')
         else Inl (Error ''billing: product-funded free trials are disabled'')
     | Some NotFinite \<Rightarrow> Inl (Error ''billing: trialDays must be a non-negative integer''))"

section \<open>The subscription gate\<close>

record RequireActiveSubscriptionInput =
  ra_workspaceId :: string
  ra_load :: "string \<Rightarrow> (access_world, exn, SubscriptionRecord option) io"
  ra_accessEvidence :: "evidence_object option"
  ra_expectedUserId :: "string option"
  ra_denyPastDue :: bool

datatype SubscriptionGateResult =
  GateAllowed SubscriptionRecord "access_warning option"
| GateDenied exn

definition gate_error :: "BillingErrorCode \<Rightarrow> string \<Rightarrow> BillingErrorContext \<Rightarrow> SubscriptionGateResult" where
  "gate_error c m ctx = GateDenied (billing_error c m ctx)"

fun denial_code :: "denial_reason \<Rightarrow> BillingErrorCode" where
  "denial_code trial_expired_denied = trial_expired"
| "denial_code inactive = subscription_inactive"
| "denial_code past_due_denied = subscription_past_due"
| "denial_code no_subscription = subscription_required"

definition requireActiveSubscription :: "RequireActiveSubscriptionInput \<Rightarrow> (access_world, exn, SubscriptionGateResult) io" where
  "requireActiveSubscription input =
     andThen (ra_load input (ra_workspaceId input)) (\<lambda>loaded.
     let ctx = no_context\<lparr>ctx_workspaceId := Some (ra_workspaceId input)\<rparr> in
     case loaded of
       None \<Rightarrow> ret (gate_error subscription_required ''This workspace has no Stripe subscription.'' ctx)
     | Some r \<Rightarrow>
       andThen (decideBillingAccess (ra_accessEvidence input) (ra_expectedUserId input)) (\<lambda>access.
       case access of
         AccessDenied code reason \<Rightarrow> ret (gate_error code reason ctx)
       | AccessAllowed basis prin \<Rightarrow>
         if basis \<noteq> paid_subscription \<and> (case prin of Human _ _ _ \<Rightarrow> True | _ \<Rightarrow> False)
         then ret (gate_error paid_evidence_required
                ''Active subscription access requires matching paid subscription evidence.'' ctx)
         else if (case ra_accessEvidence input of None \<Rightarrow> False
                  | Some e \<Rightarrow> (case ev_funding (snd e) of PaidSubscription _ s _ _ _ \<Rightarrow> s \<noteq> subscriptionId r | _ \<Rightarrow> False))
         then ret (gate_error platform_evidence_subject_mismatch
                ''Subscription evidence does not match the stored subscription.''
                (ctx\<lparr>ctx_subscriptionId := Some (subscriptionId r)\<rparr>))
         else (let full = ctx\<lparr>ctx_subscriptionId := Some (subscriptionId r), ctx_subscriptionState := Some (state r)\<rparr> in
           case gateAccess (state r) of
             Denied reason \<Rightarrow> ret (gate_error (denial_code reason) (''Subscription is '' @ stateName (state r) @ ''.'') full)
           | Allowed warn \<Rightarrow>
               if warn = Some warn_past_due \<and> ra_denyPastDue input
               then ret (gate_error subscription_past_due
                  ''Subscription is past due - this action requires a current payment method.'' full)
               else ret (GateAllowed r warn))))"

section \<open>What the operations do to the sets\<close>

lemma consumeProof_some:
  assumes "consumeProof env opts a now tol w = (Inr (Some e), w')"
  obtains w1 w2 w3 where
    "rs_claim (vo_replayStore opts) (replayKey a) (Finite (replayTtlMs a now tol)) w = (Inr True, w1)"
    "w2 = w1\<lparr>objects_made := Suc (objects_made w1)\<rparr>"
    "e = (objects_made w1, \<lparr>ev_evidenceId = funding_evidenceId (ac_funding a), ev_tokenId = ac_jti a,
              ev_principal = ac_principal a, ev_funding = ac_funding a, ev_audience = vo_audience opts,
              ev_issuedAt = ac_iat a * 1000, ev_expiresAt = ac_exp a * 1000\<rparr>)"
    "rs_complete (vo_replayStore opts) (replayKey a) w2 = (Inr (), w3)"
    "w' = w3\<lparr>trustedEvidenceObjects := insert e (trustedEvidenceObjects w3)\<rparr>"
proof -
  obtain c w1 where c: "rs_claim (vo_replayStore opts) (replayKey a) (Finite (replayTtlMs a now tol)) w = (c, w1)"
    by fastforce
  let ?w2 = "w1\<lparr>objects_made := Suc (objects_made w1)\<rparr>"
  obtain k w3 where k: "rs_complete (vo_replayStore opts) (replayKey a) ?w2 = (k, w3)" by fastforce
  obtain l w4 where l: "rs_release (vo_replayStore opts) (replayKey a) w3 = (l, w4)" by fastforce
  show thesis
    using assms c k l
    by (intro that [of w1 ?w2 w3])
      (auto simp: consumeProof_def settleClaim_def io_defs Let_def makeEvidence_def toISOString_def
        split: sum.splits prod.splits if_splits bool.splits)
qed

lemma verify_some:
  assumes "verifyTrustedPlatformEvidence env dateParse jwtVerify tok opts w = (Inr (Some e), w')"
  obtains nowMs tolerance maxAge w1 payload w2 a where
    "vo_now opts w = (Inr (Finite nowMs), w1)"
    "Finite tolerance = nullish (vo_clockToleranceSeconds opts) (Finite 5)" "0 \<le> tolerance"
    "Finite maxAge = nullish (vo_maxTokenAgeSeconds opts) (Finite 300)" "0 < maxAge"
    "jwtVerify tok (vo_audience opts) (vo_expectedUserId opts) nowMs tolerance maxAge w1 = (Inr payload, w2)"
    "acceptPayload dateParse (vo_audience opts) (vo_expectedUserId opts) (nowMs div 1000) payload = Some a"
    "consumeProof env opts a (nowMs div 1000) tolerance w2 = (Inr (Some e), w')"
proof -
  obtain n w1 where n: "vo_now opts w = (n, w1)" by fastforce
  from assms n obtain nowMs tolerance maxAge where t: "n = Inr (Finite nowMs)"
    "nullish (vo_clockToleranceSeconds opts) (Finite 5) = Finite tolerance"
    "nullish (vo_maxTokenAgeSeconds opts) (Finite 300) = Finite maxAge" "0 \<le> tolerance" "0 < maxAge"
    by (auto simp: verifyTrustedPlatformEvidence_def io_defs split: sum.splits js_number.splits if_splits)
  obtain v w2 where v: "jwtVerify tok (vo_audience opts) (vo_expectedUserId opts) nowMs tolerance maxAge w1 = (v, w2)"
    by fastforce
  from assms n t v obtain payload a where "v = Inr payload"
    "acceptPayload dateParse (vo_audience opts) (vo_expectedUserId opts) (nowMs div 1000) payload = Some a"
    "consumeProof env opts a (nowMs div 1000) tolerance w2 = (Inr (Some e), w')"
    by (auto simp: verifyTrustedPlatformEvidence_def io_defs split: sum.splits option.splits if_splits)
  with n t v show thesis by (intro that) auto
qed

lemma decide_allowed:
  assumes "decideBillingAccess evidence u w = (Inr (AccessAllowed basis p), w')"
  obtains e where "evidence = Some e" "e \<in> trustedEvidenceObjects w" "clock w (clock_reads w) < ev_expiresAt (snd e)"
    "basis = funding_kind_of (ev_funding (snd e))" "p = ev_principal (snd e)" "truthy u \<longrightarrow> u = Some (principal_userId p)"
    "\<forall>x m v. p = Human x m v \<longrightarrow> v \<and> isRealNonPlaceholderEmail m"
    "basis = paid_purchase \<longrightarrow> e \<notin> consumedPurchaseEvidenceObjects w \<and> e \<in> consumedPurchaseEvidenceObjects w'"
proof -
  from assms obtain e where e: "evidence = Some e"
    by (cases evidence) (auto simp: decideBillingAccess_def io_defs)
  with assms show thesis
    by (intro that [of e])
      (auto simp: decideBillingAccess_def io_defs isTrustedPlatformEvidence_def date_now_def Let_def
        split: if_splits option.splits TrustedPlatformPrincipal.splits)
qed

text \<open>A claim on the process-local store, seen through \<open>claim\<close>.\<close>

lemma mem_claim_granted:
  assumes "mem_claim k (Finite ttl) w = (Inr True, w')"
  shows "owners w k = None \<and> (\<forall>c. entries w k = Some c \<longrightarrow> expiresAt c \<le> clock w (Suc (clock_reads w))) \<and>
     (\<exists>t. entries w' = (entries w)(k \<mapsto> \<lparr>expiresAt = clock w (Suc (clock_reads w)) + ttl, token = t, status = processing\<rparr>)
        \<and> owners w' = (owners w)(k \<mapsto> t)) \<and> uuids w' = uuids w \<and> clock w' = clock w"
proof -
  from assms have "mem_claimStatus k (Finite ttl) w = (Inr acquired, w')"
    by (auto simp: mem_claim_def io_defs split: prod.splits sum.splits)
  then show ?thesis by (cases rule: mem_claimStatus_cases) (auto split: if_splits)
qed

definition mem_replay :: "store_scope option \<Rightarrow> replay_store" where
  "mem_replay sc = \<lparr>rs_claim = mem_claim, rs_release = mem_release, rs_complete = mem_complete, rs_scope = sc\<rparr>"

lemma replayKey_nonblank: "trim (replayKey a) \<noteq> []"
  by (simp add: trim_eq_Nil_iff replayKey_def js_space_def)

text \<open>After an accepted proof its key is recorded as completed until the claim's lifetime ends.\<close>

lemma accepted_is_recorded:
  assumes "consumeProof env opts a now tol w = (Inr (Some e), w')" "vo_replayStore opts = mem_replay sc" "mem_inv w"
  shows "mem_inv w' \<and> owners w' (replayKey a) = None \<and> (\<exists>c. entries w' (replayKey a) = Some c \<and>
     expiresAt c = clock w (Suc (clock_reads w)) + replayTtlMs a now tol) \<and> clock w' = clock w"
proof -
  let ?k = "replayKey a"
  from assms(1) obtain w1 w2 w3 where c: "mem_claim ?k (Finite (replayTtlMs a now tol)) w = (Inr True, w1)"
    and w2: "w2 = w1\<lparr>objects_made := Suc (objects_made w1)\<rparr>"
    and k: "mem_complete ?k w2 = (Inr (), w3)"
    and w': "w' = w3\<lparr>trustedEvidenceObjects := insert e (trustedEvidenceObjects w3)\<rparr>"
    by (rule consumeProof_some) (simp add: assms(2) mem_replay_def)
  from mem_claim_granted [OF c] obtain t where
    g: "entries w1 = (entries w)(?k \<mapsto> \<lparr>expiresAt = clock w (Suc (clock_reads w)) + replayTtlMs a now tol, token = t, status = processing\<rparr>)"
    "owners w1 = (owners w)(?k \<mapsto> t)" "uuids w1 = uuids w" "clock w1 = clock w" by blast
  from c have "mem_claimStatus ?k (Finite (replayTtlMs a now tol)) w = (Inr acquired, w1)"
    by (auto simp: mem_claim_def io_defs split: prod.splits sum.splits)
  from mem.claim_inv [OF this assms(3)] have i1: "mem_inv w1" .
  then have i2: "mem_inv w2" by (simp add: w2 mem_inv_def)
  from k i2 show ?thesis
  proof (cases rule: mem_complete_cases)
    case noop
    with g w2 show ?thesis by simp
  next
    case (recorded t' c')
    have "mem_inv w3" using mem.complete_inv [OF k i2] .
    then have "mem_inv w'" by (simp add: w' mem_inv_def)
    with recorded g w2 w' show ?thesis by auto
  qed
qed

section \<open>Properties\<close>

text \<open>C13. Access is granted only on a proof object that the signature check produced, that has not
  expired, that belongs to the expected owner and, for a human, carries a verified and real
  address; a purchase proof is consumed by the grant.\<close>

theorem access_needs_trusted_evidence:
  assumes "decideBillingAccess evidence u w = (Inr (AccessAllowed basis p), w')"
  shows "\<exists>e. evidence = Some e \<and> e \<in> trustedEvidenceObjects w \<and> clock w (clock_reads w) < ev_expiresAt (snd e)
     \<and> basis = funding_kind_of (ev_funding (snd e)) \<and> (truthy u \<longrightarrow> u = Some (principal_userId p))
     \<and> (\<forall>x m v. p = Human x m v \<longrightarrow> v \<and> isRealNonPlaceholderEmail m)
     \<and> (basis = paid_purchase \<longrightarrow> e \<notin> consumedPurchaseEvidenceObjects w \<and> e \<in> consumedPurchaseEvidenceObjects w')"
  using assms by (rule decide_allowed) blast

text \<open>One purchase object grants access once: after a grant on a purchase, no later decision on
  the same object grants again, whatever happens in between as long as consumed objects stay
  consumed.\<close>

theorem purchase_object_grants_once:
  assumes "decideBillingAccess (Some e) u w = (Inr (AccessAllowed paid_purchase p), w1)"
    and "consumedPurchaseEvidenceObjects w1 \<subseteq> consumedPurchaseEvidenceObjects w2"
  shows "fst (decideBillingAccess (Some e) u' w2) \<noteq> Inr (AccessAllowed b p')"
proof
  assume "fst (decideBillingAccess (Some e) u' w2) = Inr (AccessAllowed b p')"
  then obtain w3 where d: "decideBillingAccess (Some e) u' w2 = (Inr (AccessAllowed b p'), w3)" by (metis prod.collapse)
  from assms(1) have "e \<in> consumedPurchaseEvidenceObjects w1 \<and> funding_kind_of (ev_funding (snd e)) = paid_purchase"
    by (rule decide_allowed) auto
  with assms(2) have "e \<in> consumedPurchaseEvidenceObjects w2" "funding_kind_of (ev_funding (snd e)) = paid_purchase" by auto
  with d show False by (auto elim!: decide_allowed)
qed

text \<open>What a payload has to say for the evidence that is minted from it, claim by claim. The funding is of
  a kind that fits the principal: a human pays or brings a key, a service is the named one, an
  administrator is the funding administrator; and a purchase or subscription has a positive amount,
  a purchase a date of payment, a subscription an open status.\<close>

definition fits :: "TrustedPlatformPrincipal \<Rightarrow> TrustedFundingEvidence \<Rightarrow> bool" where
  "fits p f \<longleftrightarrow> (case p of
      Human _ _ _ \<Rightarrow> (case f of NamedService _ _ _ \<Rightarrow> False | AdminFunding _ _ \<Rightarrow> False | _ \<Rightarrow> True)
    | ServicePrincipal _ s n \<Rightarrow> (\<exists>i. f = NamedService i s n)
    | Admin _ a \<Rightarrow> (\<exists>i. f = AdminFunding i a))"

definition paid_for :: "(string \<Rightarrow> int option) \<Rightarrow> TrustedFundingEvidence \<Rightarrow> bool" where
  "paid_for dateParse f \<longleftrightarrow> (case f of
      PaidPurchase _ amount paidAt \<Rightarrow> 0 < amount \<and> (\<exists>n. dateParse paidAt = Some n)
    | PaidSubscription _ _ st amount _ \<Rightarrow> 0 < amount \<and> (st = ''active'' \<or> st = ''past_due'')
    | _ \<Rightarrow> True)"

definition payload_states :: "(string \<Rightarrow> int option) \<Rightarrow> json \<Rightarrow> string \<Rightarrow> string \<Rightarrow> int \<Rightarrow> TrustedPlatformEvidence \<Rightarrow> bool" where
  "payload_states dateParse payload audience user now ev \<longleftrightarrow>
     field payload ''aud'' = Some (JStr audience) \<and> field payload ''sub'' = Some (JStr user) \<and>
     field payload ''policyVersion'' = Some (JNum (Finite 1)) \<and>
     field payload ''jti'' = Some (JStr (ev_tokenId ev)) \<and> trim (ev_tokenId ev) \<noteq> [] \<and>
     (\<exists>nbf. field payload ''nbf'' = Some (JNum (Finite nbf)) \<and> nbf \<le> now) \<and>
     (\<exists>iat. field payload ''iat'' = Some (JNum (Finite iat)) \<and> iat \<le> now \<and> ev_issuedAt ev = iat * 1000) \<and>
     (\<exists>ex. field payload ''exp'' = Some (JNum (Finite ex)) \<and> now < ex \<and> ev_expiresAt ev = ex * 1000) \<and>
     (\<exists>u p f. field payload ''user'' = Some u \<and> field payload ''principal'' = Some p \<and> field payload ''funding'' = Some f \<and>
        readNonEmptyString (field u ''id'') = Some user \<and>
        readNonEmptyString (field f ''id'') = Some (ev_evidenceId ev) \<and>
        ev_evidenceId ev = funding_evidenceId (ev_funding ev) \<and>
        (case ev_principal ev of
           Human i m v \<Rightarrow> i = user \<and> v \<and> field payload ''emailVerified'' = Some (JBool True) \<and>
             isRealNonPlaceholderEmail m \<and> readNonEmptyString (field u ''email'') = Some m \<and>
             readNonEmptyString (field p ''kind'') = Some ''human''
         | ServicePrincipal i s n \<Rightarrow> i = user \<and> readNonEmptyString (field p ''kind'') = Some ''service_principal'' \<and>
             readNonEmptyString (field p ''id'') = Some s \<and> readNonEmptyString (field p ''name'') = Some n
         | Admin i s \<Rightarrow> i = user \<and> readNonEmptyString (field p ''kind'') = Some ''admin'' \<and>
             readNonEmptyString (field p ''id'') = Some s)) \<and>
     fits (ev_principal ev) (ev_funding ev) \<and> paid_for dateParse (ev_funding ev)"

lemma finite_number: "as_finite v = Some n \<Longrightarrow> v = Some (JNum (Finite n))"
  by (cases v rule: as_finite.cases) auto

lemma string_value: "as_string v = Some s \<Longrightarrow> v = Some (JStr s)"
  by (cases v rule: as_string.cases) auto

lemma matching_fits: "principalMatchesFunding p f \<Longrightarrow> fits p f"
  by (cases p; cases f) (auto simp: fits_def)

lemma parsed_funding:
  assumes "parseFunding dateParse v = Some f"
  shows "readNonEmptyString (field v ''id'') = Some (funding_evidenceId f)" "paid_for dateParse f"
  using assms by (auto simp: parseFunding_def Let_def paid_for_def readPositiveNumber_def split: option.splits if_splits)

lemma parsed_principal:
  assumes "parsePrincipal payload u p user = Some x"
  shows "case x of
           Human i m v \<Rightarrow> i = user \<and> v \<and> field payload ''emailVerified'' = Some (JBool True) \<and>
             isRealNonPlaceholderEmail m \<and> readNonEmptyString (field u ''email'') = Some m \<and>
             readNonEmptyString (field p ''kind'') = Some ''human''
         | ServicePrincipal i s n \<Rightarrow> i = user \<and> readNonEmptyString (field p ''kind'') = Some ''service_principal'' \<and>
             readNonEmptyString (field p ''id'') = Some s \<and> readNonEmptyString (field p ''name'') = Some n
         | Admin i s \<Rightarrow> i = user \<and> readNonEmptyString (field p ''kind'') = Some ''admin'' \<and>
             readNonEmptyString (field p ''id'') = Some s"
  using assms by (auto simp: parsePrincipal_def Let_def split: option.splits if_splits)

lemma some_case: "(case v of None \<Rightarrow> None | Some x \<Rightarrow> f x) = Some z \<longleftrightarrow> (\<exists>x. v = Some x \<and> f x = Some z)"
  by (cases v) auto

lemma some_unless: "(if c then None else v) = Some z \<longleftrightarrow> \<not> c \<and> v = Some z"
  by auto

lemma some_when: "(if c then v else None) = Some z \<longleftrightarrow> c \<and> v = Some z"
  by auto

lemma accepted_states:
  assumes "acceptPayload dateParse audience user now payload = Some a"
    "ev = \<lparr>ev_evidenceId = funding_evidenceId (ac_funding a), ev_tokenId = ac_jti a, ev_principal = ac_principal a,
        ev_funding = ac_funding a, ev_audience = audience, ev_issuedAt = ac_iat a * 1000, ev_expiresAt = ac_exp a * 1000\<rparr>"
  shows "payload_states dateParse payload audience user now ev"
proof -
  from assms(1) obtain nbf u p f where
    n: "as_finite (field payload ''iat'') = Some (ac_iat a)" "as_finite (field payload ''nbf'') = Some nbf"
      "as_finite (field payload ''exp'') = Some (ac_exp a)" "as_string (field payload ''jti'') = Some (ac_jti a)"
    and c: "field payload ''aud'' = Some (JStr audience)" "field payload ''sub'' = Some (JStr user)" "trim (ac_jti a) \<noteq> []"
      "ac_iat a \<le> now" "nbf \<le> now" "now < ac_exp a" "field payload ''policyVersion'' = Some (JNum (Finite 1))"
    and u: "field payload ''user'' = Some u" "field payload ''principal'' = Some p" "field payload ''funding'' = Some f"
      "readNonEmptyString (field u ''id'') = Some user"
    and p: "parsePrincipal payload u p user = Some (ac_principal a)" "parseFunding dateParse f = Some (ac_funding a)"
      "principalMatchesFunding (ac_principal a) (ac_funding a)"
    unfolding acceptPayload_def prod.case some_case some_unless some_when option.inject de_Morgan_disj not_not not_less not_le
    by (elim exE conjE, hypsubst) (rule that; (assumption | simp))
  show ?thesis
    using c u parsed_funding [OF p(2)] parsed_principal [OF p(1)] matching_fits [OF p(3)]
      finite_number [OF n(1)] finite_number [OF n(2)] finite_number [OF n(3)] string_value [OF n(4)]
    by (simp add: payload_states_def assms(2))
qed

text \<open>C14. What a verification returns is trusted and bound to the token: the signature check, run with the
  audience and the user asked for and the tolerance and age of the options (five seconds and five
  minutes by default), gave a payload that states everything the evidence says. The payload names
  the audience and the user and has the policy version, a token id, a start and an issue time that
  have come and an expiry that has not; a human's address is verified and real; the funding
  is positive and fits the principal; and the evidence has the times and ids of the payload. Its
  replay key, the record of a purchase or else the token id, was claimed by this call, for at least
  the time the token has left, and completed.\<close>

theorem verified_evidence_is_bound:
  assumes "verifyTrustedPlatformEvidence env dateParse jwtVerify tok opts w = (Inr (Some e), w')"
  shows "e \<in> trustedEvidenceObjects w' \<and> ev_audience (snd e) = vo_audience opts \<and>
     (\<exists>nowMs tolerance maxAge w1 payload w2.
        vo_now opts w = (Inr (Finite nowMs), w1) \<and>
        Finite tolerance = (case vo_clockToleranceSeconds opts of None \<Rightarrow> Finite 5 | Some x \<Rightarrow> x) \<and> 0 \<le> tolerance \<and>
        Finite maxAge = (case vo_maxTokenAgeSeconds opts of None \<Rightarrow> Finite 300 | Some x \<Rightarrow> x) \<and> 0 < maxAge \<and>
        jwtVerify tok (vo_audience opts) (vo_expectedUserId opts) nowMs tolerance maxAge w1 = (Inr payload, w2) \<and>
        payload_states dateParse payload (vo_audience opts) (vo_expectedUserId opts) (nowMs div 1000) (snd e) \<and>
        (\<exists>key ttl v1 v2 v3.
           key = (case ev_funding (snd e) of
               PaidPurchase i _ _ \<Rightarrow> ''platform-access:id.tangle.tools:1:funding:'' @ i
             | _ \<Rightarrow> ''platform-access:id.tangle.tools:1:presentation:'' @ ev_tokenId (snd e)) \<and>
           ev_expiresAt (snd e) - nowMs div 1000 * 1000 \<le> ttl \<and>
           rs_claim (vo_replayStore opts) key (Finite ttl) w2 = (Inr True, v1) \<and>
           rs_complete (vo_replayStore opts) key v2 = (Inr (), v3)))"
proof -
  from assms obtain nowMs tolerance maxAge w1 payload w2 a where
    n: "vo_now opts w = (Inr (Finite nowMs), w1)"
    and o: "Finite tolerance = nullish (vo_clockToleranceSeconds opts) (Finite 5)" "0 \<le> tolerance"
      "Finite maxAge = nullish (vo_maxTokenAgeSeconds opts) (Finite 300)" "0 < maxAge"
    and j: "jwtVerify tok (vo_audience opts) (vo_expectedUserId opts) nowMs tolerance maxAge w1 = (Inr payload, w2)"
    and a: "acceptPayload dateParse (vo_audience opts) (vo_expectedUserId opts) (nowMs div 1000) payload = Some a"
    and c: "consumeProof env opts a (nowMs div 1000) tolerance w2 = (Inr (Some e), w')" by (rule verify_some)
  from c obtain v1 v2 v3 where
    cl: "rs_claim (vo_replayStore opts) (replayKey a) (Finite (replayTtlMs a (nowMs div 1000) tolerance)) w2 = (Inr True, v1)"
    and e: "e = (objects_made v1, \<lparr>ev_evidenceId = funding_evidenceId (ac_funding a), ev_tokenId = ac_jti a,
              ev_principal = ac_principal a, ev_funding = ac_funding a, ev_audience = vo_audience opts,
              ev_issuedAt = ac_iat a * 1000, ev_expiresAt = ac_exp a * 1000\<rparr>)"
    and k: "rs_complete (vo_replayStore opts) (replayKey a) v2 = (Inr (), v3)"
    and w': "w' = v3\<lparr>trustedEvidenceObjects := insert e (trustedEvidenceObjects v3)\<rparr>" by (rule consumeProof_some)
  have st: "payload_states dateParse payload (vo_audience opts) (vo_expectedUserId opts) (nowMs div 1000) (snd e)"
    by (rule accepted_states [OF a]) (simp add: e)
  have key: "replayKey a = (case ev_funding (snd e) of
               PaidPurchase i _ _ \<Rightarrow> ''platform-access:id.tangle.tools:1:funding:'' @ i
             | _ \<Rightarrow> ''platform-access:id.tangle.tools:1:presentation:'' @ ev_tokenId (snd e))"
    by (cases "ac_funding a") (simp_all add: replayKey_def e)
  have ttl: "ev_expiresAt (snd e) - nowMs div 1000 * 1000 \<le> replayTtlMs a (nowMs div 1000) tolerance"
    using o(2) by (auto simp: e replayTtlMs_def Let_def algebra_simps)
  have opts: "Finite tolerance = (case vo_clockToleranceSeconds opts of None \<Rightarrow> Finite 5 | Some x \<Rightarrow> x)"
    "Finite maxAge = (case vo_maxTokenAgeSeconds opts of None \<Rightarrow> Finite 300 | Some x \<Rightarrow> x)"
    using o(1,3) by (simp_all add: nullish_def)
  have "e \<in> trustedEvidenceObjects w'" "ev_audience (snd e) = vo_audience opts" by (simp_all add: w' e)
  then show ?thesis
    using n opts o(2,4) j st key ttl cl k by metis
qed

text \<open>A purchase funds one proof: after the verification of a token for a purchase record was
  accepted on the process-local store, no token for the same record is accepted while the clock
  has not moved by the retention of a hundred years.\<close>

theorem purchase_record_is_accepted_once:
  assumes "consumeProof env opts a now tol w = (Inr (Some e), w1)" "vo_replayStore opts = mem_replay sc" "mem_inv w"
    and "consumeProof env' opts' b now' tol' w1 = (r, w2)" "vo_replayStore opts' = mem_replay sc'"
    and "funding_kind_of (ac_funding a) = paid_purchase" "funding_kind_of (ac_funding b) = paid_purchase"
    and "funding_evidenceId (ac_funding b) = funding_evidenceId (ac_funding a)"
    and "clock w (Suc (clock_reads w1)) < clock w (Suc (clock_reads w)) + PLATFORM_FUNDING_REPLAY_RETENTION_MS"
  shows "r \<noteq> Inr (Some e')"
proof
  assume "r = Inr (Some e')"
  with assms(4) have "consumeProof env' opts' b now' tol' w1 = (Inr (Some e'), w2)" by simp
  then obtain v where v: "mem_claim (replayKey b) (Finite (replayTtlMs b now' tol')) w1 = (Inr True, v)"
    by (rule consumeProof_some) (simp add: assms(5) mem_replay_def)
  have key: "replayKey b = replayKey a" using assms(6-8) by (simp add: replayKey_def)
  from accepted_is_recorded [OF assms(1-3)] obtain c where c: "entries w1 (replayKey a) = Some c"
    "expiresAt c = clock w (Suc (clock_reads w)) + replayTtlMs a now tol" "clock w1 = clock w" by blast
  have "PLATFORM_FUNDING_REPLAY_RETENTION_MS \<le> replayTtlMs a now tol"
    using assms(6) by (simp add: replayTtlMs_def Let_def)
  with mem_claim_granted [OF v] c assms(9) show False unfolding key by auto
qed

text \<open>C15. The subscription gate opens only for a record in good standing and a matching proof: the
  subscription is active, or past due where the route allows it, the proof is trusted and
  unexpired, and a human presents the proof of this very subscription.\<close>

theorem gate_opens_only_for_paying_workspaces:
  assumes "requireActiveSubscription input w = (Inr (GateAllowed r warn), w')"
  shows "(state r = Active \<and> warn = None \<or> state r = PastDue \<and> warn = Some warn_past_due \<and> \<not> ra_denyPastDue input) \<and>
     (\<exists>w1 e. ra_load input (ra_workspaceId input) w = (Inr (Some r), w1) \<and> ra_accessEvidence input = Some e \<and>
        e \<in> trustedEvidenceObjects w1 \<and> clock w1 (clock_reads w1) < ev_expiresAt (snd e) \<and>
        (\<forall>x m v. ev_principal (snd e) = Human x m v \<longrightarrow>
           (\<exists>i st amount period. ev_funding (snd e) = PaidSubscription i (subscriptionId r) st amount period)))"
proof -
  obtain l w1 where l: "ra_load input (ra_workspaceId input) w = (l, w1)" by fastforce
  obtain d w2 where d: "decideBillingAccess (ra_accessEvidence input) (ra_expectedUserId input) w1 = (d, w2)" by fastforce
  from assms l d obtain basis p where lr: "l = Inr (Some r)" and da: "d = Inr (AccessAllowed basis p)"
    and hum: "basis = paid_subscription \<or> \<not> (case p of Human _ _ _ \<Rightarrow> True | _ \<Rightarrow> False)"
    and sub: "\<not> (case ra_accessEvidence input of None \<Rightarrow> False
                  | Some e \<Rightarrow> (case ev_funding (snd e) of PaidSubscription _ s _ _ _ \<Rightarrow> s \<noteq> subscriptionId r | _ \<Rightarrow> False))"
    and gate: "gateAccess (state r) = Allowed warn" "\<not> (warn = Some warn_past_due \<and> ra_denyPastDue input)"
    unfolding requireActiveSubscription_def andThen_def ret_def gate_error_def Let_def
    by (auto split: sum.splits option.splits BillingAccessDecision.splits AccessDecision.splits if_splits)
  from d da have "decideBillingAccess (ra_accessEvidence input) (ra_expectedUserId input) w1 = (Inr (AccessAllowed basis p), w2)"
    by simp
  then obtain e where e: "ra_accessEvidence input = Some e" "e \<in> trustedEvidenceObjects w1"
    "clock w1 (clock_reads w1) < ev_expiresAt (snd e)" "basis = funding_kind_of (ev_funding (snd e))"
    "p = ev_principal (snd e)" by (rule decide_allowed)
  have "\<exists>i st amount period. ev_funding (snd e) = PaidSubscription i (subscriptionId r) st amount period"
    if "ev_principal (snd e) = Human x m v" for x m v
    using hum sub e that by (cases "ev_funding (snd e)") auto
  moreover have "state r = Active \<and> warn = None \<or> state r = PastDue \<and> warn = Some warn_past_due \<and> \<not> ra_denyPastDue input"
    using gate by (cases "state r") auto
  ultimately show ?thesis using l lr e by auto
qed

text \<open>The gate spends a purchase it then refuses: a human who presents an unused purchase proof is
  denied for want of subscription evidence, and the purchase is consumed all the same.\<close>

theorem gate_spends_a_refused_purchase:
  assumes "ra_load input (ra_workspaceId input) w = (Inr (Some r), w)" "ra_accessEvidence input = Some e"
    and "e \<in> trustedEvidenceObjects w" "e \<notin> consumedPurchaseEvidenceObjects w" "clock w (clock_reads w) < ev_expiresAt (snd e)"
    and "ra_expectedUserId input = None" "ev_principal (snd e) = Human u m True" "isRealNonPlaceholderEmail m"
    and "ev_funding (snd e) = PaidPurchase i amount paidAt"
  shows "\<exists>w'. requireActiveSubscription input w = (Inr (gate_error paid_evidence_required
      ''Active subscription access requires matching paid subscription evidence.''
      (no_context\<lparr>ctx_workspaceId := Some (ra_workspaceId input)\<rparr>)), w')
      \<and> e \<in> consumedPurchaseEvidenceObjects w'"
  using assms
  by (simp add: requireActiveSubscription_def decideBillingAccess_def io_defs isTrustedPlatformEvidence_def Let_def)

section \<open>The properties at concrete proofs\<close>

definition bx_claims :: accepted_claims where
  "bx_claims = \<lparr>ac_iat = 0, ac_exp = 5, ac_jti = ''j'', ac_principal = Human ''u'' ''a@b.co'' True,
     ac_funding = PaidPurchase ''f1'' 10 ''d''\<rparr>"

definition bx_object :: evidence_object where
  "bx_object = (0, \<lparr>ev_evidenceId = ''f1'', ev_tokenId = ''j'', ev_principal = Human ''u'' ''a@b.co'' True,
     ev_funding = PaidPurchase ''f1'' 10 ''d'', ev_audience = ''app'', ev_issuedAt = 0, ev_expiresAt = 5000\<rparr>)"

definition bx_world :: access_world where
  "bx_world = \<lparr>clock = (\<lambda>_. 1000), clock_reads = 0, uuids = (\<lambda>n. ''t''), uuids_drawn = 0,
     entries = (\<lambda>_. None), owners = (\<lambda>_. None), trustedEvidenceObjects = {}, consumedPurchaseEvidenceObjects = {},
     objects_made = 0\<rparr>"

definition bx_trusting :: access_world where
  "bx_trusting = bx_world\<lparr>trustedEvidenceObjects := {bx_object}, objects_made := 1\<rparr>"

definition bx_env :: process_env where
  "bx_env = \<lparr>process_defined = True, VITEST = None, NODE_ENV = Some ''test''\<rparr>"

definition bx_options :: verify_options where
  "bx_options = \<lparr>vo_audience = ''app'', vo_expectedUserId = ''u'', vo_replayStore = mem_replay None,
     vo_runtime = Some test, vo_now = ret (Finite 1000), vo_clockToleranceSeconds = None, vo_maxTokenAgeSeconds = None\<rparr>"

definition bx_payload :: json where
  "bx_payload = JObj [(''iat'', JNum (Finite 0)), (''nbf'', JNum (Finite 0)), (''exp'', JNum (Finite 5)), (''jti'', JStr ''j''),
     (''aud'', JStr ''app''), (''sub'', JStr ''u''), (''policyVersion'', JNum (Finite 1)), (''emailVerified'', JBool True),
     (''user'', JObj [(''id'', JStr ''u''), (''email'', JStr ''a@b.co'')]),
     (''principal'', JObj [(''kind'', JStr ''human'')]),
     (''funding'', JObj [(''kind'', JStr ''paid_purchase''), (''id'', JStr ''f1''), (''amountUsd'', JNum (Finite 10)),
        (''paidAt'', JStr ''d'')])]"

lemma bx_email: "isRealNonPlaceholderEmail ''a@b.co''"
  by code_simp

lemma bx_trims: "trim ''u'' = ''u''" "trim ''app'' = ''app''" "trim ''j'' = ''j''" "trim ''a@b.co'' = ''a@b.co''"
  "trim ''human'' = ''human''" "trim ''f1'' = ''f1''" "trim ''paid_purchase'' = ''paid_purchase''" "trim ''d'' = ''d''"
  by (simp_all add: trim_def js_space_def)

lemma bx_key: "replayKey bx_claims = ''platform-access:id.tangle.tools:1:funding:f1''"
  by (simp add: replayKey_def bx_claims_def)

lemma bx_consumed: "fst (consumeProof bx_env bx_options bx_claims 1 5 bx_world) = Inr (Some bx_object)"
  by (simp add: consumeProof_def replayKey_nonblank bx_options_def mem_replay_def bx_env_def resolveAtomicIdempotencyStore_def
      isProductionEnvironment_def mem_defs assertClaimInput_def assertKey_def io_defs bx_world_def finite_sum_def float_limit_def
      toISOString_def makeEvidence_def settleClaim_def replayTtlMs_def bx_claims_def PLATFORM_FUNDING_REPLAY_RETENTION_MS_def
      Let_def bx_object_def)

definition bx_after :: access_world where
  "bx_after = snd (consumeProof bx_env bx_options bx_claims 1 5 bx_world)"

lemma bx_run: "consumeProof bx_env bx_options bx_claims 1 5 bx_world = (Inr (Some bx_object), bx_after)"
  using bx_consumed by (metis prod.collapse bx_after_def)

lemma bx_accepted: "acceptPayload (\<lambda>s. Some 0) ''app'' ''u'' 1 bx_payload = Some bx_claims"
  by (simp add: acceptPayload_def bx_payload_def bx_claims_def parsePrincipal_def parseFunding_def readNonEmptyString_def
      readPositiveNumber_def bx_trims bx_email Let_def)

lemma bx_verified: "verifyTrustedPlatformEvidence bx_env (\<lambda>s. Some 0) (\<lambda>t a s n tol m. ret bx_payload) ''u'' bx_options bx_world =
    (Inr (Some bx_object), bx_after)"
  using bx_run bx_accepted
  by (simp add: verifyTrustedPlatformEvidence_def bx_options_def bx_trims io_defs)

theorem access_needs_trusted_evidence_witness:
  "clock bx_trusting 0 < ev_expiresAt (snd bx_object) \<and> bx_object \<notin> consumedPurchaseEvidenceObjects bx_trusting"
proof -
  have "decideBillingAccess (Some bx_object) None bx_trusting =
      (Inr (AccessAllowed paid_purchase (Human ''u'' ''a@b.co'' True)), snd (decideBillingAccess (Some bx_object) None bx_trusting))"
    by (simp add: decideBillingAccess_def io_defs isTrustedPlatformEvidence_def bx_trusting_def bx_world_def bx_object_def
        bx_email Let_def)
  from access_needs_trusted_evidence [OF this] show ?thesis by (auto simp: bx_trusting_def bx_world_def)
qed

theorem purchase_object_grants_once_witness:
  "fst (decideBillingAccess (Some bx_object) None (snd (decideBillingAccess (Some bx_object) None bx_trusting)))
     \<noteq> Inr (AccessAllowed paid_purchase (Human ''u'' ''a@b.co'' True))"
proof (rule purchase_object_grants_once)
  show "decideBillingAccess (Some bx_object) None bx_trusting =
      (Inr (AccessAllowed paid_purchase (Human ''u'' ''a@b.co'' True)), snd (decideBillingAccess (Some bx_object) None bx_trusting))"
    by (simp add: decideBillingAccess_def io_defs isTrustedPlatformEvidence_def bx_trusting_def bx_world_def bx_object_def
        bx_email Let_def)
qed simp

theorem verified_evidence_is_bound_witness:
  "bx_object \<in> trustedEvidenceObjects bx_after \<and>
   (\<exists>key ttl v1 v2 v3. key = ''platform-access:id.tangle.tools:1:funding:f1'' \<and> 4000 \<le> ttl \<and>
      rs_claim (vo_replayStore bx_options) key (Finite ttl) v1 = (Inr True, v2) \<and>
      fst (rs_complete (vo_replayStore bx_options) key v3) = Inr ())"
  using verified_evidence_is_bound [OF bx_verified] by (auto simp: bx_object_def bx_options_def ret_def) (metis fst_conv)

theorem purchase_record_is_accepted_once_witness:
  "fst (consumeProof bx_env bx_options (bx_claims\<lparr>ac_jti := ''k''\<rparr>) 1 5 bx_after) \<noteq> Inr (Some bx_object)"
proof (rule purchase_record_is_accepted_once [OF bx_run])
  show "consumeProof bx_env bx_options (bx_claims\<lparr>ac_jti := ''k''\<rparr>) 1 5 bx_after =
     (fst (consumeProof bx_env bx_options (bx_claims\<lparr>ac_jti := ''k''\<rparr>) 1 5 bx_after),
      snd (consumeProof bx_env bx_options (bx_claims\<lparr>ac_jti := ''k''\<rparr>) 1 5 bx_after))" by simp
  show "mem_inv bx_world" by (simp add: mem_inv_def bx_world_def)
qed (simp_all add: bx_options_def bx_claims_def bx_world_def PLATFORM_FUNDING_REPLAY_RETENTION_MS_def)

definition bx_record :: SubscriptionRecord where
  "bx_record = makeSubscriptionRecord ''w'' ''cus'' ''sub'' Active None None None None None None None 0"

definition bx_input :: "evidence_object \<Rightarrow> RequireActiveSubscriptionInput" where
  "bx_input e = \<lparr>ra_workspaceId = ''w'', ra_load = (\<lambda>ws. ret (Some bx_record)), ra_accessEvidence = Some e,
     ra_expectedUserId = None, ra_denyPastDue = False\<rparr>"

definition bx_subscriber :: evidence_object where
  "bx_subscriber = (0, (snd bx_object)\<lparr>ev_funding := PaidSubscription ''f2'' ''sub'' ''active'' 10 None\<rparr>)"

theorem gate_opens_only_for_paying_workspaces_witness:
  "\<exists>i st amount period. ev_funding (snd bx_subscriber) = PaidSubscription i (subscriptionId bx_record) st amount period"
proof -
  let ?w = "bx_world\<lparr>trustedEvidenceObjects := {bx_subscriber}\<rparr>"
  have "requireActiveSubscription (bx_input bx_subscriber) ?w =
      (Inr (GateAllowed bx_record None), snd (requireActiveSubscription (bx_input bx_subscriber) ?w))"
    by (simp add: requireActiveSubscription_def bx_input_def decideBillingAccess_def io_defs isTrustedPlatformEvidence_def
        bx_world_def bx_subscriber_def bx_object_def bx_record_def makeSubscriptionRecord_def bx_email Let_def)
  from gate_opens_only_for_paying_workspaces [OF this] show ?thesis
    by (auto simp: bx_input_def bx_subscriber_def bx_object_def)
qed

theorem gate_spends_a_refused_purchase_witness:
  "\<exists>w'. requireActiveSubscription (bx_input bx_object) bx_trusting = (Inr (gate_error paid_evidence_required
      ''Active subscription access requires matching paid subscription evidence.''
      (no_context\<lparr>ctx_workspaceId := Some (ra_workspaceId (bx_input bx_object))\<rparr>)), w')
      \<and> bx_object \<in> consumedPurchaseEvidenceObjects w'"
  by (rule gate_spends_a_refused_purchase [where r = bx_record and m = "''a@b.co''"])
     (use bx_email in \<open>simp_all add: bx_input_def ret_def bx_trusting_def bx_world_def bx_object_def\<close>)

end
