(* ===== verification/Redaction.thy ===== *)
theory Redaction
  imports Json
begin

text \<open>
  Keeping private input out of previews: \<open>redaction.ts\<close>. \<open>isEncodedPrivatePayload\<close> is the scanner
  over one string, with the variables of its loop in a record; \<open>redactUnknown\<close> walks a value;
  \<open>projectInputPreview\<close> applies an action's preview policy. Binary views (\<open>ArrayBuffer\<close>) are not
  among the values of type \<open>json\<close>, and members inherited from \<open>Object.prototype\<close> are not
  properties of an object of the model.

  The lemmas show what the scanner accepts on one line and on folded text, and that a redacted
  value holds no private string and nothing under a sensitive name.
\<close>

section \<open>Encoded payloads\<close>

definition MIN_OPAQUE_PREVIEW_VALUE_LENGTH :: nat where
  "MIN_OPAQUE_PREVIEW_VALUE_LENGTH = 16"

definition MAX_DATA_URL_HEADER_LENGTH :: nat where
  "MAX_DATA_URL_HEADER_LENGTH = 256"

definition MAX_EDGE_WHITESPACE_LENGTH :: nat where
  "MAX_EDGE_WHITESPACE_LENGTH = 64"

definition blank :: "char \<Rightarrow> bool" where
  "blank c \<longleftrightarrow> code_of c = 32 \<or> code_of c = 9"

definition line_break :: "char \<Rightarrow> bool" where
  "line_break c \<longleftrightarrow> code_of c = 10 \<or> code_of c = 13"

definition padding :: "char \<Rightarrow> bool" where
  "padding c \<longleftrightarrow> code_of c = 61"

definition opaque_char :: "char \<Rightarrow> bool" where
  "opaque_char c \<longleftrightarrow> (65 \<le> code_of c \<and> code_of c \<le> 90) \<or> (97 \<le> code_of c \<and> code_of c \<le> 122) \<or>
     (48 \<le> code_of c \<and> code_of c \<le> 57) \<or> code_of c = 43 \<or> code_of c = 47 \<or>
     code_of c = 45 \<or> code_of c = 95"

text \<open>\<open>/^data:/i\<close> on the first 256 characters.\<close>

definition data_url :: "string \<Rightarrow> bool" where
  "data_url v \<longleftrightarrow>
     map to_lower (take 5 (dropWhile js_space (take MAX_DATA_URL_HEADER_LENGTH v))) = ''data:''"

text \<open>The two edge loops: \<open>None\<close> when more than 64 blanks stand at that edge.\<close>

fun skip_edge :: "nat \<Rightarrow> string \<Rightarrow> string option" where
  "skip_edge n [] = Some []"
| "skip_edge n (c # cs) =
     (if blank c then (if Suc n > MAX_EDGE_WHITESPACE_LENGTH then None else skip_edge (Suc n) cs)
      else Some (c # cs))"

record scan_state =
  encodedLength :: nat
  paddingLength :: nat
  groupLength :: nat
  horizontalLength :: nat
  horizontalHasTab :: bool
  spacedGroups :: bool
  atLineStart :: bool

definition scan_start :: scan_state where
  "scan_start = \<lparr>encodedLength = 0, paddingLength = 0, groupLength = 0, horizontalLength = 0,
     horizontalHasTab = False, spacedGroups = False, atLineStart = False\<rparr>"

text \<open>One round of the loop; \<open>None\<close> is its \<open>return false\<close>. \<open>scan_word\<close> is the part after a
  pending run of blanks has been judged.\<close>

definition scan_word :: "char \<Rightarrow> scan_state \<Rightarrow> scan_state option" where
  "scan_word c s0 =
     (let s = s0\<lparr>atLineStart := False\<rparr> in
      if padding c then
        (if Suc (paddingLength s) > 2 then None
         else Some (s\<lparr>paddingLength := Suc (paddingLength s), groupLength := Suc (groupLength s)\<rparr>))
      else if paddingLength s \<noteq> 0 then None
      else if opaque_char c then
        Some (s\<lparr>encodedLength := Suc (encodedLength s), groupLength := Suc (groupLength s)\<rparr>)
      else None)"

definition scan_char :: "char \<Rightarrow> scan_state \<Rightarrow> scan_state option" where
  "scan_char c s =
     (if line_break c then Some (s\<lparr>horizontalLength := 0, horizontalHasTab := False, atLineStart := True\<rparr>)
      else if blank c then
        (if atLineStart s then Some s
         else Some (s\<lparr>horizontalLength := Suc (horizontalLength s),
                     horizontalHasTab := horizontalHasTab s \<or> code_of c = 9\<rparr>))
      else if horizontalLength s \<noteq> 0 then
        (if groupLength s < MIN_OPAQUE_PREVIEW_VALUE_LENGTH \<or> groupLength s mod 4 \<noteq> 0 \<or>
            (horizontalLength s < 2 \<and> \<not> horizontalHasTab s) then None
         else scan_word c (s\<lparr>spacedGroups := True, groupLength := 0, horizontalLength := 0,
                             horizontalHasTab := False\<rparr>))
      else scan_word c s)"

fun scan :: "string \<Rightarrow> scan_state \<Rightarrow> scan_state option" where
  "scan [] s = Some s"
| "scan (c # cs) s = (case scan_char c s of None \<Rightarrow> None | Some s' \<Rightarrow> scan cs s')"

definition isEncodedPrivatePayload :: "string \<Rightarrow> bool" where
  "isEncodedPrivatePayload v =
     (if data_url v then True
      else if length v < MIN_OPAQUE_PREVIEW_VALUE_LENGTH then False
      else case skip_edge 0 v of None \<Rightarrow> True
      | Some v' \<Rightarrow> (case skip_edge 0 (rev v') of None \<Rightarrow> True
        | Some r \<Rightarrow>
            if length r < MIN_OPAQUE_PREVIEW_VALUE_LENGTH then False
            else case scan (rev r) scan_start of None \<Rightarrow> False
            | Some s \<Rightarrow>
                if horizontalLength s \<noteq> 0 \<or> (spacedGroups s \<and> groupLength s < 4) then False
                else encodedLength s \<ge> MIN_OPAQUE_PREVIEW_VALUE_LENGTH))"

section \<open>Values\<close>

text \<open>\<open>/token|secret|.../i\<close> tested on a key: some alternative occurs in it, whatever the case of
  its letters.\<close>

fun occurs :: "string \<Rightarrow> string \<Rightarrow> bool" where
  "occurs p [] = (p = [])"
| "occurs p (c # cs) = (take (length p) (c # cs) = p \<or> occurs p cs)"

definition SENSITIVE_INPUT_KEY :: "string \<Rightarrow> bool" where
  "SENSITIVE_INPUT_KEY k \<longleftrightarrow> list_ex (\<lambda>p. occurs p (map to_lower k))
     [''token'', ''secret'', ''password'', ''authorization'', ''apikey'', ''api_key'', ''api-key'',
      ''credential'', ''refresh'', ''base64'', ''bytes'', ''binary'', ''audio'', ''attachment'',
      ''media'', ''payload'']"

definition redacted :: json where
  "redacted = JStr ''[REDACTED]''"

text \<open>The assignment \<open>out[key] = ...\<close> makes no own property for the key \<open>__proto__\<close>.\<close>

fun redactUnknown :: "json \<Rightarrow> json" where
  "redactUnknown (JStr s) = (if isEncodedPrivatePayload s then redacted else JStr s)"
| "redactUnknown (JArr xs) = JArr (map redactUnknown xs)"
| "redactUnknown (JObj kvs) =
     JObj (map (\<lambda>(k, v). (k, if SENSITIVE_INPUT_KEY k then redacted else redactUnknown v))
       (filter (\<lambda>(k, _). k \<noteq> ''__proto__'') kvs))"
| "redactUnknown v = v"

datatype IntegrationInputPreview = preview_none | preview_include "string list"

fun pick :: "string list \<Rightarrow> (string \<times> json) list \<Rightarrow> (string \<times> json) list \<Rightarrow> (string \<times> json) list" where
  "pick [] source picked = picked"
| "pick (k # ks) source picked =
     (case map_of source k of
        Some v \<Rightarrow> pick ks source (if k = ''__proto__'' then picked else AList.update k v picked)
      | None \<Rightarrow> pick ks source picked)"

definition projectInputPreview :: "IntegrationInputPreview option \<Rightarrow> json option \<Rightarrow> json option" where
  "projectInputPreview policy v =
     (case policy of
        Some preview_none \<Rightarrow> None
      | Some (preview_include keys) \<Rightarrow>
          (case v of Some (JObj source) \<Rightarrow> Some (redactUnknown (JObj (pick keys source []))) | _ \<Rightarrow> None)
      | None \<Rightarrow> map_option redactUnknown v)"

section \<open>What the scanner accepts\<close>

lemma class_disjoint:
  "line_break c \<Longrightarrow> \<not> blank c" "padding c \<Longrightarrow> \<not> blank c" "padding c \<Longrightarrow> \<not> line_break c"
  "opaque_char c \<Longrightarrow> \<not> blank c" "opaque_char c \<Longrightarrow> \<not> line_break c" "opaque_char c \<Longrightarrow> \<not> padding c"
  by (auto simp: line_break_def blank_def padding_def opaque_char_def)

text \<open>Encoded text without its line breaks: symbols, then at most two padding characters.\<close>

fun padded :: "nat \<Rightarrow> string \<Rightarrow> bool" where
  "padded p [] = True"
| "padded p (c # cs) = (if padding c then p < 2 \<and> padded (Suc p) cs else p = 0 \<and> opaque_char c \<and> padded 0 cs)"

definition encoded_text :: "string \<Rightarrow> bool" where
  "encoded_text w \<longleftrightarrow> (\<exists>xs ys. w = xs @ ys \<and> list_all opaque_char xs \<and> list_all padding ys \<and> length ys \<le> 2)"

lemma padded_pad: "0 < p \<Longrightarrow> padded p w \<longleftrightarrow> list_all padding w \<and> (w = [] \<or> length w + p \<le> 2)"
  by (induction w arbitrary: p) (auto simp: Suc_le_eq)

lemma padded_iff: "padded 0 w \<longleftrightarrow> encoded_text w"
proof (induction w)
  case (Cons c cs)
  show ?case
  proof (cases "padding c")
    case True
    have "padded 0 (c # cs) \<longleftrightarrow> list_all padding (c # cs) \<and> length (c # cs) \<le> 2"
      using True by (auto simp: padded_pad)
    also have "\<dots> \<longleftrightarrow> encoded_text (c # cs)"
    proof
      assume "encoded_text (c # cs)"
      with True class_disjoint(6) [of c] show "list_all padding (c # cs) \<and> length (c # cs) \<le> 2"
        by (auto simp: encoded_text_def Cons_eq_append_conv)
    next
      assume "list_all padding (c # cs) \<and> length (c # cs) \<le> 2"
      then show "encoded_text (c # cs)"
        unfolding encoded_text_def by (intro exI [of _ "[]"] exI [of _ "c # cs"]) simp
    qed
    finally show ?thesis .
  next
    case False
    have "encoded_text (c # cs) \<longleftrightarrow> opaque_char c \<and> encoded_text cs"
    proof
      assume "encoded_text (c # cs)"
      with False show "opaque_char c \<and> encoded_text cs"
        by (fastforce simp: encoded_text_def Cons_eq_append_conv)
    next
      assume "opaque_char c \<and> encoded_text cs"
      then obtain xs ys where "cs = xs @ ys" "list_all opaque_char (c # xs)" "list_all padding ys" "length ys \<le> 2"
        by (auto simp: encoded_text_def)
      then show "encoded_text (c # cs)"
        unfolding encoded_text_def by (intro exI [of _ "c # xs"] exI [of _ ys]) simp
    qed
    with False Cons show ?thesis by simp
  qed
qed (simp add: encoded_text_def)

definition unfolded :: "string \<Rightarrow> string" where
  "unfolded v = filter (\<lambda>c. \<not> line_break c) v"

lemma scan_unblanked:
  assumes "list_all (\<lambda>c. \<not> blank c) v" "horizontalLength s = 0" "\<not> spacedGroups s"
  shows "case scan v s of
     None \<Rightarrow> \<not> padded (paddingLength s) (unfolded v)
   | Some s' \<Rightarrow> padded (paddingLength s) (unfolded v) \<and> horizontalLength s' = 0 \<and> \<not> spacedGroups s'
       \<and> encodedLength s' = encodedLength s + length (filter opaque_char (unfolded v))"
  using assms
proof (induction v arbitrary: s)
  case (Cons c cs)
  show ?case
  proof (cases "line_break c")
    case True
    with Cons.IH [of "s\<lparr>horizontalLength := 0, horizontalHasTab := False, atLineStart := True\<rparr>"] Cons.prems
    show ?thesis by (simp add: scan_char_def unfolded_def split: option.splits)
  next
    case False
    let ?s = "s\<lparr>atLineStart := False\<rparr>"
    consider "padding c" "\<not> opaque_char c" | "\<not> padding c" "opaque_char c" | "\<not> padding c" "\<not> opaque_char c"
      using class_disjoint(6) by blast
    then show ?thesis
    proof cases
      case 1
      with False Cons.prems Cons.IH [of "?s\<lparr>paddingLength := Suc (paddingLength s), groupLength := Suc (groupLength s)\<rparr>"]
      show ?thesis by (auto simp: scan_char_def scan_word_def unfolded_def Let_def split: option.splits)
    next
      case 2
      with False Cons.prems Cons.IH [of "?s\<lparr>encodedLength := Suc (encodedLength s), groupLength := Suc (groupLength s)\<rparr>"]
      show ?thesis by (auto simp: scan_char_def scan_word_def unfolded_def Let_def split: option.splits)
    next
      case 3
      with False Cons.prems show ?thesis by (auto simp: scan_char_def scan_word_def unfolded_def Let_def)
    qed
  qed
qed (simp add: unfolded_def)

lemma skip_edge_unblanked: "list_all (\<lambda>c. \<not> blank c) v \<Longrightarrow> skip_edge n v = Some v"
  by (cases v) auto

lemma opaque_length: "encoded_text w \<Longrightarrow> length w \<le> length (filter opaque_char w) + 2"
proof -
  assume "encoded_text w"
  then obtain xs ys where w: "w = xs @ ys" "list_all opaque_char xs" "length ys \<le> 2"
    by (auto simp: encoded_text_def)
  then have "filter opaque_char xs = xs" by (simp add: list_all_iff)
  with w show ?thesis by simp
qed

lemma unblanked_payload:
  assumes "list_all (\<lambda>c. \<not> blank c) v"
  shows "isEncodedPrivatePayload v \<longleftrightarrow>
     data_url v \<or> (encoded_text (unfolded v) \<and> 16 \<le> length (filter opaque_char (unfolded v)))"
proof -
  have len: "length (filter opaque_char (unfolded v)) \<le> length v"
    using length_filter_le [of opaque_char "unfolded v"] length_filter_le [of "\<lambda>c. \<not> line_break c" v]
    unfolding unfolded_def by (rule le_trans)
  have rv: "list_all (\<lambda>c. \<not> blank c) (rev v)" using assms by (simp add: list_all_iff)
  have sc: "horizontalLength scan_start = 0" "\<not> spacedGroups scan_start" "paddingLength scan_start = 0"
    "encodedLength scan_start = 0" by (simp_all add: scan_start_def)
  from scan_unblanked [OF assms sc(1,2)] len show ?thesis
    by (auto simp: isEncodedPrivatePayload_def skip_edge_unblanked [OF assms] skip_edge_unblanked [OF rv]
        MIN_OPAQUE_PREVIEW_VALUE_LENGTH_def padded_iff sc split: option.splits)
qed

section \<open>Redacted values\<close>

fun clean :: "json \<Rightarrow> bool" where
  "clean (JStr s) = (\<not> isEncodedPrivatePayload s)"
| "clean (JArr xs) = list_all clean xs"
| "clean (JObj kvs) = list_all (\<lambda>(k, v). k \<noteq> ''__proto__'' \<and> (if SENSITIVE_INPUT_KEY k then v = redacted else clean v)) kvs"
| "clean _ = True"

lemma redacted_clean [simp]: "clean redacted"
  by (simp add: redacted_def isEncodedPrivatePayload_def data_url_def MIN_OPAQUE_PREVIEW_VALUE_LENGTH_def
      MAX_DATA_URL_HEADER_LENGTH_def js_space_def to_lower_def code_of_def)

lemma clean_redactUnknown: "clean (redactUnknown j)"
proof (induction j rule: redactUnknown.induct)
  case (3 kvs)
  then show ?case by (auto simp: list_all_iff split: prod.splits)
qed (auto simp: list_all_iff)

lemma redact_clean_id: "clean j \<Longrightarrow> redactUnknown j = j"
proof (induction j rule: redactUnknown.induct)
  case (2 xs)
  then show ?case by (auto simp: list_all_iff intro: map_idI)
next
  case (3 kvs)
  have "filter (\<lambda>(k, _). k \<noteq> ''__proto__'') kvs = kvs"
    using 3(2) by (auto simp: list_all_iff intro: filter_True)
  moreover have "map (\<lambda>(k, v). (k, if SENSITIVE_INPUT_KEY k then redacted else redactUnknown v)) kvs = kvs"
    using 3 by (intro map_idI) (auto simp: list_all_iff split: if_splits)
  ultimately show ?case by simp
qed auto

lemma keys_update: "fst ` set (AList.update k v al) = insert k (fst ` set al)"
  using dom_update [of k v al] by (simp add: dom_map_of_conv_image_fst)

lemma pick_keys: "fst ` set (pick ks source picked) \<subseteq> set ks \<union> fst ` set picked"
proof (induction ks source picked rule: pick.induct)
  case (2 k ks source picked)
  show ?case
  proof (cases "map_of source k")
    case None
    with 2 show ?thesis by auto
  next
    case (Some v)
    with 2(2) [OF Some] show ?thesis by (cases "k = ''__proto__''") (auto simp: keys_update)
  qed
qed simp

section \<open>Properties\<close>

text \<open>C22. A redacted value holds no string that looks like an encoded payload and, under every
  sensitive name, only the placeholder; redacting it again changes nothing, and a value that is
  already of that form is returned as it is.\<close>

theorem redaction_removes_private_input:
  "clean (redactUnknown j) \<and> redactUnknown (redactUnknown j) = redactUnknown j \<and> (redactUnknown j = j \<longleftrightarrow> clean j)"
  using clean_redactUnknown [of j] redact_clean_id [of "redactUnknown j"] redact_clean_id [of j] by metis

text \<open>Line breaks do not hide a payload: text without spaces or tabs is taken as private exactly
  when it starts like a data URL or, with its line breaks removed, is at least sixteen symbols of
  an encoding followed by at most two padding characters.\<close>

theorem folding_hides_no_payload:
  assumes "list_all (\<lambda>c. \<not> blank c) v"
  shows "isEncodedPrivatePayload v \<longleftrightarrow> data_url v \<or>
     (\<exists>xs ys. unfolded v = xs @ ys \<and> 16 \<le> length xs \<and> list_all opaque_char xs \<and> list_all padding ys \<and> length ys \<le> 2)"
proof -
  have *: "filter opaque_char (xs @ ys) = xs" if "list_all opaque_char xs" "list_all padding ys" for xs ys
    using that class_disjoint(6) by (auto simp: list_all_iff filter_empty_conv)
  show ?thesis
    unfolding unblanked_payload [OF assms] encoded_text_def by (metis *)
qed

section \<open>Concrete inputs\<close>

definition folded_sample :: string where
  "folded_sample = ''QUJDREVG'' @ [CHR 0x0D, CHR 0x0A] @ ''R0hJSktM'' @ [CHR 0x0A] @ ''TQ==''"

lemma folded_sample_private: "isEncodedPrivatePayload folded_sample"
  by code_simp

lemma prose_is_kept: "\<not> isEncodedPrivatePayload ''please book a table for two''"
  by code_simp

lemma short_text_is_kept: "\<not> isEncodedPrivatePayload ''QUJDREVGR0hJS''"
  by code_simp

theorem folding_hides_no_payload_witness:
  "list_all (\<lambda>c. \<not> blank c) folded_sample \<and>
   (\<exists>xs ys. unfolded folded_sample = xs @ ys \<and> 16 \<le> length xs \<and> list_all opaque_char xs
      \<and> list_all padding ys \<and> length ys \<le> 2)"
proof -
  have b: "list_all (\<lambda>c. \<not> blank c) folded_sample" by code_simp
  have d: "\<not> data_url folded_sample" by code_simp
  from folding_hides_no_payload [OF b] folded_sample_private d b show ?thesis by blast
qed

end
