(* ===== verification/Core.thy ===== *)
theory Core
  imports Redaction
begin

text \<open>
  The contracts of \<open>core-types.ts\<close> that the hub, the policies, the guards and the stores share:
  actors, connectors with their actions and triggers, connections, requests and results,
  capabilities, approvals, policy decisions, OAuth states, and the interfaces a host injects as
  records of effects.

  Time stamps are strings, as in the code. What the code uses of \<open>Date\<close> is a record of two
  functions: \<open>Date.parse\<close>, with \<open>None\<close> for \<open>NaN\<close>, and the text of \<open>toISOString\<close>; their only law is
  that the text of an instant parses back to it.
\<close>

section \<open>Actors, connectors and actions\<close>

datatype IntegrationProviderKind =
  kind_first_party | kind_nango | kind_pipedream | kind_zapier | kind_activepieces
| kind_tangle_catalog | kind_executor | kind_custom | kind_mcp

datatype IntegrationConnectorCategory =
  cat_email | cat_calendar | cat_chat | cat_crm | cat_storage | cat_docs | cat_database
| cat_webhook | cat_workflow | cat_internal | cat_other

datatype IntegrationActionRisk = risk_read | risk_write | risk_destructive

datatype IntegrationDataClass = dc_public | dc_internal | dc_private | dc_sensitive | dc_secret

datatype actor_type = actor_user | actor_team | actor_app | actor_agent | actor_sandbox | actor_system

record IntegrationActor =
  actor_type :: actor_type
  actor_id :: string

text \<open>\<open>Record<string, unknown>\<close>, and spreading one record over another: later properties overwrite
  in place, new ones are appended.\<close>

type_synonym metadata = "(string \<times> json) list"

definition spread :: "metadata \<Rightarrow> metadata \<Rightarrow> metadata" where
  "spread a b = foldl (\<lambda>m (k, v). AList.update k v m) a b"

datatype consistency_model = cm_authoritative | cm_cache | cm_advisory

record IntegrationConnectorAction =
  act_id :: string
  act_title :: string
  act_risk :: IntegrationActionRisk
  act_requiredScopes :: "string list"
  act_dataClass :: IntegrationDataClass
  act_consistencyModel :: "consistency_model option"
  act_description :: "string option"
  act_approvalRequired :: "bool option"
  act_inputPreview :: "IntegrationInputPreview option"
  act_inputSchema :: "json option"
  act_outputSchema :: "json option"

record IntegrationConnectorTrigger =
  trg_id :: string
  trg_title :: string
  trg_requiredScopes :: "string list"
  trg_dataClass :: IntegrationDataClass
  trg_description :: "string option"
  trg_payloadSchema :: "json option"

datatype connector_auth = auth_oauth2 | auth_api_key | auth_none | auth_custom

record IntegrationConnector =
  con_id :: string
  con_providerId :: string
  con_title :: string
  con_category :: IntegrationConnectorCategory
  con_auth :: connector_auth
  con_scopes :: "string list"
  con_actions :: "IntegrationConnectorAction list"
  con_triggers :: "IntegrationConnectorTrigger list option"
  con_metadata :: "metadata option"

section \<open>Connections\<close>

record SecretRef =
  secret_provider :: string
  secret_id :: string
  secret_label :: "string option"

datatype connection_status = cs_pending | cs_active | cs_expired | cs_revoked | cs_error

record account =
  account_id :: "string option"
  account_email :: "string option"
  account_displayName :: "string option"

record IntegrationConnection =
  conn_id :: string
  conn_owner :: IntegrationActor
  conn_providerId :: string
  conn_connectorId :: string
  conn_status :: connection_status
  conn_grantedScopes :: "string list"
  conn_account :: "account option"
  conn_secretRef :: "SecretRef option"
  conn_createdAt :: string
  conn_updatedAt :: string
  conn_expiresAt :: "string option"
  conn_lastUsedAt :: "string option"
  conn_metadata :: "metadata option"

fun connection_status_name :: "connection_status \<Rightarrow> string" where
  "connection_status_name cs_pending = ''pending''"
| "connection_status_name cs_active = ''active''"
| "connection_status_name cs_expired = ''expired''"
| "connection_status_name cs_revoked = ''revoked''"
| "connection_status_name cs_error = ''error''"

section \<open>Requests and results\<close>

record StartAuthRequest =
  sa_connectorId :: string
  sa_owner :: IntegrationActor
  sa_requestedScopes :: "string list"
  sa_redirectUri :: string
  sa_state :: "string option"
  sa_codeChallenge :: "string option"
  sa_metadata :: "metadata option"

record StartAuthResult =
  sr_requestedScopes :: "string list option"
  sr_providerId :: string
  sr_connectorId :: string
  sr_authUrl :: string
  sr_state :: string
  sr_expiresAt :: "string option"
  sr_metadata :: "metadata option"

record CompleteAuthRequest =
  ca_connectorId :: string
  ca_owner :: IntegrationActor
  ca_code :: "string option"
  ca_state :: string
  ca_redirectUri :: string
  ca_codeVerifier :: "string option"
  ca_requestedScopes :: "string list option"
  ca_metadata :: "metadata option"

record ConnectApiKeyRequest =
  ak_connectorId :: string
  ak_owner :: IntegrationActor
  ak_apiKey :: string
  ak_metadata :: "metadata option"

record IntegrationActionRequest =
  rq_connectionId :: string
  rq_action :: string
  rq_input :: "json option"
  rq_idempotencyKey :: "string option"
  rq_dryRun :: "bool option"
  rq_metadata :: "metadata option"

record IntegrationActionResult =
  ar_ok :: bool
  ar_action :: string
  ar_output :: "json option"
  ar_externalId :: "string option"
  ar_warnings :: "string list option"
  ar_metadata :: "metadata option"

datatype subscription_status = ts_active | ts_paused | ts_error

record IntegrationTriggerSubscription =
  ts_id :: string
  ts_connectionId :: string
  ts_trigger :: string
  ts_targetUrl :: "string option"
  ts_status :: subscription_status
  ts_createdAt :: string
  ts_metadata :: "metadata option"

record IntegrationTriggerEvent =
  te_id :: string
  te_providerId :: string
  te_connectorId :: string
  te_connectionId :: string
  te_trigger :: string
  te_occurredAt :: string
  te_payload :: json
  te_metadata :: "metadata option"

datatype IntegrationConnectionTestStatus =
  healthy | reconnect_required | rate_limited | network_failure | failing_provider
| persistence_failure | probe_unsupported

section \<open>Providers and stores\<close>

record 'w IntegrationProvider =
  prov_id :: string
  prov_kind :: IntegrationProviderKind
  prov_listConnectors :: "('w, exn, IntegrationConnector list) io"
  prov_testConnection :: "(IntegrationConnection \<Rightarrow> ('w, exn, IntegrationConnectionTestStatus) io) option"
  prov_connectApiKey :: "(ConnectApiKeyRequest \<Rightarrow> ('w, exn, IntegrationConnection) io) option"
  prov_startAuth :: "(StartAuthRequest \<Rightarrow> ('w, exn, StartAuthResult) io) option"
  prov_completeAuth :: "(CompleteAuthRequest \<Rightarrow> ('w, exn, IntegrationConnection) io) option"
  prov_invokeAction :: "IntegrationConnection \<Rightarrow> IntegrationActionRequest \<Rightarrow> ('w, exn, IntegrationActionResult) io"
  prov_subscribeTrigger :: "(IntegrationConnection \<Rightarrow> string \<Rightarrow> string option \<Rightarrow>
      ('w, exn, IntegrationTriggerSubscription) io) option"
  prov_unsubscribeTrigger :: "(string \<Rightarrow> ('w, exn, unit) io) option"
  prov_normalizeTriggerEvent :: "(json \<Rightarrow> ('w, exn, IntegrationTriggerEvent) io) option"

record 'w IntegrationConnectionStore =
  store_get :: "string \<Rightarrow> ('w, exn, IntegrationConnection option) io"
  store_put :: "IntegrationConnection \<Rightarrow> ('w, exn, unit) io"
  store_listByOwner :: "IntegrationActor \<Rightarrow> ('w, exn, IntegrationConnection list) io"
  store_delete :: "(string \<Rightarrow> ('w, exn, unit) io) option"

section \<open>Capabilities\<close>

record IssueCapabilityRequest =
  ic_subject :: IntegrationActor
  ic_connectionId :: string
  ic_scopes :: "string list"
  ic_allowedActions :: "string list"
  ic_ttlMs :: int
  ic_metadata :: "metadata option"

record IntegrationCapability =
  cap_id :: string
  cap_subject :: IntegrationActor
  cap_connectionId :: string
  cap_scopes :: "string list"
  cap_allowedActions :: "string list"
  cap_issuedAt :: string
  cap_expiresAt :: string
  cap_metadata :: "metadata option"

record IssuedIntegrationCapability =
  issued_capability :: IntegrationCapability
  issued_token :: string

section \<open>Guards and policies\<close>

record IntegrationGuardContext =
  gc_connection :: IntegrationConnection
  gc_request :: IntegrationActionRequest
  gc_action :: "IntegrationConnectorAction option"

text \<open>A guard wraps an action: it is given the effect that runs it.\<close>

type_synonym 'w IntegrationActionGuard =
  "IntegrationGuardContext \<Rightarrow> ('w, exn, IntegrationActionResult) io \<Rightarrow> ('w, exn, IntegrationActionResult) io"

record IntegrationApprovalRequest =
  ap_id :: string
  ap_connectionId :: string
  ap_providerId :: string
  ap_connectorId :: string
  ap_action :: string
  ap_actor :: IntegrationActor
  ap_risk :: IntegrationActionRisk
  ap_dataClass :: IntegrationDataClass
  ap_reason :: string
  ap_requestedAt :: string
  ap_inputPreview :: "json option"
  ap_metadata :: "metadata option"

text \<open>The decisions with their reason and metadata.\<close>

datatype IntegrationPolicyDecision =
  Allow string "metadata option"
| RequireApproval string IntegrationApprovalRequest "metadata option"
| Deny string "metadata option"

type_synonym 'w IntegrationPolicyEngine =
  "IntegrationGuardContext \<Rightarrow> IntegrationActor \<Rightarrow> ('w, exn, IntegrationPolicyDecision) io"

section \<open>OAuth states\<close>

record IntegrationOAuthState =
  os_state :: string
  os_providerId :: string
  os_connectorId :: string
  os_owner :: IntegrationActor
  os_requestedScopes :: "string list"
  os_redirectUri :: string
  os_codeVerifier :: "string option"
  os_expiresAt :: int
  os_metadata :: "metadata option"

datatype oauth_miss = miss_unknown | miss_expired

datatype IntegrationOAuthStateOutcome = StateFound IntegrationOAuthState | StateMiss oauth_miss

record 'w IntegrationOAuthStateStore =
  oauth_put :: "IntegrationOAuthState \<Rightarrow> ('w, exn, unit) io"
  oauth_consume :: "string \<Rightarrow> ('w, exn, IntegrationOAuthStateOutcome) io"
  oauth_sweep :: "(int \<Rightarrow> ('w, exn, unit) io) option"

section \<open>Dates\<close>

record date_api =
  Date_parse :: "string \<Rightarrow> int option"
  iso_text :: "int \<Rightarrow> string"

definition max_date :: int where
  "max_date = 8640000000000000"

definition date_api_ok :: "date_api \<Rightarrow> bool" where
  "date_api_ok d \<longleftrightarrow> (\<forall>n. \<bar>n\<bar> \<le> max_date \<longrightarrow> Date_parse d (iso_text d n) = Some n)"

text \<open>\<open>new Date(n).toISOString()\<close> throws outside the range of dates.\<close>

definition toISO :: "date_api \<Rightarrow> int \<Rightarrow> exn + string" where
  "toISO d n = (if \<bar>n\<bar> > max_date then Inl (Error ''Invalid time value'') else Inr (iso_text d n))"

text \<open>\<open>Date.parse(text) <= now\<close>, false for a text that is no date.\<close>

definition parsed_by :: "date_api \<Rightarrow> string \<Rightarrow> int \<Rightarrow> bool" where
  "parsed_by d text_of_date now = (case Date_parse d text_of_date of None \<Rightarrow> False | Some n \<Rightarrow> n \<le> now)"

lemma parsed_by_iso: "date_api_ok d \<Longrightarrow> toISO d n = Inr t \<Longrightarrow> parsed_by d t now \<longleftrightarrow> n \<le> now"
  by (auto simp: date_api_ok_def toISO_def parsed_by_def split: if_splits)

lemma spread_lookup: "map_of (spread a b) = map_of a ++ map_of (rev b)"
proof (induction b arbitrary: a)
  case (Cons p b)
  then show ?case by (cases p) (simp add: spread_def update_conv' map_add_upd_left map_add_assoc [symmetric] fun_eq_iff map_add_def split: option.splits)
qed (simp add: spread_def)

end
