(* ===== verification/AuditTrail.thy ===== *)
theory AuditTrail
  imports Core Idempotency
begin

text \<open>
  The audit trail of \<open>audit.ts\<close>: events, the in-memory store and its filter, the construction of
  an event with its redacted metadata, and the guard that records every action it lets through.

  A member of a metadata object whose value is \<open>undefined\<close> is no member of the model's list.
\<close>

section \<open>Events\<close>

datatype IntegrationAuditEventType =
  connection_created | connection_updated | connection_revoked | grant_created | grant_revoked
| capability_issued | action_invoked | action_failed | trigger_subscribed | trigger_received
| workflow_installed | approval_requested | approval_resolved | healthcheck_completed

record IntegrationAuditEvent =
  ae_id :: string
  ae_type :: IntegrationAuditEventType
  ae_occurredAt :: string
  ae_actor :: "IntegrationActor option"
  ae_connectionId :: "string option"
  ae_providerId :: "string option"
  ae_connectorId :: "string option"
  ae_action :: "string option"
  ae_risk :: "IntegrationActionRisk option"
  ae_dataClass :: "IntegrationDataClass option"
  ae_ok :: "bool option"
  ae_message :: "string option"
  ae_metadata :: "metadata option"

type_synonym 'w IntegrationAuditSink = "IntegrationAuditEvent \<Rightarrow> ('w, exn, unit) io"

record IntegrationAuditFilter =
  af_type :: "IntegrationAuditEventType option"
  af_actor :: "IntegrationActor option"
  af_connectionId :: "string option"
  af_providerId :: "string option"
  af_connectorId :: "string option"
  af_action :: "string option"

text \<open>\<open>filter.x && event.x !== filter.x\<close>: a filter that is absent or empty passes everything.\<close>

definition passes :: "string option \<Rightarrow> string option \<Rightarrow> bool" where
  "passes wanted got \<longleftrightarrow> \<not> truthy wanted \<or> got = wanted"

definition audit_matchesFilter :: "IntegrationAuditEvent \<Rightarrow> IntegrationAuditFilter \<Rightarrow> bool" where
  "audit_matchesFilter e f =
     (if af_type f \<noteq> None \<and> af_type f \<noteq> Some (ae_type e) then False
      else if af_actor f \<noteq> None \<and> ae_actor e \<noteq> af_actor f then False
      else if \<not> passes (af_connectionId f) (ae_connectionId e) then False
      else if \<not> passes (af_providerId f) (ae_providerId e) then False
      else if \<not> passes (af_connectorId f) (ae_connectorId e) then False
      else passes (af_action f) (ae_action e))"

section \<open>The in-memory store\<close>

record InMemoryIntegrationAuditStore = host +
  audit_events :: "IntegrationAuditEvent list"

definition audit_record :: "IntegrationAuditEvent \<Rightarrow> ('a InMemoryIntegrationAuditStore_scheme, exn, unit) io" where
  [io_defs]: "audit_record e w = (Inr (), w\<lparr>audit_events := audit_events w @ [e]\<rparr>)"

definition audit_list :: "IntegrationAuditFilter \<Rightarrow> ('a InMemoryIntegrationAuditStore_scheme, exn, IntegrationAuditEvent list) io" where
  [io_defs]: "audit_list f w = (Inr (filter (\<lambda>e. audit_matchesFilter e f) (audit_events w)), w)"

section \<open>Making an event\<close>

text \<open>What the integration components use of the platform: random identifiers, dates, and the
  base64url text of a SHA-256 digest.\<close>

record 'w platform =
  pf_uuid :: "('w, exn, string) io"
  pf_dates :: date_api
  pf_sha256 :: "string \<Rightarrow> string"

text \<open>The time of an event: a date, a text, or a reading of the clock when the event is made.\<close>

datatype 'w event_time = AtDate int | AtText string | AtClock "('w, exn, int) io"

text \<open>\<open>draft\<close> is the event without its identifier and time.\<close>

definition createIntegrationAuditEvent ::
  "'w platform \<Rightarrow> string option \<Rightarrow> 'w event_time \<Rightarrow> IntegrationAuditEvent \<Rightarrow> ('w, exn, IntegrationAuditEvent) io" where
  "createIntegrationAuditEvent pf givenId time draft =
     andThen (case time of
         AtDate n \<Rightarrow> liftE (toISO (pf_dates pf) n)
       | AtText t \<Rightarrow> ret t
       | AtClock now \<Rightarrow> andThen now (\<lambda>n. liftE (toISO (pf_dates pf) n))) (\<lambda>occurredAt.
     andThen (case givenId of Some i \<Rightarrow> ret i | None \<Rightarrow> andThen (pf_uuid pf) (\<lambda>u. ret (''audit_'' @ u))) (\<lambda>eid.
     ret (draft\<lparr>ae_id := eid, ae_occurredAt := occurredAt,
       ae_metadata := (case ae_metadata draft of None \<Rightarrow> None
         | Some m \<Rightarrow> (case redactUnknown (JObj m) of JObj m' \<Rightarrow> Some m' | _ \<Rightarrow> None))\<rparr>)))"

definition opt_str :: "string \<Rightarrow> string option \<Rightarrow> metadata" where
  "opt_str k v = (case v of None \<Rightarrow> [] | Some s \<Rightarrow> [(k, JStr s)])"

definition opt_val :: "string \<Rightarrow> json option \<Rightarrow> metadata" where
  "opt_val k v = (case v of None \<Rightarrow> [] | Some j \<Rightarrow> [(k, j)])"

definition opt_strs :: "string \<Rightarrow> string list option \<Rightarrow> metadata" where
  "opt_strs k v = (case v of None \<Rightarrow> [] | Some ss \<Rightarrow> [(k, JArr (map JStr ss))])"

text \<open>The event of an action on the connection of a guard context.\<close>

definition action_draft :: "IntegrationAuditEventType \<Rightarrow> IntegrationActor \<Rightarrow> IntegrationGuardContext \<Rightarrow>
    bool option \<Rightarrow> string option \<Rightarrow> metadata \<Rightarrow> IntegrationAuditEvent" where
  "action_draft ty who ctx ok msg meta =
     \<lparr>ae_id = [], ae_type = ty, ae_occurredAt = [], ae_actor = Some who,
      ae_connectionId = Some (conn_id (gc_connection ctx)),
      ae_providerId = Some (conn_providerId (gc_connection ctx)),
      ae_connectorId = Some (conn_connectorId (gc_connection ctx)),
      ae_action = Some (rq_action (gc_request ctx)),
      ae_risk = map_option act_risk (gc_action ctx),
      ae_dataClass = map_option act_dataClass (gc_action ctx),
      ae_ok = ok, ae_message = msg, ae_metadata = Some meta\<rparr>"

section \<open>The auditing guard\<close>

record 'w auditing_options =
  ao_sink :: "'w IntegrationAuditSink"
  ao_subject :: "IntegrationActor option"
  ao_now :: "('w, exn, int) io"
  ao_includeInputPreview :: bool

definition actionEvent :: "'w platform \<Rightarrow> 'w auditing_options \<Rightarrow> IntegrationGuardContext \<Rightarrow>
    IntegrationActionResult option \<Rightarrow> IntegrationAuditEventType \<Rightarrow> int \<Rightarrow> string option \<Rightarrow>
    ('w, exn, IntegrationAuditEvent) io" where
  "actionEvent pf ao ctx result ty occurredAt msg =
     createIntegrationAuditEvent pf None (AtDate occurredAt)
       (action_draft ty (nullish (ao_subject ao) (conn_owner (gc_connection ctx))) ctx
          (Some (case result of None \<Rightarrow> False | Some r \<Rightarrow> ar_ok r)) msg
          (opt_str ''idempotencyKey'' (rq_idempotencyKey (gc_request ctx)) @
           opt_val ''dryRun'' (map_option JBool (rq_dryRun (gc_request ctx))) @
           opt_str ''externalId'' (case result of None \<Rightarrow> None | Some r \<Rightarrow> ar_externalId r) @
           opt_strs ''warnings'' (case result of None \<Rightarrow> None | Some r \<Rightarrow> ar_warnings r) @
           opt_val ''inputPreview''
             (if ao_includeInputPreview ao
              then projectInputPreview (case gc_action ctx of None \<Rightarrow> None | Some a \<Rightarrow> act_inputPreview a)
                     (rq_input (gc_request ctx))
              else None)))"

text \<open>\<open>error instanceof Error ? error.message : 'Integration action failed.'\<close>.\<close>

fun failure_message :: "exn \<Rightarrow> string" where
  "failure_message (Thrown _) = ''Integration action failed.''"
| "failure_message e = errMessage e"

definition auditingGuard :: "'w platform \<Rightarrow> 'w auditing_options \<Rightarrow> 'w IntegrationActionGuard" where
  "auditingGuard pf ao ctx proceed =
     andThen (ao_now ao) (\<lambda>startedAt.
     tryCatch
       (andThen proceed (\<lambda>result.
        andThen (actionEvent pf ao ctx (Some result) (if ar_ok result then action_invoked else action_failed) startedAt None)
          (\<lambda>e. andThen (ao_sink ao e) (\<lambda>_. ret result))))
       (\<lambda>err.
        andThen (actionEvent pf ao ctx None action_failed startedAt (Some (failure_message err)))
          (\<lambda>e. andThen (ao_sink ao e) (\<lambda>_. throw err))))"

section \<open>What an event keeps\<close>

lemma made_event:
  assumes "createIntegrationAuditEvent pf givenId time draft w = (Inr e, w')"
  shows "ae_type e = ae_type draft" "ae_actor e = ae_actor draft" "ae_ok e = ae_ok draft"
    "ae_action e = ae_action draft" "ae_connectionId e = ae_connectionId draft" "ae_message e = ae_message draft"
  using assms
  by (auto simp: createIntegrationAuditEvent_def io_defs simp del: redactUnknown.simps
      split: sum.splits prod.splits option.splits)

lemma made_event_clean:
  assumes "createIntegrationAuditEvent pf givenId time draft w = (Inr e, w')" "ae_metadata e = Some m"
  shows "clean (JObj m)"
proof -
  from assms obtain m0 where "redactUnknown (JObj m0) = JObj m"
    by (auto simp: createIntegrationAuditEvent_def io_defs simp del: redactUnknown.simps
        split: sum.splits prod.splits option.splits json.splits)
  with clean_redactUnknown [of "JObj m0"] show ?thesis by simp
qed

lemma action_draft_simps [simp]:
  "ae_type (action_draft ty who ctx ok msg meta) = ty"
  "ae_actor (action_draft ty who ctx ok msg meta) = Some who"
  "ae_ok (action_draft ty who ctx ok msg meta) = ok"
  "ae_action (action_draft ty who ctx ok msg meta) = Some (rq_action (gc_request ctx))"
  "ae_connectionId (action_draft ty who ctx ok msg meta) = Some (conn_id (gc_connection ctx))"
  by (simp_all add: action_draft_def)

lemma audit_list_recorded:
  "audit_matchesFilter e f \<Longrightarrow>
   snd (audit_record e w) = w' \<Longrightarrow> fst (audit_list f w') = Inr (filter (\<lambda>e. audit_matchesFilter e f) (audit_events w) @ [e])"
  by (auto simp: io_defs)

end
