(* ===== verification/JsonText.thy ===== *)
theory JsonText
  imports Json
begin

text \<open>
  The text of a value: \<open>JSON.stringify\<close> and \<open>JSON.parse\<close> for the values of type \<open>json\<close>. Numbers
  of the model are integers and print in decimal; a number that is not finite prints as
  \<open>null\<close>. Escapes of characters above 255, fractions and exponents denote no value of the model
  and end the parse. A repeated name overwrites in place. The members of an object keep the order
  of the text.

  The parser carries a bound on its recursion. Two calls are made per character at most, so twice
  the length of the text is enough for every text; the round trip below proves it for every text
  that \<open>JSON.stringify\<close> writes.
\<close>

section \<open>Writing\<close>

definition hex_digit :: "nat \<Rightarrow> char" where
  "hex_digit n = (if n < 10 then char_of (48 + n) else char_of (87 + n))"

definition escape :: "char \<Rightarrow> string" where
  "escape c =
     (let n = code_of c in
      if n = 34 then [CHR 0x5C, CHR 0x22]
      else if n = 92 then [CHR 0x5C, CHR 0x5C]
      else if n = 8 then [CHR 0x5C, CHR ''b'']
      else if n = 12 then [CHR 0x5C, CHR ''f'']
      else if n = 10 then [CHR 0x5C, CHR ''n'']
      else if n = 13 then [CHR 0x5C, CHR ''r'']
      else if n = 9 then [CHR 0x5C, CHR ''t'']
      else if n < 32 then [CHR 0x5C, CHR ''u'', CHR ''0'', CHR ''0'', hex_digit (n div 16), hex_digit (n mod 16)]
      else [c])"

definition quote :: "string \<Rightarrow> string" where
  "quote s = CHR 0x22 # concat (map escape s) @ [CHR 0x22]"

definition int_text :: "int \<Rightarrow> string" where
  "int_text i = (if i < 0 then CHR ''-'' # decimal (nat (- i)) else decimal (nat i))"

fun commas :: "string list \<Rightarrow> string" where
  "commas [] = []"
| "commas [x] = x"
| "commas (x # y # zs) = x @ CHR '','' # commas (y # zs)"

fun stringify :: "json \<Rightarrow> string" where
  "stringify JNull = ''null''"
| "stringify (JBool b) = (if b then ''true'' else ''false'')"
| "stringify (JNum (Finite i)) = int_text i"
| "stringify (JNum NotFinite) = ''null''"
| "stringify (JStr s) = quote s"
| "stringify (JArr xs) = CHR ''['' # commas (map stringify xs) @ [CHR '']'']"
| "stringify (JObj kvs) =
     CHR 0x7B # commas (map (\<lambda>(k, v). quote k @ CHR '':'' # stringify v) kvs) @ [CHR 0x7D]"

section \<open>Reading\<close>

definition json_space :: "char \<Rightarrow> bool" where
  "json_space c \<longleftrightarrow> code_of c = 32 \<or> code_of c = 9 \<or> code_of c = 10 \<or> code_of c = 13"

definition skip_ws :: "string \<Rightarrow> string" where
  "skip_ws s = dropWhile json_space s"

definition hex_value :: "char \<Rightarrow> nat option" where
  "hex_value c =
     (let n = code_of c in
      if 48 \<le> n \<and> n \<le> 57 then Some (n - 48)
      else if 97 \<le> n \<and> n \<le> 102 then Some (n - 87)
      else if 65 \<le> n \<and> n \<le> 70 then Some (n - 55)
      else None)"

text \<open>The four hexadecimal digits of an escape, as one code unit.\<close>

definition code_unit :: "char \<Rightarrow> char \<Rightarrow> char \<Rightarrow> char \<Rightarrow> char option" where
  "code_unit a b c d =
     (case (hex_value a, hex_value b, hex_value c, hex_value d) of
        (Some i, Some j, Some k, Some l) \<Rightarrow>
          (let n = ((i * 16 + j) * 16 + k) * 16 + l in if n < 256 then Some (char_of n) else None)
      | _ \<Rightarrow> None)"

definition simple_escape :: "char \<Rightarrow> char option" where
  "simple_escape c =
     (let n = code_of c in
      if n = 34 \<or> n = 92 \<or> n = 47 then Some c
      else if n = 98 then Some (char_of (8 :: nat))
      else if n = 102 then Some (char_of (12 :: nat))
      else if n = 110 then Some (char_of (10 :: nat))
      else if n = 114 then Some (char_of (13 :: nat))
      else if n = 116 then Some (char_of (9 :: nat))
      else None)"

definition cons_fst :: "char \<Rightarrow> string \<times> string \<Rightarrow> string \<times> string" where
  "cons_fst c p = (c # fst p, snd p)"

text \<open>The rest of a string literal after its opening quote.\<close>

fun string_body :: "string \<Rightarrow> (string \<times> string) option" where
  "string_body [] = None"
| "string_body (c # cs) =
     (if code_of c = 34 then Some ([], cs)
      else if code_of c = 92 then
        (case cs of
           [] \<Rightarrow> None
         | e # es \<Rightarrow>
             if code_of e = 117 then
               (case es of
                  h1 # h2 # h3 # h4 # rest \<Rightarrow>
                    (case code_unit h1 h2 h3 h4 of
                       None \<Rightarrow> None
                     | Some u \<Rightarrow> map_option (cons_fst u) (string_body rest))
                | _ \<Rightarrow> None)
             else (case simple_escape e of
                 None \<Rightarrow> None
               | Some u \<Rightarrow> map_option (cons_fst u) (string_body es)))
      else if code_of c < 32 then None
      else map_option (cons_fst c) (string_body cs))"

fun digits_value :: "nat \<Rightarrow> string \<Rightarrow> nat" where
  "digits_value acc [] = acc"
| "digits_value acc (c # cs) = digits_value (acc * 10 + (code_of c - 48)) cs"

text \<open>The digits of an integer: no leading zero, and neither fraction nor exponent behind.\<close>

definition number_body :: "string \<Rightarrow> (nat \<times> string) option" where
  "number_body s =
     (let ds = takeWhile is_digit s; rest = dropWhile is_digit s in
      if ds = [] \<or> (length ds > 1 \<and> code_of (hd ds) = 48) then None
      else if rest \<noteq> [] \<and> code_of (hd rest) \<in> {46, 69, 101} then None
      else Some (digits_value 0 ds, rest))"

definition number_value :: "string \<Rightarrow> (json \<times> string) option" where
  "number_value s =
     (case s of
        [] \<Rightarrow> None
      | c # cs \<Rightarrow>
          if code_of c = 45 then map_option (\<lambda>(n, r). (JNum (Finite (- int n)), r)) (number_body cs)
          else map_option (\<lambda>(n, r). (JNum (Finite (int n)), r)) (number_body s))"

definition literal :: "string \<Rightarrow> json \<Rightarrow> string \<Rightarrow> (json \<times> string) option" where
  "literal w j s = (if take (length w) s = w then Some (j, drop (length w) s) else None)"

definition scalar_value :: "string \<Rightarrow> (json \<times> string) option" where
  "scalar_value s =
     (case s of
        [] \<Rightarrow> None
      | c # cs \<Rightarrow>
          if code_of c = 34 then map_option (\<lambda>(t, r). (JStr t, r)) (string_body cs)
          else if code_of c = 110 then literal ''null'' JNull s
          else if code_of c = 116 then literal ''true'' (JBool True) s
          else if code_of c = 102 then literal ''false'' (JBool False) s
          else number_value s)"

text \<open>The name of a member and its colon.\<close>

definition member_name :: "string \<Rightarrow> (string \<times> string) option" where
  "member_name s =
     (case skip_ws s of
        [] \<Rightarrow> None
      | c # cs \<Rightarrow>
          if code_of c \<noteq> 34 then None
          else case string_body cs of
            None \<Rightarrow> None
          | Some (k, r) \<Rightarrow> (case skip_ws r of [] \<Rightarrow> None | d # ds \<Rightarrow> if code_of d = 58 then Some (k, ds) else None))"

fun parse_value :: "nat \<Rightarrow> string \<Rightarrow> (json \<times> string) option"
  and parse_items :: "nat \<Rightarrow> string \<Rightarrow> json list \<Rightarrow> (json \<times> string) option"
  and parse_members :: "nat \<Rightarrow> string \<Rightarrow> (string \<times> json) list \<Rightarrow> (json \<times> string) option" where
  "parse_value 0 s = None"
| "parse_value (Suc n) s =
     (case skip_ws s of
        [] \<Rightarrow> None
      | c # cs \<Rightarrow>
          if code_of c = 91 then
            (case skip_ws cs of
               [] \<Rightarrow> None
             | d # ds \<Rightarrow> if code_of d = 93 then Some (JArr [], ds) else parse_items n cs [])
          else if code_of c = 123 then
            (case skip_ws cs of
               [] \<Rightarrow> None
             | d # ds \<Rightarrow> if code_of d = 125 then Some (JObj [], ds) else parse_members n cs [])
          else scalar_value (c # cs))"
| "parse_items 0 s acc = None"
| "parse_items (Suc n) s acc =
     (case parse_value n s of
        None \<Rightarrow> None
      | Some (v, r) \<Rightarrow>
          (case skip_ws r of
             [] \<Rightarrow> None
           | d # ds \<Rightarrow>
               if code_of d = 93 then Some (JArr (acc @ [v]), ds)
               else if code_of d = 44 then parse_items n ds (acc @ [v])
               else None))"
| "parse_members 0 s acc = None"
| "parse_members (Suc n) s acc =
     (case member_name s of
        None \<Rightarrow> None
      | Some (k, q) \<Rightarrow>
          (case parse_value n q of
             None \<Rightarrow> None
           | Some (v, r) \<Rightarrow>
               (case skip_ws r of
                  [] \<Rightarrow> None
                | d # ds \<Rightarrow>
                    if code_of d = 125 then Some (JObj (AList.update k v acc), ds)
                    else if code_of d = 44 then parse_members n ds (AList.update k v acc)
                    else None)))"

definition JSON_parse :: "string \<Rightarrow> json option" where
  "JSON_parse s =
     (case parse_value (2 * length s + 2) s of
        None \<Rightarrow> None
      | Some (j, r) \<Rightarrow> if skip_ws r = [] then Some j else None)"

section \<open>Reading what was written\<close>

subsection \<open>Strings\<close>

lemma code_of_punctuation [simp]:
  "code_of (CHR 0x22) = 34" "code_of (CHR 0x5C) = 92" "code_of (CHR '','') = 44" "code_of (CHR '':'') = 58"
  "code_of (CHR ''['') = 91" "code_of (CHR '']'') = 93" "code_of (CHR 0x7B) = 123" "code_of (CHR 0x7D) = 125"
  "code_of (CHR ''-'') = 45" "code_of (CHR ''u'') = 117" "code_of (CHR ''b'') = 98" "code_of (CHR ''f'') = 102"
  "code_of (CHR ''n'') = 110" "code_of (CHR ''r'') = 114" "code_of (CHR ''t'') = 116" "code_of (CHR ''0'') = 48"
  by (simp_all add: code_of_def)

lemma hex_value_digit: "d < 16 \<Longrightarrow> hex_value (hex_digit d) = Some d"
  by (auto simp: hex_value_def hex_digit_def Let_def)

lemma hex_value_zero [simp]: "hex_value (CHR ''0'') = Some 0"
  by (simp add: hex_value_def)

lemma string_body_escape:
  "string_body (escape c @ rest) = map_option (cons_fst c) (string_body rest)"
proof -
  let ?n = "code_of c"
  have chr: "char_of n = c" if "code_of c = n" for n using that by auto
  show ?thesis
  proof (cases "?n \<in> {34, 92, 8, 12, 10, 13, 9}")
    case True
    have "c = CHR 0x22" if "?n = 34" using that code_of_inj [of c "CHR 0x22"] by simp
    moreover have "c = CHR 0x5C" if "?n = 92" using that code_of_inj [of c "CHR 0x5C"] by simp
    ultimately show ?thesis using True by (auto simp: escape_def simple_escape_def Let_def chr)
  next
    case False
    show ?thesis
    proof (cases "?n < 32")
      case True
      then have "code_unit (CHR ''0'') (CHR ''0'') (hex_digit (?n div 16)) (hex_digit (?n mod 16)) = Some c"
        by (simp add: code_unit_def hex_value_digit Let_def)
      with True False show ?thesis by (simp add: escape_def Let_def)
    next
      case big: False
      with False show ?thesis by (simp add: escape_def Let_def)
    qed
  qed
qed

lemma string_body_quote: "string_body (concat (map escape s) @ CHR 0x22 # rest) = Some (s, rest)"
  by (induction s) (simp_all add: string_body_escape cons_fst_def)

subsection \<open>Numbers\<close>

lemma decimal_is_digit: "list_all is_digit (decimal n)"
  by (auto simp: list_all_iff is_digit_def digit_char_def dest!: decimal_digits)

lemma code_of_digit [simp]: "d < 10 \<Longrightarrow> code_of (digit_char d) = 48 + d"
  by (simp add: digit_char_def)

lemma digits_value_append: "digits_value acc (xs @ ys) = digits_value (digits_value acc xs) ys"
  by (induction xs arbitrary: acc) simp_all

lemma digits_value_decimal: "digits_value 0 (decimal n) = n"
proof (induction n rule: decimal.induct)
  case (1 n)
  then show ?case by (subst decimal.simps) (simp add: digits_value_append)
qed

lemma decimal_head: "10 \<le> n \<Longrightarrow> code_of (hd (decimal n)) \<noteq> 48"
proof (induction n rule: decimal.induct)
  case (1 n)
  show ?case
  proof (cases "n div 10 < 10")
    case True
    with 1(2) have "decimal (n div 10) = [digit_char (n div 10)]" "0 < n div 10" by (subst decimal.simps, auto)
    with 1(2) True show ?thesis by (subst decimal.simps) simp
  next
    case False
    with 1 have "code_of (hd (decimal (n div 10))) \<noteq> 48" by simp
    with 1(2) show ?thesis by (subst decimal.simps) simp
  qed
qed

lemma decimal_length: "1 < length (decimal n) \<Longrightarrow> 10 \<le> n"
  by (rule ccontr) (simp add: decimal.simps [of n])

text \<open>What may follow a value inside a text.\<close>

definition delimited :: "string \<Rightarrow> bool" where
  "delimited r \<longleftrightarrow> r = [] \<or> (\<not> is_digit (hd r) \<and> code_of (hd r) \<notin> {46, 69, 101})"

lemma number_body_decimal:
  assumes "delimited r"
  shows "number_body (decimal n @ r) = Some (n, r)"
proof -
  have tw: "takeWhile is_digit (decimal n @ r) = decimal n" "dropWhile is_digit (decimal n @ r) = r"
    using assms decimal_is_digit [of n]
    by (auto simp: takeWhile_append list_all_iff delimited_def dropWhile_append)
      (cases r, auto)+
  with assms decimal_head [of n] decimal_length [of n] show ?thesis
    by (auto simp: number_body_def digits_value_decimal delimited_def Let_def)
qed

lemma decimal_hd_digit: "is_digit (hd (decimal n))"
  using decimal_is_digit [of n] by (cases "decimal n") (auto dest: arg_cong [where f = length])

lemma number_value_int_text:
  assumes "delimited r"
  shows "number_value (int_text i @ r) = Some (JNum (Finite i), r)"
proof (cases "i < 0")
  case True
  with assms show ?thesis by (simp add: int_text_def number_value_def number_body_decimal)
next
  case False
  obtain c cs where d: "decimal (nat i) = c # cs" by (cases "decimal (nat i)") auto
  with decimal_hd_digit [of "nat i"] have "code_of c \<noteq> 45" by (auto simp: is_digit_def)
  with False assms d number_body_decimal [of r "nat i"] show ?thesis
    by (simp add: int_text_def number_value_def)
qed

subsection \<open>Values\<close>

text \<open>The values that survive a round trip: finite numbers, and objects without repeated names.\<close>

fun textual :: "json \<Rightarrow> bool" where
  "textual (JNum n) = (n \<noteq> NotFinite)"
| "textual (JArr xs) = list_all textual xs"
| "textual (JObj kvs) = (distinct (map fst kvs) \<and> list_all (\<lambda>(k, v). textual v) kvs)"
| "textual _ = True"

lemma stringify_Nil [simp]: "stringify j \<noteq> []"
  by (cases j rule: stringify.cases) (auto simp: int_text_def quote_def)

lemma hd_int_text: "code_of (hd (int_text i)) = 45 \<or> is_digit (hd (int_text i))"
  by (simp add: int_text_def decimal_hd_digit)

lemma stringify_head: "code_of (hd (stringify j)) \<notin> {32, 9, 10, 13, 93, 125, 44, 58}"
proof (cases j rule: stringify.cases)
  case (3 i)
  with hd_int_text [of i] show ?thesis by (auto simp: is_digit_def)
qed (auto simp: quote_def)

lemma skip_ws_stringify [simp]: "skip_ws (stringify j @ r) = stringify j @ r"
proof -
  obtain c cs where s: "stringify j = c # cs" by (cases "stringify j") auto
  with stringify_head [of j] have "\<not> json_space c" by (auto simp: json_space_def)
  with s show ?thesis by (simp add: skip_ws_def)
qed

lemma skip_ws_Cons [simp]: "\<not> json_space c \<Longrightarrow> skip_ws (c # cs) = c # cs"
  by (simp add: skip_ws_def)

lemma not_json_space [simp]:
  "\<not> json_space (CHR '','')" "\<not> json_space (CHR '':'')" "\<not> json_space (CHR '']'')" "\<not> json_space (CHR 0x7D)"
  "\<not> json_space (CHR 0x22)" "\<not> json_space (CHR ''['')" "\<not> json_space (CHR 0x7B)"
  by (simp_all add: json_space_def)

lemma delimited_Cons [simp]:
  "delimited (CHR '','' # r)" "delimited (CHR '']'' # r)" "delimited (CHR 0x7D # r)" "delimited []"
  by (simp_all add: delimited_def is_digit_def)

lemma scalar_round_trip:
  assumes "textual j" "delimited r" "\<And>xs. j \<noteq> JArr xs" "\<And>kvs. j \<noteq> JObj kvs"
  shows "scalar_value (stringify j @ r) = Some (j, r)"
proof (cases j rule: stringify.cases)
  case (3 i)
  obtain c cs where s: "int_text i = c # cs" using stringify_Nil [of j] 3 by (cases "int_text i") auto
  with hd_int_text [of i] have "code_of c \<notin> {34, 110, 116, 102}" by (auto simp: is_digit_def)
  with s 3 number_value_int_text [OF assms(2), of i] show ?thesis by (simp add: scalar_value_def)
qed (use assms in \<open>auto simp: scalar_value_def literal_def quote_def string_body_quote\<close>)

lemma parse_scalar:
  assumes "textual j" "delimited r" "\<And>xs. j \<noteq> JArr xs" "\<And>kvs. j \<noteq> JObj kvs"
  shows "parse_value (Suc n) (stringify j @ r) = Some (j, r)"
proof -
  obtain c cs where s: "stringify j = c # cs" by (cases "stringify j") auto
  have "code_of c \<noteq> 91 \<and> code_of c \<noteq> 123"
  proof (cases j rule: stringify.cases)
    case (3 i)
    with hd_int_text [of i] s show ?thesis by (auto simp: is_digit_def)
  qed (use s assms(3,4) in \<open>auto simp: quote_def split: if_splits\<close>)
  with s scalar_round_trip [OF assms] skip_ws_stringify [of j r] show ?thesis by simp
qed

lemma length_commas_Cons: "length (commas (x # xs)) = length x + (if xs = [] then 0 else Suc (length (commas xs)))"
  by (cases xs) auto

lemma items_round_trip:
  assumes "\<And>x n r. x \<in> set xs \<Longrightarrow> delimited r \<Longrightarrow> length (stringify x) \<le> n \<Longrightarrow>
      parse_value n (stringify x @ r) = Some (x, r)"
    and "xs \<noteq> []" "length (commas (map stringify xs)) < n"
  shows "parse_items n (commas (map stringify xs) @ CHR '']'' # r) acc = Some (JArr (acc @ xs), r)"
  using assms
proof (induction xs arbitrary: n acc)
  case (Cons x xs)
  then obtain m where n: "n = Suc m" by (cases n) auto
  with Cons.prems(3) have len: "length (stringify x) \<le> m" by (simp add: length_commas_Cons split: if_splits)
  show ?case
  proof (cases xs)
    case Nil
    with n len Cons.prems(1) show ?thesis by simp
  next
    case (Cons y ys)
    with n Cons.prems(3) have "length (commas (map stringify xs)) < m"
      by (cases "stringify x") (auto simp: length_commas_Cons)
    with Cons.IH [of m "acc @ [x]"] Cons.prems(1) n len Cons
    show ?thesis by simp
  qed
qed simp

lemma member_name_quote: "member_name (quote k @ CHR '':'' # q) = Some (k, q)"
  by (simp add: member_name_def quote_def string_body_quote)

lemma update_new: "k \<notin> fst ` set al \<Longrightarrow> AList.update k v al = al @ [(k, v)]"
  by (induction al) auto

lemma members_round_trip:
  assumes "\<And>k x n r. (k, x) \<in> set kvs \<Longrightarrow> delimited r \<Longrightarrow> length (stringify x) \<le> n \<Longrightarrow>
      parse_value n (stringify x @ r) = Some (x, r)"
    and "kvs \<noteq> []" "length (commas (map (\<lambda>(k, v). quote k @ CHR '':'' # stringify v) kvs)) < n"
    and "distinct (map fst acc @ map fst kvs)"
  shows "parse_members n (commas (map (\<lambda>(k, v). quote k @ CHR '':'' # stringify v) kvs) @ CHR 0x7D # r) acc
    = Some (JObj (acc @ kvs), r)"
  using assms
proof (induction kvs arbitrary: n acc)
  case (Cons p kvs)
  obtain k x where p: "p = (k, x)" by (cases p)
  from Cons.prems(3) obtain m where n: "n = Suc m" by (cases n) auto
  with Cons.prems(3) have len: "length (stringify x) \<le> m" by (simp add: p length_commas_Cons split: if_splits)
  have upd: "AList.update k x acc = acc @ [(k, x)]" using Cons.prems(4) by (intro update_new) (auto simp: p)
  show ?case
  proof (cases kvs)
    case Nil
    with n len Cons.prems(1) [of k x] p show ?thesis by (simp add: member_name_quote upd)
  next
    case (Cons y ys)
    with n Cons.prems(3) have "length (commas (map (\<lambda>(k, v). quote k @ CHR '':'' # stringify v) kvs)) < m"
      by (auto simp: length_commas_Cons p)
    moreover have "distinct (map fst (acc @ [(k, x)]) @ map fst kvs)" using Cons.prems(4) by (auto simp: p)
    ultimately have rest: "parse_members m (commas (map (\<lambda>(k, v). quote k @ CHR '':'' # stringify v) kvs) @ CHR 0x7D # r)
        (acc @ [(k, x)]) = Some (JObj ((acc @ [(k, x)]) @ kvs), r)"
      using Cons.IH [of m "acc @ [(k, x)]"] Cons.prems(1) Cons by fastforce
    have this_one: "parse_value m (stringify x @ CHR '','' # q) = Some (x, CHR '','' # q)" for q
      by (rule Cons.prems(1) [of k]) (simp_all add: p len)
    show ?thesis using n p rest Cons by (simp add: member_name_quote upd this_one)
  qed
qed simp

lemma parse_scalar':
  assumes "length (stringify j) \<le> n" "textual j" "delimited r" "\<And>xs. j \<noteq> JArr xs" "\<And>kvs. j \<noteq> JObj kvs"
  shows "parse_value n (stringify j @ r) = Some (j, r)"
proof (cases n)
  case (Suc m)
  show ?thesis unfolding Suc using assms(2-5) by (rule parse_scalar)
qed (use assms(1) in simp)

lemma value_round_trip:
  "textual j \<Longrightarrow> delimited r \<Longrightarrow> length (stringify j) \<le> n \<Longrightarrow> parse_value n (stringify j @ r) = Some (j, r)"
proof (induction j arbitrary: r n)
  case (JArr xs)
  from JArr.prems(3) obtain m where n: "n = Suc m" by (cases n) auto
  show ?case
  proof (cases "xs = []")
    case True
    with n show ?thesis by simp
  next
    case False
    have "parse_items m (commas (map stringify xs) @ CHR '']'' # r) [] = Some (JArr ([] @ xs), r)"
      using False JArr n by (intro items_round_trip) (auto simp: list_all_iff)
    moreover obtain x ys where "xs = x # ys" using False by (cases xs) auto
    moreover obtain c cs where "stringify x = c # cs" by (cases "stringify x") auto
    moreover have "\<exists>q. commas (map stringify (x # ys)) = stringify x @ q" by (cases ys) auto
    ultimately show ?thesis using n stringify_head [of x] skip_ws_stringify [of x] by (auto split: list.splits)
  qed
next
  case (JObj kvs)
  from JObj.prems(3) obtain m where n: "n = Suc m" by (cases n) auto
  show ?case
  proof (cases "kvs = []")
    case True
    with n show ?thesis by simp
  next
    case False
    let ?f = "\<lambda>(k, v). quote k @ CHR '':'' # stringify v"
    have "parse_members m (commas (map ?f kvs) @ CHR 0x7D # r) [] = Some (JObj ([] @ kvs), r)"
      using False JObj n by (intro members_round_trip) (auto simp: list_all_iff)
    moreover obtain k x ys where "kvs = (k, x) # ys" using False by (cases kvs) auto
    moreover have "\<exists>q. commas (map ?f ((k, x) # ys)) = CHR 0x22 # q" by (cases ys) (auto simp: quote_def)
    ultimately show ?thesis using n by (auto split: list.splits)
  qed
next
  case (JStr s)
  then show ?case by (intro parse_scalar') simp_all
next
  case (JNum x)
  then show ?case by (intro parse_scalar') simp_all
next
  case (JBool b)
  then show ?case by (intro parse_scalar') simp_all
next
  case JNull
  then show ?case by (intro parse_scalar') simp_all
qed

lemma JSON_round_trip:
  assumes "textual j"
  shows "JSON_parse (stringify j) = Some j"
proof -
  have "parse_value (2 * length (stringify j) + 2) (stringify j @ []) = Some (j, [])"
    by (rule value_round_trip) (simp_all add: assms del: parse_value.simps)
  then show ?thesis unfolding JSON_parse_def by (simp add: skip_ws_def del: parse_value.simps)
qed

lemma stringify_inj: "textual j \<Longrightarrow> textual k \<Longrightarrow> stringify j = stringify k \<Longrightarrow> j = k"
  by (metis JSON_round_trip option.inject)

declare parse_value.simps [simp del] parse_items.simps [simp del] parse_members.simps [simp del]

lemma parse_sample:
  "JSON_parse (''{'' @ [CHR 0x22] @ ''a'' @ [CHR 0x22] @ '': [ -12, null ] }'') =
     Some (JObj [(''a'', JArr [JNum (Finite (-12)), JNull])])"
  by code_simp

end
