(* ===== verification/Guard.thy ===== *)
theory Guard
  imports AuditTrail JsonText
begin

text \<open>
  The action guard of \<open>guard.ts\<close>: the required idempotency key, the replay of a recorded result,
  the dry run, the rate limit, and the audit of what happened. The store it keeps results in is an
  interface; the in-memory one is its model instance.
\<close>

section \<open>The store of results\<close>

record IntegrationIdempotencyRecord =
  ir_key :: string
  ir_requestHash :: string
  ir_result :: IntegrationActionResult
  ir_createdAt :: string

record 'w IntegrationIdempotencyStore =
  is_get :: "string \<Rightarrow> ('w, exn, IntegrationIdempotencyRecord option) io"
  is_put :: "IntegrationIdempotencyRecord \<Rightarrow> ('w, exn, unit) io"

record IntegrationRateLimitDecision =
  rl_allowed :: bool
  rl_retryAfterMs :: "int option"
  rl_reason :: "string option"

type_synonym 'w IntegrationRateLimiter = "IntegrationGuardContext \<Rightarrow> ('w, exn, IntegrationRateLimitDecision) io"

record InMemoryIntegrationIdempotencyStore = InMemoryIntegrationAuditStore +
  results :: "string \<Rightarrow> IntegrationIdempotencyRecord option"

definition results_get :: "string \<Rightarrow> ('a InMemoryIntegrationIdempotencyStore_scheme, exn, IntegrationIdempotencyRecord option) io" where
  [io_defs]: "results_get k w = (Inr (results w k), w)"

definition results_put :: "IntegrationIdempotencyRecord \<Rightarrow> ('a InMemoryIntegrationIdempotencyStore_scheme, exn, unit) io" where
  [io_defs]: "results_put r w = (Inr (), w\<lparr>results := (results w)(ir_key r \<mapsto> r)\<rparr>)"

definition mem_results :: "('a InMemoryIntegrationIdempotencyStore_scheme) IntegrationIdempotencyStore" where
  "mem_results = \<lparr>is_get = results_get, is_put = results_put\<rparr>"

section \<open>The guard\<close>

record 'w DefaultIntegrationActionGuard =
  dg_idempotency :: "'w IntegrationIdempotencyStore option"
  dg_audit :: "'w IntegrationAuditSink option"
  dg_rateLimiter :: "'w IntegrationRateLimiter option"
  dg_requireIdempotencyForMutations :: bool
  dg_now :: "('w, exn, int) io"

text \<open>The text of the request that is hashed.\<close>

definition request_text :: "IntegrationGuardContext \<Rightarrow> string" where
  "request_text ctx = stringify (JObj
     [(''connectionId'', JStr (conn_id (gc_connection ctx))),
      (''action'', JStr (rq_action (gc_request ctx))),
      (''input'', nullish (rq_input (gc_request ctx)) JNull),
      (''dryRun'', JBool (nullish (rq_dryRun (gc_request ctx)) False))])"

definition hashRequest :: "'w platform \<Rightarrow> IntegrationGuardContext \<Rightarrow> string" where
  "hashRequest pf ctx = pf_sha256 pf (request_text ctx)"

definition writeIdempotency :: "'w platform \<Rightarrow> 'w DefaultIntegrationActionGuard \<Rightarrow> string option \<Rightarrow> string option \<Rightarrow>
    IntegrationActionResult \<Rightarrow> ('w, exn, unit) io" where
  "writeIdempotency pf g key requestHash result =
     (case dg_idempotency g of
        None \<Rightarrow> ret ()
      | Some st \<Rightarrow>
          if \<not> truthy key \<or> \<not> truthy requestHash then ret ()
          else andThen (dg_now g) (\<lambda>n. andThen (liftE (toISO (pf_dates pf) n)) (\<lambda>t.
            is_put st \<lparr>ir_key = the key, ir_requestHash = the requestHash, ir_result = result, ir_createdAt = t\<rparr>)))"

definition is_read :: "IntegrationGuardContext \<Rightarrow> bool" where
  "is_read ctx \<longleftrightarrow> map_option act_risk (gc_action ctx) = Some risk_read"

definition refused :: "IntegrationGuardContext \<Rightarrow> metadata \<Rightarrow> IntegrationActionResult" where
  "refused ctx out = \<lparr>ar_ok = False, ar_action = rq_action (gc_request ctx), ar_output = Some (JObj out),
     ar_externalId = None, ar_warnings = None, ar_metadata = None\<rparr>"

definition replayed :: "IntegrationActionResult \<Rightarrow> IntegrationActionResult" where
  "replayed r = r\<lparr>ar_metadata := Some (spread (nullish (ar_metadata r) []) [(''idempotentReplay'', JBool True)])\<rparr>"

definition dry_result :: "IntegrationGuardContext \<Rightarrow> IntegrationActionResult" where
  "dry_result ctx = \<lparr>ar_ok = True, ar_action = rq_action (gc_request ctx),
     ar_output = Some (JObj [(''dryRun'', JBool True)]), ar_externalId = None, ar_warnings = None,
     ar_metadata = Some [(''dryRun'', JBool True)]\<rparr>"

text \<open>\<open>this.audit?.record(createIntegrationAuditEvent(...))\<close>: without a sink no event is made.\<close>

definition audit_action :: "'w platform \<Rightarrow> 'w DefaultIntegrationActionGuard \<Rightarrow> IntegrationGuardContext \<Rightarrow>
    IntegrationAuditEventType \<Rightarrow> bool \<Rightarrow> string option \<Rightarrow> metadata \<Rightarrow> ('w, exn, unit) io" where
  "audit_action pf g ctx ty ok msg meta =
     (case dg_audit g of
        None \<Rightarrow> ret ()
      | Some sink \<Rightarrow>
          andThen (createIntegrationAuditEvent pf None (AtClock (dg_now g))
              (action_draft ty (conn_owner (gc_connection ctx)) ctx (Some ok) msg meta)) sink)"

text \<open>The part after the checks: run the action, record a success, audit the outcome.\<close>

definition runAction :: "'w platform \<Rightarrow> 'w DefaultIntegrationActionGuard \<Rightarrow> IntegrationGuardContext \<Rightarrow> string option \<Rightarrow>
    ('w, exn, IntegrationActionResult) io \<Rightarrow> ('w, exn, IntegrationActionResult) io" where
  "runAction pf g ctx requestHash proceed =
     (let key = rq_idempotencyKey (gc_request ctx) in
      tryCatch
        (andThen proceed (\<lambda>result.
         andThen (if ar_ok result then writeIdempotency pf g key requestHash result else ret ()) (\<lambda>_.
         andThen (audit_action pf g ctx (if ar_ok result then action_invoked else action_failed) (ar_ok result) None
             (opt_str ''idempotencyKey'' key @ opt_str ''externalId'' (ar_externalId result) @
              opt_strs ''warnings'' (ar_warnings result)))
           (\<lambda>_. ret result))))
        (\<lambda>err.
         andThen (audit_action pf g ctx action_failed False (Some (failure_message err)) (opt_str ''idempotencyKey'' key))
           (\<lambda>_. throw err)))"

text \<open>The dry run and the rate limit, then the action.\<close>

definition guardedAction :: "'w platform \<Rightarrow> 'w DefaultIntegrationActionGuard \<Rightarrow> IntegrationGuardContext \<Rightarrow> string option \<Rightarrow>
    ('w, exn, IntegrationActionResult) io \<Rightarrow> ('w, exn, IntegrationActionResult) io" where
  "guardedAction pf g ctx requestHash proceed =
     (if rq_dryRun (gc_request ctx) = Some True \<and> \<not> is_read ctx then
        andThen (writeIdempotency pf g (rq_idempotencyKey (gc_request ctx)) requestHash (dry_result ctx))
          (\<lambda>_. ret (dry_result ctx))
      else
        andThen (case dg_rateLimiter g of None \<Rightarrow> ret None | Some check \<Rightarrow> andThen (check ctx) (\<lambda>d. ret (Some d))) (\<lambda>rateLimit.
        case rateLimit of
          None \<Rightarrow> runAction pf g ctx requestHash proceed
        | Some d \<Rightarrow>
            if \<not> rl_allowed d then
              ret (refused ctx
                ([(''rateLimited'', JBool True)] @ opt_val ''retryAfterMs'' (map_option (JNum \<circ> Finite) (rl_retryAfterMs d)) @
                 [(''message'', JStr (nullish (rl_reason d) ''Integration rate limit exceeded.''))]))
            else runAction pf g ctx requestHash proceed))"

definition invokeAction :: "'w platform \<Rightarrow> 'w DefaultIntegrationActionGuard \<Rightarrow> 'w IntegrationActionGuard" where
  "invokeAction pf g ctx proceed =
     (let idempotencyKey = rq_idempotencyKey (gc_request ctx) in
      if dg_requireIdempotencyForMutations g \<and> \<not> is_read ctx \<and> \<not> truthy idempotencyKey then
        ret (refused ctx [(''idempotencyRequired'', JBool True),
          (''message'', JStr ''State-changing integration actions require an idempotency key.'')])
      else case dg_idempotency g of
        None \<Rightarrow> guardedAction pf g ctx None proceed
      | Some st \<Rightarrow>
          if \<not> truthy idempotencyKey then guardedAction pf g ctx None proceed
          else if hashRequest pf ctx = [] then guardedAction pf g ctx (Some []) proceed
          else andThen (is_get st (the idempotencyKey)) (\<lambda>existing.
            case existing of
              None \<Rightarrow> guardedAction pf g ctx (Some (hashRequest pf ctx)) proceed
            | Some r \<Rightarrow>
                if ir_requestHash r \<noteq> hashRequest pf ctx then
                  ret (refused ctx [(''idempotencyConflict'', JBool True),
                    (''message'', JStr ''Idempotency key was reused with different integration input.'')])
                else ret (replayed (ir_result r))))"

section \<open>What a recorded result guarantees\<close>

text \<open>The contract of a store of results, against the map it represents.\<close>

locale result_store =
  fixes st :: "'w IntegrationIdempotencyStore" and holds :: "'w \<Rightarrow> string \<Rightarrow> IntegrationIdempotencyRecord option"
  assumes get_law: "is_get st k w = (Inr (holds w k), w)"
    and put_law: "is_put st r w = (x, w') \<Longrightarrow> x = Inr () \<and> holds w' = (holds w)(ir_key r \<mapsto> r)"

text \<open>Effects that leave an observation of the world alone.\<close>

definition keeps :: "('w \<Rightarrow> 's) \<Rightarrow> ('w, exn, 'a) io \<Rightarrow> bool" where
  "keeps holds m \<longleftrightarrow> moves (\<lambda>w w'. holds w' = holds w) m"

lemma keeps_rel: "reflp (\<lambda>w w'. holds w' = holds w)" "transp (\<lambda>w w'. holds w' = holds w)"
  by (auto intro!: reflpI transpI)

lemma keepsD: "keeps holds m \<Longrightarrow> m w = (r, w') \<Longrightarrow> holds w' = holds w"
  unfolding keeps_def by (drule movesD) auto

lemma keeps_pure [intro, simp]: "keeps holds (ret x)" "keeps holds (throw e)" "keeps holds (liftE q)"
  unfolding keeps_def by (rule moves_pure [OF keeps_rel(1)])+

lemma keeps_andThen [intro]: "keeps holds m \<Longrightarrow> (\<And>x. keeps holds (f x)) \<Longrightarrow> keeps holds (andThen m f)"
  unfolding keeps_def by (rule moves_andThen [OF keeps_rel(2)])

text \<open>Identifiers, a clock and an audit sink that do not touch what is observed; and the surroundings
  of a guard.\<close>

definition quiet :: "('w \<Rightarrow> 's) \<Rightarrow> 'w platform \<Rightarrow> ('w, exn, int) io \<Rightarrow> 'w IntegrationAuditSink option \<Rightarrow> bool" where
  "quiet holds pf now audit \<longleftrightarrow> keeps holds (pf_uuid pf) \<and> keeps holds now \<and>
     (case audit of None \<Rightarrow> True | Some sink \<Rightarrow> \<forall>e. keeps holds (sink e))"

definition apart :: "('w \<Rightarrow> 's) \<Rightarrow> 'w platform \<Rightarrow> 'w DefaultIntegrationActionGuard \<Rightarrow> bool" where
  "apart holds pf g \<longleftrightarrow> quiet holds pf (dg_now g) (dg_audit g)"

lemma keeps_event:
  assumes "keeps holds (pf_uuid pf)" "keeps holds now"
  shows "keeps holds (createIntegrationAuditEvent pf i (AtClock now) d)"
  using assms unfolding createIntegrationAuditEvent_def
  by (auto intro!: keeps_andThen split: option.splits)

lemma quiet_now: "quiet holds pf now audit \<Longrightarrow> now w = (r, w') \<Longrightarrow> holds w' = holds w"
  unfolding quiet_def by (blast dest: keepsD)

text \<open>Making and recording an optional event.\<close>

lemma keeps_recorded_event:
  assumes "quiet holds pf now audit"
  shows "keeps holds (case audit of None \<Rightarrow> ret () | Some sink \<Rightarrow>
     andThen (createIntegrationAuditEvent pf i (AtClock now) d) sink)"
  using assms by (auto simp: quiet_def split: option.splits intro!: keeps_andThen keeps_event)

lemma keeps_audit:
  assumes "apart holds pf g"
  shows "keeps holds (audit_action pf g ctx ty ok msg meta)"
  unfolding audit_action_def using assms by (intro keeps_recorded_event) (simp add: apart_def)

context result_store
begin

lemma written:
  assumes "writeIdempotency pf g (Some k) (Some h) r w = (Inr (), w')" "dg_idempotency g = Some st" "k \<noteq> []" "h \<noteq> []"
  shows "\<exists>c. holds w' k = Some \<lparr>ir_key = k, ir_requestHash = h, ir_result = r, ir_createdAt = c\<rparr>"
  using assms by (auto simp: writeIdempotency_def io_defs dest!: put_law split: sum.splits prod.splits)

lemma ran_and_recorded:
  assumes "runAction pf g ctx (Some h) proceed w = (Inr r, w')" "ar_ok r" "dg_idempotency g = Some st"
    "rq_idempotencyKey (gc_request ctx) = Some k" "k \<noteq> []" "h \<noteq> []" "apart holds pf g"
  shows "\<exists>c. holds w' k = Some \<lparr>ir_key = k, ir_requestHash = h, ir_result = r, ir_createdAt = c\<rparr>"
proof -
  from assms(1,2,4) obtain w1 w2 meta ty where
    w: "writeIdempotency pf g (Some k) (Some h) r w1 = (Inr (), w2)"
    and a: "audit_action pf g ctx ty True None meta w2 = (Inr (), w')"
    by (auto simp: runAction_def io_defs Let_def split: sum.splits prod.splits if_splits)
  from written [OF w assms(3,5,6)] keepsD [OF keeps_audit [OF assms(7)] a] show ?thesis by simp
qed

lemma guarded_recorded:
  assumes "guardedAction pf g ctx (Some h) proceed w = (Inr r, w')" "ar_ok r" "dg_idempotency g = Some st"
    "rq_idempotencyKey (gc_request ctx) = Some k" "k \<noteq> []" "h \<noteq> []" "apart holds pf g"
  shows "\<exists>c. holds w' k = Some \<lparr>ir_key = k, ir_requestHash = h, ir_result = r, ir_createdAt = c\<rparr>"
proof (cases "rq_dryRun (gc_request ctx) = Some True \<and> \<not> is_read ctx")
  case True
  with assms(1,4) have "writeIdempotency pf g (Some k) (Some h) r w = (Inr (), w')"
    by (auto simp: guardedAction_def io_defs split: sum.splits prod.splits)
  from written [OF this assms(3,5,6)] show ?thesis .
next
  case False
  with assms(1,2) obtain w1 where "runAction pf g ctx (Some h) proceed w1 = (Inr r, w')"
    by (auto simp: guardedAction_def io_defs refused_def split: sum.splits prod.splits option.splits if_splits)
  from ran_and_recorded [OF this assms(2-7)] show ?thesis .
qed

lemma replayed_result:
  assumes "holds w k = Some rec" "ir_requestHash rec = hashRequest pf ctx" "dg_idempotency g = Some st"
    "rq_idempotencyKey (gc_request ctx) = Some k" "k \<noteq> []" "hashRequest pf ctx \<noteq> []"
  shows "invokeAction pf g ctx proceed w = (Inr (replayed (ir_result rec)), w)"
  using assms by (simp add: invokeAction_def Let_def io_defs get_law)

lemma conflicting_request:
  assumes "holds w k = Some rec" "ir_requestHash rec \<noteq> hashRequest pf ctx" "dg_idempotency g = Some st"
    "rq_idempotencyKey (gc_request ctx) = Some k" "k \<noteq> []" "hashRequest pf ctx \<noteq> []"
  shows "\<exists>r. invokeAction pf g ctx proceed w = (Inr r, w) \<and> \<not> ar_ok r"
  using assms by (simp add: invokeAction_def Let_def io_defs get_law refused_def)

end

lemma replayed_twice [simp]: "replayed (replayed r) = replayed r"
proof -
  have "AList.update k v (AList.update k v m) = AList.update k v m" for k and v :: json and m
    by (induction m) auto
  then show ?thesis by (simp add: replayed_def spread_def)
qed

lemma replayed_ok [simp]: "ar_ok (replayed r) = ar_ok r"
  by (simp add: replayed_def)

context result_store
begin

lemma success_is_recorded:
  assumes "invokeAction pf g ctx proceed w = (Inr r, w')" "ar_ok r" "dg_idempotency g = Some st"
    "rq_idempotencyKey (gc_request ctx) = Some k" "k \<noteq> []" "hashRequest pf ctx \<noteq> []" "apart holds pf g"
  shows "\<exists>rec. holds w' k = Some rec \<and> ir_requestHash rec = hashRequest pf ctx \<and> replayed (ir_result rec) = replayed r"
proof (cases "holds w k")
  case None
  with assms have "guardedAction pf g ctx (Some (hashRequest pf ctx)) proceed w = (Inr r, w')"
    by (simp add: invokeAction_def Let_def io_defs get_law)
  from guarded_recorded [OF this assms(2-7)] show ?thesis by fastforce
next
  case (Some rec)
  show ?thesis
  proof (cases "ir_requestHash rec = hashRequest pf ctx")
    case True
    from replayed_result [OF Some True assms(3-6), of proceed] assms(1) Some True show ?thesis by auto
  next
    case False
    from conflicting_request [OF Some False assms(3-6), of proceed] assms(1,2) show ?thesis by auto
  qed
qed

text \<open>A request whose first run succeeded is answered from the record ever after.\<close>

lemma repeated_request:
  assumes "invokeAction pf g ctx proceed w = (Inr r, w1)" "ar_ok r" "dg_idempotency g = Some st"
    "rq_idempotencyKey (gc_request ctx) = Some k" "k \<noteq> []" "hashRequest pf ctx \<noteq> []" "apart holds pf g"
    "holds w2 k = holds w1 k" "rq_idempotencyKey (gc_request ctx') = Some k"
  shows "hashRequest pf ctx' = hashRequest pf ctx \<Longrightarrow> invokeAction pf g ctx' proceed' w2 = (Inr (replayed r), w2)"
    and "hashRequest pf ctx' \<noteq> hashRequest pf ctx \<Longrightarrow> hashRequest pf ctx' \<noteq> [] \<Longrightarrow>
      \<exists>x. invokeAction pf g ctx' proceed' w2 = (Inr x, w2) \<and> \<not> ar_ok x"
proof -
  from success_is_recorded [OF assms(1-7)] assms(8) obtain rec where
    rec: "holds w2 k = Some rec" "ir_requestHash rec = hashRequest pf ctx" "replayed (ir_result rec) = replayed r" by auto
  show "hashRequest pf ctx' = hashRequest pf ctx \<Longrightarrow> invokeAction pf g ctx' proceed' w2 = (Inr (replayed r), w2)"
    using replayed_result [OF rec(1) _ assms(3,9,5)] rec(2,3) assms(6) by simp
  show "hashRequest pf ctx' \<noteq> hashRequest pf ctx \<Longrightarrow> hashRequest pf ctx' \<noteq> [] \<Longrightarrow>
      \<exists>x. invokeAction pf g ctx' proceed' w2 = (Inr x, w2) \<and> \<not> ar_ok x"
    using conflicting_request [OF rec(1) _ assms(3,9,5)] rec(2) by simp
qed

end

interpretation results: result_store "mem_results :: 'a InMemoryIntegrationIdempotencyStore_scheme IntegrationIdempotencyStore" results
  by unfold_locales (auto simp: mem_results_def io_defs)

text \<open>What the hashed text tells apart.\<close>

lemma request_text_eq:
  assumes "request_text c = request_text c'"
    "textual (nullish (rq_input (gc_request c)) JNull)" "textual (nullish (rq_input (gc_request c')) JNull)"
  shows "conn_id (gc_connection c) = conn_id (gc_connection c') \<and> rq_action (gc_request c) = rq_action (gc_request c') \<and>
     nullish (rq_input (gc_request c)) JNull = nullish (rq_input (gc_request c')) JNull \<and>
     nullish (rq_dryRun (gc_request c)) False = nullish (rq_dryRun (gc_request c')) False"
proof -
  have "stringify a = stringify b \<Longrightarrow> textual a \<Longrightarrow> textual b \<Longrightarrow> a = b" for a b by (rule stringify_inj)
  from this [OF assms(1) [unfolded request_text_def]] assms(2,3) show ?thesis by simp
qed

section \<open>Properties\<close>

text \<open>Two requests are the same request of an action when these parts of them agree.\<close>

definition same_request :: "IntegrationGuardContext \<Rightarrow> IntegrationGuardContext \<Rightarrow> bool" where
  "same_request c c' \<longleftrightarrow> conn_id (gc_connection c) = conn_id (gc_connection c') \<and>
     rq_action (gc_request c) = rq_action (gc_request c') \<and>
     nullish (rq_input (gc_request c)) JNull = nullish (rq_input (gc_request c')) JNull \<and>
     nullish (rq_dryRun (gc_request c)) False = nullish (rq_dryRun (gc_request c')) False"

text \<open>C19. Once an action has succeeded under an idempotency key, every later request with that key is
  answered without running anything: the same request by the recorded result, marked as a replay,
  and a request that differs in its connection, action, input or dry-run flag by a refusal. The
  digest is only asked not to be empty and not to collide on the two requests.\<close>

theorem recorded_success_is_replayed:
  assumes "invokeAction pf g ctx proceed w = (Inr r, w1)" "ar_ok r"
    and "dg_idempotency g = Some mem_results" "apart results pf g"
    and "rq_idempotencyKey (gc_request ctx) = Some k" "rq_idempotencyKey (gc_request ctx') = Some k" "k \<noteq> []"
    and "results w2 k = results w1 k"
    and "hashRequest pf ctx \<noteq> []" "hashRequest pf ctx' \<noteq> []"
    and "hashRequest pf ctx = hashRequest pf ctx' \<Longrightarrow> request_text ctx = request_text ctx'"
    and "textual (nullish (rq_input (gc_request ctx)) JNull)" "textual (nullish (rq_input (gc_request ctx')) JNull)"
  shows "if same_request ctx ctx' then invokeAction pf g ctx' proceed' w2 = (Inr (replayed r), w2)
     else (\<exists>x. invokeAction pf g ctx' proceed' w2 = (Inr x, w2) \<and> \<not> ar_ok x)"
proof (cases "same_request ctx ctx'")
  case True
  then have "hashRequest pf ctx' = hashRequest pf ctx"
    by (simp add: same_request_def hashRequest_def request_text_def)
  with True results.repeated_request(1) [OF assms(1-3,5,7,9,4,8,6)] show ?thesis by simp
next
  case False
  have "hashRequest pf ctx' \<noteq> hashRequest pf ctx"
    using assms(11-13) False request_text_eq [of ctx ctx'] by (auto simp: same_request_def)
  with False assms(10) results.repeated_request(2) [OF assms(1-3,5,7,9,4,8,6)] show ?thesis by simp
qed

text \<open>When the action has succeeded and only the audit of the success fails, the guard records the
  action as failed and throws, although the success stays recorded under its key.\<close>

theorem failed_audit_reports_failure:
  assumes "dg_idempotency g = Some mem_results" "dg_rateLimiter g = None" "rq_dryRun (gc_request ctx) \<noteq> Some True"
    and "rq_idempotencyKey (gc_request ctx) = Some k" "k \<noteq> []" "hashRequest pf ctx \<noteq> []" "results w k = None"
    and "proceed w = (Inr r, w1)" "ar_ok r"
    and "writeIdempotency pf g (Some k) (Some (hashRequest pf ctx)) r w1 = (Inr (), w2)"
    and "audit_action pf g ctx action_invoked True None
        (opt_str ''idempotencyKey'' (Some k) @ opt_str ''externalId'' (ar_externalId r) @ opt_strs ''warnings'' (ar_warnings r))
        w2 = (Inl err, w3)"
    and "audit_action pf g ctx action_failed False (Some (failure_message err)) (opt_str ''idempotencyKey'' (Some k))
        w3 = (Inr (), w4)"
    and "apart results pf g"
  shows "invokeAction pf g ctx proceed w = (Inl err, w4) \<and>
     (\<exists>rec. results w4 k = Some rec \<and> ir_result rec = r)"
proof -
  have inv: "invokeAction pf g ctx proceed w = (Inl err, w4)"
    using assms(1-12)
    by (simp add: invokeAction_def guardedAction_def runAction_def Let_def io_defs mem_results_def)
  obtain c where "results w2 k = Some \<lparr>ir_key = k, ir_requestHash = hashRequest pf ctx, ir_result = r, ir_createdAt = c\<rparr>"
    using results.written [OF assms(10,1,5,6)] by blast
  moreover have "results w3 = results w2" using keepsD [OF keeps_audit [OF assms(13)] assms(11)] .
  moreover have "results w4 = results w3" using keepsD [OF keeps_audit [OF assms(13)] assms(12)] .
  ultimately show ?thesis using inv by auto
qed

section \<open>Concrete inputs\<close>

definition gx_dates :: date_api where
  "gx_dates = \<lparr>Date_parse = (\<lambda>s. case number_value s of Some (JNum (Finite n), []) \<Rightarrow> Some n | _ \<Rightarrow> None),
     iso_text = int_text\<rparr>"

lemma gx_dates_ok: "date_api_ok gx_dates"
  using number_value_int_text [of "[]"] by (simp add: date_api_ok_def gx_dates_def)

definition gx_platform :: "('a host_scheme) platform" where
  "gx_platform = \<lparr>pf_uuid = randomUUID, pf_dates = gx_dates, pf_sha256 = (\<lambda>t. CHR ''h'' # t)\<rparr>"

definition gx_guard :: "('a InMemoryIntegrationIdempotencyStore_scheme) DefaultIntegrationActionGuard" where
  "gx_guard = \<lparr>dg_idempotency = Some mem_results, dg_audit = Some audit_record, dg_rateLimiter = None,
     dg_requireIdempotencyForMutations = True, dg_now = date_now\<rparr>"

lemma gx_sha256: "pf_sha256 gx_platform t = CHR ''h'' # t"
  by (simp add: gx_platform_def)

lemma gx_guard_store: "dg_idempotency gx_guard = Some mem_results"
  by (simp add: gx_guard_def)

lemma gx_apart: "apart results gx_platform gx_guard"
  by (simp add: apart_def quiet_def gx_platform_def gx_guard_def keeps_def moves_def io_defs)

definition gx_world :: InMemoryIntegrationIdempotencyStore where
  "gx_world = \<lparr>clock = (\<lambda>n. int n), clock_reads = 0, uuids = (\<lambda>n. decimal n), uuids_drawn = 0,
     audit_events = [], results = Map.empty\<rparr>"

definition gx_actor :: IntegrationActor where
  "gx_actor = \<lparr>actor_type = actor_user, actor_id = ''u1''\<rparr>"

definition gx_connection :: IntegrationConnection where
  "gx_connection = \<lparr>conn_id = ''c1'', conn_owner = gx_actor, conn_providerId = ''p1'', conn_connectorId = ''mail'',
     conn_status = cs_active, conn_grantedScopes = [''send''], conn_account = None, conn_secretRef = None,
     conn_createdAt = [], conn_updatedAt = [], conn_expiresAt = None, conn_lastUsedAt = None, conn_metadata = None\<rparr>"

definition gx_request :: "string \<Rightarrow> IntegrationActionRequest" where
  "gx_request body = \<lparr>rq_connectionId = ''c1'', rq_action = ''send'', rq_input = Some (JStr body),
     rq_idempotencyKey = Some ''k1'', rq_dryRun = None, rq_metadata = None\<rparr>"

definition gx_action :: IntegrationConnectorAction where
  "gx_action = \<lparr>act_id = ''send'', act_title = ''Send'', act_risk = risk_write, act_requiredScopes = [''send''],
     act_dataClass = dc_private, act_consistencyModel = None, act_description = None, act_approvalRequired = None,
     act_inputPreview = None, act_inputSchema = None, act_outputSchema = None\<rparr>"

definition gx_context :: "string \<Rightarrow> IntegrationGuardContext" where
  "gx_context body = \<lparr>gc_connection = gx_connection, gc_request = gx_request body, gc_action = Some gx_action\<rparr>"

definition gx_sent :: IntegrationActionResult where
  "gx_sent = \<lparr>ar_ok = True, ar_action = ''send'', ar_output = None, ar_externalId = Some ''m1'', ar_warnings = None,
     ar_metadata = None\<rparr>"

lemma gx_first_run:
  "\<exists>w1. invokeAction gx_platform gx_guard (gx_context ''hi'') (ret gx_sent) gx_world = (Inr gx_sent, w1)"
  by (simp add: invokeAction_def guardedAction_def runAction_def writeIdempotency_def audit_action_def
      createIntegrationAuditEvent_def Let_def io_defs gx_platform_def gx_guard_def gx_context_def gx_request_def
      gx_sent_def gx_world_def gx_dates_def mem_results_def hashRequest_def is_read_def gx_action_def toISO_def max_date_def)

theorem recorded_success_is_replayed_witness:
  "\<exists>w1. invokeAction gx_platform gx_guard (gx_context ''hi'') (ret gx_sent) gx_world = (Inr gx_sent, w1) \<and>
     invokeAction gx_platform gx_guard (gx_context ''hi'') (throw (Error ''unreachable'')) w1 = (Inr (replayed gx_sent), w1) \<and>
     (\<exists>x. invokeAction gx_platform gx_guard (gx_context ''ho'') (throw (Error ''unreachable'')) w1 = (Inr x, w1) \<and> \<not> ar_ok x)"
proof -
  obtain w1 where run: "invokeAction gx_platform gx_guard (gx_context ''hi'') (ret gx_sent) gx_world = (Inr gx_sent, w1)"
    using gx_first_run by blast
  have "if same_request (gx_context ''hi'') (gx_context b)
     then invokeAction gx_platform gx_guard (gx_context b) (throw (Error ''unreachable'')) w1 = (Inr (replayed gx_sent), w1)
     else (\<exists>x. invokeAction gx_platform gx_guard (gx_context b) (throw (Error ''unreachable'')) w1 = (Inr x, w1) \<and> \<not> ar_ok x)" for b
    by (rule recorded_success_is_replayed [OF run, where k = "''k1''"])
      (simp_all add: gx_sent_def gx_apart gx_context_def gx_request_def hashRequest_def gx_sha256 gx_guard_store)
  from this [of "''hi''"] this [of "''ho''"] run show ?thesis
    by (simp add: same_request_def gx_context_def gx_request_def)
qed

text \<open>A sink that refuses the events of successful actions.\<close>

definition gx_picky :: "('a InMemoryIntegrationAuditStore_scheme) IntegrationAuditSink" where
  "gx_picky e = (if ae_type e = action_invoked then throw (Error ''audit down'') else audit_record e)"

definition gx_picky_guard :: "('a InMemoryIntegrationIdempotencyStore_scheme) DefaultIntegrationActionGuard" where
  "gx_picky_guard = gx_guard\<lparr>dg_audit := Some gx_picky\<rparr>"

lemma gx_picky_apart: "apart results gx_platform gx_picky_guard"
  by (simp add: apart_def quiet_def gx_platform_def gx_picky_guard_def gx_guard_def gx_picky_def keeps_def moves_def io_defs)

lemmas gx_run = audit_action_def createIntegrationAuditEvent_def io_defs gx_platform_def gx_picky_guard_def gx_guard_def
  gx_picky_def gx_context_def gx_request_def gx_sent_def gx_world_def gx_dates_def toISO_def max_date_def
  writeIdempotency_def hashRequest_def mem_results_def action_draft_def

theorem failed_audit_reports_failure_witness:
  "\<exists>w4. invokeAction gx_platform gx_picky_guard (gx_context ''hi'') (ret gx_sent) gx_world = (Inl (Error ''audit down''), w4) \<and>
     (\<exists>rec. results w4 ''k1'' = Some rec \<and> ir_result rec = gx_sent)"
proof -
  let ?pf = "gx_platform :: InMemoryIntegrationIdempotencyStore platform"
  obtain w2 where w2: "writeIdempotency ?pf gx_picky_guard (Some ''k1'')
      (Some (hashRequest ?pf (gx_context ''hi''))) gx_sent gx_world = (Inr (), w2)"
    by (simp add: gx_run)
  then have c2: "\<bar>clock w2 (clock_reads w2)\<bar> \<le> max_date" "\<bar>clock w2 (Suc (clock_reads w2))\<bar> \<le> max_date"
    by (auto simp: gx_run)
  obtain w3 where w3: "audit_action ?pf gx_picky_guard (gx_context ''hi'') action_invoked True None
      (opt_str ''idempotencyKey'' (Some ''k1'') @ opt_str ''externalId'' (ar_externalId gx_sent) @
       opt_strs ''warnings'' (ar_warnings gx_sent)) w2 = (Inl (Error ''audit down''), w3)" "clock w3 = clock w2"
      "clock_reads w3 = Suc (clock_reads w2)"
    using c2 by (simp add: gx_run)
  obtain w4 where w4: "audit_action ?pf gx_picky_guard (gx_context ''hi'') action_failed False
      (Some (failure_message (Error ''audit down''))) (opt_str ''idempotencyKey'' (Some ''k1'')) w3 = (Inr (), w4)"
    using c2 w3(2,3) by (simp add: gx_run)
  have "invokeAction ?pf gx_picky_guard (gx_context ''hi'') (ret gx_sent) gx_world = (Inl (Error ''audit down''), w4) \<and>
     (\<exists>rec. results w4 ''k1'' = Some rec \<and> ir_result rec = gx_sent)"
    by (rule failed_audit_reports_failure [where k = "''k1''" and ?w2.0 = w2 and ?w3.0 = w3 and ?w1.0 = gx_world])
      (rule w2 w3(1) w4 gx_picky_apart | simp add: gx_run)+
  then show ?thesis by blast
qed

end
