(* ===== verification/Policy.thy ===== *)
theory Policy
  imports Guard
begin

text \<open>
  Deciding whether an action may run: the rule-based engine of \<open>policy.ts\<close> and the engine of
  \<open>approval.ts\<close> that lets an approved request through. The approval store is an interface with
  the in-memory store as its instance.
\<close>

section \<open>The static engine\<close>

datatype IntegrationPolicyEffect = effect_allow | effect_require_approval | effect_deny

record IntegrationPolicyRule =
  rule_id :: string
  rule_effect :: IntegrationPolicyEffect
  rule_reason :: string
  rule_providerId :: "string option"
  rule_connectorId :: "string option"
  rule_action :: "string option"
  rule_maxRisk :: "IntegrationActionRisk option"
  rule_risk :: "IntegrationActionRisk option"
  rule_dataClass :: "IntegrationDataClass option"

record 'w StaticIntegrationPolicyEngine =
  sp_rules :: "IntegrationPolicyRule list"
  sp_defaultReadEffect :: IntegrationPolicyEffect
  sp_defaultWriteEffect :: IntegrationPolicyEffect
  sp_defaultDestructiveEffect :: IntegrationPolicyEffect
  sp_now :: "('w, exn, int) io"

text \<open>The constructor, with its defaults.\<close>

definition newStaticPolicy :: "IntegrationPolicyRule list option \<Rightarrow> IntegrationPolicyEffect option \<Rightarrow>
    IntegrationPolicyEffect option \<Rightarrow> IntegrationPolicyEffect option \<Rightarrow> ('w, exn, int) io \<Rightarrow> 'w StaticIntegrationPolicyEngine" where
  "newStaticPolicy rules rd wr ds now = \<lparr>sp_rules = nullish rules [],
     sp_defaultReadEffect = nullish rd effect_allow,
     sp_defaultWriteEffect = nullish wr effect_require_approval,
     sp_defaultDestructiveEffect = nullish ds effect_deny, sp_now = now\<rparr>"

definition createDefaultIntegrationPolicyEngine :: "IntegrationPolicyEffect option \<Rightarrow> IntegrationPolicyEffect option \<Rightarrow>
    IntegrationPolicyEffect option \<Rightarrow> ('w, exn, int) io \<Rightarrow> 'w StaticIntegrationPolicyEngine" where
  "createDefaultIntegrationPolicyEngine rd wr ds now = newStaticPolicy None rd wr ds now"

fun riskRank :: "IntegrationActionRisk \<Rightarrow> nat" where
  "riskRank risk_read = 0"
| "riskRank risk_write = 1"
| "riskRank risk_destructive = 2"

fun risk_name :: "IntegrationActionRisk \<Rightarrow> string" where
  "risk_name risk_read = ''read''"
| "risk_name risk_write = ''write''"
| "risk_name risk_destructive = ''destructive''"

definition ruleMatches :: "IntegrationPolicyRule \<Rightarrow> IntegrationGuardContext \<Rightarrow> bool" where
  "ruleMatches rule ctx =
     (case gc_action ctx of
        None \<Rightarrow> False
      | Some a \<Rightarrow>
          if truthy (rule_providerId rule) \<and> rule_providerId rule \<noteq> Some (conn_providerId (gc_connection ctx)) then False
          else if truthy (rule_connectorId rule) \<and> rule_connectorId rule \<noteq> Some (conn_connectorId (gc_connection ctx)) then False
          else if truthy (rule_action rule) \<and> rule_action rule \<noteq> Some (rq_action (gc_request ctx)) then False
          else if rule_risk rule \<noteq> None \<and> rule_risk rule \<noteq> Some (act_risk a) then False
          else if (case rule_maxRisk rule of None \<Rightarrow> False | Some m \<Rightarrow> riskRank (act_risk a) > riskRank m) then False
          else if rule_dataClass rule \<noteq> None \<and> rule_dataClass rule \<noteq> Some (act_dataClass a) then False
          else True)"

fun defaultEffect :: "'w StaticIntegrationPolicyEngine \<Rightarrow> IntegrationActionRisk \<Rightarrow> IntegrationPolicyEffect" where
  "defaultEffect e risk_read = sp_defaultReadEffect e"
| "defaultEffect e risk_write = sp_defaultWriteEffect e"
| "defaultEffect e risk_destructive = sp_defaultDestructiveEffect e"

fun defaultReason :: "IntegrationPolicyEffect \<Rightarrow> IntegrationActionRisk \<Rightarrow> string" where
  "defaultReason effect_allow r = risk_name r @ '' integration action allowed by default policy.''"
| "defaultReason effect_deny r = risk_name r @ '' integration action denied by default policy.''"
| "defaultReason effect_require_approval r = risk_name r @ '' integration action requires approval by default policy.''"

definition buildApprovalRequest :: "'w platform \<Rightarrow> IntegrationGuardContext \<Rightarrow> IntegrationActor \<Rightarrow> string \<Rightarrow> int \<Rightarrow>
    ('w, exn, IntegrationApprovalRequest) io" where
  "buildApprovalRequest pf ctx subject reason requestedAt =
     (case gc_action ctx of
        None \<Rightarrow> throw (Error ''Cannot build approval request without an action descriptor.'')
      | Some a \<Rightarrow>
          andThen (pf_uuid pf) (\<lambda>u.
          andThen (liftE (toISO (pf_dates pf) requestedAt)) (\<lambda>t.
          ret \<lparr>ap_id = ''approval_'' @ u, ap_connectionId = conn_id (gc_connection ctx),
            ap_providerId = conn_providerId (gc_connection ctx), ap_connectorId = conn_connectorId (gc_connection ctx),
            ap_action = rq_action (gc_request ctx), ap_actor = subject, ap_risk = act_risk a,
            ap_dataClass = act_dataClass a, ap_reason = reason, ap_requestedAt = t,
            ap_inputPreview = projectInputPreview (act_inputPreview a) (rq_input (gc_request ctx)),
            ap_metadata = None\<rparr>)))"

definition static_decide :: "'w platform \<Rightarrow> 'w StaticIntegrationPolicyEngine \<Rightarrow> 'w IntegrationPolicyEngine" where
  "static_decide pf e ctx subject =
     (case gc_action ctx of
        None \<Rightarrow> ret (Deny ''Integration action is missing from connector catalog.'' None)
      | Some a \<Rightarrow>
          (let matched = find (\<lambda>r. ruleMatches r ctx) (sp_rules e);
               eff = (case matched of Some r \<Rightarrow> rule_effect r | None \<Rightarrow> defaultEffect e (act_risk a));
               reason = (case matched of Some r \<Rightarrow> rule_reason r | None \<Rightarrow> defaultReason eff (act_risk a));
               meta = map_option (\<lambda>r. [(''ruleId'', JStr (rule_id r))]) matched
           in case eff of
                effect_allow \<Rightarrow> ret (Allow reason meta)
              | effect_deny \<Rightarrow> ret (Deny reason meta)
              | effect_require_approval \<Rightarrow>
                  andThen (sp_now e) (\<lambda>n.
                  andThen (buildApprovalRequest pf ctx subject reason n) (\<lambda>ap. ret (RequireApproval reason ap meta)))))"

section \<open>Approvals\<close>

datatype IntegrationApprovalStatus = ap_pending | ap_approved | ap_denied | ap_expired

fun approval_status_name :: "IntegrationApprovalStatus \<Rightarrow> string" where
  "approval_status_name ap_pending = ''pending''"
| "approval_status_name ap_approved = ''approved''"
| "approval_status_name ap_denied = ''denied''"
| "approval_status_name ap_expired = ''expired''"

record IntegrationApprovalRecord =
  apr_id :: string
  apr_request :: IntegrationApprovalRequest
  apr_status :: IntegrationApprovalStatus
  apr_requestedAt :: string
  apr_resolvedAt :: "string option"
  apr_resolvedBy :: "IntegrationActor option"
  apr_reason :: "string option"
  apr_expiresAt :: "string option"
  apr_metadata :: "metadata option"

record IntegrationApprovalFilter =
  apf_status :: "IntegrationApprovalStatus option"
  apf_connectionId :: "string option"
  apf_connectorId :: "string option"
  apf_action :: "string option"
  apf_actor :: "IntegrationActor option"

record 'w IntegrationApprovalStore =
  aps_get :: "string \<Rightarrow> ('w, exn, IntegrationApprovalRecord option) io"
  aps_put :: "IntegrationApprovalRecord \<Rightarrow> ('w, exn, unit) io"

definition approval_matchesFilter :: "IntegrationApprovalRecord \<Rightarrow> IntegrationApprovalFilter \<Rightarrow> bool" where
  "approval_matchesFilter r f =
     (if apf_status f \<noteq> None \<and> apf_status f \<noteq> Some (apr_status r) then False
      else if \<not> passes (apf_connectionId f) (Some (ap_connectionId (apr_request r))) then False
      else if \<not> passes (apf_connectorId f) (Some (ap_connectorId (apr_request r))) then False
      else if \<not> passes (apf_action f) (Some (ap_action (apr_request r))) then False
      else if apf_actor f \<noteq> None \<and> apf_actor f \<noteq> Some (ap_actor (apr_request r)) then False
      else True)"

record InMemoryIntegrationApprovalStore = InMemoryIntegrationIdempotencyStore +
  approvals :: "(string \<times> IntegrationApprovalRecord) list"

definition approval_get :: "string \<Rightarrow> ('a InMemoryIntegrationApprovalStore_scheme, exn, IntegrationApprovalRecord option) io" where
  [io_defs]: "approval_get k w = (Inr (map_of (approvals w) k), w)"

definition approval_put :: "IntegrationApprovalRecord \<Rightarrow> ('a InMemoryIntegrationApprovalStore_scheme, exn, unit) io" where
  [io_defs]: "approval_put r w = (Inr (), w\<lparr>approvals := AList.update (apr_id r) r (approvals w)\<rparr>)"

definition approval_list :: "IntegrationApprovalFilter \<Rightarrow> ('a InMemoryIntegrationApprovalStore_scheme, exn, IntegrationApprovalRecord list) io" where
  [io_defs]: "approval_list f w = (Inr (filter (\<lambda>r. approval_matchesFilter r f) (map snd (approvals w))), w)"

definition mem_approvals :: "('a InMemoryIntegrationApprovalStore_scheme) IntegrationApprovalStore" where
  "mem_approvals = \<lparr>aps_get = approval_get, aps_put = approval_put\<rparr>"

subsection \<open>The approval-backed engine\<close>

record 'w ApprovalBackedPolicyEngine =
  ab_base :: "'w IntegrationPolicyEngine"
  ab_store :: "'w IntegrationApprovalStore"
  ab_audit :: "'w IntegrationAuditSink option"
  ab_now :: "('w, exn, int) io"
  ab_approvalTtlMs :: "int option"

definition approvalInputHash :: "'w platform \<Rightarrow> json option \<Rightarrow> string" where
  "approvalInputHash pf input = pf_sha256 pf (stringify (nullish input JNull))"

definition meta_field :: "metadata option \<Rightarrow> string \<Rightarrow> json option" where
  "meta_field m k = (case m of None \<Rightarrow> None | Some kvs \<Rightarrow> map_of kvs k)"

definition approvalMatches :: "'w platform \<Rightarrow> IntegrationApprovalRecord \<Rightarrow> IntegrationGuardContext \<Rightarrow> IntegrationActor \<Rightarrow> bool" where
  "approvalMatches pf r ctx subject \<longleftrightarrow>
     ap_connectionId (apr_request r) = conn_id (gc_connection ctx) \<and>
     ap_providerId (apr_request r) = conn_providerId (gc_connection ctx) \<and>
     ap_connectorId (apr_request r) = conn_connectorId (gc_connection ctx) \<and>
     ap_action (apr_request r) = rq_action (gc_request ctx) \<and>
     actor_type (ap_actor (apr_request r)) = actor_type subject \<and>
     actor_id (ap_actor (apr_request r)) = actor_id subject \<and>
     meta_field (apr_metadata r) ''inputHash'' = Some (JStr (approvalInputHash pf (rq_input (gc_request ctx))))"

text \<open>\<open>request.metadata?.approvalId\<close>, when it is a string.\<close>

definition findApprovedRecord :: "'w platform \<Rightarrow> 'w ApprovalBackedPolicyEngine \<Rightarrow> IntegrationGuardContext \<Rightarrow> IntegrationActor \<Rightarrow>
    ('w, exn, IntegrationApprovalRecord option) io" where
  "findApprovedRecord pf e ctx subject =
     (let approvalId = as_string (meta_field (rq_metadata (gc_request ctx)) ''approvalId'') in
      if \<not> truthy approvalId then ret None
      else andThen (aps_get (ab_store e) (the approvalId)) (\<lambda>found.
        case found of
          None \<Rightarrow> ret None
        | Some r \<Rightarrow>
            if apr_status r \<noteq> ap_approved then ret None
            else andThen (if truthy (apr_expiresAt r)
                then andThen (ab_now e) (\<lambda>n. ret (parsed_by (pf_dates pf) (the (apr_expiresAt r)) n)) else ret False) (\<lambda>expired.
              if expired then andThen (aps_put (ab_store e) (r\<lparr>apr_status := ap_expired\<rparr>)) (\<lambda>_. ret None)
              else if approvalMatches pf r ctx subject then ret (Some r) else ret None)))"

fun actor_type_name :: "actor_type \<Rightarrow> string" where
  "actor_type_name actor_user = ''user''"
| "actor_type_name actor_team = ''team''"
| "actor_type_name actor_app = ''app''"
| "actor_type_name actor_agent = ''agent''"
| "actor_type_name actor_sandbox = ''sandbox''"
| "actor_type_name actor_system = ''system''"

definition approved_reason :: "IntegrationApprovalRecord \<Rightarrow> string" where
  "approved_reason r = ''Approved by '' @
     (case apr_resolvedBy r of None \<Rightarrow> ''actor unknown'' | Some a \<Rightarrow> actor_type_name (actor_type a) @ '' '' @ actor_id a) @ ''.''"

text \<open>The record of a new approval, and its expiry: \<open>Date.parse(requestedAt) + approvalTtlMs\<close>, an
  error when that is no date.\<close>

definition approval_expiry :: "'w platform \<Rightarrow> int option \<Rightarrow> string \<Rightarrow> exn + string option" where
  "approval_expiry pf ttl requestedAt =
     (case ttl of
        None \<Rightarrow> Inr None
      | Some t \<Rightarrow>
          if t = 0 then Inr None
          else case Date_parse (pf_dates pf) requestedAt of
            None \<Rightarrow> Inl (Error ''Invalid time value'')
          | Some n \<Rightarrow> (case toISO (pf_dates pf) (n + t) of Inl err \<Rightarrow> Inl err | Inr x \<Rightarrow> Inr (Some x)))"

definition recordApproval :: "'w platform \<Rightarrow> 'w ApprovalBackedPolicyEngine \<Rightarrow> IntegrationGuardContext \<Rightarrow> IntegrationActor \<Rightarrow>
    string \<Rightarrow> IntegrationApprovalRequest \<Rightarrow> metadata option \<Rightarrow> ('w, exn, unit) io" where
  "recordApproval pf e ctx subject reason ap meta =
     andThen (liftE (approval_expiry pf (ab_approvalTtlMs e) (ap_requestedAt ap))) (\<lambda>expiry.
     andThen (aps_put (ab_store e)
       \<lparr>apr_id = ap_id ap, apr_request = ap, apr_status = ap_pending, apr_requestedAt = ap_requestedAt ap,
        apr_resolvedAt = None, apr_resolvedBy = None, apr_reason = None, apr_expiresAt = expiry,
        apr_metadata = Some (spread (nullish meta []) [(''inputHash'', JStr (approvalInputHash pf (rq_input (gc_request ctx))))])\<rparr>) (\<lambda>_.
     case ab_audit e of
       None \<Rightarrow> ret ()
     | Some sink \<Rightarrow>
         andThen (createIntegrationAuditEvent pf None (AtClock (ab_now e))
           (action_draft approval_requested subject ctx None (Some reason) [(''approvalId'', JStr (ap_id ap))])) sink))"

definition approval_decide :: "'w platform \<Rightarrow> 'w ApprovalBackedPolicyEngine \<Rightarrow> 'w IntegrationPolicyEngine" where
  "approval_decide pf e ctx subject =
     andThen (findApprovedRecord pf e ctx subject) (\<lambda>approved.
     case approved of
       Some r \<Rightarrow> ret (Allow (approved_reason r) (Some [(''approvalId'', JStr (apr_id r))]))
     | None \<Rightarrow>
         andThen (ab_base e ctx subject) (\<lambda>decision.
         case decision of
           RequireApproval reason ap meta \<Rightarrow>
             andThen (recordApproval pf e ctx subject reason ap meta) (\<lambda>_. ret decision)
         | _ \<Rightarrow> ret decision))"

subsection \<open>Resolving an approval\<close>

record 'w ResolveInput =
  ri_store :: "'w IntegrationApprovalStore"
  ri_approvalId :: string
  ri_approved :: bool
  ri_resolvedBy :: IntegrationActor
  ri_reason :: "string option"
  ri_metadata :: "metadata option"
  ri_audit :: "'w IntegrationAuditSink option"
  ri_now :: "('w, exn, int) io"

definition resolved_record :: "'w ResolveInput \<Rightarrow> IntegrationApprovalRecord \<Rightarrow> string \<Rightarrow> IntegrationApprovalRecord" where
  "resolved_record i r t = r\<lparr>apr_status := (if ri_approved i then ap_approved else ap_denied),
     apr_resolvedAt := Some t, apr_resolvedBy := Some (ri_resolvedBy i), apr_reason := ri_reason i,
     apr_metadata := Some (spread (nullish (apr_metadata r) []) (nullish (ri_metadata i) []))\<rparr>"

definition resolved_event :: "'w ResolveInput \<Rightarrow> IntegrationApprovalRecord \<Rightarrow> IntegrationApprovalStatus \<Rightarrow> IntegrationAuditEvent" where
  "resolved_event i r st =
     (let q = apr_request r in
      \<lparr>ae_id = [], ae_type = approval_resolved, ae_occurredAt = [], ae_actor = Some (ri_resolvedBy i),
       ae_connectionId = Some (ap_connectionId q), ae_providerId = Some (ap_providerId q),
       ae_connectorId = Some (ap_connectorId q), ae_action = Some (ap_action q), ae_risk = Some (ap_risk q),
       ae_dataClass = Some (ap_dataClass q), ae_ok = Some (ri_approved i), ae_message = ri_reason i,
       ae_metadata = Some [(''approvalId'', JStr (apr_id r)), (''status'', JStr (approval_status_name st))]\<rparr>)"

definition resolveIntegrationApproval :: "'w platform \<Rightarrow> 'w ResolveInput \<Rightarrow> ('w, exn, IntegrationApprovalRecord) io" where
  "resolveIntegrationApproval pf i =
     andThen (aps_get (ri_store i) (ri_approvalId i)) (\<lambda>found.
     case found of
       None \<Rightarrow> throw (Error (''Approval '' @ ri_approvalId i @ '' not found.''))
     | Some r \<Rightarrow>
         andThen (ri_now i) (\<lambda>n.
         andThen (liftE (toISO (pf_dates pf) n)) (\<lambda>t.
         let new = resolved_record i r t in
         andThen (aps_put (ri_store i) new) (\<lambda>_.
         andThen (case ri_audit i of
             None \<Rightarrow> ret ()
           | Some sink \<Rightarrow>
               andThen (createIntegrationAuditEvent pf None (AtClock (ri_now i)) (resolved_event i r (apr_status new))) sink)
           (\<lambda>_. ret new)))))"

section \<open>What an approval covers\<close>

text \<open>The contract of an approval store, against the map it represents.\<close>

locale approval_store =
  fixes st :: "'w IntegrationApprovalStore" and recs :: "'w \<Rightarrow> string \<Rightarrow> IntegrationApprovalRecord option"
  assumes get_law: "aps_get st k w = (Inr (recs w k), w)"
    and put_law: "aps_put st r w = (x, w') \<Longrightarrow> x = Inr () \<and> recs w' = (recs w)(apr_id r \<mapsto> r)"

context approval_store
begin

lemma found_record:
  assumes "findApprovedRecord pf e ctx subject w = (Inr (Some r), w')" "ab_store e = st"
  shows "\<exists>k. meta_field (rq_metadata (gc_request ctx)) ''approvalId'' = Some (JStr k) \<and> recs w k = Some r \<and>
     apr_status r = ap_approved \<and> approvalMatches pf r ctx subject \<and>
     (truthy (apr_expiresAt r) \<longrightarrow> (\<exists>n. ab_now e w = (Inr n, w') \<and> \<not> parsed_by (pf_dates pf) (the (apr_expiresAt r)) n))"
proof -
  from assms(1) have "truthy (as_string (meta_field (rq_metadata (gc_request ctx)) ''approvalId''))"
    by (auto simp: findApprovedRecord_def Let_def io_defs split: if_splits)
  then obtain k where k: "meta_field (rq_metadata (gc_request ctx)) ''approvalId'' = Some (JStr k)" "k \<noteq> []"
    by (cases "meta_field (rq_metadata (gc_request ctx)) ''approvalId''" rule: as_string.cases) auto
  with assms show ?thesis
    by (auto simp: findApprovedRecord_def io_defs get_law split: if_splits option.splits sum.splits prod.splits)
qed

lemma allowed_by_record:
  assumes "approval_decide pf e ctx subject w = (Inr (Allow reason m), w')" "ab_store e = st"
    "\<And>w1 b meta w2. ab_base e ctx subject w1 \<noteq> (Inr (Allow b meta), w2)"
  shows "\<exists>k r. meta_field (rq_metadata (gc_request ctx)) ''approvalId'' = Some (JStr k) \<and> recs w k = Some r \<and>
     apr_status r = ap_approved \<and> approvalMatches pf r ctx subject \<and>
     (truthy (apr_expiresAt r) \<longrightarrow> (\<exists>n. ab_now e w = (Inr n, w') \<and> \<not> parsed_by (pf_dates pf) (the (apr_expiresAt r)) n))"
proof -
  from assms(1,3) obtain r where "findApprovedRecord pf e ctx subject w = (Inr (Some r), w')"
    by (auto simp: approval_decide_def io_defs split: sum.splits prod.splits option.splits IntegrationPolicyDecision.splits)
  from found_record [OF this assms(2)] show ?thesis by blast
qed

text \<open>A matching approved record that has not expired lets the request through.\<close>

lemma approved_goes_through:
  assumes "ab_store e = st" "meta_field (rq_metadata (gc_request ctx)) ''approvalId'' = Some (JStr k)" "k \<noteq> []"
    "recs w k = Some r" "apr_status r = ap_approved" "approvalMatches pf r ctx subject"
    "if truthy (apr_expiresAt r) then ab_now e w = (Inr n, w') \<and> \<not> parsed_by (pf_dates pf) (the (apr_expiresAt r)) n
     else w' = w"
  shows "approval_decide pf e ctx subject w = (Inr (Allow (approved_reason r) (Some [(''approvalId'', JStr (apr_id r))])), w')"
  using assms by (auto simp: approval_decide_def findApprovedRecord_def io_defs get_law Let_def split: if_splits)

text \<open>What a request for approval leaves in the store.\<close>

lemma approval_is_recorded:
  assumes "approval_decide pf e ctx subject w = (Inr (RequireApproval reason ap meta), w')" "ab_store e = st"
    "quiet recs pf (ab_now e) (ab_audit e)"
  shows "\<exists>r. recs w' (ap_id ap) = Some r \<and> apr_id r = ap_id ap \<and> apr_request r = ap \<and> apr_status r = ap_pending \<and>
     approval_expiry pf (ab_approvalTtlMs e) (ap_requestedAt ap) = Inr (apr_expiresAt r) \<and>
     meta_field (apr_metadata r) ''inputHash'' = Some (JStr (approvalInputHash pf (rq_input (gc_request ctx))))"
proof -
  from assms(1) obtain w1 where rec: "recordApproval pf e ctx subject reason ap meta w1 = (Inr (), w')"
    by (auto simp: approval_decide_def io_defs split: sum.splits prod.splits option.splits IntegrationPolicyDecision.splits)
  let ?r = "\<lambda>x. \<lparr>apr_id = ap_id ap, apr_request = ap, apr_status = ap_pending, apr_requestedAt = ap_requestedAt ap,
        apr_resolvedAt = None, apr_resolvedBy = None, apr_reason = None, apr_expiresAt = x,
        apr_metadata = Some (spread (nullish meta []) [(''inputHash'', JStr (approvalInputHash pf (rq_input (gc_request ctx))))])\<rparr>"
  from rec assms(2) obtain x w2 where x: "approval_expiry pf (ab_approvalTtlMs e) (ap_requestedAt ap) = Inr x"
    and p: "aps_put st (?r x) w1 = (Inr (), w2)"
    and a: "(case ab_audit e of None \<Rightarrow> ret () | Some sink \<Rightarrow>
         andThen (createIntegrationAuditEvent pf None (AtClock (ab_now e))
           (action_draft approval_requested subject ctx None (Some reason) [(''approvalId'', JStr (ap_id ap))])) sink) w2 = (Inr (), w')"
    by (auto simp: recordApproval_def io_defs split: sum.splits prod.splits)
  have "keeps recs (case ab_audit e of None \<Rightarrow> ret () | Some sink \<Rightarrow>
         andThen (createIntegrationAuditEvent pf None (AtClock (ab_now e))
           (action_draft approval_requested subject ctx None (Some reason) [(''approvalId'', JStr (ap_id ap))])) sink)"
    by (rule keeps_recorded_event [OF assms(3)])
  from keepsD [OF this a] have "recs w' = recs w2" .
  moreover have "recs w2 (ap_id ap) = Some (?r x)" using put_law [OF p] by simp
  moreover have "meta_field (apr_metadata (?r x)) ''inputHash'' = Some (JStr (approvalInputHash pf (rq_input (gc_request ctx))))"
    by (simp add: meta_field_def spread_lookup)
  ultimately show ?thesis using x by auto
qed

lemma resolution_is_recorded:
  assumes "resolveIntegrationApproval pf i w = (Inr r', w')" "ri_store i = st"
    "quiet recs pf (ri_now i) (ri_audit i)"
  shows "\<exists>r t. recs w (ri_approvalId i) = Some r \<and> r' = resolved_record i r t \<and> recs w' = (recs w)(apr_id r \<mapsto> r')"
proof -
  from assms(1,2) obtain r n w1 t w2 where r: "recs w (ri_approvalId i) = Some r" and n: "ri_now i w = (Inr n, w1)"
    and t: "r' = resolved_record i r t" and p: "aps_put st r' w1 = (Inr (), w2)"
    and a: "(case ri_audit i of None \<Rightarrow> ret () | Some sink \<Rightarrow>
        andThen (createIntegrationAuditEvent pf None (AtClock (ri_now i)) (resolved_event i r (apr_status r'))) sink) w2 = (Inr (), w')"
    by (auto simp: resolveIntegrationApproval_def io_defs get_law Let_def split: sum.splits prod.splits option.splits)
  have "keeps recs (case ri_audit i of None \<Rightarrow> ret () | Some sink \<Rightarrow>
        andThen (createIntegrationAuditEvent pf None (AtClock (ri_now i)) (resolved_event i r (apr_status r'))) sink)"
    by (rule keeps_recorded_event [OF assms(3)])
  from keepsD [OF this a] have "recs w' = recs w2" .
  moreover have "recs w1 = recs w" using assms(3) n by (rule quiet_now)
  moreover have "apr_id r' = apr_id r" by (simp add: t resolved_record_def)
  ultimately show ?thesis using r t put_law [OF p] by auto
qed

end

interpretation memory_approvals: approval_store
  "mem_approvals :: 'a InMemoryIntegrationApprovalStore_scheme IntegrationApprovalStore" "\<lambda>w. map_of (approvals w)"
  by unfold_locales (auto simp: mem_approvals_def io_defs update_conv')

section \<open>Properties\<close>

lemma static_decide_allows:
  assumes "static_decide pf e ctx subject w = (Inr (Allow reason meta), w')"
  obtains a where "gc_action ctx = Some a"
    "(case find (\<lambda>r. ruleMatches r ctx) (sp_rules e) of Some r \<Rightarrow> rule_effect r | None \<Rightarrow> defaultEffect e (act_risk a)) = effect_allow"
    "w' = w"
  using assms
  by (auto simp: static_decide_def io_defs Let_def buildApprovalRequest_def
      split: option.splits IntegrationPolicyEffect.splits sum.splits prod.splits)

text \<open>The static engine allows an action without asking only when the first rule that matches it
  says so, or when no rule matches and the default for its risk says so; with the default engine
  that leaves the known actions that only read.\<close>

theorem static_policy_allows_by_first_match:
  assumes "static_decide pf e ctx subject w = (Inr (Allow reason meta), w')"
  shows "(\<exists>pre r post. sp_rules e = pre @ r # post \<and> ruleMatches r ctx \<and> rule_effect r = effect_allow \<and>
        (\<forall>q \<in> set pre. \<not> ruleMatches q ctx)) \<or>
     ((\<forall>q \<in> set (sp_rules e). \<not> ruleMatches q ctx) \<and>
        (\<exists>a. gc_action ctx = Some a \<and> defaultEffect e (act_risk a) = effect_allow \<and>
          (e = createDefaultIntegrationPolicyEngine None None None now \<longrightarrow> act_risk a = risk_read)))"
proof -
  from assms obtain a where a: "gc_action ctx = Some a"
    "(case find (\<lambda>r. ruleMatches r ctx) (sp_rules e) of Some r \<Rightarrow> rule_effect r | None \<Rightarrow> defaultEffect e (act_risk a)) = effect_allow"
    by (rule static_decide_allows)
  show ?thesis
  proof (cases "find (\<lambda>r. ruleMatches r ctx) (sp_rules e)")
    case (Some r)
    then obtain i where i: "i < length (sp_rules e)" "ruleMatches (sp_rules e ! i) ctx" "r = sp_rules e ! i"
      "\<And>j. j < i \<Longrightarrow> \<not> ruleMatches (sp_rules e ! j) ctx"
      by (auto simp: find_Some_iff)
    then have "sp_rules e = take i (sp_rules e) @ r # drop (Suc i) (sp_rules e)" by (simp add: id_take_nth_drop)
    moreover have "\<forall>q \<in> set (take i (sp_rules e)). \<not> ruleMatches q ctx" using i by (auto simp: in_set_conv_nth)
    moreover have "rule_effect r = effect_allow" "ruleMatches r ctx" using i Some a by auto
    ultimately show ?thesis by blast
  next
    case None
    have "act_risk a = risk_read" if "e = createDefaultIntegrationPolicyEngine None None None now"
      using None a that by (cases "act_risk a") (auto simp: createDefaultIntegrationPolicyEngine_def newStaticPolicy_def)
    moreover have "\<forall>q \<in> set (sp_rules e). \<not> ruleMatches q ctx"
      using None by (simp add: find_None_iff)
    moreover have "defaultEffect e (act_risk a) = effect_allow"
      using a(2) by (simp add: None)
    ultimately show ?thesis using a(1) by blast
  qed
qed

text \<open>The history of an approval: a run of the engine asked for the approval \<open>ap\<close> of the request \<open>ctx0\<close>,
  the record stayed as it was until \<open>resolveIntegrationApproval\<close> decided it (without giving metadata of
  the name \<open>inputHash\<close>), and \<open>r\<close> is the record it left.\<close>

definition asked_and_resolved :: "'a InMemoryIntegrationApprovalStore_scheme platform \<Rightarrow>
    'a InMemoryIntegrationApprovalStore_scheme ApprovalBackedPolicyEngine \<Rightarrow>
    'a InMemoryIntegrationApprovalStore_scheme ResolveInput \<Rightarrow> IntegrationGuardContext \<Rightarrow> IntegrationApprovalRequest \<Rightarrow>
    IntegrationApprovalRecord \<Rightarrow> bool" where
  "asked_and_resolved pf e i ctx0 ap r \<longleftrightarrow>
     (\<exists>subject0 w0 x y w1 w2 w3. approval_decide pf e ctx0 subject0 w0 = (Inr (RequireApproval x ap y), w1) \<and>
        map_of (approvals w2) (ap_id ap) = map_of (approvals w1) (ap_id ap) \<and>
        resolveIntegrationApproval pf i w2 = (Inr r, w3) \<and> ri_store i = mem_approvals \<and> ri_approvalId i = ap_id ap \<and>
        meta_field (ri_metadata i) ''inputHash'' = None) \<and>
     ab_store e = mem_approvals \<and>
     quiet (\<lambda>w. map_of (approvals w)) pf (ab_now e) (ab_audit e) \<and>
     quiet (\<lambda>w. map_of (approvals w)) pf (ri_now i) (ri_audit i)"

lemma no_such_field: "meta_field m k = None \<Longrightarrow> map_of (rev (nullish m [])) k = None"
  by (cases m) (auto simp: meta_field_def map_of_eq_None_iff)

lemma asked_and_resolved_record:
  assumes "asked_and_resolved pf e i ctx0 ap r"
  shows "apr_request r = ap" "apr_status r = (if ri_approved i then ap_approved else ap_denied)"
    "meta_field (apr_metadata r) ''inputHash'' = Some (JStr (pf_sha256 pf (stringify (nullish (rq_input (gc_request ctx0)) JNull))))"
proof -
  from assms obtain subject0 w0 x y w1 w2 w3 where
    run: "approval_decide pf e ctx0 subject0 w0 = (Inr (RequireApproval x ap y), w1)"
      "map_of (approvals w2) (ap_id ap) = map_of (approvals w1) (ap_id ap)"
      "resolveIntegrationApproval pf i w2 = (Inr r, w3)" "ri_store i = mem_approvals" "ri_approvalId i = ap_id ap"
      "meta_field (ri_metadata i) ''inputHash'' = None"
    and e: "ab_store e = mem_approvals" "quiet (\<lambda>w. map_of (approvals w)) pf (ab_now e) (ab_audit e)"
      "quiet (\<lambda>w. map_of (approvals w)) pf (ri_now i) (ri_audit i)"
    unfolding asked_and_resolved_def by blast
  from memory_approvals.approval_is_recorded [OF run(1) e(1,2)] run(2) obtain r0 where
    r0: "map_of (approvals w2) (ap_id ap) = Some r0" "apr_request r0 = ap"
      "meta_field (apr_metadata r0) ''inputHash'' = Some (JStr (approvalInputHash pf (rq_input (gc_request ctx0))))" by auto
  from memory_approvals.resolution_is_recorded [OF run(3,4) e(3)] r0(1) run(5) obtain t where
    r: "r = resolved_record i r0 t" by auto
  have "meta_field (apr_metadata r) ''inputHash'' = meta_field (apr_metadata r0) ''inputHash''"
    using r0(3) no_such_field [OF run(6)]
    by (auto simp: r resolved_record_def meta_field_def spread_lookup map_add_def split: option.splits)
  with r0(3) show "meta_field (apr_metadata r) ''inputHash'' =
      Some (JStr (pf_sha256 pf (stringify (nullish (rq_input (gc_request ctx0)) JNull))))"
    by (simp add: approvalInputHash_def)
  show "apr_request r = ap" "apr_status r = (if ri_approved i then ap_approved else ap_denied)"
    using r0(2) by (simp_all add: r resolved_record_def)
qed

text \<open>C20. Over a base engine that never allows this request by itself, the approval-backed engine allows
  it only for an approved record whose identifier the request carries. The record was made for the
  same connection, provider, connector, action and actor, and it keeps the hash of the very input the
  request has; when it has an expiry that is a date, the clock of the engine is before it. And when
  that record is what a run that asked for approval and its resolution left, then it was resolved
  with a yes, and the input the approval was asked for has the hash of the input that is now let
  through: a refusal, or an approval of anything else, never lets a request through.\<close>

theorem approval_covers_only_its_request:
  assumes "approval_decide pf e ctx subject w = (Inr (Allow reason m), w')" "ab_store e = mem_approvals"
    and "\<And>w1 b meta w2. ab_base e ctx subject w1 \<noteq> (Inr (Allow b meta), w2)"
  shows "\<exists>k r. meta_field (rq_metadata (gc_request ctx)) ''approvalId'' = Some (JStr k) \<and> map_of (approvals w) k = Some r \<and>
     apr_status r = ap_approved \<and>
     ap_connectionId (apr_request r) = conn_id (gc_connection ctx) \<and>
     ap_providerId (apr_request r) = conn_providerId (gc_connection ctx) \<and>
     ap_connectorId (apr_request r) = conn_connectorId (gc_connection ctx) \<and>
     ap_action (apr_request r) = rq_action (gc_request ctx) \<and>
     actor_type (ap_actor (apr_request r)) = actor_type subject \<and> actor_id (ap_actor (apr_request r)) = actor_id subject \<and>
     meta_field (apr_metadata r) ''inputHash'' =
       Some (JStr (pf_sha256 pf (stringify (case rq_input (gc_request ctx) of None \<Rightarrow> JNull | Some v \<Rightarrow> v)))) \<and>
     (\<forall>x. apr_expiresAt r = Some x \<and> x \<noteq> [] \<longrightarrow>
        (\<exists>n. ab_now e w = (Inr n, w') \<and> (\<forall>t. Date_parse (pf_dates pf) x = Some t \<longrightarrow> n < t))) \<and>
     (\<forall>e0 i ctx0 ap. asked_and_resolved pf e0 i ctx0 ap r \<longrightarrow> ri_approved i \<and> apr_request r = ap \<and>
        pf_sha256 pf (stringify (nullish (rq_input (gc_request ctx0)) JNull)) =
        pf_sha256 pf (stringify (nullish (rq_input (gc_request ctx)) JNull)))"
proof -
  obtain k r where k: "meta_field (rq_metadata (gc_request ctx)) ''approvalId'' = Some (JStr k)" "map_of (approvals w) k = Some r"
    and r: "apr_status r = ap_approved" "approvalMatches pf r ctx subject"
    and t: "truthy (apr_expiresAt r) \<longrightarrow> (\<exists>n. ab_now e w = (Inr n, w') \<and> \<not> parsed_by (pf_dates pf) (the (apr_expiresAt r)) n)"
    using memory_approvals.allowed_by_record [OF assms] by blast
  have fresh: "\<forall>x. apr_expiresAt r = Some x \<and> x \<noteq> [] \<longrightarrow>
      (\<exists>n. ab_now e w = (Inr n, w') \<and> (\<forall>t. Date_parse (pf_dates pf) x = Some t \<longrightarrow> n < t))"
    using t by (auto simp: truthy_def parsed_by_def)
  have hash: "meta_field (apr_metadata r) ''inputHash'' =
      Some (JStr (pf_sha256 pf (stringify (case rq_input (gc_request ctx) of None \<Rightarrow> JNull | Some v \<Rightarrow> v))))"
    using r(2) by (cases "rq_input (gc_request ctx)") (simp_all add: approvalMatches_def approvalInputHash_def)
  have "ri_approved i \<and> apr_request r = ap \<and> pf_sha256 pf (stringify (nullish (rq_input (gc_request ctx0)) JNull)) =
      pf_sha256 pf (stringify (nullish (rq_input (gc_request ctx)) JNull))"
    if "asked_and_resolved pf e0 i ctx0 ap r" for e0 i ctx0 ap
    using asked_and_resolved_record [OF that] r(1) hash
    by (cases "rq_input (gc_request ctx)") (auto split: if_splits)
  with k r fresh hash show ?thesis by (auto simp: approvalMatches_def)
qed

text \<open>C21. An approval works: a request that was put up for approval, approved later without changing its
  metadata, and repeated with the identifier of the approval before it expires, is allowed; and the
  record is still there afterwards, so it is allowed again.\<close>

theorem approved_request_is_allowed:
  assumes "approval_decide pf e ctx subject w = (Inr (RequireApproval reason ap meta), w1)" "ab_store e = mem_approvals"
    and "ap_connectionId ap = conn_id (gc_connection ctx)" "ap_providerId ap = conn_providerId (gc_connection ctx)"
      "ap_connectorId ap = conn_connectorId (gc_connection ctx)" "ap_action ap = rq_action (gc_request ctx)" "ap_actor ap = subject"
    and "quiet (\<lambda>w. map_of (approvals w)) pf (ab_now e) (ab_audit e)" "quiet (\<lambda>w. map_of (approvals w)) pf (ri_now i) (ri_audit i)"
    and "map_of (approvals w2) (ap_id ap) = map_of (approvals w1) (ap_id ap)"
    and "resolveIntegrationApproval pf i w2 = (Inr r', w3)" "ri_store i = mem_approvals" "ri_approvalId i = ap_id ap"
      "ri_approved i" "ri_metadata i = None"
    and "gc_connection ctx' = gc_connection ctx" "rq_action (gc_request ctx') = rq_action (gc_request ctx)"
      "rq_input (gc_request ctx') = rq_input (gc_request ctx)"
      "meta_field (rq_metadata (gc_request ctx')) ''approvalId'' = Some (JStr (ap_id ap))" "ap_id ap \<noteq> []"
    and "map_of (approvals w4) (ap_id ap) = map_of (approvals w3) (ap_id ap)"
    and "ab_now e w4 = (Inr n, w5)" "truthy (apr_expiresAt r') \<Longrightarrow> \<not> parsed_by (pf_dates pf) (the (apr_expiresAt r')) n"
  shows "\<exists>x m w6. approval_decide pf e ctx' subject w4 = (Inr (Allow x m), w6) \<and>
     map_of (approvals w6) (ap_id ap) = Some r'"
proof -
  from memory_approvals.approval_is_recorded [OF assms(1,2,8)] assms(10) obtain r where
    r: "map_of (approvals w2) (ap_id ap) = Some r" "apr_id r = ap_id ap" "apr_request r = ap"
      "meta_field (apr_metadata r) ''inputHash'' = Some (JStr (approvalInputHash pf (rq_input (gc_request ctx))))" by auto
  from memory_approvals.resolution_is_recorded [OF assms(11,12,9)] r(1,2) assms(13) obtain t where
    r': "r' = resolved_record i r t" and w3: "map_of (approvals w3) (ap_id ap) = Some r'" by auto
  have m: "meta_field (apr_metadata r') ''inputHash'' = meta_field (apr_metadata r) ''inputHash''"
    using r(4) by (auto simp: r' resolved_record_def assms(15) meta_field_def spread_def split: option.splits)
  have mt: "approvalMatches pf r' ctx' subject"
    using m r(3,4) assms(3-7,16-18) by (simp add: approvalMatches_def r' resolved_record_def)
  let ?w = "if truthy (apr_expiresAt r') then w5 else w4"
  have "approval_decide pf e ctx' subject w4 = (Inr (Allow (approved_reason r') (Some [(''approvalId'', JStr (apr_id r'))])), ?w)"
    by (rule memory_approvals.approved_goes_through [OF assms(2,19,20) _ _ mt])
      (use w3 assms(14,21-23) in \<open>auto simp: r' resolved_record_def\<close>)
  moreover have "map_of (approvals w5) = map_of (approvals w4)" using assms(8,22) by (rule quiet_now)
  ultimately show ?thesis using w3 assms(21) by auto
qed

section \<open>Concrete inputs\<close>

definition px_world :: InMemoryIntegrationApprovalStore where
  "px_world = \<lparr>clock = (\<lambda>n. int n), clock_reads = 0, uuids = (\<lambda>n. decimal n), uuids_drawn = 0,
     audit_events = [], results = Map.empty, approvals = []\<rparr>"

definition px_static :: "InMemoryIntegrationApprovalStore StaticIntegrationPolicyEngine" where
  "px_static = createDefaultIntegrationPolicyEngine None None None date_now"

abbreviation px_pf :: "InMemoryIntegrationApprovalStore platform" where
  "px_pf \<equiv> gx_platform"

definition px_engine :: "InMemoryIntegrationApprovalStore ApprovalBackedPolicyEngine" where
  "px_engine = \<lparr>ab_base = static_decide px_pf px_static, ab_store = mem_approvals, ab_audit = Some audit_record,
     ab_now = date_now, ab_approvalTtlMs = Some 1000\<rparr>"

definition px_read :: IntegrationGuardContext where
  "px_read = (gx_context ''hi'')\<lparr>gc_action := Some (gx_action\<lparr>act_risk := risk_read\<rparr>)\<rparr>"

definition px_again :: IntegrationGuardContext where
  "px_again = (gx_context ''hi'')\<lparr>gc_request := (gx_request ''hi'')\<lparr>rq_metadata := Some [(''approvalId'', JStr ''approval_0'')]\<rparr>\<rparr>"

definition px_resolve :: "InMemoryIntegrationApprovalStore ResolveInput" where
  "px_resolve = \<lparr>ri_store = mem_approvals, ri_approvalId = ''approval_0'', ri_approved = True, ri_resolvedBy = gx_actor,
     ri_reason = None, ri_metadata = None, ri_audit = None, ri_now = date_now\<rparr>"

lemmas px_run = px_static_def px_engine_def px_read_def px_again_def px_resolve_def px_world_def
  createDefaultIntegrationPolicyEngine_def newStaticPolicy_def static_decide_def approval_decide_def recordApproval_def
  findApprovedRecord_def buildApprovalRequest_def resolveIntegrationApproval_def createIntegrationAuditEvent_def
  gx_context_def gx_request_def gx_action_def gx_connection_def gx_platform_def gx_dates_def meta_field_def
  mem_approvals_def approval_expiry_def toISO_def max_date_def io_defs Let_def

theorem static_policy_allows_by_first_match_witness:
  "(\<exists>x m. static_decide px_pf px_static px_read gx_actor px_world = (Inr (Allow x m), px_world)) \<and>
   (\<exists>a. gc_action px_read = Some a \<and> act_risk a = risk_read)"
proof -
  have run: "static_decide px_pf px_static px_read gx_actor px_world =
      (Inr (Allow (defaultReason effect_allow risk_read) None), px_world)"
    by (simp add: px_run)
  from static_policy_allows_by_first_match [OF run, of date_now] show ?thesis
    using run by (auto simp: px_static_def createDefaultIntegrationPolicyEngine_def newStaticPolicy_def)
qed

lemma px_number: "number_value (int_text n) = Some (JNum (Finite n), [])"
  using number_value_int_text [of "[]" n] by simp

lemma px_zero: "decimal 0 = ''0''"
  by code_simp

lemma px_first: "\<exists>x ap m w1. approval_decide px_pf px_engine (gx_context ''hi'') gx_actor px_world = (Inr (RequireApproval x ap m), w1) \<and>
    ap_id ap = ''approval_0'' \<and> ap_connectionId ap = ''c1'' \<and> ap_providerId ap = ''p1'' \<and> ap_connectorId ap = ''mail'' \<and>
    ap_action ap = ''send'' \<and> ap_actor ap = gx_actor \<and> clock w1 = int \<and> clock_reads w1 = 2 \<and>
    (\<exists>r. map_of (approvals w1) ''approval_0'' = Some r \<and> apr_id r = ''approval_0'' \<and> apr_expiresAt r = Some (int_text 1000))"
  by (simp add: px_run px_number action_draft_def px_zero)

lemma px_resolved:
  assumes "map_of (approvals w) ''approval_0'' = Some r" "apr_id r = ''approval_0''" "clock w = int"
    "clock_reads w \<le> 100"
  shows "\<exists>r' w3. resolveIntegrationApproval px_pf px_resolve w = (Inr r', w3) \<and> apr_expiresAt r' = apr_expiresAt r \<and>
     clock w3 = int \<and> clock_reads w3 = Suc (clock_reads w) \<and> map_of (approvals w3) ''approval_0'' = Some r'"
  using assms by (simp add: px_run update_conv' resolved_record_def resolved_event_def)

lemma px_quiet: "quiet (\<lambda>w. map_of (approvals w)) px_pf (ab_now px_engine) (ab_audit px_engine)"
  "quiet (\<lambda>w. map_of (approvals w)) px_pf (ri_now px_resolve) (ri_audit px_resolve)"
  by (simp_all add: quiet_def keeps_def moves_def px_engine_def px_resolve_def gx_platform_def io_defs)

theorem approved_request_is_allowed_witness:
  "\<exists>w4 x m w6. approval_decide px_pf px_engine px_again gx_actor w4 = (Inr (Allow x m), w6)"
proof -
  obtain x ap m w1 r where first: "approval_decide px_pf px_engine (gx_context ''hi'') gx_actor px_world = (Inr (RequireApproval x ap m), w1)"
    and ap: "ap_id ap = ''approval_0''" "ap_connectionId ap = ''c1''" "ap_providerId ap = ''p1''" "ap_connectorId ap = ''mail''"
      "ap_action ap = ''send''" "ap_actor ap = gx_actor"
    and w1: "clock w1 = int" "clock_reads w1 = 2" "map_of (approvals w1) ''approval_0'' = Some r" "apr_id r = ''approval_0''"
      "apr_expiresAt r = Some (int_text 1000)"
    using px_first by blast
  obtain r' w3 where res: "resolveIntegrationApproval px_pf px_resolve w1 = (Inr r', w3)" "apr_expiresAt r' = Some (int_text 1000)"
      "clock w3 = int" "clock_reads w3 = 3"
    using px_resolved [OF w1(3,4,1)] w1(2,5) by auto
  have now: "ab_now px_engine w3 = (Inr 3, w3\<lparr>clock_reads := 4\<rparr>)"
    using res(3,4) by (simp add: px_engine_def date_now_def)
  have "\<exists>x m w6. approval_decide px_pf px_engine px_again gx_actor w3 = (Inr (Allow x m), w6) \<and>
     map_of (approvals w6) (ap_id ap) = Some r'"
    by (rule approved_request_is_allowed [OF first _ _ _ _ _ _ px_quiet refl res(1) _ _ _ _ _ _ _ _ _ refl now])
      (simp_all add: ap res(2) px_engine_def px_resolve_def px_again_def gx_context_def gx_request_def gx_connection_def
        meta_field_def parsed_by_def gx_platform_def gx_dates_def px_number)
  then show ?thesis by blast
qed

definition px_approved :: IntegrationApprovalRecord where
  "px_approved = \<lparr>apr_id = ''approval_0'', apr_request = \<lparr>ap_id = ''approval_0'', ap_connectionId = ''c1'', ap_providerId = ''p1'',
       ap_connectorId = ''mail'', ap_action = ''send'', ap_actor = gx_actor, ap_risk = risk_write, ap_dataClass = dc_private,
       ap_reason = [], ap_requestedAt = [], ap_inputPreview = None, ap_metadata = None\<rparr>,
     apr_status = ap_approved, apr_requestedAt = [], apr_resolvedAt = None, apr_resolvedBy = None, apr_reason = None,
     apr_expiresAt = None, apr_metadata = Some [(''inputHash'', JStr (approvalInputHash px_pf (Some (JStr ''hi''))))]\<rparr>"

lemma px_store: "ab_store px_engine = mem_approvals"
  by (simp add: px_engine_def)

theorem approval_covers_only_its_request_witness:
  "\<exists>(w :: InMemoryIntegrationApprovalStore) k r. meta_field (rq_metadata (gc_request px_again)) ''approvalId'' = Some (JStr k) \<and>
     map_of (approvals w) k = Some r \<and> apr_status r = ap_approved \<and> ap_action (apr_request r) = ''send'' \<and>
     meta_field (apr_metadata r) ''inputHash'' = Some (JStr (pf_sha256 px_pf (stringify (JStr ''hi''))))"
proof -
  let ?w = "px_world\<lparr>approvals := [(''approval_0'', px_approved)]\<rparr>"
  have run: "approval_decide px_pf px_engine px_again gx_actor ?w =
      (Inr (Allow (approved_reason px_approved) (Some [(''approvalId'', JStr (apr_id px_approved))])), ?w)"
    by (rule memory_approvals.approved_goes_through [where k = "''approval_0''" and n = 0])
      (simp_all add: px_engine_def px_again_def px_approved_def gx_context_def gx_request_def gx_connection_def
        meta_field_def approvalMatches_def)
  have never: "ab_base px_engine px_again gx_actor w1 \<noteq> (Inr (Allow b meta), w2)" for w1 b meta w2
    by (auto simp: px_engine_def px_again_def px_static_def createDefaultIntegrationPolicyEngine_def newStaticPolicy_def
        gx_context_def gx_action_def elim!: static_decide_allows)
  have req: "rq_input (gc_request px_again) = Some (JStr ''hi'')" "rq_action (gc_request px_again) = ''send''"
    by (simp_all add: px_again_def gx_request_def)
  from approval_covers_only_its_request [OF run px_store never] show ?thesis unfolding req option.case by blast
qed

end
