(* ===== verification/Base64.thy ===== *)
theory Base64
  imports Prelude "HOL-Library.Word"
begin

text \<open>
  The URL-safe base64 codecs: \<open>base64.ts\<close>, the byte encoder of \<open>web-crypto.ts\<close>, and the two
  \<open>Buffer\<close> conversions the hub signs its tokens with. Bytes are words of eight bits and the
  shifts and masks are those of the code; no shift leaves the byte.

  A text has a UTF-8 form over the characters of the model, which are those below 256. Bytes that
  decode to other characters, or to the replacement character, denote no text of the model, and
  decoding them gives \<open>None\<close>, as does the exception of \<open>atob\<close>.
\<close>

unbundle bit_operations_syntax

type_synonym byte = "8 word"

section \<open>Encoding\<close>

definition BASE64_ALPHABET :: string where
  "BASE64_ALPHABET = ''ABCDEFGHIJKLMNOPQRSTUVWXYZabcdefghijklmnopqrstuvwxyz0123456789+/''"

definition alphabet_at :: "byte \<Rightarrow> char" where
  "alphabet_at w = BASE64_ALPHABET ! unat w"

text \<open>The loop over groups of three bytes, padding included; \<open>btoa\<close> computes the same text.\<close>

fun base64_groups :: "byte list \<Rightarrow> string" where
  "base64_groups [] = []"
| "base64_groups [x] =
     [alphabet_at (drop_bit 2 x), alphabet_at (push_bit 4 (x AND 3)), CHR ''='', CHR ''='']"
| "base64_groups [x, y] =
     [alphabet_at (drop_bit 2 x), alphabet_at (push_bit 4 (x AND 3) OR drop_bit 4 y),
      alphabet_at (push_bit 2 (y AND 15)), CHR ''='']"
| "base64_groups (x # y # z # bs) =
     [alphabet_at (drop_bit 2 x), alphabet_at (push_bit 4 (x AND 3) OR drop_bit 4 y),
      alphabet_at (push_bit 2 (y AND 15) OR drop_bit 6 z), alphabet_at (z AND 63)] @ base64_groups bs"

text \<open>\<open>.replace(/\+/g, '-').replace(/\//g, '_').replace(/=+$/g, '')\<close>.\<close>

definition url_char :: "char \<Rightarrow> char" where
  "url_char c = (if c = CHR ''+'' then CHR ''-'' else if c = CHR ''/'' then CHR ''_'' else c)"

definition strip_padding :: "string \<Rightarrow> string" where
  "strip_padding s = rev (dropWhile (\<lambda>c. c = CHR ''='') (rev s))"

definition bytesToBase64Url :: "byte list \<Rightarrow> string" where
  "bytesToBase64Url bs = strip_padding (map url_char (base64_groups bs))"

fun utf8_bytes :: "string \<Rightarrow> byte list" where
  "utf8_bytes [] = []"
| "utf8_bytes (c # cs) =
     (let n = code_of c in
      if n < 128 then of_nat n # utf8_bytes cs
      else (192 OR of_nat (n div 64)) # (128 OR of_nat (n mod 64)) # utf8_bytes cs)"

definition encodeUtf8Base64Url :: "string \<Rightarrow> string" where
  "encodeUtf8Base64Url v = bytesToBase64Url (utf8_bytes v)"

section \<open>Decoding\<close>

definition symbol_value :: "char \<Rightarrow> byte option" where
  "symbol_value c =
     (let n = code_of c in
      if 65 \<le> n \<and> n \<le> 90 then Some (of_nat (n - 65))
      else if 97 \<le> n \<and> n \<le> 122 then Some (of_nat (n - 71))
      else if 48 \<le> n \<and> n \<le> 57 then Some (of_nat (n + 4))
      else if n = 43 then Some 62
      else if n = 47 then Some 63
      else None)"

text \<open>Four symbols carry three bytes; a last group of three or two carries two or one, and the
  bits left over are dropped.\<close>

fun sextets_bytes :: "byte list \<Rightarrow> byte list" where
  "sextets_bytes (a # b # c # d # rest) =
     (push_bit 2 a OR drop_bit 4 b) # (push_bit 4 b OR drop_bit 2 c) # (push_bit 6 c OR d) # sextets_bytes rest"
| "sextets_bytes [a, b, c] = [push_bit 2 a OR drop_bit 4 b, push_bit 4 b OR drop_bit 2 c]"
| "sextets_bytes [a, b] = [push_bit 2 a OR drop_bit 4 b]"
| "sextets_bytes _ = []"

fun all_some :: "'a option list \<Rightarrow> 'a list option" where
  "all_some [] = Some []"
| "all_some (None # xs) = None"
| "all_some (Some x # xs) = map_option (Cons x) (all_some xs)"

definition ascii_white :: "char \<Rightarrow> bool" where
  "ascii_white c \<longleftrightarrow> code_of c \<in> {9, 10, 12, 13, 32}"

text \<open>\<open>atob\<close>: white space is removed, up to two padding characters are removed from a text whose
  length is a multiple of four, and a remaining length of one more than a multiple of four or a
  character outside the alphabet is an error.\<close>

definition unpad :: "string \<Rightarrow> string" where
  "unpad s =
     (if length s mod 4 \<noteq> 0 \<or> s = [] \<or> last s \<noteq> CHR ''='' then s
      else if last (butlast s) = CHR ''='' then butlast (butlast s) else butlast s)"

definition atob :: "string \<Rightarrow> byte list option" where
  "atob s =
     (let t = unpad (filter (\<lambda>c. \<not> ascii_white c) s) in
      if length t mod 4 = 1 then None else map_option sextets_bytes (all_some (map symbol_value t)))"

fun utf8_text :: "byte list \<Rightarrow> string option" where
  "utf8_text [] = Some []"
| "utf8_text [b] = (if b < 128 then Some [char_of (unat b)] else None)"
| "utf8_text (b # c # bs) =
     (if b < 128 then map_option (Cons (char_of (unat b))) (utf8_text (c # bs))
      else if (b = 194 \<or> b = 195) \<and> 128 \<le> c \<and> c < 192
        then map_option (Cons (char_of (unat (b AND 31) * 64 + unat (c AND 63)))) (utf8_text bs)
      else None)"

definition plain_char :: "char \<Rightarrow> char" where
  "plain_char c = (if c = CHR ''-'' then CHR ''+'' else if c = CHR ''_'' then CHR ''/'' else c)"

definition pad_end :: "string \<Rightarrow> string" where
  "pad_end s = s @ replicate ((4 - length s mod 4) mod 4) (CHR ''='')"

text \<open>\<open>new TextDecoder().decode\<close> drops a leading byte order mark.\<close>

definition drop_mark :: "byte list \<Rightarrow> byte list" where
  "drop_mark bs = (if take 3 bs = [239, 187, 191] then drop 3 bs else bs)"

definition decodeUtf8Base64Url :: "string \<Rightarrow> string option" where
  "decodeUtf8Base64Url v =
     (case atob (pad_end (map plain_char v)) of None \<Rightarrow> None | Some bs \<Rightarrow> utf8_text (drop_mark bs))"

text \<open>The conversions of \<open>Buffer\<close>: reading skips every character outside both alphabets.\<close>

definition base64UrlEncode :: "string \<Rightarrow> string" where
  "base64UrlEncode v = bytesToBase64Url (utf8_bytes v)"

definition base64UrlDecode :: "string \<Rightarrow> string option" where
  "base64UrlDecode v = utf8_text (sextets_bytes (List.map_filter (symbol_value \<circ> plain_char) v))"

section \<open>Symbols\<close>

text \<open>The code unit of the \<open>n\<close>-th symbol, and of its URL-safe form.\<close>

definition symbol_code :: "nat \<Rightarrow> nat" where
  "symbol_code n = (if n < 26 then 65 + n else if n < 52 then 71 + n else if n < 62 then n - 4
     else if n = 62 then 43 else 47)"

lemma alphabet_codes: "map code_of BASE64_ALPHABET = [65..<91] @ [97..<123] @ [48..<58] @ [43, 47]"
  by (simp add: BASE64_ALPHABET_def code_of_def)

lemma alphabet_nth:
  assumes "n < 64"
  shows "code_of (BASE64_ALPHABET ! n) = symbol_code n"
proof -
  have "length BASE64_ALPHABET = 64" by (simp add: BASE64_ALPHABET_def)
  with assms have "code_of (BASE64_ALPHABET ! n) = map code_of BASE64_ALPHABET ! n" by simp
  also have "\<dots> = symbol_code n"
    unfolding alphabet_codes using assms by (auto simp: nth_append symbol_code_def nth_Cons split: nat.splits)
  finally show ?thesis .
qed

lemma url_codes:
  "code_of (url_char c) = (if code_of c = 43 then 45 else if code_of c = 47 then 95 else code_of c)"
  "code_of (plain_char c) = (if code_of c = 45 then 43 else if code_of c = 95 then 47 else code_of c)"
proof -
  have "code_of (CHR ''+'') = 43" "code_of (CHR ''/'') = 47" "code_of (CHR ''-'') = 45" "code_of (CHR ''_'') = 95"
    by (simp_all add: code_of_def)
  then show "code_of (url_char c) = (if code_of c = 43 then 45 else if code_of c = 47 then 95 else code_of c)"
    "code_of (plain_char c) = (if code_of c = 45 then 43 else if code_of c = 95 then 47 else code_of c)"
    by (auto simp: url_char_def plain_char_def code_of_inj [symmetric])
qed

lemma code_of_padding: "c = CHR ''='' \<longleftrightarrow> code_of c = 61"
  by (auto simp: code_of_inj [symmetric]) (simp_all add: code_of_def)

lemma symbol_value_url:
  "symbol_value (plain_char (url_char c)) = symbol_value c" if "code_of c \<noteq> 45" "code_of c \<noteq> 95"
proof -
  have "code_of (plain_char (url_char c)) = code_of c" using that by (simp add: url_codes)
  then show ?thesis by (simp add: symbol_value_def)
qed

lemma symbol_facts:
  assumes "n < 64"
  shows "symbol_value (plain_char (url_char (BASE64_ALPHABET ! n))) = Some (of_nat n)"
    "url_char (BASE64_ALPHABET ! n) \<noteq> CHR ''=''"
    "plain_char (url_char (BASE64_ALPHABET ! n)) \<noteq> CHR ''=''"
    "\<not> ascii_white (plain_char (url_char (BASE64_ALPHABET ! n)))"
    "is_alnum (url_char (BASE64_ALPHABET ! n)) \<or> code_of (url_char (BASE64_ALPHABET ! n)) \<in> {45, 95}"
proof -
  let ?c = "BASE64_ALPHABET ! n"
  have c: "code_of ?c = symbol_code n" using assms by (rule alphabet_nth)
  have k: "symbol_code n \<in> {65..90} \<union> {97..122} \<union> {48..57} \<union> {43, 47}"
    using assms by (auto simp: symbol_code_def)
  have p: "code_of (plain_char (url_char ?c)) = symbol_code n" using c k by (auto simp: url_codes)
  have u: "code_of (url_char ?c) \<in> {65..90} \<union> {97..122} \<union> {48..57} \<union> {45, 95}" using c k by (auto simp: url_codes)
  have "symbol_value ?c = Some (of_nat n)"
  proof (cases "n < 62")
    case True
    then show ?thesis unfolding symbol_value_def c Let_def by (auto simp: symbol_code_def)
  next
    case False
    with assms have "n = 62 \<or> n = 63" by linarith
    then show ?thesis unfolding symbol_value_def c Let_def by (auto simp: symbol_code_def)
  qed
  moreover have "symbol_code n \<noteq> 45" "symbol_code n \<noteq> 95" using k by auto
  ultimately show "symbol_value (plain_char (url_char ?c)) = Some (of_nat n)" by (simp add: symbol_value_url c)
  show "url_char ?c \<noteq> CHR ''=''" using u by (auto simp: code_of_padding)
  show "plain_char (url_char ?c) \<noteq> CHR ''=''" using k by (auto simp: code_of_padding p)
  show "\<not> ascii_white (plain_char (url_char ?c))" using k by (auto simp: ascii_white_def p)
  show "is_alnum (url_char ?c) \<or> code_of (url_char ?c) \<in> {45, 95}"
    using u by (auto simp: is_alnum_def is_letter_def is_digit_def)
qed

lemma alphabet_at_facts:
  assumes "w < 64"
  shows "symbol_value (plain_char (url_char (alphabet_at w))) = Some w"
    "url_char (alphabet_at w) \<noteq> CHR ''=''"
    "plain_char (url_char (alphabet_at w)) \<noteq> CHR ''=''"
    "\<not> ascii_white (plain_char (url_char (alphabet_at w)))"
    "is_alnum (url_char (alphabet_at w)) \<or> code_of (url_char (alphabet_at w)) \<in> {45, 95}"
proof -
  have "unat w < 64" using unat_mono [OF assms] by simp
  from symbol_facts [OF this] show "symbol_value (plain_char (url_char (alphabet_at w))) = Some w"
    "url_char (alphabet_at w) \<noteq> CHR ''=''"
    "plain_char (url_char (alphabet_at w)) \<noteq> CHR ''=''"
    "\<not> ascii_white (plain_char (url_char (alphabet_at w)))"
    "is_alnum (url_char (alphabet_at w)) \<or> code_of (url_char (alphabet_at w)) \<in> {45, 95}"
    by (simp_all add: alphabet_at_def)
qed

section \<open>Groups of bytes\<close>

lemma masks: "3 = (mask 2 :: byte)" "15 = (mask 4 :: byte)" "63 = (mask 6 :: byte)" "31 = (mask 5 :: byte)"
  by (simp_all add: mask_eq_exp_minus_1)

text \<open>The six-bit values of a list of bytes.\<close>

fun sextets :: "byte list \<Rightarrow> byte list" where
  "sextets [] = []"
| "sextets [x] = [drop_bit 2 x, push_bit 4 (x AND 3)]"
| "sextets [x, y] = [drop_bit 2 x, push_bit 4 (x AND 3) OR drop_bit 4 y, push_bit 2 (y AND 15)]"
| "sextets (x # y # z # bs) =
     [drop_bit 2 x, push_bit 4 (x AND 3) OR drop_bit 4 y, push_bit 2 (y AND 15) OR drop_bit 6 z, z AND 63] @ sextets bs"

lemma byte_eqI:
  assumes "bit a 0 = bit b 0" "bit a 1 = bit b 1" "bit a 2 = bit b 2" "bit a 3 = bit b 3"
    "bit a 4 = bit b 4" "bit a 5 = bit b 5" "bit a 6 = bit b 6" "bit a 7 = bit b 7"
  shows "a = (b :: byte)"
proof (rule bit_word_eqI)
  fix n assume "n < LENGTH(8)"
  then have "n = 0 \<or> n = 1 \<or> n = 2 \<or> n = 3 \<or> n = 4 \<or> n = 5 \<or> n = 6 \<or> n = 7" by simp linarith
  with assms show "bit a n = bit b n" by blast
qed

lemma high_bits [simp]: "8 \<le> n \<Longrightarrow> \<not> bit (w :: byte) n"
  using bit_imp_le_length [of w n] by auto

lemma small_byte: "\<not> bit w 6 \<Longrightarrow> \<not> bit w 7 \<Longrightarrow> (w :: byte) < 64"
proof -
  assume "\<not> bit w 6" "\<not> bit w 7"
  then have "take_bit 6 w = w" by (intro byte_eqI) (simp_all add: bit_take_bit_iff)
  then have "w AND mask 6 = w" by (simp add: take_bit_eq_mask)
  moreover have "w AND mask 6 < 2 ^ 6" by (rule and_mask_less') simp
  ultimately show ?thesis by simp
qed

lemma sextets_small: "w \<in> set (sextets bs) \<Longrightarrow> w < 64"
proof (induction bs rule: sextets.induct)
  case (4 x y z bs)
  have "drop_bit 2 x < 64" "push_bit 4 (x AND 3) OR drop_bit 4 y < 64"
    "push_bit 2 (y AND 15) OR drop_bit 6 z < 64" "z AND 63 < 64"
    unfolding masks by (rule small_byte; simp add: bit_simps)+
  with 4 show ?case by auto
next
  case (3 x y)
  have "drop_bit 2 x < 64" "push_bit 4 (x AND 3) OR drop_bit 4 y < 64" "push_bit 2 (y AND 15) < 64"
    unfolding masks by (rule small_byte; simp add: bit_simps)+
  with 3 show ?case by auto
next
  case (2 x)
  have "drop_bit 2 x < 64" "push_bit 4 (x AND 3) < 64"
    unfolding masks by (rule small_byte; simp add: bit_simps)+
  with 2 show ?case by auto
qed simp

lemma byte_pieces:
  "push_bit 2 (drop_bit 2 x) OR drop_bit 4 (push_bit 4 (x AND 3) OR drop_bit 4 y) = (x :: byte)"
  "push_bit 2 (drop_bit 2 x) OR drop_bit 4 (push_bit 4 (x AND 3)) = (x :: byte)"
  "push_bit 4 (push_bit 4 (x AND 3) OR drop_bit 4 y) OR drop_bit 2 (push_bit 2 (y AND 15) OR drop_bit 6 z) = (y :: byte)"
  "push_bit 4 (push_bit 4 (x AND 3) OR drop_bit 4 y) OR drop_bit 2 (push_bit 2 (y AND 15)) = (y :: byte)"
  "push_bit 6 (push_bit 2 (y AND 15) OR drop_bit 6 z) OR (z AND 63) = (z :: byte)"
  unfolding masks by (rule byte_eqI; simp add: bit_simps)+

lemma sextets_bytes_sextets: "sextets_bytes (sextets bs) = bs"
proof (induction bs rule: sextets.induct)
  case (4 x y z bs)
  then show ?case by (simp only: sextets.simps append_Cons append_Nil sextets_bytes.simps byte_pieces)
qed (simp_all only: sextets.simps sextets_bytes.simps byte_pieces)

section \<open>Texts of sextets\<close>

lemma strip_padding_append: "list_all (\<lambda>c. c = CHR ''='') ys \<Longrightarrow> (xs \<noteq> [] \<Longrightarrow> last xs \<noteq> CHR ''='') \<Longrightarrow> strip_padding (xs @ ys) = xs"
proof -
  assume ys: "list_all (\<lambda>c. c = CHR ''='') ys" and xs: "xs \<noteq> [] \<Longrightarrow> last xs \<noteq> CHR ''=''"
  have "dropWhile (\<lambda>c. c = CHR ''='') (rev ys @ rev xs) = dropWhile (\<lambda>c. c = CHR ''='') (rev xs)"
    using ys by (intro dropWhile_append2) (auto simp: list_all_iff)
  also have "\<dots> = rev xs"
    using xs by (cases xs rule: rev_cases) auto
  finally show ?thesis by (simp add: strip_padding_def)
qed

lemma groups_sextets:
  "\<exists>ys. list_all (\<lambda>c. c = CHR ''='') ys \<and> base64_groups bs = map alphabet_at (sextets bs) @ ys"
proof (induction bs rule: base64_groups.induct)
  case (4 x y z bs)
  then show ?case by auto
qed (auto intro: exI [of _ "[]"])

lemma url_text: "bytesToBase64Url bs = map (url_char \<circ> alphabet_at) (sextets bs)"
proof -
  obtain ys where ys: "list_all (\<lambda>c. c = CHR ''='') ys" "base64_groups bs = map alphabet_at (sextets bs) @ ys"
    using groups_sextets by blast
  have "map url_char ys = ys" using ys(1) by (induction ys) (simp_all add: url_char_def)
  moreover have "last (map (url_char \<circ> alphabet_at) (sextets bs)) \<noteq> CHR ''=''" if "sextets bs \<noteq> []"
    using that alphabet_at_facts(2) [OF sextets_small [of _ bs]] by (simp add: last_map)
  ultimately have "strip_padding (map (url_char \<circ> alphabet_at) (sextets bs) @ ys) = map (url_char \<circ> alphabet_at) (sextets bs)"
    using ys(1) by (intro strip_padding_append) simp_all
  with \<open>map url_char ys = ys\<close> ys(2) show ?thesis by (simp add: bytesToBase64Url_def)
qed

lemma all_some_map: "all_some (map (\<lambda>w. Some (f w)) ws) = Some (map f ws)"
  by (induction ws) auto

lemma symbols_read:
  "map symbol_value (map plain_char (bytesToBase64Url bs)) = map Some (sextets bs)"
  unfolding url_text map_map by (rule map_cong) (simp_all add: alphabet_at_facts(1) sextets_small)

lemma length_sextets: "length (sextets bs) mod 4 \<noteq> 1"
  by (induction bs rule: sextets.induct) simp_all

lemma mods: "m mod 4 = 2 \<Longrightarrow> (m + 2) mod 4 = (0 :: nat)" "m mod 4 = 3 \<Longrightarrow> (m + 1) mod 4 = (0 :: nat)"
  by presburger+

lemma atob_read: "atob (pad_end (map plain_char (bytesToBase64Url bs))) = Some bs"
proof -
  let ?t = "map plain_char (bytesToBase64Url bs)"
  have len: "length ?t = length (sextets bs)" by (simp add: url_text)
  have ok: "c \<noteq> CHR ''=''" "\<not> ascii_white c" if "c \<in> set ?t" for c
    using that alphabet_at_facts(3,4) [OF sextets_small [of _ bs]] by (auto simp: url_text)
  have "length (sextets bs) mod 4 \<in> {0, 2, 3}" using length_sextets [of bs] by auto
  then have pad: "pad_end ?t = ?t @ replicate (if length ?t mod 4 = 0 then 0 else 4 - length ?t mod 4) (CHR ''='')"
    by (auto simp: pad_end_def len)
  have "\<not> ascii_white (CHR ''='')" by (simp add: ascii_white_def code_of_def)
  then have fil: "filter (\<lambda>c. \<not> ascii_white c) (pad_end ?t) = pad_end ?t"
    using ok(2) by (auto simp: pad intro!: filter_True)
  have unp: "unpad (pad_end ?t) = ?t"
  proof (cases "?t = []")
    case True
    then show ?thesis by (simp add: pad_end_def unpad_def)
  next
    case False
    then have l: "last ?t \<noteq> CHR ''=''" using ok(1) last_in_set by blast
    consider "length ?t mod 4 = 0" | "length ?t mod 4 = 2" | "length ?t mod 4 = 3"
      using \<open>length (sextets bs) mod 4 \<in> {0, 2, 3}\<close> len by auto
    then show ?thesis
    proof cases
      case 1
      with l pad show ?thesis by (simp add: unpad_def)
    next
      case 2
      then have "(length ?t + 2) mod 4 = 0" by (rule mods)
      with 2 pad False show ?thesis by (simp add: unpad_def numeral_2_eq_2 butlast_append)
    next
      case 3
      then have "(length ?t + 1) mod 4 = 0" by (rule mods)
      with 3 l pad False show ?thesis by (simp add: unpad_def butlast_append)
    qed
  qed
  have "all_some (map symbol_value ?t) = Some (sextets bs)"
    unfolding symbols_read using all_some_map [of id "sextets bs"] by (simp add: id_def)
  then show ?thesis
    using length_sextets [of bs] len by (simp add: atob_def fil unp Let_def sextets_bytes_sextets del: map_map)
qed

lemma buffer_read: "sextets_bytes (List.map_filter (symbol_value \<circ> plain_char) (bytesToBase64Url bs)) = bs"
proof -
  have "List.map_filter (symbol_value \<circ> plain_char) (bytesToBase64Url bs) = sextets bs"
    using alphabet_at_facts(1) [OF sextets_small [of _ bs]]
    by (simp add: url_text List.map_filter_def comp_def cong: filter_cong map_cong)
  then show ?thesis by (simp add: sextets_bytes_sextets)
qed

lemma url_safe: "c \<in> set (bytesToBase64Url bs) \<Longrightarrow> is_alnum c \<or> code_of c \<in> {45, 95}"
  using alphabet_at_facts(5) [OF sextets_small [of _ bs]] by (auto simp: url_text)

section \<open>UTF-8\<close>

lemma unat_small: "n < 256 \<Longrightarrow> unat (of_nat n :: byte) = n"
  by (simp add: unat_of_nat)

lemma of_nat_byte_less: "m < 256 \<Longrightarrow> n < 256 \<Longrightarrow> (of_nat m :: byte) < of_nat n \<longleftrightarrow> m < n"
  by (simp add: word_less_nat_alt unat_small)

text \<open>The second byte of a character above the ASCII range.\<close>

lemma tail_byte: "(128 OR of_nat (n mod 64) :: byte) = of_nat (128 + n mod 64)"
proof -
  have high: "128 = (push_bit 7 1 :: byte)" by simp
  have low: "of_nat (n mod 64) = (take_bit 6 (of_nat n) :: byte)"
    using take_bit_of_nat [where 'a = byte, of 6 n] by (simp add: take_bit_eq_mod)
  have "(128 :: byte) AND of_nat (n mod 64) = 0"
    unfolding high low by (rule byte_eqI; simp add: bit_simps)
  with word_plus_and_or [of "128 :: byte" "of_nat (n mod 64)"] show ?thesis by simp
qed

lemma tail_mask: "m < 64 \<Longrightarrow> (of_nat (128 + m) :: byte) AND 63 = of_nat m"
proof -
  assume m: "m < 64"
  have "(of_nat (128 + m) :: byte) AND 63 = take_bit 6 (of_nat (128 + m))"
    by (simp add: take_bit_eq_mask masks)
  also have "\<dots> = of_nat ((128 + m) mod 64)"
    unfolding take_bit_of_nat by (simp add: take_bit_eq_mod del: of_nat_add)
  also have "(m + 2 * 64) mod 64 = m" unfolding mod_mult_self1 using m by simp
  then have "(128 + m) mod 64 = m" by (simp add: add.commute)
  finally show ?thesis .
qed

lemma utf8_round_trip: "utf8_text (utf8_bytes s) = Some s"
proof (induction s)
  case (Cons c cs)
  let ?n = "code_of c"
  have n: "?n < 256" by simp
  show ?case
  proof (cases "?n < 128")
    case True
    then have b: "(of_nat ?n :: byte) < 128" using of_nat_byte_less [of ?n 128] by simp
    have u: "char_of (unat (of_nat ?n :: byte)) = c" by (simp add: unat_small)
    show ?thesis
    proof (cases "utf8_bytes cs")
      case Nil
      with Cons True b u show ?thesis by simp
    next
      case (Cons d ds)
      with Cons.IH True b u show ?thesis by simp
    qed
  next
    case False
    then have "?n div 64 = 2 \<or> ?n div 64 = 3" using n by linarith
    then have lead: "(192 OR of_nat (?n div 64) :: byte) = of_nat (192 + ?n div 64)"
      "192 + ?n div 64 = 194 \<or> 192 + ?n div 64 = 195" "?n div 64 < 4" by auto
    have m: "?n mod 64 < 64" by simp
    have t: "\<not> (of_nat (192 + ?n div 64) :: byte) < 128"
      using lead(3) of_nat_byte_less [of "192 + ?n div 64" 128] by simp
    have c1: "(128 :: byte) \<le> of_nat (128 + ?n mod 64)" "(of_nat (128 + ?n mod 64) :: byte) < 192"
      using of_nat_byte_less [of "128 + ?n mod 64" 128] of_nat_byte_less [of "128 + ?n mod 64" 192] m
      by (simp_all add: not_less [symmetric])
    have x: "unat ((of_nat (192 + ?n div 64) :: byte) AND 31) = ?n div 64"
      using lead(2) by auto
    have y: "unat ((of_nat (128 + ?n mod 64) :: byte) AND 63) = ?n mod 64"
      by (simp only: tail_mask [OF m]) (simp add: unat_small)
    have v: "(of_nat (192 + ?n div 64) :: byte) = 194 \<or> (of_nat (192 + ?n div 64) :: byte) = 195"
      using lead(2) by (auto simp del: of_nat_add)
    have code: "?n div 64 * 64 + ?n mod 64 = ?n" by simp
    have "utf8_bytes (c # cs) = of_nat (192 + ?n div 64) # of_nat (128 + ?n mod 64) # utf8_bytes cs"
      using False lead(1) tail_byte [of ?n] by (simp add: Let_def del: of_nat_add)
    then show ?thesis
      using t c1 v Cons.IH by (simp only: utf8_text.simps if_False if_True simp_thms x y code) simp
  qed
qed simp

lemma utf8_no_mark: "drop_mark (utf8_bytes s) = utf8_bytes s"
proof -
  have "utf8_bytes s = [] \<or> hd (utf8_bytes s) \<noteq> 239"
  proof (cases s)
    case (Cons c cs)
    let ?n = "code_of c"
    show ?thesis
    proof (cases "?n < 128")
      case True
      then have "(of_nat ?n :: byte) < 128" using of_nat_byte_less [of ?n 128] by simp
      with True Cons show ?thesis by auto
    next
      case False
      then have "?n div 64 = 2 \<or> ?n div 64 = 3" using code_of_less [of c] by linarith
      with False Cons show ?thesis by auto
    qed
  qed simp
  then show ?thesis by (cases "utf8_bytes s") (auto simp: drop_mark_def)
qed

lemma buffer_round_trip: "base64UrlDecode (base64UrlEncode s) = Some s"
  by (simp add: base64UrlDecode_def base64UrlEncode_def buffer_read utf8_round_trip)

lemma text_round_trip: "decodeUtf8Base64Url (encodeUtf8Base64Url s) = Some s"
  by (simp add: decodeUtf8Base64Url_def encodeUtf8Base64Url_def atob_read utf8_no_mark utf8_round_trip)

lemma encoded_chars: "c \<in> set (encodeUtf8Base64Url s) \<Longrightarrow> is_alnum c \<or> code_of c \<in> {45, 95}"
  unfolding encodeUtf8Base64Url_def by (rule url_safe)

lemma no_dot: "CHR ''.'' \<notin> set (base64UrlEncode s)"
  using url_safe [of "CHR ''.''" "utf8_bytes s"]
  by (auto simp: base64UrlEncode_def is_alnum_def is_letter_def is_digit_def code_of_def)

lemma encoded_Nil: "base64UrlEncode s = [] \<longleftrightarrow> s = []"
proof
  assume "base64UrlEncode s = []"
  then have "utf8_bytes s = []" using buffer_read [of "utf8_bytes s"] by (simp add: base64UrlEncode_def List.map_filter_def)
  then show "s = []" by (cases s) (simp_all add: Let_def split: if_splits)
qed (simp add: base64UrlEncode_def bytesToBase64Url_def strip_padding_def)

section \<open>Properties\<close>

text \<open>Decoding gives back every encoded text, in both decoders of the code, and an encoded text
  only has letters, digits, hyphens and underscores, so it can stand in a URL and never holds the
  dot that separates the parts of a token.\<close>

theorem base64url_round_trip:
  "decodeUtf8Base64Url (encodeUtf8Base64Url s) = Some s \<and> base64UrlDecode (base64UrlEncode s) = Some s \<and>
   list_all (\<lambda>c. is_alnum c \<or> c = CHR ''-'' \<or> c = CHR ''_'') (encodeUtf8Base64Url s)"
proof -
  have "code_of c = 45 \<longleftrightarrow> c = CHR ''-''" "code_of c = 95 \<longleftrightarrow> c = CHR ''_''" for c
    using code_of_inj [of c "CHR ''-''"] code_of_inj [of c "CHR ''_''"] by (simp_all add: code_of_def)
  then show ?thesis
    using text_round_trip [of s] buffer_round_trip [of s] encoded_chars [of _ s] by (auto simp: list_all_iff)
qed

end
