(* ===== verification/Hub.thy ===== *)
theory Hub
  imports Policy Base64
begin

text \<open>
  The hub of \<open>hub.ts\<close> and the stores it works on: the in-memory OAuth state store of
  \<open>credentials.ts\<close> and the in-memory connection store of \<open>index.ts\<close>. The hub starts and completes
  OAuth flows, issues and verifies capability tokens, and runs actions under a capability.

  \<open>createHmac\<close> and \<open>randomBytes\<close> are parameters, as is the digest of the platform. A payload is
  only read after its signature has been checked, so every text read was written with the secret;
  a payload whose fields do not have the declared types is rejected by the model.
\<close>

section \<open>Stores\<close>

record InMemoryIntegrationOAuthStateStore = InMemoryIntegrationApprovalStore +
  oauth_states :: "string \<Rightarrow> IntegrationOAuthState option"

definition oauth_state_put :: "IntegrationOAuthState \<Rightarrow> ('a InMemoryIntegrationOAuthStateStore_scheme, exn, unit) io" where
  [io_defs]: "oauth_state_put s w = (Inr (), w\<lparr>oauth_states := (oauth_states w)(os_state s \<mapsto> s)\<rparr>)"

definition oauth_state_consume :: "string \<Rightarrow> ('a InMemoryIntegrationOAuthStateStore_scheme, exn, IntegrationOAuthStateOutcome) io" where
  [io_defs]: "oauth_state_consume key =
     andThen (reads (\<lambda>w. oauth_states w key)) (\<lambda>found.
     andThen (updates (\<lambda>w. w\<lparr>oauth_states := (oauth_states w)(key := None)\<rparr>)) (\<lambda>_.
     case found of
       None \<Rightarrow> ret (StateMiss miss_unknown)
     | Some s \<Rightarrow> andThen date_now (\<lambda>now.
         if os_expiresAt s \<le> now then ret (StateMiss miss_expired) else ret (StateFound s))))"

definition oauth_state_sweep :: "int \<Rightarrow> ('a InMemoryIntegrationOAuthStateStore_scheme, exn, unit) io" where
  [io_defs]: "oauth_state_sweep now w = (Inr (), w\<lparr>oauth_states := (\<lambda>k. case oauth_states w k of
       None \<Rightarrow> None | Some s \<Rightarrow> if os_expiresAt s \<le> now then None else Some s)\<rparr>)"

definition mem_oauth_states :: "('a InMemoryIntegrationOAuthStateStore_scheme) IntegrationOAuthStateStore" where
  "mem_oauth_states = \<lparr>oauth_put = oauth_state_put, oauth_consume = oauth_state_consume, oauth_sweep = Some oauth_state_sweep\<rparr>"

definition sameActor :: "IntegrationActor \<Rightarrow> IntegrationActor \<Rightarrow> bool" where
  "sameActor a b \<longleftrightarrow> actor_type a = actor_type b \<and> actor_id a = actor_id b"

record InMemoryConnectionStore = InMemoryIntegrationOAuthStateStore +
  connections :: "(string \<times> IntegrationConnection) list"

definition connection_get :: "string \<Rightarrow> ('a InMemoryConnectionStore_scheme, exn, IntegrationConnection option) io" where
  [io_defs]: "connection_get k w = (Inr (map_of (connections w) k), w)"

definition connection_put :: "IntegrationConnection \<Rightarrow> ('a InMemoryConnectionStore_scheme, exn, unit) io" where
  [io_defs]: "connection_put c w = (Inr (), w\<lparr>connections := AList.update (conn_id c) c (connections w)\<rparr>)"

definition connection_listByOwner :: "IntegrationActor \<Rightarrow> ('a InMemoryConnectionStore_scheme, exn, IntegrationConnection list) io" where
  [io_defs]: "connection_listByOwner who w = (Inr (filter (\<lambda>c. sameActor (conn_owner c) who) (map snd (connections w))), w)"

definition connection_delete :: "string \<Rightarrow> ('a InMemoryConnectionStore_scheme, exn, unit) io" where
  [io_defs]: "connection_delete k w = (Inr (), w\<lparr>connections := AList.delete k (connections w)\<rparr>)"

definition mem_connections :: "('a InMemoryConnectionStore_scheme) IntegrationConnectionStore" where
  "mem_connections = \<lparr>store_get = connection_get, store_put = connection_put,
     store_listByOwner = connection_listByOwner, store_delete = Some connection_delete\<rparr>"

section \<open>Tokens\<close>

record 'w hub_platform = "'w platform" +
  pf_hmac :: "string \<Rightarrow> string \<Rightarrow> string"
  pf_randomBytes48 :: "('w, exn, string) io"

definition actor_json :: "IntegrationActor \<Rightarrow> json" where
  "actor_json a = JObj [(''type'', JStr (actor_type_name (actor_type a))), (''id'', JStr (actor_id a))]"

definition strings_json :: "string list \<Rightarrow> json" where
  "strings_json ss = JArr (map JStr ss)"

definition capability_json :: "IntegrationCapability \<Rightarrow> json" where
  "capability_json c = JObj
     ([(''id'', JStr (cap_id c)), (''subject'', actor_json (cap_subject c)), (''connectionId'', JStr (cap_connectionId c)),
       (''scopes'', strings_json (cap_scopes c)), (''allowedActions'', strings_json (cap_allowedActions c)),
       (''issuedAt'', JStr (cap_issuedAt c)), (''expiresAt'', JStr (cap_expiresAt c))] @
      opt_val ''metadata'' (map_option JObj (cap_metadata c)))"

definition signCapability :: "('w, 'a) hub_platform_scheme \<Rightarrow> IntegrationCapability \<Rightarrow> string \<Rightarrow> string" where
  "signCapability pf c secret =
     (let payload = base64UrlEncode (stringify (capability_json c)) in payload @ CHR ''.'' # pf_hmac pf payload secret)"

definition as_actor_type :: "string \<Rightarrow> actor_type option" where
  "as_actor_type s = find (\<lambda>t. actor_type_name t = s) [actor_user, actor_team, actor_app, actor_agent, actor_sandbox, actor_system]"

definition as_actor :: "json option \<Rightarrow> IntegrationActor option" where
  "as_actor j = (case (as_string (opt_field j ''type''), as_string (opt_field j ''id'')) of
       (Some t, Some i) \<Rightarrow> map_option (\<lambda>ty. \<lparr>actor_type = ty, actor_id = i\<rparr>) (as_actor_type t)
     | _ \<Rightarrow> None)"

fun as_strings :: "json list \<Rightarrow> string list option" where
  "as_strings [] = Some []"
| "as_strings (JStr s # js) = map_option (Cons s) (as_strings js)"
| "as_strings (_ # js) = None"

fun as_string_array :: "json option \<Rightarrow> string list option" where
  "as_string_array (Some (JArr js)) = as_strings js"
| "as_string_array _ = None"

fun as_members :: "json option \<Rightarrow> metadata option option" where
  "as_members None = Some None"
| "as_members (Some (JObj m)) = Some (Some m)"
| "as_members _ = None"

definition capability_of_json :: "json \<Rightarrow> IntegrationCapability option" where
  "capability_of_json j =
     (case (as_string (field j ''id''), as_actor (field j ''subject''), as_string (field j ''connectionId'')) of
        (Some i, Some sub, Some con) \<Rightarrow>
          (case (as_string_array (field j ''scopes''), as_string_array (field j ''allowedActions'')) of
             (Some sc, Some ac) \<Rightarrow>
               (case (as_string (field j ''issuedAt''), as_string (field j ''expiresAt''), as_members (field j ''metadata'')) of
                  (Some iss, Some ex, Some m) \<Rightarrow>
                    Some \<lparr>cap_id = i, cap_subject = sub, cap_connectionId = con, cap_scopes = sc, cap_allowedActions = ac,
                      cap_issuedAt = iss, cap_expiresAt = ex, cap_metadata = m\<rparr>
                | _ \<Rightarrow> None)
           | _ \<Rightarrow> None)
      | _ \<Rightarrow> None)"

definition capability_invalid_error :: "string \<Rightarrow> exn" where
  "capability_invalid_error m = IntegrationError m capability_invalid"

text \<open>\<open>const [payload, signature] = token.split('.')\<close>: further parts are ignored.\<close>

definition verifyCapabilityToken :: "('w, 'a) hub_platform_scheme \<Rightarrow> string \<Rightarrow> string \<Rightarrow> exn + IntegrationCapability" where
  "verifyCapabilityToken pf tok secret =
     (case split_on (CHR ''.'') tok of
        payload # signature # _ \<Rightarrow>
          if payload = [] \<or> signature = [] then Inl (capability_invalid_error ''Malformed integration capability.'')
          else if signature \<noteq> pf_hmac pf payload secret then
            Inl (capability_invalid_error ''Invalid integration capability signature.'')
          else (case base64UrlDecode payload of
              None \<Rightarrow> Inl (capability_invalid_error ''Invalid integration capability payload.'')
            | Some text \<Rightarrow> (case JSON_parse text of
                None \<Rightarrow> Inl (capability_invalid_error ''Invalid integration capability payload.'')
              | Some j \<Rightarrow> (case capability_of_json j of
                  None \<Rightarrow> Inl (capability_invalid_error ''Invalid integration capability payload.'')
                | Some c \<Rightarrow>
                    if cap_id c = [] \<or> cap_connectionId c = [] then
                      Inl (capability_invalid_error ''Invalid integration capability payload.'')
                    else Inr c)))
      | _ \<Rightarrow> Inl (capability_invalid_error ''Malformed integration capability.''))"

section \<open>The hub\<close>

record 'w IntegrationHub =
  hub_providers :: "(string \<times> 'w IntegrationProvider) list"
  hub_store :: "'w IntegrationConnectionStore"
  hub_capabilitySecret :: string
  hub_guard :: "'w IntegrationActionGuard option"
  hub_policy :: "'w IntegrationPolicyEngine option"
  hub_oauthStateStore :: "'w IntegrationOAuthStateStore"
  hub_oauthStateTtlMs :: int
  hub_now :: "('w, exn, int) io"

definition newHub :: "'w IntegrationProvider list \<Rightarrow> 'w IntegrationConnectionStore \<Rightarrow> string \<Rightarrow> 'w IntegrationActionGuard option \<Rightarrow>
    'w IntegrationPolicyEngine option \<Rightarrow> 'w IntegrationOAuthStateStore option \<Rightarrow> 'w IntegrationOAuthStateStore \<Rightarrow> int option \<Rightarrow>
    ('w, exn, int) io \<Rightarrow> exn + 'w IntegrationHub" where
  "newHub providers store secret guard policy oauth newOauth ttl now =
     (if secret = [] then Inl (capability_invalid_error ''capabilitySecret is required.'')
      else Inr \<lparr>hub_providers = foldl (\<lambda>m p. AList.update (prov_id p) p m) [] providers, hub_store = store,
        hub_capabilitySecret = secret, hub_guard = guard, hub_policy = policy,
        hub_oauthStateStore = nullish oauth newOauth, hub_oauthStateTtlMs = nullish ttl (10 * 60 * 1000), hub_now = now\<rparr>)"

definition requireProvider :: "'w IntegrationHub \<Rightarrow> string \<Rightarrow> ('w, exn, 'w IntegrationProvider) io" where
  "requireProvider hub pid =
     (case map_of (hub_providers hub) pid of
        None \<Rightarrow> throw (IntegrationError (''Provider '' @ pid @ '' not found.'') provider_not_found)
      | Some p \<Rightarrow> ret p)"

definition requireConnector :: "'w IntegrationProvider \<Rightarrow> string \<Rightarrow> ('w, exn, IntegrationConnector) io" where
  "requireConnector p cid =
     andThen (prov_listConnectors p) (\<lambda>cs.
     case find (\<lambda>c. con_id c = cid) cs of
       None \<Rightarrow> throw (IntegrationError (''Connector '' @ cid @ '' not found.'') connector_not_found)
     | Some c \<Rightarrow> ret c)"

definition requireConnection :: "'w IntegrationHub \<Rightarrow> string \<Rightarrow> ('w, exn, IntegrationConnection) io" where
  "requireConnection hub cid =
     andThen (store_get (hub_store hub) cid) (\<lambda>found.
     case found of
       None \<Rightarrow> throw (IntegrationError (''Connection '' @ cid @ '' not found.'') connection_not_found)
     | Some c \<Rightarrow> ret c)"

definition assertConnectionActive :: "('w, 'a) hub_platform_scheme \<Rightarrow> 'w IntegrationHub \<Rightarrow> IntegrationConnection \<Rightarrow> ('w, exn, unit) io" where
  "assertConnectionActive pf hub c =
     (if conn_status c \<noteq> cs_active then
        throw (IntegrationError (''Connection '' @ conn_id c @ '' is '' @ connection_status_name (conn_status c) @ ''.'') connection_not_active)
      else if \<not> truthy (conn_expiresAt c) then ret ()
      else andThen (hub_now hub) (\<lambda>now.
        if parsed_by (pf_dates pf) (the (conn_expiresAt c)) now then
          throw (IntegrationError (''Connection '' @ conn_id c @ '' is expired.'') connection_not_active)
        else ret ()))"

text \<open>\<open>missing.join(', ')\<close>.\<close>

fun joined :: "string \<Rightarrow> string list \<Rightarrow> string" where
  "joined sep [] = []"
| "joined sep [x] = x"
| "joined sep (x # xs) = x @ sep @ joined sep xs"

definition assertScopes :: "string list \<Rightarrow> string list \<Rightarrow> ('w, exn, unit) io" where
  "assertScopes granted required =
     (let missing = filter (\<lambda>s. s \<notin> set granted) required in
      if missing \<noteq> [] then
        throw (IntegrationError (''Missing integration scopes: '' @ joined '', '' missing) scope_denied)
      else ret ())"

fun listAll :: "'w IntegrationProvider list \<Rightarrow> ('w, exn, IntegrationConnector list list) io" where
  "listAll [] = ret []"
| "listAll (p # ps) = andThen (prov_listConnectors p) (\<lambda>cs. andThen (listAll ps) (\<lambda>rest. ret (cs # rest)))"

definition hub_listConnectors :: "'w IntegrationHub \<Rightarrow> ('w, exn, IntegrationConnector list) io" where
  "hub_listConnectors hub = andThen (listAll (map snd (hub_providers hub))) (\<lambda>css. ret (concat css))"

subsection \<open>OAuth\<close>

datatype IntegrationOAuthPkceMode = pkce_required | pkce_supported | pkce_unsupported

definition connectorOAuthPkceMode :: "IntegrationConnector \<Rightarrow> exn + IntegrationOAuthPkceMode" where
  "connectorOAuthPkceMode c =
     (case meta_field (con_metadata c) ''oauthPkce'' of
        None \<Rightarrow> Inr pkce_required
      | Some v \<Rightarrow>
          if v = JStr ''required'' then Inr pkce_required
          else if v = JStr ''supported'' then Inr pkce_supported
          else if v = JStr ''unsupported'' then Inr pkce_unsupported
          else Inl (IntegrationError (''Connector '' @ con_id c @ '' declares an invalid OAuth PKCE posture.'') config_missing))"

text \<open>The verifier and its S256 challenge.\<close>

definition createPkcePair :: "('w, 'a) hub_platform_scheme \<Rightarrow> ('w, exn, string \<times> string) io" where
  "createPkcePair pf = andThen (pf_randomBytes48 pf) (\<lambda>verifier. ret (verifier, pf_sha256 pf verifier))"

definition auth_not_supported_error :: "string \<Rightarrow> exn" where
  "auth_not_supported_error m = IntegrationError m auth_not_supported"

definition startAuth :: "('w, 'a) hub_platform_scheme \<Rightarrow> 'w IntegrationHub \<Rightarrow> string \<Rightarrow> StartAuthRequest \<Rightarrow> ('w, exn, StartAuthResult) io" where
  "startAuth pf hub pid req =
     andThen (requireProvider hub pid) (\<lambda>p.
     case prov_startAuth p of
       None \<Rightarrow> throw (auth_not_supported_error (''Provider '' @ pid @ '' does not support auth start.''))
     | Some start \<Rightarrow>
         andThen (requireConnector p (sa_connectorId req)) (\<lambda>c.
         andThen (liftE (connectorOAuthPkceMode c)) (\<lambda>mode.
         andThen (if mode = pkce_unsupported then ret None else andThen (createPkcePair pf) (\<lambda>pair. ret (Some pair))) (\<lambda>pair.
         andThen (start (req\<lparr>sa_codeChallenge := map_option snd pair\<rparr>)) (\<lambda>result.
         andThen (hub_now hub) (\<lambda>now.
         andThen (oauth_put (hub_oauthStateStore hub)
            \<lparr>os_state = sr_state result, os_providerId = pid, os_connectorId = sa_connectorId req, os_owner = sa_owner req,
             os_requestedScopes = nullish (sr_requestedScopes result) (sa_requestedScopes req),
             os_redirectUri = sa_redirectUri req, os_codeVerifier = map_option fst pair,
             os_expiresAt = now + hub_oauthStateTtlMs hub,
             os_metadata = nullish_opt (sr_metadata result) (sa_metadata req)\<rparr>)
           (\<lambda>_. ret result)))))))"

fun oauth_miss_name :: "oauth_miss \<Rightarrow> string" where
  "oauth_miss_name miss_unknown = ''unknown''"
| "oauth_miss_name miss_expired = ''expired''"

definition pinned_metadata :: "metadata option \<Rightarrow> metadata option \<Rightarrow> metadata option" where
  "pinned_metadata given pinned =
     (if given = None \<and> pinned = None then None else Some (spread (nullish given []) (nullish pinned [])))"

definition pinned_request :: "CompleteAuthRequest \<Rightarrow> IntegrationOAuthState \<Rightarrow> CompleteAuthRequest" where
  "pinned_request req s = req\<lparr>ca_connectorId := os_connectorId s, ca_owner := os_owner s, ca_state := os_state s,
     ca_redirectUri := os_redirectUri s, ca_codeVerifier := os_codeVerifier s,
     ca_requestedScopes := Some (os_requestedScopes s),
     ca_metadata := pinned_metadata (ca_metadata req) (os_metadata s)\<rparr>"

definition completeAuth :: "'w IntegrationHub \<Rightarrow> string \<Rightarrow> CompleteAuthRequest \<Rightarrow> ('w, exn, IntegrationConnection) io" where
  "completeAuth hub pid req =
     andThen (requireProvider hub pid) (\<lambda>p.
     case prov_completeAuth p of
       None \<Rightarrow> throw (auth_not_supported_error (''Provider '' @ pid @ '' does not support auth completion.''))
     | Some finish \<Rightarrow>
         andThen (oauth_consume (hub_oauthStateStore hub) (ca_state req)) (\<lambda>outcome.
         case outcome of
           StateMiss why \<Rightarrow> throw (capability_invalid_error
             (''Integration OAuth state '' @ oauth_miss_name why @ '': possible CSRF, replay, or stale flow.''))
         | StateFound s \<Rightarrow>
             if os_providerId s \<noteq> pid \<or> os_connectorId s \<noteq> ca_connectorId req then
               throw (capability_invalid_error ''Integration OAuth state does not match completion request.'')
             else if os_redirectUri s \<noteq> ca_redirectUri req then
               throw (capability_invalid_error ''Integration OAuth redirect URI does not match the start request.'')
             else andThen (finish (pinned_request req s)) (\<lambda>connection.
               andThen (store_put (hub_store hub) connection) (\<lambda>_. ret connection))))"

definition connectApiKey :: "'w IntegrationHub \<Rightarrow> string \<Rightarrow> ConnectApiKeyRequest \<Rightarrow> ('w, exn, IntegrationConnection) io" where
  "connectApiKey hub pid req =
     andThen (requireProvider hub pid) (\<lambda>p.
     case prov_connectApiKey p of
       None \<Rightarrow> throw (auth_not_supported_error ''Provider does not support API-key connections.'')
     | Some connect \<Rightarrow> andThen (connect req) (\<lambda>connection.
         andThen (store_put (hub_store hub) connection) (\<lambda>_. ret connection)))"

definition testConnection :: "('w, 'a) hub_platform_scheme \<Rightarrow> 'w IntegrationHub \<Rightarrow> string \<Rightarrow> ('w, exn, IntegrationConnectionTestStatus) io" where
  "testConnection pf hub cid =
     andThen (requireConnection hub cid) (\<lambda>c.
     andThen (assertConnectionActive pf hub c) (\<lambda>_.
     andThen (requireProvider hub (conn_providerId c)) (\<lambda>p.
     case prov_testConnection p of None \<Rightarrow> ret probe_unsupported | Some probe \<Rightarrow> probe c)))"

definition upsertConnection :: "'w IntegrationHub \<Rightarrow> IntegrationConnection \<Rightarrow> ('w, exn, IntegrationConnection) io" where
  "upsertConnection hub c = andThen (store_put (hub_store hub) c) (\<lambda>_. ret c)"

definition listConnections :: "'w IntegrationHub \<Rightarrow> IntegrationActor \<Rightarrow> ('w, exn, IntegrationConnection list) io" where
  "listConnections hub who = store_listByOwner (hub_store hub) who"

definition getConnection :: "'w IntegrationHub \<Rightarrow> string \<Rightarrow> ('w, exn, IntegrationConnection option) io" where
  "getConnection hub cid = store_get (hub_store hub) cid"

subsection \<open>Capabilities\<close>

definition issueCapability :: "('w, 'a) hub_platform_scheme \<Rightarrow> 'w IntegrationHub \<Rightarrow> IssueCapabilityRequest \<Rightarrow>
    ('w, exn, IssuedIntegrationCapability) io" where
  "issueCapability pf hub req =
     andThen (requireConnection hub (ic_connectionId req)) (\<lambda>c.
     andThen (assertConnectionActive pf hub c) (\<lambda>_.
     andThen (assertScopes (conn_grantedScopes c) (ic_scopes req)) (\<lambda>_.
     andThen (hub_now hub) (\<lambda>now.
     andThen (pf_uuid pf) (\<lambda>u.
     andThen (liftE (toISO (pf_dates pf) now)) (\<lambda>issued.
     andThen (liftE (toISO (pf_dates pf) (now + ic_ttlMs req))) (\<lambda>expires.
     let cap = \<lparr>cap_id = ''cap_'' @ u, cap_subject = ic_subject req, cap_connectionId = ic_connectionId req,
        cap_scopes = unique (ic_scopes req), cap_allowedActions = unique (ic_allowedActions req),
        cap_issuedAt = issued, cap_expiresAt = expires, cap_metadata = ic_metadata req\<rparr>
     in ret \<lparr>issued_capability = cap, issued_token = signCapability pf cap (hub_capabilitySecret hub)\<rparr>)))))))"

definition verifyCapability :: "('w, 'a) hub_platform_scheme \<Rightarrow> 'w IntegrationHub \<Rightarrow> string \<Rightarrow> ('w, exn, IntegrationCapability) io" where
  "verifyCapability pf hub tok =
     andThen (liftE (verifyCapabilityToken pf tok (hub_capabilitySecret hub))) (\<lambda>c.
     andThen (hub_now hub) (\<lambda>now.
     if parsed_by (pf_dates pf) (cap_expiresAt c) now then
       throw (IntegrationError ''Integration capability expired.'' capability_expired)
     else ret c))"

text \<open>An action request without its connection, as a capability holder sends it: the connection
  field of the request is not read.\<close>

type_synonym InvokeWithCapabilityRequest = IntegrationActionRequest

text \<open>The checks before an action: the capability, the connection, its provider and the action.\<close>

definition authorizeAction :: "('w, 'a) hub_platform_scheme \<Rightarrow> 'w IntegrationHub \<Rightarrow> string \<Rightarrow> InvokeWithCapabilityRequest \<Rightarrow>
    ('w, exn, IntegrationCapability \<times> IntegrationConnection \<times> 'w IntegrationProvider \<times> IntegrationConnectorAction) io" where
  "authorizeAction pf hub tok req =
     andThen (verifyCapability pf hub tok) (\<lambda>cap.
     if rq_action req \<notin> set (cap_allowedActions cap) then
       throw (IntegrationError (''Capability does not allow action '' @ rq_action req @ ''.'') action_denied)
     else
     andThen (requireConnection hub (cap_connectionId cap)) (\<lambda>c.
     andThen (assertConnectionActive pf hub c) (\<lambda>_.
     andThen (requireProvider hub (conn_providerId c)) (\<lambda>p.
     andThen (requireConnector p (conn_connectorId c)) (\<lambda>con.
     case find (\<lambda>a. act_id a = rq_action req) (con_actions con) of
       None \<Rightarrow> throw (IntegrationError
         (''Action '' @ rq_action req @ '' is not defined by connector '' @ con_id con @ ''.'') action_not_found)
     | Some a \<Rightarrow>
         andThen (assertScopes (conn_grantedScopes c) (act_requiredScopes a)) (\<lambda>_.
         andThen (assertScopes (cap_scopes cap) (act_requiredScopes a)) (\<lambda>_.
         ret (cap, c, p, a))))))))"

fun data_class_name :: "IntegrationDataClass \<Rightarrow> string" where
  "data_class_name dc_public = ''public''"
| "data_class_name dc_internal = ''internal''"
| "data_class_name dc_private = ''private''"
| "data_class_name dc_sensitive = ''sensitive''"
| "data_class_name dc_secret = ''secret''"

definition approval_json :: "IntegrationApprovalRequest \<Rightarrow> json" where
  "approval_json ap = JObj
     ([(''id'', JStr (ap_id ap)), (''connectionId'', JStr (ap_connectionId ap)), (''providerId'', JStr (ap_providerId ap)),
       (''connectorId'', JStr (ap_connectorId ap)), (''action'', JStr (ap_action ap)), (''actor'', actor_json (ap_actor ap)),
       (''risk'', JStr (risk_name (ap_risk ap))), (''dataClass'', JStr (data_class_name (ap_dataClass ap))),
       (''reason'', JStr (ap_reason ap)), (''requestedAt'', JStr (ap_requestedAt ap))] @
      opt_val ''inputPreview'' (ap_inputPreview ap) @ opt_val ''metadata'' (map_option JObj (ap_metadata ap)))"

text \<open>The closure \<open>proceed\<close>: the policy, then the provider.\<close>

definition proceedAction :: "'w IntegrationHub \<Rightarrow> IntegrationCapability \<Rightarrow> IntegrationConnection \<Rightarrow> 'w IntegrationProvider \<Rightarrow>
    IntegrationConnectorAction \<Rightarrow> IntegrationActionRequest \<Rightarrow> ('w, exn, IntegrationActionResult) io" where
  "proceedAction hub cap c p a full =
     (case hub_policy hub of
        None \<Rightarrow> prov_invokeAction p c full
      | Some policy \<Rightarrow>
          andThen (policy \<lparr>gc_connection = c, gc_request = full, gc_action = Some a\<rparr> (cap_subject cap)) (\<lambda>decision.
          case decision of
            Deny reason _ \<Rightarrow> throw (IntegrationError reason policy_denied)
          | RequireApproval reason ap meta \<Rightarrow>
              ret \<lparr>ar_ok = False, ar_action = rq_action full,
                ar_output = Some (JObj [(''approvalRequired'', JBool True), (''approval'', approval_json ap)]),
                ar_externalId = None, ar_warnings = None,
                ar_metadata = Some (spread [(''policyDecision'', JStr ''require_approval''), (''reason'', JStr reason)] (nullish meta []))\<rparr>
          | Allow _ _ \<Rightarrow> prov_invokeAction p c full))"

definition invokeWithCapability :: "('w, 'a) hub_platform_scheme \<Rightarrow> 'w IntegrationHub \<Rightarrow> string \<Rightarrow> InvokeWithCapabilityRequest \<Rightarrow>
    ('w, exn, IntegrationActionResult) io" where
  "invokeWithCapability pf hub tok req =
     andThen (authorizeAction pf hub tok req) (\<lambda>(cap, c, p, a).
     let full = req\<lparr>rq_connectionId := conn_id c\<rparr>;
         run = proceedAction hub cap c p a full
     in case hub_guard hub of
          None \<Rightarrow> run
        | Some guard \<Rightarrow> guard \<lparr>gc_connection = c, gc_request = full, gc_action = Some a\<rparr> run)"

definition subscribeTrigger :: "('w, 'a) hub_platform_scheme \<Rightarrow> 'w IntegrationHub \<Rightarrow> string \<Rightarrow> string \<Rightarrow> string option \<Rightarrow>
    ('w, exn, IntegrationTriggerSubscription) io" where
  "subscribeTrigger pf hub cid trigger targetUrl =
     andThen (requireConnection hub cid) (\<lambda>c.
     andThen (assertConnectionActive pf hub c) (\<lambda>_.
     andThen (requireProvider hub (conn_providerId c)) (\<lambda>p.
     andThen (requireConnector p (conn_connectorId c)) (\<lambda>con.
     case find (\<lambda>t. trg_id t = trigger) (nullish (con_triggers con) []) of
       None \<Rightarrow> throw (IntegrationError (''Trigger '' @ trigger @ '' is not defined by connector '' @ con_id con @ ''.'') trigger_not_found)
     | Some spec \<Rightarrow>
         andThen (assertScopes (conn_grantedScopes c) (trg_requiredScopes spec)) (\<lambda>_.
         case prov_subscribeTrigger p of
           None \<Rightarrow> throw (auth_not_supported_error (''Provider '' @ prov_id p @ '' does not support triggers.''))
         | Some subscribe \<Rightarrow> subscribe c trigger targetUrl)))))"

section \<open>Reading tokens back\<close>

lemma split_on_none: "c \<notin> set s \<Longrightarrow> split_on c s = [s]"
  by (induction s) auto

lemma split_on_first: "c \<notin> set s \<Longrightarrow> split_on c (s @ c # r) = s # split_on c r"
  by (induction s) auto

lemma actor_type_round_trip: "as_actor_type (actor_type_name t) = Some t"
  by (cases t) (simp_all add: as_actor_type_def)

lemma strings_round_trip: "as_strings (map JStr ss) = Some ss"
  by (induction ss) auto

lemma capability_round_trip: "capability_of_json (capability_json c) = Some c"
  by (cases "cap_metadata c")
    (simp_all add: capability_of_json_def capability_json_def actor_json_def as_actor_def opt_field_def opt_val_def
      strings_json_def strings_round_trip actor_type_round_trip)

lemma textual_capability:
  "(\<And>m. cap_metadata c = Some m \<Longrightarrow> textual (JObj m)) \<Longrightarrow> textual (capability_json c)"
  by (cases "cap_metadata c") (auto simp: capability_json_def actor_json_def strings_json_def opt_val_def list_all_iff)

text \<open>The MAC of the platform is a non-empty base64url text, so it holds no dot.\<close>

definition mac_text :: "('w, 'a) hub_platform_scheme \<Rightarrow> string \<Rightarrow> bool" where
  "mac_text pf secret \<longleftrightarrow> (\<forall>p. pf_hmac pf p secret \<noteq> [] \<and> CHR ''.'' \<notin> set (pf_hmac pf p secret))"

lemma sign_verify:
  assumes "mac_text pf secret" "cap_id c \<noteq> []" "cap_connectionId c \<noteq> []"
    "\<And>m. cap_metadata c = Some m \<Longrightarrow> textual (JObj m)"
  shows "verifyCapabilityToken pf (signCapability pf c secret) secret = Inr c"
proof -
  let ?p = "base64UrlEncode (stringify (capability_json c))"
  have "split_on (CHR ''.'') (?p @ CHR ''.'' # pf_hmac pf ?p secret) = [?p, pf_hmac pf ?p secret]"
    using assms(1) by (simp add: split_on_first [OF no_dot] split_on_none mac_text_def)
  moreover have "JSON_parse (stringify (capability_json c)) = Some (capability_json c)"
    using assms(4) by (intro JSON_round_trip textual_capability)
  ultimately show ?thesis
    using assms(1-3)
    by (simp add: verifyCapabilityToken_def signCapability_def Let_def encoded_Nil buffer_round_trip capability_round_trip mac_text_def)
qed

text \<open>A token is only accepted with the MAC of its payload under the secret.\<close>

lemma verified_token:
  assumes "verifyCapabilityToken pf tok secret = Inr c"
  obtains payload rest where "split_on (CHR ''.'') tok = payload # pf_hmac pf payload secret # rest"
    "cap_id c \<noteq> []" "cap_connectionId c \<noteq> []"
  using assms
  by (auto simp: verifyCapabilityToken_def split: list.splits if_splits option.splits)

section \<open>What a run of an action presupposes\<close>

text \<open>The authority for an action, as it stood when the checks were made: a token with the MAC of the
  hub that has not expired and lists the action, the active connection it names, a provider and a
  connector that define the action, and the scopes of the action both in the grant of the connection
  and in the capability.\<close>

definition authority :: "('w, 'a) hub_platform_scheme \<Rightarrow> 'w IntegrationHub \<Rightarrow> string \<Rightarrow> InvokeWithCapabilityRequest \<Rightarrow> 'w \<Rightarrow>
    IntegrationCapability \<Rightarrow> IntegrationConnection \<Rightarrow> 'w IntegrationProvider \<Rightarrow> IntegrationConnectorAction \<Rightarrow> bool" where
  "authority pf hub tok req w cap c p a \<longleftrightarrow>
     (\<exists>payload rest. split_on (CHR ''.'') tok = payload # pf_hmac pf payload (hub_capabilitySecret hub) # rest) \<and>
     verifyCapabilityToken pf tok (hub_capabilitySecret hub) = Inr cap \<and>
     rq_action req \<in> set (cap_allowedActions cap) \<and>
     (\<exists>n w1 w2. hub_now hub w = (Inr n, w1) \<and> \<not> parsed_by (pf_dates pf) (cap_expiresAt cap) n \<and>
        store_get (hub_store hub) (cap_connectionId cap) w1 = (Inr (Some c), w2) \<and> conn_status c = cs_active \<and>
        (truthy (conn_expiresAt c) \<longrightarrow>
           (\<exists>m w3. hub_now hub w2 = (Inr m, w3) \<and> \<not> parsed_by (pf_dates pf) (the (conn_expiresAt c)) m))) \<and>
     map_of (hub_providers hub) (conn_providerId c) = Some p \<and>
     (\<exists>con :: IntegrationConnector. con_id con = conn_connectorId c \<and> a \<in> set (con_actions con)) \<and> act_id a = rq_action req \<and>
     set (act_requiredScopes a) \<subseteq> set (conn_grantedScopes c) \<inter> set (cap_scopes cap)"

lemma authorized:
  assumes "authorizeAction pf hub tok req w = (Inr (cap, c, p, a), w')"
  shows "authority pf hub tok req w cap c p a"
proof -
  from assms obtain n w1 where v: "verifyCapabilityToken pf tok (hub_capabilitySecret hub) = Inr cap"
    "hub_now hub w = (Inr n, w1)" "\<not> parsed_by (pf_dates pf) (cap_expiresAt cap) n"
    "rq_action req \<in> set (cap_allowedActions cap)"
    by (auto simp: authorizeAction_def verifyCapability_def io_defs split: sum.splits prod.splits if_splits option.splits)
  with assms obtain w2 where g: "store_get (hub_store hub) (cap_connectionId cap) w1 = (Inr (Some c), w2)"
    "conn_status c = cs_active" and p: "map_of (hub_providers hub) (conn_providerId c) = Some p"
    and e: "truthy (conn_expiresAt c) \<longrightarrow>
      (\<exists>m w3. hub_now hub w2 = (Inr m, w3) \<and> \<not> parsed_by (pf_dates pf) (the (conn_expiresAt c)) m)"
    by (auto simp: authorizeAction_def verifyCapability_def requireConnection_def assertConnectionActive_def
        requireProvider_def io_defs split: sum.splits prod.splits if_splits option.splits)
  from assms obtain cs :: "IntegrationConnector list" and con where con: "find (\<lambda>c'. con_id c' = conn_connectorId c) cs = Some con"
    "find (\<lambda>a. act_id a = rq_action req) (con_actions con) = Some a"
    "filter (\<lambda>s. s \<notin> set (conn_grantedScopes c)) (act_requiredScopes a) = []"
    "filter (\<lambda>s. s \<notin> set (cap_scopes cap)) (act_requiredScopes a) = []"
    by (auto simp: authorizeAction_def requireConnector_def assertScopes_def io_defs Let_def
        split: sum.splits prod.splits if_splits option.splits)
  have a: "con_id con = conn_connectorId c" "a \<in> set (con_actions con)" "act_id a = rq_action req"
    using con(1,2) by (auto simp: find_Some_iff)
  have s: "set (act_requiredScopes a) \<subseteq> set (conn_grantedScopes c) \<inter> set (cap_scopes cap)"
    using con(3,4) by (auto simp: filter_empty_conv)
  from v(1) obtain payload rest where "split_on (CHR ''.'') tok = payload # pf_hmac pf payload (hub_capabilitySecret hub) # rest"
    by (rule verified_token)
  with v g p e a s show ?thesis unfolding authority_def by blast
qed

text \<open>The same hub with other actions behind its providers.\<close>

definition with_actions :: "(string \<Rightarrow> IntegrationConnection \<Rightarrow> IntegrationActionRequest \<Rightarrow> ('w, exn, IntegrationActionResult) io) \<Rightarrow>
    'w IntegrationHub \<Rightarrow> 'w IntegrationHub" where
  "with_actions f hub = hub\<lparr>hub_providers := map (\<lambda>(i, p). (i, p\<lparr>prov_invokeAction := f i\<rparr>)) (hub_providers hub)\<rparr>"

lemma with_actions_simps [simp]:
  "hub_store (with_actions f hub) = hub_store hub" "hub_now (with_actions f hub) = hub_now hub"
  "hub_capabilitySecret (with_actions f hub) = hub_capabilitySecret hub"
  "hub_guard (with_actions f hub) = hub_guard hub" "hub_policy (with_actions f hub) = hub_policy hub"
  "map_of (hub_providers (with_actions f hub)) i = map_option (\<lambda>p. p\<lparr>prov_invokeAction := f i\<rparr>) (map_of (hub_providers hub) i)"
proof -
  have "map_of (map (\<lambda>(i, p). (i, p\<lparr>prov_invokeAction := f i\<rparr>)) ps) i = map_option (\<lambda>p. p\<lparr>prov_invokeAction := f i\<rparr>) (map_of ps i)" for ps :: "(string \<times> 'a IntegrationProvider) list"
    by (induction ps) auto
  then show "map_of (hub_providers (with_actions f hub)) i = map_option (\<lambda>p. p\<lparr>prov_invokeAction := f i\<rparr>) (map_of (hub_providers hub) i)"
    by (simp add: with_actions_def)
qed (simp_all add: with_actions_def)

lemma requires_with_actions:
  "requireConnection (with_actions f hub) = requireConnection hub"
  "assertConnectionActive pf (with_actions f hub) = assertConnectionActive pf hub"
  "verifyCapability pf (with_actions f hub) = verifyCapability pf hub"
  "requireConnector (p\<lparr>prov_invokeAction := g\<rparr>) cid = requireConnector p cid"
  by (simp_all add: requireConnection_def assertConnectionActive_def verifyCapability_def requireConnector_def fun_eq_iff)

lemma requireProvider_with_actions:
  "requireProvider (with_actions f hub) i =
     andThen (requireProvider hub i) (\<lambda>p. ret (p\<lparr>prov_invokeAction := f i\<rparr>))"
  by (cases "map_of (hub_providers hub) i") (simp_all add: requireProvider_def)

lemma authorize_with_actions:
  "authorizeAction pf (with_actions f hub) tok req =
     andThen (authorizeAction pf hub tok req)
       (\<lambda>(cap, c, p, a). ret (cap, c, p\<lparr>prov_invokeAction := f (conn_providerId c)\<rparr>, a))"
  unfolding authorizeAction_def requires_with_actions requireProvider_with_actions
  by (simp add: andThen_assoc andThen_if andThen_option requires_with_actions cong: if_cong option.case_cong)

lemma run_authorized:
  assumes "invokeWithCapability pf hub tok req w \<noteq> invokeWithCapability pf (with_actions f hub) tok req w"
  shows "\<exists>cap c p a w1. authorizeAction pf hub tok req w = (Inr (cap, c, p, a), w1)"
  using assms by (auto simp: invokeWithCapability_def authorize_with_actions andThen_def split: sum.splits prod.splits)

section \<open>OAuth states\<close>

lemma pkce_pair:
  assumes "(if mode = pkce_unsupported then ret None else andThen (createPkcePair pf) (\<lambda>pair. ret (Some pair))) w = (Inr pair, w')"
  shows "map_option snd pair = map_option (pf_sha256 pf) (map_option fst pair)"
  using assms by (auto simp: createPkcePair_def runs split: if_splits)

text \<open>The contract of a store of single-use states, against the map it represents.\<close>

locale oauth_state_store =
  fixes st :: "'w IntegrationOAuthStateStore" and recs :: "'w \<Rightarrow> string \<Rightarrow> IntegrationOAuthState option"
  assumes put_law: "oauth_put st s w = (x, w') \<Longrightarrow> x = Inr () \<and> recs w' = (recs w)(os_state s \<mapsto> s)"
    and consume_law: "oauth_consume st k w = (y, w') \<Longrightarrow> recs w' = (recs w)(k := None)"
    and found_law: "oauth_consume st k w = (Inr (StateFound s), w') \<Longrightarrow> recs w k = Some s"
    and unknown_law: "recs w k = None \<Longrightarrow> fst (oauth_consume st k w) = Inr (StateMiss miss_unknown)"

context oauth_state_store
begin

lemma completion_uses_record:
  assumes "completeAuth hub pid req w = (Inr c, w')" "hub_oauthStateStore hub = st"
  shows "\<exists>p finish s w1 w2. map_of (hub_providers hub) pid = Some p \<and> prov_completeAuth p = Some finish \<and>
     recs w (ca_state req) = Some s \<and> os_providerId s = pid \<and> os_connectorId s = ca_connectorId req \<and>
     os_redirectUri s = ca_redirectUri req \<and> recs w1 = (recs w)(ca_state req := None) \<and>
     finish (pinned_request req s) w1 = (Inr c, w2) \<and> store_put (hub_store hub) c w2 = (Inr (), w')"
proof -
  from assms obtain p finish s w1 w2 where "map_of (hub_providers hub) pid = Some p" "prov_completeAuth p = Some finish"
    and o: "oauth_consume st (ca_state req) w = (Inr (StateFound s), w1)"
    and "os_providerId s = pid" "os_connectorId s = ca_connectorId req" "os_redirectUri s = ca_redirectUri req"
    and "finish (pinned_request req s) w1 = (Inr c, w2)" "store_put (hub_store hub) c w2 = (Inr (), w')"
    by (auto simp: completeAuth_def requireProvider_def io_defs
        split: sum.splits prod.splits option.splits if_splits IntegrationOAuthStateOutcome.splits)
  with found_law [OF o] consume_law [OF o] show ?thesis by blast
qed

lemma unknown_state_fails:
  assumes "recs w (ca_state req) = None" "hub_oauthStateStore hub = st"
  shows "\<exists>e. fst (completeAuth hub pid req w) = Inl e"
  using unknown_law [OF assms(1)] assms(2)
  by (auto simp: completeAuth_def requireProvider_def io_defs split: option.splits prod.splits sum.splits)

text \<open>An attempt that reached the store has used the state up, whatever came of it.\<close>

lemma attempt_consumes:
  assumes "completeAuth hub pid req w = (r, w')" "hub_oauthStateStore hub = st"
    "map_of (hub_providers hub) pid = Some p" "prov_completeAuth p = Some finish"
    "\<And>q. keeps (\<lambda>w. recs w (ca_state req)) (finish q)" "\<And>c. keeps (\<lambda>w. recs w (ca_state req)) (store_put (hub_store hub) c)"
  shows "recs w' (ca_state req) = None"
proof -
  obtain x w1 where o: "oauth_consume st (ca_state req) w = (x, w1)" by fastforce
  from consume_law [OF o] have n: "recs w1 (ca_state req) = None" by simp
  let ?rest = "\<lambda>outcome. case outcome of
       StateMiss why \<Rightarrow> throw (capability_invalid_error
             (''Integration OAuth state '' @ oauth_miss_name why @ '': possible CSRF, replay, or stale flow.''))
     | StateFound s \<Rightarrow>
         if os_providerId s \<noteq> pid \<or> os_connectorId s \<noteq> ca_connectorId req then
           throw (capability_invalid_error ''Integration OAuth state does not match completion request.'')
         else if os_redirectUri s \<noteq> ca_redirectUri req then
           throw (capability_invalid_error ''Integration OAuth redirect URI does not match the start request.'')
         else andThen (finish (pinned_request req s)) (\<lambda>connection.
           andThen (store_put (hub_store hub) connection) (\<lambda>_. ret connection))"
  have "completeAuth hub pid req = andThen (oauth_consume st (ca_state req)) ?rest"
    by (simp only: completeAuth_def requireProvider_def assms(2-4) option.case andThen_ret)
  then have run: "completeAuth hub pid req w = (case x of Inl e \<Rightarrow> (Inl e, w1) | Inr outcome \<Rightarrow> ?rest outcome w1)"
    using o by (simp add: andThen_def)
  have "keeps (\<lambda>w. recs w (ca_state req)) (?rest outcome)" for outcome
    using assms(5,6) by (cases outcome) (auto intro!: keeps_andThen)
  then have "recs w' (ca_state req) = recs w1 (ca_state req)"
    using assms(1) run by (cases x) (auto dest: keepsD)
  then show ?thesis using n by simp
qed

lemma started_flow:
  assumes "startAuth pf hub pid req w = (Inr result, w')" "hub_oauthStateStore hub = st"
  shows "\<exists>s p start wa wb n wd. recs w' (sr_state result) = Some s \<and> map_of (hub_providers hub) pid = Some p \<and>
     prov_startAuth p = Some start \<and>
     start (req\<lparr>sa_codeChallenge := map_option (pf_sha256 pf) (os_codeVerifier s)\<rparr>) wa = (Inr result, wb) \<and>
     hub_now hub wb = (Inr n, wd) \<and> os_expiresAt s = n + hub_oauthStateTtlMs hub \<and>
     os_state s = sr_state result \<and> os_providerId s = pid \<and> os_connectorId s = sa_connectorId req \<and>
     os_owner s = sa_owner req \<and> os_redirectUri s = sa_redirectUri req \<and>
     os_requestedScopes s = nullish (sr_requestedScopes result) (sa_requestedScopes req)"
proof -
  from assms obtain p start mode wp wa pair w2 n w3 u where p: "map_of (hub_providers hub) pid = Some p" "prov_startAuth p = Some start"
    and pr: "(if mode = pkce_unsupported then ret None else andThen (createPkcePair pf) (\<lambda>pair. ret (Some pair))) wp = (Inr pair, wa)"
    and r: "start (req\<lparr>sa_codeChallenge := map_option snd pair\<rparr>) wa = (Inr result, w2)" "hub_now hub w2 = (Inr n, w3)"
    and o: "oauth_put st \<lparr>os_state = sr_state result, os_providerId = pid, os_connectorId = sa_connectorId req, os_owner = sa_owner req,
             os_requestedScopes = nullish (sr_requestedScopes result) (sa_requestedScopes req),
             os_redirectUri = sa_redirectUri req, os_codeVerifier = map_option fst pair,
             os_expiresAt = n + hub_oauthStateTtlMs hub,
             os_metadata = nullish_opt (sr_metadata result) (sa_metadata req)\<rparr> w3 = (Inr u, w')"
    by (auto simp only: startAuth_def requireProvider_def runs option.inject)
  from r(1) have s: "start (req\<lparr>sa_codeChallenge := map_option (pf_sha256 pf) (map_option fst pair)\<rparr>) wa = (Inr result, w2)"
    by (simp only: pkce_pair [OF pr])
  let ?s = "\<lparr>os_state = sr_state result, os_providerId = pid, os_connectorId = sa_connectorId req, os_owner = sa_owner req,
             os_requestedScopes = nullish (sr_requestedScopes result) (sa_requestedScopes req),
             os_redirectUri = sa_redirectUri req, os_codeVerifier = map_option fst pair,
             os_expiresAt = n + hub_oauthStateTtlMs hub,
             os_metadata = nullish_opt (sr_metadata result) (sa_metadata req)\<rparr>"
  from put_law [OF o] have "recs w' (sr_state result) = Some ?s" by simp
  with p s r(2) show ?thesis
    by - (rule exI [of _ ?s], rule exI [of _ p], rule exI [of _ start], rule exI [of _ wa], rule exI [of _ w2],
        rule exI [of _ n], rule exI [of _ w3], simp)
qed

end

interpretation memory_states: oauth_state_store
  "mem_oauth_states :: 'a InMemoryIntegrationOAuthStateStore_scheme IntegrationOAuthStateStore" oauth_states
  by unfold_locales (auto simp: mem_oauth_states_def io_defs split: option.splits if_splits)

section \<open>Properties\<close>

lemma run_allowed:
  assumes "invokeWithCapability pf hub tok req w \<noteq> invokeWithCapability pf (with_actions f hub) tok req w"
    and run: "authorizeAction pf hub tok req w = (Inr (cap, c, p, a), w1)" and "hub_guard hub = None"
  shows "case hub_policy hub of None \<Rightarrow> True | Some policy \<Rightarrow> \<exists>w1 reason m w2.
      policy \<lparr>gc_connection = c, gc_request = req\<lparr>rq_connectionId := conn_id c\<rparr>, gc_action = Some a\<rparr> (cap_subject cap) w1
        = (Inr (Allow reason m), w2)"
proof (rule ccontr)
  assume no: "\<not> ?thesis"
  then obtain policy where "hub_policy hub = Some policy"
    "\<And>w1 reason m w2. policy \<lparr>gc_connection = c, gc_request = req\<lparr>rq_connectionId := conn_id c\<rparr>, gc_action = Some a\<rparr>
        (cap_subject cap) w1 \<noteq> (Inr (Allow reason m), w2)"
    by (auto split: option.splits)
  then have "proceedAction hub cap c p a (req\<lparr>rq_connectionId := conn_id c\<rparr>) w1 =
      proceedAction (with_actions f hub) cap c (p\<lparr>prov_invokeAction := f (conn_providerId c)\<rparr>) a (req\<lparr>rq_connectionId := conn_id c\<rparr>) w1"
    by (auto simp: proceedAction_def andThen_def split: sum.splits prod.splits IntegrationPolicyDecision.splits)
  with assms show False
    by (simp add: invokeWithCapability_def authorize_with_actions io_defs Let_def)
qed

text \<open>C16. Whatever stands behind the actions of the providers can only matter to an invocation when the
  caller has the authority for the action and, without a guard, the policy has allowed it: exchange
  all actions of all providers for others, and every other invocation ends with the same outcome in
  the same world.\<close>

theorem action_runs_only_when_authorized:
  assumes "invokeWithCapability pf hub tok req w \<noteq> invokeWithCapability pf (with_actions f hub) tok req w"
  shows "\<exists>cap c p a. authority pf hub tok req w cap c p a \<and>
     (hub_guard hub = None \<longrightarrow> (case hub_policy hub of
        None \<Rightarrow> True
      | Some policy \<Rightarrow> \<exists>w1 reason m w2.
          policy \<lparr>gc_connection = c, gc_request = req\<lparr>rq_connectionId := conn_id c\<rparr>, gc_action = Some a\<rparr> (cap_subject cap) w1
            = (Inr (Allow reason m), w2)))"
proof -
  from run_authorized [OF assms] obtain cap c p a w1 where run: "authorizeAction pf hub tok req w = (Inr (cap, c, p, a), w1)" by blast
  show ?thesis
    by (intro exI [of _ cap] exI [of _ c] exI [of _ p] exI [of _ a] conjI impI authorized [OF run] run_allowed [OF assms run])
qed

text \<open>C17. An issued capability verifies from its token, unchanged, until its lifetime has passed since the
  time of its issue and not after; it was issued on a connection that was active at that time and
  has only scopes the connection had.\<close>

theorem issued_capability_verifies:
  assumes "issueCapability pf hub req w = (Inr issued, w')"
    and "mac_text pf (hub_capabilitySecret hub)" "date_api_ok (pf_dates pf)" "ic_connectionId req \<noteq> []"
    and "\<forall>m. ic_metadata req = Some m \<longrightarrow> textual (JObj m)"
    and "hub_now hub w2 = (Inr n, w3)"
  shows "\<exists>c w1 v t0 v'. store_get (hub_store hub) (ic_connectionId req) w = (Inr (Some c), w1) \<and>
     assertConnectionActive pf hub c w1 = (Inr (), v) \<and> hub_now hub v = (Inr t0, v') \<and>
     set (cap_scopes (issued_capability issued)) \<subseteq> set (conn_grantedScopes c) \<and>
     verifyCapability pf hub (issued_token issued) w2 =
       (if t0 + ic_ttlMs req \<le> n then Inl (IntegrationError ''Integration capability expired.'' capability_expired)
        else Inr (issued_capability issued), w3)"
proof -
  from assms(1) obtain c w1 y v u t0 v' i v'' t x where c: "store_get (hub_store hub) (ic_connectionId req) w = (Inr (Some c), w1)"
    "assertConnectionActive pf hub c w1 = (Inr y, v)" "hub_now hub v = (Inr t0, v')"
    and s: "assertScopes (conn_grantedScopes c) (ic_scopes req) v = (Inr u, v)"
    and x: "toISO (pf_dates pf) (t0 + ic_ttlMs req) = Inr x"
    and i: "issued = (let cap = \<lparr>cap_id = ''cap_'' @ i, cap_subject = ic_subject req, cap_connectionId = ic_connectionId req,
        cap_scopes = unique (ic_scopes req), cap_allowedActions = unique (ic_allowedActions req),
        cap_issuedAt = t, cap_expiresAt = x, cap_metadata = ic_metadata req\<rparr>
       in \<lparr>issued_capability = cap, issued_token = signCapability pf cap (hub_capabilitySecret hub)\<rparr>)"
    by (auto simp: issueCapability_def requireConnection_def runs Let_def assertScopes_def split: if_splits)
  have "verifyCapabilityToken pf (issued_token issued) (hub_capabilitySecret hub) = Inr (issued_capability issued)"
    using assms(2,4,5) unfolding i Let_def by (auto intro!: sign_verify simp del: textual.simps)
  then have v: "verifyCapability pf hub (issued_token issued) w2 =
       (if t0 + ic_ttlMs req \<le> n then Inl (IntegrationError ''Integration capability expired.'' capability_expired)
        else Inr (issued_capability issued), w3)"
    using assms(6) parsed_by_iso [OF assms(3) x, of n] unfolding i Let_def by (simp add: verifyCapability_def io_defs)
  have "set (cap_scopes (issued_capability issued)) \<subseteq> set (conn_grantedScopes c)"
    using s unfolding i Let_def by (auto simp: assertScopes_def filter_empty_conv runs Let_def split: if_splits)
  with v c show ?thesis by auto
qed

text \<open>C18. An OAuth flow ends as it was started: a completion in time with the state, the connector and the
  redirect address of the start hands the provider the owner and the scopes of the start and the PKCE
  verifier whose digest the start had sent, and nothing of these from the completion request.\<close>

theorem oauth_flow_is_bound:
  assumes "startAuth pf hub pid sreq w = (Inr result, w1)" "hub_oauthStateStore hub = mem_oauth_states"
    and "oauth_states w2 (sr_state result) = oauth_states w1 (sr_state result)"
    and "ca_state creq = sr_state result" "ca_connectorId creq = sa_connectorId sreq" "ca_redirectUri creq = sa_redirectUri sreq"
    and "map_of (hub_providers hub) pid = Some p" "prov_completeAuth p = Some finish"
    and "clock w2 (clock_reads w2) < os_expiresAt (the (oauth_states w1 (sr_state result)))"
  shows "\<exists>verifier start wa wb n wd w3. prov_startAuth p = Some start \<and>
     start (sreq\<lparr>sa_codeChallenge := map_option (pf_sha256 pf) verifier\<rparr>) wa = (Inr result, wb) \<and>
     hub_now hub wb = (Inr n, wd) \<and> os_expiresAt (the (oauth_states w1 (sr_state result))) = n + hub_oauthStateTtlMs hub \<and>
     oauth_states w3 (sr_state result) = None \<and>
     completeAuth hub pid creq w2 =
       andThen (finish (creq\<lparr>ca_owner := sa_owner sreq, ca_codeVerifier := verifier,
            ca_requestedScopes := Some (nullish (sr_requestedScopes result) (sa_requestedScopes sreq)),
            ca_metadata := pinned_metadata (ca_metadata creq) (os_metadata (the (oauth_states w1 (sr_state result))))\<rparr>))
         (\<lambda>connection. andThen (store_put (hub_store hub) connection) (\<lambda>_. ret connection)) w3"
proof -
  from memory_states.started_flow [OF assms(1,2)] assms(7) obtain s start wa wb n wd where
    s: "oauth_states w1 (sr_state result) = Some s" "prov_startAuth p = Some start"
      "start (sreq\<lparr>sa_codeChallenge := map_option (pf_sha256 pf) (os_codeVerifier s)\<rparr>) wa = (Inr result, wb)"
      "hub_now hub wb = (Inr n, wd)" "os_expiresAt s = n + hub_oauthStateTtlMs hub"
      "os_state s = sr_state result" "os_providerId s = pid" "os_connectorId s = sa_connectorId sreq"
      "os_owner s = sa_owner sreq" "os_redirectUri s = sa_redirectUri sreq"
      "os_requestedScopes s = nullish (sr_requestedScopes result) (sa_requestedScopes sreq)" by auto
  let ?w = "w2\<lparr>oauth_states := (oauth_states w2)(sr_state result := None), clock_reads := Suc (clock_reads w2)\<rparr>"
  have found: "oauth_consume mem_oauth_states (sr_state result) w2 = (Inr (StateFound s), ?w)"
  proof -
    from assms(9) s(1) have "clock w2 (clock_reads w2) < os_expiresAt s" by simp
    with s(1) assms(3) show ?thesis by (simp add: mem_oauth_states_def io_defs)
  qed
  have pinned: "pinned_request creq s = creq\<lparr>ca_owner := sa_owner sreq, ca_codeVerifier := os_codeVerifier s,
            ca_requestedScopes := Some (nullish (sr_requestedScopes result) (sa_requestedScopes sreq)),
            ca_metadata := pinned_metadata (ca_metadata creq) (os_metadata s)\<rparr>"
    using s(6,8-11) assms(4-6) by (cases creq) (simp add: pinned_request_def)
  have "completeAuth hub pid creq w2 = andThen (finish (pinned_request creq s))
      (\<lambda>connection. andThen (store_put (hub_store hub) connection) (\<lambda>_. ret connection)) ?w"
    using found s(7,8,10) assms(2,4-8) by (simp add: completeAuth_def requireProvider_def) (simp add: andThen_def)
  then show ?thesis using s(1-5) unfolding pinned
    by - (rule exI [of _ "os_codeVerifier s"], rule exI [of _ start], rule exI [of _ wa], rule exI [of _ wb],
        rule exI [of _ n], rule exI [of _ wd], rule exI [of _ ?w], simp)
qed

text \<open>A state completes one flow: an attempt to complete that gets as far as the state store uses the
  state up whatever its outcome, and while the state is not put again every later attempt with it
  fails.\<close>

theorem oauth_state_completes_once:
  assumes "completeAuth hub pid req w = (r, w1)" "hub_oauthStateStore hub = mem_oauth_states"
    and "map_of (hub_providers hub) pid = Some p" "prov_completeAuth p = Some finish"
    and "\<forall>q. keeps (\<lambda>w. oauth_states w (ca_state req)) (finish q)"
    and "\<forall>c. keeps (\<lambda>w. oauth_states w (ca_state req)) (store_put (hub_store hub) c)"
    and "oauth_states w2 (ca_state req) = oauth_states w1 (ca_state req)" "ca_state req' = ca_state req"
  shows "\<exists>e. fst (completeAuth hub pid' req' w2) = Inl e"
proof -
  have "oauth_states w1 (ca_state req) = None"
    using memory_states.attempt_consumes [OF assms(1-4)] assms(5,6) by blast
  with assms(2,7,8) show ?thesis by (intro memory_states.unknown_state_fails) simp_all
qed

section \<open>A hub at work\<close>

definition hx_platform :: "InMemoryConnectionStore hub_platform" where
  "hx_platform = \<lparr>pf_uuid = randomUUID, pf_dates = gx_dates, pf_sha256 = (\<lambda>t. CHR ''h'' # t),
     pf_hmac = (\<lambda>payload secret. CHR ''m'' # base64UrlEncode (secret @ payload)), pf_randomBytes48 = randomUUID\<rparr>"

definition hx_connector :: IntegrationConnector where
  "hx_connector = \<lparr>con_id = ''mail'', con_providerId = ''p1'', con_title = ''Mail'', con_category = cat_email,
     con_auth = auth_oauth2, con_scopes = [''send''], con_actions = [gx_action], con_triggers = None, con_metadata = None\<rparr>"

definition hx_started :: "StartAuthRequest \<Rightarrow> StartAuthResult" where
  "hx_started req = \<lparr>sr_requestedScopes = None, sr_providerId = ''p1'', sr_connectorId = sa_connectorId req,
     sr_authUrl = nullish (sa_codeChallenge req) [], sr_state = ''s1'', sr_expiresAt = None, sr_metadata = None\<rparr>"

definition hx_finished :: "CompleteAuthRequest \<Rightarrow> IntegrationConnection" where
  "hx_finished req = gx_connection\<lparr>conn_owner := ca_owner req, conn_grantedScopes := nullish (ca_requestedScopes req) []\<rparr>"

definition hx_provider :: "InMemoryConnectionStore IntegrationProvider" where
  "hx_provider = \<lparr>prov_id = ''p1'', prov_kind = kind_custom, prov_listConnectors = ret [hx_connector],
     prov_testConnection = None, prov_connectApiKey = None, prov_startAuth = Some (\<lambda>req. ret (hx_started req)),
     prov_completeAuth = Some (\<lambda>req. ret (hx_finished req)), prov_invokeAction = (\<lambda>_ _. ret gx_sent),
     prov_subscribeTrigger = None, prov_unsubscribeTrigger = None, prov_normalizeTriggerEvent = None\<rparr>"

definition hx_hub :: "InMemoryConnectionStore IntegrationHub" where
  "hx_hub = \<lparr>hub_providers = [(''p1'', hx_provider)], hub_store = mem_connections, hub_capabilitySecret = ''s'',
     hub_guard = None, hub_policy = None, hub_oauthStateStore = mem_oauth_states, hub_oauthStateTtlMs = 600000,
     hub_now = date_now\<rparr>"

definition hx_world :: InMemoryConnectionStore where
  "hx_world = \<lparr>clock = (\<lambda>n. 1000 * int n), clock_reads = 0, uuids = (\<lambda>n. decimal n), uuids_drawn = 0,
     audit_events = [], results = Map.empty, approvals = [], oauth_states = Map.empty,
     connections = [(''c1'', gx_connection)]\<rparr>"

lemma hx_mac: "mac_text hx_platform secret"
  using no_dot by (simp add: mac_text_def hx_platform_def)

definition hx_capability :: IntegrationCapability where
  "hx_capability = \<lparr>cap_id = ''cap_0'', cap_subject = gx_actor, cap_connectionId = ''c1'', cap_scopes = [''send''],
     cap_allowedActions = [''send''], cap_issuedAt = int_text 0, cap_expiresAt = int_text 5000, cap_metadata = None\<rparr>"

lemma hx_token: "verifyCapabilityToken hx_platform (signCapability hx_platform hx_capability ''s'') ''s'' = Inr hx_capability"
  by (rule sign_verify [OF hx_mac]) (simp_all add: hx_capability_def)

lemma hx_not_expired: "\<not> parsed_by gx_dates (int_text 5000) 0"
  using parsed_by_iso [OF gx_dates_ok, of 5000 "int_text 5000" 0] by (simp add: toISO_def max_date_def gx_dates_def)

lemma hx_times: "pf_dates hx_platform = gx_dates" "cap_expiresAt hx_capability = int_text 5000" "clock_reads hx_world = 0"
  "clock hx_world 0 = 0"
  by (simp_all add: hx_platform_def hx_capability_def hx_world_def)

lemmas hx_defs = hx_hub_def hx_provider_def hx_connector_def hx_world_def hx_platform_def gx_connection_def gx_action_def
  mem_connections_def mem_oauth_states_def

lemma hx_authorized:
  "authorizeAction hx_platform hx_hub (signCapability hx_platform hx_capability ''s'') (gx_request ''hi'') hx_world =
     (Inr (hx_capability, gx_connection, hx_provider, gx_action), hx_world\<lparr>clock_reads := 1\<rparr>)"
proof -
  have v: "verifyCapability hx_platform hx_hub (signCapability hx_platform hx_capability ''s'') hx_world =
      (Inr hx_capability, hx_world\<lparr>clock_reads := 1\<rparr>)"
    using hx_token hx_not_expired by (simp add: verifyCapability_def hx_hub_def io_defs hx_times)
  show ?thesis
    by (simp add: authorizeAction_def andThen_def v)
      (simp add: hx_capability_def gx_request_def requireConnection_def requireConnector_def requireProvider_def
        assertConnectionActive_def assertScopes_def io_defs hx_defs)
qed

theorem action_runs_only_when_authorized_witness:
  "\<exists>cap c p a. authority hx_platform hx_hub (signCapability hx_platform hx_capability ''s'') (gx_request ''hi'') hx_world cap c p a"
proof -
  let ?f = "\<lambda>_ _ _. throw (Error ''down'')" and ?tok = "signCapability hx_platform hx_capability ''s''"
  have "fst (invokeWithCapability hx_platform hx_hub ?tok (gx_request ''hi'') hx_world) = Inr gx_sent"
    by (simp add: invokeWithCapability_def andThen_def hx_authorized proceedAction_def)
      (simp add: io_defs hx_hub_def hx_provider_def)
  moreover have "fst (invokeWithCapability hx_platform (with_actions ?f hx_hub) ?tok (gx_request ''hi'') hx_world) = Inl (Error ''down'')"
    by (simp add: invokeWithCapability_def authorize_with_actions andThen_def hx_authorized proceedAction_def)
      (simp add: io_defs hx_hub_def hx_provider_def)
  ultimately have "invokeWithCapability hx_platform hx_hub ?tok (gx_request ''hi'') hx_world \<noteq>
      invokeWithCapability hx_platform (with_actions ?f hx_hub) ?tok (gx_request ''hi'') hx_world" by auto
  from action_runs_only_when_authorized [OF this] show ?thesis by blast
qed

definition hx_issue :: IssueCapabilityRequest where
  "hx_issue = \<lparr>ic_subject = gx_actor, ic_connectionId = ''c1'', ic_scopes = [''send'', ''send''], ic_allowedActions = [''send''],
     ic_ttlMs = 1500, ic_metadata = None\<rparr>"

definition hx_issued :: IssuedIntegrationCapability where
  "hx_issued = (let cap = \<lparr>cap_id = ''cap_0'', cap_subject = gx_actor, cap_connectionId = ''c1'', cap_scopes = [''send''],
       cap_allowedActions = [''send''], cap_issuedAt = int_text 0, cap_expiresAt = int_text 1500, cap_metadata = None\<rparr>
     in \<lparr>issued_capability = cap, issued_token = signCapability hx_platform cap ''s''\<rparr>)"

definition hx_later :: "nat \<Rightarrow> InMemoryConnectionStore" where
  "hx_later n = hx_world\<lparr>clock_reads := n\<rparr>"

lemma hx_zero: "decimal 0 = ''0''"
  by code_simp

lemma hx_issued_run:
  "issueCapability hx_platform hx_hub hx_issue hx_world = (Inr hx_issued, hx_world\<lparr>clock_reads := 1, uuids_drawn := 1\<rparr>)"
  by (simp add: issueCapability_def requireConnection_def assertConnectionActive_def assertScopes_def Let_def io_defs
      hx_defs hx_issue_def hx_issued_def toISO_def max_date_def gx_dates_def hx_zero)

lemma hx_reading: "hub_now hx_hub (hx_later n) = (Inr (1000 * int n), hx_later (Suc n))"
  by (simp add: hx_later_def hx_world_def hx_hub_def io_defs)

theorem issued_capability_verifies_witness:
  "verifyCapability hx_platform hx_hub (issued_token hx_issued) (hx_later 1) = (Inr (issued_capability hx_issued), hx_later 2) \<and>
   verifyCapability hx_platform hx_hub (issued_token hx_issued) (hx_later 2) =
     (Inl (IntegrationError ''Integration capability expired.'' capability_expired), hx_later 3)"
proof -
  have start: "store_get (hub_store hx_hub) ''c1'' hx_world = (Inr (Some gx_connection), hx_world)"
    "assertConnectionActive hx_platform hx_hub gx_connection hx_world = (Inr (), hx_world)"
    "hub_now hx_hub hx_world = (Inr 0, hx_later 1)"
    by (simp_all add: hx_defs io_defs assertConnectionActive_def hx_later_def)
  have "verifyCapability hx_platform hx_hub (issued_token hx_issued) (hx_later n) =
     (if 1500 \<le> 1000 * int n then Inl (IntegrationError ''Integration capability expired.'' capability_expired)
      else Inr (issued_capability hx_issued), hx_later (Suc n))" for n
    using issued_capability_verifies [OF hx_issued_run _ _ _ _ hx_reading [of n]] start hx_mac gx_dates_ok
    by (auto simp: hx_issue_def hx_times)
  from this [of 1] this [of 2] show ?thesis by (simp add: eval_nat_numeral)
qed

definition hx_start :: StartAuthRequest where
  "hx_start = \<lparr>sa_connectorId = ''mail'', sa_owner = gx_actor, sa_requestedScopes = [''send''], sa_redirectUri = ''/cb'',
     sa_state = None, sa_codeChallenge = None, sa_metadata = None\<rparr>"

definition hx_callback :: CompleteAuthRequest where
  "hx_callback = \<lparr>ca_connectorId = ''mail'', ca_owner = gx_actor\<lparr>actor_id := ''intruder''\<rparr>, ca_code = None, ca_state = ''s1'',
     ca_redirectUri = ''/cb'', ca_codeVerifier = None, ca_requestedScopes = Some [''admin''], ca_metadata = None\<rparr>"

definition hx_waiting :: InMemoryConnectionStore where
  "hx_waiting = hx_world\<lparr>clock_reads := 1, uuids_drawn := 1,
     oauth_states := [''s1'' \<mapsto> \<lparr>os_state = ''s1'', os_providerId = ''p1'', os_connectorId = ''mail'', os_owner = gx_actor,
       os_requestedScopes = [''send''], os_redirectUri = ''/cb'', os_codeVerifier = Some ''0'', os_expiresAt = 600000,
       os_metadata = None\<rparr>]\<rparr>"

lemma hx_started_run: "\<exists>result. sr_state result = ''s1'' \<and> sr_requestedScopes result = None \<and>
    startAuth hx_platform hx_hub ''p1'' hx_start hx_world = (Inr result, hx_waiting)"
  by (simp add: startAuth_def requireProvider_def requireConnector_def connectorOAuthPkceMode_def createPkcePair_def io_defs
      hx_defs hx_start_def hx_started_def hx_waiting_def meta_field_def hx_zero)

theorem oauth_flow_is_bound_witness:
  "\<exists>w c. completeAuth hx_hub ''p1'' hx_callback hx_waiting = (Inr c, w) \<and> conn_owner c = gx_actor \<and> conn_grantedScopes c = [''send'']"
proof -
  obtain result where r: "sr_state result = ''s1''" "sr_requestedScopes result = None"
    "startAuth hx_platform hx_hub ''p1'' hx_start hx_world = (Inr result, hx_waiting)" using hx_started_run by blast
  have hub: "map_of (hub_providers hx_hub) ''p1'' = Some hx_provider" "prov_completeAuth hx_provider = Some (\<lambda>req. ret (hx_finished req))"
    "hub_oauthStateStore hx_hub = mem_oauth_states" "hub_store hx_hub = mem_connections"
    by (simp_all add: hx_hub_def hx_provider_def)
  have req: "ca_state hx_callback = sr_state result" "ca_connectorId hx_callback = sa_connectorId hx_start"
    "ca_redirectUri hx_callback = sa_redirectUri hx_start"
    "clock hx_waiting (clock_reads hx_waiting) < os_expiresAt (the (oauth_states hx_waiting (sr_state result)))"
    using r(1) by (simp_all add: hx_callback_def hx_start_def hx_waiting_def hx_world_def)
  from oauth_flow_is_bound [OF r(3) hub(3) refl req(1-3) hub(1,2) req(4)] obtain verifier m w3 where
    "completeAuth hx_hub ''p1'' hx_callback hx_waiting =
       andThen (ret (hx_finished (hx_callback\<lparr>ca_owner := gx_actor, ca_codeVerifier := verifier,
          ca_requestedScopes := Some [''send''], ca_metadata := m\<rparr>)))
         (\<lambda>connection. andThen (store_put (hub_store hx_hub) connection) (\<lambda>_. ret connection)) w3"
    using r(2) by (auto simp: hx_start_def)
  then show ?thesis by (simp add: hub(4) mem_connections_def hx_finished_def io_defs)
qed

theorem oauth_state_completes_once_witness:
  "\<exists>e. fst (completeAuth hx_hub ''p1'' hx_callback (snd (completeAuth hx_hub ''p1'' hx_callback hx_waiting))) = Inl e"
proof -
  have "map_of (hub_providers hx_hub) ''p1'' = Some hx_provider" "prov_completeAuth hx_provider = Some (\<lambda>req. ret (hx_finished req))"
    "hub_oauthStateStore hx_hub = mem_oauth_states"
    by (simp_all add: hx_hub_def hx_provider_def)
  moreover have "keeps (\<lambda>w. oauth_states w s) (store_put (hub_store hx_hub) c)" for s c
    by (simp add: hx_hub_def mem_connections_def keeps_def moves_def io_defs)
  ultimately show ?thesis
    by (intro oauth_state_completes_once [OF prod.collapse [symmetric]]) (auto intro: keeps_pure)
qed

end
