(* ===== verification/Registry.thy ===== *)
theory Registry
  imports Hub "HOL-Library.Multiset"
begin

text \<open>
  The registry of connectors of \<open>registry-core.ts\<close>: catalogs of several sources are merged into one
  entry per canonical identifier, under the aliases of \<open>integration-kind-aliases.ts\<close>. The methods
  \<open>listRegistry\<close> of the hub and \<open>summarizeIntegrationRegistry\<close> work on it.

  \<open>localeCompare\<close> is a parameter. \<open>Array.sort\<close> is an insertion sort, which agrees with any stable
  sort when the comparison is consistent. Tables of the type \<open>Record<string, T>\<close> are read by their own
  properties; the code reads them with \<open>[]\<close>, which also finds those of \<open>Object.prototype\<close>, of which
  \<open>constructor\<close> is the only one that is a slug, so an identifier of that name is outside the model.
\<close>

section \<open>Sorting\<close>

fun insert_by :: "('a \<Rightarrow> 'a \<Rightarrow> int) \<Rightarrow> 'a \<Rightarrow> 'a list \<Rightarrow> 'a list" where
  "insert_by cmp x [] = [x]"
| "insert_by cmp x (y # ys) = (if cmp x y \<le> 0 then x # y # ys else y # insert_by cmp x ys)"

definition sort_by :: "('a \<Rightarrow> 'a \<Rightarrow> int) \<Rightarrow> 'a list \<Rightarrow> 'a list" where
  "sort_by cmp xs = foldr (insert_by cmp) xs []"

text \<open>The order of \<open>sort()\<close> on strings: by code units.\<close>

fun code_unit_order :: "string \<Rightarrow> string \<Rightarrow> int" where
  "code_unit_order [] [] = 0"
| "code_unit_order [] _ = -1"
| "code_unit_order _ [] = 1"
| "code_unit_order (c # cs) (d # ds) =
     (if code_of c < code_of d then -1 else if code_of d < code_of c then 1 else code_unit_order cs ds)"

text \<open>\<open>a || b\<close> on numbers.\<close>

definition or_else :: "int \<Rightarrow> int \<Rightarrow> int" where
  "or_else a b = (if a \<noteq> 0 then a else b)"

text \<open>The values of a \<open>Map\<close> into which only the first value of every key goes.\<close>

fun keep_first :: "('a \<Rightarrow> 'k) \<Rightarrow> 'a list \<Rightarrow> 'a list" where
  "keep_first f [] = []"
| "keep_first f (x # xs) = x # filter (\<lambda>y. f y \<noteq> f x) (keep_first f xs)"

section \<open>Support tiers\<close>

datatype IntegrationSupportTier =
  catalogOnly | setupReady | gatewayExecutable | firstPartyExecutable | sandboxExecutable

fun tier_name :: "IntegrationSupportTier \<Rightarrow> string" where
  "tier_name catalogOnly = ''catalogOnly''"
| "tier_name setupReady = ''setupReady''"
| "tier_name gatewayExecutable = ''gatewayExecutable''"
| "tier_name firstPartyExecutable = ''firstPartyExecutable''"
| "tier_name sandboxExecutable = ''sandboxExecutable''"

fun SUPPORT_RANK :: "IntegrationSupportTier \<Rightarrow> int" where
  "SUPPORT_RANK catalogOnly = 0"
| "SUPPORT_RANK setupReady = 1"
| "SUPPORT_RANK gatewayExecutable = 2"
| "SUPPORT_RANK firstPartyExecutable = 3"
| "SUPPORT_RANK sandboxExecutable = 4"

text \<open>\<open>isSupportTier\<close> with the tier it recognises.\<close>

definition isSupportTier :: "json option \<Rightarrow> IntegrationSupportTier option" where
  "isSupportTier v = (case v of
       Some (JStr s) \<Rightarrow> find (\<lambda>t. tier_name t = s)
         [catalogOnly, setupReady, gatewayExecutable, firstPartyExecutable, sandboxExecutable]
     | _ \<Rightarrow> None)"

definition inferIntegrationSupportTier :: "IntegrationConnector \<Rightarrow> IntegrationSupportTier" where
  "inferIntegrationSupportTier c =
     (let meta = meta_field (con_metadata c); from_source = (\<lambda>s. meta ''source'' = Some (JStr s)) in
      case isSupportTier (meta ''supportTier'') of
        Some t \<Rightarrow> t
      | None \<Rightarrow>
          if meta ''sandboxExecutable'' = Some (JBool True) then sandboxExecutable
          else if from_source ''first-party-adapter'' \<or> con_providerId c = ''first-party'' then firstPartyExecutable
          else if from_source ''gateway-catalog'' \<and> meta ''executable'' = Some (JBool True) then gatewayExecutable
          else if from_source ''integration-spec'' then setupReady
          else if from_source ''coverage-catalog'' \<or> from_source ''activepieces-community'' \<or>
             from_source ''tangle-integrations-catalog'' \<or> meta ''catalogOnly'' = Some (JBool True) then catalogOnly
          else if con_actions c \<noteq> [] then gatewayExecutable
          else catalogOnly)"

section \<open>Canonical identifiers\<close>

type_synonym aliases = "(string \<times> string) list"

definition INTEGRATION_KIND_ALIASES :: aliases where
  "INTEGRATION_KIND_ALIASES =
    [(''notion-database'', ''notion''),
     (''microsoft-onedrive'', ''onedrive''),
     (''microsoft-sharepoint'', ''sharepoint''),
     (''microsoft-excel'', ''microsoft-excel-365''),
     (''aws-s3'', ''amazon-s3''),
     (''outlook-calendar'', ''microsoft-calendar''),
     (''microsoft-outlook-calendar'', ''microsoft-calendar''),
     (''microsoft-outlook'', ''outlook-mail''),
     (''gmail-mail'', ''gmail''),
     (''google-pubsub'', ''gcloud-pubsub''),
     (''bigquery'', ''google-bigquery''),
     (''slack-bolt'', ''slack''),
     (''help-scout'', ''helpscout''),
     (''mycase-piece'', ''mycase''),
     (''jira'', ''jira-cloud''),
     (''stripe'', ''stripe-pack''),
     (''twilio'', ''twilio-sms''),
     (''twilio-voice'', ''twilio-sms''),
     (''telegram-bot'', ''telegram''),
     (''x-twitter'', ''twitter''),
     (''scrapegrapghai'', ''scrapegraphai'')]"

definition canonicalIntegrationKind :: "string \<Rightarrow> string" where
  "canonicalIntegrationKind kind = nullish (map_of INTEGRATION_KIND_ALIASES kind) kind"

definition slug_char :: "char \<Rightarrow> bool" where
  "slug_char c \<longleftrightarrow> is_digit c \<or> (97 \<le> code_of c \<and> code_of c \<le> 122)"

text \<open>\<open>replace(/[^a-z0-9]+/g, '-')\<close>; the flag tells whether a run has been replaced already.\<close>

fun hyphenate :: "bool \<Rightarrow> string \<Rightarrow> string" where
  "hyphenate b [] = []"
| "hyphenate b (c # cs) =
     (if slug_char c then c # hyphenate False cs
      else if b then hyphenate True cs
      else CHR ''-'' # hyphenate True cs)"

definition strip_hyphens :: "string \<Rightarrow> string" where
  "strip_hyphens s = rev (dropWhile (\<lambda>c. c = CHR ''-'') (rev (dropWhile (\<lambda>c. c = CHR ''-'') s)))"

definition slug :: "string \<Rightarrow> string" where
  "slug v = strip_hyphens (hyphenate False
     (concat (map (\<lambda>c. if c = CHR ''&'' then ''and'' else [c]) (map to_lower (trim v)))))"

text \<open>The loop follows aliases until there is none or it comes back to one it has followed.\<close>

function canonical_loop :: "aliases \<Rightarrow> string list \<Rightarrow> string \<Rightarrow> string" where
  "canonical_loop al seen current =
     (if truthy (map_of al current) \<and> current \<notin> set seen
      then canonical_loop al (current # seen) (the (map_of al current))
      else current)"
  by pat_completeness auto

termination
proof (relation "measure (\<lambda>(al, seen, current). card (set (map fst al) - set seen))")
  fix al :: aliases and seen current
  assume "truthy (map_of al current) \<and> current \<notin> set seen"
  then have "current \<in> set (map fst al) - set seen"
    by (auto simp: truthy_def split: option.splits dest!: map_of_SomeD intro: rev_image_eqI)
  then have "card (set (map fst al) - set (current # seen)) < card (set (map fst al) - set seen)"
    by (intro psubset_card_mono) auto
  then show "((al, current # seen, the (map_of al current)), al, seen, current)
      \<in> measure (\<lambda>(al, seen, current). card (set (map fst al) - set seen))" by simp
qed simp

declare canonical_loop.simps [simp del]

definition canonicalConnectorId :: "aliases \<Rightarrow> string \<Rightarrow> string" where
  "canonicalConnectorId al i = canonical_loop al [] (slug i)"

section \<open>Merging\<close>

record IntegrationCatalogSource =
  src_id :: string
  src_connectors :: "IntegrationConnector list"
  src_precedence :: "int option"

record Candidate =
  cand_source :: IntegrationCatalogSource
  cand_connector :: IntegrationConnector
  cand_supportTier :: IntegrationSupportTier

record IntegrationRegistrySourceRef =
  ref_sourceId :: string
  ref_providerId :: string
  ref_connectorId :: string
  ref_supportTier :: IntegrationSupportTier
  ref_actionCount :: nat
  ref_triggerCount :: nat

datatype conflict_field = conflict_auth | conflict_category

record conflict_value =
  cv_value :: string
  cv_sourceId :: string
  cv_connectorId :: string

record IntegrationRegistryConflict =
  cf_field :: conflict_field
  cf_values :: "conflict_value list"

record IntegrationRegistryEntry =
  ent_canonicalId :: string
  ent_connector :: IntegrationConnector
  ent_aliases :: "string list"
  ent_supportTier :: IntegrationSupportTier
  ent_sources :: "IntegrationRegistrySourceRef list"
  ent_conflicts :: "IntegrationRegistryConflict list"

record IntegrationRegistry =
  reg_entries :: "IntegrationRegistryEntry list"
  reg_connectors :: "IntegrationConnector list"
  reg_byId :: "string \<Rightarrow> IntegrationRegistryEntry option"

record ComposeIntegrationRegistryOptions =
  opt_aliases :: "aliases option"
  opt_sourcePrecedence :: "(string \<times> int) list option"

definition DEFAULT_SOURCE_PRECEDENCE :: "(string \<times> int) list" where
  "DEFAULT_SOURCE_PRECEDENCE =
    [(''first-party'', 500), (''spec'', 400), (''gateway'', 300), (''tangle-catalog'', 100), (''activepieces'', 100), (''coverage'', 50)]"

definition overlaid :: "(string \<times> 'v) list \<Rightarrow> (string \<times> 'v) list \<Rightarrow> (string \<times> 'v) list" where
  "overlaid a b = foldl (\<lambda>m (k, v). AList.update k v m) a b"

fun category_name :: "IntegrationConnectorCategory \<Rightarrow> string" where
  "category_name cat_email = ''email''"
| "category_name cat_calendar = ''calendar''"
| "category_name cat_chat = ''chat''"
| "category_name cat_crm = ''crm''"
| "category_name cat_storage = ''storage''"
| "category_name cat_docs = ''docs''"
| "category_name cat_database = ''database''"
| "category_name cat_webhook = ''webhook''"
| "category_name cat_workflow = ''workflow''"
| "category_name cat_internal = ''internal''"
| "category_name cat_other = ''other''"

fun auth_name :: "connector_auth \<Rightarrow> string" where
  "auth_name auth_oauth2 = ''oauth2''"
| "auth_name auth_api_key = ''api_key''"
| "auth_name auth_none = ''none''"
| "auth_name auth_custom = ''custom''"

definition source_precedence :: "(string \<times> int) list \<Rightarrow> Candidate \<Rightarrow> int" where
  "source_precedence precedence c =
     nullish (nullish_opt (src_precedence (cand_source c)) (map_of precedence (src_id (cand_source c)))) 0"

definition compareCandidates :: "(string \<Rightarrow> string \<Rightarrow> int) \<Rightarrow> (string \<times> int) list \<Rightarrow> Candidate \<Rightarrow> Candidate \<Rightarrow> int" where
  "compareCandidates localeCompare precedence a b =
     or_else (SUPPORT_RANK (cand_supportTier b) - SUPPORT_RANK (cand_supportTier a))
      (or_else (source_precedence precedence b - source_precedence precedence a)
        (or_else (int (length (con_actions (cand_connector b))) - int (length (con_actions (cand_connector a))))
          (localeCompare (con_id (cand_connector a)) (con_id (cand_connector b)))))"

text \<open>\<open>Math.max\<close> over the ranks of the candidates that are not mere catalog entries.\<close>

definition toolBindableCandidates :: "Candidate list \<Rightarrow> Candidate list" where
  "toolBindableCandidates cs =
     (let bindable = filter (\<lambda>c. cand_supportTier c \<noteq> catalogOnly) cs in
      if bindable = [] then []
      else let maxRank = foldl max 0 (map (SUPPORT_RANK \<circ> cand_supportTier) bindable)
        in filter (\<lambda>c. SUPPORT_RANK (cand_supportTier c) = maxRank) bindable)"

definition mergeActions :: "Candidate list \<Rightarrow> IntegrationConnectorAction list" where
  "mergeActions cs = keep_first act_id (concat (map (con_actions \<circ> cand_connector) (toolBindableCandidates cs)))"

definition mergeTriggers :: "Candidate list \<Rightarrow> IntegrationConnectorTrigger list option" where
  "mergeTriggers cs =
     (let out = keep_first trg_id (concat (map (\<lambda>c. nullish (con_triggers (cand_connector c)) []) (toolBindableCandidates cs)))
      in if out \<noteq> [] then Some out else None)"

definition catalogActionCount :: "IntegrationConnector \<Rightarrow> js_number" where
  "catalogActionCount c = (case meta_field (con_metadata c) ''catalogActionCount'' of
       Some (JNum n) \<Rightarrow> n | _ \<Rightarrow> Finite (int (length (con_actions c))))"

fun js_add :: "js_number \<Rightarrow> js_number \<Rightarrow> js_number" where
  "js_add (Finite a) (Finite b) = Finite (a + b)"
| "js_add _ _ = NotFinite"

definition conflictFor :: "conflict_field \<Rightarrow> conflict_value list \<Rightarrow> IntegrationRegistryConflict option" where
  "conflictFor f vs = (if length (unique (map cv_value vs)) \<le> 1 then None else Some \<lparr>cf_field = f, cf_values = vs\<rparr>)"

definition conflictDiagnostics :: "Candidate list \<Rightarrow> IntegrationRegistryConflict list" where
  "conflictDiagnostics cs = List.map_filter id
     [conflictFor conflict_auth (map (\<lambda>c. \<lparr>cv_value = auth_name (con_auth (cand_connector c)),
         cv_sourceId = src_id (cand_source c), cv_connectorId = con_id (cand_connector c)\<rparr>) cs),
      conflictFor conflict_category (map (\<lambda>c. \<lparr>cv_value = category_name (con_category (cand_connector c)),
         cv_sourceId = src_id (cand_source c), cv_connectorId = con_id (cand_connector c)\<rparr>) cs)]"

text \<open>The description of the entry that goes into the metadata of its connector.\<close>

definition count_json :: "nat \<Rightarrow> json" where
  "count_json n = JNum (Finite (int n))"

definition ref_json :: "IntegrationRegistrySourceRef \<Rightarrow> json" where
  "ref_json r = JObj [(''sourceId'', JStr (ref_sourceId r)), (''providerId'', JStr (ref_providerId r)),
     (''connectorId'', JStr (ref_connectorId r)), (''supportTier'', JStr (tier_name (ref_supportTier r))),
     (''actionCount'', count_json (ref_actionCount r)), (''triggerCount'', count_json (ref_triggerCount r))]"

definition conflict_json :: "IntegrationRegistryConflict \<Rightarrow> json" where
  "conflict_json c = JObj
     [(''field'', JStr (if cf_field c = conflict_auth then ''auth'' else ''category'')),
      (''values'', JArr (map (\<lambda>v. JObj [(''value'', JStr (cv_value v)), (''sourceId'', JStr (cv_sourceId v)),
         (''connectorId'', JStr (cv_connectorId v))]) (cf_values c)))]"

definition registry_json :: "string \<Rightarrow> string list \<Rightarrow> IntegrationSupportTier \<Rightarrow> IntegrationRegistrySourceRef list \<Rightarrow>
    IntegrationRegistryConflict list \<Rightarrow> bool \<Rightarrow> js_number \<Rightarrow> json" where
  "registry_json cid als tier sources conflicts bindable catalogOnlyCount = JObj
     [(''canonicalId'', JStr cid), (''aliases'', strings_json als), (''supportTier'', JStr (tier_name tier)),
      (''sources'', JArr (map ref_json sources)), (''conflicts'', JArr (map conflict_json conflicts)),
      (''toolBindable'', JBool bindable), (''catalogOnlyActionCount'', JNum catalogOnlyCount)]"

definition entry_tier :: "Candidate list \<Rightarrow> IntegrationSupportTier" where
  "entry_tier ordered = foldl (\<lambda>best c. if SUPPORT_RANK (cand_supportTier c) > SUPPORT_RANK best then cand_supportTier c else best)
     (cand_supportTier (hd ordered)) ordered"

definition entry_aliases :: "aliases \<Rightarrow> string \<Rightarrow> Candidate list \<Rightarrow> string list" where
  "entry_aliases al cid ordered = sort_by code_unit_order (unique
     (filter (\<lambda>i. i \<noteq> [] \<and> i \<noteq> cid) (map slug
       (map (con_id \<circ> cand_connector) ordered @
        map fst (filter (\<lambda>(_, target). canonicalConnectorId al target = cid) al)))))"

definition registryEntry :: "(string \<Rightarrow> string \<Rightarrow> int) \<Rightarrow> string \<Rightarrow> Candidate list \<Rightarrow> (string \<times> int) list \<Rightarrow> aliases \<Rightarrow>
    IntegrationRegistryEntry" where
  "registryEntry localeCompare cid candidates precedence al =
     (let ordered = sort_by (compareCandidates localeCompare precedence) candidates;
        primary = hd ordered;
        actions = mergeActions ordered;
        triggers = mergeTriggers ordered;
        scopes = unique (concat (map (con_scopes \<circ> cand_connector) (toolBindableCandidates ordered)));
        tier = entry_tier ordered;
        als = entry_aliases al cid ordered;
        sources = map (\<lambda>c. \<lparr>ref_sourceId = src_id (cand_source c), ref_providerId = con_providerId (cand_connector c),
          ref_connectorId = con_id (cand_connector c), ref_supportTier = cand_supportTier c,
          ref_actionCount = length (con_actions (cand_connector c)),
          ref_triggerCount = length (nullish (con_triggers (cand_connector c)) [])\<rparr>) ordered;
        conflicts = conflictDiagnostics ordered;
        catalogOnlyCount = foldl (\<lambda>sum c. js_add sum (catalogActionCount (cand_connector c))) (Finite 0)
          (filter (\<lambda>c. cand_supportTier c = catalogOnly) ordered)
      in \<lparr>ent_canonicalId = cid,
          ent_connector = (cand_connector primary)\<lparr>con_id := cid, con_scopes := scopes, con_actions := actions,
            con_triggers := triggers,
            con_metadata := Some (spread (nullish (con_metadata (cand_connector primary)) [])
              [(''registry'', registry_json cid als tier sources conflicts (actions \<noteq> []) catalogOnlyCount)])\<rparr>,
          ent_aliases = als, ent_supportTier = tier, ent_sources = sources, ent_conflicts = conflicts\<rparr>)"

definition candidates_of :: "IntegrationCatalogSource list \<Rightarrow> Candidate list" where
  "candidates_of sources = concat (map (\<lambda>s. map (\<lambda>c. \<lparr>cand_source = s, cand_connector = c,
     cand_supportTier = inferIntegrationSupportTier c\<rparr>) (src_connectors s)) sources)"

definition add_candidate :: "aliases \<Rightarrow> (string \<times> Candidate list) list \<Rightarrow> Candidate \<Rightarrow> (string \<times> Candidate list) list" where
  "add_candidate al grouped c =
     (let cid = canonicalConnectorId al (con_id (cand_connector c))
      in AList.update cid (nullish (map_of grouped cid) [] @ [c]) grouped)"

definition index_entries :: "IntegrationRegistryEntry list \<Rightarrow> string \<Rightarrow> IntegrationRegistryEntry option" where
  "index_entries es = foldl (\<lambda>m e. foldl (\<lambda>m a. m(a \<mapsto> e)) (m(ent_canonicalId e \<mapsto> e)) (ent_aliases e)) Map.empty es"

definition composeIntegrationRegistry :: "(string \<Rightarrow> string \<Rightarrow> int) \<Rightarrow> IntegrationCatalogSource list \<Rightarrow>
    ComposeIntegrationRegistryOptions \<Rightarrow> IntegrationRegistry" where
  "composeIntegrationRegistry localeCompare sources options =
     (let al = overlaid INTEGRATION_KIND_ALIASES (nullish (opt_aliases options) []);
        precedence = overlaid DEFAULT_SOURCE_PRECEDENCE (nullish (opt_sourcePrecedence options) []);
        grouped = foldl (add_candidate al) [] (candidates_of sources);
        es = sort_by (\<lambda>a b. localeCompare (ent_canonicalId a) (ent_canonicalId b))
          (map (\<lambda>(cid, cs). registryEntry localeCompare cid cs precedence al) grouped)
      in \<lparr>reg_entries = es, reg_connectors = map ent_connector es, reg_byId = index_entries es\<rparr>)"

record IntegrationRegistrySummary =
  sum_totalEntries :: nat
  sum_totalSources :: nat
  sum_toolBindableEntries :: nat
  sum_conflictEntries :: nat
  sum_bySupportTier :: "IntegrationSupportTier \<Rightarrow> nat"

definition summarizeIntegrationRegistry :: "IntegrationRegistry \<Rightarrow> IntegrationRegistrySummary" where
  "summarizeIntegrationRegistry r =
     \<lparr>sum_totalEntries = length (reg_entries r),
      sum_totalSources = foldl (\<lambda>n e. n + length (ent_sources e)) 0 (reg_entries r),
      sum_toolBindableEntries = length (filter (\<lambda>e. con_actions (ent_connector e) \<noteq> []) (reg_entries r)),
      sum_conflictEntries = length (filter (\<lambda>e. ent_conflicts e \<noteq> []) (reg_entries r)),
      sum_bySupportTier = foldl (\<lambda>m e. m(ent_supportTier e := m (ent_supportTier e) + 1)) (\<lambda>_. 0) (reg_entries r)\<rparr>"

subsection \<open>The registry of the hub\<close>

fun provider_sources :: "'w IntegrationProvider list \<Rightarrow> ('w, exn, IntegrationCatalogSource list) io" where
  "provider_sources [] = ret []"
| "provider_sources (p # ps) = andThen (prov_listConnectors p) (\<lambda>cs. andThen (provider_sources ps) (\<lambda>rest.
     ret (\<lparr>src_id = prov_id p, src_connectors = cs, src_precedence = None\<rparr> # rest)))"

definition listRegistry :: "(string \<Rightarrow> string \<Rightarrow> int) \<Rightarrow> 'w IntegrationHub \<Rightarrow> ComposeIntegrationRegistryOptions \<Rightarrow>
    ('w, exn, IntegrationRegistry) io" where
  "listRegistry localeCompare hub options =
     andThen (provider_sources (map snd (hub_providers hub))) (\<lambda>sources.
       ret (composeIntegrationRegistry localeCompare sources options))"

section \<open>Slugs\<close>

lemma slug_char_hyphen [simp]: "\<not> slug_char (CHR ''-'')"
  by (simp add: slug_char_def is_digit_def code_of_def)

fun no_double :: "string \<Rightarrow> bool" where
  "no_double (c # d # cs) = (\<not> (c = CHR ''-'' \<and> d = CHR ''-'') \<and> no_double (d # cs))"
| "no_double _ = True"

definition slug_text :: "string \<Rightarrow> bool" where
  "slug_text s \<longleftrightarrow> (\<forall>c \<in> set s. slug_char c \<or> c = CHR ''-'') \<and> no_double s"

lemma no_double_Cons: "no_double (c # cs) \<longleftrightarrow> no_double cs \<and> (c = CHR ''-'' \<longrightarrow> cs = [] \<or> hd cs \<noteq> CHR ''-'')"
  by (cases cs) auto

lemma no_double_append:
  "no_double (xs @ ys) \<longleftrightarrow> no_double xs \<and> no_double ys \<and> (xs \<noteq> [] \<and> ys \<noteq> [] \<longrightarrow> \<not> (last xs = CHR ''-'' \<and> hd ys = CHR ''-''))"
  by (induction xs) (auto simp: no_double_Cons)

lemma no_double_rev: "no_double (rev xs) = no_double xs"
  by (induction xs) (auto simp: no_double_Cons no_double_append last_rev)

lemma hyphenate_text:
  "slug_text (hyphenate b s)" "b \<Longrightarrow> hyphenate b s = [] \<or> hd (hyphenate b s) \<noteq> CHR ''-''"
proof (induction b s rule: hyphenate.induct)
  case (2 b c cs)
  { case 1 then show ?case using 2 by (auto simp: slug_text_def no_double_Cons) next
    case 2 then show ?case using "2.IH" by auto }
qed (auto simp: slug_text_def)

lemma hyphenate_id:
  "slug_text s \<Longrightarrow> (b \<longrightarrow> s = [] \<or> hd s \<noteq> CHR ''-'') \<Longrightarrow> hyphenate b s = s"
  by (induction b s rule: hyphenate.induct) (auto simp: slug_text_def no_double_Cons)

lemma slug_text_rev [simp]: "slug_text (rev s) = slug_text s"
  by (simp add: slug_text_def no_double_rev)

lemma slug_text_drop: "slug_text s \<Longrightarrow> slug_text (dropWhile P s)"
proof -
  assume "slug_text s"
  moreover have "s = takeWhile P s @ dropWhile P s" by simp
  ultimately show ?thesis unfolding slug_text_def by (metis no_double_append Un_iff set_append)
qed

lemma dropWhile_id: "xs = [] \<or> \<not> P (hd xs) \<Longrightarrow> dropWhile P xs = xs"
  by (simp add: dropWhile_eq_self_iff)

lemma trim_id:
  assumes "\<forall>c \<in> set s. \<not> js_space c"
  shows "trim s = s"
proof (cases "s = []")
  case False
  then have "\<not> js_space (hd s)" "\<not> js_space (hd (rev s))" using assms by (auto simp: hd_rev)
  then show ?thesis by (simp add: trim_def dropWhile_id)
qed simp

lemma slug_char_plain:
  assumes "slug_char c \<or> c = CHR ''-''"
  shows "\<not> js_space c" "to_lower c = c" "c \<noteq> CHR ''&''"
proof -
  have "code_of c = 45 \<or> (48 \<le> code_of c \<and> code_of c \<le> 57) \<or> (97 \<le> code_of c \<and> code_of c \<le> 122)"
    using assms by (auto simp: slug_char_def is_digit_def code_of_def)
  then show "\<not> js_space c" "to_lower c = c" "c \<noteq> CHR ''&''"
    by (auto simp: js_space_def to_lower_def Let_def code_of_def)
qed

definition stripped :: "string \<Rightarrow> bool" where
  "stripped s \<longleftrightarrow> s = [] \<or> (hd s \<noteq> CHR ''-'' \<and> last s \<noteq> CHR ''-'')"

lemma strip_hyphens_stripped: "stripped (strip_hyphens s)"
proof -
  let ?P = "\<lambda>c. c = CHR ''-''"
  define a where "a = dropWhile ?P s"
  have eq: "strip_hyphens s = rev (dropWhile ?P (rev a))" by (simp add: strip_hyphens_def a_def)
  show ?thesis
  proof (cases "dropWhile ?P (rev a) = []")
    case False
    then have l: "last (strip_hyphens s) \<noteq> CHR ''-''" using hd_dropWhile [OF False] by (simp add: eq last_rev)
    have "a \<noteq> []" using False by auto
    then have h: "hd a \<noteq> CHR ''-''" using hd_dropWhile unfolding a_def by blast
    have "a = strip_hyphens s @ rev (takeWhile ?P (rev a))"
      unfolding eq by (metis rev_append rev_rev_ident takeWhile_dropWhile_id)
    with False have "hd a = hd (strip_hyphens s)" by (metis eq hd_append2 rev_is_Nil_conv)
    with h l show ?thesis by (simp add: stripped_def)
  qed (simp add: eq stripped_def)
qed

lemma slug_id: "slug_text s \<Longrightarrow> stripped s \<Longrightarrow> slug s = s"
proof -
  assume s: "slug_text s" "stripped s"
  then have c: "c \<in> set s \<Longrightarrow> \<not> js_space c \<and> to_lower c = c \<and> c \<noteq> CHR ''&''" for c
    using slug_char_plain by (auto simp: slug_text_def)
  have "map to_lower s = s" using c by (simp add: map_idI)
  moreover have "concat (map (\<lambda>c. if c = CHR ''&'' then ''and'' else [c]) s) = concat (map (\<lambda>c. [c]) s)"
    using c by (intro arg_cong [where f = concat] map_cong) auto
  moreover have "strip_hyphens s = s"
    using s(2) by (auto simp: strip_hyphens_def stripped_def dropWhile_id hd_rev)
  ultimately show ?thesis using c s(1) by (simp add: slug_def trim_id hyphenate_id)
qed

lemma slug_slug [simp]: "slug (slug v) = slug v"
proof (rule slug_id)
  show "stripped (slug v)" unfolding slug_def by (rule strip_hyphens_stripped)
  show "slug_text (slug v)"
    unfolding slug_def strip_hyphens_def by (simp add: slug_text_drop hyphenate_text)
qed

section \<open>The end of the alias loop\<close>

inductive follows :: "aliases \<Rightarrow> string \<Rightarrow> string \<Rightarrow> bool" for al where
  here: "follows al c c"
| step: "map_of al a = Some t \<Longrightarrow> t \<noteq> [] \<Longrightarrow> follows al t c \<Longrightarrow> follows al a c"

lemma loop_follows: "follows al current (canonical_loop al seen current)"
proof (induction al seen current rule: canonical_loop.induct)
  case (1 al seen current)
  then show ?case
    by (subst canonical_loop.simps) (auto simp: truthy_def split: option.splits intro: follows.intros)
qed

lemma follows_end:
  assumes "follows al a c" "follows al a d" "\<not> truthy (map_of al c)" "\<not> truthy (map_of al d)"
  shows "c = d"
  using assms
proof (induction rule: follows.induct)
  case (here c)
  then show ?case by (auto elim: follows.cases)
next
  case (step a t c)
  from step.prems(1) have "follows al t d"
  proof cases
    case here
    with step.hyps step.prems(3) show ?thesis by simp
  next
    case (step t')
    with \<open>map_of al a = Some t\<close> show ?thesis by simp
  qed
  with step show ?case by blast
qed

text \<open>A table in which the loop never comes back to where it was.\<close>

definition wf_aliases :: "aliases \<Rightarrow> bool" where
  "wf_aliases al \<longleftrightarrow> distinct (map fst al) \<and>
     (\<forall>(a, t) \<in> set al. slug a = a \<and> a \<noteq> [] \<and> slug t = t \<and> t \<noteq> [] \<and> map_of al (canonical_loop al [] a) = None)"

locale alias_table =
  fixes al :: aliases
  assumes wf: "wf_aliases al"

context alias_table
begin

lemma loop_ends: "map_of al (canonical_loop al [] c) = None"
proof (cases "map_of al c")
  case None
  then show ?thesis by (subst canonical_loop.simps) simp
next
  case (Some t)
  with wf show ?thesis by (auto simp: wf_aliases_def dest!: map_of_SomeD)
qed

lemma loop_alias: "(a, t) \<in> set al \<Longrightarrow> canonical_loop al [] t = canonical_loop al [] a"
proof -
  assume at: "(a, t) \<in> set al"
  with wf have "map_of al a = Some t" "t \<noteq> []" by (auto simp: wf_aliases_def)
  then have "follows al a (canonical_loop al [] t)" by (blast intro: follows.step loop_follows)
  with loop_follows [of al a "[]"] loop_ends [of t] loop_ends [of a] show ?thesis
    using follows_end by fastforce
qed

lemma canonical_end: "map_of al (canonicalConnectorId al i) = None"
  by (simp add: canonicalConnectorId_def loop_ends)

lemma follows_slug: "follows al c d \<Longrightarrow> slug c = c \<Longrightarrow> slug d = d"
proof (induction rule: follows.induct)
  case (step a t c)
  with wf show ?case by (auto simp: wf_aliases_def dest!: map_of_SomeD)
qed simp

lemma canonical_slug [simp]: "slug (canonicalConnectorId al i) = canonicalConnectorId al i"
  unfolding canonicalConnectorId_def by (rule follows_slug [OF loop_follows]) simp

lemma canonical_canonical [simp]: "canonicalConnectorId al (canonicalConnectorId al i) = canonicalConnectorId al i"
  using canonical_end [of i] by (subst canonicalConnectorId_def, subst canonical_slug, subst canonical_loop.simps) simp

lemma canonical_of_slug [simp]: "canonicalConnectorId al (slug i) = canonicalConnectorId al i"
  by (simp add: canonicalConnectorId_def)

lemma canonical_alias: "(a, t) \<in> set al \<Longrightarrow> canonicalConnectorId al t = canonicalConnectorId al a"
  using loop_alias wf by (auto simp: canonicalConnectorId_def wf_aliases_def)

end

definition slug_form :: "string \<Rightarrow> bool" where
  "slug_form s \<longleftrightarrow> s \<noteq> [] \<and> list_all (\<lambda>c. slug_char c \<or> c = CHR ''-'') s \<and> no_double s \<and> stripped s"

lemma slug_form_id: "slug_form s \<Longrightarrow> slug s = s"
  by (rule slug_id) (auto simp: slug_form_def slug_text_def list_all_iff)

lemma default_alias_forms: "list_all (\<lambda>(a, t). slug_form a \<and> slug_form t) INTEGRATION_KIND_ALIASES"
  by (simp add: INTEGRATION_KIND_ALIASES_def slug_form_def slug_char_def is_digit_def code_of_def stripped_def)

lemma default_alias_loops:
  "distinct (map fst INTEGRATION_KIND_ALIASES) \<and>
   list_all (\<lambda>(a, t). map_of INTEGRATION_KIND_ALIASES (canonical_loop INTEGRATION_KIND_ALIASES [] a) = None) INTEGRATION_KIND_ALIASES"
  by code_simp

lemma default_aliases_wf: "wf_aliases INTEGRATION_KIND_ALIASES"
  using default_alias_forms default_alias_loops
  by (auto simp: wf_aliases_def list_all_iff slug_form_id) (auto simp: slug_form_def)

interpretation default_aliases: alias_table INTEGRATION_KIND_ALIASES
  by unfold_locales (rule default_aliases_wf)

section \<open>Grouping and indexing\<close>

lemma mset_sort_by [simp]: "mset (sort_by cmp xs) = mset xs"
proof -
  have ins: "mset (insert_by cmp x ys) = add_mset x (mset ys)" for x ys
    by (induction ys) auto
  show ?thesis by (induction xs) (simp_all add: sort_by_def ins)
qed

lemma set_sort_by [simp]: "set (sort_by cmp xs) = set xs"
  by (metis mset_sort_by set_mset_mset)

lemma sort_by_Nil [simp]: "sort_by cmp xs = [] \<longleftrightarrow> xs = []"
  by (metis set_empty set_sort_by)

lemma set_keep_first: "set (keep_first f xs) \<subseteq> set xs"
  by (induction xs) auto

lemma keys_keep_first: "f ` set (keep_first f xs) = f ` set xs"
proof (induction xs)
  case (Cons x xs)
  have "f ` {y \<in> set (keep_first f xs). f y \<noteq> f x} = f ` set (keep_first f xs) - {f x}" by auto
  with Cons show ?case by (auto simp: set_keep_first)
qed simp

lemma distinct_keep_first: "distinct (map f (keep_first f xs))"
  by (induction xs) (auto simp: distinct_map intro: inj_on_subset)

definition members :: "aliases \<Rightarrow> Candidate list \<Rightarrow> string \<Rightarrow> Candidate list" where
  "members al cs cid = filter (\<lambda>c. canonicalConnectorId al (con_id (cand_connector c)) = cid) cs"

lemma grouped_lookup:
  "map_of (foldl (add_candidate al) [] cs) cid = (if members al cs cid = [] then None else Some (members al cs cid))"
  by (induction cs rule: rev_induct) (auto simp: members_def add_candidate_def Let_def update_conv')

lemma grouped_distinct: "distinct (map fst (foldl (add_candidate al) [] cs))"
  by (induction cs rule: rev_induct) (simp_all add: add_candidate_def Let_def distinct_update)

lemma grouped_mem:
  "(cid, g) \<in> set (foldl (add_candidate al) [] cs) \<longleftrightarrow> g = members al cs cid \<and> g \<noteq> []"
  using grouped_lookup [of al cs cid] grouped_distinct [of al cs]
  by (subst map_of_eq_Some_iff [symmetric]) (auto split: if_splits)

lemma members_canonical: "c \<in> set (members al cs cid) \<longleftrightarrow> c \<in> set cs \<and> canonicalConnectorId al (con_id (cand_connector c)) = cid"
  by (auto simp: members_def)

definition leads_to :: "IntegrationRegistryEntry \<Rightarrow> string \<Rightarrow> bool" where
  "leads_to e k \<longleftrightarrow> k = ent_canonicalId e \<or> k \<in> set (ent_aliases e)"

lemma index_entries_find: "index_entries es k = find (\<lambda>e. leads_to e k) (rev es)"
proof -
  have upd: "foldl (\<lambda>m a. m(a \<mapsto> e)) m as = (\<lambda>k. if k \<in> set as then Some e else m k)"
    for m and e :: IntegrationRegistryEntry and as :: "string list"
    by (induction as arbitrary: m) (auto simp: fun_eq_iff)
  show ?thesis
    by (induction es rule: rev_induct) (auto simp: index_entries_def upd leads_to_def)
qed

lemma registryEntry_simps [simp]:
  "ent_canonicalId (registryEntry lc cid cs pr al) = cid"
  "ent_aliases (registryEntry lc cid cs pr al) = entry_aliases al cid (sort_by (compareCandidates lc pr) cs)"
  "ent_supportTier (registryEntry lc cid cs pr al) = entry_tier (sort_by (compareCandidates lc pr) cs)"
  "con_id (ent_connector (registryEntry lc cid cs pr al)) = cid"
  "con_actions (ent_connector (registryEntry lc cid cs pr al)) = mergeActions (sort_by (compareCandidates lc pr) cs)"
  by (simp_all add: registryEntry_def Let_def)

context alias_table
begin

lemma entry_alias_canonical:
  assumes "\<forall>c \<in> set ordered. canonicalConnectorId al (con_id (cand_connector c)) = cid" "a \<in> set (entry_aliases al cid ordered)"
  shows "canonicalConnectorId al a = cid"
proof -
  from assms(2) obtain i where a: "a = slug i"
    and i: "(\<exists>c \<in> set ordered. i = con_id (cand_connector c)) \<or> (\<exists>t. (i, t) \<in> set al \<and> canonicalConnectorId al t = cid)"
    by (fastforce simp: entry_aliases_def)
  from i have "canonicalConnectorId al i = cid" using assms(1) canonical_alias by metis
  then show ?thesis by (simp add: a)
qed

text \<open>Whatever leads to an entry is canonically its identifier.\<close>

lemma leads_to_canonical:
  assumes "\<forall>c \<in> set cs. canonicalConnectorId al (con_id (cand_connector c)) = cid" "cs \<noteq> []"
    and "leads_to (registryEntry lc cid cs pr al) k"
  shows "canonicalConnectorId al k = cid"
proof -
  from assms(1,2) obtain c where "c \<in> set cs" "cid = canonicalConnectorId al (con_id (cand_connector c))" by (cases cs) auto
  then have "canonicalConnectorId al cid = cid" by simp
  with assms(1,3) show ?thesis
    using entry_alias_canonical [of "sort_by (compareCandidates lc pr) cs" cid k] by (auto simp: leads_to_def)
qed

lemma slug_leads_to:
  assumes "c \<in> set cs" "canonicalConnectorId al (con_id (cand_connector c)) = cid"
  shows "leads_to (registryEntry lc cid cs pr al) (slug (con_id (cand_connector c)))"
proof (cases "slug (con_id (cand_connector c)) = []")
  case True
  have "map_of al [] = None" using wf by (cases "map_of al []") (auto simp: wf_aliases_def dest!: map_of_SomeD)
  with True assms(2) have "cid = []" by (auto simp: canonicalConnectorId_def canonical_loop.simps)
  with True show ?thesis by (simp add: leads_to_def)
next
  case False
  with assms(1) show ?thesis by (auto simp: leads_to_def entry_aliases_def)
qed

end

lemma rank_inj: "SUPPORT_RANK t = SUPPORT_RANK u \<longleftrightarrow> t = u"
  by (cases t; cases u) simp_all

instantiation IntegrationSupportTier :: linorder
begin

definition less_eq_IntegrationSupportTier :: "IntegrationSupportTier \<Rightarrow> IntegrationSupportTier \<Rightarrow> bool" where
  "less_eq_IntegrationSupportTier t u \<longleftrightarrow> SUPPORT_RANK t \<le> SUPPORT_RANK u"

definition less_IntegrationSupportTier :: "IntegrationSupportTier \<Rightarrow> IntegrationSupportTier \<Rightarrow> bool" where
  "less_IntegrationSupportTier t u \<longleftrightarrow> SUPPORT_RANK t < SUPPORT_RANK u"

instance
  by standard (auto simp: less_eq_IntegrationSupportTier_def less_IntegrationSupportTier_def rank_inj)

end

lemma least_tier [simp]: "catalogOnly \<le> t"
  by (cases t) (simp_all add: less_eq_IntegrationSupportTier_def)

lemma Max_insert_max:
  fixes A :: "'a :: linorder set"
  shows "finite A \<Longrightarrow> Max (insert (max t u) A) = Max (insert t (insert u A))"
  by (cases "A = {}") (simp_all add: Max_insert max.assoc)

text \<open>The tier of an entry is the greatest of its candidates, and the candidates whose tools can be bound
  are those of that tier, none when it is \<open>catalogOnly\<close>.\<close>

lemma entry_tier_Max:
  assumes "cs \<noteq> []"
  shows "entry_tier cs = Max (cand_supportTier ` set cs)"
proof -
  have step: "(if SUPPORT_RANK (cand_supportTier c) > SUPPORT_RANK best then cand_supportTier c else best) = max best (cand_supportTier c)"
    for best c by (auto simp: max_def less_eq_IntegrationSupportTier_def rank_inj)
  have fold: "foldl (\<lambda>best c. max best (cand_supportTier c)) b cs = Max (insert b (cand_supportTier ` set cs))" for b
    by (induction cs arbitrary: b) (simp_all add: Max_insert_max insert_commute)
  from assms have "cand_supportTier (hd cs) \<in> cand_supportTier ` set cs" by simp
  then show ?thesis unfolding entry_tier_def step fold by (simp add: insert_absorb)
qed

lemma max_rank:
  assumes "cs \<noteq> []"
  shows "foldl max 0 (map (SUPPORT_RANK \<circ> cand_supportTier) cs) = SUPPORT_RANK (Max (cand_supportTier ` set cs))"
proof -
  have m: "SUPPORT_RANK (max t u) = max (SUPPORT_RANK t) (SUPPORT_RANK u)" for t u
    by (simp add: max_def less_eq_IntegrationSupportTier_def)
  have "foldl max (SUPPORT_RANK t) (map (SUPPORT_RANK \<circ> cand_supportTier) cs) = SUPPORT_RANK (Max (insert t (cand_supportTier ` set cs)))" for t
    by (induction cs arbitrary: t) (simp_all add: m [symmetric] Max_insert_max insert_commute)
  from this [of catalogOnly] show ?thesis
    using assms by (simp add: Max_insert max_absorb2)
qed

lemma toolBindable_eq:
  "toolBindableCandidates cs = filter (\<lambda>c. cand_supportTier c \<noteq> catalogOnly \<and> cand_supportTier c = entry_tier cs) cs"
proof (cases "filter (\<lambda>c. cand_supportTier c \<noteq> catalogOnly) cs = []")
  case True
  then show ?thesis by (auto simp: toolBindableCandidates_def filter_empty_conv)
next
  case False
  let ?b = "filter (\<lambda>c. cand_supportTier c \<noteq> catalogOnly) cs"
  have ne: "cs \<noteq> []" using False by auto
  have "Max (cand_supportTier ` set ?b) = Max (cand_supportTier ` set cs)"
  proof (rule Max_eq_if)
    show "\<forall>t \<in> cand_supportTier ` set ?b. \<exists>u \<in> cand_supportTier ` set cs. t \<le> u" by auto
    from False obtain b where "b \<in> set ?b" by (cases ?b) auto
    then show "\<forall>t \<in> cand_supportTier ` set cs. \<exists>u \<in> cand_supportTier ` set ?b. t \<le> u"
      by (auto simp: image_iff intro: least_tier) (metis least_tier order_refl)
  qed auto
  then show ?thesis
    unfolding toolBindableCandidates_def Let_def using False max_rank [OF False] entry_tier_Max [OF ne]
    by (simp add: rank_inj conj_commute)
qed

lemma find_by_key: "distinct (map f xs) \<Longrightarrow> x \<in> set xs \<Longrightarrow> find (\<lambda>y. f y = f x) xs = Some x"
  by (induction xs) (auto simp: rev_image_eqI)

lemma find_hit: "find P xs = Some x \<Longrightarrow> x \<in> set xs \<and> P x"
  by (induction xs) (auto split: if_splits)

definition follow :: "aliases \<Rightarrow> string \<Rightarrow> string" where
  "follow al c = the (map_of al c)"

lemma loop_rounds:
  "\<exists>n \<le> card (set (map fst al) - set seen). canonical_loop al seen c = (follow al ^^ n) c \<and>
     (map_of al (canonical_loop al seen c) \<in> {None, Some []} \<or>
      canonical_loop al seen c \<in> set seen \<union> (\<lambda>m. (follow al ^^ m) c) ` {..<n})"
proof (induction al seen c rule: canonical_loop.induct)
  case (1 al seen c)
  let ?K = "set (map fst al)"
  show ?case
  proof (cases "truthy (map_of al c) \<and> c \<notin> set seen")
    case False
    then have "canonical_loop al seen c = c" by (subst canonical_loop.simps) (simp only: if_False)
    with False show ?thesis by (intro exI [of _ 0]) (auto simp: truthy_def split: option.splits)
  next
    case True
    then have loop: "canonical_loop al seen c = canonical_loop al (c # seen) (follow al c)"
      by (subst canonical_loop.simps) (simp add: follow_def)
    from 1 [OF True] obtain n where n: "n \<le> card (?K - set (c # seen))"
      "canonical_loop al (c # seen) (follow al c) = (follow al ^^ n) (follow al c)"
      "map_of al (canonical_loop al (c # seen) (follow al c)) \<in> {None, Some []} \<or>
       canonical_loop al (c # seen) (follow al c) \<in> set (c # seen) \<union> (\<lambda>m. (follow al ^^ m) (follow al c)) ` {..<n}"
      unfolding follow_def by blast
    from True have "c \<in> ?K - set seen"
      by (auto simp: truthy_def split: option.splits dest!: map_of_SomeD intro: rev_image_eqI)
    then have "card (?K - set (c # seen)) < card (?K - set seen)" by (intro psubset_card_mono) auto
    with n(1) have "Suc n \<le> card (?K - set seen)" by simp
    moreover have "(\<lambda>m. (follow al ^^ m) c) ` {..<Suc n} = insert c ((\<lambda>m. (follow al ^^ m) (follow al c)) ` {..<n})"
      by (simp add: lessThan_Suc_eq_insert_0 image_image funpow_swap1)
    ultimately show ?thesis
      using n(2,3) unfolding loop by (intro exI [of _ "Suc n"]) (auto simp: funpow_swap1)
  qed
qed

section \<open>Properties\<close>

text \<open>C23. The search for the canonical identifier ends on every alias table, also on one with a cycle: it
  follows at most as many aliases as the table has and stops at an identifier that has no alias or at
  the first one it has already followed.\<close>

theorem alias_search_ends:
  "\<exists>n \<le> length al. canonicalConnectorId al i = (follow al ^^ n) (slug i) \<and>
     (map_of al (canonicalConnectorId al i) \<in> {None, Some []} \<or>
      canonicalConnectorId al i \<in> (\<lambda>m. (follow al ^^ m) (slug i)) ` {..<n})"
proof -
  have "card (set (map fst al) - set []) \<le> length al" by (metis card_length length_map list.set(1) Diff_empty)
  moreover obtain n where "n \<le> card (set (map fst al) - set [])" "canonical_loop al [] (slug i) = (follow al ^^ n) (slug i)"
    "map_of al (canonical_loop al [] (slug i)) \<in> {None, Some []} \<or>
      canonical_loop al [] (slug i) \<in> (\<lambda>m. (follow al ^^ m) (slug i)) ` {..<n}"
    using loop_rounds [of al "[]" "slug i"] unfolding list.set Un_empty_left by blast
  ultimately show ?thesis unfolding canonicalConnectorId_def by (intro exI [of _ n]) simp
qed

definition all_aliases :: "ComposeIntegrationRegistryOptions \<Rightarrow> aliases" where
  "all_aliases options = overlaid INTEGRATION_KIND_ALIASES (nullish (opt_aliases options) [])"

lemma composed_entries:
  assumes "r = composeIntegrationRegistry lc sources options"
  defines "al \<equiv> all_aliases options"
  shows "e \<in> set (reg_entries r) \<longleftrightarrow> (\<exists>cid. members al (candidates_of sources) cid \<noteq> [] \<and>
       e = registryEntry lc cid (members al (candidates_of sources) cid)
         (overlaid DEFAULT_SOURCE_PRECEDENCE (nullish (opt_sourcePrecedence options) [])) al)"
    and "distinct (map ent_canonicalId (reg_entries r))"
    and "reg_byId r = index_entries (reg_entries r)"
    and "reg_connectors r = map ent_connector (reg_entries r)"
proof -
  let ?g = "foldl (add_candidate al) [] (candidates_of sources)"
    and ?pr = "overlaid DEFAULT_SOURCE_PRECEDENCE (nullish (opt_sourcePrecedence options) [])"
  have es: "reg_entries r = sort_by (\<lambda>a b. lc (ent_canonicalId a) (ent_canonicalId b))
      (map (\<lambda>(cid, cs). registryEntry lc cid cs ?pr al) ?g)"
    by (simp add: assms(1) al_def all_aliases_def composeIntegrationRegistry_def Let_def)
  show "e \<in> set (reg_entries r) \<longleftrightarrow> (\<exists>cid. members al (candidates_of sources) cid \<noteq> [] \<and>
       e = registryEntry lc cid (members al (candidates_of sources) cid) ?pr al)"
    unfolding es set_sort_by set_map image_iff Bex_def split_paired_Ex prod.case grouped_mem by blast
  have "map ent_canonicalId (map (\<lambda>(cid, cs). registryEntry lc cid cs ?pr al) ?g) = map fst ?g" by auto
  then have "distinct (map ent_canonicalId (map (\<lambda>(cid, cs). registryEntry lc cid cs ?pr al) ?g))"
    by (simp only: grouped_distinct)
  then show "distinct (map ent_canonicalId (reg_entries r))"
    unfolding es by (rule mset_eq_imp_distinct_iff [THEN iffD1, rotated]) (simp only: mset_map mset_sort_by)
qed (simp_all add: assms(1) composeIntegrationRegistry_def Let_def)

lemma entry_leads:
  assumes "wf_aliases (all_aliases options)" "r = composeIntegrationRegistry lc sources options"
    and "e \<in> set (reg_entries r)" "leads_to e k"
  shows "canonicalConnectorId (all_aliases options) k = ent_canonicalId e" "reg_byId r k = Some e"
proof -
  note es = composed_entries [OF assms(2)]
  have leads: "canonicalConnectorId (all_aliases options) k = ent_canonicalId e" if "e \<in> set (reg_entries r)" "leads_to e k" for e
    using that unfolding es(1)
    by (auto simp: members_canonical dest!: alias_table.leads_to_canonical [OF alias_table.intro [OF assms(1)], rotated 2])
  then show "canonicalConnectorId (all_aliases options) k = ent_canonicalId e" using assms(3,4) .
  from assms(3,4) obtain e' where e': "find (\<lambda>e. leads_to e k) (rev (reg_entries r)) = Some e'"
    by (cases "find (\<lambda>e. leads_to e k) (rev (reg_entries r))") (auto simp: find_None_iff)
  from find_hit [OF this] have "e' \<in> set (reg_entries r)" "leads_to e' k" by auto
  with leads assms(3,4) have "ent_canonicalId e' = ent_canonicalId e" by metis
  with \<open>e' \<in> set (reg_entries r)\<close> assms(3) es(2) have "e' = e" by (metis distinct_map inj_onD)
  with e' show "reg_byId r k = Some e" by (simp add: es(3) index_entries_find)
qed

lemma indexed_by_id:
  assumes "wf_aliases (all_aliases options)" "r = composeIntegrationRegistry lc sources options" "e \<in> set (reg_entries r)"
  shows "reg_byId r (ent_canonicalId e) = Some e"
  by (rule entry_leads(2) [OF assms]) (simp add: leads_to_def)

text \<open>With aliases that do not run in a circle, the index of a composed registry is the canonical map: the
  identifier of every connector of a source, made a slug, leads to the one entry of its canonical
  identifier, and whatever leads to an entry has the identifier of that entry as its canonical one.\<close>

theorem registry_index_is_canonical:
  assumes "wf_aliases (all_aliases options)" "r = composeIntegrationRegistry lc sources options"
  shows "(\<forall>s \<in> set sources. \<forall>c \<in> set (src_connectors s). \<exists>e \<in> set (reg_entries r).
      reg_byId r (slug (con_id c)) = Some e \<and> ent_canonicalId e = canonicalConnectorId (all_aliases options) (con_id c)) \<and>
    (\<forall>k e. reg_byId r k = Some e \<longrightarrow> e \<in> set (reg_entries r) \<and> canonicalConnectorId (all_aliases options) k = ent_canonicalId e) \<and>
    (\<forall>e \<in> set (reg_entries r). reg_byId r (ent_canonicalId e) = Some e) \<and>
    distinct (map ent_canonicalId (reg_entries r))"
proof -
  let ?al = "all_aliases options"
  note al = alias_table.intro [OF assms(1)]
  note es = composed_entries [OF assms(2)]
  note leads = entry_leads(1) [OF assms] and found = entry_leads(2) [OF assms]
  have "\<exists>e \<in> set (reg_entries r). reg_byId r (slug (con_id c)) = Some e \<and> ent_canonicalId e = canonicalConnectorId ?al (con_id c)"
    if "s \<in> set sources" "c \<in> set (src_connectors s)" for s c
  proof -
    let ?c = "\<lparr>cand_source = s, cand_connector = c, cand_supportTier = inferIntegrationSupportTier c\<rparr>"
    let ?cid = "canonicalConnectorId ?al (con_id c)"
    have m: "?c \<in> set (members ?al (candidates_of sources) ?cid)"
      using that by (auto simp: members_canonical candidates_of_def)
    let ?e = "registryEntry lc ?cid (members ?al (candidates_of sources) ?cid)
         (overlaid DEFAULT_SOURCE_PRECEDENCE (nullish (opt_sourcePrecedence options) [])) ?al"
    have "members ?al (candidates_of sources) ?cid \<noteq> []" using m by (metis empty_iff list.set(1))
    then have "?e \<in> set (reg_entries r)" unfolding es(1) by (intro exI [of _ ?cid] conjI refl)
    moreover have "leads_to ?e (slug (con_id c))"
      using alias_table.slug_leads_to [OF al m] by simp
    ultimately show ?thesis using found by (intro bexI [of _ ?e]) auto
  qed
  then have a: "\<forall>s \<in> set sources. \<forall>c \<in> set (src_connectors s). \<exists>e \<in> set (reg_entries r).
      reg_byId r (slug (con_id c)) = Some e \<and> ent_canonicalId e = canonicalConnectorId ?al (con_id c)" by blast
  have b: "e \<in> set (reg_entries r) \<and> canonicalConnectorId ?al k = ent_canonicalId e" if "reg_byId r k = Some e" for k e
  proof -
    from that have "e \<in> set (reg_entries r)" "leads_to e k"
      by (auto simp: es(3) index_entries_find dest!: find_hit)
    with leads show ?thesis by blast
  qed
  note c = indexed_by_id [OF assms]
  from a b c es(2) show ?thesis by blast
qed

definition source_connectors :: "ComposeIntegrationRegistryOptions \<Rightarrow> IntegrationCatalogSource list \<Rightarrow> string \<Rightarrow> IntegrationConnector set" where
  "source_connectors options sources cid =
     {c. (\<exists>s \<in> set sources. c \<in> set (src_connectors s)) \<and> canonicalConnectorId (all_aliases options) (con_id c) = cid}"

lemma members_connectors:
  "cand_connector ` set (members (all_aliases options) (candidates_of sources) cid) = source_connectors options sources cid"
  "c \<in> set (members al (candidates_of sources) cid) \<Longrightarrow> cand_supportTier c = inferIntegrationSupportTier (cand_connector c)"
  by (force simp: source_connectors_def members_canonical candidates_of_def image_iff) (auto simp: members_canonical candidates_of_def)

lemma entry_actions:
  assumes "r = composeIntegrationRegistry lc sources options" "e \<in> set (reg_entries r)"
  defines "cs \<equiv> source_connectors options sources (ent_canonicalId e)"
  shows "ent_supportTier e = Max (inferIntegrationSupportTier ` cs) \<and>
    distinct (map act_id (con_actions (ent_connector e))) \<and>
    set (con_actions (ent_connector e)) \<subseteq>
      \<Union> ((set \<circ> con_actions) ` {c \<in> cs. inferIntegrationSupportTier c = ent_supportTier e \<and> ent_supportTier e \<noteq> catalogOnly}) \<and>
    act_id ` set (con_actions (ent_connector e)) =
      act_id ` \<Union> ((set \<circ> con_actions) ` {c \<in> cs. inferIntegrationSupportTier c = ent_supportTier e \<and> ent_supportTier e \<noteq> catalogOnly})"
proof -
  obtain cid pr where m: "members (all_aliases options) (candidates_of sources) cid \<noteq> []"
    and e: "e = registryEntry lc cid (members (all_aliases options) (candidates_of sources) cid) pr (all_aliases options)"
    using assms(2) unfolding composed_entries(1) [OF assms(1)] by blast
  let ?o = "sort_by (compareCandidates lc pr) (members (all_aliases options) (candidates_of sources) cid)"
  have cs: "cs = cand_connector ` set ?o" by (simp add: cs_def e members_connectors)
  have tier: "cand_supportTier c = inferIntegrationSupportTier (cand_connector c)" if "c \<in> set ?o" for c
    using that members_connectors(2) by simp
  have best: "ent_supportTier e = entry_tier ?o" by (simp add: e)
  have t: "entry_tier ?o = Max (inferIntegrationSupportTier ` cs)"
    using entry_tier_Max [of ?o] m tier unfolding cs image_image by (simp cong: image_cong)
  let ?src = "\<Union> ((set \<circ> con_actions) ` {c \<in> cs. inferIntegrationSupportTier c = ent_supportTier e \<and> ent_supportTier e \<noteq> catalogOnly})"
  have u: "set (concat (map (con_actions \<circ> cand_connector) (toolBindableCandidates ?o))) = ?src"
    unfolding toolBindable_eq best cs using tier by auto
  have a: "con_actions (ent_connector e) = mergeActions ?o" by (simp add: e)
  show ?thesis
    unfolding a mergeActions_def using u set_keep_first [of act_id] keys_keep_first [of act_id] distinct_keep_first [of act_id] best t
    by metis
qed

text \<open>C24. An entry of a composed registry has the best tier among the connectors of its identifier, and its
  actions come from connectors of that tier only, every one of them, each identifier once; an entry
  whose best connectors are mere catalog entries has no action.\<close>

theorem entry_actions_have_its_tier:
  assumes "r = composeIntegrationRegistry lc sources options" "e \<in> set (reg_entries r)"
  defines "cs \<equiv> source_connectors options sources (ent_canonicalId e)"
  shows "ent_supportTier e = Max (inferIntegrationSupportTier ` cs) \<and>
    distinct (map act_id (con_actions (ent_connector e))) \<and>
    set (con_actions (ent_connector e)) \<subseteq>
      \<Union> ((set \<circ> con_actions) ` {c \<in> cs. inferIntegrationSupportTier c = ent_supportTier e \<and> ent_supportTier e \<noteq> catalogOnly}) \<and>
    act_id ` set (con_actions (ent_connector e)) =
      act_id ` \<Union> ((set \<circ> con_actions) ` {c \<in> cs. inferIntegrationSupportTier c = ent_supportTier e \<and> ent_supportTier e \<noteq> catalogOnly})"
  unfolding cs_def by (rule entry_actions [OF assms(1,2)])

section \<open>Two sources\<close>

definition rx_connector :: "string \<Rightarrow> IntegrationConnectorAction list \<Rightarrow> metadata option \<Rightarrow> IntegrationConnector" where
  "rx_connector i actions m = \<lparr>con_id = i, con_providerId = ''p1'', con_title = ''Jira'', con_category = cat_other,
     con_auth = auth_api_key, con_scopes = [''send''], con_actions = actions, con_triggers = None, con_metadata = m\<rparr>"

definition rx_sources :: "IntegrationCatalogSource list" where
  "rx_sources =
     [\<lparr>src_id = ''gateway'', src_connectors = [rx_connector ''jira'' [gx_action] None], src_precedence = None\<rparr>,
      \<lparr>src_id = ''coverage'', src_connectors = [rx_connector ''jira-cloud'' [gx_action\<lparr>act_id := ''drop''\<rparr>]
         (Some [(''catalogOnly'', JBool True)])], src_precedence = None\<rparr>]"

definition rx_options :: ComposeIntegrationRegistryOptions where
  "rx_options = \<lparr>opt_aliases = None, opt_sourcePrecedence = None\<rparr>"

lemma rx_aliases: "all_aliases rx_options = INTEGRATION_KIND_ALIASES"
  by (simp add: all_aliases_def rx_options_def overlaid_def)

lemma rx_wf: "wf_aliases (all_aliases rx_options)"
  unfolding rx_aliases by (rule default_aliases_wf)

lemma rx_ids: "canonicalConnectorId (all_aliases rx_options) ''jira'' = ''jira-cloud''"
  "canonicalConnectorId (all_aliases rx_options) ''jira-cloud'' = ''jira-cloud''"
  "slug ''jira'' = ''jira''"
  unfolding rx_aliases by code_simp+

lemma rx_tiers: "inferIntegrationSupportTier (rx_connector i [gx_action] None) = gatewayExecutable"
  "inferIntegrationSupportTier (rx_connector i as (Some [(''catalogOnly'', JBool True)])) = catalogOnly"
  by (simp_all add: inferIntegrationSupportTier_def rx_connector_def meta_field_def isSupportTier_def Let_def)

lemma rx_connectors: "source_connectors rx_options rx_sources ''jira-cloud'' =
    {rx_connector ''jira'' [gx_action] None, rx_connector ''jira-cloud'' [gx_action\<lparr>act_id := ''drop''\<rparr>] (Some [(''catalogOnly'', JBool True)])}"
  by (auto simp: source_connectors_def rx_sources_def rx_ids) (auto simp: rx_connector_def rx_ids)

theorem registry_index_is_canonical_witness:
  "\<exists>e \<in> set (reg_entries (composeIntegrationRegistry code_unit_order rx_sources rx_options)).
     reg_byId (composeIntegrationRegistry code_unit_order rx_sources rx_options) ''jira'' = Some e \<and> ent_canonicalId e = ''jira-cloud''"
  using registry_index_is_canonical [OF rx_wf refl, of rx_sources code_unit_order] rx_ids
  by (auto simp: rx_sources_def rx_connector_def)

lemma rx_entry: "\<exists>e \<in> set (reg_entries (composeIntegrationRegistry code_unit_order rx_sources rx_options)). ent_canonicalId e = ''jira-cloud''"
proof -
  have "\<exists>c \<in> set (candidates_of rx_sources). canonicalConnectorId (all_aliases rx_options) (con_id (cand_connector c)) = ''jira-cloud''"
    by (simp add: candidates_of_def rx_sources_def rx_connector_def rx_ids)
  then have "members (all_aliases rx_options) (candidates_of rx_sources) ''jira-cloud'' \<noteq> []"
    using members_canonical by (metis empty_iff list.set(1))
  then show ?thesis
    unfolding Bex_def composed_entries(1) [OF refl] by (metis registryEntry_simps(1))
qed

lemma rx_best:
  "Max (inferIntegrationSupportTier ` {rx_connector ''jira'' [gx_action] None, rx_connector ''jira-cloud'' [gx_action\<lparr>act_id := ''drop''\<rparr>] (Some [(''catalogOnly'', JBool True)])}) = gatewayExecutable"
  "\<Union> ((set \<circ> con_actions) ` {c \<in> {rx_connector ''jira'' [gx_action] None, rx_connector ''jira-cloud'' [gx_action\<lparr>act_id := ''drop''\<rparr>] (Some [(''catalogOnly'', JBool True)])}.
     inferIntegrationSupportTier c = gatewayExecutable \<and> gatewayExecutable \<noteq> catalogOnly}) = {gx_action}"
  "act_id ` {gx_action} = {''send''}"
proof -
  show "Max (inferIntegrationSupportTier ` {rx_connector ''jira'' [gx_action] None, rx_connector ''jira-cloud'' [gx_action\<lparr>act_id := ''drop''\<rparr>] (Some [(''catalogOnly'', JBool True)])}) = gatewayExecutable"
    by (simp add: rx_tiers max_def less_eq_IntegrationSupportTier_def)
  have "{c \<in> {rx_connector ''jira'' [gx_action] None, rx_connector ''jira-cloud'' [gx_action\<lparr>act_id := ''drop''\<rparr>] (Some [(''catalogOnly'', JBool True)])}.
     inferIntegrationSupportTier c = gatewayExecutable \<and> gatewayExecutable \<noteq> catalogOnly} = {rx_connector ''jira'' [gx_action] None}"
    by (auto simp: rx_tiers)
  then show "\<Union> ((set \<circ> con_actions) ` {c \<in> {rx_connector ''jira'' [gx_action] None, rx_connector ''jira-cloud'' [gx_action\<lparr>act_id := ''drop''\<rparr>] (Some [(''catalogOnly'', JBool True)])}.
     inferIntegrationSupportTier c = gatewayExecutable \<and> gatewayExecutable \<noteq> catalogOnly}) = {gx_action}"
    by (simp add: rx_connector_def)
  show "act_id ` {gx_action} = {''send''}" by (simp add: gx_action_def)
qed

lemma rx_actions:
  "\<exists>e \<in> set (reg_entries (composeIntegrationRegistry code_unit_order rx_sources rx_options)).
     ent_canonicalId e = ''jira-cloud'' \<and> act_id ` set (con_actions (ent_connector e)) = {''send''}"
proof -
  obtain e where e: "e \<in> set (reg_entries (composeIntegrationRegistry code_unit_order rx_sources rx_options))" "ent_canonicalId e = ''jira-cloud''"
    using rx_entry by blast
  note facts = entry_actions [OF refl e(1), unfolded e(2) rx_connectors]
  have tier: "ent_supportTier e = gatewayExecutable" using facts [THEN conjunct1] rx_best(1) by (rule trans)
  show ?thesis
    using e facts [THEN conjunct2, THEN conjunct2, THEN conjunct2, unfolded tier rx_best] by blast
qed

theorem entry_actions_have_its_tier_witness:
  "\<exists>e \<in> set (reg_entries (composeIntegrationRegistry code_unit_order rx_sources rx_options)).
     ent_canonicalId e = ''jira-cloud'' \<and> ent_supportTier e = gatewayExecutable \<and> act_id ` set (con_actions (ent_connector e)) = {''send''}"
proof -
  obtain e where e: "e \<in> set (reg_entries (composeIntegrationRegistry code_unit_order rx_sources rx_options))" "ent_canonicalId e = ''jira-cloud''"
    using rx_entry by blast
  note facts = entry_actions_have_its_tier [OF refl e(1), unfolded e(2) rx_connectors]
  have tier: "ent_supportTier e = gatewayExecutable" using facts [THEN conjunct1] rx_best(1) by (rule trans)
  show ?thesis
    using e tier facts [THEN conjunct2, THEN conjunct2, THEN conjunct2, unfolded tier rx_best] by blast
qed

end
