(* ===== verification/Catalog.thy ===== *)
theory Catalog
  imports Registry
begin

text \<open>
  The tool catalog of \<open>catalog.ts\<close>: the names under which an agent sees the actions of the connectors,
  the description of a tool from its name, the views of a registry and the search.

  A score is counted in quarters, so the weights 6, 4, 1 and 0.25 of the code are 24, 16, 4 and 1. What
  the code throws for a name part that does not decode is one error.
\<close>

section \<open>Tool names\<close>

definition encodeToolPart :: "string \<Rightarrow> string" where
  "encodeToolPart v = map (\<lambda>c. if c = CHR ''_'' then CHR ''.'' else c) (encodeUtf8Base64Url v)"

definition decodeToolPart :: "string \<Rightarrow> exn + string" where
  "decodeToolPart v =
     (case decodeUtf8Base64Url (map (\<lambda>c. if c = CHR ''.'' then CHR ''_'' else c) v) of
        None \<Rightarrow> Inl (Error ''The string to be decoded is not correctly encoded.'')
      | Some s \<Rightarrow> Inr s)"

definition integrationToolName :: "string \<Rightarrow> string \<Rightarrow> string \<Rightarrow> string" where
  "integrationToolName providerId connectorId actionId =
     ''int_'' @ encodeToolPart providerId @ ''_'' @ encodeToolPart connectorId @ ''_'' @ encodeToolPart actionId"

definition parseIntegrationToolName :: "string \<Rightarrow> exn + string \<times> string \<times> string" where
  "parseIntegrationToolName tool =
     (case split_on (CHR ''_'') tool of
        [i, p, c, a] \<Rightarrow>
          if i \<noteq> ''int'' then Inl (Error (''Invalid integration tool name: '' @ tool))
          else (case (decodeToolPart p, decodeToolPart c, decodeToolPart a) of
              (Inr p', Inr c', Inr a') \<Rightarrow> Inr (p', c', a')
            | (Inl e, _, _) \<Rightarrow> Inl e
            | (_, Inl e, _) \<Rightarrow> Inl e
            | (_, _, Inl e) \<Rightarrow> Inl e)
      | _ \<Rightarrow> Inl (Error (''Invalid integration tool name: '' @ tool)))"

section \<open>Tool definitions\<close>

record IntegrationToolDefinition =
  tool_name :: string
  tool_title :: string
  tool_description :: string
  tool_providerId :: string
  tool_connectorId :: string
  tool_connectorTitle :: string
  tool_category :: IntegrationConnectorCategory
  tool_action :: IntegrationConnectorAction
  tool_risk :: IntegrationActionRisk
  tool_dataClass :: IntegrationDataClass
  tool_requiredScopes :: "string list"
  tool_inputSchema :: "json option"
  tool_outputSchema :: "json option"
  tool_tags :: "string list"
  tool_supportTier :: "IntegrationSupportTier option"
  tool_runnable :: bool

text \<open>The pieces between runs of other characters; an empty piece between two adjacent ones is dropped
  by the filter.\<close>

fun pieces :: "(char \<Rightarrow> bool) \<Rightarrow> string \<Rightarrow> string list" where
  "pieces sep [] = [[]]"
| "pieces sep (c # cs) =
     (if sep c then [] # pieces sep cs
      else (case pieces sep cs of [] \<Rightarrow> [[c]] | p # ps \<Rightarrow> (c # p) # ps))"

definition tokenize :: "string \<Rightarrow> string list" where
  "tokenize v = filter (\<lambda>p. p \<noteq> []) (map trim (pieces (\<lambda>c. \<not> slug_char c) (map to_lower v)))"

text \<open>The description of the entry that the registry put into the metadata of a connector.\<close>

definition registry_meta :: "IntegrationConnector \<Rightarrow> json option" where
  "registry_meta c = (case meta_field (con_metadata c) ''registry'' of
       Some (JObj kvs) \<Rightarrow> Some (JObj kvs) | _ \<Rightarrow> None)"

definition toolSupportTier :: "IntegrationConnector \<Rightarrow> IntegrationSupportTier option" where
  "toolSupportTier c = (case registry_meta c of
       Some r \<Rightarrow> isSupportTier (field r ''supportTier'')
     | None \<Rightarrow> isSupportTier (meta_field (con_metadata c) ''supportTier''))"

definition executable_tier :: "IntegrationSupportTier option \<Rightarrow> bool" where
  "executable_tier t \<longleftrightarrow> t = Some gatewayExecutable \<or> t = Some firstPartyExecutable \<or> t = Some sandboxExecutable"

definition toolRunnable :: "IntegrationConnector \<Rightarrow> bool" where
  "toolRunnable c = (case opt_field (registry_meta c) ''toolBindable'' of
       Some (JBool b) \<Rightarrow> b
     | _ \<Rightarrow> executable_tier (toolSupportTier c))"

definition flattenIntegrationToolDefinition :: "IntegrationConnector \<Rightarrow> IntegrationConnectorAction \<Rightarrow> IntegrationToolDefinition" where
  "flattenIntegrationToolDefinition c a =
     \<lparr>tool_name = integrationToolName (con_providerId c) (con_id c) (act_id a),
      tool_title = con_title c @ '': '' @ act_title a,
      tool_description = nullish (act_description a) (risk_name (act_risk a) @ '' action '' @ act_id a @ '' on '' @ con_title c),
      tool_providerId = con_providerId c,
      tool_connectorId = con_id c,
      tool_connectorTitle = con_title c,
      tool_category = con_category c,
      tool_action = a,
      tool_risk = act_risk a,
      tool_dataClass = act_dataClass a,
      tool_requiredScopes = act_requiredScopes a,
      tool_inputSchema = act_inputSchema a,
      tool_outputSchema = act_outputSchema a,
      tool_tags = unique (concat (map tokenize
        ([con_id c, con_providerId c, con_title c, category_name (con_category c), act_id a, act_title a,
          risk_name (act_risk a), data_class_name (act_dataClass a)] @ con_scopes c @ act_requiredScopes a))),
      tool_supportTier = toolSupportTier c,
      tool_runnable = toolRunnable c\<rparr>"

definition buildIntegrationToolCatalog :: "IntegrationConnector list \<Rightarrow> IntegrationToolDefinition list" where
  "buildIntegrationToolCatalog cs =
     concat (map (\<lambda>c. map (flattenIntegrationToolDefinition c) (con_actions c)) cs)"

definition describeIntegrationTool :: "IntegrationRegistry \<Rightarrow> string \<Rightarrow> IntegrationToolDefinition option" where
  "describeIntegrationTool registry tool =
     (case parseIntegrationToolName tool of
        Inl _ \<Rightarrow> None
      | Inr (_, connectorId, actionId) \<Rightarrow>
          (case reg_byId registry connectorId of
             None \<Rightarrow> None
           | Some entry \<Rightarrow>
               map_option (flattenIntegrationToolDefinition (ent_connector entry))
                 (find (\<lambda>a. act_id a = actionId) (con_actions (ent_connector entry)))))"

record IntegrationCatalogView =
  view_connectors :: "IntegrationConnector list"
  view_conflicts :: "IntegrationRegistryConflict list"
  view_summary :: IntegrationRegistrySummary
  view_tools :: "IntegrationToolDefinition list"
  view_runtimeTools :: "IntegrationToolDefinition list"
  view_discoveryTools :: "IntegrationToolDefinition list"

definition buildIntegrationCatalogView :: "IntegrationRegistry \<Rightarrow> IntegrationRegistry option \<Rightarrow> IntegrationCatalogView" where
  "buildIntegrationCatalogView discovery executable =
     (let runtimeConnectors = nullish (map_option reg_connectors executable) (filter toolRunnable (reg_connectors discovery));
        runtimeTools = buildIntegrationToolCatalog runtimeConnectors
      in \<lparr>view_connectors = reg_connectors discovery,
          view_conflicts = concat (map ent_conflicts (reg_entries discovery)),
          view_summary = summarizeIntegrationRegistry discovery,
          view_tools = runtimeTools, view_runtimeTools = runtimeTools,
          view_discoveryTools = buildIntegrationToolCatalog (reg_connectors discovery)\<rparr>)"

record McpToolDefinition =
  mcp_name :: string
  mcp_description :: string
  mcp_inputSchema :: json

definition toMcpTools :: "IntegrationToolDefinition list \<Rightarrow> McpToolDefinition list" where
  "toMcpTools = map (\<lambda>t. \<lparr>mcp_name = tool_name t, mcp_description = tool_title t @ ''. '' @ tool_description t,
     mcp_inputSchema = nullish (tool_inputSchema t)
       (JObj [(''type'', JStr ''object''), (''additionalProperties'', JBool True), (''properties'', JObj [])])\<rparr>)"

section \<open>Search\<close>

record IntegrationToolSearchFilters =
  flt_providerId :: "string option"
  flt_connectorId :: "string option"
  flt_category :: "IntegrationConnectorCategory option"
  flt_maxRisk :: "IntegrationActionRisk option"
  flt_dataClass :: "IntegrationDataClass option"
  flt_limit :: "int option"

record IntegrationToolSearchResult =
  res_tool :: IntegrationToolDefinition
  res_score :: int
  res_matched :: "string list"

definition has_substring :: "string \<Rightarrow> string \<Rightarrow> bool" where
  "has_substring s t \<longleftrightarrow> list_ex (\<lambda>i. take (length t) (drop i s) = t) [0..<Suc (length s)]"

definition term_weight :: "IntegrationToolDefinition \<Rightarrow> string \<Rightarrow> int" where
  "term_weight tool t =
     (if t \<in> set (concat (map tokenize [tool_connectorId tool, tool_connectorTitle tool, tool_providerId tool])) then 24
      else if t \<in> set (tool_tags tool) then 16
      else if list_ex (\<lambda>tag. has_substring tag t) (tool_tags tool) then 4
      else 0)"

definition scoreTool :: "IntegrationToolDefinition \<Rightarrow> string list \<Rightarrow> IntegrationToolSearchResult" where
  "scoreTool tool terms =
     (if terms = [] then \<lparr>res_tool = tool, res_score = 4, res_matched = []\<rparr>
      else \<lparr>res_tool = tool,
        res_score = foldl (\<lambda>s t. s + term_weight tool t) 0 terms + (if tool_risk tool = risk_read then 1 else 0),
        res_matched = unique (filter (\<lambda>t. term_weight tool t \<noteq> 0) terms)\<rparr>)"

definition toolPasses :: "IntegrationToolSearchFilters \<Rightarrow> IntegrationToolDefinition \<Rightarrow> bool" where
  "toolPasses f tool \<longleftrightarrow>
     \<not> (truthy (flt_providerId f) \<and> Some (tool_providerId tool) \<noteq> flt_providerId f) \<and>
     \<not> (truthy (flt_connectorId f) \<and> Some (tool_connectorId tool) \<noteq> flt_connectorId f) \<and>
     flt_category f \<in> {None, Some (tool_category tool)} \<and>
     flt_dataClass f \<in> {None, Some (tool_dataClass tool)} \<and>
     (case flt_maxRisk f of None \<Rightarrow> True | Some m \<Rightarrow> riskRank (tool_risk tool) \<le> riskRank m)"

text \<open>\<open>slice(0, n)\<close>.\<close>

definition slice :: "int \<Rightarrow> 'a list \<Rightarrow> 'a list" where
  "slice n xs = (if 0 \<le> n then take (nat n) xs else take (nat (int (length xs) + n)) xs)"

definition by_score :: "(string \<Rightarrow> string \<Rightarrow> int) \<Rightarrow> IntegrationToolSearchResult \<Rightarrow> IntegrationToolSearchResult \<Rightarrow> int" where
  "by_score localeCompare a b = or_else (res_score b - res_score a) (localeCompare (tool_name (res_tool a)) (tool_name (res_tool b)))"

definition searchIntegrationTools :: "(string \<Rightarrow> string \<Rightarrow> int) \<Rightarrow> IntegrationToolDefinition list \<Rightarrow> string \<Rightarrow>
    IntegrationToolSearchFilters \<Rightarrow> IntegrationToolSearchResult list" where
  "searchIntegrationTools localeCompare tools query filters =
     (let terms = tokenize query;
        scored = map (\<lambda>tool. scoreTool tool terms) (filter (toolPasses filters) tools)
      in slice (nullish (flt_limit filters) 20)
          (sort_by (by_score localeCompare) (filter (\<lambda>r. terms = [] \<or> res_score r > 0) scored)))"

section \<open>Names read back\<close>

lemma encoded_part_chars: "c \<in> set (encodeToolPart v) \<Longrightarrow> c \<noteq> CHR ''_''"
  by (auto simp: encodeToolPart_def)

lemma encoded_no_dot: "c \<in> set (encodeUtf8Base64Url v) \<Longrightarrow> c \<noteq> CHR ''.''"
  using encoded_chars [of c v] by (auto simp: is_alnum_def is_letter_def is_digit_def code_of_def)

lemma decode_encode_part: "decodeToolPart (encodeToolPart v) = Inr v"
proof -
  have "map ((\<lambda>c. if c = CHR ''.'' then CHR ''_'' else c) \<circ> (\<lambda>c. if c = CHR ''_'' then CHR ''.'' else c)) (encodeUtf8Base64Url v)
      = encodeUtf8Base64Url v"
    by (rule map_idI) (auto simp: encoded_no_dot)
  then show ?thesis by (simp add: decodeToolPart_def encodeToolPart_def text_round_trip)
qed

lemma split_tool_name:
  "split_on (CHR ''_'') (integrationToolName p c a) = [''int'', encodeToolPart p, encodeToolPart c, encodeToolPart a]"
proof -
  have none: "CHR ''_'' \<notin> set (encodeToolPart v)" for v using encoded_part_chars by blast
  have "CHR ''_'' \<notin> set ''int''" by simp
  from split_on_first [OF this, of "encodeToolPart p @ CHR ''_'' # encodeToolPart c @ CHR ''_'' # encodeToolPart a"]
  show ?thesis
    by (simp add: integrationToolName_def split_on_first [OF none] split_on_none [OF none])
qed

lemma parse_tool_name: "parseIntegrationToolName (integrationToolName p c a) = Inr (p, c, a)"
  by (simp add: parseIntegrationToolName_def split_tool_name decode_encode_part)

section \<open>Ranked results\<close>

lemma sorted_sort_by:
  assumes "\<And>x y. cmp x y \<le> 0 \<Longrightarrow> R x y" "\<And>x y. \<not> cmp x y \<le> 0 \<Longrightarrow> R y x" "transp R"
  shows "sorted_wrt R (sort_by cmp xs)"
proof -
  have set_ins: "set (insert_by cmp x ys) = insert x (set ys)" for x ys
    by (induction ys) auto
  have "sorted_wrt R ys \<Longrightarrow> sorted_wrt R (insert_by cmp x ys)" for x ys
  proof (induction ys)
    case (Cons y ys)
    then have y: "\<forall>z \<in> set ys. R y z" "sorted_wrt R ys" "sorted_wrt R (insert_by cmp x ys)" by simp_all
    show ?case
    proof (cases "cmp x y \<le> 0")
      case True
      from assms(1) [OF this] y(1) have "\<forall>z \<in> set (y # ys). R x z" using transpD [OF assms(3)] by auto
      with True y show ?thesis by simp
    next
      case False
      with y assms(2) [OF False] show ?thesis by (simp add: set_ins)
    qed
  qed simp
  then show ?thesis by (induction xs) (simp_all add: sort_by_def)
qed

lemma sorted_by_score: "sorted_wrt (\<lambda>a b. res_score b \<le> res_score a) (sort_by (by_score lc) rs)"
  by (rule sorted_sort_by) (auto simp: by_score_def or_else_def intro: transpI split: if_splits)

lemma scored_tool [simp]: "res_tool (scoreTool tool terms) = tool"
  by (simp add: scoreTool_def)

section \<open>Properties\<close>

text \<open>The parts of a tool name are read back from it, whatever text they hold, so two tools share a name
  only when provider, connector and action are the same; and a name is safe in a URL and in a
  function name: letters, digits, hyphens, dots and underscores.\<close>

theorem tool_name_round_trip:
  "parseIntegrationToolName (integrationToolName p c a) = Inr (p, c, a) \<and>
   (integrationToolName p c a = integrationToolName p' c' a') = ((p, c, a) = (p', c', a')) \<and>
   list_all (\<lambda>ch. is_alnum ch \<or> ch \<in> {CHR ''-'', CHR ''.'', CHR ''_''}) (integrationToolName p c a)"
proof -
  have eq: "integrationToolName p c a = integrationToolName p' c' a' \<longleftrightarrow> (p, c, a) = (p', c', a')"
  proof
    assume "integrationToolName p c a = integrationToolName p' c' a'"
    then have "parseIntegrationToolName (integrationToolName p c a) = parseIntegrationToolName (integrationToolName p' c' a')"
      by (rule arg_cong)
    then show "(p, c, a) = (p', c', a')" by (simp only: parse_tool_name sum.inject)
  qed simp
  have "code_of ch = 45 \<longleftrightarrow> ch = CHR ''-''" "code_of ch = 95 \<longleftrightarrow> ch = CHR ''_''" for ch
    using code_of_inj [of ch "CHR ''-''"] code_of_inj [of ch "CHR ''_''"] by (simp_all add: code_of_def)
  then have "is_alnum ch \<or> ch \<in> {CHR ''-'', CHR ''.'', CHR ''_''}" if "ch \<in> set (encodeToolPart v)" for ch v
    using that encoded_chars [of _ v] by (auto simp: encodeToolPart_def split: if_splits)
  moreover have "list_all is_alnum ''int''" by (simp add: is_alnum_def is_letter_def code_of_def)
  ultimately have "list_all (\<lambda>ch. is_alnum ch \<or> ch \<in> {CHR ''-'', CHR ''.'', CHR ''_''}) (integrationToolName p c a)"
    by (auto simp: integrationToolName_def list_all_iff)
  with eq show ?thesis by (simp only: parse_tool_name refl simp_thms)
qed

text \<open>For a composed registry whose aliases do not run in a circle, every tool of its catalog is described
  from its name, and whatever is described from any name is a tool of the catalog.\<close>

theorem catalog_tools_are_described:
  assumes "wf_aliases (all_aliases options)" "r = composeIntegrationRegistry lc sources options"
  shows "(\<forall>tool \<in> set (buildIntegrationToolCatalog (reg_connectors r)). describeIntegrationTool r (tool_name tool) = Some tool) \<and>
    (\<forall>n tool. describeIntegrationTool r n = Some tool \<longrightarrow> tool \<in> set (buildIntegrationToolCatalog (reg_connectors r)))"
proof -
  note es = composed_entries [OF assms(2)]
  have connector: "con_id (ent_connector e) = ent_canonicalId e" "distinct (map act_id (con_actions (ent_connector e)))"
    if "e \<in> set (reg_entries r)" for e
    using that unfolding es(1) by (auto simp: mergeActions_def distinct_keep_first)
  have byId: "reg_byId r (ent_canonicalId e) = Some e" if "e \<in> set (reg_entries r)" for e
    using indexed_by_id [OF assms that] .
  have entry: "e \<in> set (reg_entries r)" if "reg_byId r k = Some e" for e k
    using that by (auto simp: es(3) index_entries_find dest!: find_hit)
  have tools: "tool \<in> set (buildIntegrationToolCatalog (reg_connectors r)) \<longleftrightarrow>
      (\<exists>e \<in> set (reg_entries r). \<exists>a \<in> set (con_actions (ent_connector e)). tool = flattenIntegrationToolDefinition (ent_connector e) a)" for tool
    by (auto simp: buildIntegrationToolCatalog_def es(4))
  have "describeIntegrationTool r (tool_name tool) = Some tool"
    if "e \<in> set (reg_entries r)" "a \<in> set (con_actions (ent_connector e))" "tool = flattenIntegrationToolDefinition (ent_connector e) a" for e a tool
  proof -
    have "find (\<lambda>b. act_id b = act_id a) (con_actions (ent_connector e)) = Some a"
      using connector(2) [OF that(1)] that(2) by (rule find_by_key)
    then show ?thesis
      using byId [OF that(1)] connector(1) [OF that(1)]
      by (simp add: describeIntegrationTool_def that(3) flattenIntegrationToolDefinition_def parse_tool_name)
  qed
  moreover have "tool \<in> set (buildIntegrationToolCatalog (reg_connectors r))" if "describeIntegrationTool r n = Some tool" for n tool
    using that entry unfolding tools
    by (fastforce simp: describeIntegrationTool_def split: sum.splits prod.splits option.splits dest!: find_hit)
  ultimately show ?thesis unfolding Ball_def tools by blast
qed

text \<open>The provider in the name plays no part: a name with any other provider describes the same tool.\<close>

theorem provider_of_a_name_is_ignored:
  "describeIntegrationTool r (integrationToolName p c a) = describeIntegrationTool r (integrationToolName p' c a)"
  by (simp add: describeIntegrationTool_def parse_tool_name)

text \<open>A search returns at most as many tools as asked for, only tools of the catalog that pass the filters
  and match a term, in the order of their scores; and a matching tool is only left out when the
  limit is reached and every returned tool scores at least as high.\<close>

theorem search_returns_the_best:
  assumes "0 \<le> nullish (flt_limit f) 20"
    and found_def: "found = searchIntegrationTools lc tools query f" and terms_def: "terms = tokenize query"
  shows "length found \<le> nat (nullish (flt_limit f) 20) \<and>
    (\<forall>r \<in> set found. res_tool r \<in> set tools \<and> toolPasses f (res_tool r) \<and> r = scoreTool (res_tool r) terms \<and> (terms = [] \<or> 0 < res_score r)) \<and>
    sorted_wrt (\<lambda>a b. res_score b \<le> res_score a) found \<and>
    (\<forall>tool \<in> set tools. toolPasses f tool \<and> (terms = [] \<or> 0 < res_score (scoreTool tool terms)) \<longrightarrow>
       scoreTool tool terms \<in> set found \<or>
       (length found = nat (nullish (flt_limit f) 20) \<and> (\<forall>r \<in> set found. res_score (scoreTool tool terms) \<le> res_score r)))"
proof -
  let ?n = "nat (nullish (flt_limit f) 20)"
  let ?all = "filter (\<lambda>r. terms = [] \<or> res_score r > 0) (map (\<lambda>tool. scoreTool tool terms) (filter (toolPasses f) tools))"
  let ?s = "sort_by (by_score lc) ?all"
  have res: "found = take ?n ?s"
    using assms(1) by (simp add: found_def terms_def searchIntegrationTools_def slice_def Let_def)
  have sub: "r \<in> set ?all" if "r \<in> set found" for r
    using that unfolding res by (metis in_set_takeD set_sort_by)
  have s: "sorted_wrt (\<lambda>a b. res_score b \<le> res_score a) (take ?n ?s @ drop ?n ?s)"
    by (simp add: sorted_by_score)
  then have below: "\<forall>r \<in> set found. \<forall>x \<in> set (drop ?n ?s). res_score x \<le> res_score r"
    and sorted: "sorted_wrt (\<lambda>a b. res_score b \<le> res_score a) found"
    unfolding res sorted_wrt_append by blast+
  have left_out: "scoreTool tool terms \<in> set found \<or> (length found = ?n \<and> (\<forall>r \<in> set found. res_score (scoreTool tool terms) \<le> res_score r))"
    if "tool \<in> set tools" "toolPasses f tool" "terms = [] \<or> 0 < res_score (scoreTool tool terms)" for tool
  proof -
    have "scoreTool tool terms \<in> set ?s" using that by auto
    then have "scoreTool tool terms \<in> set found \<or> scoreTool tool terms \<in> set (drop ?n ?s)"
      unfolding res by (metis Un_iff append_take_drop_id set_append)
    moreover have "length found = ?n" if "x \<in> set (drop ?n ?s)" for x
      using that unfolding res by (cases "?n \<le> length ?s") auto
    ultimately show ?thesis using below by blast
  qed
  have len: "length found \<le> ?n" by (simp add: res)
  have good: "res_tool r \<in> set tools \<and> toolPasses f (res_tool r) \<and> r = scoreTool (res_tool r) terms \<and> (terms = [] \<or> 0 < res_score r)"
    if "r \<in> set found" for r
    using sub [OF that] by auto
  show ?thesis using len good sorted left_out by blast
qed

section \<open>A small catalog\<close>

lemma catalog_member:
  "c \<in> set cs \<Longrightarrow> a \<in> set (con_actions c) \<Longrightarrow> flattenIntegrationToolDefinition c a \<in> set (buildIntegrationToolCatalog cs)"
  by (auto simp: buildIntegrationToolCatalog_def)

theorem catalog_tools_are_described_witness:
  "\<exists>tool \<in> set (buildIntegrationToolCatalog (reg_connectors (composeIntegrationRegistry code_unit_order rx_sources rx_options))).
     act_id (tool_action tool) = ''send'' \<and>
     describeIntegrationTool (composeIntegrationRegistry code_unit_order rx_sources rx_options) (tool_name tool) = Some tool"
proof -
  let ?r = "composeIntegrationRegistry code_unit_order rx_sources rx_options"
  obtain e where e: "e \<in> set (reg_entries ?r)" "act_id ` set (con_actions (ent_connector e)) = {''send''}"
    using rx_actions by blast
  have "''send'' \<in> act_id ` set (con_actions (ent_connector e))" unfolding e(2) by (rule insertI1)
  then obtain a where a: "a \<in> set (con_actions (ent_connector e))" "act_id a = ''send''" by (elim imageE) simp
  have "ent_connector e \<in> set (reg_connectors ?r)"
    unfolding composed_entries(4) [OF refl] set_map using e(1) by (rule imageI)
  from catalog_member [OF this a(1)]
  have "flattenIntegrationToolDefinition (ent_connector e) a \<in> set (buildIntegrationToolCatalog (reg_connectors ?r))"
    "act_id (tool_action (flattenIntegrationToolDefinition (ent_connector e) a)) = ''send''"
    using a(2) by (simp_all only: flattenIntegrationToolDefinition_def IntegrationToolDefinition.simps)
  moreover note catalog_tools_are_described [OF rx_wf refl, of code_unit_order rx_sources, THEN conjunct1, THEN bspec, OF this(1)]
  ultimately show ?thesis by (intro bexI conjI)
qed

definition kx_tool :: "string \<Rightarrow> IntegrationToolDefinition" where
  "kx_tool i = flattenIntegrationToolDefinition (rx_connector i [gx_action] None) gx_action"

definition kx_filters :: IntegrationToolSearchFilters where
  "kx_filters = \<lparr>flt_providerId = None, flt_connectorId = Some ''jira'', flt_category = None, flt_maxRisk = Some risk_write,
     flt_dataClass = None, flt_limit = Some 1\<rparr>"

theorem search_returns_the_best_witness:
  "searchIntegrationTools code_unit_order [kx_tool ''wiki'', kx_tool ''jira''] [] kx_filters = [scoreTool (kx_tool ''jira'') []]"
proof -
  let ?tools = "[kx_tool ''wiki'', kx_tool ''jira'']"
  let ?r = "searchIntegrationTools code_unit_order ?tools [] kx_filters"
  have q: "tokenize [] = []" by (simp add: tokenize_def)
  have p: "toolPasses kx_filters (kx_tool i) \<longleftrightarrow> i = ''jira''" for i
    by (auto simp: toolPasses_def kx_filters_def kx_tool_def flattenIntegrationToolDefinition_def rx_connector_def gx_action_def)
  have n: "nullish (flt_limit kx_filters) 20 = 1" by (simp add: kx_filters_def)
  have "length ?r \<le> 1" "\<forall>r \<in> set ?r. r = scoreTool (kx_tool ''jira'') []" "?r \<noteq> []"
    using search_returns_the_best [OF _ refl refl, of kx_filters code_unit_order ?tools "[]"] by (auto simp: n p q)
  then show ?thesis by (cases ?r) auto
qed

end
