(* ===== verification/Runtime.thy ===== *)
theory Runtime
  imports Catalog
begin

text \<open>
  The runtime of \<open>runtime.ts\<close>: a manifest of requirements is resolved against the registry and the
  connections of an owner, grants are made from the resolution, and a bundle of capabilities for a
  sandbox is built from grants. The grant store is modelled with its in-memory version; the hub the
  runtime works on is an interface, which \<open>runtime_hub\<close> fills with the hub of \<open>hub.ts\<close>.
\<close>

section \<open>Manifests and grants\<close>

datatype IntegrationRequirementMode = mode_read | mode_write | mode_trigger

datatype IntegrationRequirementStatus = rs_ready | rs_missing_connection | rs_not_executable | rs_unknown_connector

record IntegrationRequirement =
  rqm_id :: string
  rqm_connectorId :: string
  rqm_reason :: string
  rqm_mode :: IntegrationRequirementMode
  rqm_requiredActions :: "string list option"
  rqm_requiredTriggers :: "string list option"
  rqm_requiredScopes :: "string list option"
  rqm_optional :: "bool option"

record IntegrationManifest =
  man_id :: string
  man_title :: "string option"
  man_owner :: "IntegrationActor option"
  man_requirements :: "IntegrationRequirement list"
  man_metadata :: "metadata option"

record IntegrationRequirementResolution =
  rsl_requirement :: IntegrationRequirement
  rsl_status :: IntegrationRequirementStatus
  rsl_connector :: "IntegrationConnector option"
  rsl_registryEntry :: "IntegrationRegistryEntry option"
  rsl_connection :: "IntegrationConnection option"
  rsl_missingScopes :: "string list"
  rsl_missingActions :: "string list"
  rsl_missingTriggers :: "string list"
  rsl_message :: string

record IntegrationManifestResolution =
  mr_manifest :: IntegrationManifest
  mr_owner :: IntegrationActor
  mr_ready :: "IntegrationRequirementResolution list"
  mr_missing :: "IntegrationRequirementResolution list"
  mr_optionalMissing :: "IntegrationRequirementResolution list"

datatype grant_status = grant_active | grant_revoked

fun grant_status_name :: "grant_status \<Rightarrow> string" where
  "grant_status_name grant_active = ''active''"
| "grant_status_name grant_revoked = ''revoked''"

record IntegrationGrant =
  gr_id :: string
  gr_manifestId :: string
  gr_requirementId :: string
  gr_owner :: IntegrationActor
  gr_grantee :: IntegrationActor
  gr_connectionId :: string
  gr_connectorId :: string
  gr_scopes :: "string list"
  gr_allowedActions :: "string list"
  gr_allowedTriggers :: "string list"
  gr_status :: grant_status
  gr_createdAt :: string
  gr_updatedAt :: string
  gr_metadata :: "metadata option"

record 'w IntegrationGrantStore =
  gs_get :: "string \<Rightarrow> ('w, exn, IntegrationGrant option) io"
  gs_put :: "IntegrationGrant \<Rightarrow> ('w, exn, unit) io"
  gs_listByManifest :: "string \<Rightarrow> IntegrationActor option \<Rightarrow> ('w, exn, IntegrationGrant list) io"
  gs_listByGrantee :: "IntegrationActor \<Rightarrow> ('w, exn, IntegrationGrant list) io"
  gs_listByIds :: "(string list \<Rightarrow> ('w, exn, IntegrationGrant list) io) option"
  gs_delete :: "(string \<Rightarrow> ('w, exn, unit) io) option"

record IntegrationCapabilityBinding =
  bd_requirementId :: string
  bd_connectorId :: string
  bd_connectionId :: string
  bd_grantId :: string
  bd_scopes :: "string list"
  bd_allowedActions :: "string list"
  bd_allowedTriggers :: "string list"
  bd_capability :: IssuedIntegrationCapability

record IntegrationSandboxBundle =
  sb_manifestId :: string
  sb_subject :: IntegrationActor
  sb_capabilities :: "IntegrationCapabilityBinding list"
  sb_connectors :: "IntegrationConnector list"
  sb_tools :: "IntegrationToolDefinition list"
  sb_expiresAt :: string

record 'w IntegrationRuntimeHub =
  rh_listRegistry :: "('w, exn, IntegrationRegistry) io"
  rh_listConnections :: "IntegrationActor \<Rightarrow> ('w, exn, IntegrationConnection list) io"
  rh_getConnection :: "string \<Rightarrow> ('w, exn, IntegrationConnection option) io"
  rh_issueCapability :: "IssueCapabilityRequest \<Rightarrow> ('w, exn, IssuedIntegrationCapability) io"

record 'w IntegrationRuntime =
  rt_hub :: "'w IntegrationRuntimeHub"
  rt_grants :: "'w IntegrationGrantStore"
  rt_now :: "('w, exn, int) io"
  rt_dates :: date_api

definition newRuntime :: "date_api \<Rightarrow> 'w IntegrationRuntimeHub \<Rightarrow> 'w IntegrationGrantStore option \<Rightarrow> 'w IntegrationGrantStore \<Rightarrow>
    ('w, exn, int) io \<Rightarrow> 'w IntegrationRuntime" where
  "newRuntime dates hub grantStore newGrants now =
     \<lparr>rt_hub = hub, rt_grants = nullish grantStore newGrants, rt_now = now, rt_dates = dates\<rparr>"

text \<open>The hub of \<open>hub.ts\<close> as the hub of a runtime.\<close>

definition runtime_hub :: "(string \<Rightarrow> string \<Rightarrow> int) \<Rightarrow> ('w, 'a) hub_platform_scheme \<Rightarrow> 'w IntegrationHub \<Rightarrow> 'w IntegrationRuntimeHub" where
  "runtime_hub localeCompare pf hub =
     \<lparr>rh_listRegistry = listRegistry localeCompare hub \<lparr>opt_aliases = None, opt_sourcePrecedence = None\<rparr>,
      rh_listConnections = listConnections hub, rh_getConnection = getConnection hub,
      rh_issueCapability = issueCapability pf hub\<rparr>"

section \<open>The in-memory grant store\<close>

record InMemoryIntegrationGrantStore = InMemoryConnectionStore +
  grants :: "(string \<times> IntegrationGrant) list"

definition grant_get :: "string \<Rightarrow> ('a InMemoryIntegrationGrantStore_scheme, exn, IntegrationGrant option) io" where
  [io_defs]: "grant_get k w = (Inr (map_of (grants w) k), w)"

definition grant_put :: "IntegrationGrant \<Rightarrow> ('a InMemoryIntegrationGrantStore_scheme, exn, unit) io" where
  [io_defs]: "grant_put g w = (Inr (), w\<lparr>grants := AList.update (gr_id g) g (grants w)\<rparr>)"

definition grant_listByManifest :: "string \<Rightarrow> IntegrationActor option \<Rightarrow> ('a InMemoryIntegrationGrantStore_scheme, exn, IntegrationGrant list) io" where
  [io_defs]: "grant_listByManifest m grantee w = (Inr (filter (\<lambda>g. gr_manifestId g = m \<and>
     (case grantee of None \<Rightarrow> True | Some a \<Rightarrow> sameActor (gr_grantee g) a)) (map snd (grants w))), w)"

definition grant_listByGrantee :: "IntegrationActor \<Rightarrow> ('a InMemoryIntegrationGrantStore_scheme, exn, IntegrationGrant list) io" where
  [io_defs]: "grant_listByGrantee a w = (Inr (filter (\<lambda>g. sameActor (gr_grantee g) a) (map snd (grants w))), w)"

definition grant_listByIds :: "string list \<Rightarrow> ('a InMemoryIntegrationGrantStore_scheme, exn, IntegrationGrant list) io" where
  [io_defs]: "grant_listByIds ids w = (Inr (filter (\<lambda>g. gr_id g \<in> set ids) (map snd (grants w))), w)"

definition grant_delete :: "string \<Rightarrow> ('a InMemoryIntegrationGrantStore_scheme, exn, unit) io" where
  [io_defs]: "grant_delete k w = (Inr (), w\<lparr>grants := AList.delete k (grants w)\<rparr>)"

definition mem_grants :: "('a InMemoryIntegrationGrantStore_scheme) IntegrationGrantStore" where
  "mem_grants = \<lparr>gs_get = grant_get, gs_put = grant_put, gs_listByManifest = grant_listByManifest,
     gs_listByGrantee = grant_listByGrantee, gs_listByIds = Some grant_listByIds, gs_delete = Some grant_delete\<rparr>"

section \<open>Resolving a manifest\<close>

text \<open>\<open>list?.length\<close> as a condition.\<close>

definition non_empty :: "'a list option \<Rightarrow> bool" where
  "non_empty xs \<longleftrightarrow> nullish xs [] \<noteq> []"

definition requiredActions :: "IntegrationRequirement \<Rightarrow> IntegrationConnector \<Rightarrow> string list" where
  "requiredActions r c =
     (if rqm_mode r = mode_trigger then []
      else if non_empty (rqm_requiredActions r) then unique (the (rqm_requiredActions r))
      else unique (map act_id (filter (\<lambda>a.
        if rqm_mode r = mode_read then act_risk a = risk_read
        else if rqm_mode r = mode_write then act_risk a = risk_write
        else False) (con_actions c))))"

definition requiredTriggers :: "IntegrationRequirement \<Rightarrow> IntegrationConnector \<Rightarrow> string list" where
  "requiredTriggers r c =
     (if non_empty (rqm_requiredTriggers r) then unique (the (rqm_requiredTriggers r))
      else if rqm_mode r \<noteq> mode_trigger then []
      else unique (map trg_id (nullish (con_triggers c) [])))"

definition requiredScopes :: "IntegrationRequirement \<Rightarrow> IntegrationConnector \<Rightarrow> string list" where
  "requiredScopes r c =
     (if non_empty (rqm_requiredScopes r) then unique (the (rqm_requiredScopes r))
      else unique
        (concat (map act_requiredScopes (filter (\<lambda>a. act_id a \<in> set (requiredActions r c)) (con_actions c))) @
         concat (map trg_requiredScopes (filter (\<lambda>t. trg_id t \<in> set (requiredTriggers r c)) (nullish (con_triggers c) [])))))"

definition missing_resolution :: "IntegrationRequirement \<Rightarrow> IntegrationRequirementStatus \<Rightarrow> string \<Rightarrow> IntegrationConnector option \<Rightarrow>
    IntegrationRegistryEntry option \<Rightarrow> IntegrationRequirementResolution" where
  "missing_resolution r st message c e = \<lparr>rsl_requirement = r, rsl_status = st, rsl_connector = c, rsl_registryEntry = e,
     rsl_connection = None, rsl_missingScopes = [], rsl_missingActions = [], rsl_missingTriggers = [], rsl_message = message\<rparr>"

definition usable :: "IntegrationActor \<Rightarrow> IntegrationRegistryEntry \<Rightarrow> string list \<Rightarrow> IntegrationConnection \<Rightarrow> bool" where
  "usable who e scopes c \<longleftrightarrow> sameActor (conn_owner c) who \<and> conn_status c = cs_active \<and>
     (conn_connectorId c = con_id (ent_connector e) \<or> conn_connectorId c \<in> set (ent_aliases e)) \<and>
     list_all (\<lambda>s. s \<in> set (conn_grantedScopes c)) scopes"

definition resolveRequirement :: "IntegrationRequirement \<Rightarrow> IntegrationActor \<Rightarrow> IntegrationRegistry \<Rightarrow> IntegrationConnection list \<Rightarrow>
    IntegrationRequirementResolution" where
  "resolveRequirement r who registry conns =
     (case reg_byId registry (rqm_connectorId r) of
        None \<Rightarrow> missing_resolution r rs_unknown_connector (''Unknown connector '' @ rqm_connectorId r @ ''.'') None None
      | Some e \<Rightarrow>
          let c = ent_connector e in
          if con_actions c = [] \<and> nullish (con_triggers c) [] = [] then
            missing_resolution r rs_not_executable (con_title c @ '' is catalog-only and cannot be invoked yet.'') (Some c) (Some e)
          else let scopes = requiredScopes r c in
            (case find (usable who e scopes) conns of
               None \<Rightarrow> \<lparr>rsl_requirement = r, rsl_status = rs_missing_connection, rsl_connector = Some c, rsl_registryEntry = Some e,
                  rsl_connection = None, rsl_missingScopes = scopes, rsl_missingActions = requiredActions r c,
                  rsl_missingTriggers = requiredTriggers r c,
                  rsl_message = con_title c @ '' needs an active user connection with the required scopes.''\<rparr>
             | Some conn \<Rightarrow> \<lparr>rsl_requirement = r, rsl_status = rs_ready, rsl_connector = Some c, rsl_registryEntry = Some e,
                  rsl_connection = Some conn, rsl_missingScopes = [], rsl_missingActions = [], rsl_missingTriggers = [],
                  rsl_message = con_title c @ '' is ready.''\<rparr>))"

definition resolveManifest :: "'w IntegrationRuntime \<Rightarrow> IntegrationManifest \<Rightarrow> IntegrationActor \<Rightarrow> ('w, exn, IntegrationManifestResolution) io" where
  "resolveManifest rt m who =
     andThen (rh_listRegistry (rt_hub rt)) (\<lambda>registry.
     andThen (rh_listConnections (rt_hub rt) who) (\<lambda>conns.
     let rs = map (\<lambda>r. resolveRequirement r who registry conns) (man_requirements m) in
     ret \<lparr>mr_manifest = m, mr_owner = who,
       mr_ready = filter (\<lambda>x. rsl_status x = rs_ready) rs,
       mr_missing = filter (\<lambda>x. rsl_status x \<noteq> rs_ready \<and> rqm_optional (rsl_requirement x) \<noteq> Some True) rs,
       mr_optionalMissing = filter (\<lambda>x. rsl_status x \<noteq> rs_ready \<and> rqm_optional (rsl_requirement x) = Some True) rs\<rparr>))"

section \<open>Making grants\<close>

definition grant_for :: "IntegrationManifest \<Rightarrow> IntegrationActor \<Rightarrow> IntegrationActor \<Rightarrow> metadata option \<Rightarrow> string \<Rightarrow>
    IntegrationRequirementResolution \<Rightarrow> IntegrationGrant" where
  "grant_for m who grantee meta now x =
     (let r = rsl_requirement x; conn = the (rsl_connection x); c = the (rsl_connector x) in
      \<lparr>gr_id = ''grant_'' @ man_id m @ ''_'' @ rqm_id r @ ''_'' @ conn_id conn,
       gr_manifestId = man_id m, gr_requirementId = rqm_id r, gr_owner = who, gr_grantee = grantee,
       gr_connectionId = conn_id conn, gr_connectorId = con_id c,
       gr_scopes = requiredScopes r c, gr_allowedActions = requiredActions r c, gr_allowedTriggers = requiredTriggers r c,
       gr_status = grant_active, gr_createdAt = now, gr_updatedAt = now, gr_metadata = meta\<rparr>)"

definition createGrants :: "'w IntegrationRuntime \<Rightarrow> IntegrationManifest \<Rightarrow> IntegrationActor \<Rightarrow> IntegrationActor \<Rightarrow> metadata option \<Rightarrow>
    ('w, exn, IntegrationGrant list) io" where
  "createGrants rt m who grantee meta =
     andThen (resolveManifest rt m who) (\<lambda>resolution.
     if mr_missing resolution \<noteq> [] then
       throw (Error (''Cannot create integration grants; missing requirements: '' @
         joined '', '' (map (rqm_id \<circ> rsl_requirement) (mr_missing resolution))))
     else
     andThen (rt_now rt) (\<lambda>n.
     andThen (liftE (toISO (rt_dates rt) n)) (\<lambda>now.
     let gs = map (grant_for m who grantee meta now) (mr_ready resolution) in
     andThen (forEach (gs_put (rt_grants rt)) gs) (\<lambda>_. ret gs))))"

section \<open>Building a bundle\<close>

record bundle_input =
  bi_manifestId :: "string option"
  bi_grantIds :: "string list option"
  bi_owner :: IntegrationActor
  bi_subject :: IntegrationActor
  bi_ttlMs :: int
  bi_grantee :: "IntegrationActor option"

definition bundle_error :: "string \<Rightarrow> exn" where
  "bundle_error s = Error (''Cannot build integration bundle; '' @ s)"

fun getAll :: "(string \<Rightarrow> ('w, exn, 'a option) io) \<Rightarrow> string list \<Rightarrow> ('w, exn, 'a list) io" where
  "getAll get [] = ret []"
| "getAll get (k # ks) = andThen (get k) (\<lambda>x. andThen (getAll get ks) (\<lambda>xs. ret (case x of None \<Rightarrow> xs | Some y \<Rightarrow> y # xs)))"

definition fetchGrants :: "'w IntegrationGrantStore \<Rightarrow> string list \<Rightarrow> ('w, exn, IntegrationGrant list) io" where
  "fetchGrants gs ids = (case gs_listByIds gs of None \<Rightarrow> getAll (gs_get gs) ids | Some list \<Rightarrow> list ids)"

text \<open>The first of the checks that a fetched grant fails, in the order of the code.\<close>

definition grant_problem :: "bundle_input \<Rightarrow> IntegrationGrant list \<Rightarrow> string option" where
  "grant_problem inp found =
     (case find (\<lambda>g. \<not> sameActor (gr_owner g) (bi_owner inp)) found of
        Some g \<Rightarrow> Some (''grant '' @ gr_id g @ '' belongs to a different owner.'')
      | None \<Rightarrow>
     (case (case bi_grantee inp of None \<Rightarrow> None | Some a \<Rightarrow> find (\<lambda>g. \<not> sameActor (gr_grantee g) a) found) of
        Some g \<Rightarrow> Some (''grant '' @ gr_id g @ '' belongs to a different grantee.'')
      | None \<Rightarrow>
     (case (if truthy (bi_manifestId inp) then find (\<lambda>g. Some (gr_manifestId g) \<noteq> bi_manifestId inp) found else None) of
        Some g \<Rightarrow> Some (''grant '' @ gr_id g @ '' is not for manifest '' @ the (bi_manifestId inp) @ ''.'')
      | None \<Rightarrow>
     (case find (\<lambda>g. gr_status g \<noteq> grant_active) found of
        Some g \<Rightarrow> Some (''grant '' @ gr_id g @ '' is '' @ grant_status_name (gr_status g) @ ''.'')
      | None \<Rightarrow> None))))"

definition resolveBundleGrants :: "'w IntegrationRuntime \<Rightarrow> bundle_input \<Rightarrow> ('w, exn, IntegrationGrant list) io" where
  "resolveBundleGrants rt inp =
     (if non_empty (bi_grantIds inp) then
        let ids = unique (the (bi_grantIds inp)) in
        andThen (fetchGrants (rt_grants rt) ids) (\<lambda>found.
        let missing = filter (\<lambda>i. i \<notin> gr_id ` set found) ids in
        if missing \<noteq> [] then throw (bundle_error (''unknown grant id(s): '' @ joined '', '' missing))
        else (case grant_problem inp found of
            Some problem \<Rightarrow> throw (bundle_error problem)
          | None \<Rightarrow> ret found))
      else if \<not> truthy (bi_manifestId inp) then throw (bundle_error ''manifestId or grantIds is required.'')
      else andThen (gs_listByManifest (rt_grants rt) (the (bi_manifestId inp)) (bi_grantee inp)) (\<lambda>gs.
        ret (filter (\<lambda>g. gr_status g = grant_active) (filter (\<lambda>g. sameActor (gr_owner g) (bi_owner inp)) gs))))"

definition narrowed :: "IntegrationGrant \<Rightarrow> IntegrationConnector \<Rightarrow> IntegrationConnector" where
  "narrowed g c = c\<lparr>con_actions := filter (\<lambda>a. act_id a \<in> set (gr_allowedActions g)) (con_actions c),
     con_triggers := map_option (filter (\<lambda>t. trg_id t \<in> set (gr_allowedTriggers g))) (con_triggers c),
     con_scopes := filter (\<lambda>s. s \<in> set (gr_scopes g)) (con_scopes c)\<rparr>"

definition bindGrant :: "'w IntegrationRuntime \<Rightarrow> bundle_input \<Rightarrow> IntegrationRegistry \<Rightarrow> IntegrationGrant \<Rightarrow>
    ('w, exn, (IntegrationCapabilityBinding \<times> IntegrationConnector) option) io" where
  "bindGrant rt inp registry g =
     andThen (rh_getConnection (rt_hub rt) (gr_connectionId g)) (\<lambda>found.
     case found of
       None \<Rightarrow> throw (bundle_error (''connection '' @ gr_connectionId g @ '' not found.''))
     | Some c \<Rightarrow>
         if \<not> sameActor (conn_owner c) (bi_owner inp) then
           throw (bundle_error (''connection '' @ conn_id c @ '' belongs to a different owner.''))
         else if conn_status c \<noteq> cs_active then
           throw (bundle_error (''connection '' @ conn_id c @ '' is '' @ connection_status_name (conn_status c) @ ''.''))
         else (case reg_byId registry (gr_connectorId g) of
             None \<Rightarrow> ret None
           | Some e \<Rightarrow>
               andThen (rh_issueCapability (rt_hub rt)
                 \<lparr>ic_subject = bi_subject inp, ic_connectionId = gr_connectionId g, ic_scopes = gr_scopes g,
                  ic_allowedActions = gr_allowedActions g, ic_ttlMs = bi_ttlMs inp,
                  ic_metadata = Some [(''manifestId'', JStr (gr_manifestId g)), (''grantId'', JStr (gr_id g)),
                    (''requirementId'', JStr (gr_requirementId g))]\<rparr>) (\<lambda>issued.
               ret (Some (\<lparr>bd_requirementId = gr_requirementId g, bd_connectorId = gr_connectorId g,
                   bd_connectionId = gr_connectionId g, bd_grantId = gr_id g, bd_scopes = gr_scopes g,
                   bd_allowedActions = gr_allowedActions g, bd_allowedTriggers = gr_allowedTriggers g,
                   bd_capability = issued\<rparr>, narrowed g (ent_connector e))))))"

fun bindGrants :: "'w IntegrationRuntime \<Rightarrow> bundle_input \<Rightarrow> IntegrationRegistry \<Rightarrow> IntegrationGrant list \<Rightarrow>
    ('w, exn, (IntegrationCapabilityBinding \<times> IntegrationConnector) list) io" where
  "bindGrants rt inp registry [] = ret []"
| "bindGrants rt inp registry (g # gs) =
     andThen (bindGrant rt inp registry g) (\<lambda>b.
     andThen (bindGrants rt inp registry gs) (\<lambda>bs. ret (case b of None \<Rightarrow> bs | Some x \<Rightarrow> x # bs)))"

definition buildSandboxBundle :: "'w IntegrationRuntime \<Rightarrow> bundle_input \<Rightarrow> ('w, exn, IntegrationSandboxBundle) io" where
  "buildSandboxBundle rt inp =
     andThen (resolveBundleGrants rt inp) (\<lambda>gs.
     if gs = [] then throw (bundle_error ''no active integration grants matched the request.'')
     else andThen (rh_listRegistry (rt_hub rt)) (\<lambda>registry.
       andThen (bindGrants rt inp registry gs) (\<lambda>bs.
       ret \<lparr>sb_manifestId = nullish (bi_manifestId inp) (gr_manifestId (hd gs)), sb_subject = bi_subject inp,
         sb_capabilities = map fst bs, sb_connectors = map snd bs, sb_tools = buildIntegrationToolCatalog (map snd bs),
         sb_expiresAt = (if bs = [] then [] else cap_expiresAt (issued_capability (bd_capability (fst (last bs)))))\<rparr>)))"

lemma guard_Inr [runs]:
  "(if b then throw e else m) w = (Inr y, w') \<longleftrightarrow> \<not> b \<and> m w = (Inr y, w')"
  by (simp add: io_defs)

section \<open>The contract of a grant store\<close>

text \<open>Against the map it represents, for worlds that satisfy its invariant.\<close>

locale grant_store =
  fixes st :: "'w IntegrationGrantStore" and recs :: "'w \<Rightarrow> string \<Rightarrow> IntegrationGrant option" and inv :: "'w \<Rightarrow> bool"
  assumes get_law: "inv w \<Longrightarrow> gs_get st k w = (Inr (recs w k), w)"
    and put_law: "inv w \<Longrightarrow> gs_put st g w = (x, w') \<Longrightarrow> x = Inr () \<and> inv w' \<and> recs w' = (recs w)(gr_id g \<mapsto> g)"
    and manifest_law: "inv w \<Longrightarrow> gs_listByManifest st m a w = (y, w') \<Longrightarrow> \<exists>gs. y = Inr gs \<and> w' = w \<and>
       set gs = {g \<in> ran (recs w). gr_manifestId g = m \<and> (case a of None \<Rightarrow> True | Some b \<Rightarrow> sameActor (gr_grantee g) b)}"
    and fetch_law: "inv w \<Longrightarrow> fetchGrants st ids w = (y, w') \<Longrightarrow> \<exists>gs. y = Inr gs \<and> w' = w \<and>
       set gs = {g \<in> ran (recs w). gr_id g \<in> set ids}"
    and id_law: "inv w \<Longrightarrow> recs w k = Some g \<Longrightarrow> gr_id g = k"

definition put_all :: "(string \<Rightarrow> IntegrationGrant option) \<Rightarrow> IntegrationGrant list \<Rightarrow> string \<Rightarrow> IntegrationGrant option" where
  "put_all m gs = foldl (\<lambda>m g. m(gr_id g \<mapsto> g)) m gs"

lemma put_all_apply:
  "put_all m gs k = (case find (\<lambda>g. gr_id g = k) (rev gs) of None \<Rightarrow> m k | Some g \<Rightarrow> Some g)"
  by (induction gs rule: rev_induct) (auto simp: put_all_def)

text \<open>A grant that a bundle may be built from.\<close>

definition grant_fits :: "bundle_input \<Rightarrow> IntegrationGrant \<Rightarrow> bool" where
  "grant_fits inp g \<longleftrightarrow> gr_status g = grant_active \<and> sameActor (gr_owner g) (bi_owner inp) \<and>
     (case bi_grantee inp of None \<Rightarrow> True | Some a \<Rightarrow> sameActor (gr_grantee g) a) \<and>
     (truthy (bi_manifestId inp) \<longrightarrow> Some (gr_manifestId g) = bi_manifestId inp)"

lemma find_None_all: "find P xs = None \<longleftrightarrow> (\<forall>x \<in> set xs. \<not> P x)"
  by (auto simp: find_None_iff)

lemma no_problem: "grant_problem inp found = None \<Longrightarrow> g \<in> set found \<Longrightarrow> grant_fits inp g"
  by (auto simp: grant_problem_def grant_fits_def find_None_all split: option.splits if_splits)

context grant_store
begin

lemma put_all_law:
  "inv w \<Longrightarrow> forEach (gs_put st) gs w = (x, w') \<Longrightarrow> x = Inr () \<and> inv w' \<and> recs w' = put_all (recs w) gs"
proof (induction gs arbitrary: w)
  case (Cons g gs)
  obtain y w1 where p: "gs_put st g w = (y, w1)" by fastforce
  from put_law [OF Cons.prems(1) p] Cons show ?case
    by (auto simp: andThen_def p put_all_def split: prod.splits)
qed (simp_all add: put_all_def io_defs)

lemma resolved_grants:
  assumes "inv w" "rt_grants rt = st" "resolveBundleGrants rt inp w = (Inr gs, w')"
  shows "w' = w \<and> (\<forall>g \<in> set gs. g \<in> ran (recs w) \<and> grant_fits inp g \<and> (non_empty (bi_grantIds inp) \<longrightarrow> gr_id g \<in> set (the (bi_grantIds inp))))"
proof (cases "non_empty (bi_grantIds inp)")
  case True
  let ?ids = "unique (the (bi_grantIds inp))"
  obtain y w1 where f: "fetchGrants st ?ids w = (y, w1)" by fastforce
  from fetch_law [OF assms(1) f] obtain all where a: "y = Inr all" "w1 = w" "set all = {g \<in> ran (recs w). gr_id g \<in> set ?ids}" by blast
  have "resolveBundleGrants rt inp w =
     (if filter (\<lambda>i. i \<notin> gr_id ` set all) ?ids \<noteq> []
      then throw (bundle_error (''unknown grant id(s): '' @ joined '', '' (filter (\<lambda>i. i \<notin> gr_id ` set all) ?ids)))
      else (case grant_problem inp all of Some problem \<Rightarrow> throw (bundle_error problem) | None \<Rightarrow> ret all)) w"
    using True assms(2) by (simp only: resolveBundleGrants_def if_True Let_def andThen_def f a(1,2) prod.case sum.case)
  with assms(3) have "w' = w \<and> gs = all \<and> grant_problem inp all = None"
    by (simp only: runs if_distrib [where f = "\<lambda>m. m w"]) (auto simp: io_defs split: if_splits option.splits)
  with a(3) show ?thesis by (auto dest: no_problem)
next
  case False
  obtain y w1 where f: "gs_listByManifest st (the (bi_manifestId inp)) (bi_grantee inp) w = (y, w1)" by fastforce
  from manifest_law [OF assms(1) f] obtain all where a: "y = Inr all" "w1 = w" "set all = {g \<in> ran (recs w). gr_manifestId g = the (bi_manifestId inp) \<and>
       (case bi_grantee inp of None \<Rightarrow> True | Some b \<Rightarrow> sameActor (gr_grantee g) b)}" by blast
  from assms False have m: "truthy (bi_manifestId inp)"
    by (auto simp: resolveBundleGrants_def io_defs split: if_splits)
  from assms False m have "w' = w" "set gs = {g \<in> set all. gr_status g = grant_active \<and> sameActor (gr_owner g) (bi_owner inp)}"
    by (auto simp: resolveBundleGrants_def f a(1,2) io_defs)
  with a(3) False m show ?thesis by (auto simp: grant_fits_def truthy_def split: option.splits)
qed

end

definition wf_grants :: "'a InMemoryIntegrationGrantStore_scheme \<Rightarrow> bool" where
  "wf_grants w \<longleftrightarrow> distinct (map fst (grants w)) \<and> (\<forall>(k, g) \<in> set (grants w). gr_id g = k)"

lemma wf_grants_values: "wf_grants w \<Longrightarrow> snd ` set (grants w) = ran (map_of (grants w))"
  by (force simp: wf_grants_def ran_def)

lemma wf_grants_lookup: "wf_grants w \<Longrightarrow> map_of (grants w) k = Some g \<Longrightarrow> gr_id g = k"
  by (auto simp: wf_grants_def dest: map_of_SomeD)

lemma set_update_subset: "set (AList.update k v m) \<subseteq> insert (k, v) (set m)"
  by (induction m) auto

lemma wf_grants_put: "wf_grants w \<Longrightarrow> wf_grants (w\<lparr>grants := AList.update (gr_id g) g (grants w)\<rparr>)"
  using set_update_subset [of "gr_id g" g "grants w"] by (auto simp: wf_grants_def distinct_update)

lemma wf_grants_delete: "wf_grants w \<Longrightarrow> wf_grants (w\<lparr>grants := AList.delete k (grants w)\<rparr>)"
  by (auto simp: wf_grants_def AList.delete_eq intro: distinct_map_filter)

interpretation memory_grants: grant_store
  "mem_grants :: 'a InMemoryIntegrationGrantStore_scheme IntegrationGrantStore" "\<lambda>w. map_of (grants w)" wf_grants
proof
  fix w w' :: "'a InMemoryIntegrationGrantStore_scheme" and k g x y m a ids
  assume wf: "wf_grants w"
  show "gs_get mem_grants k w = (Inr (map_of (grants w) k), w)" by (simp add: mem_grants_def io_defs)
  show "gs_put mem_grants g w = (x, w') \<Longrightarrow> x = Inr () \<and> wf_grants w' \<and> map_of (grants w') = (map_of (grants w))(gr_id g \<mapsto> g)"
    using wf wf_grants_put [OF wf, of g] by (auto simp: mem_grants_def io_defs update_conv')
  show "gs_listByManifest mem_grants m a w = (y, w') \<Longrightarrow> \<exists>gs. y = Inr gs \<and> w' = w \<and>
      set gs = {g \<in> ran (map_of (grants w)). gr_manifestId g = m \<and> (case a of None \<Rightarrow> True | Some b \<Rightarrow> sameActor (gr_grantee g) b)}"
    using wf_grants_values [OF wf] by (auto simp: mem_grants_def io_defs)
  show "fetchGrants mem_grants ids w = (y, w') \<Longrightarrow> \<exists>gs. y = Inr gs \<and> w' = w \<and>
      set gs = {g \<in> ran (map_of (grants w)). gr_id g \<in> set ids}"
    using wf_grants_values [OF wf] by (auto simp: mem_grants_def fetchGrants_def io_defs)
  show "map_of (grants w) k = Some g \<Longrightarrow> gr_id g = k" using wf by (rule wf_grants_lookup)
qed

section \<open>What grants and bundles rest on\<close>

lemma unique_filter_map: "i \<in> set (unique (map f (filter P xs))) \<longleftrightarrow> (\<exists>x \<in> set xs. P x \<and> f x = i)"
  by auto

lemma ready_resolution:
  assumes "resolveRequirement r who registry conns = x" "rsl_status x = rs_ready"
  obtains e c where "reg_byId registry (rqm_connectorId r) = Some e" "c \<in> set conns"
    "usable who e (requiredScopes r (ent_connector e)) c"
    "rsl_requirement x = r" "rsl_connection x = Some c" "rsl_connector x = Some (ent_connector e)"
  using assms
  by (auto simp: resolveRequirement_def missing_resolution_def Let_def split: option.splits if_splits dest!: find_hit)

lemma resolved_requirement [simp]: "rsl_requirement (resolveRequirement r who registry conns) = r"
  by (simp add: resolveRequirement_def missing_resolution_def Let_def split: option.splits)

lemma created_grants:
  assumes "createGrants rt m who grantee meta w = (Inr gs, w')"
  obtains registry conns w1 w2 n w3 now u where
    "rh_listRegistry (rt_hub rt) w = (Inr registry, w1)" "rh_listConnections (rt_hub rt) who w1 = (Inr conns, w2)"
    "\<forall>r \<in> set (man_requirements m). rsl_status (resolveRequirement r who registry conns) = rs_ready \<or> rqm_optional r = Some True"
    "rt_now rt w2 = (Inr n, w3)" "toISO (rt_dates rt) n = Inr now"
    "gs = map (grant_for m who grantee meta now)
       (filter (\<lambda>x. rsl_status x = rs_ready) (map (\<lambda>r. resolveRequirement r who registry conns) (man_requirements m)))"
    "forEach (gs_put (rt_grants rt)) gs w3 = (Inr u, w')"
proof -
  from assms obtain registry w1 conns w2 where a: "rh_listRegistry (rt_hub rt) w = (Inr registry, w1)"
    "rh_listConnections (rt_hub rt) who w1 = (Inr conns, w2)"
    by (auto simp: createGrants_def resolveManifest_def runs Let_def split: if_splits)
  let ?rs = "map (\<lambda>r. resolveRequirement r who registry conns) (man_requirements m)"
  let ?missing = "filter (\<lambda>x. rsl_status x \<noteq> rs_ready \<and> rqm_optional (rsl_requirement x) \<noteq> Some True) ?rs"
  from assms a have none: "?missing = []"
    by (auto simp: createGrants_def resolveManifest_def andThen_def io_defs Let_def split: if_splits)
  with assms a obtain n w3 now u where "rt_now rt w2 = (Inr n, w3)" "toISO (rt_dates rt) n = Inr now"
    "gs = map (grant_for m who grantee meta now) (filter (\<lambda>x. rsl_status x = rs_ready) ?rs)"
    "forEach (gs_put (rt_grants rt)) gs w3 = (Inr u, w')"
    by (auto simp: createGrants_def resolveManifest_def runs Let_def)
  moreover have "\<forall>r \<in> set (man_requirements m). rsl_status (resolveRequirement r who registry conns) = rs_ready \<or> rqm_optional r = Some True"
    using none by (auto simp: filter_empty_conv)
  ultimately show ?thesis using that a by blast
qed

lemma granted_scopes:
  assumes "createGrants rt m who grantee meta w = (Inr gs, w')" "g \<in> set gs"
  obtains r e c registry conns w1 w2 where
    "rh_listRegistry (rt_hub rt) w = (Inr registry, w1)" "rh_listConnections (rt_hub rt) who w1 = (Inr conns, w2)"
    "r \<in> set (man_requirements m)" "reg_byId registry (rqm_connectorId r) = Some e" "c \<in> set conns"
    "usable who e (gr_scopes g) c" "gr_connectionId g = conn_id c" "gr_connectorId g = con_id (ent_connector e)"
    "gr_requirementId g = rqm_id r" "gr_manifestId g = man_id m" "gr_owner g = who" "gr_grantee g = grantee"
    "gr_status g = grant_active" "gr_scopes g = requiredScopes r (ent_connector e)"
    "gr_allowedActions g = requiredActions r (ent_connector e)" "gr_allowedTriggers g = requiredTriggers r (ent_connector e)"
proof -
  from assms(1) obtain registry conns w1 w2 now where a: "rh_listRegistry (rt_hub rt) w = (Inr registry, w1)"
    "rh_listConnections (rt_hub rt) who w1 = (Inr conns, w2)"
    "gs = map (grant_for m who grantee meta now)
       (filter (\<lambda>x. rsl_status x = rs_ready) (map (\<lambda>r. resolveRequirement r who registry conns) (man_requirements m)))"
    by (rule created_grants)
  from assms(2) obtain r where r: "r \<in> set (man_requirements m)"
    "rsl_status (resolveRequirement r who registry conns) = rs_ready"
    "g = grant_for m who grantee meta now (resolveRequirement r who registry conns)" unfolding a(3) by auto
  obtain e c where x: "reg_byId registry (rqm_connectorId r) = Some e" "c \<in> set conns"
    "usable who e (requiredScopes r (ent_connector e)) c"
    "rsl_requirement (resolveRequirement r who registry conns) = r"
    "rsl_connection (resolveRequirement r who registry conns) = Some c"
    "rsl_connector (resolveRequirement r who registry conns) = Some (ent_connector e)"
    using ready_resolution [OF refl r(2)] by metis
  show ?thesis
    by (rule that [OF a(1,2) r(1) x(1,2)]) (use x in \<open>simp_all add: r(3) grant_for_def Let_def\<close>)
qed

lemma bound_grants:
  assumes "bindGrants rt inp registry gs w = (Inr bs, w')" "(b, c) \<in> set bs"
  shows "\<exists>g \<in> set gs. \<exists>w1 w2. bindGrant rt inp registry g w1 = (Inr (Some (b, c)), w2)"
  using assms
proof (induction gs arbitrary: w bs)
  case Nil
  then show ?case by (simp add: io_defs)
next
  case (Cons g gs)
  from Cons.prems(1) obtain x w1 xs w2 where s: "bindGrant rt inp registry g w = (Inr x, w1)"
    "bindGrants rt inp registry gs w1 = (Inr xs, w')" "bs = (case x of None \<Rightarrow> xs | Some y \<Rightarrow> y # xs)"
    by (auto simp: runs)
  from Cons.prems(2) s(3) have "x = Some (b, c) \<or> (b, c) \<in> set xs" by (auto split: option.splits)
  then show ?case using s(1) Cons.IH [OF s(2)] by auto
qed

lemma bound_grant:
  assumes "bindGrant rt inp registry g w = (Inr (Some (b, c)), w')"
  obtains conn w1 e w2 where "rh_getConnection (rt_hub rt) (gr_connectionId g) w = (Inr (Some conn), w1)"
    "sameActor (conn_owner conn) (bi_owner inp)" "conn_status conn = cs_active"
    "reg_byId registry (gr_connectorId g) = Some e" "c = narrowed g (ent_connector e)"
    "rh_issueCapability (rt_hub rt) \<lparr>ic_subject = bi_subject inp, ic_connectionId = gr_connectionId g, ic_scopes = gr_scopes g,
                  ic_allowedActions = gr_allowedActions g, ic_ttlMs = bi_ttlMs inp,
                  ic_metadata = Some [(''manifestId'', JStr (gr_manifestId g)), (''grantId'', JStr (gr_id g)),
                    (''requirementId'', JStr (gr_requirementId g))]\<rparr> w1 = (Inr (bd_capability b), w2)"
    "bd_grantId b = gr_id g" "bd_connectionId b = gr_connectionId g" "bd_scopes b = gr_scopes g"
    "bd_allowedActions b = gr_allowedActions g" "bd_allowedTriggers b = gr_allowedTriggers g"
  using assms by (auto simp: bindGrant_def runs split: option.splits if_splits)

lemma issued_is_requested:
  assumes "issueCapability pf hub req w = (Inr issued, w')"
  shows "cap_subject (issued_capability issued) = ic_subject req \<and> cap_connectionId (issued_capability issued) = ic_connectionId req \<and>
    cap_scopes (issued_capability issued) = unique (ic_scopes req) \<and> cap_allowedActions (issued_capability issued) = unique (ic_allowedActions req) \<and>
    (\<exists>c w1. store_get (hub_store hub) (ic_connectionId req) w = (Inr (Some c), w1) \<and> conn_status c = cs_active \<and>
       set (ic_scopes req) \<subseteq> set (conn_grantedScopes c))"
  using assms
  by (auto simp: issueCapability_def requireConnection_def assertConnectionActive_def assertScopes_def runs Let_def filter_empty_conv
      split: if_splits)

section \<open>Properties\<close>

lemma required_actions:
  "set (requiredActions r c) = (case rqm_mode r of
      mode_trigger \<Rightarrow> {}
    | mode_read \<Rightarrow> (if rqm_requiredActions r \<in> {None, Some []}
        then {act_id a |a. a \<in> set (con_actions c) \<and> act_risk a = risk_read} else set (the (rqm_requiredActions r)))
    | mode_write \<Rightarrow> (if rqm_requiredActions r \<in> {None, Some []}
        then {act_id a |a. a \<in> set (con_actions c) \<and> act_risk a = risk_write} else set (the (rqm_requiredActions r))))"
  by (auto simp: requiredActions_def non_empty_def split: IntegrationRequirementMode.split option.splits)

text \<open>C25. Every grant that is made rests on a connection the owner had when it was made: active, held by
  the owner, and of the connector the registry has under the name the manifest requires (by its
  identifier or an alias), with all scopes of the grant. The scopes are those the requirement names,
  or else include the scopes of every action the grant allows. The actions are: none for a trigger;
  the actions the requirement names, whatever they do; and when it names none, exactly the actions
  of the connector that read for a requirement to read, and that write for one to write. The grant is
  made out to the grantee, and every requirement that is not optional has its grant.\<close>

theorem grants_rest_on_connections:
  assumes "createGrants rt m who grantee meta w = (Inr gs, w')"
  shows "\<exists>registry conns w1 w2. rh_listRegistry (rt_hub rt) w = (Inr registry, w1) \<and>
     rh_listConnections (rt_hub rt) who w1 = (Inr conns, w2) \<and>
     (\<forall>r \<in> set (man_requirements m). rqm_optional r = Some True \<or> (\<exists>g \<in> set gs. gr_requirementId g = rqm_id r)) \<and>
     (\<forall>g \<in> set gs. gr_status g = grant_active \<and> gr_owner g = who \<and> gr_grantee g = grantee \<and> gr_manifestId g = man_id m \<and>
       (\<exists>r \<in> set (man_requirements m). \<exists>e. \<exists>c \<in> set conns.
          gr_requirementId g = rqm_id r \<and> reg_byId registry (rqm_connectorId r) = Some e \<and> gr_connectorId g = con_id (ent_connector e) \<and>
          gr_connectionId g = conn_id c \<and> conn_status c = cs_active \<and>
          actor_type (conn_owner c) = actor_type who \<and> actor_id (conn_owner c) = actor_id who \<and>
          conn_connectorId c \<in> insert (con_id (ent_connector e)) (set (ent_aliases e)) \<and>
          set (gr_scopes g) \<subseteq> set (conn_grantedScopes c) \<and>
          (\<forall>ss. rqm_requiredScopes r = Some ss \<and> ss \<noteq> [] \<longrightarrow> set (gr_scopes g) = set ss) \<and>
          (rqm_requiredScopes r \<in> {None, Some []} \<longrightarrow> (\<forall>a \<in> set (con_actions (ent_connector e)).
             act_id a \<in> set (gr_allowedActions g) \<longrightarrow> set (act_requiredScopes a) \<subseteq> set (conn_grantedScopes c))) \<and>
          set (gr_allowedActions g) = (case rqm_mode r of
              mode_trigger \<Rightarrow> {}
            | mode_read \<Rightarrow> (if rqm_requiredActions r \<in> {None, Some []}
                then {act_id a |a. a \<in> set (con_actions (ent_connector e)) \<and> act_risk a = risk_read} else set (the (rqm_requiredActions r)))
            | mode_write \<Rightarrow> (if rqm_requiredActions r \<in> {None, Some []}
                then {act_id a |a. a \<in> set (con_actions (ent_connector e)) \<and> act_risk a = risk_write} else set (the (rqm_requiredActions r))))))"
proof -
  from assms obtain registry conns w1 w2 n now where a: "rh_listRegistry (rt_hub rt) w = (Inr registry, w1)"
    "rh_listConnections (rt_hub rt) who w1 = (Inr conns, w2)"
    "\<forall>r \<in> set (man_requirements m). rsl_status (resolveRequirement r who registry conns) = rs_ready \<or> rqm_optional r = Some True"
    "gs = map (grant_for m who grantee meta now)
       (filter (\<lambda>x. rsl_status x = rs_ready) (map (\<lambda>r. resolveRequirement r who registry conns) (man_requirements m)))"
    by (rule created_grants)
  have each: "rqm_optional r = Some True \<or> (\<exists>g \<in> set gs. gr_requirementId g = rqm_id r)" if "r \<in> set (man_requirements m)" for r
    using a(3) that unfolding a(4) by (force simp: grant_for_def Let_def)
  have grant: "gr_status g = grant_active \<and> gr_owner g = who \<and> gr_grantee g = grantee \<and> gr_manifestId g = man_id m \<and>
       (\<exists>r \<in> set (man_requirements m). \<exists>e. \<exists>c \<in> set conns.
          gr_requirementId g = rqm_id r \<and> reg_byId registry (rqm_connectorId r) = Some e \<and> gr_connectorId g = con_id (ent_connector e) \<and>
          gr_connectionId g = conn_id c \<and> conn_status c = cs_active \<and>
          actor_type (conn_owner c) = actor_type who \<and> actor_id (conn_owner c) = actor_id who \<and>
          conn_connectorId c \<in> insert (con_id (ent_connector e)) (set (ent_aliases e)) \<and>
          set (gr_scopes g) \<subseteq> set (conn_grantedScopes c) \<and>
          (\<forall>ss. rqm_requiredScopes r = Some ss \<and> ss \<noteq> [] \<longrightarrow> set (gr_scopes g) = set ss) \<and>
          (rqm_requiredScopes r \<in> {None, Some []} \<longrightarrow> (\<forall>a \<in> set (con_actions (ent_connector e)).
             act_id a \<in> set (gr_allowedActions g) \<longrightarrow> set (act_requiredScopes a) \<subseteq> set (conn_grantedScopes c))) \<and>
          set (gr_allowedActions g) = (case rqm_mode r of
              mode_trigger \<Rightarrow> {}
            | mode_read \<Rightarrow> (if rqm_requiredActions r \<in> {None, Some []}
                then {act_id a |a. a \<in> set (con_actions (ent_connector e)) \<and> act_risk a = risk_read} else set (the (rqm_requiredActions r)))
            | mode_write \<Rightarrow> (if rqm_requiredActions r \<in> {None, Some []}
                then {act_id a |a. a \<in> set (con_actions (ent_connector e)) \<and> act_risk a = risk_write} else set (the (rqm_requiredActions r)))))"
    if "g \<in> set gs" for g
  proof -
    from granted_scopes [OF assms that] obtain r e c registry' conns' w1' w2' where g:
      "rh_listRegistry (rt_hub rt) w = (Inr registry', w1')" "rh_listConnections (rt_hub rt) who w1' = (Inr conns', w2')"
      "r \<in> set (man_requirements m)" "reg_byId registry' (rqm_connectorId r) = Some e" "c \<in> set conns'"
      "usable who e (gr_scopes g) c" "gr_connectionId g = conn_id c" "gr_connectorId g = con_id (ent_connector e)"
      "gr_requirementId g = rqm_id r" "gr_manifestId g = man_id m" "gr_owner g = who" "gr_grantee g = grantee"
      "gr_status g = grant_active" "gr_allowedActions g = requiredActions r (ent_connector e)"
      "gr_scopes g = requiredScopes r (ent_connector e)" by metis
    have s: "registry' = registry" "conns' = conns" using a(1,2) g(1,2) by auto
    have c: "actor_type (conn_owner c) = actor_type who" "actor_id (conn_owner c) = actor_id who" "conn_status c = cs_active"
      "conn_connectorId c \<in> insert (con_id (ent_connector e)) (set (ent_aliases e))" "set (gr_scopes g) \<subseteq> set (conn_grantedScopes c)"
      using g(6) by (auto simp: usable_def sameActor_def list_all_iff)
    have named: "\<forall>ss. rqm_requiredScopes r = Some ss \<and> ss \<noteq> [] \<longrightarrow> set (gr_scopes g) = set ss"
      by (simp add: g(15) requiredScopes_def non_empty_def)
    have own: "rqm_requiredScopes r \<in> {None, Some []} \<longrightarrow> (\<forall>a \<in> set (con_actions (ent_connector e)).
        act_id a \<in> set (gr_allowedActions g) \<longrightarrow> set (act_requiredScopes a) \<subseteq> set (conn_grantedScopes c))"
      using c(5) by (fastforce simp: g(14,15) requiredScopes_def non_empty_def)
    show ?thesis
      by (intro conjI bexI [OF _ g(3)] exI [of _ e] bexI [OF _ g(5) [unfolded s]] c named own g(7-13) g(4) [unfolded s])
        (simp only: g(14) required_actions)
  qed
  show ?thesis using a(1,2) each grant by blast
qed

text \<open>Where the capabilities and the tools of a bundle come from.\<close>

lemma bundled:
  assumes "buildSandboxBundle rt inp w = (Inr bundle, w')"
  shows "(\<forall>b \<in> set (sb_capabilities bundle). \<exists>registry gs g c v u u'. resolveBundleGrants rt inp w = (Inr gs, v) \<and> g \<in> set gs \<and>
      bindGrant rt inp registry g u = (Inr (Some (b, c)), u')) \<and>
    (\<forall>tool \<in> set (sb_tools bundle). \<exists>b \<in> set (sb_capabilities bundle). act_id (tool_action tool) \<in> set (bd_allowedActions b))"
proof -
  from assms obtain gs w1 registry w2 bs w3 where r: "resolveBundleGrants rt inp w = (Inr gs, w1)"
    and b: "bindGrants rt inp registry gs w2 = (Inr bs, w3)"
    and o: "sb_capabilities bundle = map fst bs" "sb_tools bundle = buildIntegrationToolCatalog (map snd bs)"
    by (auto simp only: buildSandboxBundle_def runs IntegrationSandboxBundle.simps)
  note bound = bound_grants [OF b]
  have tool: "\<exists>d \<in> fst ` set bs. act_id (tool_action tool) \<in> set (bd_allowedActions d)"
    if "tool \<in> set (buildIntegrationToolCatalog (map snd bs))" for tool
  proof -
    from that obtain d c a where t: "(d, c) \<in> set bs" "a \<in> set (con_actions c)" "tool = flattenIntegrationToolDefinition c a"
      by (auto simp: buildIntegrationToolCatalog_def)
    from bound [OF t(1)] obtain g v v' where "bindGrant rt inp registry g v = (Inr (Some (d, c)), v')" by blast
    then have "\<exists>e. c = narrowed g e" "bd_allowedActions d = gr_allowedActions g" by (auto elim: bound_grant)
    with t have "act_id (tool_action tool) \<in> set (bd_allowedActions d)"
      by (auto simp: narrowed_def flattenIntegrationToolDefinition_def)
    with t(1) show ?thesis by force
  qed
  have "\<exists>registry gs g c v u u'. resolveBundleGrants rt inp w = (Inr gs, v) \<and> g \<in> set gs \<and>
      bindGrant rt inp registry g u = (Inr (Some (d, c)), u')" if "d \<in> fst ` set bs" for d
    using that bound r by fastforce
  with tool show ?thesis unfolding o by simp
qed

lemma bundled_capability:
  assumes "buildSandboxBundle rt inp w = (Inr bundle, w')" "wf_grants w"
    and "rt_grants rt = mem_grants" "rt_hub rt = runtime_hub lc pf hub" "d \<in> set (sb_capabilities bundle)"
  shows "\<exists>g \<in> snd ` set (grants w). bd_grantId d = gr_id g \<and> grant_fits inp g \<and>
      bd_connectionId d = gr_connectionId g \<and> bd_connectorId d = gr_connectorId g \<and> bd_allowedActions d = gr_allowedActions g \<and>
      cap_subject (issued_capability (bd_capability d)) = bi_subject inp \<and>
      cap_connectionId (issued_capability (bd_capability d)) = gr_connectionId g \<and>
      set (cap_scopes (issued_capability (bd_capability d))) = set (gr_scopes g) \<and>
      set (cap_allowedActions (issued_capability (bd_capability d))) = set (gr_allowedActions g) \<and>
      (\<exists>conn w1 w2. store_get (hub_store hub) (gr_connectionId g) w1 = (Inr (Some conn), w2) \<and>
         sameActor (conn_owner conn) (bi_owner inp) \<and> conn_status conn = cs_active) \<and>
      (\<exists>conn w1 w2. store_get (hub_store hub) (gr_connectionId g) w1 = (Inr (Some conn), w2) \<and>
         conn_status conn = cs_active \<and> set (gr_scopes g) \<subseteq> set (conn_grantedScopes conn))"
proof -
  from bundled [OF assms(1), THEN conjunct1, rule_format, OF assms(5)] obtain registry gs g c v u u' where
    r: "resolveBundleGrants rt inp w = (Inr gs, v)" "g \<in> set gs" and b: "bindGrant rt inp registry g u = (Inr (Some (d, c)), u')" by blast
  have gs: "g \<in> snd ` set (grants w)" "grant_fits inp g"
    using memory_grants.resolved_grants [OF assms(2,3) r(1)] wf_grants_values [OF assms(2)] r(2) by simp_all
  show ?thesis
  proof (rule bound_grant [OF b])
    fix conn x e x'
    assume h: "rh_getConnection (rt_hub rt) (gr_connectionId g) u = (Inr (Some conn), x)"
      "sameActor (conn_owner conn) (bi_owner inp)" "conn_status conn = cs_active" "bd_grantId d = gr_id g"
      and i: "rh_issueCapability (rt_hub rt) \<lparr>ic_subject = bi_subject inp, ic_connectionId = gr_connectionId g, ic_scopes = gr_scopes g,
                ic_allowedActions = gr_allowedActions g, ic_ttlMs = bi_ttlMs inp,
                ic_metadata = Some [(''manifestId'', JStr (gr_manifestId g)), (''grantId'', JStr (gr_id g)),
                  (''requirementId'', JStr (gr_requirementId g))]\<rparr> x = (Inr (bd_capability d), x')"
      and k: "bd_connectionId d = gr_connectionId g" "bd_allowedActions d = gr_allowedActions g"
    have kc: "bd_connectorId d = gr_connectorId g" using b by (auto simp: bindGrant_def runs split: option.splits if_splits)
    from h(1) have "store_get (hub_store hub) (gr_connectionId g) u = (Inr (Some conn), x)"
      by (simp add: assms(4) runtime_hub_def getConnection_def)
    moreover note issued_is_requested [OF i [unfolded assms(4) runtime_hub_def IntegrationRuntimeHub.simps], simplified]
    ultimately show ?thesis using h(2-4) k kc gs
      by (intro bexI [of _ g]) (auto simp: set_unique)
  qed
qed

text \<open>C26. A bundle over the hub and the in-memory grants only hands out what was granted: every capability
  in it belongs to a recorded, active grant of the owner (of the grantee and the manifest, when these
  are given), is made out to the subject of the bundle with exactly the scopes and actions of the
  grant, on a connection that was read to be active and the owner's and to have these scopes; and
  every tool shown in the bundle is an action some grant in it allows.\<close>

theorem bundle_hands_out_grants:
  assumes "buildSandboxBundle rt inp w = (Inr bundle, w')" "wf_grants w"
    and "rt_grants rt = mem_grants" "rt_hub rt = runtime_hub lc pf hub"
  shows "(\<forall>b \<in> set (sb_capabilities bundle). \<exists>g \<in> snd ` set (grants w). bd_grantId b = gr_id g \<and> grant_fits inp g \<and>
      cap_subject (issued_capability (bd_capability b)) = bi_subject inp \<and>
      cap_connectionId (issued_capability (bd_capability b)) = gr_connectionId g \<and>
      set (cap_scopes (issued_capability (bd_capability b))) = set (gr_scopes g) \<and>
      set (cap_allowedActions (issued_capability (bd_capability b))) = set (gr_allowedActions g) \<and>
      (\<exists>conn w1 w2. store_get (hub_store hub) (gr_connectionId g) w1 = (Inr (Some conn), w2) \<and>
         sameActor (conn_owner conn) (bi_owner inp) \<and> conn_status conn = cs_active) \<and>
      (\<exists>conn w1 w2. store_get (hub_store hub) (gr_connectionId g) w1 = (Inr (Some conn), w2) \<and>
         conn_status conn = cs_active \<and> set (gr_scopes g) \<subseteq> set (conn_grantedScopes conn))) \<and>
    (\<forall>tool \<in> set (sb_tools bundle). \<exists>b \<in> set (sb_capabilities bundle). act_id (tool_action tool) \<in> set (bd_allowedActions b))"
proof (intro conjI ballI bundled [OF assms(1), THEN conjunct2, rule_format])
  fix b assume "b \<in> set (sb_capabilities bundle)"
  from bundled_capability [OF assms this]
  show "\<exists>g \<in> snd ` set (grants w). bd_grantId b = gr_id g \<and> grant_fits inp g \<and>
      cap_subject (issued_capability (bd_capability b)) = bi_subject inp \<and>
      cap_connectionId (issued_capability (bd_capability b)) = gr_connectionId g \<and>
      set (cap_scopes (issued_capability (bd_capability b))) = set (gr_scopes g) \<and>
      set (cap_allowedActions (issued_capability (bd_capability b))) = set (gr_allowedActions g) \<and>
      (\<exists>conn w1 w2. store_get (hub_store hub) (gr_connectionId g) w1 = (Inr (Some conn), w2) \<and>
         sameActor (conn_owner conn) (bi_owner inp) \<and> conn_status conn = cs_active) \<and>
      (\<exists>conn w1 w2. store_get (hub_store hub) (gr_connectionId g) w1 = (Inr (Some conn), w2) \<and>
         conn_status conn = cs_active \<and> set (gr_scopes g) \<subseteq> set (conn_grantedScopes conn))"
    by (elim bexE conjE) (intro bexI conjI)
qed

lemma keyed:
  assumes "wf_grants w" "rt_grants rt = mem_grants" "createGrants rt m who grantee meta w = (Inr gs, w')"
    and "keeps grants (rh_listRegistry (rt_hub rt))" "keeps grants (rh_listConnections (rt_hub rt) who)" "keeps grants (rt_now rt)"
  shows "wf_grants w' \<and> map_of (grants w') = put_all (map_of (grants w)) gs"
proof -
  from assms(3) obtain registry conns w1 w2 n w3 u where
    "rh_listRegistry (rt_hub rt) w = (Inr registry, w1)" "rh_listConnections (rt_hub rt) who w1 = (Inr conns, w2)"
    "rt_now rt w2 = (Inr n, w3)" and p: "forEach (gs_put (rt_grants rt)) gs w3 = (Inr u, w')"
    by (rule created_grants)
  then have g: "grants w3 = grants w" using assms(4-6) by (metis keepsD)
  with assms(1) have "wf_grants w3" by (simp add: wf_grants_def)
  from memory_grants.put_all_law [OF this p [unfolded assms(2)]] g show ?thesis by simp
qed

text \<open>The table of grants stays keyed by the identifiers of the grants, each once, whatever grants are
  made; and the latest grant of every identifier is the one that is found.\<close>

theorem grant_table_stays_keyed:
  assumes "wf_grants w" "rt_grants rt = mem_grants" "createGrants rt m who grantee meta w = (Inr gs, w')"
    and "keeps grants (rh_listRegistry (rt_hub rt))" "keeps grants (rh_listConnections (rt_hub rt) who)" "keeps grants (rt_now rt)"
  shows "wf_grants w' \<and> map_of (grants w') = put_all (map_of (grants w)) gs"
  by (rule keyed [OF assms])

lemma created_in_memory:
  assumes "rt_grants rt = mem_grants" "rt_now rt = date_now"
    and "rh_listRegistry (rt_hub rt) w = (Inr registry, w)" "rh_listConnections (rt_hub rt) who w = (Inr conns, w)"
    and "createGrants rt m who grantee meta w = (Inr gs, w')"
  obtains now v u where "gs = map (grant_for m who grantee meta now)
      (filter (\<lambda>x. rsl_status x = rs_ready) (map (\<lambda>r. resolveRequirement r who registry conns) (man_requirements m)))"
    "grants v = grants w" "forEach (gs_put mem_grants) gs v = (Inr u, w')"
proof -
  obtain registry' conns' v1 v2 n v now u where
    a: "rh_listRegistry (rt_hub rt) w = (Inr registry', v1)" "rh_listConnections (rt_hub rt) who v1 = (Inr conns', v2)"
      "rt_now rt v2 = (Inr n, v)" and gs: "gs = map (grant_for m who grantee meta now)
      (filter (\<lambda>x. rsl_status x = rs_ready) (map (\<lambda>r. resolveRequirement r who registry' conns') (man_requirements m)))"
    and put: "forEach (gs_put (rt_grants rt)) gs v = (Inr u, w')"
    by (rule created_grants [OF assms(5)]) blast
  from a(1) assms(3) have b: "registry' = registry" "v1 = w" by simp_all
  with a(2) assms(4) have c: "conns' = conns" "v2 = w" by simp_all
  with a(3) assms(2) have "grants v = grants w" by (auto simp: date_now_def)
  with gs put b c show ?thesis by (intro that [of now v u]) (simp_all add: assms(1))
qed

text \<open>A second grant for the same manifest, made out to somebody else over the same connections, takes the
  identifiers of the first: the first grantee is left without any, although nothing was revoked.\<close>

theorem second_grantee_takes_the_grants:
  assumes "wf_grants w" "rt_grants rt = mem_grants" "rt_now rt = date_now"
    and "\<forall>v \<in> {w, w1}. rh_listRegistry (rt_hub rt) v = (Inr registry, v) \<and> rh_listConnections (rt_hub rt) who v = (Inr conns, v)"
    and "createGrants rt m who a1 meta1 w = (Inr gs1, w1)" "createGrants rt m who a2 meta2 w1 = (Inr gs2, w2)" "\<not> sameActor a2 a1"
    and "\<forall>g \<in> ran (map_of (grants w)). gr_manifestId g \<noteq> man_id m"
  shows "fst (gs_listByManifest (rt_grants rt) (man_id m) (Some a1) w2) = Inr [] \<and>
     (\<forall>g \<in> set gs1. \<exists>g'. map_of (grants w2) (gr_id g) = Some g' \<and> gr_grantee g' = a2)"
proof -
  let ?rs = "filter (\<lambda>x. rsl_status x = rs_ready) (map (\<lambda>r. resolveRequirement r who registry conns) (man_requirements m))"
  obtain now1 v1 u1 where g1: "gs1 = map (grant_for m who a1 meta1 now1) ?rs"
    and v1: "grants v1 = grants w" "forEach (gs_put mem_grants) gs1 v1 = (Inr u1, w1)"
    using created_in_memory [OF assms(2,3) _ _ assms(5)] assms(4) by blast
  obtain now2 v2 u2 where g2: "gs2 = map (grant_for m who a2 meta2 now2) ?rs"
    and v2: "grants v2 = grants w1" "forEach (gs_put mem_grants) gs2 v2 = (Inr u2, w2)"
    using created_in_memory [OF assms(2,3) _ _ assms(6)] assms(4) by blast
  have "wf_grants v1" using assms(1) v1(1) by (simp add: wf_grants_def)
  from memory_grants.put_all_law [OF this v1(2)] v1(1)
  have k1: "wf_grants w1" "map_of (grants w1) = put_all (map_of (grants w)) gs1" by simp_all
  then have "wf_grants v2" using v2(1) by (simp add: wf_grants_def)
  from memory_grants.put_all_law [OF this v2(2)] v2(1)
  have k2: "wf_grants w2" "map_of (grants w2) = put_all (map_of (grants w1)) gs2" by simp_all
  have ids: "gr_id (grant_for m who a meta now x) = gr_id (grant_for m who b meta' now' x)" for a b meta meta' now now' x
    by (simp add: grant_for_def Let_def)
  have same: "gr_id ` set gs2 = gr_id ` set gs1" unfolding g1 g2 set_map image_image by (rule image_cong [OF refl ids])
  have latest: "\<exists>g'. map_of (grants w2) (gr_id g) = Some g' \<and> gr_grantee g' = a2" if "g \<in> set gs1" for g
  proof -
    from that have "gr_id g \<in> gr_id ` set gs2" unfolding same by (rule imageI)
    then obtain h where h: "find (\<lambda>h. gr_id h = gr_id g) (rev gs2) = Some h"
      by (cases "find (\<lambda>h. gr_id h = gr_id g) (rev gs2)") (auto simp: find_None_all)
    with find_hit [OF this] have "gr_grantee h = a2" by (auto simp: g2 grant_for_def Let_def)
    with h show ?thesis by (simp add: k2 put_all_apply)
  qed
  have other: "gr_manifestId g \<noteq> man_id m \<or> gr_grantee g = a2" if "map_of (grants w2) k = Some g" for k g
  proof (cases "find (\<lambda>h. gr_id h = k) (rev gs2)")
    case (Some h)
    with that find_hit [OF this] show ?thesis by (auto simp: k2 put_all_apply g2 grant_for_def Let_def)
  next
    case None
    then have n2: "k \<notin> gr_id ` set gs2" by (auto simp: find_None_all)
    with same have "find (\<lambda>h. gr_id h = k) (rev gs1) = None" by (auto simp: find_None_all)
    with None that have "map_of (grants w) k = Some g" by (simp add: k1 k2 put_all_apply)
    with assms(8) show ?thesis by (auto intro: ranI)
  qed
  obtain y w' where l: "gs_listByManifest (rt_grants rt) (man_id m) (Some a1) w2 = (y, w')" by fastforce
  from memory_grants.manifest_law [OF k2(1) l [unfolded assms(2)]] obtain gs where
    y: "y = Inr gs" and gs: "set gs = {g \<in> ran (map_of (grants w2)). gr_manifestId g = man_id m \<and> sameActor (gr_grantee g) a1}" by auto
  have "set gs = {}" unfolding gs using other assms(7) by (auto simp: ran_def)
  with y l latest show ?thesis by simp
qed

section \<open>A runtime at work\<close>

lemma rx_registry_entry:
  "\<exists>e. reg_byId (composeIntegrationRegistry code_unit_order rx_sources rx_options) ''jira'' = Some e \<and>
     reg_byId (composeIntegrationRegistry code_unit_order rx_sources rx_options) ''jira-cloud'' = Some e \<and>
     con_id (ent_connector e) = ''jira-cloud'' \<and> con_actions (ent_connector e) = [gx_action] \<and> ''jira'' \<in> set (ent_aliases e)"
proof -
  let ?r = "composeIntegrationRegistry code_unit_order rx_sources rx_options"
  let ?ms = "members (all_aliases rx_options) (candidates_of rx_sources) ''jira-cloud''"
  obtain e where e: "e \<in> set (reg_entries ?r)" "ent_canonicalId e = ''jira-cloud''" using rx_entry by blast
  obtain cid pr where c: "e = registryEntry code_unit_order cid (members (all_aliases rx_options) (candidates_of rx_sources) cid) pr (all_aliases rx_options)"
    using e(1) unfolding composed_entries(1) [OF refl] by blast
  have cid: "cid = ''jira-cloud''" using e(2) unfolding c registryEntry_simps .
  have "\<lparr>cand_source = \<lparr>src_id = ''gateway'', src_connectors = [rx_connector ''jira'' [gx_action] None], src_precedence = None\<rparr>,
      cand_connector = rx_connector ''jira'' [gx_action] None, cand_supportTier = gatewayExecutable\<rparr> \<in> set ?ms" (is "?c \<in> _")
    by (simp add: members_canonical candidates_of_def rx_sources_def rx_tiers) (simp add: rx_connector_def rx_ids)
  from alias_table.slug_leads_to [OF alias_table.intro [OF rx_wf] this]
  have j: "leads_to e ''jira''" unfolding c cid by (simp add: rx_connector_def rx_ids)
  then have al: "''jira'' \<in> set (ent_aliases e)" by (simp add: leads_to_def e(2))
  have "con_id (ent_connector e) = ''jira-cloud''" unfolding c registryEntry_simps by (rule cid)
  moreover have "con_actions (ent_connector e) = [gx_action]"
  proof -
    note facts = entry_actions [OF refl e(1), unfolded e(2) rx_connectors]
    have tier: "ent_supportTier e = gatewayExecutable" using facts [THEN conjunct1] rx_best(1) by (rule trans)
    note more = facts [THEN conjunct2, unfolded tier rx_best]
    have d: "distinct (map act_id (con_actions (ent_connector e)))" and s: "set (con_actions (ent_connector e)) \<subseteq> {gx_action}"
      and i: "act_id ` set (con_actions (ent_connector e)) = {''send''}"
      using more by blast+
    have "\<exists>x xs. con_actions (ent_connector e) = x # xs"
    proof (cases "con_actions (ent_connector e)")
      case Nil
      have "''send'' \<in> act_id ` set (con_actions (ent_connector e))" unfolding i by (rule insertI1)
      then show ?thesis unfolding Nil by simp
    qed blast
    then obtain x xs where x: "con_actions (ent_connector e) = x # xs" by blast
    from s have all: "\<forall>y \<in> set (x # xs). y = gx_action" unfolding x by blast
    then have "x = gx_action" by simp
    moreover have "xs = []"
    proof (cases xs)
      case (Cons y ys)
      with all have "y = x" by simp
      with d Cons x show ?thesis by simp
    qed
    ultimately show ?thesis using x by simp
  qed
  moreover have "reg_byId ?r ''jira'' = Some e" by (rule entry_leads(2) [OF rx_wf refl e(1) j])
  moreover have "reg_byId ?r ''jira-cloud'' = Some e" unfolding e(2) [symmetric] by (rule indexed_by_id [OF rx_wf refl e(1)])
  moreover note al
  ultimately show ?thesis by (intro exI conjI)
qed

definition tx_provider :: "IntegrationCatalogSource \<Rightarrow> InMemoryIntegrationGrantStore IntegrationProvider" where
  "tx_provider s = \<lparr>prov_id = src_id s, prov_kind = kind_custom, prov_listConnectors = ret (src_connectors s),
     prov_testConnection = None, prov_connectApiKey = None, prov_startAuth = None, prov_completeAuth = None,
     prov_invokeAction = (\<lambda>_ _. ret gx_sent), prov_subscribeTrigger = None, prov_unsubscribeTrigger = None,
     prov_normalizeTriggerEvent = None\<rparr>"

definition tx_platform :: "InMemoryIntegrationGrantStore hub_platform" where
  "tx_platform = \<lparr>pf_uuid = randomUUID, pf_dates = gx_dates, pf_sha256 = (\<lambda>t. CHR ''h'' # t),
     pf_hmac = (\<lambda>payload secret. CHR ''m'' # base64UrlEncode (secret @ payload)), pf_randomBytes48 = randomUUID\<rparr>"

definition tx_hub :: "InMemoryIntegrationGrantStore IntegrationHub" where
  "tx_hub = \<lparr>hub_providers = map (\<lambda>s. (src_id s, tx_provider s)) rx_sources, hub_store = mem_connections, hub_capabilitySecret = ''s'',
     hub_guard = None, hub_policy = None, hub_oauthStateStore = mem_oauth_states, hub_oauthStateTtlMs = 600000, hub_now = date_now\<rparr>"

definition tx_runtime :: "InMemoryIntegrationGrantStore IntegrationRuntime" where
  "tx_runtime = newRuntime gx_dates (runtime_hub code_unit_order tx_platform tx_hub) None mem_grants date_now"

definition tx_connection :: IntegrationConnection where
  "tx_connection = gx_connection\<lparr>conn_connectorId := ''jira''\<rparr>"

definition tx_world :: "(string \<times> IntegrationGrant) list \<Rightarrow> InMemoryIntegrationGrantStore" where
  "tx_world gs = \<lparr>clock = (\<lambda>n. 1000 * int n), clock_reads = 0, uuids = (\<lambda>n. decimal n), uuids_drawn = 0,
     audit_events = [], results = Map.empty, approvals = [], oauth_states = Map.empty,
     connections = [(''c1'', tx_connection)], grants = gs\<rparr>"

definition tx_manifest :: IntegrationManifest where
  "tx_manifest = \<lparr>man_id = ''m1'', man_title = None, man_owner = None, man_requirements = [\<lparr>rqm_id = ''r1'', rqm_connectorId = ''jira'',
     rqm_reason = [], rqm_mode = mode_write, rqm_requiredActions = None, rqm_requiredTriggers = None, rqm_requiredScopes = None,
     rqm_optional = None\<rparr>], man_metadata = None\<rparr>"

definition tx_agent :: "string \<Rightarrow> IntegrationActor" where
  "tx_agent i = \<lparr>actor_type = actor_agent, actor_id = i\<rparr>"

definition tx_grant :: "string \<Rightarrow> nat \<Rightarrow> IntegrationGrant" where
  "tx_grant i n = \<lparr>gr_id = ''grant_m1_r1_c1'', gr_manifestId = ''m1'', gr_requirementId = ''r1'', gr_owner = gx_actor, gr_grantee = tx_agent i,
     gr_connectionId = ''c1'', gr_connectorId = ''jira-cloud'', gr_scopes = [''send''], gr_allowedActions = [''send''],
     gr_allowedTriggers = [], gr_status = grant_active, gr_createdAt = int_text (int n), gr_updatedAt = int_text (int n), gr_metadata = None\<rparr>"

lemma tx_registry:
  "rh_listRegistry (rt_hub tx_runtime) = ret (composeIntegrationRegistry code_unit_order rx_sources rx_options)"
  "rh_listConnections (rt_hub tx_runtime) = connection_listByOwner" "rt_now tx_runtime = date_now" "rt_grants tx_runtime = mem_grants"
  "rt_dates tx_runtime = gx_dates" "rh_getConnection (rt_hub tx_runtime) = connection_get"
  "rh_issueCapability (rt_hub tx_runtime) = issueCapability tx_platform tx_hub"
proof -
  have "provider_sources (map snd (hub_providers tx_hub)) = ret rx_sources"
    by (simp add: tx_hub_def rx_sources_def tx_provider_def)
  then show "rh_listRegistry (rt_hub tx_runtime) = ret (composeIntegrationRegistry code_unit_order rx_sources rx_options)"
    by (simp add: tx_runtime_def newRuntime_def runtime_hub_def listRegistry_def rx_options_def)
qed (simp_all add: tx_runtime_def newRuntime_def runtime_hub_def tx_hub_def mem_connections_def listConnections_def getConnection_def fun_eq_iff)

lemma tx_created:
  assumes "1000 * int n \<le> max_date"
  shows "createGrants tx_runtime tx_manifest gx_actor (tx_agent i) None (tx_world gs\<lparr>clock_reads := n\<rparr>) =
     (Inr [tx_grant i (1000 * n)],
      tx_world gs\<lparr>clock_reads := Suc n, grants := AList.update ''grant_m1_r1_c1'' (tx_grant i (1000 * n)) gs\<rparr>)"
proof -
  obtain e where e: "reg_byId (composeIntegrationRegistry code_unit_order rx_sources rx_options) ''jira'' = Some e"
     "con_id (ent_connector e) = ''jira-cloud''" "con_actions (ent_connector e) = [gx_action]" "''jira'' \<in> set (ent_aliases e)"
    using rx_registry_entry by blast
  let ?q = "\<lparr>rqm_id = ''r1'', rqm_connectorId = ''jira'', rqm_reason = [], rqm_mode = mode_write, rqm_requiredActions = None,
     rqm_requiredTriggers = None, rqm_requiredScopes = None, rqm_optional = None\<rparr>"
  have need: "requiredActions ?q (ent_connector e) = [''send'']" "requiredTriggers ?q (ent_connector e) = []"
    "requiredScopes ?q (ent_connector e) = [''send'']"
    by (simp_all add: requiredActions_def requiredTriggers_def requiredScopes_def non_empty_def e(3) gx_action_def)
  have res: "resolveRequirement ?q gx_actor (composeIntegrationRegistry code_unit_order rx_sources rx_options) [tx_connection] =
     \<lparr>rsl_requirement = ?q, rsl_status = rs_ready, rsl_connector = Some (ent_connector e), rsl_registryEntry = Some e,
      rsl_connection = Some tx_connection, rsl_missingScopes = [], rsl_missingActions = [], rsl_missingTriggers = [],
      rsl_message = con_title (ent_connector e) @ '' is ready.''\<rparr>"
    by (simp add: resolveRequirement_def e need usable_def sameActor_def Let_def) (simp add: tx_connection_def gx_connection_def e)
  have man: "man_requirements tx_manifest = [?q]" "man_id tx_manifest = ''m1''" by (simp_all add: tx_manifest_def)
  have list: "connection_listByOwner gx_actor w = (Inr [tx_connection], w)" if "connections w = [(''c1'', tx_connection)]"
    for w :: InMemoryIntegrationGrantStore
    using that by (simp add: io_defs sameActor_def tx_connection_def gx_connection_def)
  have grant: "grant_for tx_manifest gx_actor (tx_agent i) None (int_text (1000 * int n))
      \<lparr>rsl_requirement = ?q, rsl_status = rs_ready, rsl_connector = Some (ent_connector e), rsl_registryEntry = Some e,
      rsl_connection = Some tx_connection, rsl_missingScopes = [], rsl_missingActions = [], rsl_missingTriggers = [],
      rsl_message = con_title (ent_connector e) @ '' is ready.''\<rparr> = tx_grant i (1000 * n)"
    by (simp add: grant_for_def need man tx_grant_def e(2) tx_connection_def gx_connection_def Let_def)
  have time: "date_now (tx_world gs\<lparr>clock_reads := n\<rparr>) = (Inr (1000 * int n), tx_world gs\<lparr>clock_reads := Suc n\<rparr>)"
    "toISO gx_dates (1000 * int n) = Inr (int_text (1000 * int n))"
    using assms by (simp_all add: date_now_def tx_world_def toISO_def gx_dates_def)
  have id: "gr_id (tx_grant i k) = ''grant_m1_r1_c1''" for k by (simp add: tx_grant_def)
  have conns: "connections (tx_world gs\<lparr>clock_reads := n\<rparr>) = [(''c1'', tx_connection)]" by (simp add: tx_world_def)
  show "createGrants tx_runtime tx_manifest gx_actor (tx_agent i) None (tx_world gs\<lparr>clock_reads := n\<rparr>) =
     (Inr [tx_grant i (1000 * n)],
      tx_world gs\<lparr>clock_reads := Suc n, grants := AList.update ''grant_m1_r1_c1'' (tx_grant i (1000 * n)) gs\<rparr>)"
    by (simp add: createGrants_def resolveManifest_def tx_registry man res Let_def)
      (simp add: andThen_def list [OF conns] time liftE_def res grant tx_registry ret_def mem_grants_def grant_put_def id, simp add: tx_world_def)
qed

lemma tx_start [simp]: "tx_world gs\<lparr>clock_reads := 0\<rparr> = tx_world gs"
  by (simp add: tx_world_def)

lemma tx_wf: "wf_grants (tx_world [])"
  by (simp add: wf_grants_def tx_world_def)

lemma tx_first:
  "createGrants tx_runtime tx_manifest gx_actor (tx_agent i) None (tx_world []) =
     (Inr [tx_grant i 0], tx_world []\<lparr>clock_reads := 1, grants := [(''grant_m1_r1_c1'', tx_grant i 0)]\<rparr>)"
  using tx_created [of 0 i "[]"] by (simp add: max_date_def)

theorem grants_rest_on_connections_witness:
  "\<exists>registry conns w1 w2 c. rh_listRegistry (rt_hub tx_runtime) (tx_world []) = (Inr registry, w1) \<and>
     rh_listConnections (rt_hub tx_runtime) gx_actor w1 = (Inr conns, w2) \<and> c \<in> set conns \<and>
     conn_id c = ''c1'' \<and> conn_status c = cs_active \<and> set (gr_scopes (tx_grant ''a1'' 0)) \<subseteq> set (conn_grantedScopes c)"
proof -
  have "fst (createGrants tx_runtime tx_manifest gx_actor (tx_agent ''a1'') None (tx_world [])) = Inr [tx_grant ''a1'' 0]"
    by (simp add: tx_first)
  then obtain w' where "createGrants tx_runtime tx_manifest gx_actor (tx_agent ''a1'') None (tx_world []) = (Inr [tx_grant ''a1'' 0], w')"
    by (metis prod.collapse)
  from grants_rest_on_connections [OF this] obtain registry conns w1 w2 c where
    "rh_listRegistry (rt_hub tx_runtime) (tx_world []) = (Inr registry, w1)" "rh_listConnections (rt_hub tx_runtime) gx_actor w1 = (Inr conns, w2)"
    "c \<in> set conns" "gr_connectionId (tx_grant ''a1'' 0) = conn_id c" "conn_status c = cs_active"
    "set (gr_scopes (tx_grant ''a1'' 0)) \<subseteq> set (conn_grantedScopes c)"
    by (meson list.set_intros(1))
  then show ?thesis by (intro exI conjI) (simp_all add: tx_grant_def)
qed

theorem grant_table_stays_keyed_witness:
  "wf_grants (snd (createGrants tx_runtime tx_manifest gx_actor (tx_agent ''a1'') None (tx_world [])))"
proof -
  have "keeps grants (rh_listRegistry (rt_hub tx_runtime))" "keeps grants (rh_listConnections (rt_hub tx_runtime) gx_actor)"
    "keeps grants (rt_now tx_runtime)"
    unfolding tx_registry by (simp_all add: keeps_def moves_def io_defs)
  then show ?thesis
    using grant_table_stays_keyed [OF tx_wf tx_registry(4) tx_first [of "''a1''"]] by (simp add: tx_first)
qed

lemma second_grantee_example:
  "\<exists>w1 w2. createGrants tx_runtime tx_manifest gx_actor (tx_agent ''a1'') None (tx_world []) = (Inr [tx_grant ''a1'' 0], w1) \<and>
     createGrants tx_runtime tx_manifest gx_actor (tx_agent ''a2'') None w1 = (Inr [tx_grant ''a2'' 1000], w2) \<and>
     grant_listByManifest ''m1'' (Some (tx_agent ''a1'')) w2 = (Inr [], w2)"
proof -
  let ?w1 = "tx_world [(''grant_m1_r1_c1'', tx_grant ''a1'' 0)]\<lparr>clock_reads := 1\<rparr>"
  have one: "createGrants tx_runtime tx_manifest gx_actor (tx_agent ''a1'') None (tx_world []) = (Inr [tx_grant ''a1'' 0], ?w1)"
    by (simp add: tx_first) (simp add: tx_world_def)
  have two: "createGrants tx_runtime tx_manifest gx_actor (tx_agent ''a2'') None ?w1 =
      (Inr [tx_grant ''a2'' 1000], tx_world [(''grant_m1_r1_c1'', tx_grant ''a2'' 1000)]\<lparr>clock_reads := 2\<rparr>)"
    using tx_created [of 1 "''a2''" "[(''grant_m1_r1_c1'', tx_grant ''a1'' 0)]"] by (simp add: max_date_def tx_world_def eval_nat_numeral)
  have "grant_listByManifest ''m1'' (Some (tx_agent ''a1'')) (tx_world [(''grant_m1_r1_c1'', tx_grant ''a2'' 1000)]\<lparr>clock_reads := 2\<rparr>) =
      (Inr [], tx_world [(''grant_m1_r1_c1'', tx_grant ''a2'' 1000)]\<lparr>clock_reads := 2\<rparr>)"
    by (simp add: grant_listByManifest_def tx_world_def tx_grant_def tx_agent_def sameActor_def)
  with one two show ?thesis by blast
qed

definition tx_bundle :: bundle_input where
  "tx_bundle = \<lparr>bi_manifestId = Some ''m1'', bi_grantIds = None, bi_owner = gx_actor, bi_subject = tx_agent ''a1'', bi_ttlMs = 1500,
     bi_grantee = Some (tx_agent ''a1'')\<rparr>"

lemma tx_simps:
  "gr_id (tx_grant i n) = ''grant_m1_r1_c1''" "gr_manifestId (tx_grant i n) = ''m1''" "gr_requirementId (tx_grant i n) = ''r1''"
  "gr_connectionId (tx_grant i n) = ''c1''" "gr_connectorId (tx_grant i n) = ''jira-cloud''" "gr_scopes (tx_grant i n) = [''send'']"
  "gr_allowedActions (tx_grant i n) = [''send'']" "gr_status (tx_grant i n) = grant_active" "gr_owner (tx_grant i n) = gx_actor"
  "gr_grantee (tx_grant i n) = tx_agent i" "gr_allowedTriggers (tx_grant i n) = []"
  "conn_owner tx_connection = gx_actor" "conn_status tx_connection = cs_active"
  "conn_id tx_connection = ''c1''" "bi_owner tx_bundle = gx_actor" "bi_subject tx_bundle = tx_agent ''a1''" "bi_ttlMs tx_bundle = 1500"
  "sameActor a a"
  by (simp_all add: tx_grant_def tx_connection_def gx_connection_def tx_bundle_def sameActor_def)

lemma tx_bundled:
  "\<exists>made w2 d tool. buildSandboxBundle tx_runtime tx_bundle (tx_world [(''grant_m1_r1_c1'', tx_grant ''a1'' 0)]) = (Inr made, w2) \<and>
     sb_capabilities made = [d] \<and> sb_tools made = [tool] \<and> bd_connectorId d = tool_connectorId tool \<and> bd_connectionId d = ''c1'' \<and>
     bd_allowedActions d = [''send''] \<and> act_id (tool_action tool) = ''send''"
proof -
  let ?w = "tx_world [(''grant_m1_r1_c1'', tx_grant ''a1'' 0)]"
  let ?reg = "composeIntegrationRegistry code_unit_order rx_sources rx_options"
  obtain e where e: "reg_byId ?reg ''jira-cloud'' = Some e" "con_id (ent_connector e) = ''jira-cloud''" "con_actions (ent_connector e) = [gx_action]"
    using rx_registry_entry by blast
  have r: "resolveBundleGrants tx_runtime tx_bundle ?w = (Inr [tx_grant ''a1'' 0], ?w)"
    by (simp add: resolveBundleGrants_def tx_registry mem_grants_def tx_bundle_def non_empty_def io_defs)
      (simp add: tx_world_def tx_grant_def sameActor_def)
  have conn: "connection_get ''c1'' ?w = (Inr (Some tx_connection), ?w)" by (simp add: io_defs tx_world_def)
  let ?req = "\<lparr>ic_subject = tx_agent ''a1'', ic_connectionId = ''c1'', ic_scopes = [''send''], ic_allowedActions = [''send''], ic_ttlMs = 1500,
     ic_metadata = Some [(''manifestId'', JStr ''m1''), (''grantId'', JStr ''grant_m1_r1_c1''), (''requirementId'', JStr ''r1'')]\<rparr>"
  obtain issued w2 where i: "issueCapability tx_platform tx_hub ?req ?w = (Inr issued, w2)"
    by (simp add: issueCapability_def requireConnection_def assertConnectionActive_def assertScopes_def Let_def io_defs
      tx_hub_def tx_platform_def tx_world_def mem_connections_def tx_connection_def gx_connection_def toISO_def max_date_def)
  have "\<exists>d. bindGrants tx_runtime tx_bundle ?reg [tx_grant ''a1'' 0] ?w = (Inr [(d, narrowed (tx_grant ''a1'' 0) (ent_connector e))], w2) \<and>
      bd_connectorId d = ''jira-cloud'' \<and> bd_connectionId d = ''c1'' \<and> bd_allowedActions d = [''send'']"
    by (simp add: bindGrant_def tx_registry andThen_def conn tx_simps e(1) i ret_def)
  then obtain d where d: "bindGrants tx_runtime tx_bundle ?reg [tx_grant ''a1'' 0] ?w = (Inr [(d, narrowed (tx_grant ''a1'' 0) (ent_connector e))], w2)"
    "bd_connectorId d = ''jira-cloud''" "bd_connectionId d = ''c1''" "bd_allowedActions d = [''send'']" by blast
  have tools: "buildIntegrationToolCatalog [narrowed (tx_grant ''a1'' 0) (ent_connector e)] =
      [flattenIntegrationToolDefinition (narrowed (tx_grant ''a1'' 0) (ent_connector e)) gx_action]"
    by (simp add: buildIntegrationToolCatalog_def narrowed_def e tx_simps gx_action_def)
  have "\<exists>made. buildSandboxBundle tx_runtime tx_bundle ?w = (Inr made, w2) \<and> sb_capabilities made = [d] \<and>
      sb_tools made = [flattenIntegrationToolDefinition (narrowed (tx_grant ''a1'' 0) (ent_connector e)) gx_action]"
    by (simp add: buildSandboxBundle_def andThen_def r tx_registry ret_def d(1) tools del: bindGrants.simps)
  moreover have "tool_connectorId (flattenIntegrationToolDefinition (narrowed (tx_grant ''a1'' 0) (ent_connector e)) gx_action) = ''jira-cloud''"
    "act_id (tool_action (flattenIntegrationToolDefinition (narrowed (tx_grant ''a1'' 0) (ent_connector e)) gx_action)) = ''send''"
    by (simp_all add: flattenIntegrationToolDefinition_def narrowed_def e(2) gx_action_def)
  ultimately show ?thesis using d(2-4) by metis
qed

lemma tx_hosted:
  "wf_grants (tx_world [(''grant_m1_r1_c1'', tx_grant ''a1'' 0)])" "rt_hub tx_runtime = runtime_hub code_unit_order tx_platform tx_hub"
  by (simp_all add: wf_grants_def tx_world_def tx_grant_def tx_runtime_def newRuntime_def)

theorem bundle_hands_out_grants_witness:
  "\<exists>made w' b. buildSandboxBundle tx_runtime tx_bundle (tx_world [(''grant_m1_r1_c1'', tx_grant ''a1'' 0)]) = (Inr made, w') \<and>
     b \<in> set (sb_capabilities made) \<and> cap_subject (issued_capability (bd_capability b)) = tx_agent ''a1'' \<and>
     set (cap_scopes (issued_capability (bd_capability b))) = {''send''}"
proof -
  obtain made w2 d where o: "buildSandboxBundle tx_runtime tx_bundle (tx_world [(''grant_m1_r1_c1'', tx_grant ''a1'' 0)]) = (Inr made, w2)"
    "sb_capabilities made = [d]" using tx_bundled by blast
  have "cap_subject (issued_capability (bd_capability d)) = tx_agent ''a1''" "set (cap_scopes (issued_capability (bd_capability d))) = {''send''}"
    using bundle_hands_out_grants [OF o(1) tx_hosted(1) tx_registry(4) tx_hosted(2)] o(2)
    by (simp_all add: tx_bundle_def tx_world_def tx_grant_def)
  with o show ?thesis by auto
qed

end
