(* ===== verification/Workflow.thy ===== *)
theory Workflow
  imports Runtime
begin

text \<open>
  Installed workflows and the routing of trigger events, \<open>workflow.ts\<close>: the store of installed
  workflows with its in-memory version, the installation of a workflow over the grants of the
  runtime, and the dispatch of an event to the workflows whose grant still covers it.
\<close>

section \<open>Workflows and their store\<close>

record workflow_trigger =
  wt_requirementId :: string
  wt_triggerId :: string
  wt_targetUrl :: "string option"

record IntegrationWorkflowDefinition =
  wd_id :: string
  wd_title :: "string option"
  wd_manifest :: IntegrationManifest
  wd_trigger :: workflow_trigger
  wd_metadata :: "metadata option"

datatype workflow_status = wf_active | wf_paused | wf_error

record InstalledIntegrationWorkflow =
  iw_id :: string
  iw_workflowId :: string
  iw_manifestId :: string
  iw_owner :: IntegrationActor
  iw_grantee :: IntegrationActor
  iw_triggerGrantId :: string
  iw_subscription :: IntegrationTriggerSubscription
  iw_status :: workflow_status
  iw_createdAt :: string
  iw_metadata :: "metadata option"

record 'w IntegrationWorkflowStore =
  ws_put :: "InstalledIntegrationWorkflow \<Rightarrow> ('w, exn, unit) io"
  ws_get :: "string \<Rightarrow> ('w, exn, InstalledIntegrationWorkflow option) io"
  ws_list :: "('w, exn, InstalledIntegrationWorkflow list) io"
  ws_listByWorkflow :: "string \<Rightarrow> ('w, exn, InstalledIntegrationWorkflow list) io"
  ws_listByOwner :: "IntegrationActor \<Rightarrow> ('w, exn, InstalledIntegrationWorkflow list) io"

record InMemoryIntegrationWorkflowStore = InMemoryIntegrationGrantStore +
  workflows :: "(string \<times> InstalledIntegrationWorkflow) list"

definition workflow_put :: "InstalledIntegrationWorkflow \<Rightarrow> ('a InMemoryIntegrationWorkflowStore_scheme, exn, unit) io" where
  [io_defs]: "workflow_put i w = (Inr (), w\<lparr>workflows := AList.update (iw_id i) i (workflows w)\<rparr>)"

definition workflow_get :: "string \<Rightarrow> ('a InMemoryIntegrationWorkflowStore_scheme, exn, InstalledIntegrationWorkflow option) io" where
  [io_defs]: "workflow_get k w = (Inr (map_of (workflows w) k), w)"

definition workflow_list :: "('a InMemoryIntegrationWorkflowStore_scheme, exn, InstalledIntegrationWorkflow list) io" where
  [io_defs]: "workflow_list w = (Inr (map snd (workflows w)), w)"

definition workflow_listByWorkflow :: "string \<Rightarrow> ('a InMemoryIntegrationWorkflowStore_scheme, exn, InstalledIntegrationWorkflow list) io" where
  [io_defs]: "workflow_listByWorkflow k w = (Inr (filter (\<lambda>i. iw_workflowId i = k) (map snd (workflows w))), w)"

definition workflow_listByOwner :: "IntegrationActor \<Rightarrow> ('a InMemoryIntegrationWorkflowStore_scheme, exn, InstalledIntegrationWorkflow list) io" where
  [io_defs]: "workflow_listByOwner a w = (Inr (filter (\<lambda>i. sameActor (iw_owner i) a) (map snd (workflows w))), w)"

definition mem_workflows :: "('a InMemoryIntegrationWorkflowStore_scheme) IntegrationWorkflowStore" where
  "mem_workflows = \<lparr>ws_put = workflow_put, ws_get = workflow_get, ws_list = workflow_list,
     ws_listByWorkflow = workflow_listByWorkflow, ws_listByOwner = workflow_listByOwner\<rparr>"

section \<open>The workflow runtime\<close>

record 'w IntegrationWorkflowRuntime =
  wr_runtime :: "'w IntegrationRuntime"
  wr_subscribeTrigger :: "string \<Rightarrow> string \<Rightarrow> string option \<Rightarrow> ('w, exn, IntegrationTriggerSubscription) io"
  wr_grants :: "'w IntegrationGrantStore"
  wr_store :: "'w IntegrationWorkflowStore"
  wr_now :: "('w, exn, int) io"

definition newWorkflowRuntime :: "'w IntegrationRuntime \<Rightarrow> (string \<Rightarrow> string \<Rightarrow> string option \<Rightarrow> ('w, exn, IntegrationTriggerSubscription) io) \<Rightarrow>
    'w IntegrationGrantStore \<Rightarrow> 'w IntegrationWorkflowStore option \<Rightarrow> 'w IntegrationWorkflowStore \<Rightarrow> ('w, exn, int) io \<Rightarrow>
    'w IntegrationWorkflowRuntime" where
  "newWorkflowRuntime rt subscribe gs store newStore now =
     \<lparr>wr_runtime = rt, wr_subscribeTrigger = subscribe, wr_grants = gs, wr_store = nullish store newStore, wr_now = now\<rparr>"

definition findTriggerGrant :: "IntegrationGrant list \<Rightarrow> string \<Rightarrow> string \<Rightarrow> exn + IntegrationGrant" where
  "findTriggerGrant gs requirementId triggerId =
     (case find (\<lambda>g. gr_requirementId g = requirementId \<and> triggerId \<in> set (gr_allowedTriggers g)) gs of
        None \<Rightarrow> Inl (Error (''Missing trigger grant '' @ requirementId @ ''/'' @ triggerId @ ''.''))
      | Some g \<Rightarrow> Inr g)"

definition installed_workflow :: "IntegrationWorkflowDefinition \<Rightarrow> IntegrationActor \<Rightarrow> IntegrationActor \<Rightarrow> IntegrationGrant \<Rightarrow>
    IntegrationTriggerSubscription \<Rightarrow> string \<Rightarrow> InstalledIntegrationWorkflow" where
  "installed_workflow d who grantee g sub now =
     \<lparr>iw_id = ''workflow_'' @ wd_id d @ ''_'' @ gr_id g, iw_workflowId = wd_id d, iw_manifestId = man_id (wd_manifest d),
      iw_owner = who, iw_grantee = grantee, iw_triggerGrantId = gr_id g, iw_subscription = sub, iw_status = wf_active,
      iw_createdAt = now, iw_metadata = wd_metadata d\<rparr>"

definition install :: "'w IntegrationWorkflowRuntime \<Rightarrow> IntegrationWorkflowDefinition \<Rightarrow> IntegrationActor \<Rightarrow> IntegrationActor \<Rightarrow>
    ('w, exn, InstalledIntegrationWorkflow) io" where
  "install wr d who grantee =
     andThen (createGrants (wr_runtime wr) (wd_manifest d) who grantee (Some [(''workflowId'', JStr (wd_id d))])) (\<lambda>gs.
     andThen (liftE (findTriggerGrant gs (wt_requirementId (wd_trigger d)) (wt_triggerId (wd_trigger d)))) (\<lambda>g.
     andThen (wr_subscribeTrigger wr (gr_connectionId g) (wt_triggerId (wd_trigger d)) (wt_targetUrl (wd_trigger d))) (\<lambda>sub.
     andThen (wr_now wr) (\<lambda>n.
     andThen (liftE (toISO (rt_dates (wr_runtime wr)) n)) (\<lambda>now.
       let installed = installed_workflow d who grantee g sub now in
       andThen (ws_put (wr_store wr) installed) (\<lambda>_. ret installed))))))"

text \<open>What is checked of a workflow alone, and of the grant it was installed with.\<close>

definition subscribed :: "IntegrationTriggerEvent \<Rightarrow> InstalledIntegrationWorkflow \<Rightarrow> bool" where
  "subscribed ev i \<longleftrightarrow> iw_status i = wf_active \<and> ts_status (iw_subscription i) = ts_active \<and>
     ts_connectionId (iw_subscription i) = te_connectionId ev \<and> ts_trigger (iw_subscription i) = te_trigger ev"

definition covers :: "IntegrationTriggerEvent \<Rightarrow> InstalledIntegrationWorkflow \<Rightarrow> IntegrationGrant \<Rightarrow> bool" where
  "covers ev i g \<longleftrightarrow> gr_status g = grant_active \<and> gr_manifestId g = iw_manifestId i \<and>
     sameActor (gr_owner g) (iw_owner i) \<and> sameActor (gr_grantee g) (iw_grantee i) \<and>
     gr_connectionId g = te_connectionId ev \<and> gr_connectorId g = te_connectorId ev \<and>
     te_trigger ev \<in> set (gr_allowedTriggers g)"

definition dispatchEvent :: "'w IntegrationWorkflowRuntime \<Rightarrow> IntegrationTriggerEvent \<Rightarrow>
    (IntegrationTriggerEvent \<Rightarrow> InstalledIntegrationWorkflow list \<Rightarrow> ('w, exn, unit) io) \<Rightarrow>
    ('w, exn, InstalledIntegrationWorkflow list) io" where
  "dispatchEvent wr ev handler =
     andThen (ws_list (wr_store wr)) (\<lambda>all.
     let candidates = filter (subscribed ev) all;
         ids = unique (map iw_triggerGrantId candidates) in
     andThen (if ids = [] then ret [] else fetchGrants (wr_grants wr) ids) (\<lambda>gs.
     let byId = put_all (\<lambda>_. None) gs;
         matched = filter (\<lambda>i. case byId (iw_triggerGrantId i) of None \<Rightarrow> False | Some g \<Rightarrow> covers ev i g) candidates in
     andThen (handler ev matched) (\<lambda>_. ret matched)))"

section \<open>Routing against the current grants\<close>

text \<open>The specification of the routing, which names every field that has to agree and none of the tests
  of the code; the tests compute it. The contract under which events are routed: a grant store, and a
  list of workflows beside it.\<close>

definition routed :: "IntegrationTriggerEvent \<Rightarrow> (string \<Rightarrow> IntegrationGrant option) \<Rightarrow> InstalledIntegrationWorkflow list \<Rightarrow>
    InstalledIntegrationWorkflow list" where
  "routed ev gs is = filter (\<lambda>i.
     iw_status i = wf_active \<and> ts_status (iw_subscription i) = ts_active \<and>
     ts_connectionId (iw_subscription i) = te_connectionId ev \<and> ts_trigger (iw_subscription i) = te_trigger ev \<and>
     (\<exists>g. gs (iw_triggerGrantId i) = Some g \<and> gr_status g = grant_active \<and> gr_manifestId g = iw_manifestId i \<and>
        actor_type (gr_owner g) = actor_type (iw_owner i) \<and> actor_id (gr_owner g) = actor_id (iw_owner i) \<and>
        actor_type (gr_grantee g) = actor_type (iw_grantee i) \<and> actor_id (gr_grantee g) = actor_id (iw_grantee i) \<and>
        gr_connectionId g = te_connectionId ev \<and> gr_connectorId g = te_connectorId ev \<and>
        (\<exists>t \<in> set (gr_allowedTriggers g). t = te_trigger ev))) is"

lemma routed_code: "routed ev gs is = filter (\<lambda>i. subscribed ev i \<and> (\<exists>g. gs (iw_triggerGrantId i) = Some g \<and> covers ev i g)) is"
  unfolding routed_def by (rule filter_cong [OF refl]) (auto simp: subscribed_def covers_def sameActor_def)

locale routing = grant_store st recs inv
  for st :: "'w IntegrationGrantStore" and recs inv +
  fixes ws :: "'w IntegrationWorkflowStore" and rows :: "'w \<Rightarrow> InstalledIntegrationWorkflow list"
  assumes list_law: "inv w \<Longrightarrow> ws_list ws w = (Inr (rows w), w)"
    and workflow_law: "inv w \<Longrightarrow> ws_put ws i w = (x, w') \<Longrightarrow> x = Inr () \<and> inv w' \<and> recs w' = recs w \<and>
       set (rows w') = insert i {j \<in> set (rows w). iw_id j \<noteq> iw_id i}"
begin

lemma fetched_by_id:
  assumes "inv w" "set gs = {g \<in> ran (recs w). gr_id g \<in> K}" "k \<in> K"
  shows "put_all (\<lambda>_. None) gs k = recs w k"
proof (cases "recs w k")
  case None
  then have "find (\<lambda>g. gr_id g = k) (rev gs) = None"
    using assms id_law [OF assms(1)] by (fastforce simp: find_None_all ran_def)
  with None show ?thesis by (simp add: put_all_apply)
next
  case (Some g)
  then have "g \<in> set gs" "gr_id g = k" using assms id_law [OF assms(1)] by (auto intro: ranI)
  then obtain h where h: "find (\<lambda>g. gr_id g = k) (rev gs) = Some h"
    by (cases "find (\<lambda>g. gr_id g = k) (rev gs)") (auto simp: find_None_all)
  from find_hit [OF h] assms(2) have "gr_id h = k" "h \<in> ran (recs w)" by auto
  then have "recs w k = Some h" using id_law [OF assms(1)] by (fastforce simp: ran_def)
  with h show ?thesis by (simp add: put_all_apply)
qed

lemma routes:
  assumes "inv w" "wr_grants wr = st" "wr_store wr = ws"
  shows "dispatchEvent wr ev handler w =
     andThen (handler ev (routed ev (recs w) (rows w))) (\<lambda>_. ret (routed ev (recs w) (rows w))) w"
proof -
  let ?c = "filter (subscribed ev) (rows w)"
  let ?ids = "unique (map iw_triggerGrantId ?c)"
  obtain gs where gs: "(if ?ids = [] then ret [] else fetchGrants st ?ids) w = (Inr gs, w)" "set gs = {g \<in> ran (recs w). gr_id g \<in> set ?ids}"
  proof (cases "?ids = []")
    case False
    obtain y w' where f: "fetchGrants st ?ids w = (y, w')" by fastforce
    from fetch_law [OF assms(1) f] obtain gs where "y = Inr gs" "w' = w" "set gs = {g \<in> ran (recs w). gr_id g \<in> set ?ids}" by blast
    with f False that [of gs] show ?thesis by (simp only: if_False)
  next
    case True
    show ?thesis by (rule that [of "[]"], unfold True) (simp_all add: ret_def)
  qed
  let ?m = "filter (\<lambda>i. case put_all (\<lambda>_. None) gs (iw_triggerGrantId i) of None \<Rightarrow> False | Some g \<Rightarrow> covers ev i g) ?c"
  have "(case put_all (\<lambda>_. None) gs (iw_triggerGrantId i) of None \<Rightarrow> False | Some g \<Rightarrow> covers ev i g) \<longleftrightarrow>
      (\<exists>g. recs w (iw_triggerGrantId i) = Some g \<and> covers ev i g)" if "i \<in> set ?c" for i
    using fetched_by_id [OF assms(1) gs(2), of "iw_triggerGrantId i"] that by (auto split: option.splits)
  then have "?m = filter (\<lambda>i. \<exists>g. recs w (iw_triggerGrantId i) = Some g \<and> covers ev i g) ?c" by (rule filter_cong [OF refl])
  then have "?m = routed ev (recs w) (rows w)" by (simp only: routed_code filter_filter)
  moreover have "dispatchEvent wr ev handler w = andThen (handler ev ?m) (\<lambda>_. ret ?m) w"
    unfolding dispatchEvent_def Let_def assms(2,3) andThen_def [of "ws_list ws"] list_law [OF assms(1)] prod.case sum.case
      andThen_def [of "if ?ids = [] then ret [] else fetchGrants st ?ids"] gs(1) by (rule refl)
  ultimately show ?thesis by simp
qed

end

definition wf_workflows :: "'a InMemoryIntegrationWorkflowStore_scheme \<Rightarrow> bool" where
  "wf_workflows w \<longleftrightarrow> distinct (map fst (workflows w)) \<and> (\<forall>(k, i) \<in> set (workflows w). iw_id i = k)"

lemma workflow_key: "wf_workflows w \<Longrightarrow> map_of (workflows w) k = Some i \<Longrightarrow> iw_id i = k"
  by (auto simp: wf_workflows_def dest: map_of_SomeD)

lemma workflow_values:
  assumes "wf_workflows w"
  shows "snd ` set (AList.update (iw_id i) i (workflows w)) = insert i {j \<in> snd ` set (workflows w). iw_id j \<noteq> iw_id i}"
proof -
  have d: "distinct (map fst (workflows w))" "distinct (map fst (AList.update (iw_id i) i (workflows w)))"
    using assms by (simp_all add: wf_workflows_def distinct_update)
  have "ran ((map_of (workflows w))(iw_id i \<mapsto> i)) = insert i {j \<in> ran (map_of (workflows w)). iw_id j \<noteq> iw_id i}"
    by (auto simp: ran_def dest: workflow_key [OF assms])
  then show ?thesis by (simp add: ran_distinct [OF d(1)] ran_distinct [OF d(2)] flip: update_conv')
qed

lemma wf_workflows_put: "wf_workflows w \<Longrightarrow> wf_workflows (w\<lparr>workflows := AList.update (iw_id i) i (workflows w)\<rparr>)"
  using set_update_subset [of "iw_id i" i "workflows w"] by (auto simp: wf_workflows_def distinct_update)

interpretation memory_routing: routing
  "mem_grants :: 'a InMemoryIntegrationWorkflowStore_scheme IntegrationGrantStore" "\<lambda>w. map_of (grants w)"
  "\<lambda>w. wf_grants w \<and> wf_workflows w" mem_workflows "\<lambda>w. map snd (workflows w)"
proof
  fix w w' :: "'a InMemoryIntegrationWorkflowStore_scheme" and k g x y m a ids i
  assume wf: "wf_grants w \<and> wf_workflows w"
  then have g: "wf_grants w" and i: "wf_workflows w" by simp_all
  show "gs_get mem_grants k w = (Inr (map_of (grants w) k), w)" by (rule memory_grants.get_law [OF g])
  show "gs_put mem_grants g w = (x, w') \<Longrightarrow> x = Inr () \<and> (wf_grants w' \<and> wf_workflows w') \<and> map_of (grants w') = (map_of (grants w))(gr_id g \<mapsto> g)"
    using memory_grants.put_law [OF g, of g x w'] i by (auto simp: mem_grants_def io_defs wf_workflows_def)
  show "gs_listByManifest mem_grants m a w = (y, w') \<Longrightarrow> \<exists>gs. y = Inr gs \<and> w' = w \<and>
      set gs = {g \<in> ran (map_of (grants w)). gr_manifestId g = m \<and> (case a of None \<Rightarrow> True | Some b \<Rightarrow> sameActor (gr_grantee g) b)}"
    by (rule memory_grants.manifest_law [OF g])
  show "fetchGrants mem_grants ids w = (y, w') \<Longrightarrow> \<exists>gs. y = Inr gs \<and> w' = w \<and> set gs = {g \<in> ran (map_of (grants w)). gr_id g \<in> set ids}"
    by (rule memory_grants.fetch_law [OF g])
  show "map_of (grants w) k = Some g \<Longrightarrow> gr_id g = k" by (rule wf_grants_lookup [OF g])
  show "ws_list mem_workflows w = (Inr (map snd (workflows w)), w)" by (simp add: mem_workflows_def io_defs)
  show "ws_put mem_workflows i w = (x, w') \<Longrightarrow> x = Inr () \<and> (wf_grants w' \<and> wf_workflows w') \<and> map_of (grants w') = map_of (grants w) \<and>
      set (map snd (workflows w')) = insert i {j \<in> set (map snd (workflows w)). iw_id j \<noteq> iw_id i}"
    using workflow_values [OF i, of i] wf_workflows_put [OF i, of i] g
    by (simp add: mem_workflows_def io_defs wf_grants_def) (elim conjE, hypsubst, simp)
qed


section \<open>What installing and dispatching achieve\<close>

text \<open>C36. An event is routed by the grants as they are when it arrives: the handler is given, in the order
  of the store, exactly the active workflows with an active subscription to the trigger on the
  connection whose grant is still in the store, active, for the same manifest, owner and grantee,
  and over the connector, the connection and the trigger of the event. And once a grant has been put
  into the store as anything but active (revoked, say), no dispatch hands out a workflow that was
  installed under it, although the workflow and its subscription stay active.\<close>

theorem dispatch_follows_current_grants:
  assumes "wf_grants w" "wf_workflows w" "wr_grants wr = mem_grants" "wr_store wr = mem_workflows"
  shows "dispatchEvent wr ev handler w =
     andThen (handler ev (routed ev (map_of (grants w)) (map snd (workflows w))))
       (\<lambda>_. ret (routed ev (map_of (grants w)) (map snd (workflows w)))) w \<and>
   (\<forall>g w1 w2 ws i. gs_put mem_grants g w = (Inr (), w1) \<and> gr_status g \<noteq> grant_active \<and>
      dispatchEvent wr ev handler w1 = (Inr ws, w2) \<and> i \<in> set ws \<longrightarrow> iw_triggerGrantId i \<noteq> gr_id g)"
proof (intro conjI allI impI)
  show "dispatchEvent wr ev handler w = andThen (handler ev (routed ev (map_of (grants w)) (map snd (workflows w))))
       (\<lambda>_. ret (routed ev (map_of (grants w)) (map snd (workflows w)))) w"
    by (rule memory_routing.routes [OF _ assms(3,4)]) (simp add: assms(1,2))
next
  fix g w1 w2 ws i
  assume a: "gs_put mem_grants g w = (Inr (), w1) \<and> gr_status g \<noteq> grant_active \<and>
      dispatchEvent wr ev handler w1 = (Inr ws, w2) \<and> i \<in> set ws"
  from memory_routing.put_law [of w g] a assms(1,2) have w1: "wf_grants w1 \<and> wf_workflows w1"
    "map_of (grants w1) = (map_of (grants w))(gr_id g \<mapsto> g)" by blast+
  from memory_routing.routes [OF w1(1) assms(3,4), of ev handler] a
  have "ws = routed ev (map_of (grants w1)) (map snd (workflows w1))"
    by (auto simp: io_defs split: prod.splits sum.splits)
  with a have "i \<in> set (routed ev (map_of (grants w1)) (map snd (workflows w1)))" by simp
  with a show "iw_triggerGrantId i \<noteq> gr_id g" by (auto simp: routed_def w1(2))
qed

text \<open>Identifiers of grants are joined with underscores; they tell the requirements of a manifest apart
  when these have distinct names without underscores.\<close>

definition apart_requirements :: "IntegrationManifest \<Rightarrow> bool" where
  "apart_requirements m \<longleftrightarrow> distinct (map rqm_id (man_requirements m)) \<and> (\<forall>r \<in> set (man_requirements m). CHR ''_'' \<notin> set (rqm_id r))"

lemma first_separator:
  assumes "xs @ c # ys = xs' @ c # ys'" "c \<notin> set xs" "c \<notin> set xs'"
  shows "xs = xs'"
proof -
  have tw: "takeWhile (\<lambda>d. d \<noteq> c) (us @ c # vs) = us" if "c \<notin> set us" for us vs
    using that by (induction us) auto
  from tw [OF assms(2), of ys] tw [OF assms(3), of ys'] assms(1) show ?thesis by simp
qed

lemma apart_grants:
  assumes "apart_requirements m" "createGrants rt m who grantee meta w = (Inr gs, w')" "g \<in> set gs" "h \<in> set gs" "gr_id g = gr_id h"
  shows "g = h"
proof -
  from assms(2) obtain registry conns now where gs: "gs = map (grant_for m who grantee meta now)
       (filter (\<lambda>x. rsl_status x = rs_ready) (map (\<lambda>r. resolveRequirement r who registry conns) (man_requirements m)))"
    by (rule created_grants)
  from assms(3,4) obtain r s where
    r: "r \<in> set (man_requirements m)" "g = grant_for m who grantee meta now (resolveRequirement r who registry conns)"
    and s: "s \<in> set (man_requirements m)" "h = grant_for m who grantee meta now (resolveRequirement s who registry conns)"
    unfolding gs by auto
  obtain x y where "gr_id g = ''grant_'' @ man_id m @ ''_'' @ rqm_id r @ CHR ''_'' # x" "gr_id h = ''grant_'' @ man_id m @ ''_'' @ rqm_id s @ CHR ''_'' # y"
    by (simp add: r(2) s(2) grant_for_def Let_def)
  with assms(5) have "rqm_id r @ CHR ''_'' # x = rqm_id s @ CHR ''_'' # y" by simp
  then have "rqm_id r = rqm_id s" by (rule first_separator) (use assms(1) r(1) s(1) in \<open>auto simp: apart_requirements_def\<close>)
  with assms(1) r(1) s(1) have "r = s" by (auto simp: apart_requirements_def distinct_map dest: inj_onD)
  with r(2) s(2) show ?thesis by simp
qed

lemma put_all_found:
  assumes "g \<in> set gs" "\<And>h. h \<in> set gs \<Longrightarrow> gr_id h = gr_id g \<Longrightarrow> h = g"
  shows "put_all m gs (gr_id g) = Some g"
proof -
  obtain h where h: "find (\<lambda>h. gr_id h = gr_id g) (rev gs) = Some h"
    using assms(1) by (cases "find (\<lambda>h. gr_id h = gr_id g) (rev gs)") (auto simp: find_None_all)
  from find_hit [OF h] assms(2) have "h = g" by auto
  with h show ?thesis by (simp add: put_all_apply)
qed

lemma installed:
  assumes "install wr d who grantee w = (Inr i, w')"
  obtains gs w1 g sub w2 n w3 now where
    "createGrants (wr_runtime wr) (wd_manifest d) who grantee (Some [(''workflowId'', JStr (wd_id d))]) w = (Inr gs, w1)"
    "g \<in> set gs" "gr_requirementId g = wt_requirementId (wd_trigger d)" "wt_triggerId (wd_trigger d) \<in> set (gr_allowedTriggers g)"
    "wr_subscribeTrigger wr (gr_connectionId g) (wt_triggerId (wd_trigger d)) (wt_targetUrl (wd_trigger d)) w1 = (Inr sub, w2)"
    "wr_now wr w2 = (Inr n, w3)" "i = installed_workflow d who grantee g sub now" "ws_put (wr_store wr) i w3 = (Inr (), w')"
proof -
  from assms obtain gs w1 g where a: "createGrants (wr_runtime wr) (wd_manifest d) who grantee (Some [(''workflowId'', JStr (wd_id d))]) w = (Inr gs, w1)"
    "findTriggerGrant gs (wt_requirementId (wd_trigger d)) (wt_triggerId (wd_trigger d)) = Inr g"
    by (auto simp: install_def runs)
  from a(2) have g: "g \<in> set gs" "gr_requirementId g = wt_requirementId (wd_trigger d)" "wt_triggerId (wd_trigger d) \<in> set (gr_allowedTriggers g)"
    by (auto simp: findTriggerGrant_def split: option.splits dest!: find_hit)
  from assms a obtain sub w2 n w3 now where
    "wr_subscribeTrigger wr (gr_connectionId g) (wt_triggerId (wd_trigger d)) (wt_targetUrl (wd_trigger d)) w1 = (Inr sub, w2)"
    "wr_now wr w2 = (Inr n, w3)" "i = installed_workflow d who grantee g sub now" "ws_put (wr_store wr) i w3 = (Inr (), w')"
    by (auto simp: install_def runs Let_def)
  with a(1) g that show ?thesis by blast
qed

text \<open>Effects that leave the grants and the workflows alone.\<close>

definition beside :: "('a InMemoryIntegrationWorkflowStore_scheme, exn, 'b) io \<Rightarrow> bool" where
  "beside = keeps (\<lambda>w. (grants w, workflows w))"

lemma besideD: "beside m \<Longrightarrow> m w = (r, w') \<Longrightarrow> grants w' = grants w \<and> workflows w' = workflows w"
  unfolding beside_def by (drule (1) keepsD) simp

lemma beside_grants: "beside m \<Longrightarrow> keeps grants m"
  unfolding keeps_def by (intro movesI) (metis besideD prod.collapse)

lemma put_keeps_workflows:
  "forEach (gs_put mem_grants) gs w = (x, w') \<Longrightarrow> workflows w' = workflows w"
  by (induction gs arbitrary: w) (auto simp: io_defs mem_grants_def)

lemma created_beside:
  assumes "createGrants rt m who grantee meta w = (Inr gs, w')" "rt_grants rt = mem_grants"
    and "beside (rh_listRegistry (rt_hub rt))" "beside (rh_listConnections (rt_hub rt) who)" "beside (rt_now rt)"
  shows "workflows w' = workflows w"
proof -
  from assms(1) obtain registry conns w1 w2 n w3 u where
    "rh_listRegistry (rt_hub rt) w = (Inr registry, w1)" "rh_listConnections (rt_hub rt) who w1 = (Inr conns, w2)"
    "rt_now rt w2 = (Inr n, w3)" and p: "forEach (gs_put (rt_grants rt)) gs w3 = (Inr u, w')"
    by (rule created_grants)
  then have "workflows w3 = workflows w" using assms(3-5) by (metis besideD)
  with put_keeps_workflows [OF p [unfolded assms(2)]] show ?thesis by simp
qed

text \<open>A workflow that was installed is reached: once \<open>install\<close> has returned it, an event of its trigger
  on the connection of its grant, attributed to the connector of the grant, is handed on with the
  workflow among those it is for. This needs a provider that subscribes to what it was asked to, and
  a manifest whose grant identifiers do not run into each other.\<close>

theorem installed_workflow_is_reached:
  assumes "install wr d who grantee w = (Inr i, w')" "wf_grants w" "wf_workflows w" "apart_requirements (wd_manifest d)"
    and "wr_grants wr = mem_grants" "rt_grants (wr_runtime wr) = mem_grants" "wr_store wr = mem_workflows"
    and "beside (rh_listRegistry (rt_hub (wr_runtime wr)))" "beside (rh_listConnections (rt_hub (wr_runtime wr)) who)"
    and "beside (rt_now (wr_runtime wr))" "beside (wr_now wr)"
    and "\<forall>c t u. beside (wr_subscribeTrigger wr c t u) \<and> (\<forall>v sub v'. wr_subscribeTrigger wr c t u v = (Inr sub, v') \<longrightarrow>
           ts_connectionId sub = c \<and> ts_trigger sub = t \<and> ts_status sub = ts_active)"
    and "te_trigger ev = wt_triggerId (wd_trigger d)"
  shows "\<exists>g ws. map_of (grants w') (iw_triggerGrantId i) = Some g \<and> gr_owner g = who \<and> gr_grantee g = grantee \<and>
     (te_connectionId ev = gr_connectionId g \<and> te_connectorId ev = gr_connectorId g \<longrightarrow> i \<in> set ws) \<and>
     dispatchEvent wr ev handler w' = andThen (handler ev ws) (\<lambda>_. ret ws) w'"
proof -
  from assms(1) obtain gs w1 g sub w2 n w3 now where
    c: "createGrants (wr_runtime wr) (wd_manifest d) who grantee (Some [(''workflowId'', JStr (wd_id d))]) w = (Inr gs, w1)"
    and g: "g \<in> set gs" "wt_triggerId (wd_trigger d) \<in> set (gr_allowedTriggers g)"
    and s: "wr_subscribeTrigger wr (gr_connectionId g) (wt_triggerId (wd_trigger d)) (wt_targetUrl (wd_trigger d)) w1 = (Inr sub, w2)"
    and n: "wr_now wr w2 = (Inr n, w3)" and i: "i = installed_workflow d who grantee g sub now"
    and p: "ws_put (wr_store wr) i w3 = (Inr (), w')"
    by (rule installed)
  have table: "wf_grants w1" "map_of (grants w1) = put_all (map_of (grants w)) gs"
    using keyed [OF assms(2,6) c] assms(8-10) by (blast intro: beside_grants)+
  have "wf_workflows w1" using created_beside [OF c assms(6,8,9,10)] assms(3) by (simp add: wf_workflows_def)
  moreover have same: "grants w3 = grants w1 \<and> workflows w3 = workflows w1"
    using besideD [where m = "wr_subscribeTrigger wr c t u" for c t u, OF _ s] besideD [where m = "wr_now wr", OF assms(11) n] assms(12) by simp
  ultimately have wf: "wf_grants w3 \<and> wf_workflows w3" using table(1) by (simp add: wf_grants_def wf_workflows_def)
  from memory_routing.workflow_law [OF wf p [unfolded assms(7)]]
  have after: "wf_grants w'" "wf_workflows w'" "map_of (grants w') = map_of (grants w1)" "i \<in> set (map snd (workflows w'))"
    using same by auto
  have found: "map_of (grants w') (gr_id g) = Some g"
    unfolding after(3) table(2) by (rule put_all_found [OF g(1)]) (use apart_grants [OF assms(4) c] g(1) in blast)
  have grant: "gr_manifestId g = man_id (wd_manifest d)" "gr_owner g = who" "gr_grantee g = grantee" "gr_status g = grant_active"
    using granted_scopes [OF c g(1)] by (metis)+
  have sub: "ts_connectionId sub = gr_connectionId g" "ts_trigger sub = wt_triggerId (wd_trigger d)" "ts_status sub = ts_active"
    using assms(12) s by blast+
  have row: "iw_triggerGrantId i = gr_id g" "iw_subscription i = sub" "iw_status i = wf_active" "iw_owner i = who" "iw_grantee i = grantee"
    "iw_manifestId i = man_id (wd_manifest d)" by (simp_all add: i installed_workflow_def)
  have "i \<in> set (routed ev (map_of (grants w')) (map snd (workflows w')))"
    if "te_connectionId ev = gr_connectionId g" "te_connectorId ev = gr_connectorId g"
    using that after(4) found grant g(2) assms(13)
    by (simp add: routed_code subscribed_def covers_def row sub sameActor_def)
  moreover note row(1)
  moreover note memory_routing.routes [OF _ assms(5,7), of w' ev handler] after(1,2) found grant
  ultimately show ?thesis by (intro exI [of _ g] exI) auto
qed

section \<open>A workflow at work\<close>

definition wx_connector :: IntegrationConnector where
  "wx_connector = \<lparr>con_id = ''mail'', con_providerId = ''p1'', con_title = ''Mail'', con_category = cat_other, con_auth = auth_api_key,
     con_scopes = [''send''], con_actions = [gx_action],
     con_triggers = Some [\<lparr>trg_id = ''arrived'', trg_title = ''Arrived'', trg_requiredScopes = [''send''], trg_dataClass = dc_private,
       trg_description = None, trg_payloadSchema = None\<rparr>], con_metadata = None\<rparr>"

definition wx_registry :: IntegrationRegistry where
  "wx_registry = (let e = \<lparr>ent_canonicalId = ''mail'', ent_connector = wx_connector, ent_aliases = [], ent_supportTier = gatewayExecutable,
       ent_sources = [], ent_conflicts = []\<rparr> in
     \<lparr>reg_entries = [e], reg_connectors = [wx_connector], reg_byId = [''mail'' \<mapsto> e]\<rparr>)"

definition wx_runtime :: "InMemoryIntegrationWorkflowStore IntegrationRuntime" where
  "wx_runtime = newRuntime gx_dates \<lparr>rh_listRegistry = ret wx_registry, rh_listConnections = connection_listByOwner,
     rh_getConnection = connection_get, rh_issueCapability = (\<lambda>_. throw (Error []))\<rparr> None mem_grants date_now"

definition wx_subscribe :: "string \<Rightarrow> string \<Rightarrow> string option \<Rightarrow> (InMemoryIntegrationWorkflowStore, exn, IntegrationTriggerSubscription) io" where
  "wx_subscribe c t u = ret \<lparr>ts_id = ''s1'', ts_connectionId = c, ts_trigger = t, ts_targetUrl = u, ts_status = ts_active,
     ts_createdAt = [], ts_metadata = None\<rparr>"

definition wx_workflows :: "InMemoryIntegrationWorkflowStore IntegrationWorkflowRuntime" where
  "wx_workflows = newWorkflowRuntime wx_runtime wx_subscribe mem_grants None mem_workflows date_now"

definition wx_world :: "(string \<times> IntegrationGrant) list \<Rightarrow> (string \<times> InstalledIntegrationWorkflow) list \<Rightarrow> nat \<Rightarrow> InMemoryIntegrationWorkflowStore" where
  "wx_world gs is n = \<lparr>clock = (\<lambda>n. 1000 * int n), clock_reads = n, uuids = (\<lambda>n. decimal n), uuids_drawn = 0,
     audit_events = [], results = Map.empty, approvals = [], oauth_states = Map.empty,
     connections = [(''c1'', gx_connection)], grants = gs, workflows = is\<rparr>"

definition wx_definition :: IntegrationWorkflowDefinition where
  "wx_definition = \<lparr>wd_id = ''f1'', wd_title = None, wd_manifest = \<lparr>man_id = ''m1'', man_title = None, man_owner = None,
     man_requirements = [\<lparr>rqm_id = ''r1'', rqm_connectorId = ''mail'', rqm_reason = [], rqm_mode = mode_trigger,
       rqm_requiredActions = None, rqm_requiredTriggers = None, rqm_requiredScopes = None, rqm_optional = None\<rparr>],
     man_metadata = None\<rparr>, wd_trigger = \<lparr>wt_requirementId = ''r1'', wt_triggerId = ''arrived'', wt_targetUrl = None\<rparr>, wd_metadata = None\<rparr>"

definition wx_grant :: IntegrationGrant where
  "wx_grant = \<lparr>gr_id = ''grant_m1_r1_c1'', gr_manifestId = ''m1'', gr_requirementId = ''r1'', gr_owner = gx_actor, gr_grantee = tx_agent ''a1'',
     gr_connectionId = ''c1'', gr_connectorId = ''mail'', gr_scopes = [''send''], gr_allowedActions = [],
     gr_allowedTriggers = [''arrived''], gr_status = grant_active, gr_createdAt = int_text 0, gr_updatedAt = int_text 0,
     gr_metadata = Some [(''workflowId'', JStr ''f1'')]\<rparr>"

definition wx_installed :: InstalledIntegrationWorkflow where
  "wx_installed = \<lparr>iw_id = ''workflow_f1_grant_m1_r1_c1'', iw_workflowId = ''f1'', iw_manifestId = ''m1'', iw_owner = gx_actor,
     iw_grantee = tx_agent ''a1'', iw_triggerGrantId = ''grant_m1_r1_c1'',
     iw_subscription = \<lparr>ts_id = ''s1'', ts_connectionId = ''c1'', ts_trigger = ''arrived'', ts_targetUrl = None, ts_status = ts_active,
       ts_createdAt = [], ts_metadata = None\<rparr>, iw_status = wf_active, iw_createdAt = int_text 1000, iw_metadata = None\<rparr>"

definition wx_event :: IntegrationTriggerEvent where
  "wx_event = \<lparr>te_id = ''e1'', te_providerId = ''p1'', te_connectorId = ''mail'', te_connectionId = ''c1'', te_trigger = ''arrived'',
     te_occurredAt = [], te_payload = JNull, te_metadata = None\<rparr>"

lemma wx_grants: "createGrants wx_runtime (wd_manifest wx_definition) gx_actor (tx_agent ''a1'') (Some [(''workflowId'', JStr ''f1'')]) (wx_world [] [] 0) =
    (Inr [wx_grant], wx_world [(''grant_m1_r1_c1'', wx_grant)] [] (Suc 0))"
proof -
  let ?r = "\<lparr>rqm_id = ''r1'', rqm_connectorId = ''mail'', rqm_reason = [], rqm_mode = mode_trigger,
       rqm_requiredActions = None, rqm_requiredTriggers = None, rqm_requiredScopes = None, rqm_optional = None\<rparr>"
  have need: "requiredActions ?r wx_connector = []" "requiredTriggers ?r wx_connector = [''arrived'']" "requiredScopes ?r wx_connector = [''send'']"
    by (simp_all add: requiredActions_def requiredTriggers_def requiredScopes_def non_empty_def wx_connector_def)
  have res: "resolveRequirement ?r gx_actor wx_registry [gx_connection] = \<lparr>rsl_requirement = ?r, rsl_status = rs_ready,
      rsl_connector = Some wx_connector, rsl_registryEntry = reg_byId wx_registry ''mail'', rsl_connection = Some gx_connection,
      rsl_missingScopes = [], rsl_missingActions = [], rsl_missingTriggers = [], rsl_message = ''Mail is ready.''\<rparr>"
    by (simp add: resolveRequirement_def wx_registry_def Let_def need usable_def sameActor_def)
      (simp add: wx_connector_def gx_connection_def)
  have list: "connection_listByOwner gx_actor (wx_world [] [] 0) = (Inr [gx_connection], wx_world [] [] 0)"
    by (simp add: io_defs wx_world_def sameActor_def gx_connection_def)
  have time: "date_now (wx_world [] [] 0) = (Inr 0, wx_world [] [] (Suc 0))" "toISO gx_dates 0 = Inr (int_text 0)"
    by (simp_all add: date_now_def wx_world_def toISO_def gx_dates_def max_date_def)
  have grant: "grant_for (wd_manifest wx_definition) gx_actor (tx_agent ''a1'') (Some [(''workflowId'', JStr ''f1'')]) (int_text 0)
      (resolveRequirement ?r gx_actor wx_registry [gx_connection]) = wx_grant"
    unfolding res by (simp add: grant_for_def Let_def need wx_grant_def) (simp add: wx_definition_def wx_connector_def gx_connection_def)
  have put: "forEach (gs_put mem_grants) [wx_grant] (wx_world [] [] (Suc 0)) = (Inr (), wx_world [(''grant_m1_r1_c1'', wx_grant)] [] (Suc 0))"
    by (simp add: io_defs mem_grants_def wx_world_def) (simp add: wx_grant_def)
  have reqs: "man_requirements (wd_manifest wx_definition) = [?r]" by (simp add: wx_definition_def)
  have ready: "rsl_status (resolveRequirement ?r gx_actor wx_registry [gx_connection]) = rs_ready" by (simp add: res)
  show ?thesis
    by (simp add: createGrants_def resolveManifest_def wx_runtime_def newRuntime_def andThen_def ret_def liftE_def list time
      reqs ready grant put Let_def del: forEach.simps)
qed

lemma wx_install: "install wx_workflows wx_definition gx_actor (tx_agent ''a1'') (wx_world [] [] 0) =
    (Inr wx_installed, wx_world [(''grant_m1_r1_c1'', wx_grant)] [(''workflow_f1_grant_m1_r1_c1'', wx_installed)] 2)"
proof -
  have trig: "findTriggerGrant [wx_grant] ''r1'' ''arrived'' = Inr wx_grant" by (simp add: findTriggerGrant_def wx_grant_def)
  have time: "date_now (wx_world gs is (Suc 0)) = (Inr 1000, wx_world gs is 2)" "toISO gx_dates 1000 = Inr (int_text 1000)" for gs "is"
    by (simp_all add: date_now_def wx_world_def toISO_def gx_dates_def max_date_def)
  have row: "installed_workflow wx_definition gx_actor (tx_agent ''a1'') wx_grant
     \<lparr>ts_id = ''s1'', ts_connectionId = ''c1'', ts_trigger = ''arrived'', ts_targetUrl = None, ts_status = ts_active,
       ts_createdAt = [], ts_metadata = None\<rparr> (int_text 1000) = wx_installed"
    by (simp add: installed_workflow_def wx_installed_def) (simp add: wx_definition_def wx_grant_def)
  have put: "workflow_put wx_installed (wx_world gs [] 2) = (Inr (), wx_world gs [(''workflow_f1_grant_m1_r1_c1'', wx_installed)] 2)" for gs
    by (simp add: io_defs wx_world_def) (simp add: wx_installed_def)
  have parts: "wd_id wx_definition = ''f1''" "wd_trigger wx_definition = \<lparr>wt_requirementId = ''r1'', wt_triggerId = ''arrived'', wt_targetUrl = None\<rparr>"
    "gr_connectionId wx_grant = ''c1''" by (simp_all add: wx_definition_def wx_grant_def)
  have dates: "rt_dates wx_runtime = gx_dates" by (simp add: wx_runtime_def newRuntime_def)
  show ?thesis
    by (simp add: install_def wx_workflows_def newWorkflowRuntime_def andThen_def parts wx_grants trig wx_subscribe_def ret_def liftE_def
      time dates row mem_workflows_def put Let_def)
qed

lemma wx_wf: "wf_grants (wx_world [] [] n)" "wf_workflows (wx_world [] [] n)"
  "wf_grants (wx_world [(''grant_m1_r1_c1'', wx_grant)] [(''workflow_f1_grant_m1_r1_c1'', wx_installed)] n)"
  "wf_workflows (wx_world [(''grant_m1_r1_c1'', wx_grant)] [(''workflow_f1_grant_m1_r1_c1'', wx_installed)] n)"
  by (simp_all add: wf_grants_def wf_workflows_def wx_world_def wx_grant_def wx_installed_def)

lemma wx_parts: "wr_grants wx_workflows = mem_grants" "wr_store wx_workflows = mem_workflows" "wr_runtime wx_workflows = wx_runtime"
  "rt_grants wx_runtime = mem_grants" "wr_now wx_workflows = date_now" "wr_subscribeTrigger wx_workflows = wx_subscribe"
  "rh_listRegistry (rt_hub wx_runtime) = ret wx_registry" "rh_listConnections (rt_hub wx_runtime) = connection_listByOwner"
  "rt_now wx_runtime = date_now"
  by (simp_all add: wx_workflows_def newWorkflowRuntime_def wx_runtime_def newRuntime_def)

lemma wx_beside: "beside date_now" "beside (connection_listByOwner who)" "beside (ret x)" "beside (wx_subscribe c t u)"
  by (simp_all add: beside_def keeps_def moves_def io_defs wx_subscribe_def)

lemma wx_routed: "routed wx_event (map_of [(''grant_m1_r1_c1'', wx_grant\<lparr>gr_status := st\<rparr>)]) [wx_installed] =
    (if st = grant_active then [wx_installed] else [])"
  by (simp add: routed_def wx_installed_def wx_event_def wx_grant_def)

theorem dispatch_follows_current_grants_witness:
  "dispatchEvent wx_workflows wx_event (\<lambda>_ _. ret ()) (wx_world [(''grant_m1_r1_c1'', wx_grant\<lparr>gr_status := grant_revoked\<rparr>)]
       [(''workflow_f1_grant_m1_r1_c1'', wx_installed)] 2) =
     (Inr [], wx_world [(''grant_m1_r1_c1'', wx_grant\<lparr>gr_status := grant_revoked\<rparr>)] [(''workflow_f1_grant_m1_r1_c1'', wx_installed)] 2) \<and>
   dispatchEvent wx_workflows wx_event (\<lambda>_ _. ret ()) (wx_world [(''grant_m1_r1_c1'', wx_grant)] [(''workflow_f1_grant_m1_r1_c1'', wx_installed)] 2) =
     (Inr [wx_installed], wx_world [(''grant_m1_r1_c1'', wx_grant)] [(''workflow_f1_grant_m1_r1_c1'', wx_installed)] 2)"
proof -
  let ?w = "\<lambda>st. wx_world [(''grant_m1_r1_c1'', wx_grant\<lparr>gr_status := st\<rparr>)] [(''workflow_f1_grant_m1_r1_c1'', wx_installed)] 2"
  have wf: "wf_grants (?w st)" "wf_workflows (?w st)" for st
    by (simp_all add: wf_grants_def wf_workflows_def wx_world_def wx_grant_def wx_installed_def)
  have run: "dispatchEvent wx_workflows wx_event (\<lambda>_ _. ret ()) (?w st) = (Inr (if st = grant_active then [wx_installed] else []), ?w st)" for st
    using dispatch_follows_current_grants [OF wf wx_parts(1,2), of wx_event "\<lambda>_ _. ret ()"] wx_routed [of st]
    by (simp add: wx_world_def ret_def)
  have "wx_grant\<lparr>gr_status := grant_active\<rparr> = wx_grant" by (simp add: wx_grant_def)
  with run [of grant_active] run [of grant_revoked] show ?thesis by simp
qed

theorem installed_workflow_is_reached_witness:
  "\<exists>w' ws. install wx_workflows wx_definition gx_actor (tx_agent ''a1'') (wx_world [] [] 0) = (Inr wx_installed, w') \<and>
     wx_installed \<in> set ws \<and> dispatchEvent wx_workflows wx_event (\<lambda>_ _. ret ()) w' = (Inr ws, w')"
proof -
  let ?w' = "wx_world [(''grant_m1_r1_c1'', wx_grant)] [(''workflow_f1_grant_m1_r1_c1'', wx_installed)] 2"
  have apart_requirements: "apart_requirements (wd_manifest wx_definition)" by (simp add: apart_requirements_def wx_definition_def)
  have sub: "\<forall>c t u. beside (wr_subscribeTrigger wx_workflows c t u) \<and> (\<forall>v sub v'. wr_subscribeTrigger wx_workflows c t u v = (Inr sub, v') \<longrightarrow>
           ts_connectionId sub = c \<and> ts_trigger sub = t \<and> ts_status sub = ts_active)"
    unfolding wx_parts by (auto simp: wx_beside) (auto simp: wx_subscribe_def ret_def)
  have trig: "te_trigger wx_event = wt_triggerId (wd_trigger wx_definition)" by (simp add: wx_event_def wx_definition_def)
  obtain g ws where g: "map_of (grants ?w') (iw_triggerGrantId wx_installed) = Some g"
    "te_connectionId wx_event = gr_connectionId g \<and> te_connectorId wx_event = gr_connectorId g \<longrightarrow> wx_installed \<in> set ws"
    "dispatchEvent wx_workflows wx_event (\<lambda>_ _. ret ()) ?w' = andThen (ret ()) (\<lambda>_. ret ws) ?w'"
    using installed_workflow_is_reached [OF wx_install wx_wf(1,2) apart_requirements wx_parts(1) _ wx_parts(2) _ _ _ _ sub trig, of "\<lambda>_ _. ret ()"]
    unfolding wx_parts by (auto simp: wx_beside)
  have "g = wx_grant" using g(1) by (simp add: wx_world_def wx_installed_def)
  with g(2) have "wx_installed \<in> set ws" by (simp add: wx_grant_def wx_event_def)
  with g(3) wx_install show ?thesis by (auto simp: ret_def)
qed

end
