(* ===== verification/Connectors.thy ===== *)
theory Connectors
  imports Workflow
begin

text \<open>
  The contract of a connector, \<open>connectors/types.ts\<close>: data sources and their credentials, what a
  call of a capability takes and gives, the adapter interface, the manifest of a connector and
  its validation. What the validation checks at run time although the type of the code already
  fixes it (consistency models, the PKCE mode, the authentication method of the token endpoint)
  is text here, so that the checks have something to refuse.
\<close>

section \<open>Data sources and calls\<close>

datatype CASStrategy = etag_if_match | native_idempotency | optimistic_read_verify | cas_none

datatype ConnectorCredentials =
  OAuth2Credentials string "string option" "int option"
| ApiKeyCredentials string
| CustomCredentials metadata
| HmacCredentials string
| NoCredentials

datatype source_status = source_active | source_revoked | source_error

record ResolvedDataSource =
  ds_id :: string
  ds_projectId :: string
  ds_publishedAgentId :: "string option"
  ds_kind :: string
  ds_label :: string
  ds_consistencyModel :: string
  ds_scopes :: "string list"
  ds_metadata :: metadata
  ds_credentials :: ConnectorCredentials
  ds_status :: source_status

record CapabilityReadResult =
  rr_data :: json
  rr_etag :: "string option"
  rr_fetchedAt :: int

datatype CapabilityMutationResult =
  Committed json "string option" int bool
| Conflict "json list" "json option" string
| RateLimited int string

record 'w ConnectorInvocation =
  inv_source :: ResolvedDataSource
  inv_capabilityName :: string
  inv_args :: metadata
  inv_idempotencyKey :: string
  inv_expectedEtag :: "string option"
  inv_callSessionId :: "string option"
  inv_onCredentialsRotated :: "(ConnectorCredentials \<Rightarrow> ('w, exn, unit) io) option"

record InboundEvent =
  ie_eventType :: string
  ie_providerEventId :: "string option"
  ie_payload :: metadata

text \<open>A body that is \<open>undefined\<close> or \<open>null\<close> is \<open>None\<close>.\<close>

record handler_response =
  hr_status :: int
  hr_body :: "json option"
  hr_headers :: "(string \<times> string) list option"

record EventHandlerResult =
  eh_events :: "InboundEvent list"
  eh_response :: "handler_response option"

section \<open>Manifests\<close>

datatype capability_class =
  ReadCapability
| MutationCapability "CASStrategy option" bool

record Capability =
  cb_name :: string
  cb_class :: capability_class
  cb_description :: string
  cb_parameters :: metadata
  cb_consistencyModel :: "string option"
  cb_requiredScopes :: "string list option"
  cb_inputPreview :: "IntegrationInputPreview option"

datatype TokenMetadataSource = TokenField string | TokenFieldRequired string "bool option"

datatype OAuth2UrlTemplateMetadataSpec =
  DnsLabelSpec "string option" "(string \<times> string) option"
| BaseUrlSpec "string list option" "string list option" "bool option"
| PathSegmentSpec
| UnsupportedSpec string

datatype oauth_grant_type = authorization_code | client_credentials

record OAuth2AuthSpec =
  oa_grantType :: "oauth_grant_type option"
  oa_authorizationUrl :: "string option"
  oa_tokenUrl :: string
  oa_scopes :: "string list"
  oa_scopeSeparator :: "string option"
  oa_pkce :: "string option"
  oa_authorizationClientIdParam :: "string option"
  oa_incremental :: "bool option"
  oa_clientIdEnv :: string
  oa_clientSecretEnv :: "string option"
  oa_tokenClientIdParam :: "string option"
  oa_tokenClientSecretParam :: "string option"
  oa_tokenClientAuthMethod :: "string option"
  oa_extraAuthParams :: "(string \<times> string) list option"
  oa_urlTemplateMetadata :: "(string \<times> OAuth2UrlTemplateMetadataSpec) list option"
  oa_tokenRequestHeaders :: "(string \<times> string) list option"
  oa_sendScopeParam :: "bool option"
  oa_tokenMetadata :: "(string \<times> TokenMetadataSource) list option"

datatype SingleAuthSpec = OAuth2Auth OAuth2AuthSpec | ApiKeyAuth string | HmacAuth | NoAuth

datatype AuthSpec = SingleAuth SingleAuthSpec | OneOfAuth string "SingleAuthSpec list"

record RateLimitSpec =
  rl_requests :: js_number
  rl_windowMs :: js_number
  rl_scope :: "string option"

record ConnectorManifest =
  mf_kind :: string
  mf_displayName :: string
  mf_description :: string
  mf_auth :: AuthSpec
  mf_capabilities :: "Capability list"
  mf_defaultConsistencyModel :: string
  mf_category :: string
  mf_icon :: "string option"
  mf_rateLimit :: "RateLimitSpec option"

section \<open>Adapters\<close>

datatype adapter_header = HeaderValue string | HeaderValues "string list"

type_synonym adapter_headers = "(string \<times> adapter_header option) list"

record signature_result =
  sg_valid :: bool
  sg_reason :: "string option"

record exchange_input =
  xi_code :: string
  xi_state :: string
  xi_codeVerifier :: "string option"
  xi_redirectUri :: string

record exchange_result =
  xr_credentials :: ConnectorCredentials
  xr_scopes :: "string list"
  xr_metadata :: metadata

datatype test_result = TestOk | TestFailed string

record 'w ConnectorAdapter =
  ad_manifest :: ConnectorManifest
  ad_validateConnectionMetadata :: "(metadata \<Rightarrow> metadata option) option"
  ad_inboundOnly :: "bool option"
  ad_catalogOnly :: "bool option"
  ad_executeRead :: "('w ConnectorInvocation \<Rightarrow> ('w, exn, CapabilityReadResult) io) option"
  ad_executeMutation :: "('w ConnectorInvocation \<Rightarrow> ('w, exn, CapabilityMutationResult) io) option"
  ad_verifySignature :: "(string \<Rightarrow> adapter_headers \<Rightarrow> ResolvedDataSource \<Rightarrow> exn + signature_result) option"
  ad_handleInboundEvent :: "(ResolvedDataSource \<Rightarrow> string \<Rightarrow> adapter_headers \<Rightarrow> ('w, exn, EventHandlerResult) io) option"
  ad_exchangeOAuth :: "(exchange_input \<Rightarrow> ('w, exn, exchange_result) io) option"
  ad_refreshToken :: "(ConnectorCredentials \<Rightarrow> ('w, exn, ConnectorCredentials) io) option"
  ad_test :: "ResolvedDataSource \<Rightarrow> (ConnectorCredentials \<Rightarrow> ('w, exn, unit) io) option \<Rightarrow> ('w, exn, test_result) io"

section \<open>Validation of a manifest\<close>

record ConnectorManifestValidationIssue =
  iss_path :: string
  iss_message :: string

definition issue :: "string \<Rightarrow> string \<Rightarrow> ConnectorManifestValidationIssue" where
  "issue p m = \<lparr>iss_path = p, iss_message = m\<rparr>"

definition issue_if :: "bool \<Rightarrow> string \<Rightarrow> string \<Rightarrow> ConnectorManifestValidationIssue list" where
  "issue_if b p m = (if b then [issue p m] else [])"

text \<open>\<open>s.indexOf(pat, cursor)\<close>.\<close>

definition at_index :: "string \<Rightarrow> nat \<Rightarrow> string \<Rightarrow> bool" where
  "at_index s i pat \<longleftrightarrow> take (length pat) (drop i s) = pat \<and> i + length pat \<le> length s"

definition index_of :: "string \<Rightarrow> string \<Rightarrow> nat \<Rightarrow> nat option" where
  "index_of s pat cursor = find (\<lambda>i. at_index s i pat) [cursor ..< Suc (length s)]"

definition contains :: "string \<Rightarrow> string \<Rightarrow> bool" where
  "contains s pat \<longleftrightarrow> index_of s pat 0 \<noteq> None"

text \<open>\<open>{key}\<close>, and the conditions an occurrence of it at \<open>i\<close> has to meet.\<close>

definition placeholder :: "string \<Rightarrow> string" where
  "placeholder key = CHR ''{'' # key @ ''}''"

definition root_end :: "string \<Rightarrow> nat" where
  "root_end t = (case index_of t ''://'' 0 of
       Some i \<Rightarrow> i + 3
     | None \<Rightarrow> if t \<noteq> [] \<and> hd t = CHR ''{'' then (case index_of t ''}'' 0 of Some i \<Rightarrow> i + 1 | None \<Rightarrow> 0) else 0)"

definition query_start :: "string \<Rightarrow> nat option" where
  "query_start t = find (\<lambda>i. t ! i = CHR ''?'' \<or> t ! i = CHR ''#'') [0 ..< length t]"

definition whole_segment :: "string \<Rightarrow> string \<Rightarrow> nat \<Rightarrow> bool" where
  "whole_segment t key i =
     (let e = i + length (placeholder key) in
      (case index_of t ''/'' (root_end t) of None \<Rightarrow> False | Some p \<Rightarrow> p \<le> i) \<and>
      (case query_start t of None \<Rightarrow> True | Some q \<Rightarrow> i < q) \<and>
      0 < i \<and> t ! (i - 1) = CHR ''/'' \<and>
      (length t \<le> e \<or> t ! e = CHR ''/'' \<or> t ! e = CHR ''?'' \<or> t ! e = CHR ''#''))"

function placeholder_loop :: "string \<Rightarrow> string \<Rightarrow> nat \<Rightarrow> bool" where
  "placeholder_loop t key cursor =
     (case index_of t (placeholder key) cursor of
        None \<Rightarrow> True
      | Some i \<Rightarrow> if \<not> whole_segment t key i then False else placeholder_loop t key (i + length (placeholder key)))"
  by pat_completeness auto

lemma index_of_Some: "index_of s pat c = Some i \<Longrightarrow> c \<le> i \<and> at_index s i pat \<and> (\<forall>j. c \<le> j \<and> j < i \<longrightarrow> \<not> at_index s j pat)"
proof -
  assume "index_of s pat c = Some i"
  then obtain n where n: "n < length [c ..< Suc (length s)]" "at_index s ([c ..< Suc (length s)] ! n) pat"
    "[c ..< Suc (length s)] ! n = i" "\<forall>j<n. \<not> at_index s ([c ..< Suc (length s)] ! j) pat"
    unfolding index_of_def by (auto simp: find_Some_iff)
  then have "i = c + n" by (simp add: nth_append del: upt_Suc)
  moreover have "\<not> at_index s j pat" if "c \<le> j" "j < i" for j
    using n(4) that \<open>i = c + n\<close> n(1) by (auto simp del: upt_Suc dest!: spec [of _ "j - c"])
  ultimately show ?thesis using n(2,3) by auto
qed

lemma index_of_None: "index_of s pat c = None \<Longrightarrow> c \<le> i \<Longrightarrow> \<not> at_index s i pat"
  by (auto simp: index_of_def find_None_iff at_index_def)

termination placeholder_loop
  by (relation "measure (\<lambda>(t, key, c). Suc (length t) - c)")
    (auto dest!: index_of_Some simp: at_index_def placeholder_def)

declare placeholder_loop.simps [simp del]

definition isOAuthPathSegmentPlaceholder :: "string \<Rightarrow> string \<Rightarrow> bool" where
  "isOAuthPathSegmentPlaceholder t key = placeholder_loop t key 0"

definition dotted :: "string \<Rightarrow> string \<Rightarrow> string" where
  "dotted p q = p @ CHR ''.'' # q"

text \<open>The pattern of a host name suffix: a dot, then letters, digits, dots and hyphens, at least one.\<close>

definition suffix_pattern :: "string \<Rightarrow> bool" where
  "suffix_pattern s \<longleftrightarrow> 2 \<le> length s \<and> hd s = CHR ''.'' \<and> list_all (\<lambda>c. is_alnum c \<or> c = CHR ''.'' \<or> c = CHR ''-'') (tl s)"

definition endpoints :: "OAuth2AuthSpec \<Rightarrow> string list" where
  "endpoints a = (case oa_authorizationUrl a of None \<Rightarrow> [oa_tokenUrl a] | Some u \<Rightarrow> [u, oa_tokenUrl a])"

fun url_metadata_issues :: "OAuth2AuthSpec \<Rightarrow> string \<Rightarrow> string \<times> OAuth2UrlTemplateMetadataSpec \<Rightarrow> ConnectorManifestValidationIssue list" where
  "url_metadata_issues a path (key, UnsupportedSpec kind) =
     [issue (dotted (dotted (dotted path ''urlTemplateMetadata'') key) ''kind'') ''OAuth URL metadata kind must be base-url, path-segment, or dns-label'']"
| "url_metadata_issues a path (key, spec) =
     (let here = dotted (dotted path ''urlTemplateMetadata'') key in
      issue_if (\<not> list_ex (\<lambda>u. contains u (placeholder key)) (endpoints a)) here
        (''OAuth URL metadata is unused; add '' @ placeholder key @ '' to an OAuth endpoint'') @
      (case spec of
         BaseUrlSpec urls suffixes public \<Rightarrow>
           issue_if (public \<noteq> Some True \<and> \<not> non_empty urls \<and> \<not> non_empty suffixes) here
             ''OAuth base URL metadata requires an allowlist or public HTTPS policy'' @
           concat (map (\<lambda>s. issue_if (\<not> suffix_pattern s) (dotted here ''allowedBaseUrlSuffixes'')
             ''OAuth base URL hostname suffixes must start with a dot'') (nullish suffixes []))
       | PathSegmentSpec \<Rightarrow>
           concat (map (\<lambda>u. issue_if (contains u (placeholder key) \<and> \<not> isOAuthPathSegmentPlaceholder u key) here
             (''OAuth path metadata '' @ placeholder key @ '' must occupy a complete URL path segment'')) (endpoints a))
       | _ \<Rightarrow> []))"

definition validateOAuth2AuthSpec :: "OAuth2AuthSpec \<Rightarrow> string \<Rightarrow> ConnectorManifestValidationIssue list" where
  "validateOAuth2AuthSpec a path =
     issue_if (nullish (oa_grantType a) authorization_code = authorization_code \<and> trim (nullish (oa_authorizationUrl a) []) = [])
       (dotted path ''authorizationUrl'') ''authorization_code grant requires authorizationUrl'' @
     issue_if (oa_pkce a \<notin> {None, Some ''required'', Some ''supported'', Some ''unsupported''})
       (dotted path ''pkce'') ''pkce must be required, supported, or unsupported'' @
     concat (map (url_metadata_issues a path) (nullish (oa_urlTemplateMetadata a) [])) @
     issue_if (oa_tokenClientAuthMethod a \<notin> {None, Some ''none'', Some ''client_secret_post'', Some ''client_secret_basic''})
       (dotted path ''tokenClientAuthMethod'') ''tokenClientAuthMethod must be none, client_secret_post, or client_secret_basic'' @
     issue_if (nullish (oa_tokenClientAuthMethod a) ''client_secret_post'' \<noteq> ''none'' \<and> trim (nullish (oa_clientSecretEnv a) []) = [])
       (dotted path ''clientSecretEnv'') ''confidential OAuth clients require clientSecretEnv'' @
     concat (map (\<lambda>(h, _). issue_if (map to_lower h \<in> {''authorization'', ''content-type''})
       (dotted (dotted path ''tokenRequestHeaders'') h) ''tokenRequestHeaders cannot override Authorization or Content-Type'')
       (nullish (oa_tokenRequestHeaders a) []))"

fun auth_kind :: "SingleAuthSpec \<Rightarrow> string" where
  "auth_kind (OAuth2Auth _) = ''oauth2''"
| "auth_kind (ApiKeyAuth _) = ''api-key''"
| "auth_kind HmacAuth = ''hmac''"
| "auth_kind NoAuth = ''none''"

definition indexed :: "string \<Rightarrow> nat \<Rightarrow> string" where
  "indexed p i = p @ ''['' @ decimal i @ '']''"

fun validateAuthSpec :: "AuthSpec \<Rightarrow> ConnectorManifestValidationIssue list" where
  "validateAuthSpec (SingleAuth (OAuth2Auth a)) = validateOAuth2AuthSpec a ''auth''"
| "validateAuthSpec (SingleAuth _) = []"
| "validateAuthSpec (OneOfAuth preferred options) =
     issue_if (length options < 2) ''auth.options'' ''one_of auth must declare at least two options'' @
     issue_if (preferred \<notin> auth_kind ` set options) ''auth.preferred'' ''one_of preferred auth must match an option kind'' @
     concat (map (\<lambda>(i, x). case x of OAuth2Auth a \<Rightarrow> validateOAuth2AuthSpec a (indexed ''auth.options'' i) | _ \<Rightarrow> [])
       (zip [0 ..< length options] options))"

definition consistencyModels :: "string list" where
  "consistencyModels = [''authoritative'', ''cache'', ''advisory'']"

definition mutation_issues :: "ConnectorManifest \<Rightarrow> Capability \<Rightarrow> string \<Rightarrow> ConnectorManifestValidationIssue list" where
  "mutation_issues m c path = (case cb_class c of ReadCapability \<Rightarrow> [] | MutationCapability strategy external \<Rightarrow>
     issue_if (strategy = None) (dotted path ''cas'') ''mutation capability must declare a CAS strategy'' @
     issue_if (nullish (cb_consistencyModel c) (mf_defaultConsistencyModel m) = ''authoritative'' \<and> strategy = Some cas_none)
       (dotted path ''cas'') ''authoritative mutations cannot use cas=\"none\"'')"

fun capability_issues :: "ConnectorManifest \<Rightarrow> string list \<Rightarrow> nat \<Rightarrow> Capability list \<Rightarrow> ConnectorManifestValidationIssue list" where
  "capability_issues m seen i [] = []"
| "capability_issues m seen i (c # cs) =
     (let path = indexed ''capabilities'' i in
      issue_if (trim (cb_name c) = []) (dotted path ''name'') ''capability name is required'' @
      issue_if (cb_name c \<in> set seen) (dotted path ''name'') (''duplicate capability name: '' @ cb_name c) @
      issue_if (case cb_consistencyModel c of None \<Rightarrow> False | Some x \<Rightarrow> x \<notin> set consistencyModels)
        (dotted path ''consistencyModel'') ''unsupported consistency model'' @
      mutation_issues m c path @
      capability_issues m (cb_name c # seen) (Suc i) cs)"

fun positive :: "js_number \<Rightarrow> bool" where
  "positive (Finite n) = (0 < n)"
| "positive NotFinite = False"

definition rate_issues :: "RateLimitSpec option \<Rightarrow> ConnectorManifestValidationIssue list" where
  "rate_issues r = (case r of None \<Rightarrow> [] | Some l \<Rightarrow>
     issue_if (\<not> positive (rl_requests l)) ''rateLimit.requests'' ''rateLimit.requests must be positive'' @
     issue_if (\<not> positive (rl_windowMs l)) ''rateLimit.windowMs'' ''rateLimit.windowMs must be positive'')"

definition validateConnectorManifest :: "ConnectorManifest \<Rightarrow> ConnectorManifestValidationIssue list" where
  "validateConnectorManifest m =
     issue_if (trim (mf_kind m) = []) ''kind'' ''kind is required'' @
     issue_if (trim (mf_displayName m) = []) ''displayName'' ''displayName is required'' @
     issue_if (mf_defaultConsistencyModel m \<notin> set consistencyModels) ''defaultConsistencyModel'' ''unsupported consistency model'' @
     validateAuthSpec (mf_auth m) @
     capability_issues m [] 0 (mf_capabilities m) @
     rate_issues (mf_rateLimit m)"

definition assertValidConnectorManifest :: "ConnectorManifest \<Rightarrow> exn + unit" where
  "assertValidConnectorManifest m =
     (let issues = validateConnectorManifest m in
      if issues = [] then Inr ()
      else Inl (Error (''Invalid connector manifest '' @ (if mf_kind m = [] then ''<unknown>'' else mf_kind m) @ '': '' @
        joined ''; '' (map (\<lambda>i. iss_path i @ '': '' @ iss_message i) issues))))"

section \<open>What validation means\<close>

lemma issue_if_Nil [simp]: "issue_if b p m = [] \<longleftrightarrow> \<not> b"
  by (simp add: issue_if_def)

text \<open>A placeholder occurs at two places only apart, as its key holds no closing brace.\<close>

lemma at_index_nth: "at_index s i pat \<Longrightarrow> k < length pat \<Longrightarrow> s ! (i + k) = pat ! k"
  unfolding at_index_def by (metis add_leD1 nth_drop nth_take)

lemma placeholder_nth: "k < length key \<Longrightarrow> placeholder key ! Suc k = key ! k"
  "placeholder key ! Suc (length key) = CHR ''}''" "placeholder key ! 0 = CHR ''{''" "length (placeholder key) = length key + 2"
  by (simp_all add: placeholder_def nth_append)

lemma occurrences_apart:
  assumes "at_index s i (placeholder key)" "at_index s j (placeholder key)" "CHR ''}'' \<notin> set key" "i < j"
  shows "i + length (placeholder key) \<le> j"
proof (rule ccontr)
  assume "\<not> i + length (placeholder key) \<le> j"
  then obtain k where k: "i + Suc (length key) = j + k" "k < Suc (length key)"
    using assms(4) by (auto simp: placeholder_nth intro: that [of "i + Suc (length key) - j"])
  have "s ! (i + Suc (length key)) = CHR ''}''"
    using at_index_nth [OF assms(1), of "Suc (length key)"] by (simp add: placeholder_nth)
  moreover have "s ! (j + k) = placeholder key ! k" using at_index_nth [OF assms(2), of k] k(2) by (simp add: placeholder_nth)
  moreover have "placeholder key ! k \<noteq> CHR ''}''"
    using k(2) assms(3) by (cases k) (auto simp: placeholder_nth in_set_conv_nth)
  ultimately show False using k(1) by simp
qed

lemma placeholder_loop_iff:
  assumes "CHR ''}'' \<notin> set key"
  shows "placeholder_loop t key c \<longleftrightarrow> (\<forall>i \<ge> c. at_index t i (placeholder key) \<longrightarrow> whole_segment t key i)"
  using assms
proof (induction t key c rule: placeholder_loop.induct)
  case (1 t key c)
  show ?case
  proof (cases "index_of t (placeholder key) c")
    case None
    then show ?thesis
      by (subst placeholder_loop.simps) (auto dest: index_of_None)
  next
    case (Some i)
    note key = 1(2)
    note hit = index_of_Some [OF Some]
    have later: "(\<forall>j \<ge> c. at_index t j (placeholder key) \<longrightarrow> whole_segment t key j) \<longleftrightarrow>
       whole_segment t key i \<and> (\<forall>j \<ge> i + length (placeholder key). at_index t j (placeholder key) \<longrightarrow> whole_segment t key j)"
    proof -
      have "j = i \<or> i + length (placeholder key) \<le> j" if "c \<le> j" "at_index t j (placeholder key)" for j
        using occurrences_apart [OF _ that(2) key, of i] hit that by (metis linorder_less_linear)
      moreover have "c \<le> j" if "i + length (placeholder key) \<le> j" for j using hit that by simp
      ultimately show ?thesis using hit by metis
    qed
    have rest: "whole_segment t key i \<Longrightarrow> placeholder_loop t key (i + length (placeholder key)) \<longleftrightarrow>
       (\<forall>j \<ge> i + length (placeholder key). at_index t j (placeholder key) \<longrightarrow> whole_segment t key j)"
      using 1(1) [OF Some _ key] by simp
    show ?thesis unfolding later by (subst placeholder_loop.simps) (use rest Some in auto)
  qed
qed

text \<open>What a manifest has to be, without the search for what is wrong with it.\<close>

definition plain_key :: "string \<Rightarrow> bool" where
  "plain_key key \<longleftrightarrow> CHR ''}'' \<notin> set key"

fun sound_url_metadata :: "OAuth2AuthSpec \<Rightarrow> string \<Rightarrow> OAuth2UrlTemplateMetadataSpec \<Rightarrow> bool" where
  "sound_url_metadata a key (UnsupportedSpec kind) = False"
| "sound_url_metadata a key (DnsLabelSpec label target) = (\<exists>u \<in> set (endpoints a). \<exists>i. at_index u i (placeholder key))"
| "sound_url_metadata a key (BaseUrlSpec urls suffixes public) =
     ((\<exists>u \<in> set (endpoints a). \<exists>i. at_index u i (placeholder key)) \<and>
      (public = Some True \<or> non_empty urls \<or> non_empty suffixes) \<and> (\<forall>s \<in> set (nullish suffixes []). suffix_pattern s))"
| "sound_url_metadata a key PathSegmentSpec =
     ((\<exists>u \<in> set (endpoints a). \<exists>i. at_index u i (placeholder key)) \<and>
      (\<forall>u \<in> set (endpoints a). \<forall>i. at_index u i (placeholder key) \<longrightarrow> whole_segment u key i))"

definition sound_oauth :: "OAuth2AuthSpec \<Rightarrow> bool" where
  "sound_oauth a \<longleftrightarrow>
     (oa_grantType a = Some client_credentials \<or> trim (nullish (oa_authorizationUrl a) []) \<noteq> []) \<and>
     (oa_pkce a = None \<or> the (oa_pkce a) \<in> {''required'', ''supported'', ''unsupported''}) \<and>
     (\<forall>(key, spec) \<in> set (nullish (oa_urlTemplateMetadata a) []). sound_url_metadata a key spec) \<and>
     (oa_tokenClientAuthMethod a = None \<or> the (oa_tokenClientAuthMethod a) \<in> {''none'', ''client_secret_post'', ''client_secret_basic''}) \<and>
     (oa_tokenClientAuthMethod a = Some ''none'' \<or> trim (nullish (oa_clientSecretEnv a) []) \<noteq> []) \<and>
     (\<forall>(h, v) \<in> set (nullish (oa_tokenRequestHeaders a) []). map to_lower h \<noteq> ''authorization'' \<and> map to_lower h \<noteq> ''content-type'')"

fun oauth_specs :: "AuthSpec \<Rightarrow> OAuth2AuthSpec list" where
  "oauth_specs (SingleAuth x) = (case x of OAuth2Auth a \<Rightarrow> [a] | _ \<Rightarrow> [])"
| "oauth_specs (OneOfAuth preferred options) = concat (map (\<lambda>x. case x of OAuth2Auth a \<Rightarrow> [a] | _ \<Rightarrow> []) options)"

definition sound_capability :: "ConnectorManifest \<Rightarrow> Capability \<Rightarrow> bool" where
  "sound_capability m c \<longleftrightarrow> trim (cb_name c) \<noteq> [] \<and>
     (cb_consistencyModel c = None \<or> the (cb_consistencyModel c) \<in> set consistencyModels) \<and>
     (case cb_class c of ReadCapability \<Rightarrow> True | MutationCapability strategy external \<Rightarrow>
        (\<exists>x. strategy = Some x \<and> (nullish (cb_consistencyModel c) (mf_defaultConsistencyModel m) = ''authoritative'' \<longrightarrow> x \<noteq> cas_none)))"

definition sound_manifest :: "ConnectorManifest \<Rightarrow> bool" where
  "sound_manifest m \<longleftrightarrow> trim (mf_kind m) \<noteq> [] \<and> trim (mf_displayName m) \<noteq> [] \<and> mf_defaultConsistencyModel m \<in> set consistencyModels \<and>
     (case mf_auth m of SingleAuth _ \<Rightarrow> True | OneOfAuth preferred options \<Rightarrow> 2 \<le> length options \<and> (\<exists>x \<in> set options. auth_kind x = preferred)) \<and>
     (\<forall>a \<in> set (oauth_specs (mf_auth m)). sound_oauth a) \<and>
     distinct (map cb_name (mf_capabilities m)) \<and> (\<forall>c \<in> set (mf_capabilities m). sound_capability m c) \<and>
     (case mf_rateLimit m of None \<Rightarrow> True | Some l \<Rightarrow> \<exists>r win. rl_requests l = Finite r \<and> 0 < r \<and> rl_windowMs l = Finite win \<and> 0 < win)"

definition plain_keys :: "ConnectorManifest \<Rightarrow> bool" where
  "plain_keys m \<longleftrightarrow> (\<forall>a \<in> set (oauth_specs (mf_auth m)). \<forall>k \<in> set (nullish (oa_urlTemplateMetadata a) []). plain_key (fst k))"

lemma contains_iff: "contains s pat \<longleftrightarrow> (\<exists>i. at_index s i pat)"
proof
  show "contains s pat \<Longrightarrow> \<exists>i. at_index s i pat" by (auto simp: contains_def dest: index_of_Some)
  show "\<exists>i. at_index s i pat \<Longrightarrow> contains s pat" unfolding contains_def by (metis index_of_None le0)
qed

lemma url_metadata_sound:
  assumes "plain_key key"
  shows "url_metadata_issues a path (key, spec) = [] \<longleftrightarrow> sound_url_metadata a key spec"
  using assms
  by (cases spec) (auto simp: Let_def list_ex_iff contains_iff isOAuthPathSegmentPlaceholder_def placeholder_loop_iff plain_key_def)

lemma oauth_sound:
  assumes "\<forall>k \<in> set (nullish (oa_urlTemplateMetadata a) []). plain_key (fst k)"
  shows "validateOAuth2AuthSpec a path = [] \<longleftrightarrow> sound_oauth a"
proof -
  have meta: "concat (map (url_metadata_issues a path) (nullish (oa_urlTemplateMetadata a) [])) = [] \<longleftrightarrow>
      (\<forall>(key, spec) \<in> set (nullish (oa_urlTemplateMetadata a) []). sound_url_metadata a key spec)"
    unfolding concat_eq_Nil_conv set_map ball_simps(9) using assms by (intro ball_cong refl) (auto simp: url_metadata_sound)
  have grant: "\<not> (nullish (oa_grantType a) authorization_code = authorization_code \<and> trim (nullish (oa_authorizationUrl a) []) = []) \<longleftrightarrow>
      oa_grantType a = Some client_credentials \<or> trim (nullish (oa_authorizationUrl a) []) \<noteq> []"
    by (cases "oa_grantType a") (auto intro: oauth_grant_type.exhaust)
  have pkce: "\<not> oa_pkce a \<notin> {None, Some ''required'', Some ''supported'', Some ''unsupported''} \<longleftrightarrow>
      oa_pkce a = None \<or> the (oa_pkce a) \<in> {''required'', ''supported'', ''unsupported''}"
    by (cases "oa_pkce a") simp_all
  have tokenAuth: "\<not> oa_tokenClientAuthMethod a \<notin> {None, Some ''none'', Some ''client_secret_post'', Some ''client_secret_basic''} \<longleftrightarrow>
      oa_tokenClientAuthMethod a = None \<or> the (oa_tokenClientAuthMethod a) \<in> {''none'', ''client_secret_post'', ''client_secret_basic''}"
    by (cases "oa_tokenClientAuthMethod a") simp_all
  have secret: "\<not> (nullish (oa_tokenClientAuthMethod a) ''client_secret_post'' \<noteq> ''none'' \<and> trim (nullish (oa_clientSecretEnv a) []) = []) \<longleftrightarrow>
      oa_tokenClientAuthMethod a = Some ''none'' \<or> trim (nullish (oa_clientSecretEnv a) []) \<noteq> []"
    by (cases "oa_tokenClientAuthMethod a") simp_all
  have headers: "concat (map (\<lambda>(h, _). issue_if (map to_lower h \<in> {''authorization'', ''content-type''})
       (dotted (dotted path ''tokenRequestHeaders'') h) ''tokenRequestHeaders cannot override Authorization or Content-Type'')
       (nullish (oa_tokenRequestHeaders a) [])) = [] \<longleftrightarrow>
     (\<forall>(h, v) \<in> set (nullish (oa_tokenRequestHeaders a) []). map to_lower h \<noteq> ''authorization'' \<and> map to_lower h \<noteq> ''content-type'')"
    unfolding concat_eq_Nil_conv set_map ball_simps(9) by (intro ball_cong refl) (simp add: case_prod_beta)
  show ?thesis
    unfolding validateOAuth2AuthSpec_def sound_oauth_def append_is_Nil_conv issue_if_Nil meta grant pkce tokenAuth secret headers by (rule refl)
qed

lemma auth_sound:
  assumes "\<forall>a \<in> set (oauth_specs au). \<forall>k \<in> set (nullish (oa_urlTemplateMetadata a) []). plain_key (fst k)"
  shows "validateAuthSpec au = [] \<longleftrightarrow> (\<forall>a \<in> set (oauth_specs au). sound_oauth a) \<and>
     (case au of SingleAuth _ \<Rightarrow> True | OneOfAuth preferred options \<Rightarrow> 2 \<le> length options \<and> (\<exists>x \<in> set options. auth_kind x = preferred))"
proof (cases au)
  case (SingleAuth x)
  with assms oauth_sound show ?thesis by (cases x) auto
next
  case (OneOfAuth preferred options)
  have "(\<forall>(i, x) \<in> set (zip [0 ..< length options] options).
      (case x of OAuth2Auth a \<Rightarrow> validateOAuth2AuthSpec a (indexed ''auth.options'' i) | _ \<Rightarrow> []) = []) \<longleftrightarrow>
    (\<forall>x \<in> set options. \<forall>a. x = OAuth2Auth a \<longrightarrow> sound_oauth a)" (is "?l \<longleftrightarrow> ?r")
  proof
    have ok: "validateOAuth2AuthSpec a p = [] \<longleftrightarrow> sound_oauth a" if "OAuth2Auth a \<in> set options" for a p
      using oauth_sound assms that by (force simp: OneOfAuth)
    show "?l \<Longrightarrow> ?r"
    proof (intro ballI allI impI)
      fix x a assume l: ?l and x: "x \<in> set options" "x = OAuth2Auth a"
      then obtain i where "(i, x) \<in> set (zip [0 ..< length options] options)" by (metis in_set_impl_in_set_zip2 length_upt minus_nat.diff_0)
      with l x ok show "sound_oauth a" by force
    qed
    show "?r \<Longrightarrow> ?l" using ok by (auto split: SingleAuthSpec.splits dest: set_zip_rightD)
  qed
  then show ?thesis by (auto simp: OneOfAuth split: SingleAuthSpec.splits) 
qed

lemma capabilities_sound:
  "capability_issues m seen i cs = [] \<longleftrightarrow>
     distinct (map cb_name cs) \<and> set seen \<inter> cb_name ` set cs = {} \<and> (\<forall>c \<in> set cs. sound_capability m c)"
proof (induction cs arbitrary: seen i)
  case (Cons c cs)
  have "mutation_issues m c path = [] \<and> \<not> (case cb_consistencyModel c of None \<Rightarrow> False | Some x \<Rightarrow> x \<notin> set consistencyModels) \<and> trim (cb_name c) \<noteq> []
      \<longleftrightarrow> sound_capability m c" for path
    by (auto simp: mutation_issues_def sound_capability_def split: capability_class.splits option.splits)
  then show ?case by (auto simp: Let_def Cons.IH)
qed simp

text \<open>C39. Validation of a connector manifest finds nothing wrong exactly when the manifest is sound: names
  are present and no capability is declared twice, every mutation has a strategy against lost updates
  and one that works on authoritative data has a real one, an OAuth client is either public or has a
  secret, token requests cannot set their own authorization, and every metadata key of an OAuth URL is
  used, restricted, and where it stands for a path segment fills a whole segment at every place it
  occurs. The metadata keys are assumed to hold no closing brace (\<open>plain_keys\<close>): the placeholder of a key
  that has one would end inside the key.\<close>

theorem validated_manifests_are_sound:
  assumes "plain_keys m"
  shows "validateConnectorManifest m = [] \<longleftrightarrow> sound_manifest m"
proof -
  have pos: "positive n \<longleftrightarrow> (\<exists>r. n = Finite r \<and> 0 < r)" for n by (cases n) auto
  have "rate_issues r = [] \<longleftrightarrow> (case r of None \<Rightarrow> True | Some l \<Rightarrow>
      \<exists>r win. rl_requests l = Finite r \<and> 0 < r \<and> rl_windowMs l = Finite win \<and> 0 < win)" for r
    by (auto simp: rate_issues_def pos split: option.splits)
  then show ?thesis
    using auth_sound [OF assms [unfolded plain_keys_def]] capabilities_sound [of m "[]" 0 "mf_capabilities m"]
    unfolding validateConnectorManifest_def sound_manifest_def by auto
qed

section \<open>A manifest at work\<close>

definition cx_oauth :: "string \<Rightarrow> OAuth2AuthSpec" where
  "cx_oauth url = \<lparr>oa_grantType = None, oa_authorizationUrl = Some ''https://a.b/authorize'', oa_tokenUrl = url, oa_scopes = [''send''],
     oa_scopeSeparator = None, oa_pkce = Some ''required'', oa_authorizationClientIdParam = None, oa_incremental = None,
     oa_clientIdEnv = ''ID'', oa_clientSecretEnv = None, oa_tokenClientIdParam = None, oa_tokenClientSecretParam = None,
     oa_tokenClientAuthMethod = Some ''none'', oa_extraAuthParams = None,
     oa_urlTemplateMetadata = Some [(''t'', PathSegmentSpec)], oa_tokenRequestHeaders = Some [(''User-Agent'', ''x'')],
     oa_sendScopeParam = None, oa_tokenMetadata = None\<rparr>"

definition cx_read :: Capability where
  "cx_read = \<lparr>cb_name = ''list'', cb_class = ReadCapability, cb_description = [], cb_parameters = [], cb_consistencyModel = None,
     cb_requiredScopes = Some [''send''], cb_inputPreview = None\<rparr>"

definition cx_send :: "CASStrategy \<Rightarrow> Capability" where
  "cx_send s = \<lparr>cb_name = ''send'', cb_class = MutationCapability (Some s) True, cb_description = [], cb_parameters = [],
     cb_consistencyModel = None, cb_requiredScopes = Some [''send''], cb_inputPreview = None\<rparr>"

definition cx_manifest :: "string \<Rightarrow> CASStrategy \<Rightarrow> ConnectorManifest" where
  "cx_manifest url s = \<lparr>mf_kind = ''mail'', mf_displayName = ''Mail'', mf_description = [], mf_auth = SingleAuth (OAuth2Auth (cx_oauth url)),
     mf_capabilities = [cx_read, cx_send s], mf_defaultConsistencyModel = ''authoritative'', mf_category = ''comms'', mf_icon = None,
     mf_rateLimit = Some \<lparr>rl_requests = Finite 10, rl_windowMs = Finite 1000, rl_scope = None\<rparr>\<rparr>"

lemma cx_found: "validateConnectorManifest (cx_manifest ''https://a.b/{t}/token'' native_idempotency) = []"
    "validateConnectorManifest (cx_manifest ''https://a.b/{t}/token'' cas_none) \<noteq> []"
    "validateConnectorManifest (cx_manifest ''https://a.b/x{t}/token'' native_idempotency) \<noteq> []"
  by code_simp+

theorem validated_manifests_are_sound_witness:
  "sound_manifest (cx_manifest ''https://a.b/{t}/token'' native_idempotency) \<and>
   \<not> sound_manifest (cx_manifest ''https://a.b/{t}/token'' cas_none) \<and>
   \<not> sound_manifest (cx_manifest ''https://a.b/x{t}/token'' native_idempotency)"
proof -
  have "plain_keys (cx_manifest url s)" for url s
    by (simp add: plain_keys_def cx_manifest_def cx_oauth_def plain_key_def)
  from validated_manifests_are_sound [OF this] cx_found show ?thesis by blast
qed

end
