(* ===== verification/Events.thy ===== *)
theory Events
  imports Connectors
begin

text \<open>
  Inbound events, \<open>events.ts\<close>: the event store with its in-memory version, and the receiver that
  checks the signature of a delivery, lets the adapter take it apart, stores what it has not seen
  and hands it to the workflow runtime. The receiver is modelled twice: as one uninterrupted call,
  \<open>receiveIntegrationWebhook\<close>, and as the steps between its awaits, \<open>delivery_step\<close>, in which any
  number of deliveries overlap; a delivery that runs alone takes the steps the call describes.
\<close>

section \<open>Stored events\<close>

record StoredIntegrationEvent =
  se_id :: string
  se_sourceId :: string
  se_connectorId :: string
  se_eventType :: string
  se_providerEventId :: "string option"
  se_receivedAt :: string
  se_payload :: metadata
  se_dispatchedAt :: "string option"
  se_metadata :: "metadata option"

record 'w IntegrationEventStore =
  es_put :: "StoredIntegrationEvent \<Rightarrow> ('w, exn, unit) io"
  es_hasProviderEvent :: "string \<Rightarrow> string \<Rightarrow> ('w, exn, bool) io"
  es_list :: "('w, exn, StoredIntegrationEvent list) io"

record IntegrationWebhookReceiverResult =
  wh_status :: int
  wh_body :: json
  wh_headers :: "(string \<times> string) list option"
  wh_received :: "StoredIntegrationEvent list"
  wh_duplicates :: "StoredIntegrationEvent list"

record InMemoryIntegrationEventStore = InMemoryIntegrationWorkflowStore +
  stored_events :: "(string \<times> StoredIntegrationEvent) list"
  providerIds :: "string set"

definition providerKey :: "string \<Rightarrow> string \<Rightarrow> string" where
  "providerKey sourceId eventId = sourceId @ '':'' @ eventId"

definition event_put :: "StoredIntegrationEvent \<Rightarrow> ('a InMemoryIntegrationEventStore_scheme, exn, unit) io" where
  [io_defs]: "event_put e w = (Inr (), w\<lparr>stored_events := AList.update (se_id e) e (stored_events w),
     providerIds := (if truthy (se_providerEventId e) then insert (providerKey (se_sourceId e) (the (se_providerEventId e))) (providerIds w)
       else providerIds w)\<rparr>)"

definition event_has :: "string \<Rightarrow> string \<Rightarrow> ('a InMemoryIntegrationEventStore_scheme, exn, bool) io" where
  [io_defs]: "event_has s p w = (Inr (providerKey s p \<in> providerIds w), w)"

definition event_list :: "('a InMemoryIntegrationEventStore_scheme, exn, StoredIntegrationEvent list) io" where
  [io_defs]: "event_list w = (Inr (map snd (stored_events w)), w)"

definition mem_events :: "('a InMemoryIntegrationEventStore_scheme) IntegrationEventStore" where
  "mem_events = \<lparr>es_put = event_put, es_hasProviderEvent = event_has, es_list = event_list\<rparr>"

section \<open>Receiving a delivery\<close>

record 'w receive_input =
  rv_adapter :: "'w ConnectorAdapter"
  rv_source :: ResolvedDataSource
  rv_rawBody :: string
  rv_headers :: adapter_headers
  rv_store :: "'w IntegrationEventStore"
  rv_workflowRuntime :: "'w IntegrationWorkflowRuntime option"
  rv_allowUnsigned :: "bool option"
  rv_now :: "('w, exn, int) io"
  rv_dates :: date_api

text \<open>\<open>String(value)\<close>. Of the numbers that are not finite the model knows one.\<close>

fun js_String :: "json \<Rightarrow> string" where
  "js_String JNull = ''null''"
| "js_String (JBool b) = (if b then ''true'' else ''false'')"
| "js_String (JNum (Finite n)) = int_text n"
| "js_String (JNum NotFinite) = ''NaN''"
| "js_String (JStr s) = s"
| "js_String (JArr xs) = joined '','' (map (\<lambda>x. if x = JNull then [] else js_String x) xs)"
| "js_String (JObj kvs) = ''[object Object]''"

definition storedEvent :: "('w, exn, int) io \<Rightarrow> date_api \<Rightarrow> ResolvedDataSource \<Rightarrow> InboundEvent \<Rightarrow> ('w, exn, StoredIntegrationEvent) io" where
  "storedEvent now dates src ev =
     andThen (case ie_providerEventId ev of
         Some p \<Rightarrow> ret p
       | None \<Rightarrow> andThen now (\<lambda>n. ret (ie_eventType ev @ ''_'' @ int_text n))) (\<lambda>tail.
     andThen now (\<lambda>n.
     andThen (liftE (toISO dates n)) (\<lambda>at.
     ret \<lparr>se_id = ''evt_'' @ ds_id src @ ''_'' @ tail, se_sourceId = ds_id src, se_connectorId = ds_kind src,
       se_eventType = ie_eventType ev, se_providerEventId = ie_providerEventId ev, se_receivedAt = at,
       se_payload = ie_payload ev, se_dispatchedAt = None, se_metadata = None\<rparr>)))"

text \<open>A provider event identifier that is \<open>undefined\<close> leaves no entry in the metadata.\<close>

definition storedEventToTriggerEvent :: "StoredIntegrationEvent \<Rightarrow> ResolvedDataSource \<Rightarrow> IntegrationTriggerEvent" where
  "storedEventToTriggerEvent e src =
     \<lparr>te_id = se_id e,
      te_providerId = (case map_of (ds_metadata src) ''providerId'' of None \<Rightarrow> ''first-party'' | Some JNull \<Rightarrow> ''first-party'' | Some v \<Rightarrow> js_String v),
      te_connectorId = se_connectorId e, te_connectionId = ds_id src, te_trigger = se_eventType e, te_occurredAt = se_receivedAt e,
      te_payload = JObj (se_payload e),
      te_metadata = Some (spread ((case se_providerEventId e of None \<Rightarrow> [] | Some p \<Rightarrow> [(''providerEventId'', JStr p)]) @
        [(''sourceId'', JStr (se_sourceId e))]) (nullish (se_metadata e) []))\<rparr>"

definition dispatchStoredEvent :: "StoredIntegrationEvent \<Rightarrow> ResolvedDataSource \<Rightarrow> 'w IntegrationWorkflowRuntime option \<Rightarrow> ('w, exn, unit) io" where
  "dispatchStoredEvent e src runtime = (case runtime of None \<Rightarrow> ret ()
     | Some wr \<Rightarrow> andThen (dispatchEvent wr (storedEventToTriggerEvent e src) (\<lambda>_ _. ret ())) (\<lambda>_. ret ()))"

text \<open>The loop over the events of a delivery, with what has been received and what was a duplicate.\<close>

fun takeEvents :: "'w receive_input \<Rightarrow> InboundEvent list \<Rightarrow> StoredIntegrationEvent list \<Rightarrow> StoredIntegrationEvent list \<Rightarrow>
    ('w, exn, StoredIntegrationEvent list \<times> StoredIntegrationEvent list) io" where
  "takeEvents inp [] received duplicates = ret (received, duplicates)"
| "takeEvents inp (ev # evs) received duplicates =
     andThen (storedEvent (rv_now inp) (rv_dates inp) (rv_source inp) ev) (\<lambda>e.
     andThen (if truthy (se_providerEventId e)
       then es_hasProviderEvent (rv_store inp) (se_sourceId e) (the (se_providerEventId e)) else ret False) (\<lambda>seen.
     if seen then takeEvents inp evs received (duplicates @ [e])
     else andThen (es_put (rv_store inp) e) (\<lambda>_.
       andThen (dispatchStoredEvent e (rv_source inp) (rv_workflowRuntime inp)) (\<lambda>_.
       takeEvents inp evs (received @ [e]) duplicates))))"

definition refusal :: "int \<Rightarrow> string \<Rightarrow> IntegrationWebhookReceiverResult" where
  "refusal st message = \<lparr>wh_status = st, wh_body = JObj [(''ok'', JBool False), (''error'', JStr message)], wh_headers = None,
     wh_received = [], wh_duplicates = []\<rparr>"

definition unverified :: "'w receive_input \<Rightarrow> exn + string option" where
  "unverified inp = (case ad_verifySignature (rv_adapter inp) of
       None \<Rightarrow> if rv_allowUnsigned inp = Some True then Inr None else Inr (Some ''Webhook signature verification is required.'')
     | Some verify \<Rightarrow> (case verify (rv_rawBody inp) (rv_headers inp) (rv_source inp) of
         Inl e \<Rightarrow> Inl e
       | Inr s \<Rightarrow> if sg_valid s then Inr None else Inr (Some (nullish (sg_reason s) ''Invalid webhook signature.''))))"

definition webhook_answer :: "EventHandlerResult \<Rightarrow> StoredIntegrationEvent list \<Rightarrow> StoredIntegrationEvent list \<Rightarrow>
    IntegrationWebhookReceiverResult" where
  "webhook_answer handled received duplicates =
     \<lparr>wh_status = (case eh_response handled of None \<Rightarrow> 200 | Some r \<Rightarrow> hr_status r),
      wh_body = nullish (case eh_response handled of None \<Rightarrow> None | Some r \<Rightarrow> hr_body r)
        (JObj [(''received'', JBool True), (''count'', JNum (Finite (int (length received)))),
          (''duplicateCount'', JNum (Finite (int (length duplicates))))]),
      wh_headers = (case eh_response handled of None \<Rightarrow> None | Some r \<Rightarrow> hr_headers r),
      wh_received = received, wh_duplicates = duplicates\<rparr>"

definition receiveIntegrationWebhook :: "'w receive_input \<Rightarrow> ('w, exn, IntegrationWebhookReceiverResult) io" where
  "receiveIntegrationWebhook inp =
     (case ad_handleInboundEvent (rv_adapter inp) of
        None \<Rightarrow> ret (refusal 405 ''Connector does not support inbound webhooks.'')
      | Some handleInbound \<Rightarrow>
          andThen (liftE (unverified inp)) (\<lambda>problem. case problem of
            Some message \<Rightarrow> ret (refusal 401 message)
          | None \<Rightarrow>
              andThen (handleInbound (rv_source inp) (rv_rawBody inp) (rv_headers inp)) (\<lambda>handled.
              andThen (takeEvents inp (eh_events handled) [] []) (\<lambda>(received, duplicates).
              ret (webhook_answer handled received duplicates)))))"

section \<open>Overlapping deliveries\<close>

text \<open>Where a delivery stands. \<open>Looked\<close> is behind the await of \<open>hasProviderEvent\<close>, with the answer that
  was given; \<open>Stored\<close> is behind the await of \<open>put\<close>. An event without a provider identifier is not
  looked up, so it is stored in the step that makes it.\<close>

datatype delivery_pc =
  Arrived
| Taking EventHandlerResult "InboundEvent list" "StoredIntegrationEvent list" "StoredIntegrationEvent list"
| Looked EventHandlerResult StoredIntegrationEvent bool "InboundEvent list" "StoredIntegrationEvent list" "StoredIntegrationEvent list"
| Stored EventHandlerResult StoredIntegrationEvent "InboundEvent list" "StoredIntegrationEvent list" "StoredIntegrationEvent list"
| Answered IntegrationWebhookReceiverResult
| Rejected exn

record 'w deliveries =
  dl_world :: 'w
  dl_pcs :: "nat \<Rightarrow> delivery_pc"

definition moved :: "nat \<Rightarrow> delivery_pc \<Rightarrow> 'w \<Rightarrow> 'w deliveries \<Rightarrow> 'w deliveries" where
  "moved i pc w s = s\<lparr>dl_world := w, dl_pcs := (dl_pcs s)(i := pc)\<rparr>"

inductive delivery_step :: "(nat \<Rightarrow> 'w receive_input) \<Rightarrow> 'w deliveries \<Rightarrow> 'w deliveries \<Rightarrow> bool"
  for inps :: "nat \<Rightarrow> 'w receive_input"
where
  unsupported: "dl_pcs s i = Arrived \<Longrightarrow> ad_handleInboundEvent (rv_adapter (inps i)) = None \<Longrightarrow>
    delivery_step inps s (moved i (Answered (refusal 405 ''Connector does not support inbound webhooks.'')) (dl_world s) s)"
| check_throws: "dl_pcs s i = Arrived \<Longrightarrow> ad_handleInboundEvent (rv_adapter (inps i)) = Some h \<Longrightarrow>
    unverified (inps i) = Inl x \<Longrightarrow> delivery_step inps s (moved i (Rejected x) (dl_world s) s)"
| refused: "dl_pcs s i = Arrived \<Longrightarrow> ad_handleInboundEvent (rv_adapter (inps i)) = Some h \<Longrightarrow>
    unverified (inps i) = Inr (Some m) \<Longrightarrow> delivery_step inps s (moved i (Answered (refusal 401 m)) (dl_world s) s)"
| handled: "dl_pcs s i = Arrived \<Longrightarrow> ad_handleInboundEvent (rv_adapter (inps i)) = Some h \<Longrightarrow>
    unverified (inps i) = Inr None \<Longrightarrow>
    h (rv_source (inps i)) (rv_rawBody (inps i)) (rv_headers (inps i)) (dl_world s) = (Inr hv, w) \<Longrightarrow>
    delivery_step inps s (moved i (Taking hv (eh_events hv) [] []) w s)"
| handler_throws: "dl_pcs s i = Arrived \<Longrightarrow> ad_handleInboundEvent (rv_adapter (inps i)) = Some h \<Longrightarrow>
    unverified (inps i) = Inr None \<Longrightarrow>
    h (rv_source (inps i)) (rv_rawBody (inps i)) (rv_headers (inps i)) (dl_world s) = (Inl x, w) \<Longrightarrow>
    delivery_step inps s (moved i (Rejected x) w s)"
| look: "dl_pcs s i = Taking hv (ev # evs) r d \<Longrightarrow>
    storedEvent (rv_now (inps i)) (rv_dates (inps i)) (rv_source (inps i)) ev (dl_world s) = (Inr e, w1) \<Longrightarrow>
    truthy (se_providerEventId e) \<Longrightarrow>
    es_hasProviderEvent (rv_store (inps i)) (se_sourceId e) (the (se_providerEventId e)) w1 = (Inr known, w) \<Longrightarrow>
    delivery_step inps s (moved i (Looked hv e known evs r d) w s)"
| look_throws: "dl_pcs s i = Taking hv (ev # evs) r d \<Longrightarrow>
    storedEvent (rv_now (inps i)) (rv_dates (inps i)) (rv_source (inps i)) ev (dl_world s) = (Inr e, w1) \<Longrightarrow>
    truthy (se_providerEventId e) \<Longrightarrow>
    es_hasProviderEvent (rv_store (inps i)) (se_sourceId e) (the (se_providerEventId e)) w1 = (Inl x, w) \<Longrightarrow>
    delivery_step inps s (moved i (Rejected x) w s)"
| stored_throws: "dl_pcs s i = Taking hv (ev # evs) r d \<Longrightarrow>
    storedEvent (rv_now (inps i)) (rv_dates (inps i)) (rv_source (inps i)) ev (dl_world s) = (Inl x, w) \<Longrightarrow>
    delivery_step inps s (moved i (Rejected x) w s)"
| put_unkeyed: "dl_pcs s i = Taking hv (ev # evs) r d \<Longrightarrow>
    storedEvent (rv_now (inps i)) (rv_dates (inps i)) (rv_source (inps i)) ev (dl_world s) = (Inr e, w1) \<Longrightarrow>
    \<not> truthy (se_providerEventId e) \<Longrightarrow> es_put (rv_store (inps i)) e w1 = (Inr (), w) \<Longrightarrow>
    delivery_step inps s (moved i (Stored hv e evs r d) w s)"
| put_unkeyed_throws: "dl_pcs s i = Taking hv (ev # evs) r d \<Longrightarrow>
    storedEvent (rv_now (inps i)) (rv_dates (inps i)) (rv_source (inps i)) ev (dl_world s) = (Inr e, w1) \<Longrightarrow>
    \<not> truthy (se_providerEventId e) \<Longrightarrow> es_put (rv_store (inps i)) e w1 = (Inl x, w) \<Longrightarrow>
    delivery_step inps s (moved i (Rejected x) w s)"
| duplicate: "dl_pcs s i = Looked hv e True evs r d \<Longrightarrow>
    delivery_step inps s (moved i (Taking hv evs r (d @ [e])) (dl_world s) s)"
| put: "dl_pcs s i = Looked hv e False evs r d \<Longrightarrow> es_put (rv_store (inps i)) e (dl_world s) = (Inr (), w) \<Longrightarrow>
    delivery_step inps s (moved i (Stored hv e evs r d) w s)"
| put_throws: "dl_pcs s i = Looked hv e False evs r d \<Longrightarrow> es_put (rv_store (inps i)) e (dl_world s) = (Inl x, w) \<Longrightarrow>
    delivery_step inps s (moved i (Rejected x) w s)"
| dispatched: "dl_pcs s i = Stored hv e evs r d \<Longrightarrow>
    dispatchStoredEvent e (rv_source (inps i)) (rv_workflowRuntime (inps i)) (dl_world s) = (Inr (), w) \<Longrightarrow>
    delivery_step inps s (moved i (Taking hv evs (r @ [e]) d) w s)"
| dispatch_throws: "dl_pcs s i = Stored hv e evs r d \<Longrightarrow>
    dispatchStoredEvent e (rv_source (inps i)) (rv_workflowRuntime (inps i)) (dl_world s) = (Inl x, w) \<Longrightarrow>
    delivery_step inps s (moved i (Rejected x) w s)"
| answer: "dl_pcs s i = Taking hv [] r d \<Longrightarrow>
    delivery_step inps s (moved i (Answered (webhook_answer hv r d)) (dl_world s) s)"

abbreviation delivery_steps :: "(nat \<Rightarrow> 'w receive_input) \<Rightarrow> 'w deliveries \<Rightarrow> 'w deliveries \<Rightarrow> bool" where
  "delivery_steps inps \<equiv> (delivery_step inps)\<^sup>*\<^sup>*"

text \<open>What a delivery has received, and taken for duplicates, so far.\<close>

fun received_by :: "delivery_pc \<Rightarrow> StoredIntegrationEvent list" where
  "received_by (Taking hv evs r d) = r"
| "received_by (Looked hv e known evs r d) = r"
| "received_by (Stored hv e evs r d) = r @ [e]"
| "received_by (Answered res) = wh_received res"
| "received_by _ = []"

fun duplicates_by :: "delivery_pc \<Rightarrow> StoredIntegrationEvent list" where
  "duplicates_by (Taking hv evs r d) = d"
| "duplicates_by (Looked hv e known evs r d) = d"
| "duplicates_by (Stored hv e evs r d) = d"
| "duplicates_by (Answered res) = wh_duplicates res"
| "duplicates_by _ = []"

lemma webhook_answer_simps [simp]:
  "wh_received (webhook_answer handled r d) = r" "wh_duplicates (webhook_answer handled r d) = d"
  by (simp_all add: webhook_answer_def)

subsection \<open>A delivery that runs alone\<close>

lemma moved_simps [simp]:
  "dl_world (moved i pc w s) = w" "dl_pcs (moved i pc w s) = (dl_pcs s)(i := pc)"
  "moved i pc' w' (moved i pc w s) = moved i pc' w' s"
  by (simp_all add: moved_def)

lemma taken_alone:
  assumes "takeEvents (inps i) evs r d w = (Inr (r', d'), w')"
  shows "delivery_steps inps (moved i (Taking hv evs r d) w s) (moved i (Taking hv [] r' d') w' s)"
  using assms
proof (induction evs arbitrary: r d w)
  case Nil
  then show ?case by (simp add: runs)
next
  case (Cons ev evs)
  let ?s = "moved i (Taking hv (ev # evs) r d) w s"
  from Cons.prems obtain e w1 where e: "storedEvent (rv_now (inps i)) (rv_dates (inps i)) (rv_source (inps i)) ev w = (Inr e, w1)"
    by (auto simp: runs)
  show ?case
  proof (cases "truthy (se_providerEventId e)")
    case True
    with Cons.prems e obtain known w2 where k:
      "es_hasProviderEvent (rv_store (inps i)) (se_sourceId e) (the (se_providerEventId e)) w1 = (Inr known, w2)"
      by (auto simp: runs)
    have look: "delivery_step inps ?s (moved i (Looked hv e known evs r d) w2 s)"
      using delivery_step.look [of ?s i hv ev evs r d inps e w1 known w2] e True k by simp
    show ?thesis
    proof (cases known)
      case True
      have "delivery_step inps (moved i (Looked hv e known evs r d) w2 s) (moved i (Taking hv evs r (d @ [e])) w2 s)"
        using delivery_step.duplicate [of "moved i (Looked hv e known evs r d) w2 s" i hv e evs r d inps] True by simp
      moreover have "takeEvents (inps i) evs r (d @ [e]) w2 = (Inr (r', d'), w')"
        using Cons.prems e k True \<open>truthy _\<close> by (simp add: andThen_def)
      ultimately show ?thesis using look Cons.IH by (meson converse_rtranclp_into_rtranclp)
    next
      case False
      with Cons.prems e k \<open>truthy _\<close> obtain w3 w4 where p: "es_put (rv_store (inps i)) e w2 = (Inr (), w3)"
        "dispatchStoredEvent e (rv_source (inps i)) (rv_workflowRuntime (inps i)) w3 = (Inr (), w4)"
        "takeEvents (inps i) evs (r @ [e]) d w4 = (Inr (r', d'), w')"
        by (auto simp: andThen_def split: prod.splits sum.splits)
      have "delivery_step inps (moved i (Looked hv e known evs r d) w2 s) (moved i (Stored hv e evs r d) w3 s)"
        using delivery_step.put [of "moved i (Looked hv e known evs r d) w2 s" i hv e evs r d inps w3] False p(1) by simp
      moreover have "delivery_step inps (moved i (Stored hv e evs r d) w3 s) (moved i (Taking hv evs (r @ [e]) d) w4 s)"
        using delivery_step.dispatched [of "moved i (Stored hv e evs r d) w3 s" i hv e evs r d inps w4] p(2) by simp
      ultimately show ?thesis using look Cons.IH [OF p(3)] by (meson converse_rtranclp_into_rtranclp)
    qed
  next
    case False
    with Cons.prems e obtain w3 w4 where p: "es_put (rv_store (inps i)) e w1 = (Inr (), w3)"
      "dispatchStoredEvent e (rv_source (inps i)) (rv_workflowRuntime (inps i)) w3 = (Inr (), w4)"
      "takeEvents (inps i) evs (r @ [e]) d w4 = (Inr (r', d'), w')"
      by (auto simp: andThen_def ret_def split: prod.splits sum.splits)
    have "delivery_step inps ?s (moved i (Stored hv e evs r d) w3 s)"
      using delivery_step.put_unkeyed [of ?s i hv ev evs r d inps e w1 w3] e False p(1) by simp
    moreover have "delivery_step inps (moved i (Stored hv e evs r d) w3 s) (moved i (Taking hv evs (r @ [e]) d) w4 s)"
      using delivery_step.dispatched [of "moved i (Stored hv e evs r d) w3 s" i hv e evs r d inps w4] p(2) by simp
    ultimately show ?thesis using Cons.IH [OF p(3)] by (meson converse_rtranclp_into_rtranclp)
  qed
qed

theorem delivery_alone:
  assumes "receiveIntegrationWebhook (inps i) w = (Inr res, w')"
  shows "delivery_steps inps (moved i Arrived w s) (moved i (Answered res) w' s)"
proof (cases "ad_handleInboundEvent (rv_adapter (inps i))")
  case None
  with assms delivery_step.unsupported [of "moved i Arrived w s" i inps] show ?thesis
    by (auto simp: receiveIntegrationWebhook_def ret_def)
next
  case (Some h)
  with assms obtain problem where u: "unverified (inps i) = Inr problem" by (auto simp: receiveIntegrationWebhook_def runs)
  show ?thesis
  proof (cases problem)
    case (Some m)
    with assms u \<open>_ = Some h\<close> delivery_step.refused [of "moved i Arrived w s" i inps h m] show ?thesis
      by (auto simp: receiveIntegrationWebhook_def runs)
  next
    case None
    with assms Some u obtain hv w1 r d where h: "h (rv_source (inps i)) (rv_rawBody (inps i)) (rv_headers (inps i)) w = (Inr hv, w1)"
      and t: "takeEvents (inps i) (eh_events hv) [] [] w1 = (Inr (r, d), w')" and res: "res = webhook_answer hv r d"
      by (auto simp: receiveIntegrationWebhook_def runs webhook_answer_def)
    have "delivery_step inps (moved i Arrived w s) (moved i (Taking hv (eh_events hv) [] []) w1 s)"
      using delivery_step.handled [of "moved i Arrived w s" i inps h hv w1] Some u None h by simp
    moreover have "delivery_step inps (moved i (Taking hv [] r d) w' s) (moved i (Answered res) w' s)"
      using delivery_step.answer [of "moved i (Taking hv [] r d) w' s" i hv r d inps] by (simp add: res)
    ultimately show ?thesis using taken_alone [where inps = inps and i = i and hv = hv and s = s, OF t]
      by (meson converse_rtranclp_into_rtranclp rtranclp.rtrancl_into_rtrancl)
  qed
qed

section \<open>Events are taken once\<close>

text \<open>The key of an event, when its provider gave it one.\<close>

definition event_keys :: "StoredIntegrationEvent \<Rightarrow> string set" where
  "event_keys e = (if truthy (se_providerEventId e) then {providerKey (se_sourceId e) (the (se_providerEventId e))} else {})"

text \<open>What a delivery may have done, when the keys \<open>K\<close> are taken and the keys \<open>S\<close> were taken before it began.\<close>

definition delivery_ok :: "string set \<Rightarrow> string set \<Rightarrow> delivery_pc \<Rightarrow> bool" where
  "delivery_ok K S pc \<longleftrightarrow> sorted_wrt (\<lambda>a b. event_keys a \<inter> event_keys b = {}) (received_by pc) \<and>
     (\<forall>e \<in> set (received_by pc). event_keys e \<subseteq> K \<and> event_keys e \<inter> S = {}) \<and>
     (\<forall>e \<in> set (duplicates_by pc). event_keys e \<noteq> {} \<and> event_keys e \<subseteq> K) \<and>
     (case pc of Looked hv e known evs r d \<Rightarrow> if known then event_keys e \<noteq> {} \<and> event_keys e \<subseteq> K
         else event_keys e \<inter> S = {} \<and> (\<forall>x \<in> set r. event_keys x \<inter> event_keys e = {})
       | _ \<Rightarrow> True)"

lemma delivery_ok_mono: "delivery_ok K S pc \<Longrightarrow> K \<subseteq> K' \<Longrightarrow> delivery_ok K' S pc"
  unfolding delivery_ok_def by (cases pc) (simp_all split: if_splits, blast+)

text \<open>A delivery to the store, of which the set of keys is kept by everything but the receiver itself.\<close>

definition keeps_keys :: "'w IntegrationEventStore \<Rightarrow> ('w \<Rightarrow> string set) \<Rightarrow> 'w receive_input \<Rightarrow> bool" where
  "keeps_keys st seen inp \<longleftrightarrow> rv_store inp = st \<and> keeps seen (rv_now inp) \<and>
     (\<forall>e. keeps seen (dispatchStoredEvent e (rv_source inp) (rv_workflowRuntime inp))) \<and>
     (\<forall>h. ad_handleInboundEvent (rv_adapter inp) = Some h \<longrightarrow> keeps seen (h (rv_source inp) (rv_rawBody inp) (rv_headers inp)))"

locale event_store =
  fixes st :: "'w IntegrationEventStore" and seen :: "'w \<Rightarrow> string set"
  assumes has_law: "es_hasProviderEvent st s p w = (Inr (providerKey s p \<in> seen w), w)"
    and put_law: "es_put st e w = (x, w') \<Longrightarrow> x = Inr () \<and> seen w' = seen w \<union> event_keys e"
begin

lemma taken:
  assumes "takeEvents inp evs r d w = (Inr (r', d'), w')" "rv_store inp = st" "keeps seen (rv_now inp)"
    and "\<And>e. keeps seen (dispatchStoredEvent e (rv_source inp) (rv_workflowRuntime inp))"
  shows "\<exists>fresh dups. r' = r @ fresh \<and> d' = d @ dups \<and> length fresh + length dups = length evs \<and>
     seen w' = seen w \<union> \<Union> (event_keys ` set fresh) \<and> (\<forall>e \<in> set fresh. event_keys e \<inter> seen w = {}) \<and>
     sorted_wrt (\<lambda>a b. event_keys a \<inter> event_keys b = {}) fresh \<and>
     (\<forall>e \<in> set dups. event_keys e \<noteq> {} \<and> event_keys e \<subseteq> seen w')"
  using assms(1)
proof (induction evs arbitrary: r d w)
  case Nil
  then show ?case by (auto simp: runs)
next
  case (Cons ev evs)
  then obtain e w1 where e: "storedEvent (rv_now inp) (rv_dates inp) (rv_source inp) ev w = (Inr e, w1)"
    by (auto simp: runs)
  have "keeps seen (storedEvent (rv_now inp) (rv_dates inp) (rv_source inp) ev)"
    unfolding storedEvent_def using assms(3) by (auto intro!: keeps_andThen split: option.splits)
  from keepsD [OF this e] have w1: "seen w1 = seen w" .
  have known: "(if truthy (se_providerEventId e) then es_hasProviderEvent (rv_store inp) (se_sourceId e) (the (se_providerEventId e))
      else ret False) w1 = (Inr (event_keys e \<noteq> {} \<and> event_keys e \<subseteq> seen w), w1)"
    by (simp add: assms(2) has_law event_keys_def w1 ret_def)
  show ?case
  proof (cases "event_keys e \<noteq> {} \<and> event_keys e \<subseteq> seen w")
    case True
    with Cons.prems e known have "takeEvents inp evs r (d @ [e]) w1 = (Inr (r', d'), w')" by (simp add: andThen_def)
    from Cons.IH [OF this] obtain fresh dups where f: "r' = r @ fresh" "d' = (d @ [e]) @ dups" "length fresh + length dups = length evs"
      "seen w' = seen w1 \<union> \<Union> (event_keys ` set fresh)" "\<forall>e \<in> set fresh. event_keys e \<inter> seen w1 = {}"
      "sorted_wrt (\<lambda>a b. event_keys a \<inter> event_keys b = {}) fresh" "\<forall>e \<in> set dups. event_keys e \<noteq> {} \<and> event_keys e \<subseteq> seen w'" by blast
    with True w1 show ?thesis by (intro exI [of _ fresh] exI [of _ "e # dups"]) auto
  next
    case False
    with Cons.prems e known obtain w2 u w3 where p: "es_put st e w1 = (Inr u, w2)"
      and s: "dispatchStoredEvent e (rv_source inp) (rv_workflowRuntime inp) w2 = (Inr (), w3)"
      and t: "takeEvents inp evs (r @ [e]) d w3 = (Inr (r', d'), w')"
      by (auto simp: andThen_def assms(2) split: prod.splits sum.splits)
    have w3: "seen w3 = seen w \<union> event_keys e" using keepsD [OF assms(4) s] put_law [OF p] w1 by simp
    from Cons.IH [OF t] obtain fresh dups where f: "r' = (r @ [e]) @ fresh" "d' = d @ dups" "length fresh + length dups = length evs"
      "seen w' = seen w3 \<union> \<Union> (event_keys ` set fresh)" "\<forall>e \<in> set fresh. event_keys e \<inter> seen w3 = {}"
      "sorted_wrt (\<lambda>a b. event_keys a \<inter> event_keys b = {}) fresh" "\<forall>e \<in> set dups. event_keys e \<noteq> {} \<and> event_keys e \<subseteq> seen w'" by blast
    have "event_keys e \<inter> seen w = {}" using False by (auto simp: event_keys_def split: if_splits)
    with f w3 show ?thesis by (intro exI [of _ "e # fresh"] exI [of _ dups]) auto
  qed
qed

lemma received:
  assumes "receiveIntegrationWebhook inp w = (Inr res, w')" "rv_store inp = st" "keeps seen (rv_now inp)"
    and "\<And>e. keeps seen (dispatchStoredEvent e (rv_source inp) (rv_workflowRuntime inp))"
    and "\<And>h. ad_handleInboundEvent (rv_adapter inp) = Some h \<Longrightarrow> keeps seen (h (rv_source inp) (rv_rawBody inp) (rv_headers inp))"
  shows "seen w' = seen w \<union> \<Union> (event_keys ` set (wh_received res)) \<and>
     (\<forall>e \<in> set (wh_received res). event_keys e \<inter> seen w = {}) \<and>
     sorted_wrt (\<lambda>a b. event_keys a \<inter> event_keys b = {}) (wh_received res) \<and>
     (\<forall>e \<in> set (wh_duplicates res). event_keys e \<noteq> {} \<and> event_keys e \<subseteq> seen w')"
proof (cases "ad_handleInboundEvent (rv_adapter inp)")
  case None
  with assms(1) show ?thesis by (auto simp: receiveIntegrationWebhook_def runs refusal_def)
next
  case (Some h)
  with assms(1) obtain problem where u: "unverified inp = Inr problem" by (auto simp: receiveIntegrationWebhook_def runs)
  show ?thesis
  proof (cases problem)
    case (Some message)
    with assms(1) \<open>_ = Some h\<close> u show ?thesis by (auto simp: receiveIntegrationWebhook_def runs refusal_def)
  next
    case None
    with assms(1) Some u obtain handled w1 r d where h: "h (rv_source inp) (rv_rawBody inp) (rv_headers inp) w = (Inr handled, w1)"
      and t: "takeEvents inp (eh_events handled) [] [] w1 = (Inr (r, d), w')" and res: "wh_received res = r" "wh_duplicates res = d"
      by (auto simp: receiveIntegrationWebhook_def runs)
    have "seen w1 = seen w" using keepsD [OF assms(5) [OF Some] h] .
    with taken [OF t assms(2,3,4)] res show ?thesis by (elim exE conjE, intro conjI) simp_all
  qed
qed

lemma stored_keeps:
  assumes "storedEvent now dates src ev w = (x, w')" "keeps seen now"
  shows "seen w' = seen w"
proof -
  have "keeps seen (storedEvent now dates src ev)"
    unfolding storedEvent_def using assms(2) by (auto intro!: keeps_andThen split: option.splits)
  from keepsD [OF this assms(1)] show ?thesis .
qed

text \<open>No step forgets a key, and every step keeps what a delivery may have done, whoever takes it.\<close>

lemma delivery_moved:
  assumes "delivery_ok (seen (dl_world s)) S (dl_pcs s i)" "seen (dl_world s) \<subseteq> seen w"
    "j = i \<Longrightarrow> delivery_ok (seen w) S pc"
  shows "seen (dl_world s) \<subseteq> seen (dl_world (moved j pc w s)) \<and>
    delivery_ok (seen (dl_world (moved j pc w s))) S (dl_pcs (moved j pc w s) i)"
  using assms delivery_ok_mono by auto

lemma delivery_step_ok:
  assumes step: "delivery_step inps s t" and ok: "delivery_ok (seen (dl_world s)) S (dl_pcs s i)" and S: "S \<subseteq> seen (dl_world s)"
    and all: "\<And>j. keeps_keys st seen (inps j)"
  shows "seen (dl_world s) \<subseteq> seen (dl_world t) \<and> delivery_ok (seen (dl_world t)) S (dl_pcs t i)"
proof -
  have fit: "rv_store (inps j) = st" "keeps seen (rv_now (inps j))"
    "keeps seen (dispatchStoredEvent e (rv_source (inps j)) (rv_workflowRuntime (inps j)))"
    "ad_handleInboundEvent (rv_adapter (inps j)) = Some h \<Longrightarrow> keeps seen (h (rv_source (inps j)) (rv_rawBody (inps j)) (rv_headers (inps j)))"
    for j e h using all [of j] by (simp_all add: keeps_keys_def)
  from step show ?thesis
  proof cases
    case (handled j h hv w)
    from keepsD [OF fit(4) [OF handled(3)] handled(5)] show ?thesis unfolding handled(1)
      by (intro delivery_moved [OF ok]) (simp_all add: delivery_ok_def)
  next
    case (handler_throws j h x w)
    from keepsD [OF fit(4) [OF handler_throws(3)] handler_throws(5)] show ?thesis unfolding handler_throws(1)
      by (intro delivery_moved [OF ok]) (simp_all add: delivery_ok_def)
  next
    case (look j hv ev evs r d e w1 known w)
    from look(5) have k: "known = (providerKey (se_sourceId e) (the (se_providerEventId e)) \<in> seen w1)" "w = w1"
      by (auto simp: fit(1) has_law)
    have w1: "seen w1 = seen (dl_world s)" by (rule stored_keeps [OF look(3) fit(2)])
    have e: "event_keys e = {providerKey (se_sourceId e) (the (se_providerEventId e))}" using look(4) by (simp add: event_keys_def)
    show ?thesis unfolding look(1)
      by (intro delivery_moved [OF ok]) (use ok look(2) S in \<open>auto simp: delivery_ok_def k w1 e\<close>)
  next
    case (look_throws j hv ev evs r d e w1 x w)
    then show ?thesis by (simp add: fit(1) has_law)
  next
    case (stored_throws j hv ev evs r d x w)
    have "seen w = seen (dl_world s)" by (rule stored_keeps [OF stored_throws(3) fit(2)])
    then show ?thesis unfolding stored_throws(1) by (intro delivery_moved [OF ok]) (simp_all add: delivery_ok_def)
  next
    case (put_unkeyed j hv ev evs r d e w1 w)
    have "seen w1 = seen (dl_world s)" by (rule stored_keeps [OF put_unkeyed(3) fit(2)])
    moreover have "event_keys e = {}" using put_unkeyed(4) by (simp add: event_keys_def)
    ultimately have w: "seen w = seen (dl_world s)" "event_keys e = {}"
      using put_law [OF put_unkeyed(5) [unfolded fit(1)]] by simp_all
    show ?thesis unfolding put_unkeyed(1)
      by (intro delivery_moved [OF ok]) (use ok put_unkeyed(2) w in \<open>auto simp: delivery_ok_def sorted_wrt_append\<close>)
  next
    case (put_unkeyed_throws j hv ev evs r d e w1 x w)
    from put_law [OF put_unkeyed_throws(5) [unfolded fit(1)]] show ?thesis by simp
  next
    case (duplicate j hv e evs r d)
    show ?thesis unfolding duplicate(1)
      by (intro delivery_moved [OF ok]) (use ok duplicate(2) in \<open>auto simp: delivery_ok_def\<close>)
  next
    case (put j hv e evs r d w)
    have w: "seen w = seen (dl_world s) \<union> event_keys e" using put_law [OF put(3) [unfolded fit(1)]] by simp
    show ?thesis unfolding put(1)
      by (intro delivery_moved [OF ok]) (use ok put(2) w in \<open>auto simp: delivery_ok_def sorted_wrt_append\<close>)
  next
    case (put_throws j hv e evs r d x w)
    from put_law [OF put_throws(3) [unfolded fit(1)]] show ?thesis by simp
  next
    case (dispatched j hv e evs r d w)
    from keepsD [OF fit(3) dispatched(3)] show ?thesis unfolding dispatched(1)
      by (intro delivery_moved [OF ok]) (use ok dispatched(2) in \<open>auto simp: delivery_ok_def\<close>)
  next
    case (dispatch_throws j hv e evs r d x w)
    from keepsD [OF fit(3) dispatch_throws(3)] show ?thesis unfolding dispatch_throws(1)
      by (intro delivery_moved [OF ok]) (simp_all add: delivery_ok_def)
  next
    case (answer j hv r d)
    show ?thesis unfolding answer(1)
      by (intro delivery_moved [OF ok]) (use ok answer(2) in \<open>auto simp: delivery_ok_def webhook_answer_def\<close>)
  qed ((erule ssubst, rule delivery_moved [OF ok]; simp add: delivery_ok_def refusal_def)+)
qed

lemma deliveries_ok:
  assumes "delivery_steps inps s t" "delivery_ok (seen (dl_world s)) S (dl_pcs s i)" "S \<subseteq> seen (dl_world s)"
    and all: "\<And>j. keeps_keys st seen (inps j)"
  shows "seen (dl_world s) \<subseteq> seen (dl_world t) \<and> delivery_ok (seen (dl_world t)) S (dl_pcs t i)"
  using assms(1)
proof (induction rule: rtranclp_induct)
  case base
  with assms(2) show ?case by simp
next
  case (step u v)
  have "S \<subseteq> seen (dl_world u)" using assms(3) step.IH by blast
  from delivery_step_ok [OF step.hyps(2) step.IH [THEN conjunct2] this all] step.IH show ?case by blast
qed

end

interpretation memory_events: event_store
  "mem_events :: 'a InMemoryIntegrationEventStore_scheme IntegrationEventStore" providerIds
  by unfold_locales (auto simp: mem_events_def io_defs event_keys_def)

text \<open>A delivery of which nothing is kept but what is stored by the receiver itself.\<close>

definition clean_delivery :: "('a InMemoryIntegrationEventStore_scheme) receive_input \<Rightarrow> bool" where
  "clean_delivery inp \<longleftrightarrow> rv_store inp = mem_events \<and> keeps providerIds (rv_now inp) \<and>
     (\<forall>e. keeps providerIds (dispatchStoredEvent e (rv_source inp) (rv_workflowRuntime inp))) \<and>
     (\<forall>h. ad_handleInboundEvent (rv_adapter inp) = Some h \<longrightarrow> keeps providerIds (h (rv_source inp) (rv_rawBody inp) (rv_headers inp)))"

lemma clean_received:
  assumes "clean_delivery inp" "receiveIntegrationWebhook inp w = (Inr res, w')"
  shows "providerIds w' = providerIds w \<union> \<Union> (event_keys ` set (wh_received res))"
    and "\<forall>e \<in> set (wh_received res). event_keys e \<inter> providerIds w = {}"
    and "sorted_wrt (\<lambda>a b. event_keys a \<inter> event_keys b = {}) (wh_received res)"
    and "\<forall>e \<in> set (wh_duplicates res). event_keys e \<noteq> {} \<and> event_keys e \<subseteq> providerIds w'"
proof -
  from assms(1) have c: "rv_store inp = mem_events" "keeps providerIds (rv_now inp)"
    "\<And>e. keeps providerIds (dispatchStoredEvent e (rv_source inp) (rv_workflowRuntime inp))"
    "\<And>h. ad_handleInboundEvent (rv_adapter inp) = Some h \<Longrightarrow> keeps providerIds (h (rv_source inp) (rv_rawBody inp) (rv_headers inp))"
    by (simp_all add: clean_delivery_def)
  have all: "providerIds w' = providerIds w \<union> \<Union> (event_keys ` set (wh_received res)) \<and>
     (\<forall>e \<in> set (wh_received res). event_keys e \<inter> providerIds w = {}) \<and>
     sorted_wrt (\<lambda>a b. event_keys a \<inter> event_keys b = {}) (wh_received res) \<and>
     (\<forall>e \<in> set (wh_duplicates res). event_keys e \<noteq> {} \<and> event_keys e \<subseteq> providerIds w')"
    by (rule memory_events.received [OF assms(2)]) (rule c, assumption?)+
  show "providerIds w' = providerIds w \<union> \<Union> (event_keys ` set (wh_received res))" by (rule all [THEN conjunct1])
  show "\<forall>e \<in> set (wh_received res). event_keys e \<inter> providerIds w = {}" by (rule all [THEN conjunct2, THEN conjunct1])
  show "sorted_wrt (\<lambda>a b. event_keys a \<inter> event_keys b = {}) (wh_received res)" by (rule all [THEN conjunct2, THEN conjunct2, THEN conjunct1])
  show "\<forall>e \<in> set (wh_duplicates res). event_keys e \<noteq> {} \<and> event_keys e \<subseteq> providerIds w'"
    by (rule all [THEN conjunct2, THEN conjunct2, THEN conjunct2])
qed

text \<open>Of two deliveries, the second after the first, everything received has different provider identifiers.\<close>

theorem deliveries_in_turn:
  assumes "clean_delivery inp" "receiveIntegrationWebhook inp w = (Inr res, w1)"
    and "providerIds w1 \<subseteq> providerIds w2"
    and "clean_delivery inp'" "receiveIntegrationWebhook inp' w2 = (Inr res', w3)"
  shows "sorted_wrt (\<lambda>a b. event_keys a \<inter> event_keys b = {}) (wh_received res @ wh_received res') \<and>
     (\<forall>e \<in> set (wh_duplicates res @ wh_duplicates res'). event_keys e \<noteq> {} \<and> event_keys e \<subseteq> providerIds w3)"
proof -
  note first = clean_received [OF assms(1,2)] and second = clean_received [OF assms(4,5)]
  have "event_keys a \<inter> event_keys b = {}" if "a \<in> set (wh_received res)" "b \<in> set (wh_received res')" for a b
    using that first(1) assms(3) second(2) by blast
  with first(3) second(3) have "sorted_wrt (\<lambda>a b. event_keys a \<inter> event_keys b = {}) (wh_received res @ wh_received res')"
    by (simp add: sorted_wrt_append)
  moreover have "providerIds w1 \<subseteq> providerIds w3" using assms(3) second(1) by blast
  with first(4) second(4) have "\<forall>e \<in> set (wh_duplicates res @ wh_duplicates res'). event_keys e \<noteq> {} \<and> event_keys e \<subseteq> providerIds w3"
    by auto
  ultimately show ?thesis by (rule conjI)
qed

text \<open>C40. An event of a provider is taken again only by a delivery that overlaps the one that took it. In every
  run of overlapping deliveries, step by step between their awaits: the keys of what is received are
  recorded and never forgotten; no delivery receives two events of one key; what a delivery takes
  for a duplicate has a key that is recorded; and a delivery that begins when other events have been
  received receives none of their keys, nor any other that was recorded by then.\<close>

theorem provider_events_are_taken_once:
  assumes "\<And>i. clean_delivery (inps i)" "\<And>i. dl_pcs s0 i = Arrived" "delivery_steps inps s0 s" "delivery_steps inps s t"
  shows "providerIds (dl_world s) \<subseteq> providerIds (dl_world t) \<and>
    (\<forall>i. sorted_wrt (\<lambda>a b. event_keys a \<inter> event_keys b = {}) (received_by (dl_pcs t i))) \<and>
    (\<forall>i e. e \<in> set (received_by (dl_pcs t i)) \<longrightarrow> event_keys e \<subseteq> providerIds (dl_world t)) \<and>
    (\<forall>i e. e \<in> set (duplicates_by (dl_pcs t i)) \<longrightarrow> event_keys e \<noteq> {} \<and> event_keys e \<subseteq> providerIds (dl_world t)) \<and>
    (\<forall>i e. dl_pcs s i = Arrived \<and> e \<in> set (received_by (dl_pcs t i)) \<longrightarrow>
       event_keys e \<inter> providerIds (dl_world s) = {} \<and>
       (\<forall>j f. f \<in> set (received_by (dl_pcs s j)) \<longrightarrow> event_keys e \<inter> event_keys f = {}))"
proof -
  have fit: "keeps_keys mem_events providerIds (inps j)" for j
    using assms(1) [of j] by (simp add: clean_delivery_def keeps_keys_def)
  have begun: "delivery_ok K S Arrived" for K S by (simp add: delivery_ok_def)
  have at_s: "delivery_ok (providerIds (dl_world s)) {} (dl_pcs s k)" for k
    by (rule memory_events.deliveries_ok [OF assms(3) _ _ fit, THEN conjunct2]) (simp_all add: assms(2) begun)
  have at_t: "providerIds (dl_world s) \<subseteq> providerIds (dl_world t) \<and> delivery_ok (providerIds (dl_world t)) {} (dl_pcs t k)" for k
    by (rule memory_events.deliveries_ok [OF assms(4) at_s _ fit]) simp
  have later: "delivery_ok (providerIds (dl_world t)) (providerIds (dl_world s)) (dl_pcs t i)" if "dl_pcs s i = Arrived" for i
    by (rule memory_events.deliveries_ok [OF assms(4) _ _ fit, THEN conjunct2]) (simp_all add: that begun)
  have recorded: "event_keys f \<subseteq> providerIds (dl_world s)" if "f \<in> set (received_by (dl_pcs s j))" for f j
    using at_s [of j] that by (simp add: delivery_ok_def)
  have fresh: "event_keys e \<inter> providerIds (dl_world s) = {}"
    if "dl_pcs s i = Arrived" "e \<in> set (received_by (dl_pcs t i))" for i e
    using later [OF that(1)] that(2) by (simp add: delivery_ok_def)
  show ?thesis
  proof (intro conjI allI impI)
    show "providerIds (dl_world s) \<subseteq> providerIds (dl_world t)" using at_t by blast
    show "sorted_wrt (\<lambda>a b. event_keys a \<inter> event_keys b = {}) (received_by (dl_pcs t i))" for i
      using at_t [of i] by (simp add: delivery_ok_def)
    show "event_keys e \<subseteq> providerIds (dl_world t)" if "e \<in> set (received_by (dl_pcs t i))" for i e
      using at_t [of i] that by (simp add: delivery_ok_def)
    show "event_keys e \<noteq> {}" "event_keys e \<subseteq> providerIds (dl_world t)" if "e \<in> set (duplicates_by (dl_pcs t i))" for i e
      using at_t [of i] that by (simp_all add: delivery_ok_def)
    show "event_keys e \<inter> providerIds (dl_world s) = {}" if "dl_pcs s i = Arrived \<and> e \<in> set (received_by (dl_pcs t i))" for i e
      using fresh that by blast
    show "event_keys e \<inter> event_keys f = {}"
      if "dl_pcs s i = Arrived \<and> e \<in> set (received_by (dl_pcs t i))" "f \<in> set (received_by (dl_pcs s j))" for i e j f
      using fresh that recorded by blast
  qed
qed

section \<open>What is refused, and what dispatch achieves\<close>

text \<open>A delivery whose signature does not verify has no effect: unless the adapter cannot receive events
  at all, the answer is 401, nothing is received, and the world is as before. Without a signature
  check in the adapter that is the answer to every delivery, unless unsigned deliveries were allowed
  explicitly.\<close>

theorem unverified_delivery_has_no_effect:
  assumes "ad_handleInboundEvent (rv_adapter inp) \<noteq> None"
    and "(case ad_verifySignature (rv_adapter inp) of None \<Rightarrow> rv_allowUnsigned inp \<noteq> Some True
      | Some verify \<Rightarrow> \<exists>s. verify (rv_rawBody inp) (rv_headers inp) (rv_source inp) = Inr s \<and> \<not> sg_valid s)"
  shows "\<exists>message. receiveIntegrationWebhook inp w = (Inr (refusal 401 message), w)"
  using assms by (auto simp: receiveIntegrationWebhook_def unverified_def io_defs split: option.splits)

text \<open>The receiver dispatches through a handler that does nothing and drops the workflows that matched:
  receiving with a workflow runtime and without one is the same.\<close>

lemma dispatch_is_idle:
  assumes "wr_grants wr = mem_grants" "wr_store wr = mem_workflows" "wf_grants w" "wf_workflows w"
  shows "dispatchStoredEvent e src (Some wr) w = (Inr (), w)"
  by (simp add: dispatchStoredEvent_def andThen_def memory_routing.routes [OF conjI [OF assms(3,4)] assms(1,2)] ret_def)

lemma unverified_runtime [simp]: "unverified (inp\<lparr>rv_workflowRuntime := r\<rparr>) = unverified inp"
  by (simp add: unverified_def split: option.split)

lemma take_without_workflows:
  assumes "wr_grants wr = mem_grants" "wr_store wr = mem_workflows" "wf_grants w" "wf_workflows w"
    and "rv_store inp = mem_events" "beside (rv_now inp)"
  shows "takeEvents (inp\<lparr>rv_workflowRuntime := Some wr\<rparr>) evs r d w = takeEvents (inp\<lparr>rv_workflowRuntime := None\<rparr>) evs r d w"
  using assms(3,4)
proof (induction evs arbitrary: r d w)
  case (Cons ev evs)
  obtain x w1 where e: "storedEvent (rv_now inp) (rv_dates inp) (rv_source inp) ev w = (x, w1)" by fastforce
  have "beside (storedEvent (rv_now inp) (rv_dates inp) (rv_source inp) ev)"
    unfolding storedEvent_def beside_def using assms(6) by (auto intro!: keeps_andThen simp: beside_def split: option.splits)
  from besideD [OF this e] Cons.prems have wf: "wf_grants w1" "wf_workflows w1" by (simp_all add: wf_grants_def wf_workflows_def)
  show ?case
  proof (cases x)
    case (Inl err)
    with e show ?thesis by (simp add: andThen_def)
  next
    case (Inr s)
    show ?thesis
    proof (cases "truthy (se_providerEventId s) \<and> providerKey (se_sourceId s) (the (se_providerEventId s)) \<in> providerIds w1")
      case True
      with e Inr Cons.IH [OF wf] show ?thesis by (simp add: andThen_def assms(5) mem_events_def event_has_def)
    next
      case False
      obtain w2 where p: "event_put s w1 = (Inr (), w2)" and g: "grants w2 = grants w1" "workflows w2 = workflows w1"
        by (auto simp: io_defs)
      from g wf have "wf_grants w2" "wf_workflows w2" by (simp_all add: wf_grants_def wf_workflows_def)
      note idle = dispatch_is_idle [OF assms(1,2) this, of s "rv_source inp"] and later = Cons.IH [OF this]
      have seen: "truthy (se_providerEventId s) \<Longrightarrow> event_has (se_sourceId s) (the (se_providerEventId s)) w1 = (Inr False, w1)"
        using False by (auto simp: event_has_def)
      show ?thesis using e Inr seen p idle later
        by (simp add: andThen_def assms(5) mem_events_def dispatchStoredEvent_def [of _ _ None] ret_def)
    qed
  qed
qed simp

theorem workflows_do_not_matter_to_receiving:
  assumes "wr_grants wr = mem_grants" "wr_store wr = mem_workflows" "wf_grants w" "wf_workflows w"
    and "rv_store inp = mem_events" "beside (rv_now inp)"
    and "\<forall>h. ad_handleInboundEvent (rv_adapter inp) = Some h \<longrightarrow> beside (h (rv_source inp) (rv_rawBody inp) (rv_headers inp))"
  shows "receiveIntegrationWebhook (inp\<lparr>rv_workflowRuntime := Some wr\<rparr>) w = receiveIntegrationWebhook (inp\<lparr>rv_workflowRuntime := None\<rparr>) w"
proof (cases "ad_handleInboundEvent (rv_adapter inp)")
  case None
  then show ?thesis by (simp add: receiveIntegrationWebhook_def)
next
  case (Some h)
  obtain x w1 where h: "h (rv_source inp) (rv_rawBody inp) (rv_headers inp) w = (x, w1)" by fastforce
  have "beside (h (rv_source inp) (rv_rawBody inp) (rv_headers inp))" using assms(7) Some by blast
  from besideD [OF this h] assms(3,4) have wf: "wf_grants w1" "wf_workflows w1" by (simp_all add: wf_grants_def wf_workflows_def)
  note same = take_without_workflows [OF assms(1,2) wf assms(5,6)]
  show ?thesis
    using same h by (auto simp: receiveIntegrationWebhook_def Some andThen_def liftE_def split: sum.splits option.splits prod.splits)
qed

text \<open>A clock that answers with dates that can be printed and keeps what events have been taken.\<close>

definition steady_clock :: "(('a InMemoryIntegrationEventStore_scheme, exn, int) io) \<Rightarrow> date_api \<Rightarrow> bool" where
  "steady_clock now dates \<longleftrightarrow> (\<forall>w. \<exists>n at w'. now w = (Inr n, w') \<and> toISO dates n = Inr at \<and> providerIds w' = providerIds w)"

lemma stored_with_key:
  assumes "steady_clock now dates" "ie_providerEventId ev = Some p" "p \<noteq> []"
  obtains e w1 where "storedEvent now dates src ev w = (Inr e, w1)" "providerIds w1 = providerIds w"
    "se_providerEventId e = Some p" "se_sourceId e = ds_id src" "event_keys e = {providerKey (ds_id src) p}"
proof -
  obtain n at w1 where "now w = (Inr n, w1)" "toISO dates n = Inr at" "providerIds w1 = providerIds w"
    using assms(1) unfolding steady_clock_def by metis
  with assms(2,3) that show ?thesis by (simp add: storedEvent_def io_defs event_keys_def)
qed

text \<open>An event is marked as taken before it is dispatched. When the dispatch fails, the delivery fails
  with it; and when the provider delivers the event again, it is reported as a duplicate and not
  dispatched, whatever the workflow runtime is by then.\<close>

theorem failed_dispatch_is_not_repeated:
  assumes "rv_store inp = mem_events" "unverified inp = Inr None" "steady_clock (rv_now inp) (rv_dates inp)"
    and "ad_handleInboundEvent (rv_adapter inp) = Some (\<lambda>_ _ _. ret \<lparr>eh_events = [ev], eh_response = None\<rparr>)"
    and "ie_providerEventId ev = Some p" "p \<noteq> []"
    and "\<forall>e. keeps providerIds (dispatchStoredEvent e (rv_source inp) (rv_workflowRuntime inp))"
    and "receiveIntegrationWebhook inp w = (Inl x, w1)"
  shows "\<exists>e w2. se_providerEventId e = Some p \<and> (\<forall>runtime. receiveIntegrationWebhook (inp\<lparr>rv_workflowRuntime := runtime\<rparr>) w1 =
     (Inr \<lparr>wh_status = 200, wh_body = JObj [(''received'', JBool True), (''count'', JNum (Finite 0)), (''duplicateCount'', JNum (Finite 1))],
       wh_headers = None, wh_received = [], wh_duplicates = [e]\<rparr>, w2))"
proof -
  have run: "receiveIntegrationWebhook (inp\<lparr>rv_workflowRuntime := r\<rparr>) v =
     andThen (takeEvents (inp\<lparr>rv_workflowRuntime := r\<rparr>) [ev] [] []) (\<lambda>(received, duplicates).
       ret \<lparr>wh_status = 200, wh_body = JObj [(''received'', JBool True), (''count'', JNum (Finite (int (length received)))),
         (''duplicateCount'', JNum (Finite (int (length duplicates))))], wh_headers = None, wh_received = received,
         wh_duplicates = duplicates\<rparr>) v" for r v
    using assms(4) by (simp add: receiveIntegrationWebhook_def webhook_answer_def assms(2) andThen_def liftE_def ret_def case_prod_beta)
  note has = memory_events.has_law
  have taken: "providerKey (ds_id (rv_source inp)) p \<in> providerIds w1"
  proof -
    obtain e v1 where e: "storedEvent (rv_now inp) (rv_dates inp) (rv_source inp) ev w = (Inr e, v1)" "se_providerEventId e = Some p"
      "se_sourceId e = ds_id (rv_source inp)" "event_keys e = {providerKey (ds_id (rv_source inp)) p}"
      by (rule stored_with_key [OF assms(3,5,6)]) blast
    obtain u v2 where put: "es_put mem_events e v1 = (u, v2)" by fastforce
    note stored = memory_events.put_law [OF put]
    obtain y v3 where d: "dispatchStoredEvent e (rv_source inp) (rv_workflowRuntime inp) v2 = (y, v3)" by fastforce
    have kept: "providerIds v3 = providerIds v2" 
      using keepsD [where m = "dispatchStoredEvent e (rv_source inp) (rv_workflowRuntime inp)", OF _ d] assms(7) by blast
    have "receiveIntegrationWebhook (inp\<lparr>rv_workflowRuntime := rv_workflowRuntime inp\<rparr>) w = (Inl x, w1)" using assms(8) by simp
    with run [of "rv_workflowRuntime inp" w] e put stored d have "w1 = v3"
      by (cases y) (simp_all add: andThen_def has assms(1,6) ret_def split: if_splits)
    with kept stored e(4) show ?thesis by simp
  qed
  obtain e v1 where e: "storedEvent (rv_now inp) (rv_dates inp) (rv_source inp) ev w1 = (Inr e, v1)" "providerIds v1 = providerIds w1"
    "se_providerEventId e = Some p" "se_sourceId e = ds_id (rv_source inp)"
    by (rule stored_with_key [OF assms(3,5,6)]) blast
  have "takeEvents (inp\<lparr>rv_workflowRuntime := r\<rparr>) [ev] [] [] w1 = (Inr ([], [e]), v1)" for r
    using e taken by (simp add: andThen_def has assms(1,6) ret_def)
  with e(3) show ?thesis by (intro exI [of _ e] exI [of _ v1]) (simp add: run andThen_def ret_def)
qed

section \<open>Deliveries at work\<close>

definition ex_source :: ResolvedDataSource where
  "ex_source = \<lparr>ds_id = ''c1'', ds_projectId = ''u1'', ds_publishedAgentId = None, ds_kind = ''mail'', ds_label = ''mail'',
     ds_consistencyModel = ''authoritative'', ds_scopes = [''send''], ds_metadata = [], ds_credentials = HmacCredentials ''s'', ds_status = source_active\<rparr>"

definition ex_event :: "string \<Rightarrow> InboundEvent" where
  "ex_event p = \<lparr>ie_eventType = ''arrived'', ie_providerEventId = Some p, ie_payload = []\<rparr>"

definition ex_adapter :: "bool \<Rightarrow> InboundEvent list \<Rightarrow> InMemoryIntegrationEventStore ConnectorAdapter" where
  "ex_adapter valid evs = \<lparr>ad_manifest = cx_manifest ''https://a.b/{t}/token'' native_idempotency, ad_validateConnectionMetadata = None, ad_inboundOnly = None, ad_catalogOnly = None,
     ad_executeRead = None, ad_executeMutation = None,
     ad_verifySignature = Some (\<lambda>_ _ _. Inr \<lparr>sg_valid = valid, sg_reason = None\<rparr>),
     ad_handleInboundEvent = Some (\<lambda>_ _ _. ret \<lparr>eh_events = evs, eh_response = None\<rparr>), ad_exchangeOAuth = None, ad_refreshToken = None,
     ad_test = (\<lambda>_ _. ret TestOk)\<rparr>"

definition ex_input :: "bool \<Rightarrow> InboundEvent list \<Rightarrow> InMemoryIntegrationEventStore IntegrationWorkflowRuntime option \<Rightarrow>
    InMemoryIntegrationEventStore receive_input" where
  "ex_input valid evs runtime = \<lparr>rv_adapter = ex_adapter valid evs, rv_source = ex_source, rv_rawBody = [], rv_headers = [],
     rv_store = mem_events, rv_workflowRuntime = runtime, rv_allowUnsigned = None, rv_now = ret 0, rv_dates = gx_dates\<rparr>"

definition ex_stored :: "string \<Rightarrow> StoredIntegrationEvent" where
  "ex_stored p = \<lparr>se_id = ''evt_c1_'' @ p, se_sourceId = ''c1'', se_connectorId = ''mail'', se_eventType = ''arrived'', se_providerEventId = Some p,
     se_receivedAt = int_text 0, se_payload = [], se_dispatchedAt = None, se_metadata = None\<rparr>"

definition ex_world :: "(string \<times> StoredIntegrationEvent) list \<Rightarrow> string set \<Rightarrow> InMemoryIntegrationEventStore" where
  "ex_world evs keys = \<lparr>clock = (\<lambda>n. 1000 * int n), clock_reads = 0, uuids = (\<lambda>n. decimal n), uuids_drawn = 0,
     audit_events = [], results = Map.empty, approvals = [], oauth_states = Map.empty, connections = [(''c1'', gx_connection)],
     grants = [], workflows = [], stored_events = evs, providerIds = keys\<rparr>"

lemma ex_storedEvent: "storedEvent (ret 0) gx_dates ex_source (ex_event p) w = (Inr (ex_stored p), w)"
  by (simp add: storedEvent_def io_defs toISO_def max_date_def gx_dates_def ex_event_def ex_source_def ex_stored_def)

lemma ex_parts: "rv_store (ex_input v evs r) = mem_events" "rv_now (ex_input v evs r) = ret 0" "rv_dates (ex_input v evs r) = gx_dates"
  "rv_source (ex_input v evs r) = ex_source" "rv_workflowRuntime (ex_input v evs r) = r" "rv_adapter (ex_input v evs r) = ex_adapter v evs"
  "ad_handleInboundEvent (ex_adapter v evs) = Some (\<lambda>_ _ _. ret \<lparr>eh_events = evs, eh_response = None\<rparr>)"
  "unverified (ex_input True evs r) = Inr None" "ex_input v evs r\<lparr>rv_workflowRuntime := r'\<rparr> = ex_input v evs r'"
  by (simp_all add: ex_input_def ex_adapter_def unverified_def)

lemma ex_clean: "clean_delivery (ex_input v evs None)"
  by (simp add: clean_delivery_def ex_parts dispatchStoredEvent_def)

lemma ex_taken:
  "es_hasProviderEvent mem_events ''c1'' p (ex_world evs keys) = (Inr (providerKey ''c1'' p \<in> keys), ex_world evs keys)"
  "p \<noteq> [] \<Longrightarrow> es_put mem_events (ex_stored p) (ex_world evs keys) =
     (Inr (), ex_world (AList.update (''evt_c1_'' @ p) (ex_stored p) evs) (insert (providerKey ''c1'' p) keys))"
  "se_providerEventId (ex_stored p) = Some p" "se_sourceId (ex_stored p) = ''c1''"
  by (simp_all add: mem_events_def io_defs ex_world_def ex_stored_def)

lemma ex_received:
  "receiveIntegrationWebhook (ex_input True evs r) w = (case takeEvents (ex_input True evs r) evs [] [] w of
     (Inl e, w') \<Rightarrow> (Inl e, w')
   | (Inr (received, duplicates), w') \<Rightarrow> (Inr \<lparr>wh_status = 200, wh_body = JObj [(''received'', JBool True),
       (''count'', JNum (Finite (int (length received)))), (''duplicateCount'', JNum (Finite (int (length duplicates))))], wh_headers = None,
       wh_received = received, wh_duplicates = duplicates\<rparr>, w'))"
  by (simp add: receiveIntegrationWebhook_def webhook_answer_def ex_parts io_defs split: sum.split prod.split)

theorem deliveries_in_turn_witness:
  "\<exists>res w1 res' w2. receiveIntegrationWebhook (ex_input True [ex_event ''1'', ex_event ''2''] None) (ex_world [] {}) = (Inr res, w1) \<and>
     receiveIntegrationWebhook (ex_input True [ex_event ''2'', ex_event ''3''] None) w1 = (Inr res', w2) \<and>
     wh_received res = [ex_stored ''1'', ex_stored ''2''] \<and> wh_received res' = [ex_stored ''3''] \<and> wh_duplicates res' = [ex_stored ''2''] \<and>
     sorted_wrt (\<lambda>a b. event_keys a \<inter> event_keys b = {}) (wh_received res @ wh_received res')"
proof -
  note run = ex_received andThen_def ex_parts ex_storedEvent ex_taken dispatchStoredEvent_def ret_def providerKey_def
  obtain res w1 where a: "receiveIntegrationWebhook (ex_input True [ex_event ''1'', ex_event ''2''] None) (ex_world [] {}) = (Inr res, w1)"
    "w1 = ex_world [(''evt_c1_1'', ex_stored ''1''), (''evt_c1_2'', ex_stored ''2'')] {''c1:1'', ''c1:2''}" "wh_received res = [ex_stored ''1'', ex_stored ''2'']"
    by (simp add: run insert_commute)
  obtain res' w2 where b: "receiveIntegrationWebhook (ex_input True [ex_event ''2'', ex_event ''3''] None) w1 = (Inr res', w2)"
    "wh_received res' = [ex_stored ''3'']" "wh_duplicates res' = [ex_stored ''2'']"
    by (simp add: run a(2))
  from deliveries_in_turn [OF ex_clean a(1) subset_refl ex_clean b(1)] a(1,3) b show ?thesis by blast
qed

text \<open>Two deliveries of one event that overlap: both look before either stores, and both receive it. A third,
  which begins when they have answered, takes it for a duplicate.\<close>

definition ex_both :: "nat \<Rightarrow> InMemoryIntegrationEventStore receive_input" where
  "ex_both i = ex_input True [ex_event ''1''] None"

definition ex_result :: "StoredIntegrationEvent list \<Rightarrow> StoredIntegrationEvent list \<Rightarrow> IntegrationWebhookReceiverResult" where
  "ex_result r d = webhook_answer \<lparr>eh_events = [ex_event ''1''], eh_response = None\<rparr> r d"

definition ex_state :: "(string \<times> StoredIntegrationEvent) list \<Rightarrow> string set \<Rightarrow> (nat \<Rightarrow> delivery_pc) \<Rightarrow> InMemoryIntegrationEventStore deliveries" where
  "ex_state evs keys pcs = \<lparr>dl_world = ex_world evs keys, dl_pcs = pcs\<rparr>"

abbreviation ex_handled :: EventHandlerResult where
  "ex_handled \<equiv> \<lparr>eh_events = [ex_event ''1''], eh_response = None\<rparr>"

lemma ex_moved: "moved i pc (ex_world evs keys) (ex_state evs' keys' pcs) = ex_state evs keys (pcs(i := pc))"
  by (simp add: moved_def ex_state_def)

lemma ex_arrives: "pcs i = Arrived \<Longrightarrow>
    delivery_step ex_both (ex_state evs keys pcs) (ex_state evs keys (pcs(i := Taking ex_handled [ex_event ''1''] [] [])))"
  using delivery_step.handled [of "ex_state evs keys pcs" i ex_both _ ex_handled "ex_world evs keys"]
  by (simp add: ex_both_def ex_parts ex_moved) (simp add: ex_state_def ret_def)

lemma ex_looks: "pcs i = Taking ex_handled [ex_event ''1''] [] [] \<Longrightarrow>
    delivery_step ex_both (ex_state evs keys pcs)
      (ex_state evs keys (pcs(i := Looked ex_handled (ex_stored ''1'') (providerKey ''c1'' ''1'' \<in> keys) [] [] [])))"
  using delivery_step.look [of "ex_state evs keys pcs" i ex_handled "ex_event ''1''" "[]" "[]" "[]" ex_both "ex_stored ''1''"
      "ex_world evs keys" "providerKey ''c1'' ''1'' \<in> keys" "ex_world evs keys"]
  by (simp add: ex_both_def ex_parts ex_moved ex_storedEvent ex_taken) (simp add: ex_state_def ex_storedEvent truthy_def)

lemma ex_puts: "pcs i = Looked ex_handled (ex_stored ''1'') False [] [] [] \<Longrightarrow>
    delivery_step ex_both (ex_state evs keys pcs)
      (ex_state (AList.update ''evt_c1_1'' (ex_stored ''1'') evs) (insert (providerKey ''c1'' ''1'') keys)
        (pcs(i := Stored ex_handled (ex_stored ''1'') [] [] [])))"
  using delivery_step.put [of "ex_state evs keys pcs" i ex_handled "ex_stored ''1''" "[]" "[]" "[]" ex_both
      "ex_world (AList.update ''evt_c1_1'' (ex_stored ''1'') evs) (insert (providerKey ''c1'' ''1'') keys)"]
  by (simp add: ex_both_def ex_parts ex_moved) (simp add: ex_state_def ex_taken)

lemma ex_dispatches: "pcs i = Stored ex_handled (ex_stored ''1'') [] [] [] \<Longrightarrow>
    delivery_step ex_both (ex_state evs keys pcs) (ex_state evs keys (pcs(i := Taking ex_handled [] [ex_stored ''1''] [])))"
  using delivery_step.dispatched [of "ex_state evs keys pcs" i ex_handled "ex_stored ''1''" "[]" "[]" "[]" ex_both "ex_world evs keys"]
  by (simp add: ex_both_def ex_parts ex_moved) (simp add: ex_state_def dispatchStoredEvent_def ret_def)

lemma ex_answers: "pcs i = Taking ex_handled [] r d \<Longrightarrow>
    delivery_step ex_both (ex_state evs keys pcs) (ex_state evs keys (pcs(i := Answered (ex_result r d))))"
  using delivery_step.answer [of "ex_state evs keys pcs" i ex_handled r d ex_both]
  by (simp add: ex_result_def) (simp add: ex_state_def moved_def)

lemma ex_duplicates: "pcs i = Looked ex_handled (ex_stored ''1'') True [] [] [] \<Longrightarrow>
    delivery_step ex_both (ex_state evs keys pcs) (ex_state evs keys (pcs(i := Taking ex_handled [] [] [ex_stored ''1''])))"
  using delivery_step.duplicate [of "ex_state evs keys pcs" i ex_handled "ex_stored ''1''" "[]" "[]" "[]" ex_both]
  by (simp add: ex_state_def moved_def)

definition ex_overlapped :: "InMemoryIntegrationEventStore deliveries" where
  "ex_overlapped = ex_state [(''evt_c1_1'', ex_stored ''1'')] {''c1:1''}
     ((\<lambda>_. Arrived)(0 := Answered (ex_result [ex_stored ''1''] []), 1 := Answered (ex_result [ex_stored ''1''] [])))"

definition ex_pair :: "delivery_pc \<Rightarrow> delivery_pc \<Rightarrow> nat \<Rightarrow> delivery_pc" where
  "ex_pair x y = (\<lambda>_. Arrived)(0 := x, 1 := y)"

lemma ex_pair_simps: "ex_pair x y 0 = x" "ex_pair x y 1 = y" "(ex_pair x y)(0 := z) = ex_pair z y" "(ex_pair x y)(1 := z) = ex_pair x z"
  by (auto simp: ex_pair_def)

lemma ex_key: "providerKey ''c1'' ''1'' = ''c1:1''" "AList.update ''evt_c1_1'' (ex_stored ''1'') [] = [(''evt_c1_1'', ex_stored ''1'')]"
  "AList.update ''evt_c1_1'' (ex_stored ''1'') [(''evt_c1_1'', ex_stored ''1'')] = [(''evt_c1_1'', ex_stored ''1'')]"
  by (simp_all add: providerKey_def)

text \<open>One delivery looks, stores and answers, while another stands where it is.\<close>

lemma ex_first_looks: "delivery_steps ex_both (ex_state [] {} (ex_pair Arrived y))
    (ex_state [] {} (ex_pair (Looked ex_handled (ex_stored ''1'') False [] [] []) y))"
proof -
  let ?t = "Taking ex_handled [ex_event ''1''] [] []"
  have "delivery_step ex_both (ex_state [] {} (ex_pair Arrived y)) (ex_state [] {} (ex_pair ?t y))"
    using ex_arrives [of "ex_pair Arrived y" 0 "[]" "{}"] unfolding ex_pair_simps by blast
  moreover have "delivery_step ex_both (ex_state [] {} (ex_pair ?t y))
      (ex_state [] {} (ex_pair (Looked ex_handled (ex_stored ''1'') False [] [] []) y))"
    using ex_looks [of "ex_pair ?t y" 0 "[]" "{}"] unfolding ex_pair_simps empty_iff by blast
  ultimately show ?thesis by (meson converse_rtranclp_into_rtranclp rtranclp.rtrancl_refl)
qed

lemma ex_second_looks: "delivery_steps ex_both (ex_state [] {} (ex_pair x Arrived))
    (ex_state [] {} (ex_pair x (Looked ex_handled (ex_stored ''1'') False [] [] [])))"
proof -
  let ?t = "Taking ex_handled [ex_event ''1''] [] []"
  have "delivery_step ex_both (ex_state [] {} (ex_pair x Arrived)) (ex_state [] {} (ex_pair x ?t))"
    using ex_arrives [of "ex_pair x Arrived" 1 "[]" "{}"] unfolding ex_pair_simps by blast
  moreover have "delivery_step ex_both (ex_state [] {} (ex_pair x ?t))
      (ex_state [] {} (ex_pair x (Looked ex_handled (ex_stored ''1'') False [] [] [])))"
    using ex_looks [of "ex_pair x ?t" 1 "[]" "{}"] unfolding ex_pair_simps empty_iff by blast
  ultimately show ?thesis by (meson converse_rtranclp_into_rtranclp rtranclp.rtrancl_refl)
qed

lemma ex_stores:
  assumes "pcs i = Looked ex_handled (ex_stored ''1'') False [] [] []"
  shows "delivery_steps ex_both (ex_state evs keys pcs) (ex_state (AList.update ''evt_c1_1'' (ex_stored ''1'') evs)
    (insert (providerKey ''c1'' ''1'') keys) (pcs(i := Answered (ex_result [ex_stored ''1''] []))))"
proof -
  let ?e = "AList.update ''evt_c1_1'' (ex_stored ''1'') evs" and ?k = "insert (providerKey ''c1'' ''1'') keys"
  let ?s = "pcs(i := Stored ex_handled (ex_stored ''1'') [] [] [])" and ?t = "pcs(i := Taking ex_handled [] [ex_stored ''1''] [])"
  have "delivery_step ex_both (ex_state ?e ?k ?s) (ex_state ?e ?k ?t)"
    using ex_dispatches [of ?s i ?e ?k] unfolding fun_upd_upd by simp
  moreover have "delivery_step ex_both (ex_state ?e ?k ?t) (ex_state ?e ?k (pcs(i := Answered (ex_result [ex_stored ''1''] []))))"
    using ex_answers [of ?t i "[ex_stored ''1'']" "[]" ?e ?k] unfolding fun_upd_upd by simp
  ultimately show ?thesis using ex_puts [of pcs i evs keys, OF assms]
    by (meson converse_rtranclp_into_rtranclp rtranclp.rtrancl_refl)
qed

theorem overlapping_deliveries_both_receive:
  "delivery_steps ex_both (ex_state [] {} (\<lambda>_. Arrived)) ex_overlapped \<and>
   received_by (dl_pcs ex_overlapped 0) = [ex_stored ''1''] \<and> received_by (dl_pcs ex_overlapped 1) = [ex_stored ''1''] \<and>
   event_keys (ex_stored ''1'') = {''c1:1''}"
proof -
  let ?l = "Looked ex_handled (ex_stored ''1'') False [] [] []" and ?a = "Answered (ex_result [ex_stored ''1''] [])"
    and ?e = "[(''evt_c1_1'', ex_stored ''1'')]" and ?k = "{''c1:1''}"
  have start: "ex_pair Arrived Arrived = (\<lambda>_. Arrived)" by (auto simp: ex_pair_def)
  have 1: "delivery_steps ex_both (ex_state [] {} (ex_pair ?l ?l)) (ex_state ?e ?k (ex_pair ?a ?l))"
    using ex_stores [of "ex_pair ?l ?l" 0 "[]" "{}"] unfolding ex_pair_simps ex_key by blast
  have 2: "delivery_steps ex_both (ex_state ?e ?k (ex_pair ?a ?l)) (ex_state ?e ?k (ex_pair ?a ?a))"
    using ex_stores [of "ex_pair ?a ?l" 1 ?e ?k] unfolding ex_pair_simps ex_key insert_absorb2 by blast
  have e: "ex_overlapped = ex_state ?e ?k (ex_pair ?a ?a)" by (simp only: ex_overlapped_def ex_pair_def)
  have run: "delivery_steps ex_both (ex_state [] {} (\<lambda>_. Arrived)) ex_overlapped"
    unfolding e start [symmetric]
    by (rule rtranclp_trans [OF rtranclp_trans [OF ex_first_looks ex_second_looks] rtranclp_trans [OF 1 2]])
  have "event_keys (ex_stored ''1'') = {''c1:1''}" by (simp add: event_keys_def ex_stored_def truthy_def providerKey_def)
  moreover have "received_by (dl_pcs ex_overlapped i) = [ex_stored ''1'']" if "i = 0 \<or> i = 1" for i
    using that by (auto simp: ex_overlapped_def ex_state_def ex_result_def webhook_answer_def)
  ultimately show ?thesis using run by blast
qed

lemma ex_third:
  "delivery_steps ex_both ex_overlapped (ex_overlapped\<lparr>dl_pcs := (dl_pcs ex_overlapped)(2 := Answered (ex_result [] [ex_stored ''1'']))\<rparr>)"
proof -
  let ?f = "dl_pcs ex_overlapped" and ?e = "[(''evt_c1_1'', ex_stored ''1'')]" and ?k = "{''c1:1''}"
  let ?s = "\<lambda>x. ex_state ?e ?k (?f(2 := x))" and ?l = "Looked ex_handled (ex_stored ''1'') True [] [] []"
  have s: "ex_overlapped = ex_state ?e ?k ?f" by (simp add: ex_overlapped_def ex_state_def)
  have f: "?f 2 = Arrived" by (simp add: ex_overlapped_def ex_state_def)
  have 1: "delivery_step ex_both ex_overlapped (?s (Taking ex_handled [ex_event ''1''] [] []))"
    using ex_arrives [of ?f 2 ?e ?k, OF f] by (simp only: s [symmetric])
  have 2: "delivery_step ex_both (?s (Taking ex_handled [ex_event ''1''] [] [])) (?s ?l)"
    using ex_looks [of "?f(2 := Taking ex_handled [ex_event ''1''] [] [])" 2 ?e ?k] unfolding fun_upd_upd ex_key by simp
  have 3: "delivery_step ex_both (?s ?l) (?s (Taking ex_handled [] [] [ex_stored ''1'']))"
    using ex_duplicates [of "?f(2 := ?l)" 2 ?e ?k] unfolding fun_upd_upd by simp
  have 4: "delivery_step ex_both (?s (Taking ex_handled [] [] [ex_stored ''1''])) (?s (Answered (ex_result [] [ex_stored ''1''])))"
    using ex_answers [of "?f(2 := Taking ex_handled [] [] [ex_stored ''1''])" 2 "[]" "[ex_stored ''1'']" ?e ?k]
    unfolding fun_upd_upd by simp
  have e: "ex_overlapped\<lparr>dl_pcs := ?f(2 := x)\<rparr> = ?s x" for x by (simp add: ex_overlapped_def ex_state_def)
  show ?thesis unfolding e
    by (rule converse_rtranclp_into_rtranclp, rule 1, rule converse_rtranclp_into_rtranclp, rule 2,
        rule converse_rtranclp_into_rtranclp, rule 3, rule r_into_rtranclp, rule 4)
qed

theorem provider_events_are_taken_once_witness:
  "\<exists>t. delivery_steps ex_both ex_overlapped t \<and> received_by (dl_pcs t 2) = [] \<and> duplicates_by (dl_pcs t 2) = [ex_stored ''1''] \<and>
     event_keys (ex_stored ''1'') \<subseteq> providerIds (dl_world t)"
proof -
  let ?t = "ex_overlapped\<lparr>dl_pcs := (dl_pcs ex_overlapped)(2 := Answered (ex_result [] [ex_stored ''1'']))\<rparr>"
  have clean: "clean_delivery (ex_both i)" for i unfolding ex_both_def by (rule ex_clean)
  have arrived: "dl_pcs (ex_state [] {} (\<lambda>_. Arrived)) i = Arrived" for i by (simp add: ex_state_def)
  have t: "received_by (dl_pcs ?t 2) = []" "duplicates_by (dl_pcs ?t 2) = [ex_stored ''1'']"
    by (simp_all add: ex_result_def webhook_answer_def)
  note run = overlapping_deliveries_both_receive [THEN conjunct1]
  from provider_events_are_taken_once [OF clean arrived run ex_third]
  have "\<forall>i e. e \<in> set (duplicates_by (dl_pcs ?t i)) \<longrightarrow> event_keys e \<noteq> {} \<and> event_keys e \<subseteq> providerIds (dl_world ?t)" by blast
  with t(2) have "event_keys (ex_stored ''1'') \<subseteq> providerIds (dl_world ?t)" by (metis list.set_intros(1))
  with t ex_third show ?thesis by blast
qed

theorem unverified_delivery_has_no_effect_witness:
  "\<exists>message. receiveIntegrationWebhook (ex_input False [ex_event ''1''] None) (ex_world [] {}) = (Inr (refusal 401 message), ex_world [] {})"
  by (rule unverified_delivery_has_no_effect) (simp_all add: ex_input_def ex_adapter_def)

text \<open>A workflow store that is down.\<close>

definition ex_down :: "InMemoryIntegrationEventStore IntegrationWorkflowRuntime" where
  "ex_down = \<lparr>wr_runtime = newRuntime gx_dates \<lparr>rh_listRegistry = ret wx_registry, rh_listConnections = connection_listByOwner,
       rh_getConnection = connection_get, rh_issueCapability = (\<lambda>_. throw (Error []))\<rparr> None mem_grants date_now,
     wr_subscribeTrigger = (\<lambda>_ _ _. throw (Error [])), wr_grants = mem_grants,
     wr_store = mem_workflows\<lparr>ws_list := throw (Error ''down'')\<rparr>, wr_now = date_now\<rparr>"

theorem failed_dispatch_is_not_repeated_witness:
  "\<exists>x w1 res w2 e. receiveIntegrationWebhook (ex_input True [ex_event ''1''] (Some ex_down)) (ex_world [] {}) = (Inl x, w1) \<and>
     receiveIntegrationWebhook (ex_input True [ex_event ''1''] None) w1 = (Inr res, w2) \<and> wh_received res = [] \<and> wh_duplicates res = [e]"
proof -
  have down: "dispatchStoredEvent e src (Some ex_down) = throw (Error ''down'')" for e src
    by (simp add: dispatchStoredEvent_def dispatchEvent_def ex_down_def fun_eq_iff io_defs)
  obtain x w1 where first: "receiveIntegrationWebhook (ex_input True [ex_event ''1''] (Some ex_down)) (ex_world [] {}) = (Inl x, w1)"
    by (simp add: ex_received andThen_def ex_parts ex_storedEvent ex_taken down ret_def throw_def)
  have "steady_clock (rv_now (ex_input True [ex_event ''1''] (Some ex_down))) (rv_dates (ex_input True [ex_event ''1''] (Some ex_down)))"
    by (simp add: steady_clock_def ex_parts ret_def toISO_def max_date_def gx_dates_def)
  from failed_dispatch_is_not_repeated [OF ex_parts(1) ex_parts(8) this, of "ex_event ''1''" "''1''", OF _ _ _ _ first]
  obtain e w2 where "receiveIntegrationWebhook (ex_input True [ex_event ''1''] (Some ex_down)\<lparr>rv_workflowRuntime := None\<rparr>) w1 =
     (Inr \<lparr>wh_status = 200, wh_body = JObj [(''received'', JBool True), (''count'', JNum (Finite 0)), (''duplicateCount'', JNum (Finite 1))],
       wh_headers = None, wh_received = [], wh_duplicates = [e]\<rparr>, w2)"
    by (auto simp: ex_parts ex_event_def down)
  note again = this [unfolded ex_parts(9)]
  show ?thesis by (rule exI [of _ x], rule exI [of _ w1], rule exI, rule exI [of _ w2], rule exI [of _ e], intro conjI, rule first, rule again) simp_all
qed

end
