(* ===== verification/Credentials.thy ===== *)
theory Credentials
  imports Events
begin

text \<open>
  The credentials of a connection, \<open>credentials.ts\<close>: the secret store, the data source a connection
  resolves to, and the three operations that work on the credentials of one secret at the same time,
  resolving them with a refresh of expired ones, keeping rotated ones, and revoking. The code keeps
  these apart with shared refreshes, leases and a count of revocations per secret; it is modelled
  as a system of processes that advance one awaited call at a time, with the processes, the shared
  refreshes and the two stores as its state. The connection store, which the code may be used without,
  is given, and the stores answer; the rotation of credentials is of a connection that has a secret.
\<close>

section \<open>Secrets and data sources\<close>

definition secretKey :: "SecretRef \<Rightarrow> string" where
  "secretKey r = secret_provider r @ '':'' @ secret_id r"

record InMemoryIntegrationSecretStore = InMemoryIntegrationEventStore +
  secrets :: "string \<Rightarrow> ConnectorCredentials option"

definition secret_get :: "SecretRef \<Rightarrow> ('a InMemoryIntegrationSecretStore_scheme, exn, ConnectorCredentials option) io" where
  [io_defs]: "secret_get r w = (Inr (secrets w (secretKey r)), w)"

definition secret_put :: "SecretRef \<Rightarrow> ConnectorCredentials \<Rightarrow> ('a InMemoryIntegrationSecretStore_scheme, exn, unit) io" where
  [io_defs]: "secret_put r c w = (Inr (), w\<lparr>secrets := (secrets w)(secretKey r \<mapsto> c)\<rparr>)"

definition secret_delete :: "SecretRef \<Rightarrow> ('a InMemoryIntegrationSecretStore_scheme, exn, unit) io" where
  [io_defs]: "secret_delete r w = (Inr (), w\<lparr>secrets := (secrets w)(secretKey r := None)\<rparr>)"

text \<open>A non-empty refresh token and an expiry in the past make OAuth credentials expired.\<close>

fun isExpiredOauth :: "ConnectorCredentials \<Rightarrow> int \<Rightarrow> bool" where
  "isExpiredOauth (OAuth2Credentials access refresh expires) now = ((\<exists>t. expires = Some t \<and> t \<le> now) \<and> truthy refresh)"
| "isExpiredOauth _ now = False"

definition text_field :: "metadata option \<Rightarrow> string \<Rightarrow> string option" where
  "text_field m k = (case m of None \<Rightarrow> None | Some kvs \<Rightarrow> as_string (map_of kvs k))"

text \<open>The data source a connection stands for, once its credentials are known.\<close>

definition sourceOf :: "IntegrationConnection \<Rightarrow> ConnectorCredentials \<Rightarrow> ResolvedDataSource" where
  "sourceOf c credentials =
     \<lparr>ds_id = conn_id c,
      ds_projectId = (case conn_metadata c of None \<Rightarrow> actor_id (conn_owner c)
        | Some kvs \<Rightarrow> (case map_of kvs ''projectId'' of None \<Rightarrow> actor_id (conn_owner c) | Some JNull \<Rightarrow> actor_id (conn_owner c)
            | Some v \<Rightarrow> js_String v)),
      ds_publishedAgentId = text_field (conn_metadata c) ''publishedAgentId'',
      ds_kind = conn_connectorId c,
      ds_label = nullish (nullish_opt (case conn_account c of None \<Rightarrow> None | Some a \<Rightarrow> account_displayName a)
        (case conn_account c of None \<Rightarrow> None | Some a \<Rightarrow> account_email a)) (conn_connectorId c),
      ds_consistencyModel = nullish (text_field (conn_metadata c) ''consistencyModel'') ''authoritative'',
      ds_scopes = conn_grantedScopes c, ds_metadata = nullish (conn_metadata c) [], ds_credentials = credentials,
      ds_status = (if conn_status c = cs_active then source_active else if conn_status c = cs_revoked then source_revoked else source_error)\<rparr>"

section \<open>The operations on one secret\<close>

text \<open>How a refresh fails: because the connection was revoked, or otherwise.\<close>

datatype refresh_error = Revoked | Failed exn

text \<open>Where a shared refresh, a check for revocation, and the operations stand. A check that has read the
  connection carries what it found.\<close>

datatype flight_point =
  F_read
| F_refresh ConnectorCredentials
| F_put ConnectorCredentials
| F_stored ConnectorCredentials
| F_delete
| F_done "refresh_error + ConnectorCredentials"

record CredentialRefreshFlight =
  fl_cancelled :: bool
  fl_settled :: bool
  fl_waiters :: nat
  fl_run :: flight_point

datatype check_point =
  C_start
| C_conn bool
| C_secret "IntegrationConnection option"
| C_delete "IntegrationConnection option"
| C_revoke "IntegrationConnection option"

datatype resolver_point =
  R_read
| R_before check_point
| R_acquire
| R_await nat
| R_after nat check_point ConnectorCredentials
| R_put nat ConnectorCredentials
| R_final nat check_point ConnectorCredentials
| R_expire nat exn
| R_done "refresh_error + ConnectorCredentials"

datatype rotator_point =
  P_acquire
| P_check nat check_point
| P_put
| P_conn
| P_notify
| P_done "refresh_error + unit"

datatype revoker_point = V_begin | V_delete | V_conn | V_finish | V_done

datatype cred_process =
  Resolver IntegrationConnection resolver_point
| Rotator IntegrationConnection ConnectorCredentials rotator_point
| Revoker IntegrationConnection revoker_point

text \<open>The state around one secret: the stores, the refreshes there have been and the one that is shared
  now, the leases of the rotations that are under way, the count of revocations, and the processes.\<close>

record cred_system =
  sy_ref :: SecretRef
  sy_secret :: "ConnectorCredentials option"
  sy_conns :: "string \<Rightarrow> IntegrationConnection option"
  sy_flights :: "CredentialRefreshFlight list"
  sy_current :: "nat option"
  sy_leases :: "nat \<Rightarrow> bool option"
  sy_revocations :: nat
  sy_procs :: "nat \<Rightarrow> cred_process"

text \<open>What a step takes from outside: the time, and the answer of the provider to a refresh. The adapter
  either can refresh or cannot; \<open>dt\<close> prints a date.\<close>

record outside =
  out_now :: int
  out_answer :: "exn + ConnectorCredentials"
  out_refreshable :: bool

type_synonym date_text = "int \<Rightarrow> string"

definition stamped :: "date_text \<Rightarrow> outside \<Rightarrow> connection_status \<Rightarrow> IntegrationConnection \<Rightarrow> IntegrationConnection" where
  "stamped dt out st c = c\<lparr>conn_status := st, conn_updatedAt := dt (out_now out)\<rparr>"

fun expiry :: "date_text \<Rightarrow> ConnectorCredentials \<Rightarrow> IntegrationConnection \<Rightarrow> string option" where
  "expiry dt (OAuth2Credentials access refresh (Some t)) c = (if t \<noteq> 0 then Some (dt t) else conn_expiresAt c)"
| "expiry dt _ c = conn_expiresAt c"

definition renewed :: "date_text \<Rightarrow> outside \<Rightarrow> ConnectorCredentials \<Rightarrow> IntegrationConnection \<Rightarrow> IntegrationConnection" where
  "renewed dt out credentials c = (stamped dt out cs_active c)\<lparr>conn_expiresAt := expiry dt credentials c\<rparr>"

definition put_conn :: "IntegrationConnection \<Rightarrow> cred_system \<Rightarrow> cred_system" where
  "put_conn c s = s\<lparr>sy_conns := (sy_conns s)(conn_id c \<mapsto> c)\<rparr>"

definition set_proc :: "nat \<Rightarrow> cred_process \<Rightarrow> cred_system \<Rightarrow> cred_system" where
  "set_proc p x s = s\<lparr>sy_procs := (sy_procs s)(p := x)\<rparr>"

definition set_flight :: "nat \<Rightarrow> CredentialRefreshFlight \<Rightarrow> cred_system \<Rightarrow> cred_system" where
  "set_flight k f s = s\<lparr>sy_flights := (sy_flights s)[k := f]\<rparr>"

subsection \<open>The check for revocation\<close>

text \<open>One step of \<open>assertCredentialRefreshActive\<close> for the operation whose cancellation is \<open>op\<close>: where the
  check goes on, or that it passed or refused, whether the operation is now cancelled, and the state.\<close>

datatype check_result = Going check_point | Passed | Refused

fun check_step :: "date_text \<Rightarrow> outside \<Rightarrow> IntegrationConnection \<Rightarrow> bool \<Rightarrow> check_point \<Rightarrow> cred_system \<Rightarrow> check_result \<times> bool \<times> cred_system" where
  "check_step dt out c op C_start s = (Going (C_conn (op \<or> 0 < sy_revocations s)), op, s)"
| "check_step dt out c op (C_conn revoked) s =
     (let stored = sy_conns s (conn_id c) in
      if revoked \<or> map_option conn_status stored = Some cs_revoked then (Going (C_delete stored), True, s)
      else (Going (C_secret stored), op, s))"
| "check_step dt out c op (C_secret stored) s =
     (if sy_secret s = None then (Going (C_delete stored), True, s) else (Passed, op, s))"
| "check_step dt out c op (C_delete stored) s =
     (if map_option conn_status stored = Some cs_revoked then (Refused, op, s\<lparr>sy_secret := None\<rparr>)
      else (Going (C_revoke stored), op, s\<lparr>sy_secret := None\<rparr>))"
| "check_step dt out c op (C_revoke stored) s = (Refused, op, put_conn (stamped dt out cs_revoked (nullish stored c)) s)"

subsection \<open>Shared refreshes\<close>

text \<open>\<open>acquireCredentialRefresh\<close>, for a process that joins the shared refresh or starts one.\<close>

definition acquireRefresh :: "cred_system \<Rightarrow> refresh_error + nat \<times> cred_system" where
  "acquireRefresh s =
     (if 0 < sy_revocations s then Inl Revoked
      else (case sy_current s of
          Some k \<Rightarrow> let f = sy_flights s ! k in Inr (k, set_flight k (f\<lparr>fl_waiters := Suc (fl_waiters f)\<rparr>) s)
        | None \<Rightarrow> let k = length (sy_flights s) in
            Inr (k, s\<lparr>sy_flights := sy_flights s @ [\<lparr>fl_cancelled = False, fl_settled = False, fl_waiters = 1, fl_run = F_read\<rparr>],
              sy_current := Some k\<rparr>)))"

definition clearRefresh :: "nat \<Rightarrow> cred_system \<Rightarrow> cred_system" where
  "clearRefresh k s =
     (let f = sy_flights s ! k in
      if \<not> fl_settled f \<or> fl_waiters f \<noteq> 0 \<or> sy_current s \<noteq> Some k then s else s\<lparr>sy_current := None\<rparr>)"

definition releaseRefresh :: "nat \<Rightarrow> cred_system \<Rightarrow> cred_system" where
  "releaseRefresh k s =
     (let f = sy_flights s ! k in clearRefresh k (set_flight k (f\<lparr>fl_waiters := fl_waiters f - 1\<rparr>) s))"

definition settle :: "nat \<Rightarrow> refresh_error + ConnectorCredentials \<Rightarrow> cred_system \<Rightarrow> cred_system" where
  "settle k r s = (let f = sy_flights s ! k in clearRefresh k (set_flight k (f\<lparr>fl_run := F_done r, fl_settled := True\<rparr>) s))"

definition secret_missing :: "SecretRef \<Rightarrow> exn" where
  "secret_missing r = Error (''Secret '' @ secret_provider r @ ''/'' @ secret_id r @ '' not found.'')"

text \<open>One step of the refresh itself.\<close>

definition flight_step :: "outside \<Rightarrow> nat \<Rightarrow> cred_system \<Rightarrow> cred_system option" where
  "flight_step out k s =
     (if length (sy_flights s) \<le> k then None
      else let f = sy_flights s ! k in
        (case fl_run f of
           F_read \<Rightarrow> (case sy_secret s of
               None \<Rightarrow> Some (settle k (Inl (Failed (secret_missing (sy_ref s)))) s)
             | Some latest \<Rightarrow> if \<not> isExpiredOauth latest (out_now out) then Some (settle k (Inr latest) s)
                 else Some (set_flight k (f\<lparr>fl_run := F_refresh latest\<rparr>) s))
         | F_refresh latest \<Rightarrow> (case out_answer out of
               Inl e \<Rightarrow> Some (settle k (Inl (Failed e)) s)
             | Inr fresh \<Rightarrow> if fl_cancelled f then Some (settle k (Inl Revoked) s)
                 else Some (set_flight k (f\<lparr>fl_run := F_put fresh\<rparr>) s))
         | F_put fresh \<Rightarrow> Some (set_flight k (f\<lparr>fl_run := F_stored fresh\<rparr>) (s\<lparr>sy_secret := Some fresh\<rparr>))
         | F_stored fresh \<Rightarrow> if fl_cancelled f then Some (set_flight k (f\<lparr>fl_run := F_delete\<rparr>) s)
             else Some (settle k (Inr fresh) s)
         | F_delete \<Rightarrow> Some (settle k (Inl Revoked) (s\<lparr>sy_secret := None\<rparr>))
         | F_done r \<Rightarrow> None))"

subsection \<open>The three operations\<close>

text \<open>Cancelling the refresh a process shares, when its check found the revocation.\<close>

definition cancel_flight :: "nat \<Rightarrow> bool \<Rightarrow> cred_system \<Rightarrow> cred_system" where
  "cancel_flight k b s = set_flight k ((sy_flights s ! k)\<lparr>fl_cancelled := b\<rparr>) s"

definition resolver_step :: "date_text \<Rightarrow> outside \<Rightarrow> nat \<Rightarrow> IntegrationConnection \<Rightarrow> resolver_point \<Rightarrow> cred_system \<Rightarrow> cred_system option" where
  "resolver_step dt out p c pt s =
     (let go = (\<lambda>x s. Some (set_proc p (Resolver c x) s)) in
      case pt of
        R_read \<Rightarrow>
          if conn_status c \<noteq> cs_active
          then go (R_done (Inl (Failed (Error (''Connection '' @ conn_id c @ '' is '' @ connection_status_name (conn_status c) @ ''.''))))) s
          else if conn_secretRef c = None then go (R_done (Inr NoCredentials)) s
          else (case sy_secret s of
              None \<Rightarrow> go (R_done (Inl (Failed (secret_missing (sy_ref s))))) s
            | Some now \<Rightarrow> if isExpiredOauth now (out_now out) \<and> out_refreshable out then go (R_before C_start) s
                else go (R_done (Inr now)) s)
      | R_before ck \<Rightarrow> (case check_step dt out c False ck s of
            (Going ck', _, s') \<Rightarrow> go (R_before ck') s'
          | (Refused, _, s') \<Rightarrow> go (R_done (Inl Revoked)) s'
          | (Passed, _, s') \<Rightarrow> go R_acquire s')
      | R_acquire \<Rightarrow> (case acquireRefresh s of
            Inl e \<Rightarrow> go (R_done (Inl e)) s
          | Inr (k, s') \<Rightarrow> go (R_await k) s')
      | R_await k \<Rightarrow> (case fl_run (sy_flights s ! k) of
            F_done (Inr fresh) \<Rightarrow> go (R_after k C_start fresh) s
          | F_done (Inl Revoked) \<Rightarrow> go (R_done (Inl Revoked)) (releaseRefresh k s)
          | F_done (Inl (Failed e)) \<Rightarrow> go (R_expire k e) s
          | _ \<Rightarrow> None)
      | R_after k ck fresh \<Rightarrow> (case check_step dt out c (fl_cancelled (sy_flights s ! k)) ck s of
            (Going ck', b, s') \<Rightarrow> go (R_after k ck' fresh) (cancel_flight k b s')
          | (Refused, b, s') \<Rightarrow> go (R_done (Inl Revoked)) (releaseRefresh k s')
          | (Passed, b, s') \<Rightarrow> go (R_put k fresh) s')
      | R_put k fresh \<Rightarrow> go (R_final k C_start fresh) (put_conn (renewed dt out fresh c) s)
      | R_final k ck fresh \<Rightarrow> (case check_step dt out c (fl_cancelled (sy_flights s ! k)) ck s of
            (Going ck', b, s') \<Rightarrow> go (R_final k ck' fresh) (cancel_flight k b s')
          | (Refused, b, s') \<Rightarrow> go (R_done (Inl Revoked)) (releaseRefresh k s')
          | (Passed, b, s') \<Rightarrow> go (R_done (Inr fresh)) (releaseRefresh k s'))
      | R_expire k e \<Rightarrow> go (R_done (Inl (Failed e))) (releaseRefresh k (put_conn (stamped dt out cs_expired c) s))
      | R_done r \<Rightarrow> None)"

text \<open>Keeping rotated credentials: the four checks with what lies between them.\<close>

definition after_check :: "nat \<Rightarrow> rotator_point" where
  "after_check n = (if n = 1 then P_put else if n = 2 then P_conn else if n = 3 then P_notify else P_done (Inr ()))"

definition set_lease :: "nat \<Rightarrow> bool option \<Rightarrow> cred_system \<Rightarrow> cred_system" where
  "set_lease p l s = s\<lparr>sy_leases := (sy_leases s)(p := l)\<rparr>"

definition rotator_step :: "date_text \<Rightarrow> outside \<Rightarrow> nat \<Rightarrow> IntegrationConnection \<Rightarrow> ConnectorCredentials \<Rightarrow> rotator_point \<Rightarrow> cred_system \<Rightarrow>
    cred_system option" where
  "rotator_step dt out p c fresh pt s =
     (let go = (\<lambda>x s. Some (set_proc p (Rotator c fresh x) s)) in
      case pt of
        P_acquire \<Rightarrow> go (P_check 1 C_start) (set_lease p (Some (0 < sy_revocations s)) s)
      | P_check n ck \<Rightarrow> (case check_step dt out c (sy_leases s p = Some True) ck s of
            (Going ck', b, s') \<Rightarrow> go (P_check n ck') (set_lease p (Some b) s')
          | (Refused, b, s') \<Rightarrow> go (P_done (Inl Revoked)) (set_lease p None s')
          | (Passed, b, s') \<Rightarrow> go (after_check n) (if n < 4 then s' else set_lease p None s'))
      | P_put \<Rightarrow> go (P_check 2 C_start) (s\<lparr>sy_secret := Some fresh\<rparr>)
      | P_conn \<Rightarrow> go (P_check 3 C_start) (put_conn (renewed dt out fresh c) s)
      | P_notify \<Rightarrow> go (P_check 4 C_start) s
      | P_done r \<Rightarrow> None)"

definition cancel_all :: "cred_system \<Rightarrow> cred_system" where
  "cancel_all s = (case sy_current s of None \<Rightarrow> s | Some k \<Rightarrow> cancel_flight k True s)
     \<lparr>sy_leases := (\<lambda>p. map_option (\<lambda>_. True) (sy_leases s p))\<rparr>"

definition revoker_step :: "date_text \<Rightarrow> outside \<Rightarrow> nat \<Rightarrow> IntegrationConnection \<Rightarrow> revoker_point \<Rightarrow> cred_system \<Rightarrow> cred_system option" where
  "revoker_step dt out p c pt s =
     (let go = (\<lambda>x s. Some (set_proc p (Revoker c x) s)) in
      case pt of
        V_begin \<Rightarrow> go V_delete ((cancel_all s)\<lparr>sy_revocations := Suc (sy_revocations s)\<rparr>)
      | V_delete \<Rightarrow> go V_conn (s\<lparr>sy_secret := None\<rparr>)
      | V_conn \<Rightarrow> go V_finish (put_conn (stamped dt out cs_revoked c) s)
      | V_finish \<Rightarrow> go V_done (s\<lparr>sy_revocations := sy_revocations s - 1\<rparr>)
      | V_done \<Rightarrow> None)"

definition proc_step :: "date_text \<Rightarrow> outside \<Rightarrow> nat \<Rightarrow> cred_system \<Rightarrow> cred_system option" where
  "proc_step dt out p s = (case sy_procs s p of
       Resolver c pt \<Rightarrow> resolver_step dt out p c pt s
     | Rotator c fresh pt \<Rightarrow> rotator_step dt out p c fresh pt s
     | Revoker c pt \<Rightarrow> revoker_step dt out p c pt s)"

datatype mover = Process nat | Flight nat

definition cred_step :: "date_text \<Rightarrow> outside \<Rightarrow> mover \<Rightarrow> cred_system \<Rightarrow> cred_system option" where
  "cred_step dt out m s = (case m of Process p \<Rightarrow> proc_step dt out p s | Flight k \<Rightarrow> flight_step out k s)"

section \<open>What the shared refreshes keep\<close>

fun held :: "cred_process \<Rightarrow> nat option" where
  "held (Resolver c pt) = (case pt of R_await k \<Rightarrow> Some k | R_after k ck f \<Rightarrow> Some k | R_put k f \<Rightarrow> Some k
     | R_final k ck f \<Rightarrow> Some k | R_expire k e \<Rightarrow> Some k | _ \<Rightarrow> None)"
| "held _ = None"

definition holders :: "cred_system \<Rightarrow> nat \<Rightarrow> nat set" where
  "holders s k = {p. held (sy_procs s p) = Some k}"

fun is_settled :: "flight_point \<Rightarrow> bool" where
  "is_settled (F_done r) = True"
| "is_settled _ = False"

text \<open>Whoever waits for a refresh waits for the one that is shared now, which counts them, and every
  other refresh is over.\<close>

definition flights_ok :: "cred_system \<Rightarrow> bool" where
  "flights_ok s \<longleftrightarrow>
     (\<forall>p k. held (sy_procs s p) = Some k \<longrightarrow> sy_current s = Some k) \<and>
     (\<forall>k. sy_current s = Some k \<longrightarrow> k < length (sy_flights s) \<and> finite (holders s k) \<and>
        fl_waiters (sy_flights s ! k) = card (holders s k)) \<and>
     (\<forall>k < length (sy_flights s). fl_settled (sy_flights s ! k) = is_settled (fl_run (sy_flights s ! k)) \<and>
        (sy_current s \<noteq> Some k \<longrightarrow> fl_settled (sy_flights s ! k)))"

lemma check_frame:
  "check_step dt out c op ck s = (r, b, s') \<Longrightarrow> sy_procs s' = sy_procs s \<and> sy_flights s' = sy_flights s \<and> sy_current s' = sy_current s \<and>
     sy_leases s' = sy_leases s \<and> sy_revocations s' = sy_revocations s \<and> (op \<longrightarrow> b)"
  by (cases ck) (auto simp: Let_def put_conn_def split: if_splits)

lemma holders_set:
  "holders (set_proc p x s) k = (if held x = Some k then insert p (holders s k) else holders s k - {p})"
  by (auto simp: holders_def set_proc_def)

lemma set_proc_simps [simp]:
  "sy_flights (set_proc p x s) = sy_flights s" "sy_current (set_proc p x s) = sy_current s" "sy_leases (set_proc p x s) = sy_leases s"
  "sy_revocations (set_proc p x s) = sy_revocations s" "sy_secret (set_proc p x s) = sy_secret s" "sy_conns (set_proc p x s) = sy_conns s"
  "sy_procs (set_proc p x s) q = (if q = p then x else sy_procs s q)"
  by (simp_all add: set_proc_def)

lemma set_flight_simps [simp]:
  "sy_procs (set_flight k f s) = sy_procs s" "sy_current (set_flight k f s) = sy_current s" "sy_leases (set_flight k f s) = sy_leases s"
  "sy_revocations (set_flight k f s) = sy_revocations s" "sy_secret (set_flight k f s) = sy_secret s" "sy_conns (set_flight k f s) = sy_conns s"
  "sy_flights (set_flight k f s) = (sy_flights s)[k := f]" "holders (set_flight k f s) = holders s"
  by (simp_all add: set_flight_def holders_def fun_eq_iff)

lemma clear_simps [simp]:
  "sy_procs (clearRefresh k s) = sy_procs s" "sy_leases (clearRefresh k s) = sy_leases s" "sy_flights (clearRefresh k s) = sy_flights s"
  "sy_revocations (clearRefresh k s) = sy_revocations s" "sy_secret (clearRefresh k s) = sy_secret s" "sy_conns (clearRefresh k s) = sy_conns s"
  "sy_current (clearRefresh k s) = (if fl_settled (sy_flights s ! k) \<and> fl_waiters (sy_flights s ! k) = 0 \<and> sy_current s = Some k
     then None else sy_current s)" "holders (clearRefresh k s) = holders s"
  by (simp_all add: clearRefresh_def Let_def holders_def fun_eq_iff)

text \<open>The state seen by the bookkeeping of refreshes.\<close>

lemma flights_ok_cong:
  "sy_procs s' = sy_procs s \<Longrightarrow> sy_flights s' = sy_flights s \<Longrightarrow> sy_current s' = sy_current s \<Longrightarrow> flights_ok s' = flights_ok s"
  by (simp add: flights_ok_def holders_def)

lemma flights_ok_move:
  assumes "flights_ok s" "held x = held (sy_procs s p)"
  shows "flights_ok (set_proc p x s)"
proof -
  have "holders (set_proc p x s) k = holders s k" for k
    unfolding holders_set using assms(2) by (auto simp: holders_def)
  with assms show ?thesis by (auto simp: flights_ok_def)
qed

lemma flights_ok_flight:
  assumes "flights_ok s" "k < length (sy_flights s)" "fl_waiters f = fl_waiters (sy_flights s ! k)" "fl_settled f = is_settled (fl_run f)"
    and "sy_current s \<noteq> Some k \<longrightarrow> fl_settled f"
  shows "flights_ok (set_flight k f s)"
  using assms by (auto simp: flights_ok_def nth_list_update)

lemma flights_ok_cancel:
  assumes "flights_ok s" "k < length (sy_flights s)"
  shows "flights_ok (cancel_flight k b s)"
  unfolding cancel_flight_def by (rule flights_ok_flight) (use assms in \<open>auto simp: flights_ok_def\<close>)

lemma flights_okI:
  assumes "\<And>p k. held (sy_procs s p) = Some k \<Longrightarrow> sy_current s = Some k"
    and "\<And>k. sy_current s = Some k \<Longrightarrow> k < length (sy_flights s) \<and> finite (holders s k) \<and> fl_waiters (sy_flights s ! k) = card (holders s k)"
    and "\<And>k. k < length (sy_flights s) \<Longrightarrow> fl_settled (sy_flights s ! k) = is_settled (fl_run (sy_flights s ! k)) \<and>
        (sy_current s \<noteq> Some k \<longrightarrow> fl_settled (sy_flights s ! k))"
  shows "flights_ok s"
  unfolding flights_ok_def using assms by blast

lemma flights_okD:
  assumes "flights_ok s"
  shows "held (sy_procs s p) = Some k \<Longrightarrow> sy_current s = Some k"
    and "sy_current s = Some k \<Longrightarrow> k < length (sy_flights s) \<and> finite (holders s k) \<and> fl_waiters (sy_flights s ! k) = card (holders s k)"
    and "k < length (sy_flights s) \<Longrightarrow> fl_settled (sy_flights s ! k) = is_settled (fl_run (sy_flights s ! k)) \<and>
        (sy_current s \<noteq> Some k \<longrightarrow> fl_settled (sy_flights s ! k))"
  using assms by (auto simp: flights_ok_def)

text \<open>A refresh that is over and has nobody waiting is dropped.\<close>

lemma flights_ok_clear:
  assumes "flights_ok s" "sy_current s = Some k"
  shows "flights_ok (clearRefresh k s)"
proof (cases "fl_settled (sy_flights s ! k) \<and> fl_waiters (sy_flights s ! k) = 0")
  case True
  have "finite (holders s k)" "card (holders s k) = 0" using flights_okD(2) [OF assms] True by auto
  then have "holders s k = {}" by simp
  then have nobody: "held (sy_procs s p) = None" for p
    using flights_okD(1) [OF assms(1), of p] assms(2) by (cases "held (sy_procs s p)") (auto simp: holders_def)
  show ?thesis
    by (rule flights_okI) (use True assms nobody flights_okD(3) [OF assms(1)] in \<open>auto\<close>)
next
  case False
  with assms(1) show ?thesis by (auto simp: clearRefresh_def Let_def)
qed

lemma flights_ok_settle:
  assumes "flights_ok s" "k < length (sy_flights s)" "\<not> is_settled (fl_run (sy_flights s ! k))"
  shows "flights_ok (settle k r s)"
proof -
  have "sy_current s = Some k" using flights_okD(3) [OF assms(1,2)] assms(3) by auto
  then show ?thesis unfolding settle_def Let_def
    by (intro flights_ok_clear flights_ok_flight) (use assms in auto)
qed

text \<open>The process leaves first in the books, then for real; in between its identifier is not counted.\<close>

lemma flights_ok_release:
  assumes "flights_ok s" "held (sy_procs s p) = Some k" "held x = None"
  shows "flights_ok (set_proc p x (releaseRefresh k s))"
proof -
  have cur: "sy_current s = Some k" by (rule flights_okD(1) [OF assms(1,2)])
  note w = flights_okD(2) [OF assms(1) cur]
  let ?f = "(sy_flights s ! k)\<lparr>fl_waiters := fl_waiters (sy_flights s ! k) - 1\<rparr>"
  let ?t = "set_proc p x (set_flight k ?f s)"
  have p: "p \<in> holders s k" using assms(2) by (simp add: holders_def)
  have "flights_ok ?t"
  proof (rule flights_okI)
    show "sy_current ?t = Some j" if "held (sy_procs ?t q) = Some j" for q j
      using that assms(3) flights_okD(1) [OF assms(1), of q j] by (auto split: if_splits)
    show "j < length (sy_flights ?t) \<and> finite (holders ?t j) \<and> fl_waiters (sy_flights ?t ! j) = card (holders ?t j)"
      if "sy_current ?t = Some j" for j
      using that cur w p assms(3) by (simp add: holders_set)
    show "fl_settled (sy_flights ?t ! j) = is_settled (fl_run (sy_flights ?t ! j)) \<and> (sy_current ?t \<noteq> Some j \<longrightarrow> fl_settled (sy_flights ?t ! j))"
      if "j < length (sy_flights ?t)" for j
      using that flights_okD(3) [OF assms(1), of j] by (cases "j = k") auto
  qed
  then have "flights_ok (clearRefresh k ?t)" by (rule flights_ok_clear) (simp add: cur)
  moreover have "clearRefresh k ?t = set_proc p x (releaseRefresh k s)"
    by (simp add: releaseRefresh_def Let_def clearRefresh_def set_proc_def)
  ultimately show ?thesis by simp
qed

lemma flights_ok_acquire:
  assumes "flights_ok s" "held (sy_procs s p) = None" "acquireRefresh s = Inr (k, s')" "held x = Some k"
  shows "flights_ok (set_proc p x s')"
proof (cases "sy_current s")
  case None
  with assms have nobody: "held (sy_procs s q) = None" for q by (cases "held (sy_procs s q)") (auto simp: flights_ok_def)
  then have "holders s k = {}" by (simp add: holders_def)
  moreover have "holders s' = holders s" using assms(3) None by (auto simp: acquireRefresh_def Let_def holders_def split: if_splits)
  ultimately show ?thesis
    using assms None nobody by (auto simp: acquireRefresh_def Let_def flights_ok_def holders_set nth_append less_Suc_eq split: if_splits)
next
  case (Some j)
  with assms(1) have w: "j < length (sy_flights s)" "finite (holders s j)" "fl_waiters (sy_flights s ! j) = card (holders s j)"
    by (auto simp: flights_ok_def)
  have "p \<notin> holders s j" using assms(2) by (simp add: holders_def)
  with assms Some w show ?thesis
    by (auto simp: acquireRefresh_def Let_def flights_ok_def holders_set nth_list_update split: if_splits)
qed

lemma flights_ok_check:
  assumes "flights_ok s" "check_step dt out c op ck s = (r, b, s')" "held x = held (sy_procs s p)"
  shows "flights_ok (set_proc p x s')"
proof -
  note f = check_frame [OF assms(2)]
  then have "flights_ok s' = flights_ok s" by (intro flights_ok_cong) simp_all
  with assms(1) show ?thesis by (intro flights_ok_move) (use f assms(3) in simp_all)
qed

lemma cancel_simps [simp]:
  "sy_procs (cancel_flight k b s) = sy_procs s" "sy_current (cancel_flight k b s) = sy_current s" "sy_leases (cancel_flight k b s) = sy_leases s"
  "sy_revocations (cancel_flight k b s) = sy_revocations s" "sy_secret (cancel_flight k b s) = sy_secret s" "sy_conns (cancel_flight k b s) = sy_conns s"
  by (simp_all add: cancel_flight_def)

lemma lease_simps [simp]:
  "sy_procs (set_lease p l s) = sy_procs s" "sy_current (set_lease p l s) = sy_current s" "sy_flights (set_lease p l s) = sy_flights s"
  "sy_revocations (set_lease p l s) = sy_revocations s" "sy_secret (set_lease p l s) = sy_secret s" "sy_conns (set_lease p l s) = sy_conns s"
  "sy_leases (set_lease p l s) = (sy_leases s)(p := l)"
  "sy_procs (put_conn c s) = sy_procs s" "sy_current (put_conn c s) = sy_current s" "sy_flights (put_conn c s) = sy_flights s"
  "sy_revocations (put_conn c s) = sy_revocations s" "sy_secret (put_conn c s) = sy_secret s" "sy_leases (put_conn c s) = sy_leases s"
  "sy_conns (put_conn c s) = (sy_conns s)(conn_id c \<mapsto> c)"
  by (simp_all add: set_lease_def put_conn_def)

lemma flights_ok_rotator:
  assumes "flights_ok s" "sy_procs s p = Rotator c fresh pt" "rotator_step dt out p c fresh pt s = Some s'"
  shows "flights_ok s'"
proof -
  have lease: "flights_ok (set_lease q l v) = flights_ok v" for q l v by (rule flights_ok_cong) simp_all
  have conn: "flights_ok (put_conn x v) = flights_ok v" for x v by (rule flights_ok_cong) simp_all
  have secret: "flights_ok (v\<lparr>sy_secret := x\<rparr>) = flights_ok v" for x v by (rule flights_ok_cong) simp_all
  have move: "flights_ok (set_proc p (Rotator c fresh x) v)" if "flights_ok v" "sy_procs v = sy_procs s" for x v
    by (rule flights_ok_move [OF that(1)]) (simp add: that(2) assms(2))
  show ?thesis
  proof (cases pt)
    case (P_check n ck)
    obtain r b v where k: "check_step dt out c (sy_leases s p = Some True) ck s = (r, b, v)" by (metis prod_cases3)
    note f = check_frame [OF k]
    have "flights_ok v = flights_ok s" by (rule flights_ok_cong) (use f in simp_all)
    then have all: "flights_ok (set_proc p (Rotator c fresh x) (set_lease p l v))" "flights_ok (set_proc p (Rotator c fresh x) v)" for x l
      using assms(1) f by (auto intro!: move simp: lease)
    from assms(3) P_check k show ?thesis
      by (cases r) (auto simp: rotator_step_def all)
  qed (use assms in \<open>auto simp: rotator_step_def lease conn secret intro!: move\<close>)
qed

lemma flights_ok_revoker:
  assumes "flights_ok s" "sy_procs s p = Revoker c pt" "revoker_step dt out p c pt s = Some s'"
  shows "flights_ok s'"
proof -
  have move: "flights_ok (set_proc p (Revoker c x) v)" if "flights_ok v" "sy_procs v = sy_procs s" for x v
    by (rule flights_ok_move [OF that(1)]) (simp add: that(2) assms(2))
  have all: "flights_ok ((cancel_all s)\<lparr>sy_revocations := n\<rparr>)" for n
  proof (cases "sy_current s")
    case None
    with assms(1) show ?thesis by (auto simp: cancel_all_def flights_ok_def holders_def)
  next
    case (Some k)
    with assms(1) have "flights_ok (cancel_flight k True s)" by (intro flights_ok_cancel) (auto simp: flights_ok_def)
    then show ?thesis by (subst flights_ok_cong [of _ "cancel_flight k True s"]) (simp_all add: cancel_all_def Some)
  qed
  have rest: "flights_ok (s\<lparr>sy_secret := None\<rparr>)" "flights_ok (put_conn y s)" "flights_ok (s\<lparr>sy_revocations := n\<rparr>)" for y n
    using assms(1) by (auto simp: put_conn_def flights_ok_def holders_def)
  have same: "sy_procs ((cancel_all s)\<lparr>sy_revocations := n\<rparr>) = sy_procs s" for n by (simp add: cancel_all_def split: option.splits)
  from assms(3) show ?thesis
    by (cases pt) (auto simp: revoker_step_def intro!: move all rest simp: same)
qed

lemma flights_ok_resolver:
  assumes "flights_ok s" "sy_procs s p = Resolver c pt" "resolver_step dt out p c pt s = Some s'"
  shows "flights_ok s'"
proof -
  have conn: "flights_ok (put_conn x v) = flights_ok v" for x v by (rule flights_ok_cong) simp_all
  have move: "flights_ok (set_proc p (Resolver c x) v)" if "flights_ok v" "sy_procs v = sy_procs s" "held (Resolver c x) = held (Resolver c pt)" for x v
    by (rule flights_ok_move [OF that(1)]) (simp only: that(2,3) assms(2))
  have leave: "flights_ok (set_proc p (Resolver c (R_done r)) (releaseRefresh k v))"
    if "flights_ok v" "sy_procs v = sy_procs s" "held (Resolver c pt) = Some k" for k r v
    by (rule flights_ok_release [OF that(1)]) (simp only: that(2,3) assms(2), simp)
  have checked: "flights_ok v" "sy_procs v = sy_procs s" if "check_step dt out c op ck s = (r, b, v)" for op ck r b v
    using check_frame [OF that] flights_ok_cong [of v s] assms(1) by simp_all
  have inside: "k < length (sy_flights v)" if "held (Resolver c pt) = Some k" "check_step dt out c op ck s = (r, b, v)" for k op ck r b v
    using flights_okD(1) [OF assms(1), of p k, unfolded assms(2), OF that(1)] flights_okD(2) [OF assms(1)] check_frame [OF that(2)] by simp
  show ?thesis
  proof (cases pt)
    case R_read
    with assms(1,3) show ?thesis by (auto simp: resolver_step_def Let_def intro!: move split: if_splits option.splits)
  next
    case (R_before ck)
    obtain r b v where k: "check_step dt out c False ck s = (r, b, v)" by (metis prod_cases3)
    with assms(3) R_before checked [OF k] show ?thesis by (cases r) (auto simp: resolver_step_def intro!: move)
  next
    case R_acquire
    show ?thesis
    proof (cases "acquireRefresh s")
      case (Inl e)
      with assms(1,3) R_acquire show ?thesis by (auto simp: resolver_step_def intro!: move)
    next
      case (Inr y)
      obtain j v' where y: "y = (j, v')" by fastforce
      have "flights_ok (set_proc p (Resolver c (R_await j)) v')"
        by (rule flights_ok_acquire [OF assms(1) _ Inr [unfolded y]]) (simp_all add: assms(2) R_acquire)
      with assms(3) R_acquire Inr y show ?thesis by (auto simp: resolver_step_def)
    qed
  next
    case (R_await k)
    with assms(1,3) show ?thesis
      by (auto simp: resolver_step_def intro!: move leave split: flight_point.splits sum.splits refresh_error.splits)
  next
    case (R_after k ck fresh)
    obtain r b v where k: "check_step dt out c (fl_cancelled (sy_flights s ! k)) ck s = (r, b, v)" by (metis prod_cases3)
    note v = checked [OF k] and inside [OF _ k]
    with assms(3) R_after k show ?thesis
      by (cases r) (auto simp: resolver_step_def intro!: move leave flights_ok_cancel)
  next
    case (R_put k fresh)
    with assms(1,3) show ?thesis by (auto simp: resolver_step_def conn intro!: move)
  next
    case (R_final k ck fresh)
    obtain r b v where k: "check_step dt out c (fl_cancelled (sy_flights s ! k)) ck s = (r, b, v)" by (metis prod_cases3)
    note v = checked [OF k] and inside [OF _ k]
    with assms(3) R_final k show ?thesis
      by (cases r) (auto simp: resolver_step_def intro!: move leave flights_ok_cancel)
  next
    case (R_expire k e)
    have "flights_ok (put_conn (stamped dt out cs_expired c) s)" using assms(1) by (simp add: conn)
    with assms(3) R_expire show ?thesis by (auto simp: resolver_step_def intro!: leave)
  qed (use assms in \<open>simp_all add: resolver_step_def\<close>)
qed

lemma flights_ok_flight_step:
  assumes "flights_ok s" "flight_step out k s = Some s'"
  shows "flights_ok s'"
proof -
  from assms(2) have k: "k < length (sy_flights s)" by (auto simp: flight_step_def split: if_splits)
  let ?f = "sy_flights s ! k"
  have secret: "flights_ok (v\<lparr>sy_secret := x\<rparr>) = flights_ok v" for x v by (rule flights_ok_cong) simp_all
  have set: "flights_ok (set_flight k (?f\<lparr>fl_run := pt\<rparr>) v)"
    if "flights_ok v" "sy_flights v = sy_flights s" "sy_current v = sy_current s" "\<not> is_settled pt" "\<not> is_settled (fl_run ?f)" for pt v
    by (rule flights_ok_flight) (use that k flights_okD(3) [OF assms(1) k] in auto)
  have over: "flights_ok (settle k r v)" if "flights_ok v" "sy_flights v = sy_flights s" "\<not> is_settled (fl_run ?f)" for r v
    by (rule flights_ok_settle) (use that k in auto)
  show ?thesis
    using assms k by (cases "fl_run ?f") (auto simp: flight_step_def Let_def intro!: set over simp: secret split: option.splits sum.splits if_splits)
qed

lemma flights_ok_step:
  assumes "flights_ok s" "cred_step dt out m s = Some s'"
  shows "flights_ok s'"
  using assms
  by (auto simp: cred_step_def proc_step_def intro: flights_ok_resolver flights_ok_rotator flights_ok_revoker flights_ok_flight_step
      split: mover.splits cred_process.splits)

subsection \<open>What the steps of a process leave of the refreshes\<close>

text \<open>Refreshes go on as they were and stay cancelled once they are; an unfinished one stays shared, and the
  shared one is new only when nothing is being revoked.\<close>

definition kept :: "bool \<Rightarrow> cred_system \<Rightarrow> cred_system \<Rightarrow> bool" where
  "kept a s s' \<longleftrightarrow> length (sy_flights s) \<le> length (sy_flights s') \<and>
     (\<forall>k < length (sy_flights s). fl_run (sy_flights s' ! k) = fl_run (sy_flights s ! k) \<and>
        fl_settled (sy_flights s' ! k) = fl_settled (sy_flights s ! k) \<and>
        (fl_cancelled (sy_flights s ! k) \<longrightarrow> fl_cancelled (sy_flights s' ! k))) \<and>
     (\<forall>k. sy_current s = Some k \<and> \<not> fl_settled (sy_flights s ! k) \<longrightarrow> sy_current s' = Some k) \<and>
     (\<forall>k. sy_current s' = Some k \<longrightarrow> sy_current s = Some k \<or> a \<and> sy_revocations s = 0)"

lemma kept_same: "sy_flights s' = sy_flights s \<Longrightarrow> sy_current s' = sy_current s \<Longrightarrow> kept a s s'"
  by (simp add: kept_def)

lemma kept_cong: "kept a s v \<Longrightarrow> sy_flights s' = sy_flights v \<Longrightarrow> sy_current s' = sy_current v \<Longrightarrow> kept a s s'"
  by (simp add: kept_def)

lemma kept_from: "kept a v s' \<Longrightarrow> sy_flights v = sy_flights s \<Longrightarrow> sy_current v = sy_current s \<Longrightarrow> sy_revocations v = sy_revocations s \<Longrightarrow> kept a s s'"
  by (simp add: kept_def)

lemma kept_cancel: "(k < length (sy_flights s) \<and> fl_cancelled (sy_flights s ! k) \<longrightarrow> b) \<Longrightarrow> kept a s (cancel_flight k b s)"
  by (cases "k < length (sy_flights s)") (auto simp: kept_def cancel_flight_def nth_list_update list_update_beyond)

lemma kept_release: "kept a s (releaseRefresh k s)"
  by (cases "k < length (sy_flights s)") (auto simp: kept_def releaseRefresh_def Let_def nth_list_update list_update_beyond)

lemma kept_acquire:
  assumes "acquireRefresh s = Inr (k, s')"
  shows "kept True s s'"
proof (cases "sy_current s")
  case None
  with assms show ?thesis by (auto simp: kept_def acquireRefresh_def Let_def nth_append split: if_splits)
next
  case (Some j)
  with assms have "s' = set_flight j ((sy_flights s ! j)\<lparr>fl_waiters := Suc (fl_waiters (sy_flights s ! j))\<rparr>) s"
    by (auto simp: acquireRefresh_def Let_def split: if_splits)
  then show ?thesis by (cases "j < length (sy_flights s)") (auto simp: kept_def nth_list_update list_update_beyond)
qed

text \<open>The process a step belongs to is the only one that moves.\<close>

fun joins :: "resolver_point \<Rightarrow> bool" where
  "joins R_acquire = True"
| "joins _ = False"

lemma resolver_kept:
  assumes "resolver_step dt out p c pt s = Some s'"
  shows "kept (joins pt) s s' \<and> (\<forall>q. q \<noteq> p \<longrightarrow> sy_procs s' q = sy_procs s q) \<and> sy_leases s' = sy_leases s \<and>
     (sy_secret s' = sy_secret s \<or> sy_secret s' = None) \<and> (\<exists>pt'. sy_procs s' p = Resolver c pt')"
proof -
  have checked: "sy_flights v = sy_flights s" "sy_current v = sy_current s" "sy_revocations v = sy_revocations s" "sy_procs v = sy_procs s"
    "sy_leases v = sy_leases s" "sy_secret v = sy_secret s \<or> sy_secret v = None" "op \<longrightarrow> b"
    if "check_step dt out c op ck s = (r, b, v)" for op ck r b v
    using check_frame [OF that] that by (cases ck; auto simp: Let_def split: if_splits)+
  have release: "sy_procs (releaseRefresh k v) = sy_procs v" "sy_leases (releaseRefresh k v) = sy_leases v" "sy_secret (releaseRefresh k v) = sy_secret v" for k v
    by (simp_all add: releaseRefresh_def Let_def)
  have moved: "kept a s (set_proc p x v)" if "kept a s v" for a x v by (rule kept_cong [OF that]) simp_all
  have left: "kept a s (releaseRefresh k v)" if "sy_flights v = sy_flights s" "sy_current v = sy_current s" "sy_revocations v = sy_revocations s" for a k v
    by (rule kept_from [OF kept_release]) (use that in simp_all)
  have stopped: "kept a s (cancel_flight k b v)" if "check_step dt out c (fl_cancelled (sy_flights s ! k)) ck s = (r, b, v)" for a k ck r b v
    by (rule kept_from [OF kept_cancel]) (use checked [OF that] in auto)
  have unchanged: "kept a s s" for a by (rule kept_same) simp_all
  have same: "kept a s v" if "check_step dt out c op ck s = (r, b, v)" for a op ck r b v
    by (rule kept_same) (use checked [OF that] in simp_all)
  show ?thesis
  proof (cases pt)
    case R_read
    with assms show ?thesis by (auto simp: resolver_step_def Let_def intro!: moved kept_same split: if_splits option.splits)
  next
    case (R_before ck)
    obtain r b v where k: "check_step dt out c False ck s = (r, b, v)" by (metis prod_cases3)
    with assms R_before checked [OF k] show ?thesis
      by (cases r) (auto simp: resolver_step_def intro!: moved intro: same [OF k])
  next
    case R_acquire
    have acquired: "kept True s v" "sy_procs v = sy_procs s" "sy_leases v = sy_leases s" "sy_secret v = sy_secret s"
      if "acquireRefresh s = Inr (j, v)" for j v
      using that kept_acquire [OF that] by (auto simp: acquireRefresh_def Let_def split: if_splits option.splits)
    with assms R_acquire show ?thesis
      by (cases "acquireRefresh s") (auto simp: resolver_step_def intro!: moved unchanged dest: acquired)
  next
    case (R_await k)
    with assms show ?thesis
      by (auto simp: resolver_step_def release intro!: moved unchanged left split: flight_point.splits sum.splits refresh_error.splits)
  next
    case (R_after k ck fresh)
    obtain r b v where k: "check_step dt out c (fl_cancelled (sy_flights s ! k)) ck s = (r, b, v)" by (metis prod_cases3)
    from assms R_after k checked [OF k] stopped [OF k] same [OF k] show ?thesis
      by (cases r) (auto simp: resolver_step_def release intro!: moved left)
  next
    case (R_put k fresh)
    with assms show ?thesis by (auto simp: resolver_step_def intro!: moved kept_same)
  next
    case (R_final k ck fresh)
    obtain r b v where k: "check_step dt out c (fl_cancelled (sy_flights s ! k)) ck s = (r, b, v)" by (metis prod_cases3)
    from assms R_final k checked [OF k] stopped [OF k] same [OF k] show ?thesis
      by (cases r) (auto simp: resolver_step_def release intro!: moved left)
  next
    case (R_expire k e)
    with assms show ?thesis by (auto simp: resolver_step_def release intro!: moved left)
  qed (use assms in \<open>simp_all add: resolver_step_def\<close>)
qed

fun at_work :: "cred_process \<Rightarrow> bool" where
  "at_work (Rotator c fresh pt) = (case pt of P_acquire \<Rightarrow> False | P_done r \<Rightarrow> False | _ \<Rightarrow> True)"
| "at_work _ = False"

text \<open>A rotation at work has a lease.\<close>

definition leases_ok :: "cred_system \<Rightarrow> bool" where
  "leases_ok s \<longleftrightarrow> (\<forall>p. at_work (sy_procs s p) \<longrightarrow> sy_leases s p \<noteq> None)"

lemma rotator_kept:
  assumes "rotator_step dt out p c fresh pt s = Some s'"
  shows "kept False s s' \<and> (\<forall>q. q \<noteq> p \<longrightarrow> sy_procs s' q = sy_procs s q \<and> sy_leases s' q = sy_leases s q) \<and>
     (\<exists>pt'. sy_procs s' p = Rotator c fresh pt' \<and> (at_work (Rotator c fresh pt') \<longrightarrow>
        (if pt = P_acquire then sy_leases s' p = Some (0 < sy_revocations s)
         else sy_leases s p \<noteq> None \<longrightarrow> sy_leases s' p \<noteq> None \<and> (sy_leases s p = Some True \<longrightarrow> sy_leases s' p = Some True))))"
proof (cases pt)
  case (P_check n ck)
  obtain r b v where k: "check_step dt out c (sy_leases s p = Some True) ck s = (r, b, v)" by (metis prod_cases3)
  note f = check_frame [OF k]
  then have k': "kept a s (set_proc p x v)" "kept a s (set_proc p x (set_lease p l v))" for a x l by (auto intro!: kept_same)
  from assms P_check k k' f show ?thesis
    by (cases r) (auto simp: rotator_step_def after_check_def split: if_splits)
qed (use assms in \<open>auto simp: rotator_step_def intro!: kept_same\<close>)

lemma revoker_kept:
  assumes "revoker_step dt out p c pt s = Some s'"
  shows "kept False s s' \<and> (\<forall>q. q \<noteq> p \<longrightarrow> sy_procs s' q = sy_procs s q) \<and> (\<exists>pt'. sy_procs s' p = Revoker c pt') \<and>
     (\<forall>q. sy_leases s' q = sy_leases s q \<or> sy_leases s' q = map_option (\<lambda>_. True) (sy_leases s q))"
proof -
  have all: "kept a s ((cancel_all s)\<lparr>sy_revocations := n\<rparr>)" for a n
  proof (cases "sy_current s")
    case (Some k)
    show ?thesis by (rule kept_cong [OF kept_cancel [of k s True]]) (simp_all add: cancel_all_def Some)
  qed (auto simp: cancel_all_def intro!: kept_same)
  have moved: "kept a s (set_proc p x v)" if "kept a s v" for a x v by (rule kept_cong [OF that]) simp_all
  have same: "sy_procs (cancel_all s) = sy_procs s" "sy_leases (cancel_all s) = (\<lambda>q. map_option (\<lambda>_. True) (sy_leases s q))"
    by (simp_all add: cancel_all_def split: option.splits)
  from assms show ?thesis
    by (cases pt) (auto simp: revoker_step_def same intro!: moved all kept_same)
qed

lemma flight_step_kept:
  assumes "flights_ok s" "flight_step out k s = Some s'"
  shows "sy_procs s' = sy_procs s \<and> sy_leases s' = sy_leases s \<and> sy_revocations s' = sy_revocations s \<and>
     length (sy_flights s') = length (sy_flights s) \<and> sy_current s = Some k \<and> k < length (sy_flights s) \<and>
     (\<forall>j. fl_cancelled (sy_flights s' ! j) = fl_cancelled (sy_flights s ! j)) \<and>
     (\<forall>j. j \<noteq> k \<longrightarrow> sy_flights s' ! j = sy_flights s ! j) \<and>
     (sy_current s' = Some k \<or> sy_current s' = None \<and> is_settled (fl_run (sy_flights s' ! k)))"
proof -
  from assms(2) have k: "k < length (sy_flights s)" and n: "\<not> is_settled (fl_run (sy_flights s ! k))"
    by (cases "fl_run (sy_flights s ! k)"; auto simp: flight_step_def split: if_splits)+
  then have "sy_current s = Some k" using flights_okD(3) [OF assms(1)] by metis
  with assms(2) k show ?thesis
    by (cases "fl_run (sy_flights s ! k)")
      (auto simp: flight_step_def settle_def Let_def nth_list_update split: option.splits sum.splits if_splits)
qed

section \<open>Revocation\<close>

text \<open>A step that lets a process take part: a rotation that takes its lease, or a resolution that joins or
  starts a refresh.\<close>

fun enters :: "cred_process \<Rightarrow> bool" where
  "enters (Rotator c fresh P_acquire) = True"
| "enters (Resolver c pt) = joins pt"
| "enters _ = False"

definition entering :: "mover \<Rightarrow> cred_system \<Rightarrow> bool" where
  "entering m s = (case m of Flight k \<Rightarrow> False | Process p \<Rightarrow> enters (sy_procs s p))"

text \<open>Every refresh and rotation that is under way knows that it is cancelled.\<close>

definition sealed :: "cred_system \<Rightarrow> bool" where
  "sealed s \<longleftrightarrow> (\<forall>k. sy_current s = Some k \<longrightarrow> fl_cancelled (sy_flights s ! k)) \<and>
     (\<forall>p. at_work (sy_procs s p) \<longrightarrow> sy_leases s p = Some True)"

lemma leases_ok_step:
  assumes "leases_ok s" "flights_ok s" "cred_step dt out m s = Some s'"
  shows "leases_ok s'"
  unfolding leases_ok_def
proof (intro allI impI)
  fix q assume w: "at_work (sy_procs s' q)"
  have old: "at_work (sy_procs s q) \<Longrightarrow> sy_leases s q \<noteq> None" using assms(1) by (simp add: leases_ok_def)
  show "sy_leases s' q \<noteq> None"
  proof (cases m)
    case (Flight k)
    with assms(3) have "flight_step out k s = Some s'" by (simp add: cred_step_def)
    from flight_step_kept [OF assms(2) this] w old show ?thesis by simp
  next
    case (Process p)
    with assms(3) have st: "proc_step dt out p s = Some s'" by (simp add: cred_step_def)
    show ?thesis
    proof (cases "sy_procs s p")
      case (Resolver c pt)
      with st have "resolver_step dt out p c pt s = Some s'" by (simp add: proc_step_def)
      from resolver_kept [OF this] w old show ?thesis by (cases "q = p") auto
    next
      case (Rotator c fresh pt)
      with st have "rotator_step dt out p c fresh pt s = Some s'" by (simp add: proc_step_def)
      note k = rotator_kept [OF this]
      have "pt \<noteq> P_acquire \<Longrightarrow> at_work (sy_procs s p)" using st Rotator by (cases pt) (auto simp: proc_step_def rotator_step_def)
      with k w old Rotator show ?thesis by (cases "q = p") (auto split: if_splits)
    next
      case (Revoker c pt)
      with st have "revoker_step dt out p c pt s = Some s'" by (simp add: proc_step_def)
      note k = revoker_kept [OF this]
      show ?thesis
      proof (cases "q = p")
        case False
        with w k old have "sy_leases s q \<noteq> None" by auto
        with k show ?thesis by (metis option.map_disc_iff)
      qed (use w k in auto)
    qed
  qed
qed

lemma kept_sealed:
  assumes "kept a s s'" "sealed s" "a \<longrightarrow> 0 < sy_revocations s" "\<forall>k. sy_current s = Some k \<longrightarrow> k < length (sy_flights s)"
  shows "\<forall>k. sy_current s' = Some k \<longrightarrow> fl_cancelled (sy_flights s' ! k)"
proof (intro allI impI)
  fix k assume c: "sy_current s' = Some k"
  have "sy_current s = Some k" using assms(1,3) c unfolding kept_def by auto
  moreover from this have "k < length (sy_flights s)" "fl_cancelled (sy_flights s ! k)" using assms(2,4) by (simp_all add: sealed_def)
  ultimately show "fl_cancelled (sy_flights s' ! k)" using assms(1) unfolding kept_def by blast
qed

lemma sealed_step:
  assumes "sealed s" "flights_ok s" "cred_step dt out m s = Some s'" "entering m s \<longrightarrow> 0 < sy_revocations s"
  shows "sealed s'"
proof -
  have inside: "\<forall>k. sy_current s = Some k \<longrightarrow> k < length (sy_flights s)" using flights_okD(2) [OF assms(2)] by blast
  have old: "at_work (sy_procs s q) \<Longrightarrow> sy_leases s q = Some True" for q using assms(1) by (simp add: sealed_def)
  show ?thesis
  proof (cases m)
    case (Flight k)
    with assms(3) have "flight_step out k s = Some s'" by (simp add: cred_step_def)
    from flight_step_kept [OF assms(2) this] assms(1) show ?thesis by (auto simp: sealed_def)
  next
    case (Process p)
    with assms(3) have st: "proc_step dt out p s = Some s'" by (simp add: cred_step_def)
    show ?thesis
    proof (cases "sy_procs s p")
      case (Resolver c pt)
      with st have "resolver_step dt out p c pt s = Some s'" by (simp add: proc_step_def)
      note k = resolver_kept [OF this]
      have "joins pt \<longrightarrow> 0 < sy_revocations s" using assms(4) Process Resolver by (simp add: entering_def)
      from kept_sealed [OF k [THEN conjunct1] assms(1) this inside]
      have flights: "\<forall>k. sy_current s' = Some k \<longrightarrow> fl_cancelled (sy_flights s' ! k)" .
      have "sy_leases s' q = Some True" if "at_work (sy_procs s' q)" for q
        using that k old [of q] by (cases "q = p") auto
      with flights show ?thesis by (simp add: sealed_def)
    next
      case (Rotator c fresh pt)
      with st have "rotator_step dt out p c fresh pt s = Some s'" by (simp add: proc_step_def)
      note k = rotator_kept [OF this]
      have flights: "\<forall>k. sy_current s' = Some k \<longrightarrow> fl_cancelled (sy_flights s' ! k)"
        by (rule kept_sealed [OF k [THEN conjunct1] assms(1) _ inside]) simp
      have "pt \<noteq> P_acquire \<Longrightarrow> at_work (sy_procs s p)" using st Rotator by (cases pt) (auto simp: proc_step_def rotator_step_def)
      moreover have "pt = P_acquire \<longrightarrow> 0 < sy_revocations s" using assms(4) Process Rotator by (auto simp: entering_def)
      ultimately have "sy_leases s' q = Some True" if "at_work (sy_procs s' q)" for q
        using that k old [of q] by (cases "q = p") (auto split: if_splits)
      with flights show ?thesis by (simp add: sealed_def)
    next
      case (Revoker c pt)
      with st have "revoker_step dt out p c pt s = Some s'" by (simp add: proc_step_def)
      note k = revoker_kept [OF this]
      have flights: "\<forall>k. sy_current s' = Some k \<longrightarrow> fl_cancelled (sy_flights s' ! k)"
        by (rule kept_sealed [OF k [THEN conjunct1] assms(1) _ inside]) simp
      have "sy_leases s' q = Some True" if "at_work (sy_procs s' q)" for q
      proof (cases "q = p")
        case False
        with that k old [of q] have "sy_leases s q = Some True" by auto
        with k show ?thesis by (metis option.simps(9))
      qed (use that k in auto)
      with flights show ?thesis by (simp add: sealed_def)
    qed
  qed
qed

text \<open>Beginning a revocation cancels all there is.\<close>

lemma sealed_begin:
  assumes "leases_ok s" "flights_ok s" "sy_procs s p = Revoker c V_begin" "cred_step dt out (Process p) s = Some s'"
  shows "sealed s'" "sy_procs s' p = Revoker c V_delete" "0 < sy_revocations s'"
proof -
  from assms(3,4) have s': "s' = set_proc p (Revoker c V_delete) ((cancel_all s)\<lparr>sy_revocations := Suc (sy_revocations s)\<rparr>)"
    by (simp add: cred_step_def proc_step_def revoker_step_def)
  show "sy_procs s' p = Revoker c V_delete" "0 < sy_revocations s'" by (simp_all add: s')
  have "k < length (sy_flights s)" if "sy_current s = Some k" for k using flights_okD(2) [OF assms(2) that] by blast
  with assms(1) show "sealed s'"
    by (auto simp: s' sealed_def leases_ok_def cancel_all_def cancel_flight_def split: option.splits)
qed

subsection \<open>The secret\<close>

text \<open>Who put a secret back after the revocation deleted it, and will delete it again.\<close>

fun dirty_point :: "flight_point \<Rightarrow> bool" where
  "dirty_point (F_stored fresh) = True"
| "dirty_point F_delete = True"
| "dirty_point _ = False"

fun refusing :: "check_point \<Rightarrow> bool" where
  "refusing C_start = True"
| "refusing (C_conn revoked) = revoked"
| "refusing (C_delete stored) = True"
| "refusing _ = False"

fun dirty_proc :: "cred_process \<Rightarrow> bool" where
  "dirty_proc (Rotator c fresh (P_check n ck)) = (n = 2 \<and> refusing ck)"
| "dirty_proc _ = False"

definition clean :: "cred_system \<Rightarrow> bool" where
  "clean s \<longleftrightarrow> sy_secret s = None \<or> (\<exists>k. sy_current s = Some k \<and> dirty_point (fl_run (sy_flights s ! k))) \<or> (\<exists>p. dirty_proc (sy_procs s p))"

lemma dirty_kept:
  assumes "kept a s s'" "flights_ok s" "sy_current s = Some k" "dirty_point (fl_run (sy_flights s ! k))"
  shows "sy_current s' = Some k \<and> dirty_point (fl_run (sy_flights s' ! k))"
proof -
  have k: "k < length (sy_flights s)" using flights_okD(2) [OF assms(2,3)] by blast
  then have "\<not> fl_settled (sy_flights s ! k)" using flights_okD(3) [OF assms(2) k] assms(4) by (cases "fl_run (sy_flights s ! k)") auto
  with assms k show ?thesis by (auto simp: kept_def)
qed

lemma clean_kept:
  assumes "clean s" "kept a s s'" "flights_ok s" "sy_secret s' = sy_secret s \<or> sy_secret s' = None"
    and "\<And>q. dirty_proc (sy_procs s q) \<Longrightarrow> dirty_proc (sy_procs s' q)"
  shows "clean s'"
  using assms(1) unfolding clean_def
proof (elim disjE exE conjE)
  assume "sy_secret s = None"
  with assms(4) show "sy_secret s' = None \<or> (\<exists>k. sy_current s' = Some k \<and> dirty_point (fl_run (sy_flights s' ! k))) \<or> (\<exists>p. dirty_proc (sy_procs s' p))"
    by auto
next
  fix k assume "sy_current s = Some k" "dirty_point (fl_run (sy_flights s ! k))"
  from dirty_kept [OF assms(2,3) this]
  show "sy_secret s' = None \<or> (\<exists>k. sy_current s' = Some k \<and> dirty_point (fl_run (sy_flights s' ! k))) \<or> (\<exists>p. dirty_proc (sy_procs s' p))"
    by blast
next
  fix q assume "dirty_proc (sy_procs s q)"
  from assms(5) [OF this]
  show "sy_secret s' = None \<or> (\<exists>k. sy_current s' = Some k \<and> dirty_point (fl_run (sy_flights s' ! k))) \<or> (\<exists>p. dirty_proc (sy_procs s' p))"
    by blast
qed

lemma clean_step:
  assumes "clean s" "sealed s" "flights_ok s" "cred_step dt out m s = Some s'"
  shows "clean s'"
proof (cases m)
  case (Flight k)
  with assms(4) have st: "flight_step out k s = Some s'" by (simp add: cred_step_def)
  note f = flight_step_kept [OF assms(3) st]
  then have c: "fl_cancelled (sy_flights s ! k)" "sy_current s = Some k" using assms(2) by (simp_all add: sealed_def)
  show ?thesis
    using assms(1) st f c
    by (cases "fl_run (sy_flights s ! k)")
      (auto simp: clean_def flight_step_def settle_def Let_def split: option.splits sum.splits if_splits)
next
  case (Process p)
  with assms(4) have st: "proc_step dt out p s = Some s'" by (simp add: cred_step_def)
  show ?thesis
  proof (cases "sy_procs s p")
    case (Resolver c pt)
    with st have "resolver_step dt out p c pt s = Some s'" by (simp add: proc_step_def)
    note k = resolver_kept [OF this]
    have others: "dirty_proc (sy_procs s' q)" if "dirty_proc (sy_procs s q)" for q using that k Resolver by (cases "q = p") auto
    have "sy_secret s' = sy_secret s \<or> sy_secret s' = None" using k by simp
    then show ?thesis by (rule clean_kept [OF assms(1) k [THEN conjunct1] assms(3) _ others])
  next
    case (Revoker c pt)
    with st have r: "revoker_step dt out p c pt s = Some s'" by (simp add: proc_step_def)
    note k = revoker_kept [OF this]
    have "dirty_proc (sy_procs s' q)" if "dirty_proc (sy_procs s q)" for q using that k Revoker by (cases "q = p") auto
    moreover have "sy_secret s' = sy_secret s \<or> sy_secret s' = None"
      using r by (cases pt) (auto simp: revoker_step_def cancel_all_def split: option.splits)
    ultimately show ?thesis by (intro clean_kept [OF assms(1) k [THEN conjunct1] assms(3)])
  next
    case (Rotator c fresh pt)
    with st have r: "rotator_step dt out p c fresh pt s = Some s'" by (simp add: proc_step_def)
    note k = rotator_kept [OF this]
    have lease: "sy_leases s p = Some True" if "at_work (sy_procs s p)" using assms(2) that by (simp add: sealed_def)
    have own: "sy_secret s' = None \<or> dirty_proc (sy_procs s' p) \<or> sy_secret s' = sy_secret s \<and> \<not> dirty_proc (sy_procs s p)"
    proof (cases pt)
      case (P_check n ck)
      with Rotator lease have l: "sy_leases s p = Some True" by simp
      from r l P_check Rotator show ?thesis
        by (cases ck) (auto simp: rotator_step_def Let_def put_conn_def split: if_splits)
    qed (use r Rotator in \<open>auto simp: rotator_step_def\<close>)
    have "dirty_proc (sy_procs s' q)" if "dirty_proc (sy_procs s q)" "q \<noteq> p" for q using that k by auto
    note others = this
    show ?thesis
    proof (cases "sy_secret s' = None \<or> dirty_proc (sy_procs s' p)")
      case True
      then show ?thesis by (auto simp: clean_def)
    next
      case False
      with own have "sy_secret s' = sy_secret s" "\<not> dirty_proc (sy_procs s p)" by auto
      then show ?thesis by (intro clean_kept [OF assms(1) k [THEN conjunct1] assms(3)]) (use others in auto)
    qed
  qed
qed

text \<open>Runs of the system; in a guarded run nothing takes part any more that does so outside a revocation.\<close>

inductive cred_run :: "date_text \<Rightarrow> bool \<Rightarrow> cred_system \<Rightarrow> cred_system \<Rightarrow> bool" for dt guarded s where
  stays: "cred_run dt guarded s s"
| moves_on: "cred_run dt guarded s v \<Longrightarrow> cred_step dt out m v = Some v' \<Longrightarrow> (guarded \<and> entering m v \<longrightarrow> 0 < sy_revocations v) \<Longrightarrow>
    cred_run dt guarded s v'"

fun fresh_proc :: "cred_process \<Rightarrow> bool" where
  "fresh_proc (Resolver c pt) = (pt = R_read)"
| "fresh_proc (Rotator c f pt) = (pt = P_acquire)"
| "fresh_proc (Revoker c pt) = (pt = V_begin)"

fun done_proc :: "cred_process \<Rightarrow> bool" where
  "done_proc (Resolver c pt) = (case pt of R_done r \<Rightarrow> True | _ \<Rightarrow> False)"
| "done_proc (Rotator c f pt) = (case pt of P_done r \<Rightarrow> True | _ \<Rightarrow> False)"
| "done_proc (Revoker c pt) = (pt = V_done)"

text \<open>The connection an operation is about. All of them have the secret of the system, and one connector.\<close>

fun conn_of :: "cred_process \<Rightarrow> IntegrationConnection" where
  "conn_of (Resolver c pt) = c"
| "conn_of (Rotator c f pt) = c"
| "conn_of (Revoker c pt) = c"

definition cred_init :: "string \<Rightarrow> cred_system \<Rightarrow> bool" where
  "cred_init connector s \<longleftrightarrow> sy_flights s = [] \<and> sy_current s = None \<and> (\<forall>p. sy_leases s p = None) \<and> sy_revocations s = 0 \<and>
     (\<forall>p. fresh_proc (sy_procs s p) \<and> conn_secretRef (conn_of (sy_procs s p)) = Some (sy_ref s) \<and>
        conn_connectorId (conn_of (sy_procs s p)) = connector)"

definition cred_finished :: "cred_system \<Rightarrow> bool" where
  "cred_finished s \<longleftrightarrow> (\<forall>p. fresh_proc (sy_procs s p) \<or> done_proc (sy_procs s p)) \<and> (\<forall>k. sy_current s = Some k \<longrightarrow> is_settled (fl_run (sy_flights s ! k)))"

lemma init_ok:
  assumes "cred_init connector s"
  shows "flights_ok s" "leases_ok s"
proof -
  have f: "fresh_proc (sy_procs s p)" for p using assms by (simp add: cred_init_def)
  have "held (sy_procs s p) = None" "\<not> at_work (sy_procs s p)" for p using f [of p] by (cases "sy_procs s p"; simp)+
  with assms show "flights_ok s" "leases_ok s" by (simp_all add: cred_init_def flights_ok_def leases_ok_def)
qed

lemma run_ok: "cred_run dt guarded s v \<Longrightarrow> flights_ok s \<Longrightarrow> leases_ok s \<Longrightarrow> flights_ok v \<and> leases_ok v"
  by (induction rule: cred_run.induct) (auto dest: flights_ok_step leases_ok_step)

text \<open>The revocation of \<open>p\<close> has deleted the secret, and put the connection away.\<close>

fun past :: "bool \<Rightarrow> cred_process \<Rightarrow> bool" where
  "past put (Revoker c pt) = (pt = V_finish \<or> pt = V_done \<or> pt = V_conn \<and> \<not> put)"
| "past put _ = False"

lemma revoker_path:
  assumes "sy_procs s p = Revoker c pt" "flights_ok s" "cred_step dt out m s = Some s'"
  shows "sy_procs s' p = Revoker c pt \<or> m = Process p \<and> revoker_step dt out p c pt s = Some s'"
proof (cases m)
  case (Flight k)
  with assms(3) have "flight_step out k s = Some s'" by (simp add: cred_step_def)
  from flight_step_kept [OF assms(2) this] assms(1) show ?thesis by simp
next
  case (Process q)
  with assms(3) have st: "proc_step dt out q s = Some s'" by (simp add: cred_step_def)
  show ?thesis
  proof (cases "q = p")
    case True
    with st assms(1) Process show ?thesis by (simp add: proc_step_def)
  next
    case False
    with st assms(1) show ?thesis
      by (cases "sy_procs s q") (auto simp: proc_step_def dest!: resolver_kept rotator_kept revoker_kept)
  qed
qed

lemma past_step:
  assumes "past b (sy_procs s' p)" "sy_procs s p = Revoker c pt" "flights_ok s" "cred_step dt out m s = Some s'"
  shows "past b (sy_procs s p) \<or> m = Process p \<and> pt = (if b then V_conn else V_delete)"
  using revoker_path [OF assms(2-4)] assms(1,2)
  by (cases pt) (auto simp: revoker_step_def)

lemma revoker_stays:
  assumes "sy_procs s p = Revoker c pt" "flights_ok s" "cred_step dt out m s = Some s'"
  shows "\<exists>pt'. sy_procs s' p = Revoker c pt'"
  using revoker_path [OF assms] by (auto dest: revoker_kept)

lemma guarded_clean:
  assumes "cred_run dt True s v" "flights_ok s" "leases_ok s" "sealed s" "sy_procs s p = Revoker c V_delete"
  shows "sealed v \<and> (\<exists>pt. sy_procs v p = Revoker c pt) \<and> (past False (sy_procs v p) \<longrightarrow> clean v)"
  using assms(1)
proof (induction rule: cred_run.induct)
  case stays
  then show ?case using assms by simp
next
  case (moves_on v out m v')
  have ok: "flights_ok v" "leases_ok v" using run_ok [OF moves_on.hyps(1) assms(2,3)] by simp_all
  from moves_on.IH obtain pt where v: "sealed v" "sy_procs v p = Revoker c pt" by blast
  have s': "sealed v'" using sealed_step [OF v(1) ok(1) moves_on.hyps(2)] moves_on.hyps(3) by blast
  have "clean v'" if "past False (sy_procs v' p)"
    using past_step [OF that v(2) ok(1) moves_on.hyps(2)]
  proof
    assume "past False (sy_procs v p)"
    with moves_on.IH clean_step [OF _ v(1) ok(1) moves_on.hyps(2)] show "clean v'" by blast
  next
    assume "m = Process p \<and> pt = (if False then V_conn else V_delete)"
    with moves_on.hyps(2) v(2) have "sy_secret v' = None" by (auto simp: cred_step_def proc_step_def revoker_step_def)
    then show "clean v'" by (simp add: clean_def)
  qed
  with s' revoker_stays [OF v(2) ok(1) moves_on.hyps(2)] show ?case by blast
qed


text \<open>C37. However the refreshes, rotations and revocations of one secret overlap, once a revocation has begun
  and all that was started has run its course no credentials are left in the store: what a refresh or a rotation that was under
  way puts back after the revocation deleted the secret, it deletes again before it ends. Resolutions and
  rotations may start and read whenever they like; what must not happen is that one takes its lease, or joins
  a shared refresh, when no revocation is going on any more.\<close>

theorem revocation_removes_the_secret:
  assumes "cred_init connector s0" "cred_run dt False s0 s1" "sy_procs s1 v = Revoker c V_begin"
    and "cred_step dt out (Process v) s1 = Some s2" "cred_run dt True s2 s3" "cred_finished s3" "sy_procs s3 v = Revoker c V_done"
  shows "sy_secret s3 = None"
proof -
  have s1: "flights_ok s1" "leases_ok s1" using run_ok [OF assms(2)] init_ok [OF assms(1)] by blast+
  have s2: "flights_ok s2" "leases_ok s2" using flights_ok_step [OF s1(1) assms(4)] leases_ok_step [OF s1(2,1) assms(4)] by blast+
  note b = sealed_begin [OF s1(2,1) assms(3,4)]
  from guarded_clean [OF assms(5) s2 b(1,2)] obtain pt where s3: "sy_procs s3 v = Revoker c pt" "past False (sy_procs s3 v) \<longrightarrow> clean s3" by blast
  have over: "fresh_proc (sy_procs s3 p) \<or> done_proc (sy_procs s3 p)" for p using assms(6) by (simp add: cred_finished_def)
  have "clean s3" using assms(7) s3 by simp
  moreover have "\<not> dirty_proc (sy_procs s3 p)" for p using over [of p] by (cases "sy_procs s3 p") (auto split: rotator_point.splits)
  moreover have "\<not> dirty_point (fl_run (sy_flights s3 ! k))" if "sy_current s3 = Some k" for k
    using assms(6) that by (cases "fl_run (sy_flights s3 ! k)") (auto simp: cred_finished_def)
  ultimately show ?thesis by (auto simp: clean_def)
qed

section \<open>An example\<close>

definition kx_ref :: SecretRef where
  "kx_ref = \<lparr>secret_provider = ''vault'', secret_id = ''7'', secret_label = None\<rparr>"

definition kx_conn :: IntegrationConnection where
  "kx_conn = \<lparr>conn_id = ''c1'', conn_owner = \<lparr>actor_type = actor_user, actor_id = ''u1''\<rparr>, conn_providerId = ''p'', conn_connectorId = ''mail'',
     conn_status = cs_active, conn_grantedScopes = [], conn_account = None, conn_secretRef = Some kx_ref, conn_createdAt = '''',
     conn_updatedAt = '''', conn_expiresAt = None, conn_lastUsedAt = None, conn_metadata = None\<rparr>"

definition kx_date :: date_text where
  "kx_date t = (if t = 5 then ''five'' else [])"

definition kx_out :: outside where
  "kx_out = \<lparr>out_now = 5, out_answer = Inr (OAuth2Credentials ''new'' None None), out_refreshable = True\<rparr>"

text \<open>The first process revokes, the second resolves expired credentials, and the others do not start.\<close>

definition kx_system :: cred_system where
  "kx_system = \<lparr>sy_ref = kx_ref, sy_secret = Some (OAuth2Credentials ''old'' (Some ''r'') (Some 1)), sy_conns = [''c1'' \<mapsto> kx_conn],
     sy_flights = [], sy_current = None, sy_leases = (\<lambda>_. None), sy_revocations = 0,
     sy_procs = (\<lambda>p. if p = 0 then Revoker kx_conn V_begin else Resolver kx_conn R_read)\<rparr>"

text \<open>The steps of a schedule, one after the other; \<open>guarded\<close> as in a run.\<close>

fun run_steps :: "bool \<Rightarrow> outside \<Rightarrow> mover list \<Rightarrow> cred_system \<Rightarrow> cred_system option" where
  "run_steps guarded out [] s = Some s"
| "run_steps guarded out (m # ms) s =
     (if guarded \<and> entering m s \<and> sy_revocations s = 0 then None
      else (case cred_step kx_date out m s of None \<Rightarrow> None | Some s' \<Rightarrow> run_steps guarded out ms s'))"

lemma run_first:
  assumes "cred_run dt g s' v" "cred_step dt out m s = Some s'" "g \<and> entering m s \<longrightarrow> 0 < sy_revocations s"
  shows "cred_run dt g s v"
  using assms(1)
proof (induction rule: cred_run.induct)
  case stays
  then show ?case by (rule cred_run.moves_on [OF cred_run.stays assms(2,3)])
qed (rule cred_run.moves_on)

lemma run_steps_run: "run_steps g out ms s = Some v \<Longrightarrow> cred_run kx_date g s v"
  by (induction ms arbitrary: s) (auto intro: cred_run.stays run_first split: if_splits option.splits)

lemmas step_defs = cred_step_def proc_step_def resolver_step_def rotator_step_def revoker_step_def flight_step_def acquireRefresh_def
  releaseRefresh_def clearRefresh_def settle_def cancel_all_def cancel_flight_def set_flight_def set_proc_def put_conn_def stamped_def Let_def

text \<open>The refresh stores its credentials after the revocation has deleted the old ones.\<close>

definition kx_joined :: "mover list" where
  "kx_joined = [Process 1, Process 1, Process 1, Process 1, Process 1, Flight 0]"

definition kx_rest :: "mover list" where
  "kx_rest = [Process 0, Flight 0, Flight 0, Flight 0, Process 0, Process 0, Process 1]"

lemma kx_init: "cred_init ''mail'' kx_system"
  by (simp add: cred_init_def kx_system_def kx_conn_def)

lemma kx_runs:
  "\<exists>s1 s2 s3. run_steps False kx_out (kx_joined @ [Flight 0]) kx_system = Some s1 \<and> sy_procs s1 0 = Revoker kx_conn V_begin \<and>
     cred_step kx_date kx_out (Process 0) s1 = Some s2 \<and> run_steps True kx_out kx_rest s2 = Some s3 \<and> cred_finished s3 \<and>
     sy_procs s3 0 = Revoker kx_conn V_done"
  by (simp add: kx_joined_def kx_rest_def kx_system_def kx_out_def kx_conn_def step_defs entering_def cred_finished_def)

theorem revocation_removes_the_secret_witness:
  "\<exists>s1 s2 s3. cred_run kx_date False kx_system s1 \<and> cred_step kx_date kx_out (Process 0) s1 = Some s2 \<and> cred_run kx_date True s2 s3 \<and>
     sy_procs s3 0 = Revoker kx_conn V_done \<and> sy_secret s3 = None"
proof -
  obtain s1 s2 s3 where r: "run_steps False kx_out (kx_joined @ [Flight 0]) kx_system = Some s1" "sy_procs s1 0 = Revoker kx_conn V_begin"
      "cred_step kx_date kx_out (Process 0) s1 = Some s2" "run_steps True kx_out kx_rest s2 = Some s3" "cred_finished s3"
      "sy_procs s3 0 = Revoker kx_conn V_done"
    using kx_runs by blast
  note runs = run_steps_run [OF r(1)] run_steps_run [OF r(4)]
  have "sy_secret s3 = None"
    by (rule revocation_removes_the_secret [OF kx_init runs(1) r(2,3) runs(2) r(5,6)])
  with runs r(3,6) show ?thesis by blast
qed

text \<open>C38. Two refreshes of one secret never overlap: of all the refreshes there have been at most one is not
  over, so the refresh token, which a provider may take only once, is not redeemed by two at the same time,
  and everybody who waits for a refresh waits for the same one.\<close>

theorem refreshes_never_overlap:
  assumes "cred_init connector s0" "cred_run dt False s0 s"
    and "k < length (sy_flights s)" "\<not> fl_settled (sy_flights s ! k)"
  shows "(\<forall>j < length (sy_flights s). j \<noteq> k \<longrightarrow> fl_settled (sy_flights s ! j)) \<and>
     (\<forall>p j. held (sy_procs s p) = Some j \<longrightarrow> j = k) \<and> fl_waiters (sy_flights s ! k) = card (holders s k)"
proof -
  have ok: "flights_ok s" using run_ok [OF assms(2)] init_ok [OF assms(1)] by blast
  have "sy_current s = Some k" using flights_okD(3) [OF ok assms(3)] assms(4) by blast
  with ok show ?thesis by (auto simp: flights_ok_def)
qed

theorem refreshes_never_overlap_witness:
  "\<exists>s. cred_run kx_date False kx_system s \<and> \<not> fl_settled (sy_flights s ! 0) \<and> fl_waiters (sy_flights s ! 0) = card (holders s 0)"
proof -
  obtain s where r: "run_steps False kx_out kx_joined kx_system = Some s" "0 < length (sy_flights s)" "\<not> fl_settled (sy_flights s ! 0)"
    by (simp add: kx_joined_def kx_system_def kx_out_def kx_conn_def step_defs entering_def)
  from refreshes_never_overlap [OF kx_init run_steps_run [OF r(1)] r(2,3)] run_steps_run [OF r(1)] r(3) show ?thesis by blast
qed

text \<open>A refresh that fails, because the provider refuses it, while or after the connection is revoked, puts
  the connection back with the status \<open>expired\<close>: the catch of \<open>resolveConnectionCredentials\<close> overwrites what
  is stored, and the connection is no longer revoked.\<close>

theorem failed_refresh_overwrites_the_revocation:
  "\<exists>s. run_steps False (kx_out\<lparr>out_answer := Inl (Error ''invalid_grant'')\<rparr>)
       (kx_joined @ [Process 0, Process 0, Process 0, Process 0, Flight 0, Process 1, Process 1]) kx_system = Some s \<and>
     cred_finished s \<and> sy_procs s 0 = Revoker kx_conn V_done \<and> map_option conn_status (sy_conns s ''c1'') = Some cs_expired"
  by (simp add: kx_joined_def kx_system_def kx_out_def kx_conn_def step_defs entering_def cred_finished_def)

end
