(* ===== verification/Bridge.thy ===== *)
theory Bridge
  imports Runtime
begin

text \<open>
  The bridge into a sandbox, \<open>bridge.ts\<close>: the bundle of an agent becomes an environment variable, the
  base64url form of a JSON text, and the process in the sandbox reads it back. What \<open>JSON.parse\<close> and
  \<open>Buffer\<close> throw for text they cannot read is one error; a sandbox reads the decoded value as it is,
  after the checks of \<open>assertBridgePayload\<close>.
\<close>

section \<open>Payloads\<close>

definition DEFAULT_INTEGRATION_BRIDGE_ENV :: string where
  "DEFAULT_INTEGRATION_BRIDGE_ENV = ''TANGLE_INTEGRATION_BUNDLE''"

record IntegrationBridgeToolBinding =
  bt_name :: string
  bt_title :: string
  bt_connectorId :: string
  bt_connectionId :: string
  bt_action :: string
  bt_risk :: IntegrationActionRisk
  bt_dataClass :: IntegrationDataClass
  bt_requiredScopes :: "string list"
  bt_capabilityToken :: string

record IntegrationBridgePayload =
  bp_manifestId :: string
  bp_subject :: IntegrationActor
  bp_expiresAt :: string
  bp_tools :: "IntegrationBridgeToolBinding list"

text \<open>The first capability that covers a tool, and what the tool becomes with it.\<close>

definition covering :: "IntegrationSandboxBundle \<Rightarrow> IntegrationToolDefinition \<Rightarrow> IntegrationCapabilityBinding option" where
  "covering b t = find (\<lambda>c. bd_connectorId c = tool_connectorId t \<and> bd_connectionId c \<noteq> [] \<and>
     act_id (tool_action t) \<in> set (bd_allowedActions c)) (sb_capabilities b)"

definition bindTool :: "IntegrationToolDefinition \<Rightarrow> IntegrationCapabilityBinding \<Rightarrow> IntegrationBridgeToolBinding" where
  "bindTool t c = \<lparr>bt_name = tool_name t, bt_title = tool_title t, bt_connectorId = tool_connectorId t,
     bt_connectionId = bd_connectionId c, bt_action = act_id (tool_action t), bt_risk = tool_risk t, bt_dataClass = tool_dataClass t,
     bt_requiredScopes = tool_requiredScopes t, bt_capabilityToken = issued_token (bd_capability c)\<rparr>"

definition buildIntegrationBridgePayload :: "IntegrationSandboxBundle \<Rightarrow> IntegrationBridgePayload" where
  "buildIntegrationBridgePayload b =
     \<lparr>bp_manifestId = sb_manifestId b, bp_subject = sb_subject b, bp_expiresAt = sb_expiresAt b,
      bp_tools = concat (map (\<lambda>t. case covering b t of None \<Rightarrow> [] | Some c \<Rightarrow> [bindTool t c]) (sb_tools b))\<rparr>"

section \<open>Text\<close>

definition bridge_tool_json :: "IntegrationBridgeToolBinding \<Rightarrow> json" where
  "bridge_tool_json t = JObj [(''name'', JStr (bt_name t)), (''title'', JStr (bt_title t)), (''connectorId'', JStr (bt_connectorId t)),
     (''connectionId'', JStr (bt_connectionId t)), (''action'', JStr (bt_action t)), (''risk'', JStr (risk_name (bt_risk t))),
     (''dataClass'', JStr (data_class_name (bt_dataClass t))), (''requiredScopes'', strings_json (bt_requiredScopes t)),
     (''capabilityToken'', JStr (bt_capabilityToken t))]"

definition payload_json :: "IntegrationBridgePayload \<Rightarrow> json" where
  "payload_json p = JObj [(''version'', JNum (Finite 1)), (''manifestId'', JStr (bp_manifestId p)), (''subject'', actor_json (bp_subject p)),
     (''expiresAt'', JStr (bp_expiresAt p)), (''tools'', JArr (map bridge_tool_json (bp_tools p)))]"

definition encodeIntegrationBridgePayload :: "IntegrationBridgePayload \<Rightarrow> string" where
  "encodeIntegrationBridgePayload p = base64UrlEncode (stringify (payload_json p))"

definition assertBridgePayload :: "json \<Rightarrow> exn + json" where
  "assertBridgePayload v =
     (if \<not> is_object v then Inl (Error ''Invalid integration bridge payload.'')
      else if field v ''version'' \<noteq> Some (JNum (Finite 1)) then Inl (Error ''Unsupported integration bridge payload version.'')
      else if as_string (field v ''manifestId'') = None then Inl (Error ''Invalid integration bridge manifestId.'')
      else if as_string (field v ''expiresAt'') = None then Inl (Error ''Invalid integration bridge expiresAt.'')
      else (case field v ''tools'' of Some (JArr _) \<Rightarrow> Inr v | _ \<Rightarrow> Inl (Error ''Invalid integration bridge tools.'')))"

definition decodeIntegrationBridgePayload :: "string \<Rightarrow> exn + json" where
  "decodeIntegrationBridgePayload encoded =
     (case base64UrlDecode encoded of
        None \<Rightarrow> Inl (Thrown ''SyntaxError'')
      | Some text \<Rightarrow> (case JSON_parse text of None \<Rightarrow> Inl (Thrown ''SyntaxError'') | Some v \<Rightarrow> assertBridgePayload v))"

definition buildIntegrationBridgeEnvironment :: "IntegrationSandboxBundle \<Rightarrow> string option \<Rightarrow> string \<rightharpoonup> string" where
  "buildIntegrationBridgeEnvironment b var =
     [nullish var DEFAULT_INTEGRATION_BRIDGE_ENV \<mapsto> encodeIntegrationBridgePayload (buildIntegrationBridgePayload b)]"

definition parseIntegrationBridgeEnvironment :: "(string \<rightharpoonup> string) \<Rightarrow> string option \<Rightarrow> exn + json" where
  "parseIntegrationBridgeEnvironment env var =
     (let v = nullish var DEFAULT_INTEGRATION_BRIDGE_ENV in
      if \<not> truthy (env v) then Inl (Error (''Missing '' @ v @ ''.''))
      else decodeIntegrationBridgePayload (the (env v)))"

section \<open>Reading back\<close>

lemma textual_tool: "textual (bridge_tool_json t)"
  by (simp add: bridge_tool_json_def strings_json_def list_all_iff)

lemma textual_payload: "textual (payload_json p)"
  by (simp add: payload_json_def actor_json_def list_all_iff textual_tool)

lemma risk_name_inj: "risk_name a = risk_name b \<longleftrightarrow> a = b"
  by (cases a; cases b) simp_all

lemma data_class_name_inj: "data_class_name a = data_class_name b \<longleftrightarrow> a = b"
  by (cases a; cases b) simp_all

lemma actor_type_name_inj: "actor_type_name a = actor_type_name b \<longleftrightarrow> a = b"
  by (cases a; cases b) simp_all

lemma bridge_tool_json_inj: "bridge_tool_json t = bridge_tool_json u \<longleftrightarrow> t = u"
  by (cases t; cases u)
    (auto simp: bridge_tool_json_def strings_json_def risk_name_inj data_class_name_inj inj_map_eq_map inj_on_def)

lemma payload_json_inj: "inj payload_json"
proof (rule injI)
  fix p q assume "payload_json p = payload_json q"
  moreover have "inj bridge_tool_json" by (simp add: inj_on_def bridge_tool_json_inj)
  ultimately show "p = q"
    by (cases p; cases q; cases "bp_subject p"; cases "bp_subject q")
      (simp add: payload_json_def actor_json_def actor_type_name_inj inj_map_eq_map)
qed

lemma decode_encode: "decodeIntegrationBridgePayload (encodeIntegrationBridgePayload p) = Inr (payload_json p)"
proof -
  have "assertBridgePayload (payload_json p) = Inr (payload_json p)" by (simp add: assertBridgePayload_def payload_json_def)
  then show ?thesis
    by (simp add: decodeIntegrationBridgePayload_def encodeIntegrationBridgePayload_def buffer_round_trip JSON_round_trip textual_payload)
qed

lemma encoded_not_empty: "encodeIntegrationBridgePayload p \<noteq> []"
proof
  assume "encodeIntegrationBridgePayload p = []"
  then have "base64UrlDecode [] = Some (stringify (payload_json p))"
    using buffer_round_trip [of "stringify (payload_json p)"] by (simp add: encodeIntegrationBridgePayload_def)
  moreover have "base64UrlDecode [] = Some []" by (simp add: base64UrlDecode_def List.map_filter_def)
  ultimately have "stringify (payload_json p) = []" by simp
  then show False by simp
qed

text \<open>The sandbox reads exactly the payload that was built: whatever else its environment holds,
  parsing it gives the value of the payload of the bundle, two payloads never have the same value, and
  reading under another variable than the one that was set does not find it.\<close>

theorem bridge_environment_round_trip:
  "parseIntegrationBridgeEnvironment (base ++ buildIntegrationBridgeEnvironment b var) var = Inr (payload_json (buildIntegrationBridgePayload b)) \<and>
   inj payload_json \<and> dom (buildIntegrationBridgeEnvironment b var) = {nullish var DEFAULT_INTEGRATION_BRIDGE_ENV}"
  by (simp add: parseIntegrationBridgeEnvironment_def buildIntegrationBridgeEnvironment_def decode_encode encoded_not_empty truthy_def
    payload_json_inj)


section \<open>The tools in the sandbox\<close>

lemma bridged_tool:
  "t \<in> set (bp_tools (buildIntegrationBridgePayload b)) \<longleftrightarrow> (\<exists>tool \<in> set (sb_tools b). \<exists>c. covering b tool = Some c \<and> t = bindTool tool c)"
proof -
  have "t \<in> set (case covering b tool of None \<Rightarrow> [] | Some c \<Rightarrow> [bindTool tool c]) \<longleftrightarrow> (\<exists>c. covering b tool = Some c \<and> t = bindTool tool c)" for tool
    by (cases "covering b tool") auto
  then show ?thesis by (simp add: buildIntegrationBridgePayload_def)
qed

lemma covering_Some:
  "covering b t = Some c \<Longrightarrow> c \<in> set (sb_capabilities b) \<and> bd_connectorId c = tool_connectorId t \<and> bd_connectionId c \<noteq> [] \<and>
     act_id (tool_action t) \<in> set (bd_allowedActions c)"
  unfolding covering_def by (auto simp: find_Some_iff)

text \<open>C27. From the grant to the sandbox: every tool a sandbox is handed for a bundle over the hub and the
  in-memory grants comes with the token of a capability that was issued for the subject of the bundle on a
  recorded, active grant of the owner, on the connection and the connector of that grant, and that allows the
  action of the tool; and a tool of the bundle is left out only when no capability of the bundle covers it.\<close>

theorem bridge_offers_granted_tools:
  assumes "buildSandboxBundle rt inp w = (Inr bundle, w')" "wf_grants w"
    and "rt_grants rt = mem_grants" "rt_hub rt = runtime_hub lc pf hub"
  shows "(\<forall>t \<in> set (bp_tools (buildIntegrationBridgePayload bundle)). \<exists>c \<in> set (sb_capabilities bundle). \<exists>g \<in> snd ` set (grants w).
      grant_fits inp g \<and> bt_connectionId t = gr_connectionId g \<and> bt_connectorId t = gr_connectorId g \<and>
      bt_action t \<in> set (gr_allowedActions g) \<and> bt_capabilityToken t = issued_token (bd_capability c) \<and>
      cap_subject (issued_capability (bd_capability c)) = bi_subject inp \<and>
      cap_connectionId (issued_capability (bd_capability c)) = bt_connectionId t \<and>
      bt_action t \<in> set (cap_allowedActions (issued_capability (bd_capability c)))) \<and>
    (\<forall>tool \<in> set (sb_tools bundle). (\<exists>c. covering bundle tool = Some c) \<or>
      list_all (\<lambda>c. bd_connectorId c \<noteq> tool_connectorId tool \<or> bd_connectionId c = [] \<or>
        act_id (tool_action tool) \<notin> set (bd_allowedActions c)) (sb_capabilities bundle))"
proof (intro conjI ballI)
  fix t assume "t \<in> set (bp_tools (buildIntegrationBridgePayload bundle))"
  then obtain tool c where t: "covering bundle tool = Some c" "t = bindTool tool c" by (auto simp: bridged_tool)
  note c = covering_Some [OF t(1)]
  from bundled_capability [OF assms c [THEN conjunct1]] c
  show "\<exists>c \<in> set (sb_capabilities bundle). \<exists>g \<in> snd ` set (grants w).
      grant_fits inp g \<and> bt_connectionId t = gr_connectionId g \<and> bt_connectorId t = gr_connectorId g \<and>
      bt_action t \<in> set (gr_allowedActions g) \<and> bt_capabilityToken t = issued_token (bd_capability c) \<and>
      cap_subject (issued_capability (bd_capability c)) = bi_subject inp \<and>
      cap_connectionId (issued_capability (bd_capability c)) = bt_connectionId t \<and>
      bt_action t \<in> set (cap_allowedActions (issued_capability (bd_capability c)))"
    by (intro bexI [of _ c]) (auto simp: t(2) bindTool_def)
next
  fix tool assume "tool \<in> set (sb_tools bundle)"
  show "(\<exists>c. covering bundle tool = Some c) \<or> list_all (\<lambda>c. bd_connectorId c \<noteq> tool_connectorId tool \<or> bd_connectionId c = [] \<or>
        act_id (tool_action tool) \<notin> set (bd_allowedActions c)) (sb_capabilities bundle)"
    by (cases "covering bundle tool") (auto simp: covering_def find_None_iff list_all_iff)
qed


theorem bridge_offers_granted_tools_witness:
  "\<exists>made w2 t. buildSandboxBundle tx_runtime tx_bundle (tx_world [(''grant_m1_r1_c1'', tx_grant ''a1'' 0)]) = (Inr made, w2) \<and>
     bp_tools (buildIntegrationBridgePayload made) = [t] \<and> bt_connectionId t = ''c1'' \<and> bt_action t = ''send'' \<and>
     (\<exists>d. sb_capabilities made = [d] \<and> bt_capabilityToken t = issued_token (bd_capability d) \<and>
        cap_subject (issued_capability (bd_capability d)) = tx_agent ''a1'')"
proof -
  obtain made w2 d tool where o: "buildSandboxBundle tx_runtime tx_bundle (tx_world [(''grant_m1_r1_c1'', tx_grant ''a1'' 0)]) = (Inr made, w2)"
    "sb_capabilities made = [d]" "sb_tools made = [tool]" "bd_connectorId d = tool_connectorId tool" "bd_connectionId d = ''c1''"
    "bd_allowedActions d = [''send'']" "act_id (tool_action tool) = ''send''"
    using tx_bundled by blast
  then have c: "covering made tool = Some d" by (simp add: covering_def)
  with o(3) have t: "bp_tools (buildIntegrationBridgePayload made) = [bindTool tool d]" by (simp add: buildIntegrationBridgePayload_def)
  have "cap_subject (issued_capability (bd_capability d)) = tx_agent ''a1''"
    using bridge_offers_granted_tools [OF o(1) tx_hosted(1) tx_registry(4) tx_hosted(2)] t o(2) by (auto simp: tx_bundle_def)
  with o t show ?thesis by (simp add: bindTool_def)
qed

end
