(* ===== verification/Sandbox.thy ===== *)
theory Sandbox
  imports Bridge Events
begin

text \<open>
  The calls of a sandbox, \<open>sandbox.ts\<close>: the envelope an agent makes of a tool call, its validation by the
  host, the invocation of the hub with it, and the result the agent sees. An envelope comes from outside,
  so it is a JSON value; the invocation reads a \<open>dryRun\<close> that is not a boolean by its truth value.
\<close>

section \<open>Envelopes\<close>

record envelope_input =
  ei_capabilityToken :: string
  ei_toolName :: string
  ei_args :: "json option"
  ei_idempotencyKey :: string
  ei_dryRun :: "bool option"
  ei_metadata :: "metadata option"
  ei_maxInputBytes :: "nat option"

record IntegrationInvocationEnvelopeValidationOptions =
  vo_connectors :: "IntegrationConnector list option"
  vo_maxInputBytes :: "nat option"
  vo_requireKnownTool :: bool

definition no_options :: IntegrationInvocationEnvelopeValidationOptions where
  "no_options = \<lparr>vo_connectors = None, vo_maxInputBytes = None, vo_requireKnownTool = False\<rparr>"

definition isNonEmptyString :: "json option \<Rightarrow> bool" where
  "isNonEmptyString v \<longleftrightarrow> (case as_string v of None \<Rightarrow> False | Some s \<Rightarrow> trim s \<noteq> [])"

definition isPlainRecord :: "json option \<Rightarrow> bool" where
  "isPlainRecord v \<longleftrightarrow> (case v of None \<Rightarrow> False | Some j \<Rightarrow> is_record j)"

definition input_bytes :: "json option \<Rightarrow> nat" where
  "input_bytes v = length (utf8_bytes (stringify (nullish v JNull)))"

definition text_of :: "json \<Rightarrow> string \<Rightarrow> string" where
  "text_of env k = nullish (as_string (field env k)) []"

text \<open>\<open>connectors\<close> has a tool of the name that was taken apart.\<close>

definition knows_tool :: "IntegrationConnector list \<Rightarrow> string \<times> string \<times> string \<Rightarrow> bool" where
  "knows_tool cs t = (case t of (p, c, a) \<Rightarrow>
     (case find (\<lambda>x. con_providerId x = p \<and> con_id x = c) cs of
        None \<Rightarrow> False
      | Some x \<Rightarrow> find (\<lambda>y. act_id y = a) (con_actions x) \<noteq> None))"

definition validateIntegrationInvocationEnvelope :: "json \<Rightarrow> IntegrationInvocationEnvelopeValidationOptions \<Rightarrow> exn + unit" where
  "validateIntegrationInvocationEnvelope env opts =
     (if \<not> is_object env then Inl (Error ''Integration invocation envelope is required.'')
      else if field env ''kind'' \<noteq> Some (JStr ''integration.invocation'') then Inl (Error ''Invalid integration invocation envelope kind.'')
      else if \<not> isNonEmptyString (field env ''capabilityToken'') then Inl (Error ''Integration invocation envelope is missing capabilityToken.'')
      else if \<not> isNonEmptyString (field env ''toolName'') then Inl (Error ''Integration invocation envelope is missing toolName.'')
      else if \<not> isNonEmptyString (field env ''action'') then Inl (Error ''Integration invocation envelope is missing action.'')
      else if \<not> isNonEmptyString (field env ''idempotencyKey'') then Inl (Error ''Integration invocation envelope is missing idempotencyKey.'')
      else if field env ''metadata'' \<noteq> None \<and> \<not> isPlainRecord (field env ''metadata'')
      then Inl (Error ''Integration invocation envelope metadata must be an object.'')
      else (case parseIntegrationToolName (text_of env ''toolName'') of
          Inl e \<Rightarrow> Inl e
        | Inr (p, c, a) \<Rightarrow>
            if a \<noteq> text_of env ''action''
            then Inl (Error (''Integration invocation action '' @ text_of env ''action'' @ '' does not match tool '' @ a @ ''.''))
            else let limit = nullish (vo_maxInputBytes opts) (256 * 1024) in
            if input_bytes (field env ''input'') > limit
            then Inl (Error (''Integration invocation input exceeds '' @ decimal limit @ '' bytes.''))
            else if \<not> vo_requireKnownTool opts \<and> vo_connectors opts = None then Inr ()
            else (case vo_connectors opts of
                None \<Rightarrow> Inl (Error ''connectors are required when requireKnownTool is true.'')
              | Some cs \<Rightarrow> if knows_tool cs (p, c, a) then Inr ()
                  else Inl (Error (''Unknown integration tool '' @ text_of env ''toolName'' @ ''.'')))))"

definition buildIntegrationInvocationEnvelope :: "envelope_input \<Rightarrow> exn + json" where
  "buildIntegrationInvocationEnvelope inp =
     (case parseIntegrationToolName (ei_toolName inp) of
        Inl e \<Rightarrow> Inl e
      | Inr (p, c, a) \<Rightarrow>
          let env = JObj ([(''kind'', JStr ''integration.invocation''), (''capabilityToken'', JStr (ei_capabilityToken inp)),
                (''toolName'', JStr (ei_toolName inp)), (''action'', JStr a)] @ opt_val ''input'' (ei_args inp) @
                [(''idempotencyKey'', JStr (ei_idempotencyKey inp))] @ opt_val ''dryRun'' (map_option JBool (ei_dryRun inp)) @
                opt_val ''metadata'' (map_option JObj (ei_metadata inp)))
          in (case validateIntegrationInvocationEnvelope env (no_options\<lparr>vo_maxInputBytes := ei_maxInputBytes inp\<rparr>) of
              Inl e \<Rightarrow> Inl e
            | Inr _ \<Rightarrow> Inr env))"

fun js_truth :: "json \<Rightarrow> bool" where
  "js_truth JNull = False"
| "js_truth (JBool b) = b"
| "js_truth (JNum n) = (n \<noteq> Finite 0 \<and> n \<noteq> NotFinite)"
| "js_truth (JStr s) = (s \<noteq> [])"
| "js_truth _ = True"

text \<open>The request for the hub, which sets the connection itself.\<close>

definition requestOf :: "json \<Rightarrow> InvokeWithCapabilityRequest" where
  "requestOf env = \<lparr>rq_connectionId = [], rq_action = text_of env ''action'', rq_input = field env ''input'',
     rq_idempotencyKey = as_string (field env ''idempotencyKey''), rq_dryRun = map_option js_truth (field env ''dryRun''),
     rq_metadata = (case field env ''metadata'' of Some (JObj m) \<Rightarrow> Some m | _ \<Rightarrow> None)\<rparr>"

definition invocationRequestFromEnvelope :: "json \<Rightarrow> IntegrationInvocationEnvelopeValidationOptions \<Rightarrow> exn + InvokeWithCapabilityRequest" where
  "invocationRequestFromEnvelope env opts =
     (case validateIntegrationInvocationEnvelope env opts of Inl e \<Rightarrow> Inl e | Inr _ \<Rightarrow> Inr (requestOf env))"

text \<open>Overwriting a property, where an undefined value leaves nothing that can be read.\<close>

definition set_prop :: "string \<Rightarrow> json option \<Rightarrow> metadata \<Rightarrow> metadata" where
  "set_prop k v m = (case v of None \<Rightarrow> filter (\<lambda>(x, _). x \<noteq> k) m | Some j \<Rightarrow> AList.update k j m)"

definition redactInvocationEnvelope :: "metadata \<Rightarrow> IntegrationInputPreview option \<Rightarrow> metadata" where
  "redactInvocationEnvelope env preview =
     set_prop ''metadata'' (map_option redactUnknown (map_of env ''metadata''))
      (set_prop ''input'' (projectInputPreview preview (map_of env ''input''))
        (AList.update ''capabilityToken'' (JStr ''[REDACTED]'') env))"

section \<open>Results\<close>

datatype NormalizedIntegrationResult =
  NormalizedOk string "json option" "metadata option"
| NormalizedApproval string json "metadata option"
| NormalizedFailed string string "metadata option"

definition normalizeIntegrationResult :: "IntegrationActionResult \<Rightarrow> NormalizedIntegrationResult" where
  "normalizeIntegrationResult r =
     (let approval = opt_field (ar_output r) ''approval'' in
      if \<not> ar_ok r \<and> opt_field (ar_output r) ''approvalRequired'' = Some (JBool True) \<and> (case approval of None \<Rightarrow> False | Some a \<Rightarrow> js_truth a)
      then NormalizedApproval (ar_action r) (the approval) (ar_metadata r)
      else if \<not> ar_ok r
      then NormalizedFailed (ar_action r)
        (case ar_output r of
           Some j \<Rightarrow> if j \<noteq> JNull then js_String j
             else (case ar_warnings r of Some (x # _) \<Rightarrow> x | _ \<Rightarrow> ''integration action failed'')
         | None \<Rightarrow> (case ar_warnings r of Some (x # _) \<Rightarrow> x | _ \<Rightarrow> ''integration action failed''))
        (ar_metadata r)
      else NormalizedOk (ar_action r) (ar_output r) (ar_metadata r))"

fun invocation_message :: "exn \<Rightarrow> string" where
  "invocation_message (Thrown _) = ''Integration invocation failed.''"
| "invocation_message e = errMessage e"

definition dispatchIntegrationInvocation :: "(string \<Rightarrow> InvokeWithCapabilityRequest \<Rightarrow> ('w, exn, IntegrationActionResult) io) \<Rightarrow>
    json \<Rightarrow> IntegrationInvocationEnvelopeValidationOptions \<Rightarrow> ('w, exn, NormalizedIntegrationResult) io" where
  "dispatchIntegrationInvocation invoke env opts =
     tryCatch
       (andThen (liftE (validateIntegrationInvocationEnvelope env opts)) (\<lambda>_.
        andThen (liftE (invocationRequestFromEnvelope env opts)) (\<lambda>req.
        andThen (invoke (text_of env ''capabilityToken'') req) (\<lambda>r. ret (normalizeIntegrationResult r)))))
       (\<lambda>e. ret (NormalizedFailed (case field env ''action'' of Some (JStr s) \<Rightarrow> s | _ \<Rightarrow> ''unknown'') (invocation_message e) None))"

section \<open>What a valid envelope is\<close>

lemma validated:
  assumes "validateIntegrationInvocationEnvelope env opts = Inr u"
  shows "\<exists>p c. parseIntegrationToolName (text_of env ''toolName'') = Inr (p, c, text_of env ''action'') \<and>
     input_bytes (field env ''input'') \<le> nullish (vo_maxInputBytes opts) (256 * 1024) \<and>
     (case vo_connectors opts of None \<Rightarrow> \<not> vo_requireKnownTool opts | Some cs \<Rightarrow> knows_tool cs (p, c, text_of env ''action''))"
  using assms
  by (auto simp: validateIntegrationInvocationEnvelope_def Let_def split: if_splits sum.splits prod.splits option.splits)

lemma dispatched_in_order:
  "dispatchIntegrationInvocation invoke env opts w =
     (case validateIntegrationInvocationEnvelope env opts of
        Inl e \<Rightarrow> (Inr (NormalizedFailed (case field env ''action'' of Some (JStr s) \<Rightarrow> s | _ \<Rightarrow> ''unknown'') (invocation_message e) None), w)
      | Inr _ \<Rightarrow> (case invoke (text_of env ''capabilityToken'') (requestOf env) w of
            (Inl e, w') \<Rightarrow> (Inr (NormalizedFailed (case field env ''action'' of Some (JStr s) \<Rightarrow> s | _ \<Rightarrow> ''unknown'') (invocation_message e) None), w')
          | (Inr r, w') \<Rightarrow> (Inr (normalizeIntegrationResult r), w')))"
  by (simp add: dispatchIntegrationInvocation_def invocationRequestFromEnvelope_def io_defs split: sum.split prod.split)

text \<open>C28. The last step from the sandbox to a provider: exchange all actions of all providers for others, and
  a call dispatched from a sandbox can only end differently when its envelope is valid, with a tool name
  that takes apart into the action it asks for, an input within the limit and, where the host gives its
  connectors, a tool one of them defines; when its token has the authority for exactly that action; and
  when, without a guard, the policy of the hub has allowed the request of the envelope for the subject
  of the token on its connection.\<close>

theorem sandbox_call_needs_authority:
  assumes "dispatchIntegrationInvocation (invokeWithCapability pf hub) env opts w \<noteq>
      dispatchIntegrationInvocation (invokeWithCapability pf (with_actions f hub)) env opts w"
  shows "\<exists>p c cap conn prov a. parseIntegrationToolName (text_of env ''toolName'') = Inr (p, c, text_of env ''action'') \<and>
      input_bytes (field env ''input'') \<le> nullish (vo_maxInputBytes opts) (256 * 1024) \<and>
      (case vo_connectors opts of None \<Rightarrow> \<not> vo_requireKnownTool opts | Some cs \<Rightarrow> knows_tool cs (p, c, text_of env ''action'')) \<and>
      authority pf hub (text_of env ''capabilityToken'') (requestOf env) w cap conn prov a \<and>
      text_of env ''action'' \<in> set (cap_allowedActions cap) \<and> act_id a = text_of env ''action'' \<and>
      (hub_guard hub = None \<longrightarrow> (case hub_policy hub of
         None \<Rightarrow> True
       | Some policy \<Rightarrow> \<exists>w1 reason m w2.
           policy \<lparr>gc_connection = conn, gc_request = (requestOf env)\<lparr>rq_connectionId := conn_id conn\<rparr>, gc_action = Some a\<rparr>
             (cap_subject cap) w1 = (Inr (Allow reason m), w2)))"
proof -
  from assms obtain u where v: "validateIntegrationInvocationEnvelope env opts = Inr u"
    by (auto simp: dispatched_in_order split: sum.splits)
  with assms have differ: "invokeWithCapability pf hub (text_of env ''capabilityToken'') (requestOf env) w \<noteq>
      invokeWithCapability pf (with_actions f hub) (text_of env ''capabilityToken'') (requestOf env) w"
    by (auto simp: dispatched_in_order)
  from run_authorized [OF this] obtain cap conn prov a w1 where
    run: "authorizeAction pf hub (text_of env ''capabilityToken'') (requestOf env) w = (Inr (cap, conn, prov, a), w1)" by blast
  note a = authorized [OF run]
  then have "text_of env ''action'' \<in> set (cap_allowedActions cap)" "act_id a = text_of env ''action''"
    by (simp_all add: authority_def requestOf_def)
  moreover obtain p c where "parseIntegrationToolName (text_of env ''toolName'') = Inr (p, c, text_of env ''action'')"
      "input_bytes (field env ''input'') \<le> nullish (vo_maxInputBytes opts) (256 * 1024)"
      "case vo_connectors opts of None \<Rightarrow> \<not> vo_requireKnownTool opts | Some cs \<Rightarrow> knows_tool cs (p, c, text_of env ''action'')"
    using validated [OF v] by blast
  ultimately show ?thesis
    by (intro exI [of _ p] exI [of _ c] exI [of _ cap] exI [of _ conn] exI [of _ prov] exI [of _ a] conjI impI
        a run_allowed [OF differ run])
qed

lemma valid_envelope:
  assumes "is_object env" "field env ''kind'' = Some (JStr ''integration.invocation'')" "field env ''capabilityToken'' = Some (JStr tok)"
    and "field env ''toolName'' = Some (JStr tool)" "field env ''action'' = Some (JStr a)"
    and "field env ''idempotencyKey'' = Some (JStr key)" "field env ''metadata'' = map_option JObj m"
    and "trim tok \<noteq> []" "trim key \<noteq> []" "trim a \<noteq> []" "input_bytes (field env ''input'') \<le> nullish (vo_maxInputBytes opts) (256 * 1024)"
    and "case vo_connectors opts of None \<Rightarrow> \<not> vo_requireKnownTool opts | Some cs \<Rightarrow> knows_tool cs (p, c, a)"
    and "tool = integrationToolName p c a"
  shows "validateIntegrationInvocationEnvelope env opts = Inr ()"
proof -
  have "trim (integrationToolName p c a) \<noteq> []"
    by (simp add: trim_eq_Nil_iff integrationToolName_def js_space_def code_of_def)
  with assms(8-10) have "isNonEmptyString (Some (JStr (integrationToolName p c a)))" "isNonEmptyString (Some (JStr tok))"
    "isNonEmptyString (Some (JStr key))" "isNonEmptyString (Some (JStr a))" by (simp_all add: isNonEmptyString_def)
  moreover have "m = None \<or> isPlainRecord (map_option JObj m)" by (cases m) (simp_all add: isPlainRecord_def)
  ultimately show ?thesis
    using assms(1,11,12)
    by (cases "vo_connectors opts")
      (simp_all add: validateIntegrationInvocationEnvelope_def assms(2-7,13) text_of_def nullish_def parse_tool_name Let_def)
qed

text \<open>An envelope built for a tool of the host's connectors is accepted by the host, and the request it
  gives has the action, the input, the key, the dry run and the metadata it was built with, whatever the
  action is called: the tool name takes it through unchanged.\<close>

theorem built_envelope_is_accepted:
  assumes "trim (ei_capabilityToken inp) \<noteq> []" "trim (ei_idempotencyKey inp) \<noteq> []" "trim a \<noteq> []"
    and "ei_toolName inp = integrationToolName p c a" "input_bytes (ei_args inp) \<le> nullish (ei_maxInputBytes inp) (256 * 1024)"
    and "vo_connectors opts = Some cs" "knows_tool cs (p, c, a)" "vo_maxInputBytes opts = ei_maxInputBytes inp"
  shows "\<exists>env. buildIntegrationInvocationEnvelope inp = Inr env \<and> text_of env ''capabilityToken'' = ei_capabilityToken inp \<and>
     invocationRequestFromEnvelope env opts = Inr \<lparr>rq_connectionId = [], rq_action = a, rq_input = ei_args inp,
       rq_idempotencyKey = Some (ei_idempotencyKey inp), rq_dryRun = ei_dryRun inp, rq_metadata = ei_metadata inp\<rparr>"
proof -
  let ?env = "JObj ([(''kind'', JStr ''integration.invocation''), (''capabilityToken'', JStr (ei_capabilityToken inp)),
      (''toolName'', JStr (ei_toolName inp)), (''action'', JStr a)] @ opt_val ''input'' (ei_args inp) @
      [(''idempotencyKey'', JStr (ei_idempotencyKey inp))] @ opt_val ''dryRun'' (map_option JBool (ei_dryRun inp)) @
      opt_val ''metadata'' (map_option JObj (ei_metadata inp)))"
  have fields: "field ?env ''kind'' = Some (JStr ''integration.invocation'')" "field ?env ''capabilityToken'' = Some (JStr (ei_capabilityToken inp))"
    "field ?env ''toolName'' = Some (JStr (ei_toolName inp))" "field ?env ''action'' = Some (JStr a)" "field ?env ''input'' = ei_args inp"
    "field ?env ''idempotencyKey'' = Some (JStr (ei_idempotencyKey inp))" "field ?env ''dryRun'' = map_option JBool (ei_dryRun inp)"
    "field ?env ''metadata'' = map_option JObj (ei_metadata inp)"
    by (cases "ei_args inp"; cases "ei_dryRun inp"; cases "ei_metadata inp"; simp add: opt_val_def)+
  have obj: "is_object ?env" by simp
  have bytes: "input_bytes (field ?env ''input'') \<le> nullish (vo_maxInputBytes o') (256 * 1024)" if "vo_maxInputBytes o' = ei_maxInputBytes inp" for o'
    unfolding fields that by (rule assms(5))
  have valid: "validateIntegrationInvocationEnvelope ?env o' = Inr ()"
    if "vo_maxInputBytes o' = ei_maxInputBytes inp" "case vo_connectors o' of None \<Rightarrow> \<not> vo_requireKnownTool o' | Some cs \<Rightarrow> knows_tool cs (p, c, a)" for o'
    by (rule valid_envelope [OF obj fields(1-4,6,8) assms(1-3) bytes [OF that(1)] that(2) assms(4)])
  have "buildIntegrationInvocationEnvelope inp = Inr ?env"
    using valid [of "no_options\<lparr>vo_maxInputBytes := ei_maxInputBytes inp\<rparr>"] assms(4)
    by (simp add: buildIntegrationInvocationEnvelope_def parse_tool_name no_options_def)
  moreover have "invocationRequestFromEnvelope ?env opts = Inr (requestOf ?env)"
    using valid [OF assms(8)] assms(6,7) by (simp add: invocationRequestFromEnvelope_def)
  moreover have "requestOf ?env = \<lparr>rq_connectionId = [], rq_action = a, rq_input = ei_args inp,
       rq_idempotencyKey = Some (ei_idempotencyKey inp), rq_dryRun = ei_dryRun inp, rq_metadata = ei_metadata inp\<rparr>"
    unfolding requestOf_def text_of_def fields
    by (cases "ei_dryRun inp"; cases "ei_metadata inp") (simp_all add: nullish_def)
  moreover have "text_of ?env ''capabilityToken'' = ei_capabilityToken inp" unfolding text_of_def fields by (simp add: nullish_def)
  ultimately show ?thesis by (intro exI [of _ ?env]) simp
qed

text \<open>What is shown of an envelope holds neither its token nor private input.\<close>

lemma map_of_filter_key: "map_of (filter (\<lambda>(y, _). y \<noteq> k) m) x = (if x = k then None else map_of m x)"
  by (induction m) auto

lemma map_of_set_prop: "map_of (set_prop k v m) x = (if x = k then v else map_of m x)"
  by (cases v) (simp_all add: set_prop_def map_of_filter_key update_conv')

lemma projected_clean: "pred_option clean (projectInputPreview preview v)"
proof -
  have redacted_one: "pred_option clean (Some (redactUnknown j))" for j by (simp only: option.pred_inject clean_redactUnknown)
  show ?thesis
    unfolding projectInputPreview_def
    by (cases v; cases preview) (auto simp only: redacted_one option.simps option.pred_inject clean_redactUnknown split: IntegrationInputPreview.split json.split)
qed

text \<open>What is shown of an envelope holds the placeholder instead of its token, and in its input and its
  metadata nothing private: no text that looks like an encoded payload and, under sensitive names, only the
  placeholder; the other properties are shown as they are.\<close>

theorem redacted_envelope_hides_the_token:
  "map_of (redactInvocationEnvelope env preview) ''capabilityToken'' = Some (JStr ''[REDACTED]'') \<and>
   pred_option clean (map_of (redactInvocationEnvelope env preview) ''input'') \<and>
   pred_option clean (map_of (redactInvocationEnvelope env preview) ''metadata'') \<and>
   map_of (redactInvocationEnvelope env preview) ''toolName'' = map_of env ''toolName'' \<and>
   map_of (redactInvocationEnvelope env preview) ''action'' = map_of env ''action''"
  using projected_clean [of preview "map_of env ''input''"]
  by (cases "map_of env ''metadata''") (simp_all add: redactInvocationEnvelope_def map_of_set_prop update_conv' clean_redactUnknown)

section \<open>Examples\<close>

definition sbx_input :: "string \<Rightarrow> envelope_input" where
  "sbx_input c = \<lparr>ei_capabilityToken = signCapability hx_platform hx_capability ''s'', ei_toolName = integrationToolName ''p'' c ''send'',
     ei_args = rq_input (gx_request ''hi''), ei_idempotencyKey = ''k'', ei_dryRun = None, ei_metadata = None, ei_maxInputBytes = None\<rparr>"

definition sbx_options :: "string \<Rightarrow> IntegrationInvocationEnvelopeValidationOptions" where
  "sbx_options c = \<lparr>vo_connectors = Some [hx_connector\<lparr>con_id := c, con_providerId := ''p''\<rparr>], vo_maxInputBytes = None, vo_requireKnownTool = True\<rparr>"

lemma sbx_token: "trim (signCapability hx_platform hx_capability ''s'') \<noteq> []"
  by (simp add: trim_eq_Nil_iff signCapability_def Let_def js_space_def code_of_def)

lemma sbx_bytes: "input_bytes (ei_args (sbx_input c)) \<le> nullish (ei_maxInputBytes (sbx_input c)) (256 * 1024)"
proof -
  have "length (utf8_bytes (stringify (JStr ''hi''))) = 4" by code_simp
  then show ?thesis by (simp add: sbx_input_def gx_request_def input_bytes_def nullish_def)
qed


lemma sbx_knows: "knows_tool [hx_connector\<lparr>con_id := c, con_providerId := ''p''\<rparr>] (''p'', c, ''send'')"
  by (simp add: knows_tool_def hx_connector_def gx_action_def)

lemma sbx_built:
  "\<exists>env. buildIntegrationInvocationEnvelope (sbx_input c) = Inr env \<and> text_of env ''capabilityToken'' = signCapability hx_platform hx_capability ''s'' \<and>
     validateIntegrationInvocationEnvelope env (sbx_options c) = Inr () \<and> text_of env ''action'' = ''send'' \<and> rq_action (requestOf env) = ''send''"
proof -
  let ?tok = "signCapability hx_platform hx_capability ''s''" and ?tool = "integrationToolName ''p'' c ''send''"
  let ?env = "JObj [(''kind'', JStr ''integration.invocation''), (''capabilityToken'', JStr ?tok), (''toolName'', JStr ?tool),
     (''action'', JStr ''send''), (''input'', JStr ''hi''), (''idempotencyKey'', JStr ''k'')]"
  have parts: "input_bytes (field ?env ''input'') \<le> nullish None (256 * 1024)" using sbx_bytes [of c] by (simp add: sbx_input_def gx_request_def)
  have plain: "trim ''k'' \<noteq> []" "trim ''send'' \<noteq> []" by code_simp+
  have valid: "validateIntegrationInvocationEnvelope ?env o' = Inr ()"
    if "vo_maxInputBytes o' = None" "case vo_connectors o' of None \<Rightarrow> \<not> vo_requireKnownTool o' | Some cs \<Rightarrow> knows_tool cs (''p'', c, ''send'')" for o'
    by (rule valid_envelope [where tok = ?tok and tool = ?tool and a = "''send''" and key = "''k''" and m = None, OF _ _ _ _ _ _ _ sbx_token plain _ that(2) refl])
      (use parts that(1) in simp_all)
  have "buildIntegrationInvocationEnvelope (sbx_input c) = Inr ?env"
    using valid [of no_options]
    by (simp add: buildIntegrationInvocationEnvelope_def sbx_input_def gx_request_def parse_tool_name opt_val_def no_options_def)
  moreover have "validateIntegrationInvocationEnvelope ?env (sbx_options c) = Inr ()"
    by (rule valid) (simp_all add: sbx_options_def sbx_knows)
  ultimately show ?thesis by (intro exI [of _ ?env]) (simp add: text_of_def requestOf_def nullish_def)
qed

text \<open>Only the action of a request matters for its authority.\<close>

lemma same_action:
  assumes "rq_action req = rq_action req'"
  shows "authorizeAction pf hub tok req = authorizeAction pf hub tok req'"
  unfolding authorizeAction_def assms ..

lemma gx_send: "rq_action (gx_request ''hi'') = ''send''"
  by (simp add: gx_request_def)

lemma sbx_run:
  assumes "validateIntegrationInvocationEnvelope env opts = Inr ()" "text_of env ''capabilityToken'' = signCapability hx_platform hx_capability ''s''"
    and "rq_action (requestOf env) = ''send''"
  shows "dispatchIntegrationInvocation (invokeWithCapability hx_platform hx_hub) env opts hx_world =
      (Inr (NormalizedOk ''send'' None None), hx_world\<lparr>clock_reads := 1\<rparr>)"
    and "fst (dispatchIntegrationInvocation (invokeWithCapability hx_platform (with_actions (\<lambda>_ _ _. throw (Error ''down'')) hx_hub)) env opts hx_world) \<noteq>
      Inr (NormalizedOk ''send'' None None)"
proof -
  have a: "authorizeAction hx_platform hx_hub (signCapability hx_platform hx_capability ''s'') (requestOf env) hx_world =
     (Inr (hx_capability, gx_connection, hx_provider, gx_action), hx_world\<lparr>clock_reads := 1\<rparr>)"
    unfolding same_action [of "requestOf env" "gx_request ''hi''", OF trans [OF assms(3) gx_send [symmetric]]] by (rule hx_authorized)
  show "dispatchIntegrationInvocation (invokeWithCapability hx_platform hx_hub) env opts hx_world =
      (Inr (NormalizedOk ''send'' None None), hx_world\<lparr>clock_reads := 1\<rparr>)"
    by (simp add: dispatched_in_order assms(1,2) invokeWithCapability_def andThen_def a proceedAction_def)
      (simp add: io_defs hx_hub_def hx_provider_def gx_sent_def normalizeIntegrationResult_def)
  show "fst (dispatchIntegrationInvocation (invokeWithCapability hx_platform (with_actions (\<lambda>_ _ _. throw (Error ''down'')) hx_hub)) env opts hx_world) \<noteq>
      Inr (NormalizedOk ''send'' None None)"
    by (simp add: dispatched_in_order assms(1,2) invokeWithCapability_def authorize_with_actions andThen_def a proceedAction_def)
      (simp add: io_defs hx_hub_def hx_provider_def)
qed

theorem sandbox_call_needs_authority_witness:
  "\<exists>env cap conn prov a. buildIntegrationInvocationEnvelope (sbx_input ''mail'') = Inr env \<and>
     authority hx_platform hx_hub (text_of env ''capabilityToken'') (requestOf env) hx_world cap conn prov a"
proof -
  obtain env where e: "buildIntegrationInvocationEnvelope (sbx_input ''mail'') = Inr env"
    "text_of env ''capabilityToken'' = signCapability hx_platform hx_capability ''s''"
    "validateIntegrationInvocationEnvelope env (sbx_options ''mail'') = Inr ()" "rq_action (requestOf env) = ''send''"
    using sbx_built [of "''mail''"] by blast
  note runs = sbx_run [OF e(3,2,4)]
  have "fst (dispatchIntegrationInvocation (invokeWithCapability hx_platform hx_hub) env (sbx_options ''mail'') hx_world) = Inr (NormalizedOk ''send'' None None)"
    unfolding runs(1) by simp
  with runs(2) have "dispatchIntegrationInvocation (invokeWithCapability hx_platform hx_hub) env (sbx_options ''mail'') hx_world \<noteq>
      dispatchIntegrationInvocation (invokeWithCapability hx_platform (with_actions (\<lambda>_ _ _. throw (Error ''down'')) hx_hub)) env (sbx_options ''mail'') hx_world"
    by metis
  from sandbox_call_needs_authority [OF this] e(1) show ?thesis by blast
qed

theorem built_envelope_is_accepted_witness:
  "\<exists>env. buildIntegrationInvocationEnvelope (sbx_input ''mail'') = Inr env \<and>
     invocationRequestFromEnvelope env (sbx_options ''mail'') = Inr \<lparr>rq_connectionId = [], rq_action = ''send'', rq_input = Some (JStr ''hi''),
       rq_idempotencyKey = Some ''k'', rq_dryRun = None, rq_metadata = None\<rparr>"
proof -
  have parts: "ei_capabilityToken (sbx_input ''mail'') = signCapability hx_platform hx_capability ''s''" "ei_idempotencyKey (sbx_input ''mail'') = ''k''"
    "ei_toolName (sbx_input ''mail'') = integrationToolName ''p'' ''mail'' ''send''" "ei_args (sbx_input ''mail'') = Some (JStr ''hi'')"
    "ei_dryRun (sbx_input ''mail'') = None" "ei_metadata (sbx_input ''mail'') = None" "ei_maxInputBytes (sbx_input ''mail'') = None"
    "vo_connectors (sbx_options ''mail'') = Some [hx_connector\<lparr>con_id := ''mail'', con_providerId := ''p''\<rparr>]" "vo_maxInputBytes (sbx_options ''mail'') = None"
    by (simp_all add: sbx_input_def sbx_options_def gx_request_def)
  have "trim ''k'' \<noteq> []" "trim ''send'' \<noteq> []" by code_simp+
  then show ?thesis
    using built_envelope_is_accepted [where inp = "sbx_input ''mail''" and opts = "sbx_options ''mail''" and a = "''send''",
      OF _ _ _ parts(3) sbx_bytes parts(8) sbx_knows] sbx_token
    unfolding parts by blast
qed

text \<open>The host's check of a tool name does not tell which connection is used: the token alone decides, so a
  call of a tool of one connector runs the action of the same name on the connection of another.\<close>

theorem tool_of_another_connector_is_run:
  "\<exists>env w'. buildIntegrationInvocationEnvelope (sbx_input ''calendar'') = Inr env \<and>
     dispatchIntegrationInvocation (invokeWithCapability hx_platform hx_hub) env (sbx_options ''calendar'') hx_world =
       (Inr (NormalizedOk ''send'' None None), w') \<and> conn_connectorId gx_connection = ''mail''"
proof -
  obtain env where e: "buildIntegrationInvocationEnvelope (sbx_input ''calendar'') = Inr env"
    "text_of env ''capabilityToken'' = signCapability hx_platform hx_capability ''s''"
    "validateIntegrationInvocationEnvelope env (sbx_options ''calendar'') = Inr ()" "rq_action (requestOf env) = ''send''"
    using sbx_built [of "''calendar''"] by blast
  from sbx_run(1) [OF e(3,2,4)] e(1) show ?thesis by (auto simp: gx_connection_def)
qed

end
