(* ===== verification/Signatures.thy ===== *)
theory Signatures
  imports Webhooks Base64 Registry Complex_Main
begin

text \<open>
  The signatures of inbound webhooks, \<open>connectors/webhooks.ts\<close>: the schemes of Stripe, Slack, Twilio, of a generic
  HMAC and of the library's own e-mail edge. Numbers in headers are rationals, read and printed by the platform, and
  differences of them are exact; HMAC and SHA-256 are the platform's. \<open>timingSafeEqual\<close> is Node's: it compares two
  buffers of one length.
\<close>

section \<open>The platform\<close>

record 'w signing =
  sn_hmac :: "string \<Rightarrow> byte list \<Rightarrow> byte list \<Rightarrow> byte list"
  sn_sha256 :: "byte list \<Rightarrow> byte list"
  sn_Number :: "string \<Rightarrow> rat option"
  sn_numberText :: "rat \<Rightarrow> string"
  sn_decode :: "byte list \<Rightarrow> string"
  sn_formFields :: "string \<Rightarrow> (string \<times> string) list"
  sn_now :: "('w, exn, int) io"

definition hex_text :: "byte list \<Rightarrow> string" where
  "hex_text bs = concat (map (\<lambda>b. [hex_digit (unat b div 16), hex_digit (unat b mod 16)]) bs)"

definition hmac_hex :: "'w signing \<Rightarrow> string \<Rightarrow> string \<Rightarrow> string \<Rightarrow> string" where
  "hmac_hex sn algorithm secret message = hex_text (sn_hmac sn algorithm (utf8_bytes secret) (utf8_bytes message))"

text \<open>Buffers of different lengths are refused before they are compared.\<close>

definition same_text :: "string \<Rightarrow> string \<Rightarrow> bool" where
  "same_text a b \<longleftrightarrow> length (utf8_bytes a) = length (utf8_bytes b) \<and> utf8_bytes a = utf8_bytes b"

record window_options =
  vo_toleranceSeconds :: "rat option"
  vo_now :: "rat option"

definition default_window :: window_options where
  "default_window = \<lparr>vo_toleranceSeconds = None, vo_now = None\<rparr>"

definition DEFAULT_SIGNATURE_TOLERANCE_SECONDS :: rat where
  "DEFAULT_SIGNATURE_TOLERANCE_SECONDS = 5 * 60"

definition seconds_now :: "'w signing \<Rightarrow> window_options \<Rightarrow> ('w, exn, rat) io" where
  "seconds_now sn opts = (case vo_now opts of
     Some n \<Rightarrow> ret n
   | None \<Rightarrow> andThen (sn_now sn) (\<lambda>ms. ret (of_int (ms div 1000))))"

definition outside_window :: "window_options \<Rightarrow> rat \<Rightarrow> rat \<Rightarrow> bool" where
  "outside_window opts now t \<longleftrightarrow> \<bar>now - t\<bar> > nullish (vo_toleranceSeconds opts) DEFAULT_SIGNATURE_TOLERANCE_SECONDS"

section \<open>Stripe\<close>

definition header_pair :: "string \<Rightarrow> (string \<times> string) option" where
  "header_pair part =
     (if CHR ''='' \<in> set part
      then Some (trim (takeWhile (\<lambda>c. c \<noteq> CHR ''='') part), trim (drop 1 (dropWhile (\<lambda>c. c \<noteq> CHR ''='') part)))
      else None)"

fun stripe_parts :: "'w signing \<Rightarrow> string list \<Rightarrow> rat option \<Rightarrow> string list \<Rightarrow> rat option \<times> string list" where
  "stripe_parts sn [] ts sigs = (ts, sigs)"
| "stripe_parts sn (part # parts) ts sigs =
     (case header_pair part of
        None \<Rightarrow> stripe_parts sn parts ts sigs
      | Some (k, v) \<Rightarrow>
          if k = ''t'' then stripe_parts sn parts (nullish_opt (sn_Number sn v) ts) sigs
          else if k = ''v1'' then stripe_parts sn parts ts (sigs @ [v])
          else stripe_parts sn parts ts sigs)"

definition parseStripeSignatureHeader :: "'w signing \<Rightarrow> string \<Rightarrow> (rat \<times> string list) option" where
  "parseStripeSignatureHeader sn h =
     (case stripe_parts sn (split_on (CHR '','') h) None [] of
        (Some t, sigs) \<Rightarrow> if sigs = [] then None else Some (t, sigs)
      | (None, _) \<Rightarrow> None)"

definition verifyStripeSignature :: "'w signing \<Rightarrow> string \<Rightarrow> string \<Rightarrow> string \<Rightarrow> window_options \<Rightarrow> ('w, exn, bool) io" where
  "verifyStripeSignature sn rawBody signatureHeader secret opts =
     (case parseStripeSignatureHeader sn signatureHeader of
        None \<Rightarrow> ret False
      | Some (t, sigs) \<Rightarrow> andThen (seconds_now sn opts) (\<lambda>now. ret
          (if outside_window opts now t then False
           else list_ex (\<lambda>s. same_text s (hmac_hex sn ''sha256'' secret (sn_numberText sn t @ ''.'' @ rawBody))) sigs)))"

section \<open>Slack and e-mail\<close>

definition verifySlackSignature :: "'w signing \<Rightarrow> string \<Rightarrow> string \<Rightarrow> string \<Rightarrow> string \<Rightarrow> window_options \<Rightarrow> ('w, exn, bool) io" where
  "verifySlackSignature sn rawBody signatureHeader timestampHeader secret opts =
     (if take 3 signatureHeader \<noteq> ''v0='' then ret False
      else case sn_Number sn timestampHeader of
        None \<Rightarrow> ret False
      | Some ts \<Rightarrow> andThen (seconds_now sn opts) (\<lambda>now. ret
          (if outside_window opts now ts then False
           else same_text signatureHeader (''v0='' @ hmac_hex sn ''sha256'' secret (''v0:'' @ sn_numberText sn ts @ '':'' @ rawBody)))))"

definition verifyEmailSignature :: "'w signing \<Rightarrow> string \<Rightarrow> string \<Rightarrow> string \<Rightarrow> string \<Rightarrow> window_options \<Rightarrow> ('w, exn, bool) io" where
  "verifyEmailSignature sn rawBody signatureHeader timestampHeader secret opts =
     (case sn_Number sn timestampHeader of
        None \<Rightarrow> ret False
      | Some ts \<Rightarrow> andThen (seconds_now sn opts) (\<lambda>now. ret
          (if outside_window opts now ts then False
           else same_text (map to_lower signatureHeader) (hmac_hex sn ''sha256'' secret (sn_numberText sn ts @ ''.'' @ rawBody)))))"

section \<open>A generic HMAC\<close>

record hmac_options =
  hm_algorithm :: "string option"
  hm_signaturePrefix :: "string option"
  hm_lowercaseHex :: "bool option"

definition without_prefix :: "string \<Rightarrow> string \<Rightarrow> string option" where
  "without_prefix prefix s =
     (if prefix = [] then Some s else if take (length prefix) s = prefix then Some (drop (length prefix) s) else None)"

definition verifyHmacSignature :: "'w signing \<Rightarrow> string \<Rightarrow> string \<Rightarrow> string \<Rightarrow> hmac_options \<Rightarrow> bool" where
  "verifyHmacSignature sn rawBody signatureHeader secret opts =
     (case without_prefix (nullish (hm_signaturePrefix opts) []) signatureHeader of
        None \<Rightarrow> False
      | Some candidate \<Rightarrow> same_text (if nullish (hm_lowercaseHex opts) True then map to_lower candidate else candidate)
          (hmac_hex sn (nullish (hm_algorithm opts) ''sha256'') secret rawBody))"

section \<open>Twilio\<close>

record twilio_input =
  tw_authToken :: "string option"
  tw_signatureHeader :: "header_value option"
  tw_fullUrl :: "string option"
  tw_params :: "(string \<times> string) list option"

record TwilioVerifyOptions =
  tv_skipWhenAuthTokenMissing :: "bool option"
  tv_bodyAsRaw :: "bool option"
  tv_rawBody :: "string option"

definition twilio_data :: "string \<Rightarrow> (string \<times> string) list option \<Rightarrow> TwilioVerifyOptions \<Rightarrow> string" where
  "twilio_data fullUrl params opts =
     (if tv_bodyAsRaw opts = Some True then fullUrl @ nullish (tv_rawBody opts) []
      else foldl (\<lambda>acc k. acc @ k @ nullish (map_of (nullish params []) k) []) fullUrl
        (sort_by code_unit_order (map fst (nullish params []))))"

definition verifyTwilioSignature :: "'w signing \<Rightarrow> twilio_input \<Rightarrow> TwilioVerifyOptions \<Rightarrow> bool" where
  "verifyTwilioSignature sn inp opts =
     (if \<not> truthy (tw_authToken inp) then tv_skipWhenAuthTokenMissing opts = Some True
      else case tw_signatureHeader inp of
        Some (OneValue signature) \<Rightarrow>
          if signature = [] \<or> \<not> truthy (tw_fullUrl inp) then False
          else same_text (base64_groups (sn_hmac sn ''sha1'' (utf8_bytes (the (tw_authToken inp)))
            (utf8_bytes (twilio_data (the (tw_fullUrl inp)) (tw_params inp) opts)))) signature
      | _ \<Rightarrow> False)"

section \<open>Headers\<close>

fun one_header :: "header_value \<Rightarrow> string option" where
  "one_header (OneValue s) = Some s"
| "one_header (ManyValues (s # _)) = Some s"
| "one_header (ManyValues []) = None"

definition firstHeader :: "WebhookHeaders \<Rightarrow> string \<Rightarrow> string option" where
  "firstHeader hs name =
     (case nullish_opt (map_of hs name) (nullish_opt (map_of hs (map to_lower name))
         (map_option snd (find (\<lambda>h. map to_lower (fst h) = map to_lower name) hs))) of
        None \<Rightarrow> None | Some v \<Rightarrow> one_header v)"

section \<open>What an accepted signature proves\<close>

lemma utf8_inj: "utf8_bytes a = utf8_bytes b \<longleftrightarrow> a = b"
  by (metis option.inject utf8_round_trip)

lemma same_text_iff [simp]: "same_text a b \<longleftrightarrow> a = b"
  by (auto simp: same_text_def utf8_inj)

lemma windowed:
  "andThen (seconds_now sn opts) (\<lambda>now. ret (if outside_window opts now t then False else b)) w = (Inr True, w') \<longleftrightarrow>
   (\<exists>now. seconds_now sn opts w = (Inr now, w') \<and> \<not> outside_window opts now t \<and> b)"
  by (auto simp: andThen_def ret_def split: sum.splits prod.splits)

lemma stripe_accepts:
  "verifyStripeSignature sn raw h secret opts w = (Inr True, w') \<longleftrightarrow>
   (\<exists>t sigs now. parseStripeSignatureHeader sn h = Some (t, sigs) \<and> seconds_now sn opts w = (Inr now, w') \<and>
     \<not> outside_window opts now t \<and> hmac_hex sn ''sha256'' secret (sn_numberText sn t @ ''.'' @ raw) \<in> set sigs)"
  unfolding verifyStripeSignature_def
  by (auto simp: windowed list_ex_iff ret_def split: option.splits)

lemma slack_accepts:
  "verifySlackSignature sn raw h th secret opts w = (Inr True, w') \<longleftrightarrow>
   (\<exists>ts now. sn_Number sn th = Some ts \<and> seconds_now sn opts w = (Inr now, w') \<and> \<not> outside_window opts now ts \<and>
     h = ''v0='' @ hmac_hex sn ''sha256'' secret (''v0:'' @ sn_numberText sn ts @ '':'' @ raw))"
  unfolding verifySlackSignature_def
  by (auto simp: windowed ret_def split: option.splits)

lemma email_accepts:
  "verifyEmailSignature sn raw h th secret opts w = (Inr True, w') \<longleftrightarrow>
   (\<exists>ts now. sn_Number sn th = Some ts \<and> seconds_now sn opts w = (Inr now, w') \<and> \<not> outside_window opts now ts \<and>
     map to_lower h = hmac_hex sn ''sha256'' secret (sn_numberText sn ts @ ''.'' @ raw))"
  unfolding verifyEmailSignature_def
  by (auto simp: windowed ret_def split: option.splits)

end
