(* ===== verification/Delegated.thy ===== *)
theory Delegated
  imports Hub
begin

text \<open>
  Tools delegated to an agent outside, \<open>delegated-tools/\<close>: the signed token that names a workspace and the
  tools the agent may call (\<open>token.ts\<close>), the lease it is handed out with (\<open>lease.ts\<close>), and the JSON-RPC
  endpoint the agent calls back into (\<open>handler.ts\<close>). The bytes of an HMAC are a parameter, and so is the
  reading of the clock where the caller does not give a time. A text that is not the UTF-8 form of
  characters below 256 is read as none, as in the other decoders.
\<close>

unbundle bit_operations_syntax

section \<open>Tokens\<close>

definition DEFAULT_PREFIX :: string where
  "DEFAULT_PREFIX = ''dtt_''"

record DelegatedToolClaims =
  dc_workspaceId :: string
  dc_allowedTools :: "string list"
  dc_expiresAt :: int

record MintDelegatedToolTokenInput =
  mt_workspaceId :: string
  mt_allowedTools :: "string list"
  mt_ttlSeconds :: int
  mt_secret :: "string option"
  mt_prefix :: "string option"
  mt_now :: "int option"

record VerifyDelegatedToolTokenOptions =
  vt_secret :: "string option"
  vt_prefix :: "string option"
  vt_now :: "int option"

type_synonym hmac_bytes = "string \<Rightarrow> string \<Rightarrow> byte list"

definition base64urlDecodeToString :: "string \<Rightarrow> string option" where
  "base64urlDecodeToString v = (case atob (map plain_char v) of None \<Rightarrow> None | Some bs \<Rightarrow> utf8_text (drop_mark bs))"

definition sign :: "hmac_bytes \<Rightarrow> string \<Rightarrow> string \<Rightarrow> string" where
  "sign hmac payload secret = bytesToBase64Url (hmac payload secret)"

text \<open>The differences of all characters are collected before they are looked at.\<close>

definition timingSafeEqual :: "string \<Rightarrow> string \<Rightarrow> bool" where
  "timingSafeEqual a b =
     (if length a \<noteq> length b then False
      else foldl (\<lambda>d (x, y). d OR (of_nat (code_of x) XOR of_nat (code_of y))) (0 :: 32 word) (zip a b) = 0)"

definition trimmed_secret :: "string option \<Rightarrow> string option" where
  "trimmed_secret s = (case map_option trim s of None \<Rightarrow> None | Some t \<Rightarrow> if t = [] then None else Some t)"

definition claims_json :: "DelegatedToolClaims \<Rightarrow> json" where
  "claims_json c = JObj [(''workspaceId'', JStr (dc_workspaceId c)), (''allowedTools'', strings_json (dc_allowedTools c)),
     (''expiresAt'', JNum (Finite (dc_expiresAt c)))]"

definition mintDelegatedToolToken :: "hmac_bytes \<Rightarrow> int \<Rightarrow> MintDelegatedToolTokenInput \<Rightarrow> string option" where
  "mintDelegatedToolToken hmac sys_now inp =
     (case trimmed_secret (mt_secret inp) of
        None \<Rightarrow> None
      | Some secret \<Rightarrow>
          let claims = \<lparr>dc_workspaceId = mt_workspaceId inp, dc_allowedTools = mt_allowedTools inp,
                dc_expiresAt = nullish (mt_now inp) sys_now + mt_ttlSeconds inp * 1000\<rparr>;
              payload = encodeUtf8Base64Url (stringify (claims_json claims))
          in Some (nullish (mt_prefix inp) DEFAULT_PREFIX @ payload @ CHR ''.'' # sign hmac payload secret))"

text \<open>The claims of a value that was read, or none.\<close>

definition as_claims :: "json \<Rightarrow> DelegatedToolClaims option" where
  "as_claims j =
     (case (as_string (field j ''workspaceId''), as_finite (field j ''expiresAt''), as_string_array (field j ''allowedTools'')) of
        (Some ws, Some t, Some tools) \<Rightarrow>
          if ws = [] then None else Some \<lparr>dc_workspaceId = ws, dc_allowedTools = tools, dc_expiresAt = t\<rparr>
      | _ \<Rightarrow> None)"

definition verifyDelegatedToolToken :: "hmac_bytes \<Rightarrow> int \<Rightarrow> string \<Rightarrow> VerifyDelegatedToolTokenOptions \<Rightarrow> DelegatedToolClaims option" where
  "verifyDelegatedToolToken hmac sys_now tok opts =
     (case trimmed_secret (vt_secret opts) of
        None \<Rightarrow> None
      | Some secret \<Rightarrow>
          let prefix = nullish (vt_prefix opts) DEFAULT_PREFIX in
          if take (length prefix) tok \<noteq> prefix then None
          else let body = drop (length prefix) tok;
              payload = takeWhile (\<lambda>c. c \<noteq> CHR ''.'') body;
              signature = drop (Suc (length payload)) body in
          if CHR ''.'' \<notin> set body \<or> payload = [] \<or> signature = [] then None
          else if \<not> timingSafeEqual signature (sign hmac payload secret) then None
          else (case base64urlDecodeToString payload of
              None \<Rightarrow> None
            | Some text \<Rightarrow> (case JSON_parse text of
                None \<Rightarrow> None
              | Some j \<Rightarrow> (case as_claims j of
                  None \<Rightarrow> None
                | Some c \<Rightarrow> if dc_expiresAt c \<le> nullish (vt_now opts) sys_now then None else Some c))))"

section \<open>Leases\<close>

record 'w IssueDelegatedToolLeaseInput =
  il_workspaceId :: string
  il_allowedTools :: "string list"
  il_ttlSeconds :: int
  il_secret :: "string option"
  il_prefix :: "string option"
  il_callbackUrl :: "string option"
  il_now :: "int option"
  il_ownerPolicy :: "(string \<Rightarrow> string list \<Rightarrow> ('w, exn, bool) io) option"

record DelegatedToolLease =
  dl_token :: string
  dl_allowedTools :: "string list"
  dl_expiresAt :: int
  dl_callbackUrl :: "string option"

definition issueDelegatedToolLease :: "hmac_bytes \<Rightarrow> ('w, exn, int) io \<Rightarrow> 'w IssueDelegatedToolLeaseInput \<Rightarrow>
    ('w, exn, DelegatedToolLease option) io" where
  "issueDelegatedToolLease hmac sys_now inp =
     (let ws = trim (il_workspaceId inp);
          tools = filter (\<lambda>t. trim t \<noteq> []) (il_allowedTools inp) in
      if ws = [] \<or> tools = [] \<or> length tools \<noteq> length (il_allowedTools inp) then ret None
      else if il_ttlSeconds inp \<le> 0 \<or> il_ttlSeconds inp > 3600 then ret None
      else (case il_ownerPolicy inp of
          None \<Rightarrow> ret None
        | Some authorize \<Rightarrow> andThen (authorize ws tools) (\<lambda>ok.
            if \<not> ok then ret None
            else andThen (case il_now inp of Some n \<Rightarrow> ret n | None \<Rightarrow> sys_now) (\<lambda>n.
              ret (case mintDelegatedToolToken hmac n \<lparr>mt_workspaceId = ws, mt_allowedTools = tools, mt_ttlSeconds = il_ttlSeconds inp,
                      mt_secret = il_secret inp, mt_prefix = il_prefix inp, mt_now = Some n\<rparr> of
                  None \<Rightarrow> None
                | Some tok \<Rightarrow> if tok = [] then None
                    else Some \<lparr>dl_token = tok, dl_allowedTools = tools, dl_expiresAt = n + il_ttlSeconds inp * 1000,
                      dl_callbackUrl = il_callbackUrl inp\<rparr>)))))"

section \<open>The endpoint\<close>

record DelegatedToolDescriptor =
  dd_name :: string
  dd_description :: "string option"
  dd_inputSchema :: "json option"

text \<open>What a tool throws: an error that gives the code and the data of the answer, or any other.\<close>

datatype invocation_error = DelegatedToolInvocationError string int "json option" | OtherError exn

record 'w ResolvedDelegatedTool = DelegatedToolDescriptor +
  rt_invoke :: "metadata \<Rightarrow> ('w, invocation_error, json option) io"

datatype owner_operation = op_initialize | op_list | op_call string

record 'w DelegatedToolCallSeams =
  se_verifyToken :: "string \<Rightarrow> ('w, exn, DelegatedToolClaims option) io"
  se_resolveTool :: "string \<Rightarrow> string \<Rightarrow> ('w, exn, 'w ResolvedDelegatedTool option) io"
  se_isIntegrationConnected :: "string \<Rightarrow> 'w ResolvedDelegatedTool \<Rightarrow> ('w, exn, bool) io"
  se_authorizeOwner :: "string \<Rightarrow> owner_operation \<Rightarrow> ('w, exn, bool) io"
  se_serverInfo :: "json option"

datatype rpc_answer = RpcResult "json option" | RpcError int string "json option"

record JsonRpcResponse =
  rpc_id :: json
  rpc_answer :: rpc_answer

fun normalizeId :: "json option \<Rightarrow> json" where
  "normalizeId (Some (JStr s)) = JStr s"
| "normalizeId (Some (JNum n)) = JNum n"
| "normalizeId _ = JNull"

definition rpcResult :: "json option \<Rightarrow> json option \<Rightarrow> JsonRpcResponse" where
  "rpcResult i r = \<lparr>rpc_id = normalizeId i, rpc_answer = RpcResult r\<rparr>"

definition rpcError :: "json option \<Rightarrow> int \<Rightarrow> string \<Rightarrow> json option \<Rightarrow> JsonRpcResponse" where
  "rpcError i code msg data = \<lparr>rpc_id = normalizeId i, rpc_answer = RpcError code msg data\<rparr>"

text \<open>\<open>/^Bearer\s+(.+)$/i\<close>: after the white space that is taken greedily something must be left, at the
  worst the last blank itself, and it must hold no line end.\<close>

definition line_end :: "char \<Rightarrow> bool" where
  "line_end c \<longleftrightarrow> code_of c = 10 \<or> code_of c = 13"

definition extractBearer :: "string option \<Rightarrow> string option" where
  "extractBearer authorization =
     (case authorization of
        None \<Rightarrow> None
      | Some h \<Rightarrow>
          if map to_lower (take 6 h) \<noteq> ''bearer'' then None
          else let blanks = takeWhile js_space (drop 6 h); found = dropWhile js_space (drop 6 h) in
            if blanks = [] then None
            else if found \<noteq> [] then (if list_ex line_end found then None else Some found)
            else if length blanks < 2 \<or> line_end (last blanks) then None else Some [last blanks])"

definition unauthorized :: "json option \<Rightarrow> JsonRpcResponse" where
  "unauthorized i = rpcError i (-32001) ''Unauthorized'' None"

definition descriptor_json :: "'w ResolvedDelegatedTool \<Rightarrow> json" where
  "descriptor_json t = JObj ([(''name'', JStr (dd_name t))] @ opt_val ''description'' (map_option JStr (dd_description t)) @
     [(''inputSchema'', nullish (case dd_inputSchema t of Some JNull \<Rightarrow> None | s \<Rightarrow> s) (JObj [(''type'', JStr ''object'')]))])"

fun listTools :: "'w DelegatedToolCallSeams \<Rightarrow> string \<Rightarrow> string list \<Rightarrow> ('w, exn, json list) io" where
  "listTools seams ws [] = ret []"
| "listTools seams ws (n # ns) =
     andThen (se_resolveTool seams ws n) (\<lambda>found. case found of
       None \<Rightarrow> listTools seams ws ns
     | Some t \<Rightarrow> andThen (se_isIntegrationConnected seams ws t) (\<lambda>ok.
         andThen (listTools seams ws ns) (\<lambda>ts. ret (if ok then descriptor_json t # ts else ts))))"

definition invoked :: "json option \<Rightarrow> invocation_error + json option \<Rightarrow> JsonRpcResponse" where
  "invoked i r = (case r of
       Inr v \<Rightarrow> rpcResult i v
     | Inl (DelegatedToolInvocationError msg code data) \<Rightarrow> rpcError i code msg data
     | Inl (OtherError (Thrown _)) \<Rightarrow> rpcError i (-32000) ''Tool invocation failed'' None
     | Inl (OtherError e) \<Rightarrow> rpcError i (-32000) (errMessage e) None)"

definition callTool :: "'w DelegatedToolCallSeams \<Rightarrow> DelegatedToolClaims \<Rightarrow> json option \<Rightarrow> json \<Rightarrow> ('w, exn, JsonRpcResponse) io" where
  "callTool seams claims i body =
     (let params = nullish (case field body ''params'' of Some JNull \<Rightarrow> None | p \<Rightarrow> p) (JObj []);
          tool = nullish (as_string (field params ''name'')) [];
          args = (case field params ''arguments'' of Some (JObj m) \<Rightarrow> m | _ \<Rightarrow> []) in
      if tool = [] then ret (rpcError i (-32602) ''Missing tool name'' None)
      else andThen (se_authorizeOwner seams (dc_workspaceId claims) (op_call tool)) (\<lambda>owned.
        if \<not> owned then ret (unauthorized i)
        else if tool \<notin> set (dc_allowedTools claims)
        then ret (rpcError i (-32602) (''Tool not delegated to this session: '' @ tool) None)
        else andThen (se_resolveTool seams (dc_workspaceId claims) tool) (\<lambda>found. case found of
            None \<Rightarrow> ret (rpcError i (-32602) (''Tool not available for workspace: '' @ tool) None)
          | Some t \<Rightarrow> andThen (se_isIntegrationConnected seams (dc_workspaceId claims) t) (\<lambda>ok.
              if \<not> ok then ret (rpcError i (-32602) (''Integration not connected for tool: '' @ tool) None)
              else (\<lambda>w. case rt_invoke t args w of (r, w') \<Rightarrow> (Inr (invoked i r), w'))))))"

definition handleDelegatedToolCall :: "json \<Rightarrow> string option \<Rightarrow> 'w DelegatedToolCallSeams \<Rightarrow> ('w, exn, JsonRpcResponse) io" where
  "handleDelegatedToolCall body authorization seams =
     (if body = JNull then throw (Error ''Cannot read properties of null (reading 'id')'')
      else let i = field body ''id''; req = nullish (as_string (field body ''method'')) [] in
        andThen (case extractBearer authorization of None \<Rightarrow> ret None | Some b \<Rightarrow> se_verifyToken seams b) (\<lambda>found.
        case found of
          None \<Rightarrow> ret (unauthorized i)
        | Some claims \<Rightarrow>
            if req = ''initialize'' then
              andThen (se_authorizeOwner seams (dc_workspaceId claims) op_initialize) (\<lambda>owned.
              ret (if \<not> owned then unauthorized i
                else rpcResult i (Some (JObj [(''protocolVersion'', JStr ''2024-11-05''), (''capabilities'', JObj [(''tools'', JObj [])]),
                  (''serverInfo'', nullish (se_serverInfo seams) (JObj [(''name'', JStr ''delegated-tools''), (''version'', JStr ''1'')]))]))))
            else if req = ''tools/list'' then
              andThen (se_authorizeOwner seams (dc_workspaceId claims) op_list) (\<lambda>owned.
              if \<not> owned then ret (unauthorized i)
              else andThen (listTools seams (dc_workspaceId claims) (dc_allowedTools claims)) (\<lambda>ts.
                ret (rpcResult i (Some (JObj [(''tools'', JArr ts)])))))
            else if req = ''tools/call'' then callTool seams claims i body
            else ret (rpcError i (-32601) (''Method not found: '' @ (if req = [] then ''(none)'' else req)) None)))"

datatype http_content = NotAllowed | Rpc JsonRpcResponse

text \<open>The request is its HTTP verb, its body, which may not be JSON, and its authorization header.\<close>

definition handleDelegatedToolRequest :: "string \<Rightarrow> json option \<Rightarrow> string option \<Rightarrow> 'w DelegatedToolCallSeams \<Rightarrow>
    ('w, exn, nat \<times> http_content) io" where
  "handleDelegatedToolRequest verb body authorization seams =
     (if verb \<noteq> ''POST'' then ret (405, NotAllowed)
      else (case body of
          None \<Rightarrow> ret (200, Rpc (rpcError None (-32700) ''Parse error'' None))
        | Some b \<Rightarrow> andThen (handleDelegatedToolCall b authorization seams) (\<lambda>r.
            ret (if (case rpc_answer r of RpcError code _ _ \<Rightarrow> code = -32001 | _ \<Rightarrow> False) then (401, Rpc r) else (200, Rpc r)))))"

section \<open>What a token carries\<close>

lemma collected:
  "foldl (\<lambda>d (x, y). d OR (of_nat (code_of x) XOR of_nat (code_of y))) (d :: 32 word) ps = 0 \<longleftrightarrow> d = 0 \<and> list_all (\<lambda>(x, y). x = y) ps"
proof (induction ps arbitrary: d)
  case (Cons q ps)
  obtain x y where q: "q = (x, y)" by fastforce
  have "of_nat (code_of x) XOR of_nat (code_of y) = (0 :: 32 word) \<longleftrightarrow> x = y"
  proof
    assume "of_nat (code_of x) XOR of_nat (code_of y) = (0 :: 32 word)"
    moreover have "of_nat (code_of x) = (of_nat (code_of x) XOR of_nat (code_of y)) XOR (of_nat (code_of y) :: 32 word)"
      by (simp add: xor.assoc)
    ultimately have "(of_nat (code_of x) :: 32 word) = of_nat (code_of y)" by simp
    then have "unat (of_nat (code_of x) :: 32 word) = unat (of_nat (code_of y) :: 32 word)" by simp
    moreover have "code_of x < 256" "code_of y < 256" by simp_all
    ultimately have "code_of x = code_of y" by (simp add: unat_of_nat)
    then show "x = y" by (simp add: code_of_inj)
  qed simp
  then show ?case by (simp add: q Cons.IH or_eq_0_iff)
qed simp

lemma timingSafe_eq: "timingSafeEqual a b \<longleftrightarrow> a = b"
proof -
  have "list_all (\<lambda>(x, y). x = y) (zip a b) \<longleftrightarrow> a = b" if "length a = length b"
    using that by (induction a b rule: list_induct2) auto
  then show ?thesis by (auto simp: timingSafeEqual_def collected)
qed

lemma atob_plain: "atob (map plain_char (bytesToBase64Url bs)) = Some bs"
proof -
  let ?t = "map plain_char (bytesToBase64Url bs)"
  have len: "length ?t = length (sextets bs)" by (simp add: url_text)
  have ok: "c \<noteq> CHR ''=''" "\<not> ascii_white c" if "c \<in> set ?t" for c
    using that alphabet_at_facts(3,4) [OF sextets_small [of _ bs]] by (auto simp: url_text)
  have fil: "filter (\<lambda>c. \<not> ascii_white c) ?t = ?t" using ok(2) by (auto intro!: filter_True)
  have unp: "unpad ?t = ?t"
  proof (cases "?t = []")
    case False
    then have "last ?t \<noteq> CHR ''=''" using ok(1) last_in_set by blast
    then show ?thesis by (simp add: unpad_def)
  qed (simp add: unpad_def)
  have "all_some (map symbol_value ?t) = Some (sextets bs)"
    unfolding symbols_read using all_some_map [of id "sextets bs"] by (simp add: id_def)
  then show ?thesis
    using length_sextets [of bs] len by (simp add: atob_def fil unp Let_def sextets_bytes_sextets del: map_map)
qed

lemma decode_payload: "base64urlDecodeToString (encodeUtf8Base64Url s) = Some s"
  by (simp add: base64urlDecodeToString_def encodeUtf8Base64Url_def atob_plain utf8_no_mark utf8_round_trip)

lemma payload_no_dot: "CHR ''.'' \<notin> set (encodeUtf8Base64Url s)"
  using no_dot [of s] by (simp add: encodeUtf8Base64Url_def base64UrlEncode_def)

lemma claims_round_trip: "dc_workspaceId c \<noteq> [] \<Longrightarrow> as_claims (claims_json c) = Some c"
  by (simp add: as_claims_def claims_json_def strings_json_def strings_round_trip)

lemma claims_read: "JSON_parse (stringify (claims_json c)) = Some (claims_json c)"
  by (rule JSON_round_trip) (simp add: claims_json_def strings_json_def list_all_iff)

lemma verified:
  "verifyDelegatedToolToken hmac sys_now (nullish (vt_prefix opts) DEFAULT_PREFIX @ payload @ CHR ''.'' # signature) opts =
     (case trimmed_secret (vt_secret opts) of
        None \<Rightarrow> None
      | Some secret \<Rightarrow>
          if payload = [] \<or> signature = [] \<or> signature \<noteq> sign hmac payload secret then None
          else (case base64urlDecodeToString payload of
              None \<Rightarrow> None
            | Some text \<Rightarrow> (case JSON_parse text of
                None \<Rightarrow> None
              | Some j \<Rightarrow> (case as_claims j of
                  None \<Rightarrow> None
                | Some c \<Rightarrow> if dc_expiresAt c \<le> nullish (vt_now opts) sys_now then None else Some c))))"
  if "CHR ''.'' \<notin> set payload"
proof -
  have "takeWhile (\<lambda>c. c \<noteq> CHR ''.'') (payload @ CHR ''.'' # s) = payload" for s
    using that by (subst takeWhile_append2) auto
  then show ?thesis
    by (cases "trimmed_secret (vt_secret opts)") (simp_all add: verifyDelegatedToolToken_def Let_def timingSafe_eq)
qed

lemma minted:
  assumes "mintDelegatedToolToken hmac mint_now inp = Some tok" "mt_workspaceId inp \<noteq> []" "\<And>p s. hmac p s \<noteq> []"
    and "trimmed_secret (vt_secret opts) = trimmed_secret (mt_secret inp)" "vt_prefix opts = mt_prefix inp"
  shows "verifyDelegatedToolToken hmac sys_now tok opts =
     (let expires = nullish (mt_now inp) mint_now + mt_ttlSeconds inp * 1000 in
      if expires \<le> nullish (vt_now opts) sys_now then None
      else Some \<lparr>dc_workspaceId = mt_workspaceId inp, dc_allowedTools = mt_allowedTools inp, dc_expiresAt = expires\<rparr>)"
proof -
  let ?c = "\<lparr>dc_workspaceId = mt_workspaceId inp, dc_allowedTools = mt_allowedTools inp,
    dc_expiresAt = nullish (mt_now inp) mint_now + mt_ttlSeconds inp * 1000\<rparr>"
  let ?payload = "encodeUtf8Base64Url (stringify (claims_json ?c))"
  from assms(1) obtain secret where s: "trimmed_secret (mt_secret inp) = Some secret"
    and tok: "tok = nullish (vt_prefix opts) DEFAULT_PREFIX @ ?payload @ CHR ''.'' # sign hmac ?payload secret"
    by (auto simp: mintDelegatedToolToken_def Let_def assms(5) split: option.splits)
  have "sign hmac ?payload secret \<noteq> []"
  proof
    assume "sign hmac ?payload secret = []"
    then have "hmac ?payload secret = []" using buffer_read [of "hmac ?payload secret"] by (simp add: sign_def List.map_filter_def)
    then show False by (simp add: assms(3))
  qed
  moreover have "?payload \<noteq> []" using encoded_Nil [of "stringify (claims_json ?c)"] by (simp add: encodeUtf8Base64Url_def base64UrlEncode_def)
  ultimately show ?thesis
    unfolding tok verified [OF payload_no_dot] assms(4) s
    by (simp add: decode_payload claims_read claims_round_trip assms(2) Let_def)
qed

text \<open>A minted token carries its claims: verified with the same secret, up to blanks around it, and the
  same prefix, it gives back the workspace, the tools and the time of expiry it was minted with until that
  time and nothing from then on; and a token is only minted when there is a secret.\<close>

theorem minted_token_verifies:
  assumes "mintDelegatedToolToken hmac mint_now inp = Some tok" "mt_workspaceId inp \<noteq> []" "\<And>p s. hmac p s \<noteq> []"
    and "trimmed_secret (vt_secret opts) = trimmed_secret (mt_secret inp)" "vt_prefix opts = mt_prefix inp"
  shows "verifyDelegatedToolToken hmac sys_now tok opts =
     (let expires = nullish (mt_now inp) mint_now + mt_ttlSeconds inp * 1000 in
      if expires \<le> nullish (vt_now opts) sys_now then None
      else Some \<lparr>dc_workspaceId = mt_workspaceId inp, dc_allowedTools = mt_allowedTools inp, dc_expiresAt = expires\<rparr>)"
  by (rule minted [OF assms])

text \<open>C34. Only a signed token verifies: whoever is taken to hold claims presented the prefix, a payload that
  reads as exactly these claims, and the HMAC of that payload under the secret, and presented it before the
  claims expired.\<close>

theorem verified_token_was_signed:
  assumes "verifyDelegatedToolToken hmac sys_now tok opts = Some claims"
  shows "\<exists>secret payload text j. trimmed_secret (vt_secret opts) = Some secret \<and>
     tok = nullish (vt_prefix opts) DEFAULT_PREFIX @ payload @ CHR ''.'' # bytesToBase64Url (hmac payload secret) \<and>
     base64urlDecodeToString payload = Some text \<and> JSON_parse text = Some j \<and> as_claims j = Some claims \<and>
     nullish (vt_now opts) sys_now < dc_expiresAt claims"
proof -
  let ?prefix = "nullish (vt_prefix opts) DEFAULT_PREFIX"
  from assms have p: "take (length ?prefix) tok = ?prefix" "CHR ''.'' \<in> set (drop (length ?prefix) tok)"
    by (auto simp: verifyDelegatedToolToken_def Let_def split: option.splits if_splits)
  from split_list_first [OF p(2)] obtain payload sg where
    b: "drop (length ?prefix) tok = payload @ CHR ''.'' # sg" "CHR ''.'' \<notin> set payload" by blast
  have tok: "tok = ?prefix @ payload @ CHR ''.'' # sg" using append_take_drop_id [of "length ?prefix" tok] p(1) b(1) by simp
  note v = assms [unfolded tok verified [OF b(2)]]
  then obtain secret where s: "trimmed_secret (vt_secret opts) = Some secret" by (cases "trimmed_secret (vt_secret opts)") auto
  with v have mac: "sg = bytesToBase64Url (hmac payload secret)" by (auto simp: sign_def split: if_splits)
  from v s obtain doc j where "base64urlDecodeToString payload = Some doc" "JSON_parse doc = Some j" "as_claims j = Some claims"
    "nullish (vt_now opts) sys_now < dc_expiresAt claims"
    by (auto split: if_splits option.splits)
  with s tok [unfolded mac] show ?thesis by blast
qed

section \<open>What a lease allows\<close>

definition with_invoke :: "(metadata \<Rightarrow> ('w, invocation_error, json option) io) \<Rightarrow> 'w DelegatedToolCallSeams \<Rightarrow> 'w DelegatedToolCallSeams" where
  "with_invoke f seams = seams\<lparr>se_resolveTool := \<lambda>ws n. andThen (se_resolveTool seams ws n)
     (\<lambda>t. ret (map_option (\<lambda>x. x\<lparr>rt_invoke := f\<rparr>) t))\<rparr>"

lemma with_invoke_simps [simp]:
  "se_verifyToken (with_invoke f seams) = se_verifyToken seams" "se_isIntegrationConnected (with_invoke f seams) = se_isIntegrationConnected seams"
  "se_authorizeOwner (with_invoke f seams) = se_authorizeOwner seams" "se_serverInfo (with_invoke f seams) = se_serverInfo seams"
  "se_resolveTool (with_invoke f seams) ws n = andThen (se_resolveTool seams ws n) (\<lambda>t. ret (map_option (\<lambda>x. x\<lparr>rt_invoke := f\<rparr>) t))"
  by (simp_all add: with_invoke_def)

lemma descriptor_invoke [simp]: "descriptor_json (t\<lparr>rt_invoke := f\<rparr>) = descriptor_json t"
  by (simp add: descriptor_json_def)

lemma listed_with_invoke:
  assumes "\<And>ws t g. se_isIntegrationConnected seams ws (t\<lparr>rt_invoke := g\<rparr>) = se_isIntegrationConnected seams ws t"
  shows "listTools (with_invoke f seams) ws ns = listTools seams ws ns"
proof (induction ns)
  case (Cons n ns)
  have "(case map_option (\<lambda>x. x\<lparr>rt_invoke := f\<rparr>) found of None \<Rightarrow> listTools seams ws ns
       | Some t \<Rightarrow> andThen (se_isIntegrationConnected seams ws t) (\<lambda>ok.
           andThen (listTools seams ws ns) (\<lambda>ts. ret (if ok then descriptor_json t # ts else ts)))) =
     (case found of None \<Rightarrow> listTools seams ws ns
       | Some t \<Rightarrow> andThen (se_isIntegrationConnected seams ws t) (\<lambda>ok.
           andThen (listTools seams ws ns) (\<lambda>ts. ret (if ok then descriptor_json t # ts else ts))))" for found
    by (cases found) (simp_all add: assms cong: if_cong)
  then show ?case by (simp add: Cons.IH andThen_assoc)
qed simp

text \<open>What a call of a tool has come through when it reaches the tool.\<close>

lemma called:
  assumes "callTool seams claims i body w \<noteq> callTool (with_invoke f seams) claims i body w"
    and "\<And>ws t g. se_isIntegrationConnected seams ws (t\<lparr>rt_invoke := g\<rparr>) = se_isIntegrationConnected seams ws t"
  shows "\<exists>tool w1 w2 w3 t. as_string (opt_field (field body ''params'') ''name'') = Some tool \<and> tool \<in> set (dc_allowedTools claims) \<and>
     se_authorizeOwner seams (dc_workspaceId claims) (op_call tool) w = (Inr True, w1) \<and>
     se_resolveTool seams (dc_workspaceId claims) tool w1 = (Inr (Some t), w2) \<and>
     se_isIntegrationConnected seams (dc_workspaceId claims) t w2 = (Inr True, w3)"
proof -
  let ?params = "nullish (case field body ''params'' of Some JNull \<Rightarrow> None | p \<Rightarrow> p) (JObj [])"
  let ?tool = "nullish (as_string (field ?params ''name'')) []"
  let ?ws = "dc_workspaceId claims"
  have t: "?tool \<noteq> []" using assms(1) by (auto simp: callTool_def Let_def)
  then have "as_string (opt_field (field body ''params'') ''name'') = Some ?tool"
    by (auto simp: nullish_def opt_field_def split: option.splits json.splits)
  moreover obtain w1 where o: "se_authorizeOwner seams ?ws (op_call ?tool) w = (Inr True, w1)"
    using assms(1) by (cases "se_authorizeOwner seams ?ws (op_call ?tool) w"; cases "fst (se_authorizeOwner seams ?ws (op_call ?tool) w)")
      (auto simp: callTool_def Let_def andThen_def ret_def split: if_splits)
  moreover have "?tool \<in> set (dc_allowedTools claims)" using assms(1) o by (auto simp: callTool_def Let_def andThen_def ret_def split: if_splits)
  moreover obtain t w2 where r: "se_resolveTool seams ?ws ?tool w1 = (Inr (Some t), w2)"
    using assms(1) o by (cases "se_resolveTool seams ?ws ?tool w1"; cases "fst (se_resolveTool seams ?ws ?tool w1)")
      (auto simp: callTool_def Let_def andThen_def ret_def split: if_splits option.splits)
  moreover obtain w3 where "se_isIntegrationConnected seams ?ws t w2 = (Inr True, w3)"
    using assms(1) o r
    by (cases "se_isIntegrationConnected seams ?ws t w2"; cases "fst (se_isIntegrationConnected seams ?ws t w2)")
      (auto simp: callTool_def Let_def andThen_def ret_def assms(2) split: if_splits)
  ultimately show ?thesis by blast
qed

text \<open>C29. A tool behind the endpoint only matters when the lease allows it: exchange what all tools do, and a
  call can only be answered differently when its bearer verifies to claims, the tool it names is one of
  them, the owner of their workspace still agrees, the workspace has the tool and its integration is
  connected, each of these asked in this order; the gate for the integration may look at a tool but not run it.\<close>

theorem delegated_call_runs_only_leased_tools:
  assumes "handleDelegatedToolCall body auth seams w \<noteq> handleDelegatedToolCall body auth (with_invoke f seams) w"
    and "\<And>ws t g. se_isIntegrationConnected seams ws (t\<lparr>rt_invoke := g\<rparr>) = se_isIntegrationConnected seams ws t"
  shows "\<exists>bearer claims tool w1 w2 w3 w4 t. extractBearer auth = Some bearer \<and>
     se_verifyToken seams bearer w = (Inr (Some claims), w1) \<and>
     as_string (opt_field (field body ''params'') ''name'') = Some tool \<and> tool \<in> set (dc_allowedTools claims) \<and>
     se_authorizeOwner seams (dc_workspaceId claims) (op_call tool) w1 = (Inr True, w2) \<and>
     se_resolveTool seams (dc_workspaceId claims) tool w2 = (Inr (Some t), w3) \<and>
     se_isIntegrationConnected seams (dc_workspaceId claims) t w3 = (Inr True, w4)"
proof -
  note lists = listed_with_invoke [OF assms(2)]
  have body: "body \<noteq> JNull" using assms(1) by (auto simp: handleDelegatedToolCall_def)
  have "extractBearer auth \<noteq> None"
  proof
    assume "extractBearer auth = None"
    with body have "handleDelegatedToolCall body auth seams = handleDelegatedToolCall body auth (with_invoke f seams)"
      by (simp add: handleDelegatedToolCall_def Let_def)
    with assms(1) show False by simp
  qed
  then obtain bearer where b: "extractBearer auth = Some bearer" by blast
  obtain r w1 where vt: "se_verifyToken seams bearer w = (r, w1)" by fastforce
  have "\<exists>claims. r = Inr (Some claims)"
  proof (rule ccontr)
    assume no: "\<not> (\<exists>claims. r = Inr (Some claims))"
    have "handleDelegatedToolCall body auth seams w = handleDelegatedToolCall body auth (with_invoke f seams) w"
    proof (cases r)
      case (Inr found)
      with no have "found = None" by (cases found) auto
      with Inr body b vt show ?thesis by (simp add: handleDelegatedToolCall_def Let_def andThen_def)
    qed (use body b vt in \<open>simp add: handleDelegatedToolCall_def Let_def andThen_def\<close>)
    with assms(1) show False by simp
  qed
  then obtain claims where v: "se_verifyToken seams bearer w = (Inr (Some claims), w1)" using vt by blast
  have req: "nullish (as_string (field body ''method'')) [] = ''tools/call''"
  proof (rule ccontr)
    assume no: "nullish (as_string (field body ''method'')) [] \<noteq> ''tools/call''"
    have "handleDelegatedToolCall body auth seams w = handleDelegatedToolCall body auth (with_invoke f seams) w"
      unfolding handleDelegatedToolCall_def Let_def lists with_invoke_simps by (simp add: andThen_def no body b v)
    with assms(1) show False by simp
  qed
  have "handleDelegatedToolCall body auth s w = callTool s claims (field body ''id'') body w1" if "s \<in> {seams, with_invoke f seams}" for s
    using that body req b v by (auto simp: handleDelegatedToolCall_def Let_def andThen_def)
  with assms(1) have "callTool seams claims (field body ''id'') body w1 \<noteq> callTool (with_invoke f seams) claims (field body ''id'') body w1"
    by simp
  from called [OF this assms(2)] b v show ?thesis by blast
qed

text \<open>Somebody without a valid bearer learns nothing: whatever is asked, the answer is the same refusal, with
  the status 401, and nothing but the check of the bearer has happened.\<close>

theorem unauthenticated_probe_learns_nothing:
  assumes "case extractBearer auth of None \<Rightarrow> w' = w | Some b \<Rightarrow> se_verifyToken seams b w = (Inr None, w')" "body \<noteq> JNull"
  shows "handleDelegatedToolRequest ''POST'' (Some body) auth seams w = (Inr (401, Rpc (unauthorized (field body ''id''))), w')"
proof -
  have "handleDelegatedToolCall body auth seams w = (Inr (unauthorized (field body ''id'')), w')"
    using assms by (cases "extractBearer auth") (simp_all add: handleDelegatedToolCall_def Let_def andThen_def ret_def)
  then show ?thesis by (simp add: handleDelegatedToolRequest_def andThen_def ret_def unauthorized_def rpcError_def)
qed

text \<open>A body that is the JSON text \<open>null\<close> is not answered: the handler throws before it has looked at the bearer.\<close>

theorem null_body_is_not_answered:
  "\<exists>e. handleDelegatedToolRequest ''POST'' (Some JNull) auth seams w = (Inl e, w)"
  by (simp add: handleDelegatedToolRequest_def handleDelegatedToolCall_def andThen_def throw_def)

text \<open>A lease is only issued when the owner of the workspace agrees, for named tools and for an hour at most, and
  its token verifies to exactly the tools of the lease until the lease is over.\<close>

theorem issued_lease_verifies:
  assumes "issueDelegatedToolLease hmac clk inp w = (Inr (Some lease), w')" "\<And>p s. hmac p s \<noteq> []"
    and "trimmed_secret (vt_secret opts) = trimmed_secret (il_secret inp)" "vt_prefix opts = il_prefix inp" "vt_now opts = Some t"
  shows "\<exists>n. (case il_now inp of Some m \<Rightarrow> n = m | None \<Rightarrow> \<exists>w1 w2. clk w1 = (Inr n, w2)) \<and> n < dl_expiresAt lease \<and>
     dl_expiresAt lease \<le> n + 3600000 \<and> dl_allowedTools lease = il_allowedTools inp \<and> dl_allowedTools lease \<noteq> [] \<and>
     (\<exists>authorize w1. il_ownerPolicy inp = Some authorize \<and> authorize (trim (il_workspaceId inp)) (dl_allowedTools lease) w = (Inr True, w1)) \<and>
     verifyDelegatedToolToken hmac sys_now (dl_token lease) opts =
       (if dl_expiresAt lease \<le> t then None
        else Some \<lparr>dc_workspaceId = trim (il_workspaceId inp), dc_allowedTools = dl_allowedTools lease, dc_expiresAt = dl_expiresAt lease\<rparr>)"
proof -
  let ?ws = "trim (il_workspaceId inp)" and ?tools = "filter (\<lambda>t. trim t \<noteq> []) (il_allowedTools inp)"
  from assms(1) have c: "?ws \<noteq> []" "?tools \<noteq> []" "length ?tools = length (il_allowedTools inp)" "0 < il_ttlSeconds inp" "il_ttlSeconds inp \<le> 3600"
    by (auto simp: issueDelegatedToolLease_def Let_def ret_def split: if_splits)
  then have tools: "?tools = il_allowedTools inp" by (metis length_filter_less order_less_irrefl filter_True)
  from assms(1) c obtain authorize where a: "il_ownerPolicy inp = Some authorize"
    by (cases "il_ownerPolicy inp") (simp_all add: issueDelegatedToolLease_def Let_def ret_def)
  obtain r w1 where ok: "authorize ?ws (il_allowedTools inp) w = (r, w1)" by fastforce
  with assms(1) c a have r: "r = Inr True"
    by (cases r) (auto simp: issueDelegatedToolLease_def Let_def andThen_def ret_def tools split: if_splits)
  let ?clk = "case il_now inp of Some n \<Rightarrow> ret n | None \<Rightarrow> clk"
  obtain x w2 where n: "?clk w1 = (x, w2)" by fastforce
  let ?in = "\<lambda>n. \<lparr>mt_workspaceId = ?ws, mt_allowedTools = il_allowedTools inp, mt_ttlSeconds = il_ttlSeconds inp,
    mt_secret = il_secret inp, mt_prefix = il_prefix inp, mt_now = Some n\<rparr>"
  have run: "(case x of Inl e \<Rightarrow> (Inl e, w2) | Inr n \<Rightarrow> (Inr (case mintDelegatedToolToken hmac n (?in n) of None \<Rightarrow> None
      | Some tok \<Rightarrow> if tok = [] then None else Some \<lparr>dl_token = tok, dl_allowedTools = il_allowedTools inp,
          dl_expiresAt = n + il_ttlSeconds inp * 1000, dl_callbackUrl = il_callbackUrl inp\<rparr>), w2)) = (Inr (Some lease), w')"
    using assms(1) c a ok r n by (cases x) (simp_all add: issueDelegatedToolLease_def Let_def andThen_def ret_def tools)
  then obtain m tok where m: "x = Inr m" "mintDelegatedToolToken hmac m (?in m) = Some tok" "dl_token lease = tok"
    "dl_allowedTools lease = il_allowedTools inp" "dl_expiresAt lease = m + il_ttlSeconds inp * 1000"
    by (auto split: sum.splits option.splits if_splits)
  have v: "verifyDelegatedToolToken hmac sys_now (dl_token lease) opts =
       (if dl_expiresAt lease \<le> t then None
        else Some \<lparr>dc_workspaceId = ?ws, dc_allowedTools = dl_allowedTools lease, dc_expiresAt = dl_expiresAt lease\<rparr>)"
    using minted [OF m(2) _ assms(2), of opts sys_now] c(1) m(3-5) assms(3-5) by (simp add: Let_def nullish_def)
  have "case il_now inp of Some k \<Rightarrow> m = k | None \<Rightarrow> \<exists>w1 w2. clk w1 = (Inr m, w2)"
    using n m(1) by (cases "il_now inp") (auto simp: ret_def)
  with v m(4,5) c ok r a tools show ?thesis by (intro exI [of _ m]) auto
qed

section \<open>Examples\<close>

definition dx_hmac :: hmac_bytes where
  "dx_hmac p s = 7 # map (\<lambda>c. of_nat (code_of c)) (s @ p)"

definition dx_mint :: MintDelegatedToolTokenInput where
  "dx_mint = \<lparr>mt_workspaceId = ''w1'', mt_allowedTools = [''find''], mt_ttlSeconds = 60, mt_secret = Some ''k'', mt_prefix = None, mt_now = None\<rparr>"

definition dx_verify :: VerifyDelegatedToolTokenOptions where
  "dx_verify = \<lparr>vt_secret = Some '' k '', vt_prefix = None, vt_now = None\<rparr>"

definition dx_claims :: DelegatedToolClaims where
  "dx_claims = \<lparr>dc_workspaceId = ''w1'', dc_allowedTools = [''find''], dc_expiresAt = 60000\<rparr>"

lemma dx_secret: "trimmed_secret (vt_secret dx_verify) = trimmed_secret (mt_secret dx_mint)" "trimmed_secret (mt_secret dx_mint) = Some ''k''"
  by code_simp+

lemma dx_minted: "\<exists>tok. mintDelegatedToolToken dx_hmac 0 dx_mint = Some tok"
  by (simp add: mintDelegatedToolToken_def dx_secret Let_def)

theorem minted_token_verifies_witness:
  "\<exists>tok. mintDelegatedToolToken dx_hmac 0 dx_mint = Some tok \<and> verifyDelegatedToolToken dx_hmac 59999 tok dx_verify = Some dx_claims \<and>
     verifyDelegatedToolToken dx_hmac 60000 tok dx_verify = None"
proof -
  obtain tok where m: "mintDelegatedToolToken dx_hmac 0 dx_mint = Some tok" using dx_minted by blast
  have "dx_hmac p s \<noteq> []" for p s by (simp add: dx_hmac_def)
  note v = minted_token_verifies [OF m _ this dx_secret(1)]
  from v [of 59999] v [of 60000] m show ?thesis by (simp add: dx_mint_def dx_verify_def dx_claims_def Let_def nullish_def)
qed

theorem verified_token_was_signed_witness:
  "\<exists>tok payload txt. verifyDelegatedToolToken dx_hmac 0 tok dx_verify = Some dx_claims \<and> base64urlDecodeToString payload = Some txt \<and>
     tok = ''dtt_'' @ payload @ CHR ''.'' # bytesToBase64Url (dx_hmac payload ''k'')"
proof -
  obtain tok where m: "mintDelegatedToolToken dx_hmac 0 dx_mint = Some tok" using dx_minted by blast
  have "dx_hmac p s \<noteq> []" for p s by (simp add: dx_hmac_def)
  from minted [OF m _ this dx_secret(1), of 0] have v: "verifyDelegatedToolToken dx_hmac 0 tok dx_verify = Some dx_claims"
    by (simp add: dx_mint_def dx_verify_def dx_claims_def Let_def nullish_def)
  have parts: "trimmed_secret (vt_secret dx_verify) = Some ''k''" "nullish (vt_prefix dx_verify) DEFAULT_PREFIX = ''dtt_''"
    using dx_secret by (simp_all add: nullish_def dx_verify_def DEFAULT_PREFIX_def)
  from verified_token_was_signed [OF v, unfolded parts option.inject] v show ?thesis by blast
qed

definition dx_tool :: "nat ResolvedDelegatedTool" where
  "dx_tool = \<lparr>dd_name = ''find'', dd_description = None, dd_inputSchema = None, rt_invoke = (\<lambda>args. ret (Some (JStr ''found'')))\<rparr>"

definition dx_seams :: "nat DelegatedToolCallSeams" where
  "dx_seams = \<lparr>se_verifyToken = (\<lambda>b. ret (if b = ''t'' then Some dx_claims else None)),
     se_resolveTool = (\<lambda>ws n. ret (Some dx_tool)), se_isIntegrationConnected = (\<lambda>ws t. ret True),
     se_authorizeOwner = (\<lambda>ws oper. ret True), se_serverInfo = None\<rparr>"

definition dx_body :: json where
  "dx_body = JObj [(''id'', JNum (Finite 1)), (''method'', JStr ''tools/call''), (''params'', JObj [(''name'', JStr ''find'')])]"

lemma dx_bearer: "extractBearer (Some ''Bearer t'') = Some ''t''"
  by code_simp

theorem delegated_call_runs_only_leased_tools_witness:
  "\<exists>bearer claims. extractBearer (Some ''Bearer t'') = Some bearer \<and> se_verifyToken dx_seams bearer 0 = (Inr (Some claims), 0) \<and>
     ''find'' \<in> set (dc_allowedTools claims)"
proof -
  let ?f = "\<lambda>args. ret (Some (JStr ''other''))"
  have "handleDelegatedToolCall dx_body (Some ''Bearer t'') dx_seams 0 \<noteq> handleDelegatedToolCall dx_body (Some ''Bearer t'') (with_invoke ?f dx_seams) 0"
    by (simp add: handleDelegatedToolCall_def dx_body_def dx_bearer callTool_def io_defs with_invoke_def)
      (simp add: dx_seams_def io_defs dx_claims_def dx_tool_def invoked_def rpcResult_def nullish_def Let_def)
  from delegated_call_runs_only_leased_tools [OF this] show ?thesis
    by (auto simp: dx_seams_def ret_def dx_claims_def dx_body_def opt_field_def)
qed

theorem unauthenticated_probe_learns_nothing_witness:
  "handleDelegatedToolRequest ''POST'' (Some dx_body) (Some ''Bearer x'') dx_seams 0 = (Inr (401, Rpc (unauthorized (Some (JNum (Finite 1))))), 0)"
proof -
  have "extractBearer (Some ''Bearer x'') = Some ''x''" by code_simp
  then show ?thesis
    using unauthenticated_probe_learns_nothing [where auth = "Some ''Bearer x''" and w = 0 and w' = 0 and seams = dx_seams and body = dx_body]
    by (simp add: dx_seams_def ret_def dx_body_def)
qed

text \<open>The status of an authenticated call is not always 200: a tool that throws an error with the code of the
  refusal is answered with 401.\<close>

theorem tool_error_is_sent_as_unauthorized:
  "\<exists>r. handleDelegatedToolRequest ''POST'' (Some dx_body) (Some ''Bearer t'')
      (with_invoke (\<lambda>args. throw (DelegatedToolInvocationError ''busy'' (-32001) None)) dx_seams) 0 = (Inr (401, Rpc r), 0)"
  by (simp add: handleDelegatedToolRequest_def handleDelegatedToolCall_def dx_body_def dx_bearer callTool_def io_defs with_invoke_def)
    (simp add: dx_seams_def io_defs dx_claims_def dx_tool_def invoked_def rpcError_def nullish_def Let_def)

end
