(* ===== verification/WebhookPlugins.thy ===== *)
theory WebhookPlugins
  imports Signatures Delegated Events
begin

text \<open>
  The providers of inbound webhooks that the library ships, \<open>webhooks/providers.ts\<close>: for each the check of a request
  and the events of its body, over the signatures of \<open>Signatures\<close>. They are plug-ins of the router in \<open>Webhooks\<close>.
\<close>

section \<open>Shared steps\<close>

definition safeJson :: "string \<Rightarrow> json" where
  "safeJson s = nullish (JSON_parse s) JNull"

definition normalizeHeaders :: "WebhookHeaders \<Rightarrow> (string \<times> string) list" where
  "normalizeHeaders hs =
     foldl (\<lambda>m (k, v). case one_header v of None \<Rightarrow> m | Some s \<Rightarrow> AList.update (map to_lower k) s m) [] hs"

text \<open>\<open>v ?? ...\<close> on a value that may also be \<open>null\<close>.\<close>

definition non_null :: "json option \<Rightarrow> json option" where
  "non_null v = (if v = Some JNull then None else v)"

text \<open>A value in a template at_start, with its default.\<close>

definition in_text :: "json option \<Rightarrow> string" where
  "in_text v = (case non_null v of None \<Rightarrow> ''unknown'' | Some j \<Rightarrow> js_String j)"

definition verdict :: "bool \<Rightarrow> SignatureVerification" where
  "verdict ok = (if ok then Valid else Invalid ''invalid_signature'')"

definition envelope :: "string \<Rightarrow> string \<Rightarrow> string option \<Rightarrow> int \<Rightarrow> json \<Rightarrow> (string \<times> string) list \<Rightarrow> WebhookEnvelope" where
  "envelope p t i now body hs =
     \<lparr>provider = p, eventType = t, providerEventId = i, receivedAt = now, payload = body, headers = hs\<rparr>"

text \<open>A provider that compares a header with the secret.\<close>

definition token_verdict :: "string \<Rightarrow> string \<Rightarrow> string \<Rightarrow> WebhookHeaders \<Rightarrow> string \<Rightarrow> SignatureVerification" where
  "token_verdict name missing wrong hs secret =
     (case firstHeader hs name of
        None \<Rightarrow> Invalid missing
      | Some tok \<Rightarrow> if tok = [] then Invalid missing else if same_text tok secret then Valid else Invalid wrong)"

definition hinted :: "string \<Rightarrow> string list \<Rightarrow> TriggerEventCatalog option" where
  "hinted ns events = Some \<lparr>tc_namespace = Some ns, tc_events = map ((@) ns) events, tc_closed = False\<rparr>"

section \<open>Stripe\<close>

definition stripeParse :: "string \<Rightarrow> WebhookHeaders \<Rightarrow> int \<Rightarrow> WebhookEnvelope list" where
  "stripeParse raw hs now =
     (let evt = safeJson raw in
      if \<not> is_object evt then []
      else [envelope ''stripe'' (nullish (as_string (field evt ''type'')) ''stripe.unknown'') (as_string (field evt ''id'')) now evt (normalizeHeaders hs)])"

definition stripeWebhookProvider :: "'w signing \<Rightarrow> 'w WebhookProvider" where
  "stripeWebhookProvider sn =
     \<lparr>provider_id = ''stripe'',
      verifySignature = (\<lambda>raw hs secret. case firstHeader hs ''stripe-signature'' of
          None \<Rightarrow> ret (Invalid ''missing_stripe_signature'')
        | Some sig \<Rightarrow> if sig = [] then ret (Invalid ''missing_stripe_signature'')
            else andThen (verifyStripeSignature sn raw sig secret default_window) (\<lambda>ok. ret (verdict ok))),
      parse = (\<lambda>raw hs now. ret (stripeParse raw hs now)), successResponse = None,
      eventCatalog = Some \<lparr>tc_namespace = None, tc_events = [''checkout.session.completed'', ''checkout.session.expired'',
        ''customer.subscription.created'', ''customer.subscription.updated'', ''customer.subscription.deleted'', ''invoice.paid'',
        ''invoice.payment_failed'', ''payment_intent.succeeded'', ''payment_intent.payment_failed'', ''charge.succeeded'', ''charge.refunded''],
        tc_closed = False\<rparr>\<rparr>"

section \<open>Slack\<close>

definition slackHandshakeResponse :: "string \<Rightarrow> string option" where
  "slackHandshakeResponse raw =
     (let parsed = safeJson raw in
      if \<not> is_object parsed \<or> field parsed ''type'' \<noteq> Some (JStr ''url_verification'') then None
      else Some (nullish (as_string (field parsed ''challenge'')) []))"

definition slack_event_type :: "json \<Rightarrow> string" where
  "slack_event_type evt = ''slack.'' @ in_text (nullish_opt (non_null (opt_field (field evt ''event'') ''type'')) (field evt ''type''))"

definition slackParse :: "string \<Rightarrow> WebhookHeaders \<Rightarrow> int \<Rightarrow> WebhookEnvelope list" where
  "slackParse raw hs now =
     (let evt = safeJson raw in
      if \<not> is_object evt then []
      else if field evt ''type'' = Some (JStr ''url_verification'')
      then [envelope ''slack'' ''slack.url_verification'' None now evt (normalizeHeaders hs)]
      else [envelope ''slack'' (slack_event_type evt) (as_string (field evt ''event_id'')) now evt (normalizeHeaders hs)])"

definition slackWebhookProvider :: "'w signing \<Rightarrow> 'w WebhookProvider" where
  "slackWebhookProvider sn =
     \<lparr>provider_id = ''slack'',
      verifySignature = (\<lambda>raw hs secret. case (firstHeader hs ''x-slack-signature'', firstHeader hs ''x-slack-request-timestamp'') of
          (Some sig, Some ts) \<Rightarrow> if sig = [] \<or> ts = [] then ret (Invalid ''missing_slack_signature_or_timestamp'')
            else andThen (verifySlackSignature sn raw sig ts secret default_window) (\<lambda>ok. ret (verdict ok))
        | _ \<Rightarrow> ret (Invalid ''missing_slack_signature_or_timestamp'')),
      parse = (\<lambda>raw hs now. ret (slackParse raw hs now)), successResponse = None,
      eventCatalog = hinted ''slack.'' [''message'', ''app_mention'', ''reaction_added'', ''reaction_removed'', ''channel_created'',
        ''member_joined_channel'', ''team_join'', ''app_home_opened'', ''file_shared'']\<rparr>"

section \<open>Clerk\<close>

definition SVIX_TOLERANCE_SECONDS :: rat where
  "SVIX_TOLERANCE_SECONDS = 5 * 60"

text \<open>\<open>Buffer.from(s, 'base64')\<close>.\<close>

definition buffer_base64 :: "string \<Rightarrow> byte list" where
  "buffer_base64 s = sextets_bytes (List.map_filter (symbol_value \<circ> plain_char) s)"

definition svix_signature :: "string \<Rightarrow> string option" where
  "svix_signature entry = (case split_on (CHR '','') entry of
     version # signature # _ \<Rightarrow> if version = ''v1'' \<and> signature \<noteq> [] then Some signature else None
   | _ \<Rightarrow> None)"

definition clerkVerify :: "'w signing \<Rightarrow> string \<Rightarrow> WebhookHeaders \<Rightarrow> string \<Rightarrow> ('w, exn, SignatureVerification) io" where
  "clerkVerify sn raw hs secret =
     (if \<not> truthy (firstHeader hs ''svix-id'') \<or> \<not> truthy (firstHeader hs ''svix-timestamp'') \<or> \<not> truthy (firstHeader hs ''svix-signature'')
      then ret (Invalid ''missing_svix_headers'')
      else let i = the (firstHeader hs ''svix-id''); timestamp = the (firstHeader hs ''svix-timestamp'');
               signatures = the (firstHeader hs ''svix-signature'') in
        case sn_Number sn timestamp of
          None \<Rightarrow> ret (Invalid ''stale_svix_timestamp'')
        | Some sent \<Rightarrow> andThen (sn_now sn) (\<lambda>ms. ret
            (if \<bar>of_int ms / 1000 - sent\<bar> > SVIX_TOLERANCE_SECONDS then Invalid ''stale_svix_timestamp''
             else let key = buffer_base64 (if take 6 secret = ''whsec_'' then drop 6 secret else secret) in
               if key = [] then Invalid ''invalid_secret''
               else verdict (list_ex (\<lambda>entry. case svix_signature entry of
                      None \<Rightarrow> False
                    | Some s \<Rightarrow> same_text s (base64_groups (sn_hmac sn ''sha256'' key (utf8_bytes (i @ ''.'' @ timestamp @ ''.'' @ raw)))))
                  (split_on (CHR '' '') signatures)))))"

definition clerkParse :: "string \<Rightarrow> WebhookHeaders \<Rightarrow> int \<Rightarrow> WebhookEnvelope list" where
  "clerkParse raw hs now =
     (let evt = safeJson raw in
      case as_string (field evt ''type'') of
        None \<Rightarrow> []
      | Some t \<Rightarrow> [envelope ''clerk'' (''clerk.'' @ t) (firstHeader hs ''svix-id'') now evt (normalizeHeaders hs)])"

definition clerkWebhookProvider :: "'w signing \<Rightarrow> 'w WebhookProvider" where
  "clerkWebhookProvider sn =
     \<lparr>provider_id = ''clerk'', verifySignature = clerkVerify sn, parse = (\<lambda>raw hs now. ret (clerkParse raw hs now)), successResponse = None,
      eventCatalog = hinted ''clerk.'' [''user.created'', ''user.updated'', ''user.deleted'', ''session.created'', ''organization.created'',
        ''organizationMembership.created'', ''waitlistEntry.created'']\<rparr>"

section \<open>DocuSeal and e-mail\<close>

definition docusealParse :: "string \<Rightarrow> WebhookHeaders \<Rightarrow> int \<Rightarrow> WebhookEnvelope list" where
  "docusealParse raw hs now =
     (let evt = safeJson raw in
      if \<not> is_object evt then []
      else [envelope ''docuseal'' (''docuseal.'' @ in_text (field evt ''event_type'')) (as_string (field evt ''event_id'')) now evt (normalizeHeaders hs)])"

definition docusealWebhookProvider :: "'w signing \<Rightarrow> 'w WebhookProvider" where
  "docusealWebhookProvider sn =
     \<lparr>provider_id = ''docuseal'',
      verifySignature = (\<lambda>raw hs secret. ret (case firstHeader hs ''x-docuseal-signature'' of
          None \<Rightarrow> Invalid ''missing_docuseal_signature''
        | Some sig \<Rightarrow> if sig = [] then Invalid ''missing_docuseal_signature''
            else verdict (same_text (map to_lower sig) (hmac_hex sn ''sha256'' secret raw)))),
      parse = (\<lambda>raw hs now. ret (docusealParse raw hs now)), successResponse = None,
      eventCatalog = hinted ''docuseal.'' [''form.viewed'', ''form.started'', ''form.completed'', ''form.declined'', ''submission.created'',
        ''submission.completed'', ''submission.expired'', ''submission.archived'']\<rparr>"

definition emailParse :: "string \<Rightarrow> WebhookHeaders \<Rightarrow> int \<Rightarrow> WebhookEnvelope list" where
  "emailParse raw hs now =
     (let msg = safeJson raw in
      if as_string (field msg ''from'') = None \<or> as_string (field msg ''to'') = None then []
      else [envelope ''email'' ''email.received'' (as_string (field msg ''messageId'')) now msg (normalizeHeaders hs)])"

definition emailWebhookProvider :: "'w signing \<Rightarrow> 'w WebhookProvider" where
  "emailWebhookProvider sn =
     \<lparr>provider_id = ''email'',
      verifySignature = (\<lambda>raw hs secret.
        if \<not> truthy (firstHeader hs ''x-tangle-email-signature'') then ret (Invalid ''missing_email_signature'')
        else if \<not> truthy (firstHeader hs ''x-tangle-email-timestamp'') then ret (Invalid ''missing_email_timestamp'')
        else andThen (verifyEmailSignature sn raw (the (firstHeader hs ''x-tangle-email-signature''))
            (the (firstHeader hs ''x-tangle-email-timestamp'')) secret default_window) (\<lambda>ok. ret (verdict ok))),
      parse = (\<lambda>raw hs now. ret (emailParse raw hs now)), successResponse = None,
      eventCatalog = Some \<lparr>tc_namespace = Some ''email.'', tc_events = [''email.received''], tc_closed = True\<rparr>\<rparr>"

section \<open>Gmail and Drive\<close>

text \<open>\<open>/^(?:Bearer|Token)\s+(.+)$/i\<close>, read as a bearer header.\<close>

definition shared_token :: "string \<Rightarrow> string option" where
  "shared_token s = (if map to_lower (take 5 s) = ''token'' then extractBearer (Some (''Bearer'' @ drop 5 s)) else extractBearer (Some s))"

text \<open>\<open>{ ...value }\<close>.\<close>

fun own_properties :: "json \<Rightarrow> metadata" where
  "own_properties (JObj kvs) = kvs"
| "own_properties (JArr xs) = map (\<lambda>i. (decimal i, xs ! i)) [0 ..< length xs]"
| "own_properties (JStr s) = map (\<lambda>i. (decimal i, JStr [s ! i])) [0 ..< length s]"
| "own_properties _ = []"

definition gmailParse :: "'w signing \<Rightarrow> string \<Rightarrow> WebhookHeaders \<Rightarrow> int \<Rightarrow> WebhookEnvelope list" where
  "gmailParse sn raw hs now =
     (let message = field (safeJson raw) ''message'' in
      case as_string (opt_field message ''data'') of
        None \<Rightarrow> []
      | Some d \<Rightarrow> if d = [] then [] else
          (case JSON_parse (sn_decode sn (buffer_base64 d)) of
             None \<Rightarrow> []
           | Some inner \<Rightarrow> [envelope ''gmail'' ''gmail.history_changed'' (as_string (opt_field message ''messageId'')) now
               (JObj (case opt_field message ''publishTime'' of
                   Some v \<Rightarrow> AList.update ''publishTime'' v (own_properties inner)
                 | None \<Rightarrow> AList.delete ''publishTime'' (own_properties inner)))
               (normalizeHeaders hs)]))"

definition gmailVerify :: "WebhookHeaders \<Rightarrow> string \<Rightarrow> SignatureVerification" where
  "gmailVerify hs secret =
     (case firstHeader hs ''authorization'' of
        None \<Rightarrow> Invalid ''missing_authorization''
      | Some auth \<Rightarrow> if auth = [] then Invalid ''missing_authorization''
          else (case shared_token auth of
              None \<Rightarrow> Invalid ''invalid_authorization_format''
            | Some tok \<Rightarrow> verdict (same_text tok secret)))"

definition gmailWebhookProvider :: "'w signing \<Rightarrow> 'w WebhookProvider" where
  "gmailWebhookProvider sn =
     \<lparr>provider_id = ''gmail'', verifySignature = (\<lambda>raw hs secret. ret (gmailVerify hs secret)),
      parse = (\<lambda>raw hs now. ret (gmailParse sn raw hs now)), successResponse = None, eventCatalog = None\<rparr>"

definition gdriveParse :: "WebhookHeaders \<Rightarrow> int \<Rightarrow> WebhookEnvelope list" where
  "gdriveParse hs now =
     (let resource = firstHeader hs ''x-goog-resource-id''; st = nullish (firstHeader hs ''x-goog-resource-state'') ''unknown'';
          channel = firstHeader hs ''x-goog-channel-id''; number = firstHeader hs ''x-goog-message-number'' in
      [envelope ''gdrive'' (if st = ''sync'' then ''gdrive.channel.sync'' else ''gdrive.resource.'' @ st)
         (if truthy number then Some (nullish channel ''undefined'' @ CHR ''-'' # the number) else None) now
         (JObj (opt_str ''channelId'' channel @ opt_str ''resourceId'' resource @ [(''resourceState'', JStr st)]))
         (normalizeHeaders hs)])"

definition gdriveWebhookProvider :: "'w WebhookProvider" where
  "gdriveWebhookProvider =
     \<lparr>provider_id = ''gdrive'',
      verifySignature = (\<lambda>raw hs secret. ret (token_verdict ''x-goog-channel-token'' ''missing_channel_token'' ''invalid_signature'' hs secret)),
      parse = (\<lambda>raw hs now. ret (gdriveParse hs now)), successResponse = None, eventCatalog = None\<rparr>"

section \<open>Telegram\<close>

definition TELEGRAM_UPDATE_KEYS :: "string list" where
  "TELEGRAM_UPDATE_KEYS = [''message'', ''edited_message'', ''channel_post'', ''edited_channel_post'', ''business_connection'',
     ''business_message'', ''edited_business_message'', ''deleted_business_messages'', ''message_reaction'', ''message_reaction_count'',
     ''inline_query'', ''chosen_inline_result'', ''callback_query'', ''shipping_query'', ''pre_checkout_query'', ''purchased_paid_media'',
     ''poll'', ''poll_answer'', ''my_chat_member'', ''chat_member'', ''chat_join_request'', ''chat_boost'', ''removed_chat_boost'']"

definition telegramParse :: "string \<Rightarrow> WebhookHeaders \<Rightarrow> int \<Rightarrow> WebhookEnvelope list" where
  "telegramParse raw hs now =
     (let evt = safeJson raw in
      if \<not> is_object evt then []
      else [envelope ''telegram'' (''telegram.'' @ nullish (find (\<lambda>k. field evt k \<noteq> None) TELEGRAM_UPDATE_KEYS) ''unknown'')
        (case field evt ''update_id'' of Some (JNum n) \<Rightarrow> Some (js_String (JNum n)) | _ \<Rightarrow> None) now evt (normalizeHeaders hs)])"

definition telegramWebhookProvider :: "'w WebhookProvider" where
  "telegramWebhookProvider =
     \<lparr>provider_id = ''telegram'',
      verifySignature = (\<lambda>raw hs secret. ret (token_verdict ''x-telegram-bot-api-secret-token'' ''missing_telegram_secret_token'' ''invalid_secret_token'' hs secret)),
      parse = (\<lambda>raw hs now. ret (telegramParse raw hs now)), successResponse = None,
      eventCatalog = Some \<lparr>tc_namespace = Some ''telegram.'', tc_events = map ((@) ''telegram.'') TELEGRAM_UPDATE_KEYS, tc_closed = True\<rparr>\<rparr>"

section \<open>Dropbox Sign\<close>

text \<open>What precedes and what follows the first place where a matcher succeeds.\<close>

fun break_at :: "(string \<Rightarrow> string option) \<Rightarrow> string \<Rightarrow> (string \<times> string) option" where
  "break_at m [] = map_option (Pair []) (m [])"
| "break_at m (c # cs) = (case m (c # cs) of
     Some rest \<Rightarrow> Some ([], rest)
   | None \<Rightarrow> map_option (\<lambda>(before, rest). (c # before, rest)) (break_at m cs))"

definition at_start :: "string \<Rightarrow> string \<Rightarrow> string option" where
  "at_start p s = (if take (length p) s = p then Some (drop (length p) s) else None)"

text \<open>\<open>\r?\n\<close>.\<close>

definition new_line :: "string \<Rightarrow> string option" where
  "new_line s = (case at_start [CHR 0x0D, CHR 0x0A] s of Some rest \<Rightarrow> Some rest | None \<Rightarrow> at_start [CHR 0x0A] s)"

definition json_name :: string where
  "json_name = ''name='' @ [CHR 0x22] @ ''json'' @ [CHR 0x22]"

definition extractMultipartJsonField :: "string \<Rightarrow> json" where
  "extractMultipartJsonField raw =
     (case break_at (at_start json_name) raw of
        None \<Rightarrow> JNull
      | Some (_, afterName) \<Rightarrow>
          (case break_at (\<lambda>s. Option.bind (new_line s) new_line) (json_name @ afterName) of
             None \<Rightarrow> JNull
           | Some (_, partBody) \<Rightarrow>
               (case break_at (\<lambda>s. Option.bind (new_line s) (at_start ''--'')) partBody of
                  None \<Rightarrow> JNull
                | Some (part, _) \<Rightarrow> safeJson part)))"

definition parseHelloSignBody :: "'w signing \<Rightarrow> string \<Rightarrow> json" where
  "parseHelloSignBody sn raw =
     (if is_object (safeJson raw) then safeJson raw
      else if truthy (map_of (sn_formFields sn raw) ''json'') then safeJson (the (map_of (sn_formFields sn raw) ''json''))
      else extractMultipartJsonField raw)"

fun json_truthy :: "json option \<Rightarrow> bool" where
  "json_truthy None = False"
| "json_truthy (Some JNull) = False"
| "json_truthy (Some (JBool b)) = b"
| "json_truthy (Some (JNum n)) = (n \<noteq> Finite 0)"
| "json_truthy (Some (JStr s)) = (s \<noteq> [])"
| "json_truthy (Some _) = True"

definition hellosignVerify :: "'w signing \<Rightarrow> string \<Rightarrow> string \<Rightarrow> SignatureVerification" where
  "hellosignVerify sn raw secret =
     (let event = field (parseHelloSignBody sn raw) ''event'' in
      case (as_string (opt_field event ''event_time''), as_string (opt_field event ''event_type''), as_string (opt_field event ''event_hash'')) of
        (Some time, Some type, Some hash) \<Rightarrow>
          verdict (same_text (map to_lower hash) (map to_lower (hmac_hex sn ''sha256'' secret (time @ type))))
      | _ \<Rightarrow> Invalid ''missing_event_fields'')"

definition hellosignParse :: "'w signing \<Rightarrow> string \<Rightarrow> WebhookHeaders \<Rightarrow> int \<Rightarrow> WebhookEnvelope list" where
  "hellosignParse sn raw hs now =
     (let body = parseHelloSignBody sn raw; event = field body ''event'' in
      if \<not> json_truthy event then []
      else [envelope ''hellosign'' (''hellosign.'' @ in_text (opt_field event ''event_type''))
        (Some (case as_string (opt_field event ''event_id'') of
            Some i \<Rightarrow> if i \<noteq> [] then i else hex_text (sn_sha256 sn (utf8_bytes (stringify body)))
          | None \<Rightarrow> hex_text (sn_sha256 sn (utf8_bytes (stringify body)))))
        now body (normalizeHeaders hs)])"

definition hellosignWebhookProvider :: "'w signing \<Rightarrow> 'w WebhookProvider" where
  "hellosignWebhookProvider sn =
     \<lparr>provider_id = ''hellosign'', verifySignature = (\<lambda>raw hs secret. ret (hellosignVerify sn raw secret)),
      parse = (\<lambda>raw hs now. ret (hellosignParse sn raw hs now)),
      successResponse = Some \<lparr>success_body = ''Hello API Event Received'', success_headers = Some [(''content-type'', ''text/plain'')]\<rparr>,
      eventCatalog = hinted ''hellosign.'' [''signature_request_sent'', ''signature_request_viewed'', ''signature_request_signed'',
        ''signature_request_all_signed'', ''signature_request_declined'', ''signature_request_reassigned'', ''signature_request_remind'',
        ''signature_request_canceled'', ''signature_request_expired'']\<rparr>"

section \<open>Clay and the generic provider\<close>

definition CLAY_EVENT_ID_KEYS :: "string list" where
  "CLAY_EVENT_ID_KEYS = [''id'', ''rowId'', ''recordId'', ''clayRowId'', ''eventId'']"

fun text_or_number :: "json option \<Rightarrow> bool" where
  "text_or_number (Some (JStr _)) = True"
| "text_or_number (Some (JNum _)) = True"
| "text_or_number _ = False"

definition clay_event_id :: "'w signing \<Rightarrow> string \<Rightarrow> json \<Rightarrow> string" where
  "clay_event_id sn raw evt =
     (case find (\<lambda>k. text_or_number (field evt k)) CLAY_EVENT_ID_KEYS of
        Some k \<Rightarrow> js_String (the (field evt k))
      | None \<Rightarrow> hex_text (sn_sha256 sn (utf8_bytes raw)))"

definition clayParse :: "'w signing \<Rightarrow> string \<Rightarrow> WebhookHeaders \<Rightarrow> int \<Rightarrow> WebhookEnvelope list" where
  "clayParse sn raw hs now =
     (let evt = safeJson raw in
      if \<not> is_object evt then []
      else [envelope ''clay''
        (case nullish_opt (as_string (field evt ''event'')) (as_string (field evt ''type'')) of
           Some t \<Rightarrow> ''clay.'' @ t | None \<Rightarrow> ''clay.row'')
        (Some (clay_event_id sn raw evt)) now evt (normalizeHeaders hs)])"

definition clayWebhookProvider :: "'w signing \<Rightarrow> 'w WebhookProvider" where
  "clayWebhookProvider sn =
     \<lparr>provider_id = ''clay'',
      verifySignature = (\<lambda>raw hs secret. ret (token_verdict ''x-clay-webhook-secret'' ''missing_clay_webhook_secret'' ''invalid_signature'' hs secret)),
      parse = (\<lambda>raw hs now. ret (clayParse sn raw hs now)), successResponse = None, eventCatalog = None\<rparr>"

record 'w generic_options =
  gw_id :: string
  gw_signatureHeader :: "string option"
  gw_algorithm :: "string option"
  gw_signaturePrefix :: "string option"
  gw_parse :: "(string \<Rightarrow> WebhookHeaders \<Rightarrow> int \<Rightarrow> ('w, exn, WebhookEnvelope list) io) option"

definition genericHmacWebhookProvider :: "'w signing \<Rightarrow> 'w generic_options \<Rightarrow> 'w WebhookProvider" where
  "genericHmacWebhookProvider sn opts =
     (let h = nullish (gw_signatureHeader opts) ''x-signature'' in
      \<lparr>provider_id = gw_id opts,
       verifySignature = (\<lambda>raw hs secret. ret (case firstHeader hs h of
           None \<Rightarrow> Invalid (''missing_'' @ h)
         | Some sig \<Rightarrow> if sig = [] then Invalid (''missing_'' @ h)
             else verdict (verifyHmacSignature sn raw sig secret \<lparr>hm_algorithm = Some (nullish (gw_algorithm opts) ''sha256''),
               hm_signaturePrefix = gw_signaturePrefix opts, hm_lowercaseHex = None\<rparr>))),
       parse = nullish (gw_parse opts) (\<lambda>raw hs now. ret
         [envelope (gw_id opts) (gw_id opts @ ''.event'') None now (if safeJson raw = JNull then JStr raw else safeJson raw) (normalizeHeaders hs)]),
       successResponse = None, eventCatalog = None\<rparr>)"

section \<open>What reaches the parser was signed\<close>

text \<open>The proof a provider asks for, read off the request: which keyed digest of which text has to be in which header.\<close>

definition stripe_proof :: "'w signing \<Rightarrow> string \<Rightarrow> WebhookHeaders \<Rightarrow> string \<Rightarrow> int \<Rightarrow> bool" where
  "stripe_proof sn raw hs secret ms \<longleftrightarrow>
     (\<exists>h t sigs. firstHeader hs ''stripe-signature'' = Some h \<and> parseStripeSignatureHeader sn h = Some (t, sigs) \<and>
       hmac_hex sn ''sha256'' secret (sn_numberText sn t @ ''.'' @ raw) \<in> set sigs \<and> \<bar>of_int (ms div 1000) - t\<bar> \<le> 300)"

definition slack_proof :: "'w signing \<Rightarrow> string \<Rightarrow> WebhookHeaders \<Rightarrow> string \<Rightarrow> int \<Rightarrow> bool" where
  "slack_proof sn raw hs secret ms \<longleftrightarrow>
     (\<exists>th t. firstHeader hs ''x-slack-request-timestamp'' = Some th \<and> sn_Number sn th = Some t \<and>
       firstHeader hs ''x-slack-signature'' = Some (''v0='' @ hmac_hex sn ''sha256'' secret (''v0:'' @ sn_numberText sn t @ '':'' @ raw)) \<and>
       \<bar>of_int (ms div 1000) - t\<bar> \<le> 300)"

definition email_proof :: "'w signing \<Rightarrow> string \<Rightarrow> WebhookHeaders \<Rightarrow> string \<Rightarrow> int \<Rightarrow> bool" where
  "email_proof sn raw hs secret ms \<longleftrightarrow>
     (\<exists>h th t. firstHeader hs ''x-tangle-email-timestamp'' = Some th \<and> sn_Number sn th = Some t \<and>
       firstHeader hs ''x-tangle-email-signature'' = Some h \<and> map to_lower h = hmac_hex sn ''sha256'' secret (sn_numberText sn t @ ''.'' @ raw) \<and>
       \<bar>of_int (ms div 1000) - t\<bar> \<le> 300)"

definition clerk_proof :: "'w signing \<Rightarrow> string \<Rightarrow> WebhookHeaders \<Rightarrow> string \<Rightarrow> int \<Rightarrow> bool" where
  "clerk_proof sn raw hs secret ms \<longleftrightarrow>
     (\<exists>i th t h key. firstHeader hs ''svix-id'' = Some i \<and> firstHeader hs ''svix-timestamp'' = Some th \<and> sn_Number sn th = Some t \<and>
       firstHeader hs ''svix-signature'' = Some h \<and> key = buffer_base64 (if take 6 secret = ''whsec_'' then drop 6 secret else secret) \<and> key \<noteq> [] \<and>
       Some (base64_groups (sn_hmac sn ''sha256'' key (utf8_bytes (i @ ''.'' @ th @ ''.'' @ raw)))) \<in> svix_signature ` set (split_on (CHR '' '') h) \<and>
       \<bar>of_int ms / 1000 - t\<bar> \<le> 300)"

lemma verdict_valid [simp]: "verdict ok = Valid \<longleftrightarrow> ok"
  by (simp add: verdict_def)

lemma run_then: "andThen m k w = (Inr x, w') \<longleftrightarrow> (\<exists>y w1. m w = (Inr y, w1) \<and> k y w1 = (Inr x, w'))"
  by (auto simp: andThen_def split: sum.splits prod.splits)

lemma run_ret: "ret y w = (Inr x, w') \<longleftrightarrow> y = x \<and> w' = w"
  by (auto simp: ret_def)

lemma clock_read: "seconds_now sn default_window w = (Inr now, w') \<longleftrightarrow> (\<exists>ms. sn_now sn w = (Inr ms, w') \<and> now = of_int (ms div 1000))"
  by (auto simp: seconds_now_def default_window_def run_then run_ret)

lemma in_window: "\<not> outside_window default_window now t \<longleftrightarrow> \<bar>now - t\<bar> \<le> 300"
  by (simp add: outside_window_def default_window_def DEFAULT_SIGNATURE_TOLERANCE_SECONDS_def not_less nullish_def)

lemma stripe_valid:
  assumes "verifySignature (stripeWebhookProvider sn) raw hs secret w = (Inr Valid, w')"
  shows "\<exists>ms. sn_now sn w = (Inr ms, w') \<and> stripe_proof sn raw hs secret ms"
proof -
  from assms obtain h where h: "firstHeader hs ''stripe-signature'' = Some h" "h \<noteq> []"
    by (auto simp: stripeWebhookProvider_def run_ret split: option.splits if_splits)
  with assms have "verifyStripeSignature sn raw h secret default_window w = (Inr True, w')"
    by (auto simp: stripeWebhookProvider_def run_then run_ret)
  with h show ?thesis by (auto simp: stripe_accepts clock_read in_window stripe_proof_def)
qed

lemma slack_valid:
  assumes "verifySignature (slackWebhookProvider sn) raw hs secret w = (Inr Valid, w')"
  shows "\<exists>ms. sn_now sn w = (Inr ms, w') \<and> slack_proof sn raw hs secret ms"
proof -
  from assms obtain h th where h: "firstHeader hs ''x-slack-signature'' = Some h" "firstHeader hs ''x-slack-request-timestamp'' = Some th"
    "h \<noteq> []" "th \<noteq> []"
    by (auto simp: slackWebhookProvider_def run_ret split: option.splits if_splits)
  with assms have "verifySlackSignature sn raw h th secret default_window w = (Inr True, w')"
    by (auto simp: slackWebhookProvider_def run_then run_ret)
  with h show ?thesis by (auto simp: slack_accepts clock_read in_window slack_proof_def)
qed

lemma email_valid:
  assumes "verifySignature (emailWebhookProvider sn) raw hs secret w = (Inr Valid, w')"
  shows "\<exists>ms. sn_now sn w = (Inr ms, w') \<and> email_proof sn raw hs secret ms"
proof -
  from assms obtain h th where h: "firstHeader hs ''x-tangle-email-signature'' = Some h" "firstHeader hs ''x-tangle-email-timestamp'' = Some th"
    "h \<noteq> []" "th \<noteq> []"
    by (cases "firstHeader hs ''x-tangle-email-signature''"; cases "firstHeader hs ''x-tangle-email-timestamp''")
      (auto simp: emailWebhookProvider_def run_ret split: if_splits)
  with assms have "verifyEmailSignature sn raw h th secret default_window w = (Inr True, w')"
    by (auto simp: emailWebhookProvider_def run_then run_ret)
  with h show ?thesis by (auto simp: email_accepts clock_read in_window email_proof_def)
qed

lemma clerk_valid:
  assumes "verifySignature (clerkWebhookProvider sn) raw hs secret w = (Inr Valid, w')"
  shows "\<exists>ms. sn_now sn w = (Inr ms, w') \<and> clerk_proof sn raw hs secret ms"
proof -
  let ?key = "buffer_base64 (if take 6 secret = ''whsec_'' then drop 6 secret else secret)"
  from assms obtain i th h where h: "firstHeader hs ''svix-id'' = Some i" "firstHeader hs ''svix-timestamp'' = Some th"
    "firstHeader hs ''svix-signature'' = Some h" "i \<noteq> []" "th \<noteq> []" "h \<noteq> []"
    by (cases "firstHeader hs ''svix-id''"; cases "firstHeader hs ''svix-timestamp''"; cases "firstHeader hs ''svix-signature''")
      (auto simp: clerkWebhookProvider_def clerkVerify_def run_ret split: if_splits)
  with assms obtain t ms where t: "sn_Number sn th = Some t" "sn_now sn w = (Inr ms, w')" "\<not> \<bar>of_int ms / 1000 - t\<bar> > SVIX_TOLERANCE_SECONDS"
    "?key \<noteq> []" "list_ex (\<lambda>entry. case svix_signature entry of None \<Rightarrow> False
       | Some s \<Rightarrow> same_text s (base64_groups (sn_hmac sn ''sha256'' ?key (utf8_bytes (i @ ''.'' @ th @ ''.'' @ raw))))) (split_on (CHR '' '') h)"
    by (auto simp: clerkWebhookProvider_def clerkVerify_def Let_def run_then run_ret split: option.splits if_splits)
  from t(5) have "Some (base64_groups (sn_hmac sn ''sha256'' ?key (utf8_bytes (i @ ''.'' @ th @ ''.'' @ raw)))) \<in> svix_signature ` set (split_on (CHR '' '') h)"
    by (force simp: list_ex_iff split: option.splits)
  with h(1-3) t(1-4) show ?thesis by (auto simp: clerk_proof_def SVIX_TOLERANCE_SECONDS_def)
qed

lemma docuseal_valid:
  assumes "verifySignature (docusealWebhookProvider sn) raw hs secret w = (Inr Valid, w')"
  shows "w' = w \<and> map_option (map to_lower) (firstHeader hs ''x-docuseal-signature'') = Some (hmac_hex sn ''sha256'' secret raw)"
  using assms by (auto simp: docusealWebhookProvider_def run_ret split: option.splits if_splits)

text \<open>The router parses nothing that was not verified under a secret.\<close>

lemma answered_requests_were_verified:
  assumes "handle hash rt request w = (Inr resp, w')" "providers rt (req_providerId request) = Some p" "res_status resp \<noteq> 401"
  obtains secret w1 w2 where "resolveSecret rt (provider_id p) (req_headers request) w = (Inr (Some secret), w1)" "secret \<noteq> []"
    "verifySignature p (req_rawBody request) (req_headers request) secret w1 = (Inr Valid, w2)"
proof -
  from assms(1,2) obtain s w1 where s: "resolveSecret rt (provider_id p) (req_headers request) w = (Inr s, w1)"
    by (auto simp: handle_def run_then)
  with assms have "truthy s" by (cases "truthy s") (auto simp: handle_def run_then run_ret)
  then obtain secret where secret: "s = Some secret" "secret \<noteq> []" by (cases s) auto
  with assms s obtain v w2 where v: "verifySignature p (req_rawBody request) (req_headers request) secret w1 = (Inr v, w2)"
    by (auto simp: handle_def run_then)
  with assms s secret have "v = Valid" by (cases v) (auto simp: handle_def run_then run_ret)
  with s secret v that show thesis by blast
qed

text \<open>C8. Nothing unsigned gets past the router: a request to a provider of Stripe, Slack, Clerk or the e-mail edge that is
  not answered with 401 was sent under a secret the host knows, carries the keyed digest of its own body and time, and
  that time is within five minutes of the clock that was read.\<close>

theorem webhook_requests_are_signed:
  assumes "handle hash rt request w = (Inr resp, w')" "providers rt (req_providerId request) = Some p" "res_status resp \<noteq> 401"
    and "p \<in> {stripeWebhookProvider sn, slackWebhookProvider sn, clerkWebhookProvider sn, emailWebhookProvider sn}"
  shows "\<exists>secret w1 ms w2. resolveSecret rt (provider_id p) (req_headers request) w = (Inr (Some secret), w1) \<and> secret \<noteq> [] \<and>
     sn_now sn w1 = (Inr ms, w2) \<and>
     (p = stripeWebhookProvider sn \<and> stripe_proof sn (req_rawBody request) (req_headers request) secret ms \<or>
      p = slackWebhookProvider sn \<and> slack_proof sn (req_rawBody request) (req_headers request) secret ms \<or>
      p = clerkWebhookProvider sn \<and> clerk_proof sn (req_rawBody request) (req_headers request) secret ms \<or>
      p = emailWebhookProvider sn \<and> email_proof sn (req_rawBody request) (req_headers request) secret ms)"
proof -
  obtain secret w1 w2 where r: "resolveSecret rt (provider_id p) (req_headers request) w = (Inr (Some secret), w1)" "secret \<noteq> []"
    "verifySignature p (req_rawBody request) (req_headers request) secret w1 = (Inr Valid, w2)"
    by (rule answered_requests_were_verified [OF assms(1-3)])
  from assms(4) r(3) stripe_valid slack_valid clerk_valid email_valid
  have "\<exists>ms. sn_now sn w1 = (Inr ms, w2) \<and>
     (p = stripeWebhookProvider sn \<and> stripe_proof sn (req_rawBody request) (req_headers request) secret ms \<or>
      p = slackWebhookProvider sn \<and> slack_proof sn (req_rawBody request) (req_headers request) secret ms \<or>
      p = clerkWebhookProvider sn \<and> clerk_proof sn (req_rawBody request) (req_headers request) secret ms \<or>
      p = emailWebhookProvider sn \<and> email_proof sn (req_rawBody request) (req_headers request) secret ms)"
    by (elim insertE emptyE) fast+
  with r(1,2) show ?thesis by blast
qed

text \<open>A platform whose HMAC is the message itself, and a request under it.\<close>

definition px_signing :: "InMemoryAtomicIdempotencyStore signing" where
  "px_signing = \<lparr>sn_hmac = (\<lambda>a k m. m), sn_sha256 = id, sn_Number = (\<lambda>s. if s = ''7'' then Some 7 else None), sn_numberText = (\<lambda>t. ''7''),
     sn_decode = map (\<lambda>b. char_of (unat b)), sn_formFields = (\<lambda>s. []), sn_now = ret 7000\<rparr>"

definition px_router :: "InMemoryAtomicIdempotencyStore WebhookRouter" where
  "px_router = wx_router\<lparr>providers := [''stripe'' \<mapsto> stripeWebhookProvider px_signing]\<rparr>"

definition px_request :: WebhookRouterRequest where
  "px_request = \<lparr>req_providerId = ''stripe'', req_rawBody = [], req_headers = [(''stripe-signature'', OneValue ''t=7,v1=372e'')]\<rparr>"

lemma px_parts: "split_on (CHR '','') ''t=7,v1=372e'' = [''t=7'', ''v1=372e'']" "header_pair ''t=7'' = Some (''t'', ''7'')"
  "header_pair ''v1=372e'' = Some (''v1'', ''372e'')" "hmac_hex px_signing ''sha256'' ''s'' ''7.'' = ''372e''"
  by (simp_all add: header_pair_def trim_def js_space_def) code_simp

lemma px_verified: "verifySignature (stripeWebhookProvider px_signing) [] [(''stripe-signature'', OneValue ''t=7,v1=372e'')] ''s'' w = (Inr Valid, w)"
  using px_parts
  by (simp add: stripeWebhookProvider_def firstHeader_def verifyStripeSignature_def parseStripeSignatureHeader_def px_signing_def io_defs
      nullish_opt_def seconds_now_def default_window_def outside_window_def DEFAULT_SIGNATURE_TOLERANCE_SECONDS_def verdict_def)

lemma px_handled: "handle id px_router px_request mx_store = (Inr (respond 200 [(''received'', jnat 0), (''total'', jnat 0)]), mx_store)"
proof -
  have "safeJson [] = JNull" by code_simp
  then have parsed: "stripeParse [] hs now = []" for hs now by (simp add: stripeParse_def)
  have "provider_id (stripeWebhookProvider px_signing) = ''stripe''" "successResponse (stripeWebhookProvider px_signing) = None"
    "parse (stripeWebhookProvider px_signing) [] hs now = ret []" for hs now by (simp_all add: stripeWebhookProvider_def parsed)
  then show ?thesis
    by (simp add: handle_def px_router_def px_request_def wx_router_def px_verified handleEvents_def io_defs)
qed

theorem webhook_requests_are_signed_witness:
  "res_status (respond 200 [(''received'', jnat 0), (''total'', jnat 0)]) \<noteq> 401 \<and>
   (\<exists>ms. stripe_proof px_signing [] (req_headers px_request) ''s'' ms)"
proof -
  have p: "providers px_router (req_providerId px_request) = Some (stripeWebhookProvider px_signing)"
    by (simp add: px_router_def px_request_def)
  have s: "resolveSecret px_router i hs w = (Inr (Some ''s''), w)" for i hs w by (simp add: px_router_def wx_router_def io_defs)
  have ids: "provider_id (slackWebhookProvider sn) = ''slack''" "provider_id (clerkWebhookProvider sn) = ''clerk''"
    "provider_id (emailWebhookProvider sn) = ''email''" "provider_id (stripeWebhookProvider sn) = ''stripe''" for sn :: "InMemoryAtomicIdempotencyStore signing"
    by (simp_all add: slackWebhookProvider_def clerkWebhookProvider_def emailWebhookProvider_def stripeWebhookProvider_def)
  then have ne: "stripeWebhookProvider px_signing \<notin> {slackWebhookProvider px_signing, clerkWebhookProvider px_signing, emailWebhookProvider px_signing}"
    by (auto dest!: arg_cong [where f = provider_id])
  have "res_status (respond 200 [(''received'', jnat 0), (''total'', jnat 0)]) \<noteq> 401" by simp
  moreover from webhook_requests_are_signed [OF px_handled p this, of px_signing] ne
  have "\<exists>ms. stripe_proof px_signing [] (req_headers px_request) ''s'' ms" by (auto simp: s px_request_def)
  ultimately show ?thesis by blast
qed

section \<open>The catalogs of events\<close>

definition first_party :: "'w signing \<Rightarrow> 'w WebhookProvider list" where
  "first_party sn = [stripeWebhookProvider sn, slackWebhookProvider sn, clerkWebhookProvider sn, docusealWebhookProvider sn,
     emailWebhookProvider sn, gmailWebhookProvider sn, gdriveWebhookProvider, telegramWebhookProvider, hellosignWebhookProvider sn, clayWebhookProvider sn]"

text \<open>What a provider parses is what its catalog says: parsing changes nothing, every event is of the provider, carries the
  prefix of its catalog, and is one of the listed events when the list is closed, but for the Telegram updates that no
  known key names.\<close>

theorem parsed_events_are_in_the_catalog:
  assumes "p \<in> set (first_party sn)" "parse p raw hs now w = (Inr evs, w')" "ev \<in> set evs"
  shows "w' = w \<and> provider ev = provider_id p \<and> receivedAt ev = now \<and>
     (case eventCatalog p of None \<Rightarrow> True | Some cat \<Rightarrow>
       (case tc_namespace cat of None \<Rightarrow> True | Some ns \<Rightarrow> take (length ns) (eventType ev) = ns) \<and>
       (\<not> tc_closed cat \<or> eventType ev \<in> set (tc_events cat) \<or> eventType ev = ''telegram.unknown''))"
proof -
  have tele: "\<exists>k \<in> set TELEGRAM_UPDATE_KEYS. eventType ev = ''telegram.'' @ k" if "ev \<in> set (telegramParse raw hs now)" "eventType ev \<noteq> ''telegram.unknown''"
    using that by (auto simp: telegramParse_def envelope_def Let_def nullish_def split: if_splits option.splits dest!: find_hit)
  note parses = stripeWebhookProvider_def slackWebhookProvider_def clerkWebhookProvider_def docusealWebhookProvider_def emailWebhookProvider_def
    gmailWebhookProvider_def gdriveWebhookProvider_def telegramWebhookProvider_def hellosignWebhookProvider_def clayWebhookProvider_def
  from assms(1) consider "p = stripeWebhookProvider sn" | "p = slackWebhookProvider sn" | "p = clerkWebhookProvider sn" | "p = docusealWebhookProvider sn"
    | "p = emailWebhookProvider sn" | "p = gmailWebhookProvider sn" | "p = gdriveWebhookProvider" | "p = telegramWebhookProvider"
    | "p = hellosignWebhookProvider sn" | "p = clayWebhookProvider sn" by (auto simp: first_party_def)
  then show ?thesis
  proof cases
    case 1
    with assms(2,3) show ?thesis by (auto simp: parses run_ret stripeParse_def envelope_def Let_def split: if_splits)
  next
    case 2
    with assms(2,3) show ?thesis by (auto simp: parses run_ret slackParse_def slack_event_type_def hinted_def envelope_def Let_def split: if_splits)
  next
    case 3
    with assms(2,3) show ?thesis by (auto simp: parses run_ret clerkParse_def hinted_def envelope_def Let_def split: option.splits)
  next
    case 4
    with assms(2,3) show ?thesis by (auto simp: parses run_ret docusealParse_def hinted_def envelope_def Let_def split: if_splits)
  next
    case 5
    with assms(2,3) show ?thesis by (auto simp: parses run_ret emailParse_def envelope_def Let_def split: if_splits)
  next
    case 6
    with assms(2,3) show ?thesis by (auto simp: parses run_ret gmailParse_def envelope_def Let_def split: if_splits option.splits)
  next
    case 7
    with assms(2,3) show ?thesis by (auto simp: parses run_ret gdriveParse_def envelope_def Let_def)
  next
    case 8
    with assms(2,3) have e: "ev \<in> set (telegramParse raw hs now)" and w: "w' = w" by (auto simp: parses run_ret)
    then have shape: "provider ev = ''telegram''" "receivedAt ev = now" "take (length ''telegram.'') (eventType ev) = ''telegram.''"
      by (auto simp: telegramParse_def envelope_def Let_def split: if_splits)
    have "eventType ev \<in> (@) ''telegram.'' ` set TELEGRAM_UPDATE_KEYS \<or> eventType ev = ''telegram.unknown''" using tele [OF e] by blast
    with 8 shape w show ?thesis by (simp add: parses)
  next
    case 9
    with assms(2,3) show ?thesis by (auto simp: parses run_ret hellosignParse_def hinted_def envelope_def Let_def split: if_splits option.splits)
  next
    case 10
    with assms(2,3) show ?thesis by (auto simp: parses run_ret clayParse_def envelope_def Let_def split: if_splits)
  qed
qed

definition poll_update :: string where
  "poll_update = stringify (JObj [(''update_id'', JNum (Finite 12)), (''poll'', JObj [])])"

theorem parsed_events_are_in_the_catalog_witness:
  "\<exists>evs. telegramParse poll_update [] 5 = evs \<and> map eventType evs = [''telegram.poll''] \<and> map providerEventId evs = [Some ''12''] \<and>
   receivedAt (hd evs) = 5 \<and> provider (hd evs) = ''telegram''"
proof -
  have one: "map eventType (telegramParse poll_update [] 5) = [''telegram.poll'']" "map providerEventId (telegramParse poll_update [] 5) = [Some ''12'']"
    by code_simp+
  then have "telegramParse poll_update [] 5 \<noteq> []" by auto
  then have "hd (telegramParse poll_update [] 5) \<in> set (telegramParse poll_update [] 5)" by (rule hd_in_set)
  moreover have "parse telegramWebhookProvider poll_update [] 5 () = (Inr (telegramParse poll_update [] 5), ())" "telegramWebhookProvider \<in> set (first_party sn)" for sn
    by (simp_all add: telegramWebhookProvider_def io_defs first_party_def)
  ultimately have "provider (hd (telegramParse poll_update [] 5)) = ''telegram'' \<and> receivedAt (hd (telegramParse poll_update [] 5)) = 5"
    using parsed_events_are_in_the_catalog [of telegramWebhookProvider _ poll_update "[]" 5 "()"] by (fastforce simp: telegramWebhookProvider_def)
  with one show ?thesis by simp
qed

section \<open>What is not signed\<close>

text \<open>The digest in a Dropbox Sign body covers the time and the type of the event: with these and its digest, any other contents
  pass.\<close>

theorem hellosign_contents_are_not_signed:
  assumes "hellosignVerify sn raw secret = Valid"
    and "\<forall>k \<in> {''event_time'', ''event_type'', ''event_hash''}. opt_field (field (parseHelloSignBody sn raw') ''event'') k =
      opt_field (field (parseHelloSignBody sn raw) ''event'') k"
  shows "hellosignVerify sn raw' secret = Valid"
proof -
  have e: "opt_field (field (parseHelloSignBody sn raw') ''event'') ''event_time'' = opt_field (field (parseHelloSignBody sn raw) ''event'') ''event_time''"
    "opt_field (field (parseHelloSignBody sn raw') ''event'') ''event_type'' = opt_field (field (parseHelloSignBody sn raw) ''event'') ''event_type''"
    "opt_field (field (parseHelloSignBody sn raw') ''event'') ''event_hash'' = opt_field (field (parseHelloSignBody sn raw) ''event'') ''event_hash''"
    using assms(2) by blast+
  from assms(1) show ?thesis unfolding hellosignVerify_def Let_def e .
qed

text \<open>Clay sends a row again when it has changed, and the identifier of the row becomes the identifier of the event: the router
  takes the new state of a row for a repetition of the old one.\<close>

definition clay_row :: "string \<Rightarrow> string" where
  "clay_row stage = stringify (JObj [(''rowId'', JStr ''r1''), (''stage'', JStr stage)])"

theorem changed_row_is_a_duplicate:
  "map (\<lambda>ev. eventKey hash ''clay'' ev 0 (clay_row ''won'')) (clayParse sn (clay_row ''won'') hs now) = [''clay:id:r1''] \<and>
   map (\<lambda>ev. eventKey hash ''clay'' ev 0 (clay_row ''lost'')) (clayParse sn (clay_row ''lost'') hs now) = [''clay:id:r1'']"
proof -
  have row: "safeJson (clay_row ''won'') = JObj [(''rowId'', JStr ''r1''), (''stage'', JStr ''won'')]"
    "safeJson (clay_row ''lost'') = JObj [(''rowId'', JStr ''r1''), (''stage'', JStr ''lost'')]" by code_simp+
  have "trim ''r1'' = ''r1''" by (simp add: trim_def js_space_def)
  then show ?thesis
    by (simp add: clayParse_def row clay_event_id_def CLAY_EVENT_ID_KEYS_def envelope_def eventKey_def nullish_opt_def)
qed

end
