(* ===== verification/Messaging.thy ===== *)
theory Messaging
  imports WebhookPlugins
begin

text \<open>
  The providers of messages: \<open>webhooks/messaging.ts\<close> (Inkbox, Linq, Contiguity, Resend, Sendblue),
  \<open>webhooks/whatsapp.ts\<close>, \<open>webhooks/cloudbeds.ts\<close> and \<open>webhooks/twilio.ts\<close> with the form check of
  \<open>twilio/index.ts\<close>. What \<open>JSON.parse\<close> throws is one error.
\<close>

section \<open>Headers and times\<close>

text \<open>\<open>header\<close>: a repeated header counts as absent.\<close>

definition sole_header :: "WebhookHeaders \<Rightarrow> string \<Rightarrow> string option" where
  "sole_header hs name = (case filter (\<lambda>h. map to_lower (fst h) = name) hs of
     [(_, OneValue v)] \<Rightarrow> if 0 < length v \<and> length v \<le> 4096 then Some v else None
   | _ \<Rightarrow> None)"

definition number_of_digits :: "string \<Rightarrow> nat" where
  "number_of_digits s = foldl (\<lambda>n c. 10 * n + (code_of c - 48)) 0 s"

text \<open>The clock is in milliseconds; a number of at most twelve digits is a safe integer.\<close>

definition fresh :: "string option \<Rightarrow> int \<Rightarrow> bool" where
  "fresh timestamp ms = (case timestamp of None \<Rightarrow> False
     | Some t \<Rightarrow> t \<noteq> [] \<and> length t \<le> 12 \<and> list_all is_digit t \<and> \<bar>of_int ms / 1000 - (of_nat (number_of_digits t) :: rat)\<bar> \<le> 300)"

section \<open>Signatures\<close>

definition verifyInkboxWebhook :: "'w signing \<Rightarrow> string \<Rightarrow> WebhookHeaders \<Rightarrow> string \<Rightarrow> int \<Rightarrow> bool" where
  "verifyInkboxWebhook sn raw hs secret ms =
     (case (sole_header hs ''x-inkbox-request-id'', sole_header hs ''x-inkbox-timestamp'', sole_header hs ''x-inkbox-signature'') of
        (Some i, Some t, Some signature) \<Rightarrow> secret \<noteq> [] \<and> fresh (Some t) ms \<and>
          verifyHmacSignature sn (i @ ''.'' @ t @ ''.'' @ raw) signature secret
            \<lparr>hm_algorithm = None, hm_signaturePrefix = Some ''sha256='', hm_lowercaseHex = None\<rparr>
      | _ \<Rightarrow> False)"

text \<open>\<open>/^[A-Za-z0-9+\/]+={0,2}$/\<close>.\<close>

definition base64_char :: "char \<Rightarrow> bool" where
  "base64_char c \<longleftrightarrow> is_alnum c \<or> c \<in> {CHR ''+'', CHR ''/''}"

definition base64_shaped :: "string \<Rightarrow> bool" where
  "base64_shaped s \<longleftrightarrow> takeWhile base64_char s \<noteq> [] \<and> dropWhile base64_char s \<in> {[], ''='', ''==''}"

text \<open>\<open>timingSafeEqual\<close> throws on buffers of different lengths; the test before it compares characters.\<close>

definition length_error :: exn where
  "length_error = Error ''Input buffers must have the same byte length''"

fun any_signature :: "string \<Rightarrow> string list \<Rightarrow> exn + bool" where
  "any_signature expected [] = Inr False"
| "any_signature expected (part # parts) =
     (if take 3 part = ''v1,'' \<and> length (drop 3 part) = length expected then
        (if length (utf8_bytes (drop 3 part)) \<noteq> length (utf8_bytes expected) then Inl length_error
         else if utf8_bytes (drop 3 part) = utf8_bytes expected then Inr True
         else any_signature expected parts)
      else any_signature expected parts)"

definition verifyStandardWebhook :: "'w signing \<Rightarrow> string \<Rightarrow> WebhookHeaders \<Rightarrow> string \<Rightarrow> string \<Rightarrow> int \<Rightarrow> exn + bool" where
  "verifyStandardWebhook sn raw hs secret pre ms =
     (case (sole_header hs (pre @ ''-id''), sole_header hs (pre @ ''-timestamp''), sole_header hs (pre @ ''-signature'')) of
        (Some i, Some t, Some signature) \<Rightarrow>
          if \<not> fresh (Some t) ms \<or> take 6 secret \<noteq> ''whsec_'' \<or> \<not> base64_shaped (drop 6 secret) then Inr False
          else let key = buffer_base64 (drop 6 secret) in
            if length key < 16 \<or> base64_groups key \<noteq> drop 6 secret then Inr False
            else any_signature (base64_groups (sn_hmac sn ''sha256'' key (utf8_bytes (i @ ''.'' @ t @ ''.'' @ raw)))) (split_on (CHR '' '') signature)
      | _ \<Rightarrow> Inr False)"

definition standard_verdict :: "'w signing \<Rightarrow> string \<Rightarrow> string \<Rightarrow> WebhookHeaders \<Rightarrow> string \<Rightarrow> ('w, exn, SignatureVerification) io" where
  "standard_verdict sn pre raw hs secret =
     andThen (sn_now sn) (\<lambda>ms. andThen (liftE (verifyStandardWebhook sn raw hs secret pre ms)) (\<lambda>ok. ret (verdict ok)))"

section \<open>Events\<close>

definition syntax_error :: exn where
  "syntax_error = Error ''SyntaxError''"

definition oversized :: "string \<Rightarrow> bool" where
  "oversized raw \<longleftrightarrow> length (utf8_bytes raw) > 1048576"

text \<open>\<open>/^[a-z][a-z0-9_.-]{0,100}$/\<close>.\<close>

definition is_small :: "char \<Rightarrow> bool" where
  "is_small c \<longleftrightarrow> is_letter c \<and> to_lower c = c"

definition event_word :: "string \<Rightarrow> bool" where
  "event_word s \<longleftrightarrow> (case s of [] \<Rightarrow> False
     | c # cs \<Rightarrow> is_small c \<and> length cs \<le> 100 \<and> list_all (\<lambda>d. is_small d \<or> is_digit d \<or> d \<in> {CHR ''_'', CHR ''.'', CHR ''-''}) cs)"

definition boundedParse :: "string \<Rightarrow> string \<Rightarrow> string \<Rightarrow> string \<Rightarrow> int \<Rightarrow> exn + WebhookEnvelope list" where
  "boundedParse p typeField idField raw now =
     (if oversized raw then Inl (Error ''Webhook exceeds 1 MiB'')
      else case JSON_parse raw of
        None \<Rightarrow> Inl syntax_error
      | Some v \<Rightarrow> (case (as_string (field v typeField), as_string (field v idField)) of
            (Some t, Some i) \<Rightarrow> if event_word t \<and> 0 < length i \<and> length i \<le> 256
              then Inr [envelope p (p @ ''.'' @ t) (Some i) now v []]
              else Inl (Error ''Provider event requires a bounded event type and stable id'')
          | _ \<Rightarrow> Inl (Error ''Provider event requires a bounded event type and stable id'')))"

definition inkboxWebhookProvider :: "'w signing \<Rightarrow> 'w WebhookProvider" where
  "inkboxWebhookProvider sn =
     \<lparr>provider_id = ''inkbox'',
      verifySignature = (\<lambda>raw hs secret. andThen (sn_now sn) (\<lambda>ms. ret (verdict (verifyInkboxWebhook sn raw hs secret ms)))),
      parse = (\<lambda>raw hs now. liftE (boundedParse ''inkbox'' ''event_type'' ''id'' raw now)), successResponse = None,
      eventCatalog = hinted ''inkbox.'' [''imessage.received'', ''text.received'', ''message.received'']\<rparr>"

definition linqParse :: "string \<Rightarrow> WebhookHeaders \<Rightarrow> int \<Rightarrow> exn + WebhookEnvelope list" where
  "linqParse raw hs now =
     (case boundedParse ''linq'' ''event_type'' ''event_id'' raw now of
        Inl e \<Rightarrow> Inl e
      | Inr evs \<Rightarrow> (case sole_header hs ''webhook-id'' of
            None \<Rightarrow> Inl (Error ''Missing signed event identity'')
          | Some i \<Rightarrow> Inr (map (\<lambda>ev. ev\<lparr>providerEventId := Some i\<rparr>) evs)))"

definition linqWebhookProvider :: "'w signing \<Rightarrow> 'w WebhookProvider" where
  "linqWebhookProvider sn =
     \<lparr>provider_id = ''linq'', verifySignature = standard_verdict sn ''webhook'',
      parse = (\<lambda>raw hs now. liftE (linqParse raw hs now)), successResponse = None, eventCatalog = hinted ''linq.'' [''message.received'']\<rparr>"

definition contiguityWebhookProvider :: "'w signing \<Rightarrow> 'w WebhookProvider" where
  "contiguityWebhookProvider sn =
     \<lparr>provider_id = ''contiguity'',
      verifySignature = (\<lambda>raw hs secret. case sole_header hs ''contiguity-signature'' of
          None \<Rightarrow> ret (verdict False)
        | Some signature \<Rightarrow> if secret = [] then ret (verdict False)
            else andThen (verifyStripeSignature sn raw signature secret default_window) (\<lambda>ok. ret (verdict ok))),
      parse = (\<lambda>raw hs now. liftE (boundedParse ''contiguity'' ''type'' ''id'' raw now)), successResponse = None,
      eventCatalog = hinted ''contiguity.'' [''imessage.incoming'', ''text.incoming.sms'', ''text.incoming.mms'']\<rparr>"

definition linqWhatsappParse :: "string \<Rightarrow> WebhookHeaders \<Rightarrow> int \<Rightarrow> exn + WebhookEnvelope list" where
  "linqWhatsappParse raw hs now =
     (case boundedParse ''linq-whatsapp'' ''type'' ''id'' raw now of
        Inl e \<Rightarrow> Inl e
      | Inr evs \<Rightarrow> if map providerEventId (take 1 evs) = [sole_header hs ''webhook-id''] then Inr evs
          else Inl (Error ''Signed event identity mismatch''))"

definition linqWhatsappWebhookProvider :: "'w signing \<Rightarrow> 'w WebhookProvider" where
  "linqWhatsappWebhookProvider sn =
     \<lparr>provider_id = ''linq-whatsapp'', verifySignature = standard_verdict sn ''webhook'',
      parse = (\<lambda>raw hs now. liftE (linqWhatsappParse raw hs now)), successResponse = None,
      eventCatalog = hinted ''linq-whatsapp.'' [''message.received'']\<rparr>"

text \<open>\<open>/^[a-f\d]{8}(?:-[a-f\d]{4}){3}-[a-f\d]{12}$/i\<close>.\<close>

definition is_hex :: "char \<Rightarrow> bool" where
  "is_hex c \<longleftrightarrow> is_digit c \<or> to_lower c \<in> {CHR ''a'', CHR ''b'', CHR ''c'', CHR ''d'', CHR ''e'', CHR ''f''}"

definition uuid_shaped :: "string \<Rightarrow> bool" where
  "uuid_shaped s \<longleftrightarrow> map length (split_on (CHR ''-'') s) = [8, 4, 4, 4, 12] \<and> list_all (list_all is_hex) (split_on (CHR ''-'') s)"

definition resendParse :: "string \<Rightarrow> WebhookHeaders \<Rightarrow> int \<Rightarrow> exn + WebhookEnvelope list" where
  "resendParse raw hs now =
     (if oversized raw then Inl (Error ''Webhook exceeds 1 MiB'')
      else case JSON_parse raw of
        None \<Rightarrow> Inl syntax_error
      | Some v \<Rightarrow>
          if field v ''type'' = Some (JStr ''email.received'') \<and>
             (case as_string (opt_field (field v ''data'') ''email_id'') of None \<Rightarrow> False | Some i \<Rightarrow> uuid_shaped i)
          then (case sole_header hs ''svix-id'' of
              None \<Rightarrow> Inl (Error ''Missing signed event identity'')
            | Some i \<Rightarrow> Inr [envelope ''resend'' ''resend.email.received'' (Some i) now v []])
          else Inl (Error ''Resend event requires a received email id''))"

definition closed_list :: "string \<Rightarrow> string list \<Rightarrow> TriggerEventCatalog option" where
  "closed_list ns events = Some \<lparr>tc_namespace = Some ns, tc_events = map ((@) ns) events, tc_closed = True\<rparr>"

definition resendWebhookProvider :: "'w signing \<Rightarrow> 'w WebhookProvider" where
  "resendWebhookProvider sn =
     \<lparr>provider_id = ''resend'', verifySignature = standard_verdict sn ''svix'',
      parse = (\<lambda>raw hs now. liftE (resendParse raw hs now)), successResponse = None, eventCatalog = closed_list ''resend.'' [''email.received'']\<rparr>"

definition sendblueParse :: "string \<Rightarrow> int \<Rightarrow> exn + WebhookEnvelope list" where
  "sendblueParse raw now =
     (if oversized raw then Inl (Error ''Webhook exceeds 1 MiB'')
      else case JSON_parse raw of
        None \<Rightarrow> Inl syntax_error
      | Some v \<Rightarrow>
          if \<not> is_record v then Inl (Error ''Sendblue webhook requires an object'')
          else if map_option (map to_lower) (as_string (field v ''message_type'')) \<notin> {Some ''message'', Some ''group''} then Inr []
          else (case (as_string (field v ''message_handle''), field v ''is_outbound'') of
              (Some i, Some (JBool outbound)) \<Rightarrow>
                if i = [] \<or> length i > 256 then Inl (Error ''Sendblue event requires a stable message handle and direction'')
                else if outbound then Inr []
                else Inr [envelope ''sendblue'' ''sendblue.message.received'' (Some i) now v []]
            | _ \<Rightarrow> Inl (Error ''Sendblue event requires a stable message handle and direction'')))"

definition sendblueWebhookProvider :: "'w WebhookProvider" where
  "sendblueWebhookProvider =
     \<lparr>provider_id = ''sendblue'',
      verifySignature = (\<lambda>raw hs secret. ret (case sole_header hs ''sb-signing-secret'' of
          None \<Rightarrow> verdict False | Some supplied \<Rightarrow> verdict (secret \<noteq> [] \<and> same_text supplied secret))),
      parse = (\<lambda>raw hs now. liftE (sendblueParse raw now)), successResponse = None,
      eventCatalog = closed_list ''sendblue.'' [''message.received'']\<rparr>"

section \<open>WhatsApp\<close>

record whatsapp_options =
  wp_providerId :: string
  wp_wabaId :: string
  wp_phoneNumberId :: string

definition graphId :: "string \<Rightarrow> bool" where
  "graphId s \<longleftrightarrow> 1 \<le> length s \<and> length s \<le> 64 \<and> list_all is_digit s"

definition whatsapp_headers :: "WebhookHeaders \<Rightarrow> (string \<times> string) list" where
  "whatsapp_headers hs = foldl (\<lambda>m (k, v). case v of OneValue s \<Rightarrow> AList.update (map to_lower k) s m | _ \<Rightarrow> m) [] hs"

fun message_events :: "whatsapp_options \<Rightarrow> WebhookHeaders \<Rightarrow> int \<Rightarrow> json list \<Rightarrow> exn + WebhookEnvelope list" where
  "message_events opts hs now [] = Inr []"
| "message_events opts hs now (message # messages) =
     (case as_string (field message ''id'') of
        None \<Rightarrow> Inl (Error ''Invalid WhatsApp message identity'')
      | Some i \<Rightarrow>
          if i = [] \<or> length i > 256 then Inl (Error ''Invalid WhatsApp message identity'')
          else map_sum id (Cons (envelope (wp_providerId opts) (wp_providerId opts @ ''.message.received'')
              (Some (wp_phoneNumberId opts @ CHR '':'' # i)) now
              (JObj [(''wabaId'', JStr (wp_wabaId opts)), (''phoneNumberId'', JStr (wp_phoneNumberId opts)), (''message'', message)])
              (whatsapp_headers hs))) (message_events opts hs now messages))"

text \<open>A change is for this callback when it is about messages of the bound number.\<close>

definition change_messages :: "whatsapp_options \<Rightarrow> json \<Rightarrow> json option" where
  "change_messages opts change =
     (if field change ''field'' \<noteq> Some (JStr ''messages'') then None
      else case field change ''value'' of
        Some (JObj kvs) \<Rightarrow>
          if map_of kvs ''messaging_product'' = Some (JStr ''whatsapp'') \<and>
             opt_field (map_of kvs ''metadata'') ''phone_number_id'' = Some (JStr (wp_phoneNumberId opts))
          then map_of kvs ''messages'' else None
      | _ \<Rightarrow> None)"

fun change_events :: "whatsapp_options \<Rightarrow> WebhookHeaders \<Rightarrow> int \<Rightarrow> json list \<Rightarrow> exn + WebhookEnvelope list" where
  "change_events opts hs now [] = Inr []"
| "change_events opts hs now (change # changes) =
     (case change_messages opts change of
        None \<Rightarrow> change_events opts hs now changes
      | Some (JArr messages) \<Rightarrow>
          if length messages > 100 then Inl (Error ''Invalid WhatsApp messages'')
          else (case message_events opts hs now messages of
              Inl e \<Rightarrow> Inl e
            | Inr evs \<Rightarrow> map_sum id ((@) evs) (change_events opts hs now changes))
      | Some _ \<Rightarrow> Inl (Error ''Invalid WhatsApp messages''))"

fun entry_events :: "whatsapp_options \<Rightarrow> WebhookHeaders \<Rightarrow> int \<Rightarrow> json list \<Rightarrow> exn + WebhookEnvelope list" where
  "entry_events opts hs now [] = Inr []"
| "entry_events opts hs now (entry # items) =
     (case field entry ''changes'' of
        Some (JArr changes) \<Rightarrow>
          if length changes > 100 then Inl (Error ''Invalid WhatsApp entry'')
          else if field entry ''id'' \<noteq> Some (JStr (wp_wabaId opts)) then entry_events opts hs now items
          else (case change_events opts hs now changes of
              Inl e \<Rightarrow> Inl e
            | Inr evs \<Rightarrow> map_sum id ((@) evs) (entry_events opts hs now items))
      | _ \<Rightarrow> Inl (Error ''Invalid WhatsApp entry''))"

definition whatsappParse :: "whatsapp_options \<Rightarrow> string \<Rightarrow> WebhookHeaders \<Rightarrow> int \<Rightarrow> exn + WebhookEnvelope list" where
  "whatsappParse opts raw hs now =
     (case JSON_parse raw of
        None \<Rightarrow> Inl syntax_error
      | Some body \<Rightarrow> (case field body ''entry'' of
            Some (JArr items) \<Rightarrow>
              if field body ''object'' \<noteq> Some (JStr ''whatsapp_business_account'') \<or> length items > 100
              then Inl (Error ''Invalid WhatsApp webhook envelope'')
              else entry_events opts hs now items
          | _ \<Rightarrow> Inl (Error ''Invalid WhatsApp webhook envelope'')))"

text \<open>\<open>/^sha256=[a-f0-9]{64}$/\<close>.\<close>

definition hub_signature :: "string \<Rightarrow> bool" where
  "hub_signature s \<longleftrightarrow> take 7 s = ''sha256='' \<and> length s = 71 \<and> list_all (\<lambda>c. is_hex c \<and> to_lower c = c) (drop 7 s)"

definition createWhatsappWebhookProvider :: "'w signing \<Rightarrow> whatsapp_options \<Rightarrow> exn + 'w WebhookProvider" where
  "createWhatsappWebhookProvider sn opts =
     (if \<not> graphId (wp_wabaId opts) \<or> \<not> graphId (wp_phoneNumberId opts) then Inl (Error ''Meta webhook requires a WABA and phone number ID'')
      else Inr
        \<lparr>provider_id = wp_providerId opts,
         verifySignature = (\<lambda>raw hs secret. ret (case firstHeader hs ''x-hub-signature-256'' of
             None \<Rightarrow> verdict False
           | Some signature \<Rightarrow> verdict (hub_signature signature \<and> verifyHmacSignature sn raw signature secret
               \<lparr>hm_algorithm = Some ''sha256'', hm_signaturePrefix = Some ''sha256='', hm_lowercaseHex = None\<rparr>))),
         parse = (\<lambda>raw hs now. liftE (whatsappParse opts raw hs now)), successResponse = None,
         eventCatalog = closed_list (wp_providerId opts @ ''.'') [''message.received'']\<rparr>)"

section \<open>Cloudbeds\<close>

definition CLOUDBEDS_WEBHOOK_AUTH_HEADER :: string where
  "CLOUDBEDS_WEBHOOK_AUTH_HEADER = ''x-tangle-webhook-token''"

definition CLOUDBEDS_WEBHOOK_EVENTS :: "(string \<times> string) list" where
  "CLOUDBEDS_WEBHOOK_EVENTS = [(''reservation'', ''created''), (''reservation'', ''status_changed''), (''reservation'', ''dates_changed''),
     (''reservation'', ''accommodation_changed''), (''reservation'', ''deleted'')]"

definition numeric_id :: "string \<Rightarrow> bool" where
  "numeric_id s \<longleftrightarrow> (case s of [] \<Rightarrow> False | c # cs \<Rightarrow> is_digit c \<and> c \<noteq> CHR ''0'' \<and> length cs \<le> 19 \<and> list_all is_digit cs)"

definition reservation_id :: "string \<Rightarrow> bool" where
  "reservation_id s \<longleftrightarrow> 1 \<le> length s \<and> length s \<le> 64 \<and> list_all (\<lambda>c. is_alnum c \<or> c \<in> {CHR ''_'', CHR ''-''}) s"

definition idText :: "json option \<Rightarrow> (string \<Rightarrow> bool) \<Rightarrow> string option" where
  "idText v pattern = (case v of
     Some (JNum n) \<Rightarrow> if safe_integer n \<and> pattern (js_String (JNum n)) then Some (js_String (JNum n)) else None
   | Some (JStr s) \<Rightarrow> if pattern s then Some s else None
   | _ \<Rightarrow> None)"

definition headersOf :: "WebhookHeaders \<Rightarrow> (string \<times> string) list" where
  "headersOf hs = foldl (\<lambda>m (k, v). if map to_lower k = CLOUDBEDS_WEBHOOK_AUTH_HEADER then m
     else AList.update (map to_lower k) (case v of OneValue s \<Rightarrow> s | ManyValues ss \<Rightarrow> joined '', '' ss) m) [] hs"

fun first_some :: "'a option list \<Rightarrow> 'a option" where
  "first_some [] = None"
| "first_some (v # vs) = nullish_opt v (first_some vs)"

definition cloudbedsParse :: "'w signing \<Rightarrow> string \<Rightarrow> WebhookHeaders \<Rightarrow> int \<Rightarrow> exn + WebhookEnvelope list" where
  "cloudbedsParse sn raw hs now =
     (case JSON_parse raw of
        None \<Rightarrow> Inl (Error ''cloudbeds webhook body is not JSON'')
      | Some evt \<Rightarrow>
          if \<not> is_record evt then Inl (Error ''cloudbeds webhook body is not an object'')
          else (case find (\<lambda>(obj, act). field evt ''event'' = Some (JStr (obj @ CHR ''/'' # act))) CLOUDBEDS_WEBHOOK_EVENTS of
              None \<Rightarrow> Inr []
            | Some (obj, act) \<Rightarrow>
                (case (first_some (map (\<lambda>k. idText (field evt k) numeric_id) [''propertyID'', ''propertyID_str'', ''propertyId'', ''propertyId_str'']),
                       first_some (map (\<lambda>k. idText (field evt k) reservation_id) [''reservationID'', ''reservationId''])) of
                   (Some propertyId, Some reservationId) \<Rightarrow>
                     let timestamp = (if text_or_number (field evt ''timestamp'') then js_String (the (field evt ''timestamp'')) else []) in
                     Inr [envelope ''cloudbeds'' (''cloudbeds.'' @ obj @ CHR ''.'' # act)
                       (Some (hex_text (sn_sha256 sn (utf8_bytes
                         (obj @ CHR ''/'' # act @ CHR ''|'' # propertyId @ CHR ''|'' # reservationId @ CHR ''|'' # timestamp)))))
                       now (JObj (spread (own_properties evt) [(''propertyId'', JStr propertyId), (''reservationId'', JStr reservationId)])) (headersOf hs)]
                 | _ \<Rightarrow> Inl (Error ''cloudbeds webhook is missing propertyId or reservationId''))))"

definition cloudbedsWebhookProvider :: "'w signing \<Rightarrow> 'w WebhookProvider" where
  "cloudbedsWebhookProvider sn =
     \<lparr>provider_id = ''cloudbeds'',
      verifySignature = (\<lambda>raw hs secret. ret (case firstHeader hs CLOUDBEDS_WEBHOOK_AUTH_HEADER of
          None \<Rightarrow> Invalid ''missing_cloudbeds_webhook_token''
        | Some tok \<Rightarrow> if tok = [] then Invalid ''missing_cloudbeds_webhook_token'' else if secret = [] then Invalid ''missing_secret''
            else if same_text tok secret then Valid else Invalid ''invalid_webhook_token'')),
      parse = (\<lambda>raw hs now. liftE (cloudbedsParse sn raw hs now)), successResponse = None,
      eventCatalog = Some \<lparr>tc_namespace = Some ''cloudbeds.'', tc_events = map (\<lambda>(obj, act). ''cloudbeds.'' @ obj @ CHR ''.'' # act) CLOUDBEDS_WEBHOOK_EVENTS,
        tc_closed = True\<rparr>\<rparr>"

section \<open>Twilio\<close>

record twilio_url =
  tu_protocol :: string
  tu_username :: string
  tu_password :: string
  tu_hash :: string

datatype twilio_kind = kind_message | kind_status

record twilio_options =
  to_url :: string
  to_accountSid :: string
  to_kind :: twilio_kind
  to_providerId :: "string option"

text \<open>\<open>new RegExp(`^\<open>prefix\<close>[a-f0-9]{32}$`, 'i')\<close>.\<close>

definition sid :: "string \<Rightarrow> string \<Rightarrow> bool" where
  "sid pre v \<longleftrightarrow> map to_lower (take 2 v) = map to_lower pre \<and> length v = 34 \<and> list_all is_hex (drop 2 v)"

text \<open>\<open>authenticateTwilioForm\<close> returns or throws; the provider asks only which.\<close>

definition authenticateTwilioForm :: "'w signing \<Rightarrow> (string \<Rightarrow> twilio_url option) \<Rightarrow> string \<Rightarrow> string \<Rightarrow> header_value option \<Rightarrow> string \<Rightarrow> string \<Rightarrow> bool" where
  "authenticateTwilioForm sn parseUrl url raw signature authToken accountSid =
     (case parseUrl url of
        None \<Rightarrow> False
      | Some u \<Rightarrow>
          let params = sn_formFields sn raw in
          tu_protocol u = ''https:'' \<and> tu_username u = [] \<and> tu_password u = [] \<and> tu_hash u = [] \<and>
          authToken \<noteq> [] \<and> sid ''AC'' accountSid \<and> length (utf8_bytes raw) \<le> 64000 \<and> distinct (map fst params) \<and>
          (case signature of
             Some (OneValue s) \<Rightarrow>
               length s = 28 \<and> list_all base64_char (take 27 s) \<and> drop 27 s = ''='' \<and>
               buffer_base64 s = sn_hmac sn ''sha1'' (utf8_bytes authToken)
                 (utf8_bytes (url @ concat (map (\<lambda>k. k @ the (map_of params k)) (sort_by code_unit_order (map fst params)))))
           | _ \<Rightarrow> False) \<and>
          map_of params ''AccountSid'' = Some accountSid)"

definition message_sid :: "string \<Rightarrow> bool" where
  "message_sid v \<longleftrightarrow> sid ''SM'' v \<or> sid ''MM'' v"

definition status_word :: "string \<Rightarrow> bool" where
  "status_word s \<longleftrightarrow> s \<noteq> [] \<and> list_all (\<lambda>c. is_small c \<or> c = CHR ''_'') s"

definition twilioParse :: "'w signing \<Rightarrow> date_api \<Rightarrow> twilio_options \<Rightarrow> string \<Rightarrow> int \<Rightarrow> exn + WebhookEnvelope list" where
  "twilioParse sn dates opts raw now =
     (let items = foldl (\<lambda>m (k, v). AList.update k v m) [] (sn_formFields sn raw);
          p = nullish (to_providerId opts) ''twilio'';
          kind = (case to_kind opts of kind_message \<Rightarrow> ''message'' | kind_status \<Rightarrow> ''status'') in
      if \<not> message_sid (nullish (map_of items ''MessageSid'') []) then Inl (Error ''Twilio event has no valid message identity'')
      else case (if to_kind opts = kind_status then map_of items ''MessageStatus'' else Some ''received'') of
        None \<Rightarrow> Inl (Error ''Twilio status event has no status'')
      | Some st \<Rightarrow>
          if \<not> status_word st then Inl (Error ''Twilio status event has no status'')
          else (case toISO dates now of
              Inl e \<Rightarrow> Inl e
            | Inr received \<Rightarrow> Inr [envelope p (p @ ''.message.'' @ (if to_kind opts = kind_status then ''status'' else ''received''))
                (Some (to_accountSid opts @ CHR '':'' # the (map_of items ''MessageSid'') @ CHR '':'' # kind @ CHR '':'' # st)) now
                (JObj (AList.update ''__receivedAt'' (JStr received) (map (\<lambda>(k, v). (k, JStr v)) items))) []]))"

definition createTwilioWebhookProvider :: "'w signing \<Rightarrow> (string \<Rightarrow> twilio_url option) \<Rightarrow> date_api \<Rightarrow> twilio_options \<Rightarrow> 'w WebhookProvider" where
  "createTwilioWebhookProvider sn parseUrl dates opts =
     (let p = nullish (to_providerId opts) ''twilio'' in
      \<lparr>provider_id = p,
       verifySignature = (\<lambda>raw hs secret. ret
         (if authenticateTwilioForm sn parseUrl (to_url opts) raw
             (map_option snd (find (\<lambda>h. map to_lower (fst h) = ''x-twilio-signature'') hs)) secret (to_accountSid opts)
          then Valid else Invalid ''invalid_twilio_form_or_signature'')),
       parse = (\<lambda>raw hs now. liftE (twilioParse sn dates opts raw now)),
       successResponse = Some \<lparr>success_body = ''<Response/>'', success_headers = Some [(''Content-Type'', ''text/xml; charset=utf-8'')]\<rparr>,
       eventCatalog = closed_list (p @ ''.'') [''message.received'', ''message.status'']\<rparr>)"

definition createTwilioSmsWebhookProvider :: "'w signing \<Rightarrow> (string \<Rightarrow> twilio_url option) \<Rightarrow> date_api \<Rightarrow> twilio_options \<Rightarrow> 'w WebhookProvider" where
  "createTwilioSmsWebhookProvider sn parseUrl dates opts =
     createTwilioWebhookProvider sn parseUrl dates (opts\<lparr>to_providerId := Some ''twilio-sms''\<rparr>)"

section \<open>What the router may rely on\<close>

lemma mapped_Inr: "map_sum id f r = Inr y \<longleftrightarrow> (\<exists>x. r = Inr x \<and> y = f x)"
  by (cases r) auto

definition of_number :: "whatsapp_options \<Rightarrow> json \<Rightarrow> WebhookEnvelope \<Rightarrow> bool" where
  "of_number opts message ev \<longleftrightarrow> (\<exists>i. field message ''id'' = Some (JStr i) \<and> providerEventId ev = Some (wp_phoneNumberId opts @ CHR '':'' # i)) \<and>
     provider ev = wp_providerId opts \<and> field (payload ev) ''message'' = Some message \<and> field (payload ev) ''wabaId'' = Some (JStr (wp_wabaId opts))"

lemma as_string_iff: "as_string v = Some s \<longleftrightarrow> v = Some (JStr s)"
  by (cases v rule: as_string.cases) auto

lemma message_events_of:
  "message_events opts hs now messages = Inr evs \<Longrightarrow> ev \<in> set evs \<Longrightarrow> \<exists>message \<in> set messages. of_number opts message ev"
proof (induction messages arbitrary: evs)
  case (Cons message messages)
  then obtain i evs' where i: "field message ''id'' = Some (JStr i)" "message_events opts hs now messages = Inr evs'"
    and evs: "ev \<in> set evs' \<or> ev = envelope (wp_providerId opts) (wp_providerId opts @ ''.message.received'') (Some (wp_phoneNumberId opts @ CHR '':'' # i)) now
      (JObj [(''wabaId'', JStr (wp_wabaId opts)), (''phoneNumberId'', JStr (wp_phoneNumberId opts)), (''message'', message)]) (whatsapp_headers hs)"
    by (auto simp: mapped_Inr as_string_iff split: option.splits if_splits)
  from evs show ?case
  proof
    assume "ev \<in> set evs'"
    with Cons.IH [OF i(2)] show ?thesis by auto
  next
    assume "ev = envelope (wp_providerId opts) (wp_providerId opts @ ''.message.received'') (Some (wp_phoneNumberId opts @ CHR '':'' # i)) now
      (JObj [(''wabaId'', JStr (wp_wabaId opts)), (''phoneNumberId'', JStr (wp_phoneNumberId opts)), (''message'', message)]) (whatsapp_headers hs)"
    with i(1) have "of_number opts message ev" by (simp add: of_number_def envelope_def)
    then show ?thesis by simp
  qed
qed simp

lemma change_events_of:
  "change_events opts hs now changes = Inr evs \<Longrightarrow> ev \<in> set evs \<Longrightarrow>
   \<exists>change \<in> set changes. \<exists>messages message. change_messages opts change = Some (JArr messages) \<and> message \<in> set messages \<and> of_number opts message ev"
proof (induction changes arbitrary: evs)
  case (Cons change changes)
  show ?case
  proof (cases "\<exists>messages. change_messages opts change = Some (JArr messages)")
    case True
    then obtain messages where m: "change_messages opts change = Some (JArr messages)" by blast
    with Cons.prems obtain evs1 evs2 where e: "message_events opts hs now messages = Inr evs1" "change_events opts hs now changes = Inr evs2" "evs = evs1 @ evs2"
      by (auto simp: mapped_Inr split: sum.splits if_splits)
    from Cons.prems(2) e(3) consider "ev \<in> set evs1" | "ev \<in> set evs2" by auto
    then show ?thesis
    proof cases
      case 1
      from message_events_of [OF e(1) 1] m show ?thesis by auto
    next
      case 2
      with Cons.IH [OF e(2)] show ?thesis by auto
    qed
  next
    case False
    with Cons.prems(1) have "change_events opts hs now changes = Inr evs" by (auto split: option.splits json.splits)
    from Cons.IH [OF this Cons.prems(2)] show ?thesis by auto
  qed
qed simp

lemma entry_events_of:
  "entry_events opts hs now items = Inr evs \<Longrightarrow> ev \<in> set evs \<Longrightarrow>
   \<exists>entry \<in> set items. field entry ''id'' = Some (JStr (wp_wabaId opts)) \<and> (\<exists>changes messages message change. field entry ''changes'' = Some (JArr changes) \<and>
     change \<in> set changes \<and> change_messages opts change = Some (JArr messages) \<and> message \<in> set messages \<and> of_number opts message ev)"
proof (induction items arbitrary: evs)
  case (Cons entry items)
  then obtain changes where c: "field entry ''changes'' = Some (JArr changes)" by (auto split: option.splits json.splits)
  show ?case
  proof (cases "field entry ''id'' = Some (JStr (wp_wabaId opts))")
    case True
    with Cons.prems(1) c obtain evs1 evs2 where e: "change_events opts hs now changes = Inr evs1" "entry_events opts hs now items = Inr evs2" "evs = evs1 @ evs2"
      by (auto simp: mapped_Inr split: sum.splits if_splits)
    from Cons.prems(2) e(3) consider "ev \<in> set evs1" | "ev \<in> set evs2" by auto
    then show ?thesis
    proof cases
      case 1
      from change_events_of [OF e(1) 1] True c show ?thesis by auto
    next
      case 2
      with Cons.IH [OF e(2)] show ?thesis by auto
    qed
  next
    case False
    with Cons.prems(1) c have "entry_events opts hs now items = Inr evs" by (auto split: if_splits)
    from Cons.IH [OF this Cons.prems(2)] show ?thesis by auto
  qed
qed simp

text \<open>The messages of a delivery that are for the bound number of the bound account.\<close>

definition items_of :: "json option \<Rightarrow> json list" where
  "items_of v = (case v of Some (JArr xs) \<Rightarrow> xs | _ \<Rightarrow> [])"

definition bound_change :: "whatsapp_options \<Rightarrow> json \<Rightarrow> json \<Rightarrow> bool" where
  "bound_change opts change message \<longleftrightarrow> (\<exists>value. field change ''value'' = Some value \<and>
     opt_field (field value ''metadata'') ''phone_number_id'' = Some (JStr (wp_phoneNumberId opts)) \<and> message \<in> set (items_of (field value ''messages'')))"

definition bound_message :: "whatsapp_options \<Rightarrow> json \<Rightarrow> json \<Rightarrow> bool" where
  "bound_message opts body message \<longleftrightarrow> (\<exists>entry \<in> set (items_of (field body ''entry'')). field entry ''id'' = Some (JStr (wp_wabaId opts)) \<and>
     (\<exists>change \<in> set (items_of (field entry ''changes'')). bound_change opts change message))"

lemma change_messages_bound:
  assumes "change_messages opts change = Some (JArr messages)" "message \<in> set messages"
  shows "bound_change opts change message"
proof -
  from assms(1) obtain kvs where "field change ''value'' = Some (JObj kvs)" "opt_field (map_of kvs ''metadata'') ''phone_number_id'' = Some (JStr (wp_phoneNumberId opts))"
    "map_of kvs ''messages'' = Some (JArr messages)"
    by (auto simp: change_messages_def split: if_splits option.splits json.splits)
  with assms(2) show ?thesis by (auto simp: bound_change_def items_of_def)
qed

text \<open>C9. One callback, one number: every event of a WhatsApp delivery is a message of an entry of the bound account in a change that
  names the bound phone number, whatever else the delivery, signed for the whole app, carries; its identifier holds the number and the
  identifier of the message.\<close>

theorem whatsapp_events_are_of_the_bound_number:
  assumes "whatsappParse opts raw hs now = Inr evs" "ev \<in> set evs"
  shows "\<exists>body message. JSON_parse raw = Some body \<and> bound_message opts body message \<and> of_number opts message ev"
proof -
  from assms(1) obtain body items where b: "JSON_parse raw = Some body" "field body ''entry'' = Some (JArr items)" "entry_events opts hs now items = Inr evs"
    by (auto simp: whatsappParse_def split: option.splits json.splits if_splits)
  from entry_events_of [OF b(3) assms(2)] obtain entry changes messages message change where e: "entry \<in> set items"
    "field entry ''id'' = Some (JStr (wp_wabaId opts))" "field entry ''changes'' = Some (JArr changes)" "change \<in> set changes"
    "change_messages opts change = Some (JArr messages)" "message \<in> set messages" "of_number opts message ev" by blast
  have "entry \<in> set (items_of (field body ''entry''))" "change \<in> set (items_of (field entry ''changes''))"
    using e(1,3,4) b(2) by (simp_all add: items_of_def)
  with change_messages_bound [OF e(5,6)] e(2) have "bound_message opts body message" unfolding bound_message_def by blast
  with b(1) e(7) show ?thesis by blast
qed

definition two_accounts :: json where
  "two_accounts =
     (let change = (\<lambda>phone i. JObj [(''field'', JStr ''messages''), (''value'', JObj [(''messaging_product'', JStr ''whatsapp''),
            (''metadata'', JObj [(''phone_number_id'', JStr phone)]), (''messages'', JArr [JObj [(''id'', JStr i)]])])]);
          entry = (\<lambda>waba cs. JObj [(''id'', JStr waba), (''changes'', JArr cs)]) in
      JObj [(''object'', JStr ''whatsapp_business_account''),
        (''entry'', JArr [entry ''1'' [change ''7'' ''a'', change ''8'' ''b''], entry ''2'' [change ''7'' ''c'']])])"

theorem whatsapp_events_are_of_the_bound_number_witness:
  "\<exists>ev message. whatsappParse \<lparr>wp_providerId = ''whatsapp'', wp_wabaId = ''1'', wp_phoneNumberId = ''7''\<rparr> (stringify two_accounts) [] 5 = Inr [ev] \<and>
     providerEventId ev = Some ''7:a'' \<and> bound_message \<lparr>wp_providerId = ''whatsapp'', wp_wabaId = ''1'', wp_phoneNumberId = ''7''\<rparr> two_accounts message"
proof -
  let ?opts = "\<lparr>wp_providerId = ''whatsapp'', wp_wabaId = ''1'', wp_phoneNumberId = ''7''\<rparr>"
  have read: "JSON_parse (stringify two_accounts) = Some two_accounts"
    by (rule JSON_round_trip) (simp add: two_accounts_def)
  have "whatsappParse ?opts raw [] 5 = Inr [envelope ''whatsapp'' ''whatsapp.message.received'' (Some ''7:a'') 5
      (JObj [(''wabaId'', JStr ''1''), (''phoneNumberId'', JStr ''7''), (''message'', JObj [(''id'', JStr ''a'')])]) []]"
    if "JSON_parse raw = Some two_accounts" for raw
    by (simp add: whatsappParse_def that, simp add: two_accounts_def change_messages_def opt_field_def whatsapp_headers_def)
  from this [OF read] obtain ev where ev: "whatsappParse ?opts (stringify two_accounts) [] 5 = Inr [ev]" "providerEventId ev = Some ''7:a''"
    by (simp add: envelope_def)
  from whatsapp_events_are_of_the_bound_number [OF ev(1)] read ev show ?thesis by auto
qed

text \<open>The states of one Twilio message are separate events: the identifier of a status event determines the message and its status.\<close>

lemma sid_length: "message_sid v \<Longrightarrow> length v = 34"
  by (auto simp: message_sid_def sid_def)

theorem twilio_states_are_separate_events:
  assumes "twilioParse sn dates opts raw now = Inr [ev]" "twilioParse sn dates opts raw' now' = Inr [ev']"
    and "to_kind opts = kind_status" "providerEventId ev = providerEventId ev'"
  shows "field (payload ev) ''MessageSid'' = field (payload ev') ''MessageSid'' \<and> field (payload ev) ''MessageStatus'' = field (payload ev') ''MessageStatus''"
proof -
  have shape: "\<exists>m st. message_sid m \<and> field (payload e) ''MessageSid'' = Some (JStr m) \<and> field (payload e) ''MessageStatus'' = Some (JStr st) \<and>
      providerEventId e = Some (to_accountSid opts @ CHR '':'' # m @ CHR '':'' # ''status'' @ CHR '':'' # st)"
    if "twilioParse sn dates opts r n = Inr [e]" for r n e
  proof -
    let ?items = "foldl (\<lambda>m (k, v). AList.update k v m) [] (sn_formFields sn r)"
    from that assms(3) obtain st received where st: "map_of ?items ''MessageStatus'' = Some st" "message_sid (nullish (map_of ?items ''MessageSid'') [])"
      "payload e = JObj (AList.update ''__receivedAt'' (JStr received) (map (\<lambda>(k, v). (k, JStr v)) ?items))"
      "providerEventId e = Some (to_accountSid opts @ CHR '':'' # the (map_of ?items ''MessageSid'') @ CHR '':'' # ''status'' @ CHR '':'' # st)"
      by (auto simp: twilioParse_def Let_def envelope_def split: if_splits option.splits sum.splits)
    from st(2) obtain m where m: "map_of ?items ''MessageSid'' = Some m" "message_sid m"
      by (cases "map_of ?items ''MessageSid''") (auto simp: nullish_def message_sid_def sid_def)
    have "map_of (map (\<lambda>(k, v). (k, JStr v)) xs) k = map_option JStr (map_of xs k)" for xs :: "(string \<times> string) list" and k
      by (induction xs) auto
    with st m show ?thesis by (auto simp: update_conv')
  qed
  from shape [OF assms(1)] obtain m st where e: "message_sid m" "field (payload ev) ''MessageSid'' = Some (JStr m)"
    "field (payload ev) ''MessageStatus'' = Some (JStr st)"
    "providerEventId ev = Some (to_accountSid opts @ CHR '':'' # m @ CHR '':'' # ''status'' @ CHR '':'' # st)" by blast
  from shape [OF assms(2)] obtain m' st' where e': "message_sid m'" "field (payload ev') ''MessageSid'' = Some (JStr m')"
    "field (payload ev') ''MessageStatus'' = Some (JStr st')"
    "providerEventId ev' = Some (to_accountSid opts @ CHR '':'' # m' @ CHR '':'' # ''status'' @ CHR '':'' # st')" by blast
  have "m = m' \<and> st = st'" using e(4) e'(4) assms(4) sid_length [OF e(1)] sid_length [OF e'(1)] by simp
  with e e' show ?thesis by simp
qed

text \<open>The lengths of a signature are compared in characters and then in bytes: one with a character outside ASCII makes the
  comparison throw, and the router answers nothing where it should refuse.\<close>

theorem foreign_character_in_a_signature_throws:
  "any_signature (replicate 43 (CHR ''A'') @ ''='') [''v1,'' @ replicate 43 (CHR ''A'') @ [CHR 0xE9]] = Inl length_error \<and>
   any_signature (replicate 43 (CHR ''A'') @ ''='') [''v1,'' @ replicate 43 (CHR ''A'') @ ''B''] = Inr False"
  by code_simp

lemma thrown_verification:
  assumes "providers rt (req_providerId request) = Some p" "resolveSecret rt (provider_id p) (req_headers request) w = (Inr (Some secret), w1)" "secret \<noteq> []"
    and "verifySignature p (req_rawBody request) (req_headers request) secret w1 = (Inl e, w2)"
  shows "handle hash rt request w = (Inl e, w2)"
  using assms by (simp add: handle_def andThen_def)

text \<open>What a Standard Webhooks signature proves.\<close>

lemma any_signature_true: "any_signature expected parts = Inr True \<Longrightarrow> \<exists>part \<in> set parts. part = ''v1,'' @ expected"
proof (induction parts)
  case (Cons part parts)
  show ?case
  proof (cases "take 3 part = ''v1,'' \<and> utf8_bytes (drop 3 part) = utf8_bytes expected")
    case True
    then have "part = ''v1,'' @ expected" using append_take_drop_id [of 3 part] by (simp add: utf8_inj)
    then show ?thesis by simp
  next
    case False
    with Cons.prems have "any_signature expected parts = Inr True" by (auto split: if_splits)
    with Cons.IH show ?thesis by auto
  qed
qed simp

theorem standard_webhooks_are_signed_and_fresh:
  assumes "verifyStandardWebhook sn raw hs secret pre ms = Inr True"
  shows "\<exists>i t signature key. sole_header hs (pre @ ''-id'') = Some i \<and> sole_header hs (pre @ ''-timestamp'') = Some t \<and>
     sole_header hs (pre @ ''-signature'') = Some signature \<and> fresh (Some t) ms \<and>
     secret = ''whsec_'' @ base64_groups key \<and> 16 \<le> length key \<and>
     ''v1,'' @ base64_groups (sn_hmac sn ''sha256'' key (utf8_bytes (i @ ''.'' @ t @ ''.'' @ raw))) \<in> set (split_on (CHR '' '') signature)"
proof -
  let ?key = "buffer_base64 (drop 6 secret)"
  from assms obtain i t signature where h: "sole_header hs (pre @ ''-id'') = Some i" "sole_header hs (pre @ ''-timestamp'') = Some t"
    "sole_header hs (pre @ ''-signature'') = Some signature"
    by (auto simp: verifyStandardWebhook_def split: option.splits)
  with assms have r: "fresh (Some t) ms" "take 6 secret = ''whsec_''" "16 \<le> length ?key" "base64_groups ?key = drop 6 secret"
    and s: "any_signature (base64_groups (sn_hmac sn ''sha256'' ?key (utf8_bytes (i @ ''.'' @ t @ ''.'' @ raw)))) (split_on (CHR '' '') signature) = Inr True"
    by (auto simp: verifyStandardWebhook_def Let_def not_less split: if_splits)
  have "secret = ''whsec_'' @ base64_groups ?key" using r(2,4) append_take_drop_id [of 6 secret] by simp
  with any_signature_true [OF s] h r(1,3) show ?thesis by blast
qed

end
