(* ===== verification/Manifests.thy ===== *)
theory Manifests
  imports Connectors
begin

text \<open>
  What an app asks for: the validation of an integration manifest and its inference from the tools an app
  uses, \<open>manifest.ts\<close>, with the connector of an action from \<open>actions.ts\<close>, the summary a person consents
  to, \<open>consent.ts\<close>, and the check of a provider-native request, \<open>passthrough.ts\<close>. The first letter of a
  title is raised for the letters a to z only.
\<close>

section \<open>Validation\<close>

definition required_path :: "nat \<Rightarrow> string \<Rightarrow> string" where
  "required_path i k = ''requirements['' @ decimal i @ ''].'' @ k"

text \<open>The issues of the requirements from the \<open>i\<close>-th on, when the identifiers in \<open>ids\<close> have been seen. The mode
  is one of the three by its type.\<close>

fun requirement_issues :: "nat \<Rightarrow> string set \<Rightarrow> IntegrationRequirement list \<Rightarrow> ConnectorManifestValidationIssue list" where
  "requirement_issues i ids [] = []"
| "requirement_issues i ids (r # rs) =
     issue_if (trim (rqm_id r) = []) (required_path i ''id'') ''Requirement id is required.'' @
     issue_if (rqm_id r \<in> ids) (required_path i ''id'') (''Duplicate requirement id '' @ rqm_id r @ ''.'') @
     issue_if (trim (rqm_connectorId r) = []) (required_path i ''connectorId'') ''Connector id is required.'' @
     issue_if (trim (rqm_reason r) = []) (required_path i ''reason'') ''Human-readable reason is required.'' @
     issue_if (rqm_mode r \<noteq> mode_trigger \<and> \<not> non_empty (rqm_requiredActions r)) (required_path i ''requiredActions'')
       ''Non-trigger requirements should list required actions.'' @
     issue_if (rqm_mode r = mode_trigger \<and> \<not> non_empty (rqm_requiredTriggers r)) (required_path i ''requiredTriggers'')
       ''Trigger requirements should list required triggers.'' @
     requirement_issues (Suc i) (insert (rqm_id r) ids) rs"

definition validateIntegrationManifest :: "IntegrationManifest \<Rightarrow> ConnectorManifestValidationIssue list" where
  "validateIntegrationManifest m =
     issue_if (trim (man_id m) = []) ''id'' ''Manifest id is required.'' @ requirement_issues 0 {} (man_requirements m)"

definition assertValidIntegrationManifest :: "IntegrationManifest \<Rightarrow> exn + unit" where
  "assertValidIntegrationManifest m =
     (let issues = validateIntegrationManifest m in
      if issues = [] then Inr ()
      else Inl (Error (''Invalid integration manifest: '' @ joined ''; '' (map (\<lambda>x. iss_path x @ '': '' @ iss_message x) issues))))"

section \<open>Inference\<close>

definition canonicalActionConnectorId :: "string \<Rightarrow> string option" where
  "canonicalActionConnectorId a =
     (let starts = (\<lambda>p. take (length p) a = p) in
      if starts ''google-calendar.'' then Some ''google-calendar''
      else if starts ''gmail.'' then Some ''gmail''
      else if starts ''google-drive.'' then Some ''google-drive''
      else if starts ''github.'' then Some ''github''
      else if starts ''slack.'' then Some ''slack''
      else if a = ''provider.http.request'' then None
      else Some (takeWhile (\<lambda>c. c \<noteq> CHR ''.'') a))"

text \<open>A tool is a text or an action with what is known of it.\<close>

datatype manifest_tool =
  NamedTool string
| DescribedTool string "string option" "IntegrationRequirementMode option" "string option" "string list option"

record InferIntegrationRequirementsOptions =
  io_manifestId :: string
  io_title :: "string option"
  io_tools :: "manifest_tool list"
  io_metadata :: "metadata option"

definition inferMode :: "string \<Rightarrow> IntegrationRequirementMode" where
  "inferMode a =
     (if list_ex (\<lambda>w. ends_with (map to_lower a) w)
        [''create'', ''send'', ''post'', ''update'', ''delete'', ''write'', ''comment'', ''request'']
      then mode_write else mode_read)"

fun tool_action_of :: "manifest_tool \<Rightarrow> string" where
  "tool_action_of (NamedTool a) = a"
| "tool_action_of (DescribedTool a _ _ _ _) = a"

fun tool_connector :: "manifest_tool \<Rightarrow> string option" where
  "tool_connector (NamedTool a) = canonicalActionConnectorId a"
| "tool_connector (DescribedTool a _ _ c _) = (case c of Some x \<Rightarrow> Some x | None \<Rightarrow> canonicalActionConnectorId a)"

fun tool_mode :: "manifest_tool \<Rightarrow> IntegrationRequirementMode" where
  "tool_mode (NamedTool a) = inferMode a"
| "tool_mode (DescribedTool a _ m _ _) = nullish m (inferMode a)"

fun tool_scopes :: "manifest_tool \<Rightarrow> string list option" where
  "tool_scopes (NamedTool a) = None"
| "tool_scopes (DescribedTool a _ _ _ s) = s"

fun mode_name :: "IntegrationRequirementMode \<Rightarrow> string" where
  "mode_name mode_read = ''read''"
| "mode_name mode_write = ''write''"
| "mode_name mode_trigger = ''trigger''"

definition requirementReason :: "string \<Rightarrow> IntegrationRequirementMode \<Rightarrow> string" where
  "requirementReason c m =
     (if c = ''google-calendar'' \<and> m = mode_read then ''Read calendar availability for the generated app.''
      else if c = ''google-calendar'' \<and> m = mode_write then ''Create or update calendar events after user approval.''
      else (if m = mode_read then ''Read from'' else if m = mode_write then ''Write to'' else ''Subscribe to'') @ '' '' @ c @ '' for this app.'')"

fun tool_reason :: "manifest_tool \<Rightarrow> string \<Rightarrow> string" where
  "tool_reason (NamedTool a) c = requirementReason c (inferMode a)"
| "tool_reason (DescribedTool a r m _ _) c = nullish r (requirementReason c (nullish m (inferMode a)))"

definition requirementId :: "string \<Rightarrow> IntegrationRequirementMode \<Rightarrow> string" where
  "requirementId c m = c @ CHR ''-'' # mode_name m"

definition add_tool :: "(string \<times> IntegrationRequirement) list \<Rightarrow> manifest_tool \<Rightarrow> (string \<times> IntegrationRequirement) list" where
  "add_tool acc t =
     (case tool_connector t of
        None \<Rightarrow> acc
      | Some c \<Rightarrow>
          if c = [] then acc
          else let i = requirementId c (tool_mode t) in
            (case map_of acc i of
               Some r \<Rightarrow> AList.update i (r\<lparr>rqm_requiredActions := Some (unique (nullish (rqm_requiredActions r) [] @ [tool_action_of t])),
                   rqm_requiredScopes := Some (unique (nullish (rqm_requiredScopes r) [] @ nullish (tool_scopes t) []))\<rparr>) acc
             | None \<Rightarrow> AList.update i \<lparr>rqm_id = i, rqm_connectorId = c, rqm_reason = tool_reason t c, rqm_mode = tool_mode t,
                   rqm_requiredActions = (if tool_mode t = mode_trigger then None else Some [tool_action_of t]),
                   rqm_requiredTriggers = None, rqm_requiredScopes = tool_scopes t, rqm_optional = None\<rparr> acc))"

definition inferIntegrationManifestFromTools :: "InferIntegrationRequirementsOptions \<Rightarrow> exn + IntegrationManifest" where
  "inferIntegrationManifestFromTools opts =
     (let m = \<lparr>man_id = io_manifestId opts, man_title = io_title opts, man_owner = None,
          man_requirements = map snd (foldl add_tool [] (io_tools opts)), man_metadata = io_metadata opts\<rparr>
      in case assertValidIntegrationManifest m of Inl e \<Rightarrow> Inl e | Inr _ \<Rightarrow> Inr m)"

section \<open>Consent\<close>

record ConsentSummary =
  cn_title :: string
  cn_body :: string
  cn_bullets :: "string list"
  cn_primaryAction :: string
  cn_risk :: IntegrationActionRisk
  cn_connectorIds :: "string list"

definition titleize :: "string \<Rightarrow> string" where
  "titleize v = joined '' '' (map (\<lambda>p. case p of [] \<Rightarrow> [] | c # cs \<Rightarrow>
       (if 97 \<le> code_of c \<and> code_of c \<le> 122 then char_of (code_of c - 32) else c) # cs)
     (filter (\<lambda>p. p \<noteq> []) (pieces (\<lambda>c. c \<in> {CHR ''-'', CHR ''_'', CHR ''.''}) v)))"

definition humanList :: "string list \<Rightarrow> string" where
  "humanList vs =
     (case vs of
        [] \<Rightarrow> ''integrations''
      | [v] \<Rightarrow> v
      | [v, u] \<Rightarrow> v @ '' and '' @ u
      | _ \<Rightarrow> joined '', '' (butlast vs) @ '', and '' @ last vs)"

definition sentenceForRequirement :: "string \<Rightarrow> IntegrationRequirement \<Rightarrow> string" where
  "sentenceForRequirement app r =
     (if rqm_connectorId r = ''google-calendar'' \<and> rqm_mode r = mode_read
      then app @ '' wants to read your Google Calendar to find schedule-aware recommendations.''
      else if rqm_connectorId r = ''google-calendar'' \<and> rqm_mode r = mode_write
      then app @ '' wants to create or update Google Calendar events after your approval.''
      else if rqm_mode r = mode_read then app @ '' wants to read '' @ titleize (rqm_connectorId r) @ '' data.''
      else if rqm_mode r = mode_write then app @ '' wants to write '' @ titleize (rqm_connectorId r) @ '' data after approval.''
      else app @ '' wants to subscribe to '' @ titleize (rqm_connectorId r) @ '' events.'')"

definition connector_of :: "IntegrationConnector list \<Rightarrow> IntegrationRequirement \<Rightarrow> IntegrationConnector option" where
  "connector_of cs r = find (\<lambda>c. con_id c = rqm_connectorId r) cs"

definition action_of :: "IntegrationConnector option \<Rightarrow> string \<Rightarrow> IntegrationConnectorAction option" where
  "action_of c i = (case c of None \<Rightarrow> None | Some x \<Rightarrow> find (\<lambda>a. act_id a = i) (con_actions x))"

definition bulletForRequirement :: "IntegrationConnector list \<Rightarrow> IntegrationRequirement \<Rightarrow> string" where
  "bulletForRequirement cs r =
     (let actions = (if non_empty (rqm_requiredActions r)
          then map (\<lambda>i. case action_of (connector_of cs r) i of None \<Rightarrow> i | Some a \<Rightarrow> act_title a) (the (rqm_requiredActions r))
          else nullish (rqm_requiredTriggers r) []) in
      titleize (rqm_connectorId r) @ '': '' @ rqm_reason r @ (if actions = [] then [] else '' ('' @ joined '', '' actions @ '')''))"

definition requirement_rank :: "IntegrationConnector list \<Rightarrow> nat \<Rightarrow> IntegrationRequirement \<Rightarrow> nat" where
  "requirement_rank cs rank r =
     foldl (\<lambda>n i. case map_option act_risk (action_of (connector_of cs r) i) of
         Some risk_write \<Rightarrow> max n 1 | Some risk_destructive \<Rightarrow> max n 2 | _ \<Rightarrow> n)
       (if rqm_mode r = mode_write then max rank 1 else rank) (nullish (rqm_requiredActions r) [])"

definition aggregateRisk :: "IntegrationRequirement list \<Rightarrow> IntegrationConnector list \<Rightarrow> IntegrationActionRisk" where
  "aggregateRisk rs cs =
     (let rank = foldl (requirement_rank cs) 0 rs in
      if rank = 2 then risk_destructive else if rank = 1 then risk_write else risk_read)"

definition renderConsentSummary :: "IntegrationManifest \<Rightarrow> string option \<Rightarrow> IntegrationConnector list \<Rightarrow> ConsentSummary" where
  "renderConsentSummary m appName cs =
     (let app = nullish appName (nullish (man_title m) (man_id m)); rs = man_requirements m;
          risk = aggregateRisk rs cs; ids = unique (map rqm_connectorId rs) in
      \<lparr>cn_title = app @ '' wants to use '' @ humanList (map titleize ids),
       cn_body = (case rs of [] \<Rightarrow> app @ '' does not request integrations.'' | r # _ \<Rightarrow> sentenceForRequirement app r),
       cn_bullets = map (bulletForRequirement cs) rs,
       cn_primaryAction = (if risk = risk_read then ''Allow access'' else if risk = risk_write then ''Review and allow'' else ''Review destructive access''),
       cn_risk = risk, cn_connectorIds = ids\<rparr>)"

section \<open>Provider-native requests\<close>

datatype http_verb = GET | POST | PUT | PATCH | DELETE

record ProviderHttpRequestInput =
  preq_verb :: http_verb
  preq_path :: string
  preq_headers :: "string list"
  preq_body :: "json option"

record ProviderPassthroughPolicy =
  pp_enabled :: bool
  pp_allowedMethods :: "http_verb list option"
  pp_allowedPathPrefixes :: "string list option"
  pp_maxBodyBytes :: "nat option"

datatype passthrough_error = PassthroughDisabled | InputInvalid | ActionDenied

definition private_header :: "string \<Rightarrow> bool" where
  "private_header h \<longleftrightarrow> list_ex (contains (map to_lower h))
     [''authorization'', ''cookie'', ''token'', ''secret'', ''apikey'', ''api_key'', ''api-key'']"

definition validateProviderPassthroughRequest :: "ProviderHttpRequestInput \<Rightarrow> ProviderPassthroughPolicy \<Rightarrow> passthrough_error + unit" where
  "validateProviderPassthroughRequest inp pol =
     (if \<not> pp_enabled pol then Inl PassthroughDisabled
      else if take 1 (preq_path inp) \<noteq> ''/'' then Inl InputInvalid
      else if non_empty (pp_allowedMethods pol) \<and> preq_verb inp \<notin> set (the (pp_allowedMethods pol)) then Inl ActionDenied
      else if non_empty (pp_allowedPathPrefixes pol) \<and>
        \<not> list_ex (\<lambda>p. take (length p) (preq_path inp) = p) (the (pp_allowedPathPrefixes pol)) then Inl ActionDenied
      else if length (utf8_bytes (stringify (nullish (preq_body inp) JNull))) > nullish (pp_maxBodyBytes pol) (64 * 1024) then Inl InputInvalid
      else if list_ex private_header (preq_headers inp) then Inl InputInvalid
      else Inr ())"


section \<open>What a valid manifest has\<close>

definition sound_requirement :: "IntegrationRequirement \<Rightarrow> bool" where
  "sound_requirement r \<longleftrightarrow> trim (rqm_id r) \<noteq> [] \<and> trim (rqm_connectorId r) \<noteq> [] \<and> trim (rqm_reason r) \<noteq> [] \<and>
     (if rqm_mode r = mode_trigger then non_empty (rqm_requiredTriggers r) else non_empty (rqm_requiredActions r))"

lemma requirement_issues_Nil:
  "requirement_issues i ids rs = [] \<longleftrightarrow>
     list_all sound_requirement rs \<and> distinct (map rqm_id rs) \<and> set (map rqm_id rs) \<inter> ids = {}"
proof (induction rs arbitrary: i ids)
  case (Cons r rs)
  show ?case by (auto simp: Cons.IH sound_requirement_def)
qed simp

text \<open>\<open>validateIntegrationManifest\<close> reports nothing exactly for a manifest with an identifier whose
  requirements have pairwise different identifiers and are each sound: a nonblank identifier, connector and
  reason, and the triggers (mode \<open>trigger\<close>) or the actions (other modes) it is about.
\<close>

theorem valid_manifests_are_complete:
  "validateIntegrationManifest m = [] \<longleftrightarrow>
     trim (man_id m) \<noteq> [] \<and> distinct (map rqm_id (man_requirements m)) \<and> list_all sound_requirement (man_requirements m)"
  by (auto simp: validateIntegrationManifest_def requirement_issues_Nil)

section \<open>What inference collects\<close>

lemma mode_name_no_dash: "CHR ''-'' \<notin> set (mode_name m)"
  by (cases m) auto

lemma requirementId_eq: "requirementId c m = requirementId d n \<longleftrightarrow> c = d \<and> m = n"
proof
  assume "requirementId c m = requirementId d n"
  hence e: "rev (mode_name m) @ CHR ''-'' # rev c = rev (mode_name n) @ CHR ''-'' # rev d"
    unfolding requirementId_def by (metis append.assoc append_Cons append_Nil rev.simps(2) rev_append)
  let ?T = "takeWhile (\<lambda>x. x \<noteq> CHR ''-'')"
  have "?T (rev (mode_name m) @ CHR ''-'' # rev c) = rev (mode_name m)"
       "?T (rev (mode_name n) @ CHR ''-'' # rev d) = rev (mode_name n)"
    using mode_name_no_dash[of m] mode_name_no_dash[of n] by (subst takeWhile_append2; auto)+
  hence "mode_name m = mode_name n" using e by (metis rev_rev_ident)
  thus "c = d \<and> m = n" using e by (cases m; cases n) auto
qed simp

text \<open>A requirement answers a tool when it names the tool's connector and mode, and, unless it is about triggers,
  its action and scopes.\<close>

definition answers :: "IntegrationRequirement \<Rightarrow> manifest_tool \<Rightarrow> bool" where
  "answers r t \<longleftrightarrow> tool_connector t = Some (rqm_connectorId r) \<and> rqm_mode r = tool_mode t \<and>
     (rqm_mode r = mode_trigger \<or> tool_action_of t \<in> set (nullish (rqm_requiredActions r) [])) \<and>
     set (nullish (tool_scopes t) []) \<subseteq> set (nullish (rqm_requiredScopes r) [])"

definition collected :: "(string \<times> IntegrationRequirement) list \<Rightarrow> bool" where
  "collected acc \<longleftrightarrow> distinct (map fst acc) \<and> (\<forall>(i, r) \<in> set acc. i = requirementId (rqm_connectorId r) (rqm_mode r) \<and>
     rqm_requiredTriggers r = None)"

definition needs :: "manifest_tool \<Rightarrow> bool" where
  "needs t \<longleftrightarrow> tool_connector t \<noteq> None \<and> tool_connector t \<noteq> Some []"

lemma map_of_update: "map_of (AList.update k v al) = (map_of al)(k \<mapsto> v)"
  by (rule AList.update_conv')

lemma collected_map_of:
  "collected acc \<longleftrightarrow> distinct (map fst acc) \<and> (\<forall>i r. map_of acc i = Some r \<longrightarrow>
     i = requirementId (rqm_connectorId r) (rqm_mode r) \<and> rqm_requiredTriggers r = None)"
  by (auto simp: collected_def)

lemma collected_add: "collected acc \<Longrightarrow> collected (add_tool acc t)"
  unfolding collected_map_of
  by (auto simp: add_tool_def map_of_update distinct_update Let_def simp del: map_of_eq_Some_iff split: option.splits if_splits)

lemma answers_added:
  assumes "collected acc" "needs t"
  shows "\<exists>r. map_of (add_tool acc t) (requirementId (the (tool_connector t)) (tool_mode t)) = Some r \<and> answers r t"
proof -
  obtain c where c: "tool_connector t = Some c" "c \<noteq> []" using assms(2) by (auto simp: needs_def)
  show ?thesis
  proof (cases "map_of acc (requirementId c (tool_mode t))")
    case None
    thus ?thesis using c by (auto simp: add_tool_def map_of_update answers_def Let_def simp del: map_of_eq_Some_iff)
  next
    case (Some r)
    hence "requirementId c (tool_mode t) = requirementId (rqm_connectorId r) (rqm_mode r)"
      using assms(1) unfolding collected_map_of by blast
    hence "rqm_connectorId r = c" "rqm_mode r = tool_mode t" by (auto simp: requirementId_eq)
    thus ?thesis using Some c by (auto simp: add_tool_def map_of_update answers_def Let_def simp del: map_of_eq_Some_iff)
  qed
qed

lemma answers_kept:
  assumes "map_of acc i = Some r" "answers r t"
  shows "\<exists>r'. map_of (add_tool acc u) i = Some r' \<and> answers r' t"
proof (cases "needs u \<and> i = requirementId (the (tool_connector u)) (tool_mode u)")
  case True
  then obtain c where "tool_connector u = Some c" "c \<noteq> []" "i = requirementId c (tool_mode u)" by (auto simp: needs_def)
  with assms show ?thesis by (auto simp: add_tool_def map_of_update answers_def Let_def simp del: map_of_eq_Some_iff)
next
  case False
  have "map_of (add_tool acc u) i = map_of acc i"
  proof (cases "tool_connector u")
    case (Some c)
    show ?thesis
    proof (cases "c = []")
      case False
      with Some \<open>\<not> (needs u \<and> i = _)\<close> have "i \<noteq> requirementId c (tool_mode u)" by (auto simp: needs_def)
      thus ?thesis using Some False
        by (cases "map_of acc (requirementId c (tool_mode u))")
           (simp_all add: add_tool_def Let_def map_of_update)
    qed (simp add: add_tool_def Some)
  qed (simp add: add_tool_def)
  with assms show ?thesis by simp
qed

lemma answers_all:
  assumes "collected acc" "\<forall>t \<in> T. \<exists>i r. map_of acc i = Some r \<and> answers r t"
  shows "collected (foldl add_tool acc ts) \<and>
    (\<forall>t \<in> T \<union> {t \<in> set ts. needs t}. \<exists>i r. map_of (foldl add_tool acc ts) i = Some r \<and> answers r t)"
  using assms
proof (induction ts arbitrary: acc T)
  case (Cons u ts)
  let ?T = "T \<union> (if needs u then {u} else {})"
  have "\<forall>t \<in> ?T. \<exists>i r. map_of (add_tool acc u) i = Some r \<and> answers r t"
    using Cons.prems answers_added[of acc u] answers_kept[of acc _ _ _ u] by (auto split: if_splits) blast+
  from Cons.IH[OF collected_add[OF Cons.prems(1)] this] show ?case by auto
qed simp


text \<open>When \<open>inferIntegrationManifestFromTools\<close> returns a manifest it is valid, and every tool whose connector is
  known has a requirement for its connector and mode that lists the tool's action and all its scopes.
\<close>

theorem inferred_manifest_requires_every_tool:
  assumes "inferIntegrationManifestFromTools opts = Inr m"
    and "t \<in> set (io_tools opts)"
    and "tool_connector t = Some c" "c \<noteq> []"
  shows "validateIntegrationManifest m = [] \<and>
    (\<exists>r \<in> set (man_requirements m). rqm_connectorId r = c \<and> rqm_mode r = tool_mode t \<and>
      tool_action_of t \<in> set (nullish (rqm_requiredActions r) []) \<and>
      set (nullish (tool_scopes t) []) \<subseteq> set (nullish (rqm_requiredScopes r) []))"
proof -
  let ?acc = "foldl add_tool [] (io_tools opts)"
  have v: "validateIntegrationManifest m = []" "man_requirements m = map snd ?acc"
    using assms(1) by (auto simp: inferIntegrationManifestFromTools_def assertValidIntegrationManifest_def Let_def
      split: sum.splits if_splits)
  have c: "collected ?acc" and a: "\<exists>i r. map_of ?acc i = Some r \<and> answers r t"
    using answers_all[of "[]" "{}" "io_tools opts"] assms(2-4) by (auto simp: collected_def needs_def)
  then obtain i r where r: "map_of ?acc i = Some r" "answers r t" by auto
  hence "rqm_requiredTriggers r = None" using c by (auto simp: collected_map_of)
  moreover have "r \<in> set (man_requirements m)" using map_of_SomeD[OF r(1)] v(2) by force
  moreover have "list_all sound_requirement (man_requirements m)"
    using v(1) by (simp add: validateIntegrationManifest_def requirement_issues_Nil)
  ultimately have "rqm_mode r \<noteq> mode_trigger"
    by (auto simp: list_all_iff sound_requirement_def non_empty_def split: if_splits)
  thus ?thesis using v(1) r(2) \<open>r \<in> set (man_requirements m)\<close> assms(3) by (auto simp: answers_def)
qed

definition two_tools :: InferIntegrationRequirementsOptions where
  "two_tools = \<lparr>io_manifestId = ''app'', io_title = None,
     io_tools = [NamedTool ''slack.messages.post'', DescribedTool ''slack.files.delete'' None None None (Some [''files''])],
     io_metadata = None\<rparr>"

lemma inferred_manifest_requires_every_tool_witness:
  "\<exists>m. inferIntegrationManifestFromTools two_tools = Inr m \<and> length (man_requirements m) = 1 \<and>
   (\<exists>r. r \<in> set (man_requirements m) \<and> rqm_connectorId r = ''slack'' \<and>
     ''slack.files.delete'' \<in> set (nullish (rqm_requiredActions r) []))"
proof -
  let ?m = "\<lparr>man_id = ''app'', man_title = None, man_owner = None, man_requirements =
    [\<lparr>rqm_id = ''slack-write'', rqm_connectorId = ''slack'', rqm_reason = ''Write to slack for this app.'', rqm_mode = mode_write,
      rqm_requiredActions = Some [''slack.messages.post'', ''slack.files.delete''], rqm_requiredTriggers = None,
      rqm_requiredScopes = Some [''files''], rqm_optional = None\<rparr>], man_metadata = None\<rparr>"
  have e: "inferIntegrationManifestFromTools two_tools = Inr ?m"
    by code_simp
  have "tool_connector (DescribedTool ''slack.files.delete'' None None None (Some [''files''])) = Some ''slack''"
    by code_simp
  hence "\<exists>r \<in> set (man_requirements ?m). rqm_connectorId r = ''slack'' \<and>
      ''slack.files.delete'' \<in> set (nullish (rqm_requiredActions r) [])"
    using inferred_manifest_requires_every_tool[OF e, of "DescribedTool ''slack.files.delete'' None None None (Some [''files''])" "''slack''"]
    by (auto simp: two_tools_def)
  thus ?thesis using e by (intro exI[of _ ?m]) auto
qed

text \<open>A tool that subscribes to a trigger makes the inference fail: the requirement it collects names no trigger.\<close>

theorem trigger_tools_cannot_be_inferred:
  "inferIntegrationManifestFromTools \<lparr>io_manifestId = ''app'', io_title = None,
      io_tools = [DescribedTool ''gmail.message.received'' None (Some mode_trigger) None None], io_metadata = None\<rparr> =
    Inl (Error (''Invalid integration manifest: requirements[0].requiredTriggers: Trigger requirements should list required triggers.''))"
  by code_simp

section \<open>What the consent covers\<close>

fun risk_rank :: "IntegrationActionRisk \<Rightarrow> nat" where
  "risk_rank risk_read = 0"
| "risk_rank risk_write = 1"
| "risk_rank risk_destructive = 2"

lemma requirement_rank_alt:
  "requirement_rank cs n r = foldl (\<lambda>k i. max k (case action_of (connector_of cs r) i of None \<Rightarrow> 0 | Some a \<Rightarrow> risk_rank (act_risk a)))
     (max n (if rqm_mode r = mode_write then 1 else 0)) (nullish (rqm_requiredActions r) [])"
  unfolding requirement_rank_def
  by (intro arg_cong3[where f = foldl] ext) (auto split: option.splits IntegrationActionRisk.splits)

lemma foldl_max_ge: "(n::nat) \<le> foldl (\<lambda>k i. max k (f i)) n xs \<and> (\<forall>i \<in> set xs. f i \<le> foldl (\<lambda>k i. max k (f i)) n xs)"
proof (induction xs arbitrary: n)
  case (Cons x xs)
  show ?case using Cons.IH[of "max n (f x)"] by auto
qed simp

lemma foldl_max_le: "(n::nat) \<le> b \<Longrightarrow> \<forall>i \<in> set xs. f i \<le> b \<Longrightarrow> foldl (\<lambda>k i. max k (f i)) n xs \<le> b"
  by (induction xs arbitrary: n) auto

lemma risk_rank_le: "risk_rank k \<le> 2"
  by (cases k) auto

lemma requirement_rank_bounds:
  "n \<le> requirement_rank cs n r" "n \<le> 2 \<Longrightarrow> requirement_rank cs n r \<le> 2"
  "rqm_mode r = mode_write \<Longrightarrow> 1 \<le> requirement_rank cs n r"
  "action_of (connector_of cs r) i = Some a \<Longrightarrow> i \<in> set (nullish (rqm_requiredActions r) []) \<Longrightarrow>
    risk_rank (act_risk a) \<le> requirement_rank cs n r"
  unfolding requirement_rank_alt
  using foldl_max_ge[of "max n (if rqm_mode r = mode_write then 1 else 0)"
      "\<lambda>i. case action_of (connector_of cs r) i of None \<Rightarrow> 0 | Some a \<Rightarrow> risk_rank (act_risk a)" "nullish (rqm_requiredActions r) []"]
  by (fastforce intro!: foldl_max_le split: option.splits simp: risk_rank_le)+

lemma ranks_bounds:
  "n \<le> foldl (requirement_rank cs) n rs \<and> (n \<le> 2 \<longrightarrow> foldl (requirement_rank cs) n rs \<le> 2) \<and>
   (\<forall>r \<in> set rs. \<forall>k. (\<forall>j. k \<le> requirement_rank cs j r) \<longrightarrow> k \<le> foldl (requirement_rank cs) n rs)"
proof (induction rs arbitrary: n)
  case (Cons r rs)
  show ?case using Cons.IH[of "requirement_rank cs n r"] requirement_rank_bounds(1,2)[of n cs r]
    by (auto intro: order_trans)
qed simp

lemma aggregate_rank: "risk_rank (aggregateRisk rs cs) = foldl (requirement_rank cs) 0 rs"
  using ranks_bounds[of 0 cs rs] by (auto simp: aggregateRisk_def Let_def)


lemma find_distinct_map:
  "distinct (map f xs) \<Longrightarrow> a \<in> set xs \<Longrightarrow> find (\<lambda>x. f x = f a) xs = Some a"
  by (induction xs) (auto simp: image_iff)

text \<open>The risk a person consents to covers what the runtime grants: for a requirement whose connector is looked up
  by its own identifier, no action among its \<open>requiredActions\<close> (the actions the grant will name) is riskier than the
  risk \<open>renderConsentSummary\<close> shows for the whole manifest.
\<close>

theorem consent_covers_the_grant:
  assumes "r \<in> set (man_requirements m)" "find (\<lambda>c. con_id c = rqm_connectorId r) cs = Some c"
    and "distinct (map act_id (con_actions c))"
    and "a \<in> set (con_actions c)" "act_id a \<in> set (requiredActions r c)"
  shows "risk_rank (act_risk a) \<le> risk_rank (cn_risk (renderConsentSummary m app cs))"
proof -
  have a: "action_of (connector_of cs r) (act_id a) = Some a"
    using assms(2-4) find_distinct_map[of act_id "con_actions c" a] by (simp add: action_of_def connector_of_def)
  have "risk_rank (act_risk a) \<le> requirement_rank cs j r" for j
  proof (cases "non_empty (rqm_requiredActions r)")
    case True
    hence "act_id a \<in> set (nullish (rqm_requiredActions r) [])"
      using True assms(5) by (cases "rqm_requiredActions r") (auto simp: requiredActions_def non_empty_def split: if_splits)
    thus ?thesis by (rule requirement_rank_bounds(4)[OF a])
  next
    case False
    then obtain b where b: "b \<in> set (con_actions c)" "act_id b = act_id a"
      "act_risk b = risk_read \<or> act_risk b = risk_write \<and> rqm_mode r = mode_write"
      using assms(5) by (auto simp: requiredActions_def split: if_splits)
    hence "b = a" using assms(3,4) by (metis distinct_map inj_onD)
    thus ?thesis using b(3) requirement_rank_bounds(3)[of r cs j] by auto
  qed
  thus ?thesis using ranks_bounds[of 0 cs "man_requirements m"] assms(1)
    by (simp add: renderConsentSummary_def Let_def aggregate_rank)
qed

definition mx_connector :: "string \<Rightarrow> IntegrationConnector" where
  "mx_connector i = \<lparr>con_id = i, con_providerId = ''p1'', con_title = ''Jira'', con_category = cat_other, con_auth = auth_api_key,
     con_scopes = [''send''], con_actions = [gx_action, gx_action\<lparr>act_id := ''remove'', act_risk := risk_destructive\<rparr>],
     con_triggers = None, con_metadata = None\<rparr>"

definition mx_requirement :: "string \<Rightarrow> IntegrationRequirement" where
  "mx_requirement i = \<lparr>rqm_id = ''r1'', rqm_connectorId = i, rqm_reason = ''Tidy up.'', rqm_mode = mode_read,
     rqm_requiredActions = Some [''remove''], rqm_requiredTriggers = None, rqm_requiredScopes = None, rqm_optional = None\<rparr>"

definition mx_manifest :: "string \<Rightarrow> IntegrationManifest" where
  "mx_manifest i = \<lparr>man_id = ''app'', man_title = None, man_owner = None, man_requirements = [mx_requirement i], man_metadata = None\<rparr>"

lemmas mx_defs = mx_connector_def mx_requirement_def mx_manifest_def gx_action_def

lemma consent_covers_the_grant_witness:
  "requiredActions (mx_requirement ''jira-cloud'') (mx_connector ''jira-cloud'') = [''remove''] \<and>
   2 \<le> risk_rank (cn_risk (renderConsentSummary (mx_manifest ''jira-cloud'') None [mx_connector ''jira-cloud'']))"
proof -
  have a: "requiredActions (mx_requirement ''jira-cloud'') (mx_connector ''jira-cloud'') = [''remove'']"
    by (simp add: requiredActions_def mx_defs non_empty_def)
  show ?thesis
    using consent_covers_the_grant[of "mx_requirement ''jira-cloud''" "mx_manifest ''jira-cloud''" "[mx_connector ''jira-cloud'']"
        "mx_connector ''jira-cloud''" "gx_action\<lparr>act_id := ''remove'', act_risk := risk_destructive\<rparr>" None] a
    by (simp add: mx_defs)
qed

text \<open>A requirement may name its connector by an alias, which the registry of the runtime resolves: the grant then
  names the destructive action, but the summary finds no connector of that name and shows the risk of reading.\<close>

theorem an_alias_hides_the_risk:
  "canonicalConnectorId INTEGRATION_KIND_ALIASES ''jira'' = ''jira-cloud'' \<and>
   requiredActions (mx_requirement ''jira'') (mx_connector ''jira-cloud'') = [''remove''] \<and>
   cn_risk (renderConsentSummary (mx_manifest ''jira'') None [mx_connector ''jira-cloud'']) = risk_read"
proof (intro conjI)
  show "canonicalConnectorId INTEGRATION_KIND_ALIASES ''jira'' = ''jira-cloud''" by code_simp
  show "requiredActions (mx_requirement ''jira'') (mx_connector ''jira-cloud'') = [''remove'']"
    by (simp add: requiredActions_def mx_defs non_empty_def)
  show "cn_risk (renderConsentSummary (mx_manifest ''jira'') None [mx_connector ''jira-cloud'']) = risk_read"
    by (simp add: renderConsentSummary_def aggregateRisk_def requirement_rank_def connector_of_def action_of_def mx_defs Let_def)
qed

section \<open>What a provider-native request may be\<close>

text \<open>A list that is absent or empty restricts nothing; otherwise one of its entries must fit.\<close>

definition permits :: "'a list option \<Rightarrow> ('a \<Rightarrow> bool) \<Rightarrow> bool" where
  "permits l P \<longleftrightarrow> nullish l [] = [] \<or> list_ex P (nullish l [])"

text \<open>A request \<open>validateProviderPassthroughRequest\<close> lets pass is exactly one its policy enables: the path is absolute
  and under an allowed prefix when prefixes are listed, the verb is listed when verbs are, the body fits the limit
  (64 KiB when none is set) and no header could carry credentials.
\<close>

theorem passthrough_requests_obey_the_policy:
  "validateProviderPassthroughRequest inp pol = Inr () \<longleftrightarrow>
     pp_enabled pol \<and> (\<exists>p. preq_path inp = CHR ''/'' # p) \<and>
     permits (pp_allowedMethods pol) (\<lambda>v. v = preq_verb inp) \<and>
     permits (pp_allowedPathPrefixes pol) (\<lambda>p. \<exists>s. preq_path inp = p @ s) \<and>
     length (utf8_bytes (stringify (nullish (preq_body inp) JNull))) \<le> nullish (pp_maxBodyBytes pol) 65536 \<and>
     filter private_header (preq_headers inp) = []"
proof -
  have p: "take 1 xs = ''/'' \<longleftrightarrow> (\<exists>p. xs = CHR ''/'' # p)" for xs by (cases xs) auto
  have q: "take (length p) xs = p \<longleftrightarrow> (\<exists>s. xs = p @ s)" for p xs :: string
    by (metis append_eq_conv_conj append_take_drop_id)
  show ?thesis
    unfolding validateProviderPassthroughRequest_def p q
    by (cases "pp_allowedMethods pol"; cases "pp_allowedPathPrefixes pol")
       (auto simp: permits_def non_empty_def list_ex_iff filter_empty_conv)
qed

text \<open>The prefix is one of texts: a path that steps back out of it passes.\<close>

theorem a_path_may_leave_its_prefix:
  "validateProviderPassthroughRequest \<lparr>preq_verb = GET, preq_path = ''/v1/../admin'', preq_headers = [], preq_body = None\<rparr>
     \<lparr>pp_enabled = True, pp_allowedMethods = None, pp_allowedPathPrefixes = Some [''/v1/''], pp_maxBodyBytes = None\<rparr> = Inr ()"
  by (simp add: validateProviderPassthroughRequest_def non_empty_def Let_def)

end
