(* ===== verification/Providers.thy ===== *)
theory Providers
  imports Manifests
begin

text \<open>
  The providers that stand behind the hub: \<open>catalog-executor.ts\<close>, which runs the actions of a fixed list of
  connectors, and \<open>adapter-provider.ts\<close>, which presents connector adapters as connectors and runs their
  capabilities. Of the latter the connectors and \<open>invokeAction\<close> are here; the OAuth flow and the connection test
  are not. An adapter works in the world of the host together with one cell, the promise \<open>rotationPersistence\<close>
  of the call: it holds the first failure of the host to store rotated credentials.
\<close>

section \<open>The catalog executor\<close>

record CatalogExecutorInvocation =
  xv_connection :: IntegrationConnection
  xv_request :: IntegrationActionRequest
  xv_connector :: IntegrationConnector
  xv_action :: IntegrationConnectorAction

record 'w CatalogExecutorProviderOptions =
  xo_id :: string
  xo_kind :: IntegrationProviderKind
  xo_connectors :: "IntegrationConnector list"
  xo_startAuth :: "(StartAuthRequest \<Rightarrow> ('w, exn, StartAuthResult) io) option"
  xo_completeAuth :: "(CompleteAuthRequest \<Rightarrow> ('w, exn, IntegrationConnection) io) option"
  xo_executeAction :: "CatalogExecutorInvocation \<Rightarrow> ('w, exn, IntegrationActionResult) io"
  xo_subscribeTrigger :: "(IntegrationConnection \<Rightarrow> IntegrationConnectorTrigger \<Rightarrow> string option \<Rightarrow>
      ('w, exn, IntegrationTriggerSubscription) io) option"
  xo_unsubscribeTrigger :: "(string \<Rightarrow> ('w, exn, unit) io) option"
  xo_normalizeTriggerEvent :: "(json \<Rightarrow> ('w, exn, IntegrationTriggerEvent) io) option"

text \<open>\<open>new Map(xs.map(x => [key(x), x]))\<close>: the last entry of a key wins, in the place of the first.\<close>

definition keyed :: "('a \<Rightarrow> string) \<Rightarrow> 'a list \<Rightarrow> (string \<times> 'a) list" where
  "keyed key xs = foldl (\<lambda>m x. AList.update (key x) x m) [] xs"

definition catalogInvoke :: "'w CatalogExecutorProviderOptions \<Rightarrow> IntegrationConnection \<Rightarrow> IntegrationActionRequest \<Rightarrow>
    ('w, exn, IntegrationActionResult) io" where
  "catalogInvoke opts c req =
     (case map_of (keyed con_id (xo_connectors opts)) (conn_connectorId c) of
        None \<Rightarrow> throw (IntegrationError (''Connector '' @ conn_connectorId c @ '' not found.'') connector_not_found)
      | Some con \<Rightarrow> (case find (\<lambda>a. act_id a = rq_action req) (con_actions con) of
            None \<Rightarrow> throw (IntegrationError (''Action '' @ rq_action req @ '' is not defined by connector '' @ con_id con @ ''.'') action_not_found)
          | Some a \<Rightarrow> xo_executeAction opts \<lparr>xv_connection = c, xv_request = req, xv_connector = con, xv_action = a\<rparr>))"

definition catalogSubscribe :: "'w CatalogExecutorProviderOptions \<Rightarrow> IntegrationConnection \<Rightarrow> string \<Rightarrow> string option \<Rightarrow>
    ('w, exn, IntegrationTriggerSubscription) io" where
  "catalogSubscribe opts c trigger targetUrl =
     (case xo_subscribeTrigger opts of
        None \<Rightarrow> throw (IntegrationError (''Provider '' @ xo_id opts @ '' does not support trigger subscriptions.'') trigger_not_found)
      | Some subscribe \<Rightarrow> (case map_of (keyed con_id (xo_connectors opts)) (conn_connectorId c) of
            None \<Rightarrow> throw (IntegrationError (''Connector '' @ conn_connectorId c @ '' not found.'') connector_not_found)
          | Some con \<Rightarrow> (case find (\<lambda>t. trg_id t = trigger) (nullish (con_triggers con) []) of
                None \<Rightarrow> throw (IntegrationError (''Trigger '' @ trigger @ '' is not defined by connector '' @ con_id con @ ''.'') trigger_not_found)
              | Some t \<Rightarrow> subscribe c t targetUrl)))"

definition createCatalogExecutorProvider :: "'w CatalogExecutorProviderOptions \<Rightarrow> 'w IntegrationProvider" where
  "createCatalogExecutorProvider opts =
     \<lparr>prov_id = xo_id opts, prov_kind = xo_kind opts, prov_listConnectors = ret (xo_connectors opts),
      prov_testConnection = None, prov_connectApiKey = None, prov_startAuth = xo_startAuth opts, prov_completeAuth = xo_completeAuth opts,
      prov_invokeAction = catalogInvoke opts, prov_subscribeTrigger = Some (catalogSubscribe opts),
      prov_unsubscribeTrigger = xo_unsubscribeTrigger opts, prov_normalizeTriggerEvent = xo_normalizeTriggerEvent opts\<rparr>"

section \<open>Adapters as connectors\<close>

text \<open>A category or consistency model the types do not list can only come from untyped code; it is read as
  \<open>other\<close> and as no model.\<close>

definition mapCategory :: "string \<Rightarrow> IntegrationConnectorCategory" where
  "mapCategory c =
     (if c = ''comms'' then cat_chat
      else if c = ''spreadsheet'' then cat_database
      else if c = ''doc'' then cat_docs
      else if c = ''commerce'' then cat_workflow
      else if c = ''sales-intelligence'' then cat_crm
      else if c = ''market-intelligence'' \<or> c = ''hr'' then cat_other
      else if c = ''calendar'' then cat_calendar
      else if c = ''crm'' then cat_crm
      else if c = ''webhook'' then cat_webhook
      else if c = ''storage'' then cat_storage
      else if c = ''database'' then cat_database
      else cat_other)"

definition consistency_of :: "string \<Rightarrow> consistency_model option" where
  "consistency_of m = map_of [(''authoritative'', cm_authoritative), (''cache'', cm_cache), (''advisory'', cm_advisory)] m"

definition inferDataClass :: "string \<Rightarrow> IntegrationDataClass" where
  "inferDataClass c = (if c = ''commerce'' then dc_sensitive else if c = ''webhook'' then dc_internal else dc_private)"

text \<open>The same reading of a name as a title as in \<open>consent.ts\<close>.\<close>

definition titleFromName :: "string \<Rightarrow> string" where
  "titleFromName = titleize"

fun mapAuth :: "SingleAuthSpec \<Rightarrow> connector_auth" where
  "mapAuth (OAuth2Auth _) = auth_oauth2"
| "mapAuth (ApiKeyAuth _) = auth_api_key"
| "mapAuth NoAuth = auth_none"
| "mapAuth HmacAuth = auth_custom"

text \<open>\<open>one_of\<close> without options has no first option; the code then reads \<open>kind\<close> of \<open>undefined\<close> and throws.\<close>

fun primaryManifestAuth :: "AuthSpec \<Rightarrow> SingleAuthSpec option" where
  "primaryManifestAuth (SingleAuth a) = Some a"
| "primaryManifestAuth (OneOfAuth preferred options) =
     (case find (\<lambda>a. auth_kind a = preferred) options of Some a \<Rightarrow> Some a | None \<Rightarrow> (case options of [] \<Rightarrow> None | a # _ \<Rightarrow> Some a))"

fun oauth_of :: "SingleAuthSpec \<Rightarrow> OAuth2AuthSpec option" where
  "oauth_of (OAuth2Auth a) = Some a"
| "oauth_of _ = None"

fun oauthManifestAuth :: "AuthSpec \<Rightarrow> OAuth2AuthSpec option" where
  "oauthManifestAuth (SingleAuth a) = oauth_of a"
| "oauthManifestAuth (OneOfAuth preferred options) =
     (case find (\<lambda>a. oauth_of a \<noteq> None) options of Some a \<Rightarrow> oauth_of a | None \<Rightarrow> None)"

definition resolveOAuthPkceMode :: "string option \<Rightarrow> string \<Rightarrow> exn + string" where
  "resolveOAuthPkceMode v cid =
     (if v = None \<or> v = Some ''required'' then Inr ''required''
      else if v = Some ''supported'' \<or> v = Some ''unsupported'' then Inr (the v)
      else Inl (IntegrationError (''Connector '' @ cid @ '' has an invalid OAuth PKCE posture.'') config_missing))"

text \<open>The names matched by \<open>/\{([A-Za-z][A-Za-z0-9_]*)\}/g\<close>, in order.\<close>

definition parameter_char :: "char \<Rightarrow> bool" where
  "parameter_char c \<longleftrightarrow> is_alnum c \<or> c = CHR ''_''"

function placeholder_names :: "string \<Rightarrow> string list" where
  "placeholder_names [] = []"
| "placeholder_names (c # cs) =
     (let name = takeWhile parameter_char cs; rest = dropWhile parameter_char cs in
      if c = CHR ''{'' \<and> name \<noteq> [] \<and> is_letter (hd name) \<and> take 1 rest = ''}'' then name # placeholder_names (tl rest)
      else placeholder_names cs)"
  by pat_completeness auto
termination
proof (relation "measure length")
  fix c :: char and cs x xa
  assume "xa = dropWhile parameter_char cs"
  then have "length xa \<le> length cs" by (simp add: length_dropWhile_le)
  then show "(tl xa, c # cs) \<in> measure length" by simp
qed auto

fun spec_kind :: "OAuth2UrlTemplateMetadataSpec \<Rightarrow> string" where
  "spec_kind (DnsLabelSpec _ _) = ''dns-label''"
| "spec_kind (BaseUrlSpec _ _ _) = ''base-url''"
| "spec_kind PathSegmentSpec = ''path-segment''"
| "spec_kind (UnsupportedSpec k) = k"

fun spec_fields :: "OAuth2UrlTemplateMetadataSpec \<Rightarrow> metadata" where
  "spec_fields (DnsLabelSpec l m) = opt_str ''label'' l @
     opt_val ''connectionMetadata'' (map_option (\<lambda>(k, t). JObj [(''key'', JStr k), (''template'', JStr t)]) m)"
| "spec_fields (BaseUrlSpec urls suffixes https) = opt_strs ''allowedBaseUrls'' urls @ opt_strs ''allowedBaseUrlSuffixes'' suffixes @
     opt_val ''requirePublicHttps'' (map_option JBool https)"
| "spec_fields _ = []"

definition oauthConnectionParameters :: "OAuth2AuthSpec \<Rightarrow> json" where
  "oauthConnectionParameters a =
     JArr (map (\<lambda>key. let spec = map_of (nullish (oa_urlTemplateMetadata a) []) key in
         JObj ([(''key'', JStr key), (''required'', JBool True),
           (''kind'', JStr (case spec of None \<Rightarrow> ''dns-label'' | Some s \<Rightarrow> spec_kind s))] @
           (case spec of None \<Rightarrow> [] | Some s \<Rightarrow> spec_fields s)))
       (unique (placeholder_names (nullish (oa_authorizationUrl a) [] @ '' '' @ oa_tokenUrl a))))"

text \<open>Every capability is a read or a mutation by its type, so the filter of the code keeps them all.\<close>

definition capability_risk :: "Capability \<Rightarrow> IntegrationActionRisk" where
  "capability_risk c = (case cb_class c of ReadCapability \<Rightarrow> risk_read
     | MutationCapability _ external \<Rightarrow> if external then risk_destructive else risk_write)"

definition capabilityAction :: "string \<Rightarrow> Capability \<Rightarrow> IntegrationConnectorAction" where
  "capabilityAction category c =
     \<lparr>act_id = cb_name c, act_title = titleFromName (cb_name c), act_risk = capability_risk c,
      act_requiredScopes = nullish (cb_requiredScopes c) [], act_dataClass = inferDataClass category,
      act_consistencyModel = (case cb_consistencyModel c of None \<Rightarrow> None | Some m \<Rightarrow> consistency_of m),
      act_description = Some (cb_description c), act_approvalRequired = Some (cb_class c \<noteq> ReadCapability),
      act_inputPreview = cb_inputPreview c, act_inputSchema = Some (JObj (cb_parameters c)), act_outputSchema = None\<rparr>"

fun auth_options :: "AuthSpec \<Rightarrow> string list" where
  "auth_options (SingleAuth a) = [auth_kind a]"
| "auth_options (OneOfAuth _ options) = map auth_kind options"

fun preferred_auth :: "AuthSpec \<Rightarrow> string" where
  "preferred_auth (SingleAuth a) = auth_kind a"
| "preferred_auth (OneOfAuth preferred _) = preferred"

definition manifestToConnector :: "string \<Rightarrow> 'w ConnectorAdapter \<Rightarrow> exn + IntegrationConnector" where
  "manifestToConnector providerId ad =
     (let m = ad_manifest ad; oauth = oauthManifestAuth (mf_auth m) in
      case primaryManifestAuth (mf_auth m) of
        None \<Rightarrow> Inl (Error ''Cannot read properties of undefined'')
      | Some primary \<Rightarrow>
          (case (case oauth of None \<Rightarrow> Inr None | Some a \<Rightarrow> map_sum id Some (resolveOAuthPkceMode (oa_pkce a) (mf_kind m))) of
             Inl e \<Rightarrow> Inl e
           | Inr pkce \<Rightarrow> Inr
               \<lparr>con_id = mf_kind m, con_providerId = providerId, con_title = mf_displayName m, con_category = mapCategory (mf_category m),
                con_auth = mapAuth primary, con_scopes = (case oauth_of primary of None \<Rightarrow> [] | Some a \<Rightarrow> oa_scopes a),
                con_actions = map (capabilityAction (mf_category m)) (mf_capabilities m), con_triggers = None,
                con_metadata = Some ([(''source'', JStr ''first-party-adapter''), (''supportTier'', JStr ''firstPartyExecutable''),
                  (''executable'', JBool (ad_catalogOnly ad \<noteq> Some True))] @ opt_str ''oauthPkce'' pkce @
                  [(''authOptions'', strings_json (auth_options (mf_auth m))), (''preferredAuth'', JStr (preferred_auth (mf_auth m))),
                   (''oauthConnectionParameters'', case oauth of None \<Rightarrow> JArr [] | Some a \<Rightarrow> oauthConnectionParameters a)])\<rparr>))"

fun connectors_of :: "string \<Rightarrow> 'w ConnectorAdapter list \<Rightarrow> exn + IntegrationConnector list" where
  "connectors_of p [] = Inr []"
| "connectors_of p (ad # ads) =
     (case manifestToConnector p ad of Inl e \<Rightarrow> Inl e
      | Inr c \<Rightarrow> (case connectors_of p ads of Inl e \<Rightarrow> Inl e | Inr cs \<Rightarrow> Inr (c # cs)))"

definition createConnectorAdapterCatalogSource :: "string option \<Rightarrow> string option \<Rightarrow> 'w ConnectorAdapter list \<Rightarrow> int option \<Rightarrow>
    exn + IntegrationCatalogSource" where
  "createConnectorAdapterCatalogSource i p ads precedence =
     (let sourceId = nullish i ''first-party'' in
      map_sum id (\<lambda>cs. \<lparr>src_id = sourceId, src_connectors = cs, src_precedence = precedence\<rparr>) (connectors_of (nullish p sourceId) ads))"

section \<open>Running capabilities\<close>

type_synonym 'w rotating = "'w \<times> exn option"

record 'w ConnectorAdapterProviderOptions =
  xp_id :: "string option"
  xp_kind :: "IntegrationProviderKind option"
  xp_adapters :: "'w rotating ConnectorAdapter list"
  xp_resolveDataSource :: "IntegrationConnection \<Rightarrow> ('w, exn, ResolvedDataSource) io"
  xp_onCredentialsRotated :: "(IntegrationConnection \<Rightarrow> ConnectorCredentials \<Rightarrow> ('w, exn, unit) io) option"
  xp_now :: "('w, exn, int) io"

definition adapters_by_kind :: "'w ConnectorAdapterProviderOptions \<Rightarrow> (string \<times> 'w rotating ConnectorAdapter) list" where
  "adapters_by_kind opts = keyed (\<lambda>ad. mf_kind (ad_manifest ad)) (filter (\<lambda>ad. ad_inboundOnly ad \<noteq> Some True) (xp_adapters opts))"

definition requireAdapter :: "'w ConnectorAdapterProviderOptions \<Rightarrow> string \<Rightarrow> exn + 'w rotating ConnectorAdapter" where
  "requireAdapter opts i =
     (case map_of (adapters_by_kind opts) i of
        None \<Rightarrow> Inl (IntegrationError (''Connector adapter '' @ i @ '' not found.'') connector_not_found)
      | Some ad \<Rightarrow> if ad_catalogOnly ad = Some True
          then Inl (IntegrationError (''Connector '' @ i @ '' is not configured.'') config_missing) else Inr ad)"

text \<open>The host's work beside the cell, and the callback an adapter is given: once storing has failed, the promise
  stays rejected and nothing more is stored.\<close>

definition hosted :: "('w, 'e, 'a) io \<Rightarrow> ('w rotating, 'e, 'a) io" where
  "hosted m = (\<lambda>(w, cell). case m w of (r, w') \<Rightarrow> (r, (w', cell)))"

definition persistRotation :: "(ConnectorCredentials \<Rightarrow> ('w, exn, unit) io) \<Rightarrow> ConnectorCredentials \<Rightarrow> ('w rotating, exn, unit) io" where
  "persistRotation put cr = (\<lambda>(w, cell). case cell of
       Some e \<Rightarrow> (Inl e, (w, Some e))
     | None \<Rightarrow> (case put cr w of (Inl e, w') \<Rightarrow> (Inl e, (w', Some e)) | (Inr _, w') \<Rightarrow> (Inr (), (w', None))))"

text \<open>The block \<open>try ... finally { await rotationPersistence }\<close>: a failure to store takes the place of the outcome.\<close>

definition awaiting_rotation :: "('w rotating, exn, 'a) io \<Rightarrow> ('w, exn, 'a) io" where
  "awaiting_rotation m w = (case m (w, None) of
       (r, (w', None)) \<Rightarrow> (r, w')
     | (r, (w', Some e)) \<Rightarrow> (Inl e, w'))"

definition readResultToAction :: "IntegrationActionRequest \<Rightarrow> CapabilityReadResult \<Rightarrow> IntegrationActionResult" where
  "readResultToAction req r =
     \<lparr>ar_ok = True, ar_action = rq_action req, ar_output = Some (rr_data r), ar_externalId = None, ar_warnings = None,
      ar_metadata = Some (opt_str ''etag'' (rr_etag r) @ [(''fetchedAt'', JNum (Finite (rr_fetchedAt r)))])\<rparr>"

fun mutationResultToAction :: "IntegrationActionRequest \<Rightarrow> CapabilityMutationResult \<Rightarrow> IntegrationActionResult" where
  "mutationResultToAction req (Committed d etag at replay) =
     \<lparr>ar_ok = True, ar_action = rq_action req, ar_output = Some d, ar_externalId = None, ar_warnings = None,
      ar_metadata = Some (opt_str ''etagAfter'' etag @ [(''committedAt'', JNum (Finite at)), (''idempotentReplay'', JBool replay)])\<rparr>"
| "mutationResultToAction req (Conflict alternatives current m) =
     \<lparr>ar_ok = False, ar_action = rq_action req, ar_output = Some (JObj ([(''conflict'', JBool True), (''message'', JStr m),
        (''alternatives'', JArr alternatives)] @ opt_val ''currentState'' current)), ar_externalId = None, ar_warnings = None, ar_metadata = None\<rparr>"
| "mutationResultToAction req (RateLimited retry m) =
     \<lparr>ar_ok = False, ar_action = rq_action req, ar_output = Some (JObj [(''rateLimited'', JBool True),
        (''retryAfterMs'', JNum (Finite retry)), (''message'', JStr m)]), ar_externalId = None, ar_warnings = None, ar_metadata = None\<rparr>"

fun toRecord :: "json option \<Rightarrow> metadata" where
  "toRecord (Some (JObj m)) = m"
| "toRecord _ = []"

definition runCapability :: "'w ConnectorAdapter \<Rightarrow> IntegrationConnection \<Rightarrow> IntegrationActionRequest \<Rightarrow> Capability \<Rightarrow> 'w ConnectorInvocation \<Rightarrow>
    ('w, exn, IntegrationActionResult) io" where
  "runCapability ad c req cap call =
     (case cb_class cap of
        ReadCapability \<Rightarrow> (case ad_executeRead ad of
            None \<Rightarrow> throw (IntegrationError (''Connector '' @ conn_connectorId c @ '' does not implement reads.'') action_not_found)
          | Some run \<Rightarrow> andThen (run call) (\<lambda>r. ret (readResultToAction req r)))
      | MutationCapability _ _ \<Rightarrow> (case ad_executeMutation ad of
            None \<Rightarrow> throw (IntegrationError (''Connector '' @ conn_connectorId c @ '' does not implement mutations.'') action_not_found)
          | Some run \<Rightarrow> andThen (run call) (\<lambda>r. ret (mutationResultToAction req r))))"

definition adapterInvoke :: "'w ConnectorAdapterProviderOptions \<Rightarrow> IntegrationConnection \<Rightarrow> IntegrationActionRequest \<Rightarrow>
    ('w, exn, IntegrationActionResult) io" where
  "adapterInvoke opts c req =
     andThen (liftE (requireAdapter opts (conn_connectorId c))) (\<lambda>ad.
     case find (\<lambda>cap. cb_name cap = rq_action req) (mf_capabilities (ad_manifest ad)) of
       None \<Rightarrow> throw (IntegrationError (''Capability '' @ rq_action req @ '' is not defined by '' @ conn_connectorId c @ ''.'') action_not_found)
     | Some cap \<Rightarrow>
         andThen (xp_resolveDataSource opts c) (\<lambda>source.
         andThen (case rq_idempotencyKey req of Some k \<Rightarrow> ret k
             | None \<Rightarrow> andThen (xp_now opts) (\<lambda>n. ret (''idem_'' @ conn_id c @ ''_'' @ rq_action req @ ''_'' @ int_text n))) (\<lambda>key.
         awaiting_rotation (runCapability ad c req cap
           \<lparr>inv_source = source, inv_capabilityName = rq_action req, inv_args = toRecord (rq_input req), inv_idempotencyKey = key,
            inv_expectedEtag = as_string (meta_field (rq_metadata req) ''expectedEtag''),
            inv_callSessionId = as_string (meta_field (rq_metadata req) ''callSessionId''),
            inv_onCredentialsRotated = map_option (\<lambda>put. persistRotation (put c)) (xp_onCredentialsRotated opts)\<rparr>))))"

text \<open>The provider, with the parts that are not modelled as arguments.\<close>

definition createConnectorAdapterProvider :: "'w ConnectorAdapterProviderOptions \<Rightarrow> 'w IntegrationProvider \<Rightarrow> 'w IntegrationProvider" where
  "createConnectorAdapterProvider opts others =
     others\<lparr>prov_id := nullish (xp_id opts) ''first-party'', prov_kind := nullish (xp_kind opts) kind_first_party,
      prov_listConnectors := liftE (connectors_of (nullish (xp_id opts) ''first-party'') (map snd (adapters_by_kind opts))),
      prov_invokeAction := adapterInvoke opts,
      prov_subscribeTrigger := None, prov_unsubscribeTrigger := None, prov_normalizeTriggerEvent := None\<rparr>"

section \<open>Lists of connectors\<close>

lemma map_of_keyed:
  "map_of (keyed key xs) = (\<lambda>i. find (\<lambda>x. key x = i) (rev xs))"
proof -
  have "map_of (foldl (\<lambda>m x. AList.update (key x) x m) acc xs) i =
      (case find (\<lambda>x. key x = i) (rev xs) of None \<Rightarrow> map_of acc i | Some x \<Rightarrow> Some x)" for acc i
    by (induction xs rule: rev_induct) (auto simp: update_conv')
  then show ?thesis by (simp add: keyed_def fun_eq_iff split: option.split)
qed

lemma distinct_keyed: "distinct (map fst (keyed key xs))"
proof -
  have "distinct (map fst (foldl (\<lambda>m x. AList.update (key x) x m) acc xs))" if "distinct (map fst acc)" for acc
    using that by (induction xs arbitrary: acc) (auto simp: distinct_update)
  then show ?thesis by (simp add: keyed_def)
qed

lemma keyed_key: "(i, x) \<in> set (keyed key xs) \<Longrightarrow> key x = i"
  by (metis (mono_tags, lifting) distinct_keyed find_Some_iff map_of_eq_Some_iff map_of_keyed)

lemma connector_fields:
  assumes "manifestToConnector p ad = Inr con"
  shows "con_id con = mf_kind (ad_manifest ad)"
    "con_actions con = map (capabilityAction (mf_category (ad_manifest ad))) (mf_capabilities (ad_manifest ad))"
  using assms by (auto simp: manifestToConnector_def Let_def split: option.splits sum.splits)

text \<open>The connector listed under a kind is that of the adapter that runs it.\<close>

lemma listed_connector:
  assumes "connectors_of p ads = Inr cs" "find (\<lambda>con. con_id con = i) cs = Some con"
  shows "\<exists>ad \<in> set ads. manifestToConnector p ad = Inr con \<and> mf_kind (ad_manifest ad) = i"
  using assms
proof (induction ads arbitrary: cs)
  case (Cons ad ads)
  then obtain c rest where c: "manifestToConnector p ad = Inr c" "connectors_of p ads = Inr rest" "cs = c # rest"
    by (auto split: sum.splits)
  show ?case
  proof (cases "con_id c = i")
    case True
    with Cons.prems(2) c have "con = c" by simp
    with True c connector_fields(1) [OF c(1)] show ?thesis by auto
  next
    case False
    with Cons.prems(2) c have "find (\<lambda>con. con_id con = i) rest = Some con" by simp
    with Cons.IH [OF c(2)] show ?thesis by auto
  qed
qed simp

lemma listed_adapter:
  assumes "connectors_of p (map snd (adapters_by_kind opts)) = Inr cs" "find (\<lambda>con. con_id con = i) cs = Some con"
  obtains ad where "map_of (adapters_by_kind opts) i = Some ad" "manifestToConnector p ad = Inr con"
proof -
  from listed_connector [OF assms] obtain j ad where "(j, ad) \<in> set (adapters_by_kind opts)" "manifestToConnector p ad = Inr con"
    "mf_kind (ad_manifest ad) = i" by auto
  moreover from this(1) have "mf_kind (ad_manifest ad) = j" unfolding adapters_by_kind_def by (rule keyed_key)
  ultimately have "map_of (adapters_by_kind opts) i = Some ad"
    unfolding adapters_by_kind_def by (simp add: map_of_eq_Some_iff [OF distinct_keyed])
  with that \<open>manifestToConnector p ad = Inr con\<close> show thesis by blast
qed


section \<open>What an action may do\<close>

text \<open>The same provider with other mutations behind its adapters, and a hub with that provider.\<close>

definition with_mutations :: "('w rotating ConnectorAdapter \<Rightarrow> ('w rotating ConnectorInvocation \<Rightarrow> ('w rotating, exn, CapabilityMutationResult) io) option) \<Rightarrow>
    'w ConnectorAdapterProviderOptions \<Rightarrow> 'w ConnectorAdapterProviderOptions" where
  "with_mutations f opts = opts\<lparr>xp_adapters := map (\<lambda>ad. ad\<lparr>ad_executeMutation := f ad\<rparr>) (xp_adapters opts)\<rparr>"

definition mutated_hub :: "string \<Rightarrow> ('w rotating ConnectorAdapter \<Rightarrow> ('w rotating ConnectorInvocation \<Rightarrow> ('w rotating, exn, CapabilityMutationResult) io) option) \<Rightarrow>
    'w ConnectorAdapterProviderOptions \<Rightarrow> 'w IntegrationHub \<Rightarrow> 'w IntegrationHub" where
  "mutated_hub i f opts hub = with_actions (\<lambda>j. if j = i then adapterInvoke (with_mutations f opts)
     else prov_invokeAction (the (map_of (hub_providers hub) j))) hub"

lemma adapters_with_mutations:
  "map_of (adapters_by_kind (with_mutations f opts)) i = map_option (\<lambda>ad. ad\<lparr>ad_executeMutation := f ad\<rparr>) (map_of (adapters_by_kind opts) i)"
proof -
  let ?g = "\<lambda>ad. ad\<lparr>ad_executeMutation := f ad\<rparr>"
  have "find (\<lambda>ad. mf_kind (ad_manifest ad) = i) (map ?g ads) = map_option ?g (find (\<lambda>ad. mf_kind (ad_manifest ad) = i) ads)" for ads
    by (induction ads) auto
  moreover have "filter (\<lambda>ad. ad_inboundOnly ad \<noteq> Some True) (map ?g ads) = map ?g (filter (\<lambda>ad. ad_inboundOnly ad \<noteq> Some True) ads)" for ads
    by (induction ads) auto
  ultimately show ?thesis
    by (simp add: adapters_by_kind_def map_of_keyed with_mutations_def rev_map del: rev_filter)
qed

lemma liftE_bind: "andThen (liftE (Inl e)) k = throw e" "andThen (liftE (Inr x)) k = k x"
  by (simp_all add: fun_eq_iff io_defs)

text \<open>Only a capability that is a mutation reaches a mutation.\<close>

lemma reads_stay_reads:
  assumes "\<And>ad cap. map_of (adapters_by_kind opts) (conn_connectorId c) = Some ad \<Longrightarrow>
      find (\<lambda>cap. cb_name cap = rq_action req) (mf_capabilities (ad_manifest ad)) = Some cap \<Longrightarrow> cb_class cap = ReadCapability"
  shows "adapterInvoke (with_mutations f opts) c req = adapterInvoke opts c req"
proof (cases "map_of (adapters_by_kind opts) (conn_connectorId c)")
  case None
  then show ?thesis
    by (simp add: adapterInvoke_def requireAdapter_def adapters_with_mutations fun_eq_iff io_defs)
next
  case (Some ad)
  let ?ad = "ad\<lparr>ad_executeMutation := f ad\<rparr>"
  have "runCapability ?ad c req cap = runCapability ad c req cap"
    if "find (\<lambda>cap. cb_name cap = rq_action req) (mf_capabilities (ad_manifest ad)) = Some cap" for cap
    using assms [OF Some that] by (intro ext) (simp add: runCapability_def)
  moreover have "xp_resolveDataSource (with_mutations f opts) = xp_resolveDataSource opts" "xp_now (with_mutations f opts) = xp_now opts"
    "xp_onCredentialsRotated (with_mutations f opts) = xp_onCredentialsRotated opts"
    by (simp_all add: with_mutations_def)
  ultimately show ?thesis
    by (cases "find (\<lambda>cap. cb_name cap = rq_action req) (mf_capabilities (ad_manifest ad))"; cases "ad_catalogOnly ad = Some True";
        cases "rq_idempotencyKey req")
      (simp_all add: adapterInvoke_def requireAdapter_def adapters_with_mutations Some liftE_bind)
qed

lemma provider_parts [simp]:
  "prov_listConnectors (createConnectorAdapterProvider opts others) =
     liftE (connectors_of (nullish (xp_id opts) ''first-party'') (map snd (adapters_by_kind opts)))"
  "prov_invokeAction (createConnectorAdapterProvider opts others) = adapterInvoke opts"
  by (simp_all add: createConnectorAdapterProvider_def)

lemma find_mapped: "find P (map g xs) = map_option g (find (\<lambda>x. P (g x)) xs)"
  by (induction xs) auto

text \<open>An action that is listed as reading runs a capability that reads.\<close>

lemma listed_risk:
  assumes "requireConnector (createConnectorAdapterProvider opts others) (conn_connectorId c) w = (Inr con, w')"
    and "find (\<lambda>a. act_id a = rq_action req) (con_actions con) = Some a"
    and "map_of (adapters_by_kind opts) (conn_connectorId c) = Some ad"
    and "find (\<lambda>cap. cb_name cap = rq_action req) (mf_capabilities (ad_manifest ad)) = Some cap"
  shows "a = capabilityAction (mf_category (ad_manifest ad)) cap"
proof -
  obtain cs where cs: "connectors_of (nullish (xp_id opts) ''first-party'') (map snd (adapters_by_kind opts)) = Inr cs"
    "find (\<lambda>con. con_id con = conn_connectorId c) cs = Some con"
    using assms(1) by (auto simp: requireConnector_def io_defs split: sum.splits option.splits)
  from listed_adapter [OF this] assms(3) have "manifestToConnector (nullish (xp_id opts) ''first-party'') ad = Inr con" by auto
  from connector_fields(2) [OF this] have "find (\<lambda>a. act_id a = rq_action req) (con_actions con) =
      map_option (capabilityAction (mf_category (ad_manifest ad))) (find (\<lambda>cap. cb_name cap = rq_action req) (mf_capabilities (ad_manifest ad)))"
    by (simp add: find_mapped capabilityAction_def)
  with assms(2,4) show ?thesis by simp
qed


lemma found_action:
  assumes "authorizeAction pf hub tok req w = (Inr (cap, c, p, a), w')"
  shows "map_of (hub_providers hub) (conn_providerId c) = Some p"
    and "\<exists>con w1 w2. requireConnector p (conn_connectorId c) w1 = (Inr con, w2) \<and> find (\<lambda>a. act_id a = rq_action req) (con_actions con) = Some a"
  using assms
  by (auto simp: authorizeAction_def requireProvider_def andThen_def ret_def throw_def split: sum.splits prod.splits if_splits option.splits)

lemma same_run:
  assumes "authorizeAction pf hub tok req w = (Inr (cap, c, p, a), w')"
    and "prov_invokeAction p c (req\<lparr>rq_connectionId := conn_id c\<rparr>) = g (conn_providerId c) c (req\<lparr>rq_connectionId := conn_id c\<rparr>)"
  shows "invokeWithCapability pf (with_actions g hub) tok req w = invokeWithCapability pf hub tok req w"
proof -
  have "proceedAction (with_actions g hub) cap c (p\<lparr>prov_invokeAction := g (conn_providerId c)\<rparr>) a (req\<lparr>rq_connectionId := conn_id c\<rparr>) =
      proceedAction hub cap c p a (req\<lparr>rq_connectionId := conn_id c\<rparr>)"
    unfolding proceedAction_def by (simp add: assms(2) cong: option.case_cong)
  then show ?thesis
    by (cases "hub_guard hub") (simp_all add: invokeWithCapability_def authorize_with_actions andThen_def assms(1) ret_def Let_def)
qed

text \<open>C35. A reader stays a reader through the whole stack: exchange the mutations of the adapters behind a provider of
  the hub, and an invocation can only end differently when the hub authorised an action of that provider which its
  connector lists as a write or as destructive and as needing approval, so the guard and the policy saw it as such.
\<close>

theorem listed_reads_never_mutate:
  assumes "map_of (hub_providers hub) i = Some (createConnectorAdapterProvider opts others)"
    and "invokeWithCapability pf hub tok req w \<noteq> invokeWithCapability pf (mutated_hub i f opts hub) tok req w"
  shows "\<exists>cap c p a w'. authorizeAction pf hub tok req w = (Inr (cap, c, p, a), w') \<and> conn_providerId c = i \<and>
     act_risk a \<in> {risk_write, risk_destructive} \<and> act_approvalRequired a = Some True"
proof -
  from run_authorized [OF assms(2) [unfolded mutated_hub_def]] obtain cap c p a w' where
    run: "authorizeAction pf hub tok req w = (Inr (cap, c, p, a), w')" by blast
  note f = found_action [OF run]
  let ?full = "req\<lparr>rq_connectionId := conn_id c\<rparr>"
  let ?g = "\<lambda>j. if j = i then adapterInvoke (with_mutations f opts) else prov_invokeAction (the (map_of (hub_providers hub) j))"
  have "prov_invokeAction p c ?full \<noteq> ?g (conn_providerId c) c ?full"
    using same_run [OF run, of ?g] assms(2) unfolding mutated_hub_def by metis
  then have i: "conn_providerId c = i" "p = createConnectorAdapterProvider opts others" "adapterInvoke opts c ?full \<noteq> adapterInvoke (with_mutations f opts) c ?full"
    using f(1) assms(1) by (auto split: if_splits)
  from reads_stay_reads [of opts c ?full f] i(3) obtain ad k where k: "map_of (adapters_by_kind opts) (conn_connectorId c) = Some ad"
    "find (\<lambda>cap. cb_name cap = rq_action req) (mf_capabilities (ad_manifest ad)) = Some k" "cb_class k \<noteq> ReadCapability"
    by auto
  from f(2) listed_risk [OF _ _ k(1,2)] have "a = capabilityAction (mf_category (ad_manifest ad)) k" unfolding i(2) by blast
  with k(3) have "act_risk a \<in> {risk_write, risk_destructive}" "act_approvalRequired a = Some True"
    by (auto simp: capabilityAction_def capability_risk_def split: capability_class.splits)
  with run i(1) show ?thesis by blast
qed


section \<open>An adapter at work\<close>

definition px_adapter :: "InMemoryConnectionStore rotating ConnectorAdapter" where
  "px_adapter = \<lparr>ad_manifest = (cx_manifest [] native_idempotency)\<lparr>mf_auth := SingleAuth NoAuth\<rparr>, ad_validateConnectionMetadata = None,
     ad_inboundOnly = None, ad_catalogOnly = None, ad_executeRead = None,
     ad_executeMutation = Some (\<lambda>_. ret (Committed JNull None 0 False)), ad_verifySignature = None, ad_handleInboundEvent = None,
     ad_exchangeOAuth = None, ad_refreshToken = None, ad_test = (\<lambda>_ _. ret TestOk)\<rparr>"

definition px_source :: ResolvedDataSource where
  "px_source = \<lparr>ds_id = ''d1'', ds_projectId = ''u1'', ds_publishedAgentId = None, ds_kind = ''mail'', ds_label = [],
     ds_consistencyModel = ''authoritative'', ds_scopes = [], ds_metadata = [], ds_credentials = NoCredentials, ds_status = source_active\<rparr>"

definition px_options :: "InMemoryConnectionStore ConnectorAdapterProviderOptions" where
  "px_options = \<lparr>xp_id = Some ''p1'', xp_kind = None, xp_adapters = [px_adapter], xp_resolveDataSource = (\<lambda>_. ret px_source),
     xp_onCredentialsRotated = None, xp_now = date_now\<rparr>"

definition px_hub :: "InMemoryConnectionStore IntegrationHub" where
  "px_hub = hx_hub\<lparr>hub_providers := [(''p1'', createConnectorAdapterProvider px_options hx_provider)]\<rparr>"

lemma px_adapters: "adapters_by_kind px_options = [(''mail'', px_adapter)]"
  by (simp add: adapters_by_kind_def keyed_def px_options_def px_adapter_def cx_manifest_def)

lemma px_id: "xp_id px_options = Some ''p1''"
  by (simp add: px_options_def)

lemma px_connectors: "\<exists>con. connectors_of ''p1'' [px_adapter] = Inr [con] \<and> con_id con = ''mail'' \<and>
    con_actions con = map (capabilityAction ''comms'') [cx_read, cx_send native_idempotency]"
  by (simp add: manifestToConnector_def px_adapter_def cx_manifest_def Let_def)

lemma px_authorized:
  "authorizeAction hx_platform px_hub (signCapability hx_platform hx_capability ''s'') (gx_request ''hi'') hx_world =
     (Inr (hx_capability, gx_connection, createConnectorAdapterProvider px_options hx_provider, capabilityAction ''comms'' (cx_send native_idempotency)),
      hx_world\<lparr>clock_reads := 1\<rparr>)"
proof -
  have v: "verifyCapability hx_platform px_hub (signCapability hx_platform hx_capability ''s'') hx_world =
      (Inr hx_capability, hx_world\<lparr>clock_reads := 1\<rparr>)"
    using hx_token hx_not_expired by (simp add: verifyCapability_def px_hub_def hx_hub_def io_defs hx_times)
  obtain con where con: "connectors_of ''p1'' [px_adapter] = Inr [con]" "con_id con = ''mail''"
    "con_actions con = map (capabilityAction ''comms'') [cx_read, cx_send native_idempotency]" using px_connectors by blast
  have found: "requireConnector (createConnectorAdapterProvider px_options hx_provider) ''mail'' u = (Inr con, u)" for u
    using con(1,2) by (simp add: requireConnector_def px_adapters io_defs px_id del: connectors_of.simps)
  show ?thesis
    by (simp add: authorizeAction_def andThen_def v)
      (simp add: hx_capability_def gx_request_def requireConnection_def found requireProvider_def capabilityAction_def cx_read_def cx_send_def
        assertConnectionActive_def assertScopes_def io_defs hx_hub_def px_hub_def hx_world_def hx_platform_def gx_connection_def
        mem_connections_def con)
qed


lemma px_runs:
  "adapterInvoke px_options gx_connection ((gx_request ''hi'')\<lparr>rq_connectionId := ''c1''\<rparr>) w =
     (Inr (mutationResultToAction (gx_request ''hi'') (Committed JNull None 0 False)), w)"
  by (simp add: adapterInvoke_def requireAdapter_def px_adapters gx_request_def gx_connection_def io_defs)
    (simp add: px_adapter_def cx_manifest_def cx_read_def cx_send_def px_options_def runCapability_def awaiting_rotation_def io_defs)

lemma px_runs_otherwise:
  "fst (adapterInvoke (with_mutations (\<lambda>_. None) px_options) gx_connection ((gx_request ''hi'')\<lparr>rq_connectionId := ''c1''\<rparr>) w) \<noteq> Inr r"
  by (simp add: adapterInvoke_def requireAdapter_def adapters_with_mutations px_adapters gx_request_def gx_connection_def io_defs)
    (simp add: px_adapter_def cx_manifest_def cx_read_def cx_send_def px_options_def runCapability_def awaiting_rotation_def io_defs with_mutations_def)

theorem listed_reads_never_mutate_witness:
  "\<exists>cap c p a w'. authorizeAction hx_platform px_hub (signCapability hx_platform hx_capability ''s'') (gx_request ''hi'') hx_world =
      (Inr (cap, c, p, a), w') \<and> conn_providerId c = ''p1'' \<and> act_risk a \<in> {risk_write, risk_destructive}"
proof -
  let ?tok = "signCapability hx_platform hx_capability ''s''" and ?f = "\<lambda>_. None"
  have p: "map_of (hub_providers px_hub) ''p1'' = Some (createConnectorAdapterProvider px_options hx_provider)" by (simp add: px_hub_def)
  have parts: "hub_guard px_hub = None" "hub_policy px_hub = None" "conn_id gx_connection = ''c1''" "conn_providerId gx_connection = ''p1''"
    by (simp_all add: px_hub_def hx_hub_def gx_connection_def)
  have "fst (invokeWithCapability hx_platform px_hub ?tok (gx_request ''hi'') hx_world) =
      Inr (mutationResultToAction (gx_request ''hi'') (Committed JNull None 0 False))"
    by (simp add: invokeWithCapability_def andThen_def px_authorized parts proceedAction_def px_runs)
  moreover have "fst (invokeWithCapability hx_platform (mutated_hub ''p1'' ?f px_options px_hub) ?tok (gx_request ''hi'') hx_world) \<noteq>
      Inr (mutationResultToAction (gx_request ''hi'') (Committed JNull None 0 False))"
    unfolding invokeWithCapability_def mutated_hub_def authorize_with_actions
    by (simp add: andThen_def px_authorized ret_def parts proceedAction_def px_runs_otherwise)
  ultimately have "invokeWithCapability hx_platform px_hub ?tok (gx_request ''hi'') hx_world \<noteq>
      invokeWithCapability hx_platform (mutated_hub ''p1'' ?f px_options px_hub) ?tok (gx_request ''hi'') hx_world" by metis
  from listed_reads_never_mutate [OF p this] show ?thesis by blast
qed

end
