(* ===== verification/Health.thy ===== *)
theory Health
  imports Providers
begin

text \<open>
  Healthchecks of connections, \<open>healthcheck.ts\<close>: the checks, their summary, the event they leave in the audit
  trail and the store of the latest results. The live test is an effect of the host.
\<close>

section \<open>Checks\<close>

datatype IntegrationHealthcheckStatus = hs_healthy | hs_degraded | hs_unhealthy | hs_unknown

fun health_name :: "IntegrationHealthcheckStatus \<Rightarrow> string" where
  "health_name hs_healthy = ''healthy''"
| "health_name hs_degraded = ''degraded''"
| "health_name hs_unhealthy = ''unhealthy''"
| "health_name hs_unknown = ''unknown''"

record IntegrationHealthcheckCheck =
  hc_id :: string
  hc_status :: IntegrationHealthcheckStatus
  hc_message :: string
  hc_metadata :: "metadata option"

record IntegrationHealthcheckResult =
  hres_connectionId :: string
  hres_providerId :: string
  hres_connectorId :: string
  hres_status :: IntegrationHealthcheckStatus
  hres_checkedAt :: string
  hres_checks :: "IntegrationHealthcheckCheck list"

definition check :: "string \<Rightarrow> IntegrationHealthcheckStatus \<Rightarrow> string \<Rightarrow> IntegrationHealthcheckCheck" where
  "check i s m = \<lparr>hc_id = i, hc_status = s, hc_message = m, hc_metadata = None\<rparr>"

definition connectionStatusCheck :: "date_api \<Rightarrow> IntegrationConnection \<Rightarrow> ('w, exn, int) io \<Rightarrow> ('w, exn, IntegrationHealthcheckCheck) io" where
  "connectionStatusCheck dates c now =
     (if conn_status c \<noteq> cs_active
      then ret (check ''connection-active'' hs_unhealthy (''Connection is '' @ connection_status_name (conn_status c) @ ''.''))
      else if truthy (conn_expiresAt c)
      then andThen now (\<lambda>n. ret (if parsed_by dates (the (conn_expiresAt c)) n
        then check ''connection-active'' hs_unhealthy ''Connection credentials are expired.''
        else check ''connection-active'' hs_healthy ''Connection is active.''))
      else ret (check ''connection-active'' hs_healthy ''Connection is active.''))"

definition connectorExecutableCheck :: "IntegrationConnector \<Rightarrow> IntegrationHealthcheckCheck" where
  "connectorExecutableCheck con =
     (if con_actions con \<noteq> [] \<or> nullish (con_triggers con) [] \<noteq> []
      then check ''connector-executable'' hs_healthy (con_title con @ '' has executable actions or triggers.'')
      else check ''connector-executable'' hs_degraded (con_title con @ '' is catalog-only.''))"

definition scopeShapeCheck :: "IntegrationConnection \<Rightarrow> IntegrationConnector \<Rightarrow> IntegrationHealthcheckCheck" where
  "scopeShapeCheck c con =
     (let undeclared = filter (\<lambda>s. s \<notin> set (con_scopes con)) (conn_grantedScopes c) in
      if con_scopes con = [] \<and> conn_grantedScopes c \<noteq> []
      then (check ''scope-shape'' hs_unknown ''Connector does not declare a scope catalog.'')
        \<lparr>hc_metadata := Some [(''grantedScopes'', strings_json (conn_grantedScopes c))]\<rparr>
      else if undeclared \<noteq> []
      then (check ''scope-shape'' hs_degraded ''Connection has scopes not declared by the connector.'')
        \<lparr>hc_metadata := Some [(''undeclared'', strings_json undeclared)]\<rparr>
      else check ''scope-shape'' hs_healthy ''Granted scopes match the connector shape.'')"

datatype live_result = LiveResult IntegrationActionResult | LiveBoolean bool

fun live_ok :: "live_result \<Rightarrow> bool" where
  "live_ok (LiveResult r) = ar_ok r"
| "live_ok (LiveBoolean b) = b"

fun live_metadata :: "live_result \<Rightarrow> metadata option" where
  "live_metadata (LiveResult r) = Some ([(''action'', JStr (ar_action r))] @ opt_strs ''warnings'' (ar_warnings r))"
| "live_metadata (LiveBoolean _) = None"

fun live_message :: "exn \<Rightarrow> string" where
  "live_message (Thrown _) = ''Provider live test failed.''"
| "live_message e = errMessage e"

definition liveHealthcheck :: "IntegrationConnection \<Rightarrow> IntegrationConnector \<Rightarrow>
    (IntegrationConnection \<Rightarrow> IntegrationConnector \<Rightarrow> ('w, exn, live_result) io) \<Rightarrow> ('w, exn, IntegrationHealthcheckCheck) io" where
  "liveHealthcheck c con probe =
     tryCatch
       (andThen (probe c con) (\<lambda>r. ret
          \<lparr>hc_id = ''provider-live-test'', hc_status = (if live_ok r then hs_healthy else hs_unhealthy),
           hc_message = (if live_ok r then ''Provider live test passed.'' else ''Provider live test failed.''), hc_metadata = live_metadata r\<rparr>))
       (\<lambda>e. ret (check ''provider-live-test'' hs_unhealthy (live_message e)))"

definition rollupHealthStatus :: "IntegrationHealthcheckCheck list \<Rightarrow> IntegrationHealthcheckStatus" where
  "rollupHealthStatus checks =
     (if list_ex (\<lambda>k. hc_status k = hs_unhealthy) checks then hs_unhealthy
      else if list_ex (\<lambda>k. hc_status k = hs_degraded) checks then hs_degraded
      else if list_ex (\<lambda>k. hc_status k = hs_unknown) checks then hs_unknown
      else hs_healthy)"

section \<open>A healthcheck\<close>

record 'w healthcheck_input =
  hi_connector :: "IntegrationConnector option"
  hi_registry :: "IntegrationRegistry option"
  hi_test :: "(IntegrationConnection \<Rightarrow> IntegrationConnector \<Rightarrow> ('w, exn, live_result) io) option"
  hi_audit :: "'w IntegrationAuditSink option"
  hi_now :: "('w, exn, int) io"

definition connector_for :: "'w healthcheck_input \<Rightarrow> IntegrationConnection \<Rightarrow> IntegrationConnector option" where
  "connector_for inp c = nullish_opt (hi_connector inp)
     (case hi_registry inp of None \<Rightarrow> None | Some r \<Rightarrow> map_option ent_connector (reg_byId r (conn_connectorId c)))"

definition connectorChecks :: "'w healthcheck_input \<Rightarrow> IntegrationConnection \<Rightarrow> ('w, exn, IntegrationHealthcheckCheck list) io" where
  "connectorChecks inp c =
     (case connector_for inp c of
        None \<Rightarrow> ret [check ''connector-known'' hs_unknown (''Connector '' @ conn_connectorId c @ '' is not in the registry.'')]
      | Some con \<Rightarrow>
          andThen (case hi_test inp of
              Some probe \<Rightarrow> if conn_status c = cs_active then andThen (liveHealthcheck c con probe) (\<lambda>k. ret [k]) else ret []
            | None \<Rightarrow> ret [])
            (\<lambda>live. ret ([connectorExecutableCheck con, scopeShapeCheck c con] @ live)))"

definition check_json :: "IntegrationHealthcheckCheck \<Rightarrow> json" where
  "check_json k = JObj [(''id'', JStr (hc_id k)), (''status'', JStr (health_name (hc_status k))), (''message'', JStr (hc_message k))]"

definition health_event :: "IntegrationConnection \<Rightarrow> IntegrationHealthcheckResult \<Rightarrow> IntegrationAuditEvent" where
  "health_event c r =
     \<lparr>ae_id = [], ae_type = healthcheck_completed, ae_occurredAt = [], ae_actor = Some (conn_owner c),
      ae_connectionId = Some (conn_id c), ae_providerId = Some (conn_providerId c), ae_connectorId = Some (conn_connectorId c),
      ae_action = None, ae_risk = None, ae_dataClass = None, ae_ok = Some (hres_status r = hs_healthy),
      ae_message = Some (health_name (hres_status r)), ae_metadata = Some [(''checks'', JArr (map check_json (hres_checks r)))]\<rparr>"

definition runIntegrationHealthcheck :: "'w platform \<Rightarrow> 'w healthcheck_input \<Rightarrow> IntegrationConnection \<Rightarrow>
    ('w, exn, IntegrationHealthcheckResult) io" where
  "runIntegrationHealthcheck pf inp c =
     andThen (hi_now inp) (\<lambda>n.
     andThen (liftE (toISO (pf_dates pf) n)) (\<lambda>checkedAt.
     andThen (connectionStatusCheck (pf_dates pf) c (hi_now inp)) (\<lambda>active.
     andThen (connectorChecks inp c) (\<lambda>rest.
     let r = \<lparr>hres_connectionId = conn_id c, hres_providerId = conn_providerId c, hres_connectorId = conn_connectorId c,
              hres_status = rollupHealthStatus (active # rest), hres_checkedAt = checkedAt, hres_checks = active # rest\<rparr>
     in andThen (case hi_audit inp of
            None \<Rightarrow> ret ()
          | Some audit \<Rightarrow> andThen (createIntegrationAuditEvent pf None (AtText checkedAt) (health_event c r)) audit)
          (\<lambda>_. ret r)))))"

section \<open>The store and the run over all connections\<close>

record InMemoryIntegrationHealthcheckStore = InMemoryIntegrationAuditStore +
  health_results :: "(string \<times> IntegrationHealthcheckResult) list"

definition health_put :: "IntegrationHealthcheckResult \<Rightarrow> ('a InMemoryIntegrationHealthcheckStore_scheme, exn, unit) io" where
  [io_defs]: "health_put r w = (Inr (), w\<lparr>health_results := AList.update (hres_connectionId r) r (health_results w)\<rparr>)"

definition health_get :: "string \<Rightarrow> ('a InMemoryIntegrationHealthcheckStore_scheme, exn, IntegrationHealthcheckResult option) io" where
  [io_defs]: "health_get i w = (Inr (map_of (health_results w) i), w)"

definition health_list :: "('a InMemoryIntegrationHealthcheckStore_scheme, exn, IntegrationHealthcheckResult list) io" where
  [io_defs]: "health_list w = (Inr (map snd (health_results w)), w)"

fun runIntegrationHealthchecks :: "'w platform \<Rightarrow> 'w healthcheck_input \<Rightarrow> (IntegrationHealthcheckResult \<Rightarrow> ('w, exn, unit) io) option \<Rightarrow>
    IntegrationConnection list \<Rightarrow> ('w, exn, IntegrationHealthcheckResult list) io" where
  "runIntegrationHealthchecks pf inp put [] = ret []"
| "runIntegrationHealthchecks pf inp put (c # cs) =
     andThen (runIntegrationHealthcheck pf (inp\<lparr>hi_connector := None\<rparr>) c) (\<lambda>r.
     andThen (case put of None \<Rightarrow> ret () | Some store \<Rightarrow> store r) (\<lambda>_.
     andThen (runIntegrationHealthchecks pf inp put cs) (\<lambda>rs. ret (r # rs))))"

section \<open>What a healthy result says\<close>

lemma rollup_healthy: "rollupHealthStatus ks = hs_healthy \<longleftrightarrow> list_all (\<lambda>k. hc_status k = hs_healthy) ks"
proof (induction ks)
  case (Cons k ks)
  show ?case using Cons.IH by (cases "hc_status k") (auto simp: rollupHealthStatus_def split: if_splits)
qed (simp add: rollupHealthStatus_def)

lemma check_simps [simp]: "hc_status (check i s m) = s"
  by (simp add: check_def)


lemma active_check:
  assumes "connectionStatusCheck dates c now w = (Inr k, w')" "hc_status k = hs_healthy"
  shows "conn_status c = cs_active \<and> (truthy (conn_expiresAt c) \<longrightarrow>
    (\<exists>n. now w = (Inr n, w') \<and> \<not> parsed_by dates (the (conn_expiresAt c)) n))"
  using assms by (auto simp: connectionStatusCheck_def io_defs split: if_splits sum.splits prod.splits)

lemma live_check:
  assumes "liveHealthcheck c con probe w = (Inr k, w')" "hc_status k = hs_healthy"
  shows "\<exists>r. probe c con w = (Inr r, w') \<and> live_ok r"
  using assms by (auto simp: liveHealthcheck_def io_defs split: if_splits sum.splits prod.splits)

lemma scope_check: "hc_status (scopeShapeCheck c con) = hs_healthy \<longleftrightarrow> set (conn_grantedScopes c) \<subseteq> set (con_scopes con)"
  by (auto simp: scopeShapeCheck_def Let_def filter_empty_conv)

lemma executable_check: "hc_status (connectorExecutableCheck con) = hs_healthy \<longleftrightarrow> con_actions con \<noteq> [] \<or> nullish (con_triggers con) [] \<noteq> []"
  by (simp add: connectorExecutableCheck_def)

lemma checked_connector:
  assumes "connectorChecks inp c w = (Inr ks, w')" "list_all (\<lambda>k. hc_status k = hs_healthy) ks" "conn_status c = cs_active"
  shows "\<exists>con. connector_for inp c = Some con \<and> (con_actions con \<noteq> [] \<or> nullish (con_triggers con) [] \<noteq> []) \<and>
    set (conn_grantedScopes c) \<subseteq> set (con_scopes con) \<and>
    (\<forall>probe. hi_test inp = Some probe \<longrightarrow> (\<exists>r. probe c con w = (Inr r, w') \<and> live_ok r))"
proof (cases "connector_for inp c")
  case None
  with assms show ?thesis by (auto simp: connectorChecks_def io_defs)
next
  case (Some con)
  show ?thesis
  proof (cases "hi_test inp")
    case None
    with assms Some show ?thesis by (auto simp: connectorChecks_def io_defs scope_check executable_check)
  next
    case probe: (Some probe)
    with assms Some obtain k where k: "liveHealthcheck c con probe w = (Inr k, w')" "ks = [connectorExecutableCheck con, scopeShapeCheck c con, k]"
      by (auto simp: connectorChecks_def io_defs split: sum.splits prod.splits)
    with assms(2) live_check [OF k(1)] show ?thesis using Some probe by (simp add: scope_check executable_check)
  qed
qed

text \<open>A healthy result can be relied on: the connection was active and not expired when the clock was read, its
  connector is known and offers something, every granted scope is one it declares, and a live test, if the host
  has one, was passed; the result names this connection.\<close>

theorem healthy_connections_are_usable:
  assumes "runIntegrationHealthcheck pf inp c w = (Inr r, w')" "hres_status r = hs_healthy"
  shows "hres_connectionId r = conn_id c \<and> conn_status c = cs_active \<and>
    (truthy (conn_expiresAt c) \<longrightarrow> (\<exists>n w1 w2. hi_now inp w1 = (Inr n, w2) \<and> \<not> parsed_by (pf_dates pf) (the (conn_expiresAt c)) n)) \<and>
    (\<exists>con. connector_for inp c = Some con \<and> (con_actions con \<noteq> [] \<or> nullish (con_triggers con) [] \<noteq> []) \<and>
      set (conn_grantedScopes c) \<subseteq> set (con_scopes con) \<and>
      (\<forall>probe. hi_test inp = Some probe \<longrightarrow> (\<exists>r w1 w2. probe c con w1 = (Inr r, w2) \<and> live_ok r)))"
proof -
  from assms(1) obtain k ks w1 w2 w3 where k: "connectionStatusCheck (pf_dates pf) c (hi_now inp) w1 = (Inr k, w2)"
    "connectorChecks inp c w2 = (Inr ks, w3)" "hres_status r = rollupHealthStatus (k # ks)" "hres_connectionId r = conn_id c"
    unfolding runIntegrationHealthcheck_def andThen_def [of "hi_now inp"] andThen_def [of "liftE _"] andThen_def [of "connectionStatusCheck _ _ _"]
      andThen_def [of "connectorChecks _ _"] Let_def
    by (auto simp: runs liftE_def split: sum.splits prod.splits)
  from k(3) assms(2) have h: "hc_status k = hs_healthy" "list_all (\<lambda>k. hc_status k = hs_healthy) ks"
    using rollup_healthy [of "k # ks"] by simp_all
  note active = active_check [OF k(1) h(1)]
  with checked_connector [OF k(2) h(2)] k(4) show ?thesis by blast
qed

text \<open>The check of what a connector offers counts its actions only: the connector of an adapter that is listed
  for its catalog and refuses every action passes it as executable.\<close>

theorem catalog_only_adapter_passes_as_executable:
  assumes "manifestToConnector p ad = Inr con" "mf_capabilities (ad_manifest ad) \<noteq> []"
    and "map_of (adapters_by_kind opts) (conn_connectorId c) = Some ad" "ad_catalogOnly ad = Some True"
  shows "hc_status (connectorExecutableCheck con) = hs_healthy \<and> (\<exists>e. adapterInvoke opts c req w = (Inl e, w))"
  using assms connector_fields(2) [OF assms(1)]
  by (simp add: executable_check adapterInvoke_def requireAdapter_def liftE_bind throw_def)

end
