(* ===== verification/RestTemplates.thy ===== *)
theory RestTemplates
  imports Events
begin

text \<open>
  The request templates of the declarative REST connectors, \<open>connectors/adapters/declarative-rest.ts\<close>: reading
  a path in the arguments, and rendering paths, queries, headers and bodies with it. \<open>part in value\<close> also finds
  what an object inherits from its prototype; such names are left out. A thrown error is \<open>Inl\<close>.
\<close>

section \<open>Reading and encoding\<close>

definition upper_hex :: "nat \<Rightarrow> char" where
  "upper_hex n = (if n < 10 then char_of (48 + n) else char_of (55 + n))"

definition percent :: "nat \<Rightarrow> string" where
  "percent n = [CHR ''%'', upper_hex (n div 16), upper_hex (n mod 16)]"

definition unreserved :: "char \<Rightarrow> bool" where
  "unreserved c \<longleftrightarrow> is_alnum c \<or> c \<in> {CHR ''-'', CHR ''_'', CHR ''.'', CHR ''!'', CHR ''~'', CHR ''*'', CHR 0x27, CHR ''('', CHR '')''}"

definition encodeURIComponent :: "string \<Rightarrow> string" where
  "encodeURIComponent s = concat (map (\<lambda>c. if unreserved c then [c] else concat (map (\<lambda>b. percent (unat b)) (utf8_bytes [c]))) s)"

text \<open>\<open>.replace(/[!'()*]/g, ...)\<close>.\<close>

definition encodeStrictly :: "string \<Rightarrow> string" where
  "encodeStrictly s = concat (map (\<lambda>c. if c \<in> {CHR ''!'', CHR 0x27, CHR ''('', CHR '')'', CHR ''*''} then percent (code_of c) else [c])
     (encodeURIComponent s))"

definition key_char :: "char \<Rightarrow> bool" where
  "key_char c \<longleftrightarrow> is_alnum c \<or> c \<in> {CHR ''_'', CHR ''.'', CHR ''-''}"

text \<open>What follows an opening brace: the name of a placeholder and the rest behind its closing brace.\<close>

definition scan_key :: "string \<Rightarrow> (string \<times> string) option" where
  "scan_key cs =
     (case (takeWhile key_char cs, dropWhile key_char cs) of
        (k, d # rest) \<Rightarrow> if k \<noteq> [] \<and> d = CHR ''}'' then Some (k, rest) else None
      | _ \<Rightarrow> None)"

definition exact_key :: "string \<Rightarrow> string option" where
  "exact_key s = (case s of [] \<Rightarrow> None
     | c # cs \<Rightarrow> if c = CHR ''{'' then (case scan_key cs of Some (k, []) \<Rightarrow> Some k | _ \<Rightarrow> None) else None)"

fun prop_of :: "json \<Rightarrow> string \<Rightarrow> json option" where
  "prop_of (JObj kvs) k = map_of kvs k"
| "prop_of (JArr xs) k = (if k = ''length'' then Some (JNum (Finite (int (length xs))))
     else map_option (\<lambda>i. xs ! i) (find (\<lambda>i. decimal i = k) [0 ..< length xs]))"
| "prop_of _ _ = None"

definition readPath :: "json \<Rightarrow> string \<Rightarrow> json option" where
  "readPath v path = foldl (\<lambda>u part. case u of None \<Rightarrow> None | Some j \<Rightarrow> prop_of j part) (Some v) (split_on (CHR ''.'') path)"

text \<open>Neither \<open>undefined\<close> nor \<open>null\<close>.\<close>

definition supplied :: "json option \<Rightarrow> json option" where
  "supplied v = (if v = Some JNull then None else v)"

definition missing_argument :: "string \<Rightarrow> exn" where
  "missing_argument k = Error (''missing required argument: '' @ k)"

definition readRequiredPath :: "json \<Rightarrow> string \<Rightarrow> exn + json" where
  "readRequiredPath v path = (case supplied (readPath v path) of None \<Rightarrow> Inl (missing_argument path) | Some j \<Rightarrow> Inr j)"

section \<open>Rendering\<close>

text \<open>\<open>template.replace(/\{([a-zA-Z0-9_.-]+)\}/g, f)\<close>.\<close>

lemma scan_key_length: "scan_key cs = Some (k, rest) \<Longrightarrow> length rest < length cs"
  unfolding scan_key_def by (auto split: list.splits if_splits) (metis Suc_le_lessD length_Cons length_dropWhile_le)

function substitute :: "(string \<Rightarrow> exn + string) \<Rightarrow> string \<Rightarrow> exn + string" where
  "substitute f [] = Inr []"
| "substitute f (c # cs) =
     (case (if c = CHR ''{'' then scan_key cs else None) of
        Some (k, rest) \<Rightarrow> (case f k of Inl e \<Rightarrow> Inl e | Inr v \<Rightarrow> map_sum id ((@) v) (substitute f rest))
      | None \<Rightarrow> map_sum id (Cons c) (substitute f cs))"
  by pat_completeness auto
termination
  by (relation "measure (\<lambda>(f, t). length t)") (auto dest: scan_key_length split: if_splits)

definition dot_segment :: "string \<Rightarrow> bool" where
  "dot_segment s \<longleftrightarrow> s = ''.'' \<or> s = ''..''"

definition dot_segment_error :: exn where
  "dot_segment_error = Error ''invalid path argument: dot segment''"

definition template_value :: "json \<Rightarrow> string list \<Rightarrow> string \<Rightarrow> exn + string" where
  "template_value scope segmented k =
     (case supplied (readPath scope k) of
        None \<Rightarrow> Inl (missing_argument k)
      | Some j \<Rightarrow>
          if k \<in> set segmented then
            (let segments = split_on (CHR ''/'') (js_String j) in
             if list_ex dot_segment segments then Inl dot_segment_error else Inr (joined ''/'' (map encodeStrictly segments)))
          else Inr (encodeURIComponent (js_String j)))"

definition interpolate :: "string \<Rightarrow> json \<Rightarrow> string list \<Rightarrow> exn + string" where
  "interpolate template scope segmented = substitute (template_value scope segmented) template"

definition renderQueryValue :: "json option \<Rightarrow> json \<Rightarrow> json option" where
  "renderQueryValue v scope =
     (case v of
        Some (JStr s) \<Rightarrow> (case exact_key s of Some k \<Rightarrow> readPath scope k
          | None \<Rightarrow> (case interpolate s scope [] of Inl _ \<Rightarrow> None | Inr t \<Rightarrow> Some (JStr t)))
      | _ \<Rightarrow> v)"

fun renderHeaders :: "(string \<times> string) list \<Rightarrow> json \<Rightarrow> bool \<Rightarrow> string list \<Rightarrow> exn + (string \<times> string) list" where
  "renderHeaders [] scope rawExact required = Inr []"
| "renderHeaders ((h, v) # rest) scope rawExact required =
     (case exact_key v of
        Some k \<Rightarrow> (case supplied (readPath scope k) of
            None \<Rightarrow> if rawExact \<or> k \<in> set required then Inl (missing_argument k) else renderHeaders rest scope rawExact required
          | Some j \<Rightarrow> map_sum id (Cons (h, if rawExact then js_String j else encodeURIComponent (js_String j)))
              (renderHeaders rest scope rawExact required))
      | None \<Rightarrow> (case interpolate v scope [] of
            Inl e \<Rightarrow> Inl e
          | Inr t \<Rightarrow> map_sum id (Cons (h, t)) (renderHeaders rest scope rawExact required)))"

definition value_key :: "json \<Rightarrow> string option" where
  "value_key v = (case v of JStr s \<Rightarrow> exact_key s | _ \<Rightarrow> None)"

fun renderValue :: "json \<Rightarrow> string list \<Rightarrow> json \<Rightarrow> exn + json"
  and renderList :: "json \<Rightarrow> string list \<Rightarrow> json list \<Rightarrow> exn + json list"
  and renderObject :: "json \<Rightarrow> string list \<Rightarrow> (string \<times> json) list \<Rightarrow> (string \<times> json) list \<Rightarrow> exn + (string \<times> json) list" where
  "renderValue scope required (JStr s) =
     (case exact_key s of Some k \<Rightarrow> readRequiredPath scope k | None \<Rightarrow> map_sum id JStr (interpolate s scope []))"
| "renderValue scope required (JArr xs) = map_sum id JArr (renderList scope required xs)"
| "renderValue scope required (JObj kvs) = map_sum id JObj (renderObject scope required [] kvs)"
| "renderValue scope required JNull = Inr JNull"
| "renderValue scope required (JBool b) = Inr (JBool b)"
| "renderValue scope required (JNum n) = Inr (JNum n)"
| "renderList scope required [] = Inr []"
| "renderList scope required (x # xs) =
     (case renderValue scope required x of Inl e \<Rightarrow> Inl e | Inr y \<Rightarrow> map_sum id (Cons y) (renderList scope required xs))"
| "renderObject scope required out [] = Inr out"
| "renderObject scope required out ((templateKey, v) # rest) =
     (case substitute (\<lambda>p. map_sum id js_String (readRequiredPath scope p)) templateKey of
        Inl e \<Rightarrow> Inl e
      | Inr k \<Rightarrow> (case value_key v of
            Some name \<Rightarrow> (case supplied (readPath scope name) of
                None \<Rightarrow> if name \<in> set required then Inl (missing_argument name) else renderObject scope required out rest
              | Some j \<Rightarrow> renderObject scope required (AList.update k j out) rest)
          | None \<Rightarrow> (case renderValue scope required v of
                Inl e \<Rightarrow> Inl e
              | Inr j \<Rightarrow> renderObject scope required (AList.update k j out) rest)))"

text \<open>The arguments under the reserved name \<open>connection\<close>, which is the connection's own metadata.\<close>

definition renderScope :: "metadata \<Rightarrow> metadata \<Rightarrow> metadata \<Rightarrow> json" where
  "renderScope credentialDefaults args connection = JObj (AList.update ''connection'' (JObj connection) (spread (spread [] credentialDefaults) args))"

definition resolveBody :: "json option \<Rightarrow> metadata \<Rightarrow> json \<Rightarrow> string list \<Rightarrow> exn + json" where
  "resolveBody body args scope required =
     (case body of None \<Rightarrow> Inr (JObj args)
      | Some b \<Rightarrow> if b = JStr [] \<or> b = JStr ''args'' then Inr (JObj args) else renderValue scope required b)"

text \<open>The path of an operation, relative to the base URL, with the check for dot segments.\<close>

definition nth_segment :: "string list \<Rightarrow> nat \<Rightarrow> string option" where
  "nth_segment ss i = (if i < length ss then Some (ss ! i) else None)"

definition renderPath :: "string \<Rightarrow> json \<Rightarrow> string list \<Rightarrow> exn + string" where
  "renderPath path scope segmented =
     (let templatePath = dropWhile (\<lambda>c. c = CHR ''/'') path in
      case interpolate templatePath scope segmented of
        Inl e \<Rightarrow> Inl e
      | Inr rendered \<Rightarrow>
          (let segments = split_on (CHR ''/'') rendered; template = split_on (CHR ''/'') templatePath in
           if list_ex (\<lambda>i. dot_segment (segments ! i) \<and> nth_segment template i \<noteq> Some (segments ! i)) [0 ..< length segments]
           then Inl dot_segment_error else Inr rendered))"

section \<open>Bodies\<close>

text \<open>The \<open>application/x-www-form-urlencoded\<close> text of one name or value.\<close>

definition form_text :: "string \<Rightarrow> string" where
  "form_text s = concat (map (\<lambda>c. if is_alnum c \<or> c \<in> {CHR ''*'', CHR ''-'', CHR ''.'', CHR ''_''} then [c]
     else if c = CHR '' '' then ''+'' else concat (map (\<lambda>b. percent (unat b)) (utf8_bytes [c]))) s)"

fun form_fields :: "string \<Rightarrow> (string \<times> json) list \<Rightarrow> exn + (string \<times> string) list" where
  "form_fields kind [] = Inr []"
| "form_fields kind ((k, v) # rest) =
     (if v = JNull then form_fields kind rest
      else if is_object v then Inl (Error (kind @ '': form field '' @ k @ '' must be a scalar value''))
      else map_sum id (Cons (k, js_String v)) (form_fields kind rest))"

datatype body_encoding = encoding_json | encoding_form

definition serializeRequestBody :: "string \<Rightarrow> body_encoding \<Rightarrow> json \<Rightarrow> exn + string" where
  "serializeRequestBody kind enc body =
     (case enc of
        encoding_json \<Rightarrow> Inr (stringify body)
      | encoding_form \<Rightarrow> (case body of
            JObj kvs \<Rightarrow> map_sum id (\<lambda>fs. joined ''&'' (map (\<lambda>(k, v). form_text k @ CHR ''='' # form_text v) fs)) (form_fields kind kvs)
          | _ \<Rightarrow> Inl (Error (kind @ '': form request bodies require a flat object''))))"


section \<open>Segments\<close>

lemma scan_key_append:
  assumes "scan_key cs = Some (k, rest)"
  shows "scan_key (cs @ xs) = Some (k, rest @ xs)" "cs = k @ CHR ''}'' # rest"
proof -
  from assms have d: "dropWhile key_char cs = CHR ''}'' # rest" "takeWhile key_char cs = k" "k \<noteq> []"
    by (auto simp: scan_key_def split: list.splits if_splits)
  then show c: "cs = k @ CHR ''}'' # rest" using takeWhile_dropWhile_id [of key_char cs] by simp
  have "\<forall>x \<in> set k. key_char x" using d(2) by (metis set_takeWhileD)
  then have "takeWhile key_char (cs @ xs) = k" "dropWhile key_char (cs @ xs) = CHR ''}'' # rest @ xs"
    unfolding c by (auto simp: key_char_def is_alnum_def is_letter_def is_digit_def code_of_def)
  with d(3) show "scan_key (cs @ xs) = Some (k, rest @ xs)" by (simp add: scan_key_def)
qed

lemma scan_key_none:
  assumes "scan_key cs = None" "\<not> key_char x" "x \<noteq> CHR ''}''"
  shows "scan_key (cs @ x # xs) = None"
proof (cases "dropWhile key_char cs")
  case Nil
  then have "\<forall>y \<in> set cs. key_char y" by (simp add: dropWhile_eq_Nil_conv)
  then have "dropWhile key_char (cs @ x # xs) = x # xs" using assms(2) by (simp add: dropWhile_append)
  with assms(3) show ?thesis by (simp add: scan_key_def)
next
  case (Cons d rest)
  then have "\<exists>y \<in> set cs. \<not> key_char y" by (metis dropWhile_eq_Nil_conv list.distinct(1))
  then have "takeWhile key_char (cs @ x # xs) = takeWhile key_char cs" "dropWhile key_char (cs @ x # xs) = d # rest @ x # xs"
    using Cons by (auto simp: dropWhile_append takeWhile_append)
  with assms(1) Cons show ?thesis by (auto simp: scan_key_def split: if_splits)
qed

text \<open>A character that no placeholder holds cuts a template into two that are rendered apart.\<close>

lemma substitute_append:
  assumes "\<not> key_char x" "x \<noteq> CHR ''}''" "x \<noteq> CHR ''{''"
  shows "substitute f (t @ x # u) =
    (case substitute f t of Inl e \<Rightarrow> Inl e | Inr a \<Rightarrow> map_sum id (\<lambda>b. a @ x # b) (substitute f u))"
proof (induction f t rule: substitute.induct)
  case (1 f)
  show ?case using assms by simp
next
  case (2 f c cs)
  show ?case
  proof (cases "if c = CHR ''{'' then scan_key cs else None")
    case None
    then have "(if c = CHR ''{'' then scan_key (cs @ x # u) else None) = None"
      using scan_key_none [OF _ assms(1,2)] by (auto split: if_splits)
    then show ?thesis using None "2.IH"(1) [OF None]
      by (cases "substitute f cs"; cases "substitute f u") (auto split: sum.splits)
  next
    case (Some kr)
    then obtain k rest where k: "c = CHR ''{''" "scan_key cs = Some (k, rest)" by (cases kr) (auto split: if_splits)
    show ?thesis
    proof (cases "f k")
      case (Inr v)
      show ?thesis using k Inr "2.IH"(2) [of "(k, rest)" k rest v] scan_key_append(1) [OF k(2), of "x # u"]
        by (cases "substitute f rest"; cases "substitute f u") (auto split: sum.splits)
    qed (use k scan_key_append(1) [OF k(2), of "x # u"] in simp)
  qed
qed

text \<open>The names of the placeholders of a template.\<close>

function template_keys :: "string \<Rightarrow> string list" where
  "template_keys [] = []"
| "template_keys (c # cs) =
     (case (if c = CHR ''{'' then scan_key cs else None) of Some (k, rest) \<Rightarrow> k # template_keys rest | None \<Rightarrow> template_keys cs)"
  by pat_completeness auto
termination
  by (relation "measure length") (auto dest: scan_key_length split: if_splits)

lemma substitute_without:
  assumes "\<And>k v. k \<in> set (template_keys t) \<Longrightarrow> f k = Inr v \<Longrightarrow> x \<notin> set v" "substitute f t = Inr s" "x \<notin> set t"
  shows "x \<notin> set s"
  using assms
proof (induction f t arbitrary: s rule: substitute.induct)
  case (2 f c cs)
  show ?case
  proof (cases "if c = CHR ''{'' then scan_key cs else None")
    case None
    with "2.prems" "2.IH"(1) [OF None] show ?thesis by (cases "substitute f cs") (auto split: if_splits)
  next
    case (Some kr)
    then obtain k rest where k: "c = CHR ''{''" "scan_key cs = Some (k, rest)" by (cases kr) (auto split: if_splits)
    with "2.prems" obtain v r where v: "f k = Inr v" "substitute f rest = Inr r" "s = v @ r"
      by (cases "f k"; cases "substitute f rest") auto
    have "x \<notin> set rest" using "2.prems"(3) scan_key_append(2) [OF k(2)] by auto
    with "2.IH"(2) [of "(k, rest)" k rest v r] "2.prems"(1) k v show ?thesis by auto
  qed
qed simp

lemma split_on_append: "split_on c (s @ c # r) = split_on c s @ split_on c r"
proof (induction "length s" arbitrary: s rule: less_induct)
  case less
  show ?case
  proof (cases "c \<in> set s")
    case True
    then obtain a u where s: "s = a @ c # u" "c \<notin> set a" by (meson split_list_first)
    with less [of u] show ?thesis by (simp add: split_on_first)
  qed (simp add: split_on_first split_on_none)
qed

text \<open>Every segment of a template is rendered for itself, and the rendering is the renderings in their order.\<close>

lemma substitute_segments:
  assumes "substitute f t = Inr s"
  shows "\<exists>rs. list_all2 (\<lambda>a r. substitute f a = Inr r) (split_on (CHR ''/'') t) rs \<and>
     split_on (CHR ''/'') s = concat (map (split_on (CHR ''/'')) rs)"
  using assms
proof (induction "length t" arbitrary: t s rule: less_induct)
  case less
  show ?case
  proof (cases "CHR ''/'' \<in> set t")
    case False
    with less.prems show ?thesis by (intro exI [of _ "[s]"]) (simp add: split_on_none)
  next
    case True
    then obtain a u where t: "t = a @ CHR ''/'' # u" "CHR ''/'' \<notin> set a" by (meson split_list_first)
    then obtain b v where s: "substitute f a = Inr b" "substitute f u = Inr v" "s = b @ CHR ''/'' # v"
      using less.prems by (cases "substitute f u") (auto simp: substitute_append key_char_def is_alnum_def is_letter_def is_digit_def code_of_def split: sum.splits)
    from less.hyps [OF _ s(2)] t(1) obtain rs where "list_all2 (\<lambda>a r. substitute f a = Inr r) (split_on (CHR ''/'') u) rs"
      "split_on (CHR ''/'') v = concat (map (split_on (CHR ''/'')) rs)" by auto
    moreover have "split_on (CHR ''/'') t = a # split_on (CHR ''/'') u" by (simp add: t split_on_first)
    moreover have "split_on (CHR ''/'') s = split_on (CHR ''/'') b @ split_on (CHR ''/'') v" by (simp only: s(3) split_on_append)
    ultimately show ?thesis using s(1) by (intro exI [of _ "b # rs"]) simp
  qed
qed

lemma split_on_parts: "p \<in> set (split_on c s) \<Longrightarrow> c \<notin> set p"
  by (induction s arbitrary: p) (auto split: if_splits list.splits)

lemma percent_chars: "n < 256 \<Longrightarrow> c \<in> set (percent n) \<Longrightarrow> is_alnum c \<or> c = CHR ''%''"
proof -
  assume n: "n < 256" and "c \<in> set (percent n)"
  have "is_alnum (upper_hex m)" if "m < 16" for m
  proof -
    have "code_of (upper_hex m) = (if m < 10 then 48 + m else 55 + m)" using that by (simp add: upper_hex_def code_of_def)
    then show ?thesis using that by (auto simp: is_alnum_def is_letter_def is_digit_def)
  qed
  with n \<open>c \<in> set (percent n)\<close> show ?thesis by (auto simp: percent_def)
qed

lemma encoded_chars_of:
  assumes "c \<in> set (encodeURIComponent s)"
  shows "unreserved c \<or> c = CHR ''%''"
proof -
  have "unat (b :: byte) < 256" for b using unsigned_less [of b, where 'a = nat] by simp
  with assms percent_chars show ?thesis
    by (fastforce simp: encodeURIComponent_def unreserved_def split: if_splits)
qed

lemma encoded_strictly_chars:
  assumes "c \<in> set (encodeStrictly s)"
  shows "unreserved c \<or> c = CHR ''%''"
proof -
  have "code_of d < 256" for d by (simp add: code_of_def)
  from assms obtain d where d: "d \<in> set (encodeURIComponent s)" "c \<in> set (percent (code_of d)) \<or> c = d"
    by (auto simp: encodeStrictly_def split: if_splits)
  with encoded_chars_of [OF d(1)] percent_chars [OF \<open>code_of d < 256\<close>, of c] show ?thesis by (auto simp: unreserved_def)
qed

lemma joined_chars: "c \<in> set (joined sep xs) \<Longrightarrow> c \<in> set sep \<or> (\<exists>x \<in> set xs. c \<in> set x)"
  by (induction sep xs rule: joined.induct) auto

lemma value_has_no:
  assumes "template_value scope segmented k = Inr v" "\<not> unreserved c" "c \<noteq> CHR ''%''" "c \<noteq> CHR ''/'' \<or> k \<notin> set segmented"
  shows "c \<notin> set v"
  using assms encoded_chars_of [of c] encoded_strictly_chars [of c]
  by (auto simp: template_value_def Let_def split: option.splits if_splits dest!: joined_chars)

text \<open>C30. Arguments can not leave the place of the path they are put into. The segments of the rendered path are
  those of the renderings of the template's segments, in their order; the rendering of a template segment is one
  segment, unless it has a placeholder that the adapter lists in \<open>pathSegmentParameters\<close>, whose value may have
  several. A dot segment stands only where the template itself has it, also among the segments of such a value;
  and no query, fragment or backslash comes in.\<close>

theorem arguments_stay_in_their_segment:
  assumes "renderPath path scope segmented = Inr p"
  shows "let template = dropWhile (\<lambda>c. c = CHR ''/'') path; ts = split_on (CHR ''/'') template; ss = split_on (CHR ''/'') p in
    (\<exists>rs. list_all2 (\<lambda>t r. interpolate t scope segmented = Inr r \<and>
        (set (template_keys t) \<inter> set segmented = {} \<longrightarrow> split_on (CHR ''/'') r = [r])) ts rs \<and>
      ss = concat (map (split_on (CHR ''/'')) rs)) \<and>
    (\<forall>i < length ss. dot_segment (ss ! i) \<longrightarrow> i < length ts \<and> ts ! i = ss ! i) \<and>
    (\<forall>c \<in> {CHR ''?'', CHR ''#'', CHR 0x5C}. c \<in> set p \<longrightarrow> c \<in> set template)"
proof -
  let ?template = "dropWhile (\<lambda>c. c = CHR ''/'') path"
  let ?ts = "split_on (CHR ''/'') ?template" and ?ss = "split_on (CHR ''/'') p"
  from assms have i: "interpolate ?template scope segmented = Inr p"
    and d: "\<And>i. i < length ?ss \<Longrightarrow> dot_segment (?ss ! i) \<Longrightarrow> nth_segment ?ts i = Some (?ss ! i)"
    by (auto simp: renderPath_def Let_def list_ex_iff split: sum.splits if_splits)
  have no: "c \<notin> set v" if "template_value scope segmented k = Inr v" "c \<in> {CHR ''/'', CHR ''?'', CHR ''#'', CHR 0x5C}"
      "c \<noteq> CHR ''/'' \<or> k \<notin> set segmented" for c k v
    using value_has_no [OF that(1), of c] that(2,3)
    by (auto simp: unreserved_def is_alnum_def is_letter_def is_digit_def code_of_def)
  from substitute_segments [OF i [unfolded interpolate_def]] obtain rs where
    rs: "list_all2 (\<lambda>t r. interpolate t scope segmented = Inr r) ?ts rs" "?ss = concat (map (split_on (CHR ''/'')) rs)"
    unfolding interpolate_def by blast
  have one: "split_on (CHR ''/'') r = [r]"
    if "t \<in> set ?ts" "interpolate t scope segmented = Inr r" "set (template_keys t) \<inter> set segmented = {}" for t r
    by (rule split_on_none, rule substitute_without [OF _ that(2) [unfolded interpolate_def] split_on_parts [OF that(1)]])
      (use no that(3) in blast)
  have "list_all2 (\<lambda>t r. interpolate t scope segmented = Inr r \<and>
      (set (template_keys t) \<inter> set segmented = {} \<longrightarrow> split_on (CHR ''/'') r = [r])) ?ts rs"
    by (rule list.rel_mono_strong [OF rs(1)]) (use one in blast)
  moreover have "\<forall>i < length ?ss. dot_segment (?ss ! i) \<longrightarrow> i < length ?ts \<and> ?ts ! i = ?ss ! i"
  proof (intro allI impI)
    fix i assume "i < length ?ss" "dot_segment (?ss ! i)"
    from d [OF this] show "i < length ?ts \<and> ?ts ! i = ?ss ! i" by (simp add: nth_segment_def split: if_splits)
  qed
  moreover have "c \<in> set ?template" if "c \<in> {CHR ''?'', CHR ''#'', CHR 0x5C}" "c \<in> set p" for c
    using substitute_without [OF _ i [unfolded interpolate_def], of c] no that by blast
  ultimately show ?thesis unfolding Let_def using rs(2) by blast
qed

theorem arguments_stay_in_their_segment_witness:
  "renderPath ''/files/{id}/meta'' (JObj [(''id'', JStr ''../../admin?x'')]) [] = Inr ''files/..%2F..%2Fadmin%3Fx/meta'' \<and>
   renderPath ''/files/{id}/meta'' (JObj [(''id'', JStr ''..'')]) [] = Inl dot_segment_error \<and>
   renderPath ''/files/{id}/meta'' (JObj [(''id'', JStr ''a/..'')]) [''id''] = Inl dot_segment_error \<and>
   renderPath ''/files/{id}/meta'' (JObj [(''id'', JStr ''a/b?'')]) [''id''] = Inr ''files/a/b%3F/meta'' \<and>
   CHR ''?'' \<notin> set ''files/a/b%3F/meta''"
proof -
  have r: "renderPath ''/files/{id}/meta'' (JObj [(''id'', JStr ''../../admin?x'')]) [] = Inr ''files/..%2F..%2Fadmin%3Fx/meta''"
    "renderPath ''/files/{id}/meta'' (JObj [(''id'', JStr ''..'')]) [] = Inl dot_segment_error"
    "renderPath ''/files/{id}/meta'' (JObj [(''id'', JStr ''a/..'')]) [''id''] = Inl dot_segment_error"
    "renderPath ''/files/{id}/meta'' (JObj [(''id'', JStr ''a/b?'')]) [''id''] = Inr ''files/a/b%3F/meta''" by code_simp+
  from arguments_stay_in_their_segment [OF r(4)] have "CHR ''?'' \<notin> set ''files/a/b%3F/meta''" unfolding Let_def by simp
  with r show ?thesis by blast
qed

section \<open>The tenant\<close>

definition of_connection :: "string \<Rightarrow> bool" where
  "of_connection k \<longleftrightarrow> take 11 k = ''connection.''"

lemma substitute_cong:
  assumes "\<And>k. k \<in> set (template_keys t) \<Longrightarrow> f k = g k"
  shows "substitute f t = substitute g t"
  using assms
proof (induction f t rule: substitute.induct)
  case (2 f c cs)
  show ?case
  proof (cases "if c = CHR ''{'' then scan_key cs else None")
    case None
    with "2.prems" "2.IH"(1) [OF None] show ?thesis by simp
  next
    case (Some kr)
    then obtain k rest where k: "c = CHR ''{''" "scan_key cs = Some (k, rest)" by (cases kr) (auto split: if_splits)
    have f: "f k = g k" using "2.prems" k by simp
    show ?thesis
    proof (cases "f k")
      case (Inr v)
      with f have g: "g k = Inr v" by simp
      have "substitute f rest = substitute g rest" using "2.IH"(2) [of "(k, rest)" k rest v] "2.prems" k Inr by simp
      then show ?thesis by (simp add: k Inr g)
    qed (use k f in simp)
  qed
qed simp

lemma connection_path:
  assumes "of_connection k"
  shows "readPath (renderScope d args conn) k = readPath (JObj conn) (drop 11 k)"
proof -
  have k: "k = ''connection'' @ CHR ''.'' # drop 11 k"
    using assms append_take_drop_id [of 11 k] by (simp add: of_connection_def)
  have "split_on (CHR ''.'') k = ''connection'' # split_on (CHR ''.'') (drop 11 k)"
    by (subst k, rule split_on_first) simp
  then show ?thesis by (simp add: readPath_def renderScope_def update_conv')
qed

text \<open>C31. The tenant of a request is fixed by the connection: what a template takes from \<open>connection.\<close> is read from
  the connection's metadata, whatever the arguments hold, so a path of such placeholders is the same for all
  arguments.\<close>

theorem arguments_cannot_change_the_tenant:
  assumes "of_connection k"
  shows "readPath (renderScope d args conn) k = readPath (JObj conn) (drop 11 k) \<and>
    (filter (\<lambda>k. \<not> of_connection k) (template_keys (dropWhile (\<lambda>c. c = CHR ''/'') path)) = [] \<longrightarrow>
      renderPath path (renderScope d args conn) segmented = renderPath path (renderScope d' args' conn) segmented)"
proof -
  have "renderPath path (renderScope d args conn) segmented = renderPath path (renderScope d' args' conn) segmented"
    if "\<forall>k \<in> set (template_keys (dropWhile (\<lambda>c. c = CHR ''/'') path)). of_connection k"
  proof -
    have "template_value (renderScope d args conn) segmented k = template_value (renderScope d' args' conn) segmented k"
      if "of_connection k" for k using that by (simp add: template_value_def connection_path)
    with that have "interpolate (dropWhile (\<lambda>c. c = CHR ''/'') path) (renderScope d args conn) segmented =
        interpolate (dropWhile (\<lambda>c. c = CHR ''/'') path) (renderScope d' args' conn) segmented"
      unfolding interpolate_def by (intro substitute_cong) blast
    then show ?thesis by (simp add: renderPath_def)
  qed
  with connection_path [OF assms] show ?thesis by (simp add: filter_empty_conv)
qed

theorem arguments_cannot_change_the_tenant_witness:
  "readPath (renderScope [] [(''connection'', JObj [(''realm'', JStr ''other'')])] [(''realm'', JStr ''own'')]) ''connection.realm'' = Some (JStr ''own'') \<and>
   renderPath ''company/{connection.realm}'' (renderScope [] [(''connection'', JObj [(''realm'', JStr ''other'')])] [(''realm'', JStr ''own'')]) [] =
     Inr ''company/own''"
proof -
  let ?args = "[(''connection'', JObj [(''realm'', JStr ''other'')])]" and ?conn = "[(''realm'', JStr ''own'')]"
  have k: "of_connection ''connection.realm''" by code_simp
  have keys: "filter (\<lambda>k. \<not> of_connection k) (template_keys (dropWhile (\<lambda>c. c = CHR ''/'') ''company/{connection.realm}'')) = []" by code_simp
  have p: "readPath (JObj ?conn) (drop 11 ''connection.realm'') = Some (JStr ''own'')" by code_simp
  have r: "renderPath ''company/{connection.realm}'' (renderScope [] [] ?conn) [] = Inr ''company/own''" by code_simp
  from arguments_cannot_change_the_tenant [OF k, of "[]" ?args ?conn "''company/{connection.realm}''" "[]" "[]" "[]"] keys p r
  show ?thesis by simp
qed

text \<open>A header or a field of a body is left out for an argument that is \<open>null\<close>; a query sends its text.\<close>

theorem null_argument_is_sent_in_the_query:
  "renderQueryValue (Some (JStr ''{page}'')) (JObj [(''page'', JNull)]) = Some JNull \<and> js_String JNull = ''null'' \<and>
   renderHeaders [(''x-page'', ''{page}'')] (JObj [(''page'', JNull)]) False [] = Inr [] \<and>
   renderValue (JObj [(''page'', JNull)]) [] (JObj [(''page'', JStr ''{page}'')]) = Inr (JObj [])"
  by code_simp

end
