(* ===== verification/Rest.thy ===== *)
theory Rest
  imports RestTemplates Providers Delegated
begin

text \<open>
  The declarative REST connectors of \<open>connectors/adapters/declarative-rest.ts\<close>: the adapter made of a
  specification, the check of arguments, the policy for the base URL, the placement of credentials, the request
  and the reading of its answer. The URL parser, regular expressions, \<open>fetch\<close>, the decoders and the numbers of
  \<open>Retry-After\<close> are those of the platform. Requests signed with AWS SigV4 or OAuth 1.0a are not modelled.
\<close>

section \<open>The platform\<close>

record rest_url =
  u_protocol :: string
  u_username :: string
  u_password :: string
  u_hostname :: string
  u_port :: string
  u_pathname :: string
  u_search :: string
  u_hash :: string
  u_href :: string

text \<open>A request: the parsed URL and the parameters set on it afterwards, in order.\<close>

record rest_request =
  rr_verb :: http_verb
  rr_url :: rest_url
  rr_parameters :: "(string \<times> string) list"
  rr_headers :: "(string \<times> string) list"
  rr_content :: "string option"
  rr_refuseRedirect :: bool

text \<open>An answer: its body comes in chunks, or reading it fails.\<close>

record rest_response =
  rp_status :: nat
  rp_statusText :: string
  rp_headers :: "(string \<times> string) list"
  rp_body :: "exn + byte list list"

record 'w rest_host =
  rh_parse :: "string \<Rightarrow> rest_url option"
  rh_resolve :: "string \<Rightarrow> string \<Rightarrow> rest_url option"
  rh_isIP :: "string \<Rightarrow> nat"
  rh_pattern :: "string \<Rightarrow> string + (string \<Rightarrow> bool)"
  rh_fetch :: "rest_request \<Rightarrow> ('w, exn, rest_response) io"
  rh_responseText :: "byte list \<Rightarrow> string"
  rh_bufferText :: "byte list \<Rightarrow> string"
  rh_secondsToMs :: "string \<Rightarrow> int option"
  rh_Date_parse :: "string \<Rightarrow> int option"
  rh_now :: "('w, exn, int) io"

section \<open>Specifications\<close>

datatype RestCredentialPlacement =
  PlaceBearer
| PlaceByAuth "string option" "string option"
| PlaceBasicApiKey
| PlaceHeader string "string option" "string option"
| PlaceBasicStructured string string
| PlaceQuery string
| PlaceStructuredHeaders "(string \<times> string) list"
| PlaceStructuredBody "(string \<times> string) list"

datatype rest_base = FixedBase string | MetadataBase string "string option"

record RestRequestSpec =
  rs_verb :: http_verb
  rs_path :: string
  rs_baseUrl :: "rest_base option"
  rs_refuseRedirect :: bool
  rs_pathSegmentParameters :: "string list"
  rs_query :: "(string \<times> json option) list"
  rs_headers :: "(string \<times> string) list"
  rs_body :: "json option"
  rs_bodyEncoding :: "body_encoding option"
  rs_existenceCheck :: bool
  rs_resultFromHeader :: "(string \<times> string) option"
  rs_base64 :: bool
  rs_maxResponseBytes :: "nat option"

record RestArgumentRefusal =
  rf_field :: string
  rf_pattern :: string
  rf_message :: string

datatype operation_class = OperationRead | OperationMutation

record RestOperationSpec =
  op_name :: string
  op_class :: operation_class
  op_description :: string
  op_parameters :: metadata
  op_requiredScopes :: "string list option"
  op_request :: RestRequestSpec
  op_cas :: "CASStrategy option"
  op_externalEffect :: "bool option"
  op_inputPreview :: "IntegrationInputPreview option"
  op_refuseArguments :: "RestArgumentRefusal list"

record RestConnectorSpec =
  rc_kind :: string
  rc_displayName :: string
  rc_description :: string
  rc_auth :: AuthSpec
  rc_category :: string
  rc_defaultConsistencyModel :: string
  rc_baseUrl :: rest_base
  rc_allowedBaseUrls :: "string list option"
  rc_allowedBaseUrlSuffixes :: "string list option"
  rc_requirePublicHttpsBaseUrl :: bool
  rc_credentialsExpiredStatuses :: "nat list option"
  rc_credentialPlacement :: "RestCredentialPlacement option"
  rc_defaultHeaders :: "(string \<times> string) list"
  rc_idempotencyHeader :: "string option"
  rc_credentialHeaders :: "(string \<times> string) list"
  rc_capabilities :: "RestOperationSpec list"
  rc_test :: "(RestRequestSpec \<times> (string \<times> json) list) option"

definition operationToCapability :: "RestOperationSpec \<Rightarrow> Capability" where
  "operationToCapability oper =
     \<lparr>cb_name = op_name oper,
      cb_class = (case op_class oper of OperationRead \<Rightarrow> ReadCapability
        | OperationMutation \<Rightarrow> MutationCapability (Some (nullish (op_cas oper) native_idempotency)) (nullish (op_externalEffect oper) True)),
      cb_description = op_description oper, cb_parameters = op_parameters oper, cb_consistencyModel = None,
      cb_requiredScopes = op_requiredScopes oper, cb_inputPreview = op_inputPreview oper\<rparr>"

definition operation_word :: "operation_class \<Rightarrow> string" where
  "operation_word k = (case k of OperationRead \<Rightarrow> ''read'' | OperationMutation \<Rightarrow> ''mutation'')"

definition readOperation :: "RestConnectorSpec \<Rightarrow> string \<Rightarrow> operation_class \<Rightarrow> exn + RestOperationSpec" where
  "readOperation spec name expected =
     (case find (\<lambda>oper. op_name oper = name) (rc_capabilities spec) of
        Some oper \<Rightarrow> if op_class oper = expected then Inr oper
          else Inl (Error (rc_kind spec @ '': unknown '' @ operation_word expected @ '' capability '' @ name))
      | None \<Rightarrow> Inl (Error (rc_kind spec @ '': unknown '' @ operation_word expected @ '' capability '' @ name)))"

section \<open>Arguments\<close>

record ArgumentRule =
  ru_field :: string
  ru_each :: bool
  ru_test :: "string \<Rightarrow> bool"
  ru_refuse :: bool
  ru_message :: string

definition objectField :: "json \<Rightarrow> string \<Rightarrow> metadata" where
  "objectField source k = (case field source k of Some (JObj kvs) \<Rightarrow> kvs | _ \<Rightarrow> [])"

definition compilePattern :: "'w rest_host \<Rightarrow> string \<Rightarrow> string \<Rightarrow> string \<Rightarrow> string \<Rightarrow> exn + (string \<Rightarrow> bool)" where
  "compilePattern host kind operation fld source =
     (case rh_pattern host source of
        Inl m \<Rightarrow> Inl (Error (kind @ '' '' @ operation @ '': argument '' @ [CHR 0x22] @ fld @ [CHR 0x22] @ '' declares an invalid pattern: '' @ m))
      | Inr f \<Rightarrow> Inr f)"

fun schema_rules :: "'w rest_host \<Rightarrow> string \<Rightarrow> string \<Rightarrow> metadata \<Rightarrow> exn + ArgumentRule list" where
  "schema_rules host kind name [] = Inr []"
| "schema_rules host kind name ((fld, prop) # rest) =
     (if prop = JNull then Inl (Error ''Cannot read properties of null'') else
      let pat = as_string (field prop ''pattern'');
          item = as_string (map_of (objectField prop ''items'') ''pattern'') in
      case nullish_opt pat item of
        None \<Rightarrow> schema_rules host kind name rest
      | Some source \<Rightarrow>
          (case compilePattern host kind name fld source of
             Inl e \<Rightarrow> Inl e
           | Inr f \<Rightarrow> map_sum id (Cons \<lparr>ru_field = fld, ru_each = (pat = None), ru_test = f, ru_refuse = False,
                ru_message = ''must match '' @ source @ ''.'' @
                  (case as_string (field prop ''description'') of None \<Rightarrow> [] | Some d \<Rightarrow> CHR '' '' # d)\<rparr>)
              (schema_rules host kind name rest)))"

fun refusal_rules :: "'w rest_host \<Rightarrow> string \<Rightarrow> string \<Rightarrow> RestArgumentRefusal list \<Rightarrow> exn + ArgumentRule list" where
  "refusal_rules host kind name [] = Inr []"
| "refusal_rules host kind name (r # rs) =
     (case compilePattern host kind name (rf_field r) (rf_pattern r) of
        Inl e \<Rightarrow> Inl e
      | Inr f \<Rightarrow> map_sum id (Cons \<lparr>ru_field = rf_field r, ru_each = False, ru_test = f, ru_refuse = True, ru_message = rf_message r\<rparr>)
          (refusal_rules host kind name rs))"

definition compileArgumentRules :: "'w rest_host \<Rightarrow> string \<Rightarrow> RestOperationSpec \<Rightarrow> exn + ArgumentRule list" where
  "compileArgumentRules host kind oper =
     (case schema_rules host kind (op_name oper) (objectField (JObj (op_parameters oper)) ''properties'') of
        Inl e \<Rightarrow> Inl e
      | Inr rules \<Rightarrow> map_sum id ((@) rules) (refusal_rules host kind (op_name oper) (op_refuseArguments oper)))"

definition invalid_argument :: "string \<Rightarrow> string \<Rightarrow> string \<Rightarrow> string \<Rightarrow> string \<Rightarrow> exn" where
  "invalid_argument kind operation fld entry message =
     Error (kind @ '' '' @ operation @ '': invalid argument '' @ [CHR 0x22] @ fld @ [CHR 0x22] @ '' ('' @ quote (take 80 entry) @ ''): '' @ message)"

definition ruled_entries :: "ArgumentRule \<Rightarrow> metadata \<Rightarrow> (string \<times> json option) list" where
  "ruled_entries r args =
     (if ru_each r then (case map_of args (ru_field r) of
          Some (JArr xs) \<Rightarrow> map (\<lambda>i. (indexed (ru_field r) i, Some (xs ! i))) [0 ..< length xs]
        | _ \<Rightarrow> [])
      else [(ru_field r, map_of args (ru_field r))])"

definition broken_rule :: "ArgumentRule \<Rightarrow> string \<times> json option \<Rightarrow> bool" where
  "broken_rule r e = (case snd e of Some (JStr s) \<Rightarrow> ru_test r s = ru_refuse r | _ \<Rightarrow> False)"

fun checkArguments :: "string \<Rightarrow> string \<Rightarrow> ArgumentRule list \<Rightarrow> metadata \<Rightarrow> exn + unit" where
  "checkArguments kind operation [] args = Inr ()"
| "checkArguments kind operation (r # rs) args =
     (case find (broken_rule r) (ruled_entries r args) of
        Some (fld, Some (JStr s)) \<Rightarrow> Inl (invalid_argument kind operation fld s (ru_message r))
      | _ \<Rightarrow> checkArguments kind operation rs args)"

definition requiredArgsOf :: "metadata \<Rightarrow> string list" where
  "requiredArgsOf parameters = (case map_of parameters ''required'' of
     Some (JArr xs) \<Rightarrow> concat (map (\<lambda>x. case x of JStr s \<Rightarrow> [s] | _ \<Rightarrow> []) xs) | _ \<Rightarrow> [])"

section \<open>The base URL\<close>

definition isPublicIpv4 :: "string \<Rightarrow> bool" where
  "isPublicIpv4 hostname =
     (let part = (\<lambda>i. case nth_segment (split_on (CHR ''.'') hostname) i of None \<Rightarrow> 0
          | Some ds \<Rightarrow> foldl (\<lambda>n c. 10 * n + (code_of c - 48)) 0 ds); first = part 0; second = part 1 in
      if first = 0 \<or> first = 10 \<or> first = 127 \<or> first \<ge> 224 then False
      else if first = 100 \<and> second \<ge> 64 \<and> second \<le> 127 then False
      else if first = 169 \<and> second = 254 then False
      else if first = 172 \<and> second \<ge> 16 \<and> second \<le> 31 then False
      else if first = 192 \<and> (second = 0 \<or> second = 168) then False
      else if first = 198 \<and> (second = 18 \<or> second = 19) then False
      else True)"

definition starts_with :: "string \<Rightarrow> string \<Rightarrow> bool" where
  "starts_with s p \<longleftrightarrow> take (length p) s = p"

definition isPublicIpv6 :: "string \<Rightarrow> bool" where
  "isPublicIpv6 hostname =
     (let n = map to_lower hostname in
      \<not> (n = ''::'' \<or> n = ''::1'' \<or> starts_with n ''fc'' \<or> starts_with n ''fd'' \<or>
         list_ex (starts_with n) [''fe8'', ''fe9'', ''fea'', ''feb''] \<or> starts_with n ''ff'' \<or> starts_with n ''::ffff:''))"

definition unbracketed :: "string \<Rightarrow> string" where
  "unbracketed h =
     (let t = (if take 1 h = ''['' then drop 1 h else h) in if ends_with t '']'' then butlast t else t)"

definition isPublicHttpsUrl :: "'w rest_host \<Rightarrow> string \<Rightarrow> bool" where
  "isPublicHttpsUrl host v =
     (case rh_parse host v of
        None \<Rightarrow> False
      | Some u \<Rightarrow>
          if u_protocol u \<noteq> ''https:'' \<or> u_username u \<noteq> [] \<or> u_password u \<noteq> [] then False
          else let h = unbracketed (map to_lower (u_hostname u)) in
            if h = ''localhost'' \<or> list_ex (ends_with h) [''.localhost'', ''.local'', ''.internal'', ''.home.arpa''] then False
            else if rh_isIP host h = 4 then isPublicIpv4 h
            else if rh_isIP host h = 6 then isPublicIpv6 h
            else CHR ''.'' \<in> set h)"

definition hasHttpsHostnameSuffix :: "'w rest_host \<Rightarrow> string \<Rightarrow> string \<Rightarrow> bool" where
  "hasHttpsHostnameSuffix host v suffix =
     (case rh_parse host v of
        None \<Rightarrow> False
      | Some u \<Rightarrow> u_protocol u = ''https:'' \<and> u_username u = [] \<and> u_password u = [] \<and> u_port u = [] \<and> u_search u = [] \<and> u_hash u = [] \<and>
          take 1 suffix = ''.'' \<and> ends_with (map to_lower (u_hostname u)) (map to_lower suffix))"

definition sameUrl :: "'w rest_host \<Rightarrow> string \<Rightarrow> string \<Rightarrow> bool" where
  "sameUrl host left right =
     (case (rh_parse host left, rh_parse host right) of (Some l, Some r) \<Rightarrow> u_href l = u_href r | _ \<Rightarrow> False)"

definition chosen_base :: "rest_base \<Rightarrow> metadata \<Rightarrow> exn + string" where
  "chosen_base b m =
     (case b of
        FixedBase s \<Rightarrow> Inr s
      | MetadataBase k fallback \<Rightarrow> (case as_string (map_of m k) of
            Some v \<Rightarrow> if trim v \<noteq> [] then Inr v
              else if truthy fallback then Inr (the fallback) else Inl (Error (''missing metadata.'' @ k @ '' base URL''))
          | None \<Rightarrow> if truthy fallback then Inr (the fallback) else Inl (Error (''missing metadata.'' @ k @ '' base URL''))))"

definition resolveBaseUrl :: "'w rest_host \<Rightarrow> RestConnectorSpec \<Rightarrow> rest_base \<Rightarrow> metadata \<Rightarrow> exn + string" where
  "resolveBaseUrl host spec b m =
     (case chosen_base b m of
        Inl e \<Rightarrow> Inl e
      | Inr r \<Rightarrow>
          if (rc_allowedBaseUrls spec \<noteq> None \<or> rc_allowedBaseUrlSuffixes spec \<noteq> None) \<and>
             \<not> list_ex (\<lambda>u. sameUrl host u r) (nullish (rc_allowedBaseUrls spec) []) \<and>
             \<not> list_ex (hasHttpsHostnameSuffix host r) (nullish (rc_allowedBaseUrlSuffixes spec) [])
          then Inl (Error ''connection base URL is not an allowed provider endpoint'')
          else if rc_requirePublicHttpsBaseUrl spec \<and> \<not> isPublicHttpsUrl host r
          then Inl (Error ''connection base URL must be a public HTTPS endpoint'')
          else Inr r)"

section \<open>Credentials\<close>

definition credentialToken :: "ConnectorCredentials \<Rightarrow> exn + string" where
  "credentialToken cr =
     (case cr of
        OAuth2Credentials tok _ _ \<Rightarrow> if trim tok = [] then Inl (Error ''declarative REST connectors require a non-empty OAuth access token'') else Inr tok
      | ApiKeyCredentials k \<Rightarrow> if trim k = [] then Inl (Error ''declarative REST connectors require a non-empty API key'') else Inr k
      | CustomCredentials _ \<Rightarrow> Inl (Error ''declarative REST connectors require oauth2 or api-key credentials, got custom'')
      | HmacCredentials _ \<Rightarrow> Inl (Error ''declarative REST connectors require oauth2 or api-key credentials, got hmac'')
      | NoCredentials \<Rightarrow> Inl (Error ''declarative REST connectors require oauth2 or api-key credentials, got none''))"

definition structured_values :: "ConnectorCredentials \<Rightarrow> exn + metadata" where
  "structured_values cr =
     (case cr of
        CustomCredentials m \<Rightarrow> Inr m
      | ApiKeyCredentials k \<Rightarrow> (case JSON_parse k of Some (JObj m) \<Rightarrow> Inr m
          | _ \<Rightarrow> Inl (Error ''structured credentials require a JSON object in the api-key field''))
      | OAuth2Credentials _ _ _ \<Rightarrow> Inl (Error ''structured credentials require custom or api-key credentials, got oauth2'')
      | HmacCredentials _ \<Rightarrow> Inl (Error ''structured credentials require custom or api-key credentials, got hmac'')
      | NoCredentials \<Rightarrow> Inl (Error ''structured credentials require custom or api-key credentials, got none''))"

fun named_values :: "metadata \<Rightarrow> string list \<Rightarrow> exn + (string \<times> string) list" where
  "named_values m [] = Inr []"
| "named_values m (n # ns) =
     (case as_string (map_of m n) of
        Some v \<Rightarrow> if trim v = [] then Inl (Error (''structured credentials are missing '' @ n)) else map_sum id (Cons (n, v)) (named_values m ns)
      | None \<Rightarrow> Inl (Error (''structured credentials are missing '' @ n)))"

definition readStructuredCredentials :: "ConnectorCredentials \<Rightarrow> string list \<Rightarrow> exn + (string \<times> string) list" where
  "readStructuredCredentials cr names = (case structured_values cr of Inl e \<Rightarrow> Inl e | Inr m \<Rightarrow> named_values m names)"

definition structured_for :: "RestCredentialPlacement \<Rightarrow> ConnectorCredentials \<Rightarrow> exn + (string \<times> string) list" where
  "structured_for pl cr =
     (case pl of
        PlaceStructuredHeaders fs \<Rightarrow> readStructuredCredentials cr (map fst fs)
      | PlaceStructuredBody fs \<Rightarrow> readStructuredCredentials cr (map fst fs)
      | PlaceBasicStructured u p \<Rightarrow> readStructuredCredentials cr (unique [u, p])
      | _ \<Rightarrow> Inr [])"

type_synonym fields = "(string \<times> string) list"

definition basic :: "string \<Rightarrow> string" where
  "basic s = ''Basic '' @ base64_groups (utf8_bytes s)"

definition lay_over :: "fields \<Rightarrow> fields \<Rightarrow> fields" where
  "lay_over hs new = foldl (\<lambda>m (k, v). AList.update k v m) hs new"

text \<open>\<open>applyCredentials\<close>: the headers and the parameters of the URL.\<close>

definition applyCredentials :: "RestCredentialPlacement \<Rightarrow> ConnectorCredentials \<Rightarrow> fields \<times> fields \<Rightarrow> exn + fields \<times> fields" where
  "applyCredentials pl cr hp =
     (case hp of (hs, ps) \<Rightarrow>
      case credentialToken cr of
        Inl e \<Rightarrow> Inl e
      | Inr tok \<Rightarrow> Inr (case pl of
            PlaceBearer \<Rightarrow> (AList.update ''authorization'' (''Bearer '' @ tok) hs, ps)
          | PlaceByAuth oauth2Prefix apiKeyPrefix \<Rightarrow>
              (AList.update ''authorization'' ((case cr of OAuth2Credentials _ _ _ \<Rightarrow> nullish oauth2Prefix ''Bearer '' | _ \<Rightarrow> nullish apiKeyPrefix []) @ tok) hs, ps)
          | PlaceBasicApiKey \<Rightarrow> (AList.update ''authorization'' (basic (tok @ '':'')) hs, ps)
          | PlaceHeader h prefix suffix \<Rightarrow> (AList.update h (nullish prefix [] @ tok @ nullish suffix []) hs, ps)
          | PlaceQuery parameter \<Rightarrow> (hs, ps @ [(parameter, tok)])
          | _ \<Rightarrow> (hs, ps)))"

definition placeCredentials :: "RestCredentialPlacement \<Rightarrow> ConnectorCredentials \<Rightarrow> (string \<times> string) list \<Rightarrow> fields \<times> fields \<Rightarrow> exn + fields \<times> fields" where
  "placeCredentials pl cr structured hp =
     (case pl of
        PlaceBasicStructured u p \<Rightarrow>
          Inr (AList.update ''authorization'' (basic (the (map_of structured u) @ CHR '':'' # the (map_of structured p))) (fst hp), snd hp)
      | PlaceStructuredHeaders _ \<Rightarrow> Inr hp
      | PlaceStructuredBody _ \<Rightarrow> Inr hp
      | _ \<Rightarrow> applyCredentials pl cr hp)"

section \<open>The request\<close>

definition getHeaderCI :: "fields \<Rightarrow> string \<Rightarrow> string option" where
  "getHeaderCI hs name = map_option snd (find (\<lambda>h. map to_lower (fst h) = map to_lower name) hs)"

definition query_parameters :: "RestRequestSpec \<Rightarrow> json \<Rightarrow> fields" where
  "query_parameters req scope =
     concat (map (\<lambda>(k, v). case renderQueryValue v scope of
         None \<Rightarrow> [] | Some j \<Rightarrow> if j = JStr [] then [] else [(k, js_String j)]) (rs_query req))"

definition structured_headers :: "RestCredentialPlacement \<Rightarrow> fields \<Rightarrow> fields" where
  "structured_headers pl structured = (case pl of
     PlaceStructuredHeaders fs \<Rightarrow> map (\<lambda>(n, h). (h, the (map_of structured n))) fs | _ \<Rightarrow> [])"

definition request_headers :: "RestConnectorSpec \<Rightarrow> RestRequestSpec \<Rightarrow> json \<Rightarrow> string list \<Rightarrow> exn + fields" where
  "request_headers spec req scope required =
     (case renderHeaders (rc_defaultHeaders spec) scope True [] of
        Inl e \<Rightarrow> Inl e
      | Inr defaults \<Rightarrow> (case renderHeaders (rs_headers req) scope False required of
            Inl e \<Rightarrow> Inl e
          | Inr own \<Rightarrow>
              if list_ex (\<lambda>(_, v). trim v = []) (rc_credentialHeaders spec)
              then Inl (Error (rc_kind spec @ '': missing application credential header''))
              else Inr (lay_over (lay_over (lay_over [(''accept'', ''application/json'')] defaults) own) (rc_credentialHeaders spec))))"

definition sends_body :: "RestRequestSpec \<Rightarrow> bool" where
  "sends_body req \<longleftrightarrow> rs_verb req \<noteq> GET \<and> (rs_verb req \<noteq> DELETE \<or> rs_body req \<noteq> None)"

definition request_body :: "RestConnectorSpec \<Rightarrow> RestRequestSpec \<Rightarrow> RestCredentialPlacement \<Rightarrow> fields \<Rightarrow> metadata \<Rightarrow> json \<Rightarrow> string list \<Rightarrow>
    exn + string option" where
  "request_body spec req pl structured args scope required =
     (case (if sends_body req then map_sum id Some (resolveBody (rs_body req) args scope required) else Inr None) of
        Inl e \<Rightarrow> Inl e
      | Inr body \<Rightarrow>
          (case (case pl of
               PlaceStructuredBody fs \<Rightarrow> (case body of
                   Some (JObj kvs) \<Rightarrow> Inr (Some (JObj (spread kvs (map (\<lambda>(n, b). (b, JStr (the (map_of structured n)))) fs))))
                 | _ \<Rightarrow> Inl (Error (rc_kind spec @ '': structured JSON credentials require an object request body'')))
             | _ \<Rightarrow> Inr body) of
             Inl e \<Rightarrow> Inl e
           | Inr None \<Rightarrow> Inr None
           | Inr (Some j) \<Rightarrow>
               if sends_body req then map_sum id Some (serializeRequestBody (rc_kind spec) (nullish (rs_bodyEncoding req) encoding_json) j)
               else Inr None))"

definition with_content_type :: "RestRequestSpec \<Rightarrow> fields \<Rightarrow> fields" where
  "with_content_type req hs =
     (if sends_body req \<and> getHeaderCI hs ''content-type'' = None
      then AList.update ''content-type'' (if nullish (rs_bodyEncoding req) encoding_json = encoding_form
        then ''application/x-www-form-urlencoded'' else ''application/json'') hs
      else hs)"

definition rest_url_for :: "'w rest_host \<Rightarrow> RestConnectorSpec \<Rightarrow> RestRequestSpec \<Rightarrow> metadata \<Rightarrow> json \<Rightarrow> exn + rest_url" where
  "rest_url_for host spec req connection scope =
     (case resolveBaseUrl host spec (nullish (rs_baseUrl req) (rc_baseUrl spec)) connection of
        Inl e \<Rightarrow> Inl e
      | Inr base \<Rightarrow> (case renderPath (rs_path req) scope (rs_pathSegmentParameters req) of
            Inl e \<Rightarrow> Inl e
          | Inr p \<Rightarrow> (case rh_resolve host p (if ends_with base ''/'' then base else base @ ''/'') of
                None \<Rightarrow> Inl (Error ''Invalid URL'')
              | Some u \<Rightarrow> Inr u)))"

definition buildRequest :: "'w rest_host \<Rightarrow> RestConnectorSpec \<Rightarrow> RestRequestSpec \<Rightarrow> 'v ConnectorInvocation \<Rightarrow> string list \<Rightarrow> exn + rest_request" where
  "buildRequest host spec req call required =
     (let pl = nullish (rc_credentialPlacement spec) PlaceBearer; cr = ds_credentials (inv_source call);
          connection = ds_metadata (inv_source call); scope = renderScope [] (inv_args call) connection in
      case rest_url_for host spec req connection scope of
        Inl e \<Rightarrow> Inl e
      | Inr u \<Rightarrow> (case request_headers spec req scope required of
            Inl e \<Rightarrow> Inl e
          | Inr hs \<Rightarrow> (case structured_for pl cr of
                Inl e \<Rightarrow> Inl e
              | Inr structured \<Rightarrow>
                  (let hs1 = lay_over hs (structured_headers pl structured);
                       hs2 = (if truthy (inv_expectedEtag call) then AList.update ''if-match'' (the (inv_expectedEtag call)) hs1 else hs1);
                       hs3 = with_content_type req hs2 in
                   case request_body spec req pl structured (inv_args call) scope required of
                     Inl e \<Rightarrow> Inl e
                   | Inr content \<Rightarrow> (case placeCredentials pl cr structured (hs3, query_parameters req scope) of
                         Inl e \<Rightarrow> Inl e
                       | Inr (hs4, ps) \<Rightarrow> Inr \<lparr>rr_verb = rs_verb req, rr_url = u, rr_parameters = ps, rr_headers = hs4,
                            rr_content = content, rr_refuseRedirect = rs_refuseRedirect req\<rparr>)))))"

section \<open>Errors without secrets\<close>

text \<open>\<open>text.split(s).join(r)\<close> for a nonempty \<open>s\<close>.\<close>

function replace_all :: "string \<Rightarrow> string \<Rightarrow> string \<Rightarrow> string" where
  "replace_all s r [] = []"
| "replace_all s r (c # cs) =
     (if s \<noteq> [] \<and> starts_with (c # cs) s then r @ replace_all s r (drop (length s) (c # cs)) else c # replace_all s r cs)"
  by pat_completeness auto
termination
  by (relation "measure (\<lambda>(s, r, t). length t)") (auto simp: neq_Nil_conv)

text \<open>The values in \<open>oauth_consumer_key="..."\<close>, \<open>oauth_token\<close> and \<open>oauth_signature\<close>.\<close>

definition quoted_value :: "string \<Rightarrow> (string \<times> string) option" where
  "quoted_value s =
     (case filter (starts_with s) [''oauth_consumer_key='' @ [CHR 0x22], ''oauth_token='' @ [CHR 0x22], ''oauth_signature='' @ [CHR 0x22]] of
        p # _ \<Rightarrow> (case (takeWhile (\<lambda>c. c \<noteq> CHR 0x22) (drop (length p) s), dropWhile (\<lambda>c. c \<noteq> CHR 0x22) (drop (length p) s)) of
            (v, _ # rest) \<Rightarrow> if v \<noteq> [] then Some (v, rest) else None
          | _ \<Rightarrow> None)
      | [] \<Rightarrow> None)"

lemma quoted_value_length: "quoted_value s = Some (v, rest) \<Longrightarrow> length rest < length s"
proof -
  assume "quoted_value s = Some (v, rest)"
  then obtain n x where "dropWhile (\<lambda>c. c \<noteq> CHR 0x22) (drop n s) = x # rest"
    unfolding quoted_value_def by (auto split: list.splits if_splits prod.splits simp del: filter.simps)
  then have "length (x # rest) \<le> length (drop n s)" by (metis length_dropWhile_le)
  then show ?thesis by simp
qed

function oauth_values :: "string \<Rightarrow> string list" where
  "oauth_values [] = []"
| "oauth_values (c # cs) = (case quoted_value (c # cs) of Some (v, rest) \<Rightarrow> v # oauth_values rest | None \<Rightarrow> oauth_values cs)"
  by pat_completeness auto
termination
proof (relation "measure length")
  fix c :: char and cs x and v rest :: string
  assume "quoted_value (c # cs) = Some x" "(v, rest) = x"
  then show "(rest, c # cs) \<in> measure length" using quoted_value_length [of "c # cs"] by auto
qed auto

text \<open>\<open>/^(?:Basic|Bearer)\s+(.+)$/i\<close>, read as a bearer header.\<close>

definition scheme_credential :: "string \<Rightarrow> string option" where
  "scheme_credential s =
     (if map to_lower (take 5 s) = ''basic'' then extractBearer (Some (''Bearer'' @ drop 5 s)) else extractBearer (Some s))"

definition authorization_secrets :: "string \<Rightarrow> string list" where
  "authorization_secrets s =
     (if starts_with s ''OAuth '' then s # oauth_values s
      else case scheme_credential s of Some c \<Rightarrow> [s, c] | None \<Rightarrow> [s])"

definition jsonStringValues :: "string \<Rightarrow> string list" where
  "jsonStringValues v = (case JSON_parse v of
     Some (JObj m) \<Rightarrow> concat (map (\<lambda>(_, j). case j of JStr s \<Rightarrow> [s] | _ \<Rightarrow> []) m) | _ \<Rightarrow> [])"

definition credential_candidates :: "ConnectorCredentials \<Rightarrow> string list" where
  "credential_candidates cr =
     (case cr of
        OAuth2Credentials tok refresh _ \<Rightarrow> tok # (case refresh of Some r \<Rightarrow> [r] | None \<Rightarrow> [])
      | ApiKeyCredentials k \<Rightarrow> k # jsonStringValues k
      | CustomCredentials m \<Rightarrow> concat (map (\<lambda>(_, j). case j of JStr s \<Rightarrow> [s] | _ \<Rightarrow> []) m)
      | _ \<Rightarrow> [])"

definition secrets_of :: "ConnectorCredentials \<Rightarrow> string option list \<Rightarrow> string list" where
  "secrets_of cr additional =
     sort_key (\<lambda>s. - int (length s)) (unique (concat (map (\<lambda>s. [s, encodeURIComponent s])
       (filter (\<lambda>s. s \<noteq> []) (credential_candidates cr @
          concat (map (\<lambda>a. case a of Some s \<Rightarrow> authorization_secrets s | None \<Rightarrow> []) additional))))))"

definition redactCredentialText :: "string \<Rightarrow> ConnectorCredentials \<Rightarrow> string option list \<Rightarrow> string" where
  "redactCredentialText t cr additional = foldl (\<lambda>r s. replace_all s ''[REDACTED]'' r) t (secrets_of cr additional)"


section \<open>The answer\<close>

datatype rest_outcome = OutcomeConflict | OutcomeRateLimited

record RestTransportResponse =
  rt_data :: json
  rt_etag :: "string option"
  rt_outcome :: "rest_outcome option"
  rt_status :: "nat option"
  rt_message :: "string option"
  rt_retryAfterMs :: "int option"

definition transported :: "json \<Rightarrow> string option \<Rightarrow> RestTransportResponse" where
  "transported d etag = \<lparr>rt_data = d, rt_etag = etag, rt_outcome = None, rt_status = None, rt_message = None, rt_retryAfterMs = None\<rparr>"

definition DEFAULT_RETRY_AFTER_MS :: int where
  "DEFAULT_RETRY_AFTER_MS = 60000"

definition MIN_RETRY_AFTER_MS :: int where
  "MIN_RETRY_AFTER_MS = 1000"

definition parseBodyText :: "string \<Rightarrow> json" where
  "parseBodyText s = (if s = [] then JNull else case JSON_parse s of Some j \<Rightarrow> j | None \<Rightarrow> JObj [(''raw'', JStr s)])"

definition retryAfterMsFromHeader :: "'w rest_host \<Rightarrow> string option \<Rightarrow> ('w, exn, int) io" where
  "retryAfterMsFromHeader host raw =
     (case raw of
        None \<Rightarrow> ret DEFAULT_RETRY_AFTER_MS
      | Some t \<Rightarrow>
          if trim t = [] then ret DEFAULT_RETRY_AFTER_MS
          else (case rh_secondsToMs host t of
              Some ms \<Rightarrow> ret (max MIN_RETRY_AFTER_MS ms)
            | None \<Rightarrow> (case rh_Date_parse host t of
                Some at \<Rightarrow> andThen (rh_now host) (\<lambda>n. ret (max MIN_RETRY_AFTER_MS (at - n)))
              | None \<Rightarrow> ret DEFAULT_RETRY_AFTER_MS)))"

text \<open>Reading the body, within the operation's budget when it has one: the declared length first, then chunk by
  chunk.\<close>

definition too_large :: "nat \<Rightarrow> exn" where
  "too_large maximum = Error (''provider response exceeds '' @ decimal maximum @ '' byte limit'')"

fun collect_chunks :: "nat \<Rightarrow> nat \<Rightarrow> byte list list \<Rightarrow> exn + byte list" where
  "collect_chunks maximum got [] = Inr []"
| "collect_chunks maximum got (b # bs) =
     (if got + length b > maximum then Inl (too_large maximum)
      else map_sum id ((@) b) (collect_chunks maximum (got + length b) bs))"

definition readBoundedResponse :: "'w rest_host \<Rightarrow> rest_response \<Rightarrow> nat \<Rightarrow> exn + byte list" where
  "readBoundedResponse host rp maximum =
     (if maximum < 1 then Inl (Error ''invalid response byte limit'')
      else if (case map_of (rp_headers rp) ''content-length'' of None \<Rightarrow> False
          | Some d \<Rightarrow> (case rh_secondsToMs host d of Some n \<Rightarrow> n > 1000 * int maximum | None \<Rightarrow> False))
      then Inl (too_large maximum)
      else (case rp_body rp of Inl e \<Rightarrow> Inl e | Inr chunks \<Rightarrow> collect_chunks maximum 0 chunks))"

definition response_ok :: "rest_response \<Rightarrow> bool" where
  "response_ok rp \<longleftrightarrow> 200 \<le> rp_status rp \<and> rp_status rp \<le> 299"

definition response_text :: "'w rest_host \<Rightarrow> rest_response \<Rightarrow> byte list option \<Rightarrow> exn + string" where
  "response_text host rp bounded =
     (case bounded of
        Some bs \<Rightarrow> Inr (rh_bufferText host bs)
      | None \<Rightarrow> map_sum id (\<lambda>chunks. rh_responseText host (concat chunks)) (rp_body rp))"

definition error_text :: "'w rest_host \<Rightarrow> rest_response \<Rightarrow> byte list option \<Rightarrow> string" where
  "error_text host rp bounded =
     (case bounded of
        Some bs \<Rightarrow> rh_bufferText host bs
      | None \<Rightarrow> (case response_text host rp None of Inl _ \<Rightarrow> rp_statusText rp | Inr t \<Rightarrow> if t = [] then rp_statusText rp else t))"

fun verb_name :: "http_verb \<Rightarrow> string" where
  "verb_name GET = ''GET''"
| "verb_name POST = ''POST''"
| "verb_name PUT = ''PUT''"
| "verb_name PATCH = ''PATCH''"
| "verb_name DELETE = ''DELETE''"

definition header_missing :: "RestConnectorSpec \<Rightarrow> RestRequestSpec \<Rightarrow> rest_request \<Rightarrow> string \<Rightarrow> exn" where
  "header_missing spec req rq h =
     Error (rc_kind spec @ '' '' @ verb_name (rs_verb req) @ '' '' @ u_pathname (rr_url rq) @ '' response missing '' @ h @ '' header'')"

definition successful :: "'w rest_host \<Rightarrow> RestConnectorSpec \<Rightarrow> RestRequestSpec \<Rightarrow> rest_request \<Rightarrow> rest_response \<Rightarrow> byte list option \<Rightarrow>
    exn + RestTransportResponse" where
  "successful host spec req rq rp bounded =
     (let etag = map_of (rp_headers rp) ''etag'' in
      if rs_base64 req then
        (case (case bounded of Some bs \<Rightarrow> Inr bs | None \<Rightarrow> map_sum id concat (rp_body rp)) of
           Inl e \<Rightarrow> Inl e
         | Inr bs \<Rightarrow> Inr (transported (JObj ([(''base64'', JStr (base64_groups bs))] @ opt_str ''contentType'' (map_of (rp_headers rp) ''content-type''))) etag))
      else (case response_text host rp bounded of
          Inl e \<Rightarrow> Inl e
        | Inr t \<Rightarrow> (case rs_resultFromHeader req of
              None \<Rightarrow> Inr (transported (parseBodyText t) etag)
            | Some (h, fld) \<Rightarrow> (case map_of (rp_headers rp) (map to_lower h) of
                  Some v \<Rightarrow> if v = [] then Inl (header_missing spec req rq h)
                    else Inr (transported (JObj [(fld, JStr v)]) etag)
                | None \<Rightarrow> Inl (header_missing spec req rq h)))))"

definition redacted_error :: "'w rest_host \<Rightarrow> RestConnectorSpec \<Rightarrow> ConnectorCredentials \<Rightarrow> rest_request \<Rightarrow> rest_response \<Rightarrow> byte list option \<Rightarrow> string" where
  "redacted_error host spec cr rq rp bounded =
     redactCredentialText (error_text host rp bounded) cr (getHeaderCI (rr_headers rq) ''authorization'' # map (\<lambda>h. Some (snd h)) (rc_credentialHeaders spec))"

text \<open>The branches of \<open>executeRestRequest\<close> behind \<open>fetch\<close>.\<close>

definition readAnswer :: "'w rest_host \<Rightarrow> RestConnectorSpec \<Rightarrow> RestRequestSpec \<Rightarrow> ConnectorCredentials \<Rightarrow> string \<Rightarrow> rest_request \<Rightarrow> rest_response \<Rightarrow>
    ('w, exn, RestTransportResponse) io" where
  "readAnswer host spec req cr sourceId rq rp =
     andThen (liftE (case rs_maxResponseBytes req of None \<Rightarrow> Inr None | Some n \<Rightarrow> map_sum id Some (readBoundedResponse host rp n))) (\<lambda>bounded.
     if rp_status rp \<in> set (nullish (rc_credentialsExpiredStatuses spec) [401, 403])
     then throw (Error (rc_displayName spec @ '' rejected credentials ('' @ decimal (rp_status rp) @ '')''))
     else if rp_status rp = 409 \<or> rp_status rp = 412 then
       (let m = redacted_error host spec cr rq rp bounded in
        ret \<lparr>rt_data = parseBodyText m, rt_etag = map_of (rp_headers rp) ''etag'', rt_outcome = Some OutcomeConflict,
             rt_status = Some (rp_status rp), rt_message = Some m, rt_retryAfterMs = None\<rparr>)
     else if rp_status rp = 429 then
       (let m = redacted_error host spec cr rq rp bounded in
        andThen (retryAfterMsFromHeader host (map_of (rp_headers rp) ''retry-after'')) (\<lambda>ms.
        ret \<lparr>rt_data = parseBodyText m, rt_etag = None, rt_outcome = Some OutcomeRateLimited,
             rt_status = Some 429, rt_message = Some m, rt_retryAfterMs = Some ms\<rparr>))
     else if rs_existenceCheck req \<and> (rp_status rp = 204 \<or> rp_status rp = 404)
     then ret (transported (JObj [(''exists'', JBool (rp_status rp = 204))]) None)
     else if \<not> response_ok rp
     then throw (Error (rc_kind spec @ '' '' @ verb_name (rs_verb req) @ '' '' @ u_pathname (rr_url rq) @ '' HTTP '' @ decimal (rp_status rp) @ '': '' @
       take 300 (redacted_error host spec cr rq rp bounded)))
     else liftE (successful host spec req rq rp bounded))"

definition executeRestRequest :: "'w rest_host \<Rightarrow> RestConnectorSpec \<Rightarrow> RestRequestSpec \<Rightarrow> 'v ConnectorInvocation \<Rightarrow> string list \<Rightarrow>
    ('w, exn, RestTransportResponse) io" where
  "executeRestRequest host spec req call required =
     andThen (liftE (buildRequest host spec req call required)) (\<lambda>rq.
     andThen (rh_fetch host rq) (\<lambda>rp.
     readAnswer host spec req (ds_credentials (inv_source call)) (ds_id (inv_source call)) rq rp))"

definition nonempty_or :: "string option \<Rightarrow> string \<Rightarrow> string" where
  "nonempty_or m d = (if truthy m then the m else d)"

definition mutationResultFromTransport :: "'w rest_host \<Rightarrow> string \<Rightarrow> RestTransportResponse \<Rightarrow> ('w, exn, CapabilityMutationResult) io" where
  "mutationResultFromTransport host displayName r =
     (case rt_outcome r of
        Some OutcomeConflict \<Rightarrow> ret (Conflict [] (Some (rt_data r)) (nonempty_or (rt_message r) (displayName @ '' rejected the write on a state conflict'')))
      | Some OutcomeRateLimited \<Rightarrow> ret (RateLimited (nullish (rt_retryAfterMs r) DEFAULT_RETRY_AFTER_MS) (nonempty_or (rt_message r) (displayName @ '' throttled the write'')))
      | None \<Rightarrow> andThen (rh_now host) (\<lambda>n. ret (Committed (rt_data r) (rt_etag r) n False)))"

section \<open>The adapter\<close>

definition readFailure :: "RestConnectorSpec \<Rightarrow> RestOperationSpec \<Rightarrow> RestTransportResponse \<Rightarrow> string option" where
  "readFailure spec oper r =
     (case rt_outcome r of
        Some OutcomeRateLimited \<Rightarrow> Some (rc_displayName spec @ '' '' @ op_name oper @ '' rate limit (429); retry after '' @
          int_text (nullish (rt_retryAfterMs r) DEFAULT_RETRY_AFTER_MS) @ ''ms'')
      | Some OutcomeConflict \<Rightarrow> Some (rc_kind spec @ '' '' @ verb_name (rs_verb (op_request oper)) @ '' '' @ rs_path (op_request oper) @ '' HTTP '' @
          decimal (nullish (rt_status r) 409) @ '': '' @ take 300 (nullish (rt_message r) []))
      | None \<Rightarrow> None)"

definition restRead :: "'w rest_host \<Rightarrow> RestConnectorSpec \<Rightarrow> (string \<Rightarrow> ArgumentRule list) \<Rightarrow> 'v ConnectorInvocation \<Rightarrow> ('w, exn, CapabilityReadResult) io" where
  "restRead host spec rules call =
     andThen (liftE (readOperation spec (inv_capabilityName call) OperationRead)) (\<lambda>oper.
     andThen (liftE (checkArguments (rc_kind spec) (op_name oper) (rules (op_name oper)) (inv_args call))) (\<lambda>_.
     andThen (executeRestRequest host spec (op_request oper) call (requiredArgsOf (op_parameters oper))) (\<lambda>r.
     case readFailure spec oper r of
       Some m \<Rightarrow> throw (Error m)
     | None \<Rightarrow> andThen (rh_now host) (\<lambda>n. ret \<lparr>rr_data = rt_data r, rr_etag = rt_etag r, rr_fetchedAt = n\<rparr>))))"

definition mutation_request :: "RestConnectorSpec \<Rightarrow> RestOperationSpec \<Rightarrow> string \<Rightarrow> RestRequestSpec" where
  "mutation_request spec oper key =
     (if truthy (rc_idempotencyHeader spec) \<and> nullish (op_cas oper) native_idempotency = native_idempotency
      then (op_request oper)\<lparr>rs_headers := AList.update (the (rc_idempotencyHeader spec)) key (rs_headers (op_request oper))\<rparr>
      else op_request oper)"

definition restMutation :: "'w rest_host \<Rightarrow> RestConnectorSpec \<Rightarrow> (string \<Rightarrow> ArgumentRule list) \<Rightarrow> 'v ConnectorInvocation \<Rightarrow>
    ('w, exn, CapabilityMutationResult) io" where
  "restMutation host spec rules call =
     andThen (liftE (readOperation spec (inv_capabilityName call) OperationMutation)) (\<lambda>oper.
     andThen (liftE (checkArguments (rc_kind spec) (op_name oper) (rules (op_name oper)) (inv_args call))) (\<lambda>_.
     andThen (executeRestRequest host spec (mutation_request spec oper (inv_idempotencyKey call)) call (requiredArgsOf (op_parameters oper)))
       (mutationResultFromTransport host (rc_displayName spec))))"


definition json_equal :: "json option \<Rightarrow> json \<Rightarrow> bool" where
  "json_equal a b \<longleftrightarrow> (case a of None \<Rightarrow> False | Some j \<Rightarrow> j = b \<or> stringify j = stringify b)"

definition formatValue :: "json option \<Rightarrow> string" where
  "formatValue v = (case v of None \<Rightarrow> ''undefined'' | Some j \<Rightarrow> stringify j)"

definition validateTestResponse :: "RestConnectorSpec \<Rightarrow> (string \<times> json) list \<Rightarrow> json \<Rightarrow> exn + unit" where
  "validateTestResponse spec expectations d =
     (case find (\<lambda>(p, j). \<not> json_equal (readPath d p) j) expectations of
        None \<Rightarrow> Inr ()
      | Some (p, j) \<Rightarrow> Inl (Error (rc_displayName spec @ '' test response expected '' @ p @ CHR ''='' # stringify j @ '', got '' @ formatValue (readPath d p))))"

fun outcome_text :: "rest_outcome \<Rightarrow> string" where
  "outcome_text OutcomeConflict = ''conflict''"
| "outcome_text OutcomeRateLimited = ''rate-limited''"

fun test_reason :: "exn \<Rightarrow> string" where
  "test_reason (Thrown _) = ''unknown error''"
| "test_reason e = errMessage e"

definition restTest :: "'w rest_host \<Rightarrow> RestConnectorSpec \<Rightarrow> ResolvedDataSource \<Rightarrow> ('w, exn, test_result) io" where
  "restTest host spec source =
     (case rc_test spec of
        None \<Rightarrow> ret TestOk
      | Some (req, expectations) \<Rightarrow>
          tryCatch
            (andThen (executeRestRequest host spec req
                \<lparr>inv_source = source, inv_capabilityName = ''__test__'', inv_args = [], inv_idempotencyKey = ''test'', inv_expectedEtag = None,
                 inv_callSessionId = None, inv_onCredentialsRotated = (None :: (ConnectorCredentials \<Rightarrow> ('w, exn, unit) io) option)\<rparr> []) (\<lambda>r.
             case rt_outcome r of
               Some x \<Rightarrow> ret (TestFailed (rc_displayName spec @ '' test HTTP '' @ decimal (nullish (rt_status r) 0) @ '': '' @ nonempty_or (rt_message r) (outcome_text x)))
             | None \<Rightarrow> andThen (liftE (validateTestResponse spec expectations (rt_data r))) (\<lambda>_. ret TestOk)))
            (\<lambda>e. ret (TestFailed (test_reason e))))"

fun compile_all :: "'w rest_host \<Rightarrow> string \<Rightarrow> RestOperationSpec list \<Rightarrow> exn + (string \<times> ArgumentRule list) list" where
  "compile_all host kind [] = Inr []"
| "compile_all host kind (oper # opers) =
     (case compileArgumentRules host kind oper of
        Inl e \<Rightarrow> Inl e
      | Inr rules \<Rightarrow> map_sum id (Cons (op_name oper, rules)) (compile_all host kind opers))"

definition rules_named :: "(string \<times> ArgumentRule list) list \<Rightarrow> string \<Rightarrow> ArgumentRule list" where
  "rules_named compiled name = nullish (map_of (rev compiled) name) []"

definition rest_manifest :: "RestConnectorSpec \<Rightarrow> ConnectorManifest" where
  "rest_manifest spec =
     \<lparr>mf_kind = rc_kind spec, mf_displayName = rc_displayName spec, mf_description = rc_description spec, mf_auth = rc_auth spec,
      mf_capabilities = map operationToCapability (rc_capabilities spec), mf_defaultConsistencyModel = rc_defaultConsistencyModel spec,
      mf_category = rc_category spec, mf_icon = None, mf_rateLimit = None\<rparr>"

definition declarativeRestConnector :: "'w rest_host \<Rightarrow> RestConnectorSpec \<Rightarrow> exn + 'w ConnectorAdapter" where
  "declarativeRestConnector host spec =
     (case compile_all host (rc_kind spec) (rc_capabilities spec) of
        Inl e \<Rightarrow> Inl e
      | Inr compiled \<Rightarrow> Inr
          \<lparr>ad_manifest = rest_manifest spec, ad_validateConnectionMetadata = None, ad_inboundOnly = None, ad_catalogOnly = None,
           ad_executeRead = Some (restRead host spec (rules_named compiled)), ad_executeMutation = Some (restMutation host spec (rules_named compiled)),
           ad_verifySignature = None, ad_handleInboundEvent = None, ad_exchangeOAuth = None, ad_refreshToken = None,
           ad_test = (\<lambda>source _. restTest host spec source)\<rparr>)"


section \<open>What the answers are taken for\<close>

lemma retry_floor:
  assumes "retryAfterMsFromHeader host raw w = (Inr ms, w')"
  shows "1000 \<le> ms"
  using assms
  by (auto simp: retryAfterMsFromHeader_def io_defs DEFAULT_RETRY_AFTER_MS_def MIN_RETRY_AFTER_MS_def split: option.splits if_splits sum.splits prod.splits)

lemma successful_outcome: "successful host spec req rq rp bounded = Inr t \<Longrightarrow> rt_outcome t = None"
  by (auto simp: successful_def transported_def Let_def split: if_splits sum.splits option.splits prod.splits)

definition taken_for :: "RestConnectorSpec \<Rightarrow> RestRequestSpec \<Rightarrow> rest_response \<Rightarrow> RestTransportResponse \<Rightarrow> bool" where
  "taken_for spec req rp t \<longleftrightarrow> rp_status rp \<notin> set (nullish (rc_credentialsExpiredStatuses spec) [401, 403]) \<and>
     (case rt_outcome t of
        None \<Rightarrow> response_ok rp \<or> rs_existenceCheck req \<and> rp_status rp = 404
      | Some OutcomeConflict \<Rightarrow> rp_status rp \<in> {409, 412}
      | Some OutcomeRateLimited \<Rightarrow> rp_status rp = 429 \<and> 1000 \<le> nullish (rt_retryAfterMs t) DEFAULT_RETRY_AFTER_MS)"

lemma then_run:
  assumes "andThen m k w = (Inr x, w')"
  obtains y w1 where "m w = (Inr y, w1)" "k y w1 = (Inr x, w')"
proof (cases "m w")
  case (Pair r w1)
  with assms that show thesis by (cases r) (auto simp: andThen_def)
qed

lemma lift_run: "liftE r w = (Inr x, w') \<Longrightarrow> r = Inr x \<and> w' = w"
  by (auto simp: liftE_def)

lemma ret_run: "ret y w = (Inr x, w') \<Longrightarrow> y = x \<and> w' = w"
  by (auto simp: ret_def)

lemma throw_run: "throw e w \<noteq> (Inr x, w')"
  by (auto simp: throw_def)

lemma answer_taken:
  assumes "readAnswer host spec req cr sid rq rp w = (Inr t, w')"
  shows "taken_for spec req rp t"
proof -
  let ?expired = "rp_status rp \<in> set (nullish (rc_credentialsExpiredStatuses spec) [401, 403])"
  obtain bounded where b: "(case rs_maxResponseBytes req of None \<Rightarrow> Inr None | Some n \<Rightarrow> map_sum id Some (readBoundedResponse host rp n)) = Inr bounded"
    using assms unfolding readAnswer_def by (elim then_run) (auto dest: lift_run)
  note run = assms [unfolded readAnswer_def b liftE_bind Let_def]
  have e: "\<not> ?expired" using run by (auto simp: throw_def)
  consider "rp_status rp \<in> {409, 412}" | "rp_status rp = 429" | "rp_status rp \<notin> {409, 412, 429}" by blast
  then show ?thesis
  proof cases
    case 1
    with run e show ?thesis by (auto simp: taken_for_def ret_def)
  next
    case 2
    with run e obtain ms w1 where "retryAfterMsFromHeader host (map_of (rp_headers rp) ''retry-after'') w = (Inr ms, w1)" "rt_retryAfterMs t = Some ms"
      "rt_outcome t = Some OutcomeRateLimited"
      by (auto elim!: then_run dest!: ret_run)
    with retry_floor 2 e show ?thesis by (auto simp: taken_for_def nullish_def)
  next
    case 3
    then have run3: "(if rs_existenceCheck req \<and> (rp_status rp = 204 \<or> rp_status rp = 404)
         then ret (transported (JObj [(''exists'', JBool (rp_status rp = 204))]) None)
       else if \<not> response_ok rp
         then throw (Error (rc_kind spec @ '' '' @ verb_name (rs_verb req) @ '' '' @ u_pathname (rr_url rq) @ '' HTTP '' @ decimal (rp_status rp) @ '': '' @
           take 300 (redacted_error host spec cr rq rp bounded)))
       else liftE (successful host spec req rq rp bounded)) w = (Inr t, w')"
      using run e by simp
    show ?thesis
    proof (cases "rs_existenceCheck req \<and> (rp_status rp = 204 \<or> rp_status rp = 404)")
      case True
      with run3 have "rt_outcome t = None" by (auto simp: ret_def transported_def)
      with True e show ?thesis by (auto simp: taken_for_def response_ok_def)
    next
      case False
      with run3 have "response_ok rp" "successful host spec req rq rp bounded = Inr t" by (auto simp: throw_def liftE_def split: if_splits)
      with successful_outcome [OF this(2)] e show ?thesis by (simp add: taken_for_def)
    qed
  qed
qed

lemma executed:
  assumes "executeRestRequest host spec req call required w = (Inr t, w')"
  obtains rq rp w1 where "buildRequest host spec req call required = Inr rq" "rh_fetch host rq w = (Inr rp, w1)" "taken_for spec req rp t"
  using assms unfolding executeRestRequest_def by (elim then_run) (blast dest: lift_run answer_taken)

lemma read_run:
  assumes "restRead host spec rules call w = (Inr r, w')"
  obtains oper t w1 where "readOperation spec (inv_capabilityName call) OperationRead = Inr oper"
    "executeRestRequest host spec (op_request oper) call (requiredArgsOf (op_parameters oper)) w = (Inr t, w1)"
    "rt_outcome t = None" "rr_data r = rt_data t"
proof -
  from assms obtain oper t w1 where o: "readOperation spec (inv_capabilityName call) OperationRead = Inr oper"
    "executeRestRequest host spec (op_request oper) call (requiredArgsOf (op_parameters oper)) w = (Inr t, w1)"
    and r: "(case readFailure spec oper t of Some m \<Rightarrow> throw (Error m)
     | None \<Rightarrow> andThen (rh_now host) (\<lambda>n. ret \<lparr>rr_data = rt_data t, rr_etag = rt_etag t, rr_fetchedAt = n\<rparr>)) w1 = (Inr r, w')"
    unfolding restRead_def by (elim then_run) (blast dest: lift_run)
  from r have none: "readFailure spec oper t = None" by (cases "readFailure spec oper t") (auto simp: throw_run)
  with r have "rr_data r = rt_data t" by (auto elim!: then_run dest!: ret_run)
  moreover have "rt_outcome t = None" using none by (auto simp: readFailure_def split: option.splits rest_outcome.splits)
  ultimately show thesis using o that by blast
qed

lemma mutation_run:
  assumes "restMutation host spec rules call w = (Inr res, w')"
  obtains oper t w1 where "readOperation spec (inv_capabilityName call) OperationMutation = Inr oper"
    "executeRestRequest host spec (mutation_request spec oper (inv_idempotencyKey call)) call (requiredArgsOf (op_parameters oper)) w = (Inr t, w1)"
    "mutationResultFromTransport host (rc_displayName spec) t w1 = (Inr res, w')"
  using assms unfolding restMutation_def by (elim then_run) (blast dest: lift_run)

lemma reported:
  assumes "mutationResultFromTransport host name t w = (Inr res, w')"
  shows "case res of Committed d etag at replay \<Rightarrow> rt_outcome t = None
    | Conflict alternatives current m \<Rightarrow> rt_outcome t = Some OutcomeConflict
    | RateLimited ms m \<Rightarrow> rt_outcome t = Some OutcomeRateLimited \<and> ms = nullish (rt_retryAfterMs t) DEFAULT_RETRY_AFTER_MS"
proof (cases "rt_outcome t")
  case None
  with assms show ?thesis by (auto simp: mutationResultFromTransport_def elim!: then_run dest!: ret_run)
next
  case (Some x)
  with assms show ?thesis by (cases x) (auto simp: mutationResultFromTransport_def dest!: ret_run)
qed

lemma judged:
  assumes "mutationResultFromTransport host name t w = (Inr res, w')" and taken: "taken_for spec req rp t"
  shows "rp_status rp \<notin> set (nullish (rc_credentialsExpiredStatuses spec) [401, 403])"
    and "case res of Committed d etag at replay \<Rightarrow> response_ok rp \<or> rs_existenceCheck req \<and> rp_status rp = 404
    | Conflict alternatives current m \<Rightarrow> rp_status rp \<in> {409, 412}
    | RateLimited ms m \<Rightarrow> rp_status rp = 429 \<and> 1000 \<le> ms"
proof -
  show "rp_status rp \<notin> set (nullish (rc_credentialsExpiredStatuses spec) [401, 403])" using taken by (simp add: taken_for_def)
  show "case res of Committed d etag at replay \<Rightarrow> response_ok rp \<or> rs_existenceCheck req \<and> rp_status rp = 404
    | Conflict alternatives current m \<Rightarrow> rp_status rp \<in> {409, 412}
    | RateLimited ms m \<Rightarrow> rp_status rp = 429 \<and> 1000 \<le> ms"
  proof (cases res)
    case Committed
    with reported [OF assms(1)] taken show ?thesis by (simp add: taken_for_def)
  next
    case Conflict
    with reported [OF assms(1)] taken show ?thesis by (simp add: taken_for_def)
  next
    case RateLimited
    with reported [OF assms(1)] taken show ?thesis by (simp add: taken_for_def)
  qed
qed

lemma existence_kept: "rs_existenceCheck (mutation_request spec oper key) = rs_existenceCheck (op_request oper)"
  by (simp add: mutation_request_def)

text \<open>C32. Only an answer of success counts: a mutation is reported as committed, and a read returns data, only when the
  provider answered the request that was built with a status of success (or with 404 to a probe for existence);
  409 and 412 are conflicts and 429 is a throttle with a wait of at least a second.\<close>

theorem only_success_is_committed:
  assumes "restMutation host spec rules call w = (Inr res, w')"
  shows "\<exists>oper rq rp w1. readOperation spec (inv_capabilityName call) OperationMutation = Inr oper \<and>
     buildRequest host spec (mutation_request spec oper (inv_idempotencyKey call)) call (requiredArgsOf (op_parameters oper)) = Inr rq \<and>
     rh_fetch host rq w = (Inr rp, w1) \<and> rp_status rp \<notin> set (nullish (rc_credentialsExpiredStatuses spec) [401, 403]) \<and>
     (case res of
        Committed d etag at replay \<Rightarrow> response_ok rp \<or> rs_existenceCheck (op_request oper) \<and> rp_status rp = 404
      | Conflict alternatives current m \<Rightarrow> rp_status rp \<in> {409, 412}
      | RateLimited ms m \<Rightarrow> rp_status rp = 429 \<and> 1000 \<le> ms)"
proof -
  from mutation_run [OF assms] obtain oper t w1 where o: "readOperation spec (inv_capabilityName call) OperationMutation = Inr oper"
    "executeRestRequest host spec (mutation_request spec oper (inv_idempotencyKey call)) call (requiredArgsOf (op_parameters oper)) w = (Inr t, w1)"
    "mutationResultFromTransport host (rc_displayName spec) t w1 = (Inr res, w')" by blast
  from executed [OF o(2)] obtain rq rp w2 where r:
    "buildRequest host spec (mutation_request spec oper (inv_idempotencyKey call)) call (requiredArgsOf (op_parameters oper)) = Inr rq"
    "rh_fetch host rq w = (Inr rp, w2)" "taken_for spec (mutation_request spec oper (inv_idempotencyKey call)) rp t" by blast
  show ?thesis by (intro exI conjI) (fact o(1), fact r(1), fact r(2), fact judged(1) [OF o(3) r(3)], fact judged(2) [OF o(3) r(3), unfolded existence_kept])
qed

definition tea_url :: rest_url where
  "tea_url = \<lparr>u_protocol = ''https:'', u_username = [], u_password = [], u_hostname = ''api.tea.example'', u_port = [], u_pathname = ''/orders'',
     u_search = [], u_hash = [], u_href = ''https://api.tea.example/orders''\<rparr>"

definition tea_host :: "unit rest_host" where
  "tea_host = \<lparr>rh_parse = (\<lambda>s. Some tea_url), rh_resolve = (\<lambda>p b. Some tea_url), rh_isIP = (\<lambda>s. 0), rh_pattern = (\<lambda>s. Inr (\<lambda>x. True)),
     rh_fetch = (\<lambda>rq. ret \<lparr>rp_status = 201, rp_statusText = ''Created'', rp_headers = [(''etag'', ''7'')], rp_body = Inr []\<rparr>),
     rh_responseText = map (\<lambda>b. char_of (unat b)), rh_bufferText = map (\<lambda>b. char_of (unat b)), rh_secondsToMs = (\<lambda>s. None), rh_Date_parse = (\<lambda>s. None), rh_now = ret 5\<rparr>"

definition tea_order :: RestOperationSpec where
  "tea_order = \<lparr>op_name = ''orders.create'', op_class = OperationMutation, op_description = [], op_parameters = [], op_requiredScopes = None,
     op_request = \<lparr>rs_verb = POST, rs_path = ''/orders'', rs_baseUrl = None, rs_refuseRedirect = False, rs_pathSegmentParameters = [], rs_query = [],
       rs_headers = [], rs_body = None, rs_bodyEncoding = None, rs_existenceCheck = False, rs_resultFromHeader = None, rs_base64 = False,
       rs_maxResponseBytes = None\<rparr>,
     op_cas = None, op_externalEffect = None, op_inputPreview = None, op_refuseArguments = []\<rparr>"

definition tea_spec :: RestConnectorSpec where
  "tea_spec = \<lparr>rc_kind = ''tea'', rc_displayName = ''Tea'', rc_description = [], rc_auth = SingleAuth (ApiKeyAuth ''key''), rc_category = ''other'',
     rc_defaultConsistencyModel = ''cache'', rc_baseUrl = FixedBase ''https://api.tea.example'', rc_allowedBaseUrls = Some [''https://api.tea.example''],
     rc_allowedBaseUrlSuffixes = None, rc_requirePublicHttpsBaseUrl = True, rc_credentialsExpiredStatuses = None, rc_credentialPlacement = None,
     rc_defaultHeaders = [], rc_idempotencyHeader = Some ''idempotency-key'', rc_credentialHeaders = [], rc_capabilities = [tea_order], rc_test = None\<rparr>"

definition tea_call :: "string \<Rightarrow> unit ConnectorInvocation" where
  "tea_call key = \<lparr>inv_source = \<lparr>ds_id = ''s'', ds_projectId = ''p'', ds_publishedAgentId = None, ds_kind = ''tea'', ds_label = ''Tea'', ds_consistencyModel = ''cache'',
       ds_scopes = [], ds_metadata = [], ds_credentials = ApiKeyCredentials ''k'', ds_status = source_active\<rparr>,
     inv_capabilityName = ''orders.create'', inv_args = [(''leaf'', JStr ''oolong'')], inv_idempotencyKey = key, inv_expectedEtag = None,
     inv_callSessionId = None, inv_onCredentialsRotated = None\<rparr>"

theorem only_success_is_committed_witness:
  "\<exists>rp. restMutation tea_host tea_spec (\<lambda>_. []) (tea_call ''i-1'') () = (Inr (Committed JNull (Some ''7'') 5 False), ()) \<and> response_ok rp"
proof -
  have run: "restMutation tea_host tea_spec (\<lambda>_. []) (tea_call ''i-1'') () = (Inr (Committed JNull (Some ''7'') 5 False), ())" by code_simp
  have "\<not> rs_existenceCheck (op_request tea_order)" "readOperation tea_spec (inv_capabilityName (tea_call ''i-1'')) OperationMutation = Inr tea_order"
    by code_simp+
  with only_success_is_committed [OF run] run show ?thesis by auto
qed

text \<open>C33. The base a request goes to: a connector that lists base URLs or suffixes of hostnames sends requests to URLs resolved
  against such a base only, and one that asks for a public endpoint against a base that passes for one, whatever the
  metadata of the connection says; the path is the rendered template.\<close>

theorem requests_go_to_allowed_bases:
  assumes "buildRequest host spec req call required = Inr rq"
  shows "\<exists>base p. rh_resolve host p (if ends_with base ''/'' then base else base @ ''/'') = Some (rr_url rq) \<and>
     renderPath (rs_path req) (renderScope [] (inv_args call) (ds_metadata (inv_source call))) (rs_pathSegmentParameters req) = Inr p \<and>
     (rc_allowedBaseUrls spec = None \<and> rc_allowedBaseUrlSuffixes spec = None \<or>
       list_ex (\<lambda>u. sameUrl host u base) (nullish (rc_allowedBaseUrls spec) []) \<or>
       list_ex (hasHttpsHostnameSuffix host base) (nullish (rc_allowedBaseUrlSuffixes spec) [])) \<and>
     (\<not> rc_requirePublicHttpsBaseUrl spec \<or> isPublicHttpsUrl host base)"
proof -
  let ?scope = "renderScope [] (inv_args call) (ds_metadata (inv_source call))"
  have "rest_url_for host spec req (ds_metadata (inv_source call)) ?scope = Inr (rr_url rq)"
    using assms by (auto simp: buildRequest_def Let_def split: sum.splits prod.splits)
  then obtain base p where "resolveBaseUrl host spec (nullish (rs_baseUrl req) (rc_baseUrl spec)) (ds_metadata (inv_source call)) = Inr base"
    and p: "renderPath (rs_path req) ?scope (rs_pathSegmentParameters req) = Inr p"
      "rh_resolve host p (if ends_with base ''/'' then base else base @ ''/'') = Some (rr_url rq)"
    by (auto simp: rest_url_for_def split: sum.splits option.splits)
  then have "(rc_allowedBaseUrls spec = None \<and> rc_allowedBaseUrlSuffixes spec = None \<or>
       list_ex (\<lambda>u. sameUrl host u base) (nullish (rc_allowedBaseUrls spec) []) \<or>
       list_ex (hasHttpsHostnameSuffix host base) (nullish (rc_allowedBaseUrlSuffixes spec) []))"
    "\<not> rc_requirePublicHttpsBaseUrl spec \<or> isPublicHttpsUrl host base"
    by (auto simp: resolveBaseUrl_def split: sum.splits if_splits)
  with p show ?thesis by blast
qed

theorem requests_go_to_allowed_bases_witness:
  "\<exists>rq. buildRequest tea_host tea_spec (op_request tea_order) (tea_call ''i-1'') [] = Inr rq \<and> isPublicHttpsUrl tea_host ''https://api.tea.example'' \<and>
     rr_url rq = tea_url"
proof -
  obtain rq where rq: "buildRequest tea_host tea_spec (op_request tea_order) (tea_call ''i-1'') [] = Inr rq"
    by (cases "buildRequest tea_host tea_spec (op_request tea_order) (tea_call ''i-1'') []") (code_simp, blast)
  have "isPublicHttpsUrl tea_host ''https://api.tea.example''" by code_simp
  moreover from requests_go_to_allowed_bases [OF rq] have "rr_url rq = tea_url" by (auto simp: tea_host_def)
  ultimately show ?thesis using rq by blast
qed

text \<open>Likewise for a read.\<close>

theorem only_success_is_read:
  assumes "restRead host spec rules call w = (Inr r, w')"
  shows "\<exists>oper rq rp w1. readOperation spec (inv_capabilityName call) OperationRead = Inr oper \<and>
     buildRequest host spec (op_request oper) call (requiredArgsOf (op_parameters oper)) = Inr rq \<and>
     rh_fetch host rq w = (Inr rp, w1) \<and> (response_ok rp \<or> rs_existenceCheck (op_request oper) \<and> rp_status rp = 404)"
proof -
  obtain oper t w1 where n: "readOperation spec (inv_capabilityName call) OperationRead = Inr oper" and o:
    "executeRestRequest host spec (op_request oper) call (requiredArgsOf (op_parameters oper)) w = (Inr t, w1)" "rt_outcome t = None"
    and "rr_data r = rt_data t" by (rule read_run [OF assms])
  from executed [OF o(1)] obtain rq rp w2 where r: "buildRequest host spec (op_request oper) call (requiredArgsOf (op_parameters oper)) = Inr rq"
    "rh_fetch host rq w = (Inr rp, w2)" "taken_for spec (op_request oper) rp t" by blast
  from r(3) o(2) have s: "response_ok rp \<or> rs_existenceCheck (op_request oper) \<and> rp_status rp = 404" by (simp add: taken_for_def)
  show ?thesis by (intro exI conjI) (fact n, fact r(1), fact r(2), fact s)
qed

text \<open>An idempotency key is rendered as a template: one of the form \<open>{x}\<close> names an argument, and the header is
  dropped when there is no such argument.\<close>

theorem braced_idempotency_key_is_not_sent:
  "rs_headers (mutation_request tea_spec tea_order ''{order}'') = [(''idempotency-key'', ''{order}'')] \<and>
   renderHeaders [(''idempotency-key'', ''{order}'')] (renderScope [] (inv_args (tea_call ''{order}'')) []) False [] = Inr []"
proof -
  have "rs_headers (mutation_request tea_spec tea_order ''{order}'') = [(''idempotency-key'', ''{order}'')]"
    by (simp add: mutation_request_def tea_spec_def tea_order_def truthy_def)
  moreover have "renderHeaders [(''idempotency-key'', ''{order}'')] (renderScope [] (inv_args (tea_call ''{order}'')) []) False [] = Inr []" by code_simp
  ultimately show ?thesis by simp
qed

text \<open>A name with a final dot names the same host; it passes for a public one.\<close>

theorem rooted_localhost_passes_for_public:
  "isPublicHttpsUrl (tea_host\<lparr>rh_parse := \<lambda>s. Some (tea_url\<lparr>u_hostname := ''localhost.''\<rparr>)\<rparr>) ''https://localhost./'' \<and>
   \<not> isPublicHttpsUrl (tea_host\<lparr>rh_parse := \<lambda>s. Some (tea_url\<lparr>u_hostname := ''localhost''\<rparr>)\<rparr>) ''https://localhost/''"
proof -
  have "unbracketed (map to_lower ''localhost.'') = ''localhost.''" "unbracketed (map to_lower ''localhost'') = ''localhost''" by code_simp+
  moreover have "\<not> list_ex (ends_with ''localhost.'') [''.localhost'', ''.local'', ''.internal'', ''.home.arpa'']" by code_simp
  ultimately show ?thesis by (simp add: isPublicHttpsUrl_def tea_url_def tea_host_def)
qed

end
