(* ===== verification/Spec2Isabelle.thy ===== *)
theory Spec2Isabelle
  imports Journal StripeDispatcher BillingAccess Credentials Sandbox Messaging Health Rest
begin

text \<open>
  This development models the core of the agent-integrations library (the TypeScript sources under \<open>src/src\<close>;
  file names below are relative to it) and proves what its components promise. The library stands between agents
  and the services of third parties. A hub keeps connections of owners to connectors, hands out signed capability
  tokens and runs actions behind policies and guards; runtimes grant an app what its manifest asks for; bridges and
  sandboxes carry grants to an agent; credentials are refreshed and revoked; webhooks and provider events come in and
  are told from duplicates; and a billing side turns Stripe events into subscription records that decide who gets access.

  \<^bold>\<open>How the parts work together.\<close> A request of an agent is an envelope (\<open>sandbox.ts\<close>) or a bearer call
  (\<open>delegated-tools/\<close>); the hub verifies the token, loads the connection, checks scopes and policy, wraps the
  action into guards (\<open>guard.ts\<close>, with approvals from \<open>approval.ts\<close>) and calls a provider
  (\<open>catalog-executor.ts\<close>, \<open>adapter-provider.ts\<close>), which calls an adapter
  (\<open>connectors/types.ts\<close>, \<open>connectors/adapters/declarative-rest.ts\<close>). What can be called comes from the
  registry (\<open>registry-core.ts\<close>) and is shown under the names of the catalog (\<open>catalog.ts\<close>). Deliveries
  of webhooks claim their events in an atomic store (\<open>idempotency.ts\<close>) before they are handled, the Stripe
  dispatcher (\<open>stripe/webhooks.ts\<close>) among the handlers, and provider events go through an event store to the
  installed workflows (\<open>events.ts\<close>, \<open>workflow.ts\<close>).

  \<^bold>\<open>Conventions.\<close> An asynchronous operation is a function \<open>('w, exn, 'a) io\<close> from a world to an error
  or a value and the next world (\<open>Prelude\<close>); \<open>andThen\<close> is \<open>await\<close>, \<open>throw\<close> and
  \<open>tryCatch\<close> are what their names say. Interfaces of the host (stores, sinks, clocks,
  \<open>fetch\<close>, provider plug-ins) are records of such operations and arguments of the definitions. Where awaited
  calls of several callers interleave and this matters, the component is a step relation instead: racing processes on
  the journal files, the operations on one secret, and overlapping deliveries of provider events. Objects with an order of keys are association lists; absent
  properties are \<open>None\<close>. Names of definitions are those of the code, with a prefix for record fields.

  \<^bold>\<open>Theories and sources.\<close>
  \<^item> \<open>Prelude\<close>, \<open>Errors\<close>, \<open>Json\<close>, \<open>JsonText\<close>, \<open>Core\<close>: the values of the language, the effect type and
    its rules (collection \<open>io_defs\<close>); the error codes of \<open>core-error.ts\<close>, \<open>errors.ts\<close>,
    \<open>stripe/errors.ts\<close>; JSON values and their text with the round trip that other theories rest on; the
    contracts of \<open>core-types.ts\<close>.
  \<^item> \<open>Idempotency\<close>, \<open>Journal\<close>: \<open>idempotency.ts\<close>. The locale \<open>atomic_store\<close> states what a claim store
    promises and is interpreted on the process-local store. The store on the file system is a system of processes whose
    atomic steps are single file operations; its files represent a legal journal, and the lemmas show that each step
    refines one legal append, that a completion begun by an owner resolves only when it is recorded for good, that a takeover needs an expired lease, and that the
    walk along the files is linearizable.
  \<^item> \<open>Webhooks\<close>, \<open>Signatures\<close>, \<open>WebhookPlugins\<close>, \<open>Messaging\<close>: \<open>webhooks/router.ts\<close>, the whole request path over
    the claim store; the signature schemes of \<open>connectors/webhooks.ts\<close>; the providers of \<open>webhooks/providers.ts\<close>,
    \<open>webhooks/messaging.ts\<close>, \<open>webhooks/whatsapp.ts\<close>, \<open>webhooks/cloudbeds.ts\<close> and \<open>webhooks/twilio.ts\<close> as
    plug-ins of the router.
  \<^item> \<open>Subscription\<close>, \<open>StripeDispatcher\<close>: \<open>stripe/subscription-state.ts\<close> and \<open>stripe/webhooks.ts\<close>. The state
    table, both stores as instances of the locales \<open>cas_store\<close> and \<open>versioned_store\<close>, every handler, the
    compare-and-set loops, reconciliation and delivery; records evolve by legal changes only, whatever interferes.
  \<^item> \<open>BillingAccess\<close>: \<open>billing-access-policy.ts\<close> and \<open>stripe/middleware.ts\<close>.
  \<^item> \<open>Redaction\<close>, \<open>AuditTrail\<close>, \<open>Guard\<close>, \<open>Policy\<close>: \<open>redaction.ts\<close>, \<open>audit.ts\<close>, \<open>guard.ts\<close>,
    \<open>policy.ts\<close> with \<open>approval.ts\<close>; locales \<open>result_store\<close> and \<open>approval_store\<close>, each interpreted on the
    in-memory store of the code.
  \<^item> \<open>Base64\<close>: \<open>base64.ts\<close>, \<open>web-crypto.ts\<close> and the two private copies of the codec, on 8-bit words.
  \<^item> \<open>Hub\<close>: \<open>hub.ts\<close> with its in-memory stores; locale \<open>oauth_state_store\<close>.
  \<^item> \<open>Registry\<close>, \<open>Catalog\<close>: \<open>registry-core.ts\<close>, \<open>integration-kind-aliases.ts\<close>, \<open>catalog.ts\<close>; the support
    tiers are an instance of \<open>linorder\<close>, the alias table a locale.
  \<^item> \<open>Runtime\<close>, \<open>Workflow\<close>: \<open>runtime.ts\<close>, \<open>workflow.ts\<close>; locale \<open>grant_store\<close>, extended by \<open>routing\<close>.
  \<^item> \<open>Connectors\<close>, \<open>Credentials\<close>, \<open>Events\<close>: \<open>connectors/types.ts\<close>, \<open>credentials.ts\<close>, \<open>events.ts\<close>.
    The operations on one secret are a step relation with a token per pending call. The receiver of provider events
    is a function for a delivery that runs alone and a step relation for deliveries that overlap, and the first is
    shown to be a run of the second; locale \<open>event_store\<close>.
  \<^item> \<open>Bridge\<close>, \<open>Sandbox\<close>, \<open>Delegated\<close>: \<open>bridge.ts\<close>, \<open>sandbox.ts\<close>, \<open>delegated-tools/\<close>.
  \<^item> \<open>Manifests\<close>: \<open>manifest.ts\<close>, \<open>consent.ts\<close>, \<open>passthrough.ts\<close> and one function of \<open>actions.ts\<close>.
  \<^item> \<open>Providers\<close>, \<open>Health\<close>: \<open>catalog-executor.ts\<close>, \<open>adapter-provider.ts\<close>, \<open>healthcheck.ts\<close>.
  \<^item> \<open>RestTemplates\<close>, \<open>Rest\<close>: \<open>connectors/adapters/declarative-rest.ts\<close>, the transport that most of the
    provider adapters are specifications of.

  \<^bold>\<open>What the groups of lemmas show.\<close> Claims and stores: exclusiveness of claims, finality of completions,
  compare-and-set. Billing: the state table is kept, terminal states are kept, access rests on verified evidence bound
  to its subject or on a paying subscription. Authority: whatever stands behind the providers matters to a call of the
  hub, of a sandbox or of a delegated tool only when token, connection, scopes, policy and lease authorise it; an
  action listed as a read never reaches a mutation; approvals stand for the request they were given for. Webhooks: what
  gets past the router was signed over its own body, and a callback delivers messages of its own account only. Secrets: tokens
  verify only when they were signed, a revocation leaves no credentials behind, redacted values hold nothing private.
  Grants and routing: grants, bundles and the tools of a sandbox rest on active connections, an event goes to exactly
  the workflows whose grants cover it, and is taken again only by a delivery that overlaps the one that took it, which
  can happen. Requests: arguments stay in their place of a path, can not
  change the tenant, bases obey the policy of the connector, and only an answer of success is reported as one. Round trips: base64url, tool names,
  capability tokens, the environment of a sandbox and JSON. The theorems that name a deviation of the code from its
  intent (a failed audit reported as a failed action, an alias that hides a risk, a braced idempotency key that is not
  sent, and others) state the behaviour as it is.

  \<^bold>\<open>Bounds and fuel.\<close> The walk along a journal follows the code's cap of 100000 records, and the lemmas give its
  result on both sides of the cap. The parser of JSON has fuel of twice the length of its text and two, which the round
  trip shows to be enough for every text that \<open>stringify\<close> makes. The alias loop needs no fuel: it ends because the
  aliases it has seen are among those of the table, which bounds its rounds. The compare-and-set loops of the dispatcher
  have the retry counts of the code. Bytes are 8-bit words, the comparison of tokens is on 32-bit words, safe integers are bounded by \<open>2^53\<close>. Other
  numbers are integers, or the values that are not finite; fractions do not occur in what is modelled, except scores of
  the search, which are counted in quarters.

  \<^bold>\<open>Parameters.\<close> The JWT library, HMAC and SHA-256 of the platform, \<open>Date\<close>, \<open>localeCompare\<close>, the URL
  parser, regular expressions, \<open>fetch\<close> and the decoders of bodies are not code of the repository: they are arguments,
  and theorems that need a fact about them (that a date is read back, that an encoding is injective) say so.

  \<^bold>\<open>Not modelled.\<close>
  \<^item> Characters above code unit 255, fractions, and the prototypes of objects: an object has the properties it was given.
    JSON of a type other than the declared one is rejected or taken as absent where the code would go on with it.
  \<^item> Calls started together by \<open>Promise.all\<close> run in order, where no theorem speaks about their interleaving. Timers and
    abort signals are left out.
  \<^item> Failures of the disk in the subscription store, other than a name that is taken, and credentials without a
    connection store.
  \<^item> Messages of foreign errors as \<open>errors.ts\<close> classifies them by text.
  \<^item> In \<open>adapter-provider.ts\<close> the start and completion of OAuth, connecting by API key and testing a connection; in
    \<open>declarative-rest.ts\<close> requests signed with AWS SigV4 or OAuth 1.0a. These are exchanges with servers and
    signature schemes whose correctness is agreement with documents outside the repository.
  \<^item> The adapters of single providers, the catalogs, bundled manifests, integration specs and triggers: data, and code
    that shapes requests for one service. The parsers of conversation events, provisioning of numbers, the search client and
    protocol servers are thin layers over the services they speak to.
\<close>

end
